(* ===== verification/Prelude.thy ===== *)
theory Prelude
  imports Main "HOL-Library.Sublist"
begin

text \<open>
  Shared vocabulary of the development: Rust text and slices.

  A Rust \<open>&str\<close> is modelled as a list of Unicode scalar values taken from U+0000..U+00FF, one
  HOL \<open>char\<close> per scalar value.  On that fragment the standard library's character classes are
  written out exactly (\<open>is_whitespace\<close>, \<open>is_alphanumeric\<close>, \<open>to_lowercase\<close>), and
  \<open>utf8_len\<close> is \<open>str::len\<close>, which counts bytes.  Scanners of the source that walk over
  bytes only ever test for ASCII bytes, which no byte of a longer UTF-8 sequence equals, so they
  are modelled on characters.

  The collections \<open>text_simps\<close> and \<open>kernel_defs\<close> gather the equations the component
  theories use for reasoning and for evaluating closed terms.
\<close>

named_theorems text_simps \<open>equations about trimming, splitting and slicing\<close>
named_theorems kernel_defs \<open>definitions unfolded when a closed term is evaluated\<close>

section \<open>Characters\<close>

text \<open>The dash U+2014 of some message literals lies outside the fragment; it stands here as the three
  bytes of its UTF-8 encoding.  No modelled operation inspects it.\<close>

definition em_dash :: string where
  "em_dash = [CHR 0xE2, CHR 0x80, CHR 0x94]"

text \<open>Decimal digits, as \<open>format!("{}")\<close> prints an unsigned integer.\<close>

fun show_nat :: "nat \<Rightarrow> string" where
  "show_nat n = (if n < 10 then [char_of (48 + n)] else show_nat (n div 10) @ [char_of (48 + n mod 10)])"

declare show_nat.simps [simp del]

definition char_code :: "char \<Rightarrow> nat" where
  "char_code c = of_char c"

text \<open>\<open>char::is_whitespace\<close> on U+0000..U+00FF: tab, LF, VT, FF, CR, space, NEL, NBSP.\<close>

definition whitespace_chars :: "char list" where
  "whitespace_chars = [CHR '' '', CHR 0x09, CHR 0x0A, CHR 0x0B, CHR 0x0C, CHR 0x0D, CHR 0x85, CHR 0xA0]"

definition is_whitespace :: "char \<Rightarrow> bool" where
  "is_whitespace c \<longleftrightarrow> c \<in> set whitespace_chars"

text \<open>\<open>u8::is_ascii_whitespace\<close>: unlike the above it leaves out VT.\<close>

definition is_ascii_whitespace :: "char \<Rightarrow> bool" where
  "is_ascii_whitespace c \<longleftrightarrow> c \<in> set [CHR '' '', CHR 0x09, CHR 0x0A, CHR 0x0C, CHR 0x0D]"

definition is_ascii_upper :: "char \<Rightarrow> bool" where
  "is_ascii_upper c \<longleftrightarrow> 65 \<le> char_code c \<and> char_code c \<le> 90"

definition is_ascii_lower :: "char \<Rightarrow> bool" where
  "is_ascii_lower c \<longleftrightarrow> 97 \<le> char_code c \<and> char_code c \<le> 122"

definition is_ascii_digit :: "char \<Rightarrow> bool" where
  "is_ascii_digit c \<longleftrightarrow> 48 \<le> char_code c \<and> char_code c \<le> 57"

definition is_ascii_alphabetic :: "char \<Rightarrow> bool" where
  "is_ascii_alphabetic c \<longleftrightarrow> is_ascii_upper c \<or> is_ascii_lower c"

definition is_ascii_alphanumeric :: "char \<Rightarrow> bool" where
  "is_ascii_alphanumeric c \<longleftrightarrow> is_ascii_alphabetic c \<or> is_ascii_digit c"

text \<open>\<open>char::to_lowercase\<close>: on this fragment A-Z and the capital letters U+00C0..U+00DE
  except the multiplication sign U+00D7 move up by 32.\<close>

definition lower_char :: "char \<Rightarrow> char" where
  "lower_char c =
     (if is_ascii_upper c \<or> (192 \<le> char_code c \<and> char_code c \<le> 222 \<and> char_code c \<noteq> 215)
      then char_of (char_code c + 32) else c)"

definition to_lowercase :: "string \<Rightarrow> string" where
  "to_lowercase = map lower_char"

definition utf8_len :: "string \<Rightarrow> nat" where
  "utf8_len s = sum_list (map (\<lambda>c. if char_code c < 128 then 1 else 2) s)"

lemmas char_class_defs [kernel_defs] =
  char_code_def whitespace_chars_def is_whitespace_def is_ascii_whitespace_def is_ascii_upper_def
  is_ascii_lower_def is_ascii_digit_def is_ascii_alphabetic_def is_ascii_alphanumeric_def
  lower_char_def to_lowercase_def utf8_len_def

section \<open>Trimming\<close>

definition trim_start :: "string \<Rightarrow> string" where
  "trim_start s = dropWhile is_whitespace s"

definition trim_end :: "string \<Rightarrow> string" where
  "trim_end s = rev (dropWhile is_whitespace (rev s))"

definition trim :: "string \<Rightarrow> string" where
  "trim s = trim_end (trim_start s)"

lemmas trim_defs [kernel_defs] = trim_start_def trim_end_def trim_def

lemma trim_start_Nil [simp]: "trim_start [] = []"
  by (simp add: trim_start_def)

lemma trim_end_Nil [simp]: "trim_end [] = []"
  by (simp add: trim_end_def)

lemma trim_Nil [simp]: "trim [] = []"
  by (simp add: trim_def)

lemma trim_start_id: "s = [] \<or> \<not> is_whitespace (hd s) \<Longrightarrow> trim_start s = s"
  by (cases s) (auto simp: trim_start_def)

lemma trim_end_id: "s = [] \<or> \<not> is_whitespace (last s) \<Longrightarrow> trim_end s = s"
  by (cases s rule: rev_cases) (auto simp: trim_end_def)

lemma trim_start_hd: "trim_start s \<noteq> [] \<Longrightarrow> \<not> is_whitespace (hd (trim_start s))"
  by (simp add: trim_start_def hd_dropWhile)

lemma trim_end_last: "trim_end s \<noteq> [] \<Longrightarrow> \<not> is_whitespace (last (trim_end s))"
  by (simp add: trim_end_def last_rev hd_dropWhile)

lemma trim_start_idem [simp]: "trim_start (trim_start s) = trim_start s"
  by (rule trim_start_id) (use trim_start_hd in blast)

lemma trim_end_idem [simp]: "trim_end (trim_end s) = trim_end s"
  by (rule trim_end_id) (use trim_end_last in blast)

lemma prefix_trim_end: "prefix (trim_end s) s"
proof -
  have "suffix (dropWhile is_whitespace (rev s)) (rev s)"
    by (rule suffix_dropWhile)
  then show ?thesis
    by (simp add: trim_end_def suffix_to_prefix)
qed

lemma trim_end_hd: "trim_end s \<noteq> [] \<Longrightarrow> hd (trim_end s) = hd s"
  using prefix_trim_end [of s] by (metis hd_append2 prefix_def)

lemma trim_start_trim_end [simp]:
  assumes "trim_start s = s"
  shows "trim_start (trim_end s) = trim_end s"
proof (rule trim_start_id)
  show "trim_end s = [] \<or> \<not> is_whitespace (hd (trim_end s))"
    using assms trim_end_hd [of s] trim_start_hd [of s] by (metis trim_end_Nil)
qed

lemma trim_idem [simp]: "trim (trim s) = trim s"
  by (simp add: trim_def)

lemma trim_start_of_trim [simp]: "trim_start (trim s) = trim s"
  by (simp add: trim_def)

lemma trim_end_of_trim [simp]: "trim_end (trim s) = trim s"
  by (simp add: trim_def)

lemma trim_id: "s = [] \<or> \<not> is_whitespace (hd s) \<and> \<not> is_whitespace (last s) \<Longrightarrow> trim s = s"
  by (auto simp: trim_def trim_start_id trim_end_id)

lemma length_trim_start_le: "length (trim_start s) \<le> length s"
  by (simp add: trim_start_def length_dropWhile_le)

lemma length_trim_end_le: "length (trim_end s) \<le> length s"
  using prefix_trim_end prefix_length_le by blast

lemma set_trim_start: "set (trim_start s) \<subseteq> set s"
  by (auto simp: trim_start_def dest: set_dropWhileD)

lemma set_trim_end: "set (trim_end s) \<subseteq> set s"
  using prefix_trim_end set_mono_prefix by blast

lemma set_trim: "set (trim s) \<subseteq> set s"
  using set_trim_start set_trim_end by (fastforce simp: trim_def)

section \<open>Searching, splitting and joining\<close>

text \<open>\<open>str::find\<close> for a character and for a string: the first position, if there is one.\<close>

fun find_char_at :: "char \<Rightarrow> string \<Rightarrow> nat option" where
  "find_char_at c [] = None"
| "find_char_at c (d # s) = (if d = c then Some 0 else map_option Suc (find_char_at c s))"

fun find_str :: "string \<Rightarrow> string \<Rightarrow> nat option" where
  "find_str sub [] = (if sub = [] then Some 0 else None)"
| "find_str sub (c # s) = (if prefix sub (c # s) then Some 0 else map_option Suc (find_str sub s))"

abbreviation contains_str :: "string \<Rightarrow> string \<Rightarrow> bool" where
  "contains_str s sub \<equiv> sublist sub s"

fun split_char :: "char \<Rightarrow> string \<Rightarrow> string list" where
  "split_char d [] = [[]]"
| "split_char d (c # s) =
     (if c = d then [] # split_char d s
      else (case split_char d s of p # ps \<Rightarrow> (c # p) # ps | [] \<Rightarrow> [[c]]))"

definition split_once :: "char \<Rightarrow> string \<Rightarrow> (string \<times> string) option" where
  "split_once d s =
     (case find_char_at d s of None \<Rightarrow> None | Some i \<Rightarrow> Some (take i s, drop (Suc i) s))"

definition strip_prefix :: "string \<Rightarrow> string \<Rightarrow> string option" where
  "strip_prefix p s = (if prefix p s then Some (drop (length p) s) else None)"

definition strip_suffix :: "string \<Rightarrow> string \<Rightarrow> string option" where
  "strip_suffix p s = (if suffix p s then Some (take (length s - length p) s) else None)"

fun join_with :: "string \<Rightarrow> string list \<Rightarrow> string" where
  "join_with sep [] = []"
| "join_with sep [s] = s"
| "join_with sep (s # t # ss) = s @ sep @ join_with sep (t # ss)"

definition slice :: "'a list \<Rightarrow> nat \<Rightarrow> nat \<Rightarrow> 'a list" where
  "slice xs a b = take (b - a) (drop a xs)"

lemmas search_defs [kernel_defs] =
  suffix_to_prefix
  split_once_def strip_prefix_def strip_suffix_def slice_def

lemma split_char_neq_Nil [simp]: "split_char d s \<noteq> []"
  by (induction s) (auto split: list.splits)

lemma split_char_no_sep:
  "p \<in> set (split_char d s) \<Longrightarrow> d \<notin> set p"
proof (induction s arbitrary: p)
  case (Cons c s)
  obtain q qs where split: "split_char d s = q # qs"
    by (meson neq_Nil_conv split_char_neq_Nil)
  with Cons show ?case
    by (auto split: if_splits)
qed simp

lemma join_split_char: "join_with [d] (split_char d s) = s"
proof (induction s)
  case (Cons c s)
  obtain p ps where split: "split_char d s = p # ps"
    by (meson neq_Nil_conv split_char_neq_Nil)
  with Cons show ?case
    by (cases ps) auto
qed simp

lemma split_char_plain: "d \<notin> set s \<Longrightarrow> split_char d s = [s]"
  by (induction s) auto

lemma split_char_append: "d \<notin> set a \<Longrightarrow> split_char d (a @ d # b) = a # split_char d b"
  by (induction a) auto

lemma split_char_mid: "split_char d (a @ d # b) = split_char d a @ split_char d b"
proof (induction a)
  case (Cons c a)
  obtain p ps where "split_char d a = p # ps"
    by (meson neq_Nil_conv split_char_neq_Nil)
  with Cons show ?case by simp
qed simp

lemma strip_prefix_append [simp]: "strip_prefix p (p @ s) = Some s"
  by (simp add: strip_prefix_def)

lemma strip_suffix_append [simp]: "strip_suffix p (s @ p) = Some s"
  by (simp add: strip_suffix_def suffix_def)

lemma strip_suffix_Some: "strip_suffix p s = Some r \<longleftrightarrow> s = r @ p"
  by (auto simp: strip_suffix_def suffix_def)

lemma strip_prefix_Some: "strip_prefix p s = Some r \<longleftrightarrow> s = p @ r"
  by (auto simp: strip_prefix_def prefix_def)

lemma find_char_at_None: "find_char_at c s = None \<longleftrightarrow> c \<notin> set s"
  by (induction s) auto

lemma find_char_at_append: "c \<notin> set a \<Longrightarrow> find_char_at c (a @ c # b) = Some (length a)"
  by (induction a) auto

lemma find_char_at_Some:
  "find_char_at c s = Some i \<Longrightarrow> i < length s \<and> s ! i = c \<and> c \<notin> set (take i s)"
  by (induction s arbitrary: i) (auto split: if_splits)

lemma split_once_append: "d \<notin> set a \<Longrightarrow> split_once d (a @ d # b) = Some (a, b)"
  by (simp add: split_once_def find_char_at_append)

lemma length_slice_le: "length (slice xs a b) \<le> b - a"
  by (simp add: slice_def)

lemma length_slice_less: "a < length xs \<Longrightarrow> length (slice xs (Suc a) b) < length xs"
  by (simp add: slice_def)

lemma set_slice_subset: "set (slice xs a b) \<subseteq> set xs"
  by (auto simp: slice_def dest: in_set_takeD in_set_dropD)

section \<open>Lists\<close>

text \<open>\<open>slice::sort_by\<close> is a stable sort; \<open>le a b\<close> says that the comparison of \<open>a\<close> with \<open>b\<close> does not answer
  \<open>Greater\<close>.\<close>

fun insort_by :: "('a \<Rightarrow> 'a \<Rightarrow> bool) \<Rightarrow> 'a \<Rightarrow> 'a list \<Rightarrow> 'a list" where
  "insort_by le x [] = [x]"
| "insort_by le x (y # ys) = (if le x y then x # y # ys else y # insort_by le x ys)"

definition sort_by :: "('a \<Rightarrow> 'a \<Rightarrow> bool) \<Rightarrow> 'a list \<Rightarrow> 'a list" where
  "sort_by le xs = foldr (insort_by le) xs []"

lemma set_insort_by [simp]: "set (insort_by le x ys) = insert x (set ys)"
  by (induction ys) auto

lemma set_sort_by [simp]: "set (sort_by le xs) = set xs"
  unfolding sort_by_def by (induction xs) auto

lemma length_insort_by [simp]: "length (insort_by le x ys) = Suc (length ys)"
  by (induction ys) auto

lemma length_sort_by [simp]: "length (sort_by le xs) = length xs"
  unfolding sort_by_def by (induction xs) auto

lemma sorted_insort_by:
  assumes "\<And>a b. le a b \<or> le b a" "\<And>a b c. le a b \<Longrightarrow> le b c \<Longrightarrow> le a c" "sorted_wrt le ys"
  shows "sorted_wrt le (insort_by le x ys)"
  using assms(3)
proof (induction ys)
  case (Cons y ys)
  have "le y x" if "\<not> le x y" using assms(1) [of x y] that by blast
  with Cons show ?case by (auto intro: assms(2))
qed simp

lemma sorted_sort_by:
  assumes "\<And>a b. le a b \<or> le b a" "\<And>a b c. le a b \<Longrightarrow> le b c \<Longrightarrow> le a c"
  shows "sorted_wrt le (sort_by le xs)"
  unfolding sort_by_def
  by (induction xs) (simp_all add: sorted_insort_by [of le, OF assms])

lemma find_SomeD: "List.find P xs = Some x \<Longrightarrow> x \<in> set xs \<and> P x"
  by (induction xs) (auto split: if_splits)

lemma set_map_filter: "y \<in> set (List.map_filter f xs) \<longleftrightarrow> (\<exists>x \<in> set xs. f x = Some y)"
  by (induction xs) (auto simp: List.map_filter_simps split: option.splits)

lemma enumerate_mem: "(i, x) \<in> set (List.enumerate n xs) \<Longrightarrow> x \<in> set xs"
  by (induction xs arbitrary: n) auto

lemma enumerate_nth: "(i, x) \<in> set (List.enumerate 0 xs) \<longleftrightarrow> i < length xs \<and> xs ! i = x"
  by (auto simp: in_set_enumerate_eq)

end
