(* ===== verification/Ssrf.thy ===== *)
theory Ssrf
  imports Prelude
begin

text \<open>
  The guard of HTTP hooks against addresses of the own network, \<open>crates/hooks/src/runner/ssrf.rs\<close>, with the reading
  of IP literals as \<open>std::net\<close> does it.  Name resolution is a parameter: the addresses of a host, or \<open>None\<close> when
  the lookup fails.
\<close>

section \<open>IP literals\<close>

datatype ip_addr = IpV4 "int list" | IpV6 "int list"

definition is_hex_digit :: "char \<Rightarrow> bool" where
  "is_hex_digit c \<longleftrightarrow> is_ascii_digit c \<or> (c \<in> set ''abcdefABCDEF'')"

definition digit_value :: "char \<Rightarrow> int" where
  "digit_value c =
     (let n = int (char_code c)
      in if is_ascii_digit c then n - 48 else if is_ascii_upper c then n - 55 else n - 87)"

definition number_value :: "int \<Rightarrow> string \<Rightarrow> int" where
  "number_value base ds = foldl (\<lambda>v c. v * base + digit_value c) 0 ds"

text \<open>\<open>read_number\<close>: an octet without leading zeros, or a group of at most four hexadecimal digits.\<close>

definition read_octet :: "string \<Rightarrow> (int \<times> string) option" where
  "read_octet s =
     (let ds = takeWhile is_ascii_digit s
      in if ds = [] \<or> 3 < length ds \<or> (hd ds = CHR ''0'' \<and> 1 < length ds) \<or> 255 < number_value 10 ds then None
         else Some (number_value 10 ds, drop (length ds) s))"

definition read_group :: "string \<Rightarrow> (int \<times> string) option" where
  "read_group s =
     (let ds = takeWhile is_hex_digit s
      in if ds = [] \<or> 4 < length ds then None else Some (number_value 16 ds, drop (length ds) s))"

definition read_separated :: "char \<Rightarrow> nat \<Rightarrow> (string \<Rightarrow> ('a \<times> string) option) \<Rightarrow> string \<Rightarrow> ('a \<times> string) option" where
  "read_separated sep i reader s =
     (if i = 0 then reader s else case s of c # cs \<Rightarrow> (if c = sep then reader cs else None) | [] \<Rightarrow> None)"

fun read_octets :: "nat \<Rightarrow> nat \<Rightarrow> string \<Rightarrow> (int list \<times> string) option" where
  "read_octets 0 i s = Some ([], s)"
| "read_octets (Suc n) i s =
     (case read_separated (CHR ''.'') i read_octet s of
        None \<Rightarrow> None
      | Some (v, rest) \<Rightarrow>
          (case read_octets n (Suc i) rest of None \<Rightarrow> None | Some (vs, rest') \<Rightarrow> Some (v # vs, rest')))"

definition read_ipv4 :: "string \<Rightarrow> (int list \<times> string) option" where
  "read_ipv4 s = read_octets 4 0 s"

fun read_groups :: "nat \<Rightarrow> nat \<Rightarrow> string \<Rightarrow> int list \<times> bool \<times> string" where
  "read_groups 0 i s = ([], False, s)"
| "read_groups (Suc left) i s =
     (case (if 0 < left then read_separated (CHR '':'') i read_ipv4 s else None) of
        Some (v4, rest) \<Rightarrow> ([v4 ! 0 * 256 + v4 ! 1, v4 ! 2 * 256 + v4 ! 3], True, rest)
      | None \<Rightarrow>
          (case read_separated (CHR '':'') i read_group s of
             Some (g, rest) \<Rightarrow> (case read_groups left (Suc i) rest of (gs, v4, rest') \<Rightarrow> (g # gs, v4, rest'))
           | None \<Rightarrow> ([], False, s)))"

definition read_ipv6 :: "string \<Rightarrow> (int list \<times> string) option" where
  "read_ipv6 s =
     (case read_groups 8 0 s of
        (front, v4, rest) \<Rightarrow>
          (if length front = 8 then Some (front, rest)
           else if v4 then None
           else if \<not> prefix ''::'' rest then None
           else (case read_groups (7 - length front) 0 (drop 2 rest) of
                   (back, _, rest') \<Rightarrow>
                     Some (front @ replicate (8 - length front - length back) 0 @ back, rest'))))"

definition parse_ip :: "string \<Rightarrow> ip_addr option" where
  "parse_ip s =
     (case read_ipv4 s of
        Some (v4, []) \<Rightarrow> Some (IpV4 v4)
      | _ \<Rightarrow> (case read_ipv6 s of Some (v6, []) \<Rightarrow> Some (IpV6 v6) | _ \<Rightarrow> None))"

section \<open>The guard\<close>

datatype ssrf_error =
    PrivateIp ip_addr string
  | HostResolvesToPrivate string ip_addr string
  | UrlParse string
  | UnclosedIpv6 string
  | EmptyHost string

definition is_private_ip :: "ip_addr \<Rightarrow> bool" where
  "is_private_ip ip =
     (case ip of
        IpV4 v \<Rightarrow>
          v ! 0 = 127 \<or> v ! 0 = 10 \<or> (v ! 0 = 172 \<and> 16 \<le> v ! 1 \<and> v ! 1 \<le> 31)
          \<or> (v ! 0 = 192 \<and> v ! 1 = 168) \<or> (v ! 0 = 169 \<and> v ! 1 = 254)
      | IpV6 v \<Rightarrow> v = [0, 0, 0, 0, 0, 0, 0, 1])"

definition parse_host_from_url :: "string \<Rightarrow> ssrf_error + string" where
  "parse_host_from_url url =
     (case find_str ''://'' url of
        None \<Rightarrow> Inl (UrlParse url)
      | Some i \<Rightarrow>
          (let host_port = hd (split_char (CHR ''/'') (drop (i + 3) url))
           in if prefix ''['' host_port
              then (case find_char_at (CHR '']'') host_port of
                      None \<Rightarrow> Inl (UnclosedIpv6 url)
                    | Some j \<Rightarrow>
                        (let host = slice host_port 1 j
                         in if host = [] then Inl (EmptyHost url) else Inr host))
              else (let host = hd (split_char (CHR '':'') host_port)
                    in if host = [] then Inl (EmptyHost url) else Inr host)))"

definition ssrf_check_url :: "(string \<Rightarrow> ip_addr list option) \<Rightarrow> string \<Rightarrow> ssrf_error option" where
  "ssrf_check_url lookup url =
     (case parse_host_from_url url of
        Inl e \<Rightarrow> Some e
      | Inr host \<Rightarrow>
          (case parse_ip host of
             Some ip \<Rightarrow> (if is_private_ip ip then Some (PrivateIp ip url) else None)
           | None \<Rightarrow>
               (case lookup host of
                  None \<Rightarrow> None
                | Some ips \<Rightarrow>
                    (case List.find is_private_ip ips of
                       Some ip \<Rightarrow> Some (HostResolvesToPrivate host ip url)
                     | None \<Rightarrow> None))))"

lemmas ssrf_defs [kernel_defs] =
  is_hex_digit_def digit_value_def number_value_def read_octet_def read_group_def read_separated_def read_ipv4_def
  read_ipv6_def parse_ip_def is_private_ip_def parse_host_from_url_def ssrf_check_url_def

section \<open>What the guard lets through\<close>

text \<open>A request the guard lets through goes to a host none of whose addresses, as far as they are known, is
  private.\<close>

theorem passed_host_is_public:
  assumes "ssrf_check_url lookup url = None"
  obtains host where "parse_host_from_url url = Inr host"
    and "\<And>ip. parse_ip host = Some ip \<Longrightarrow> \<not> is_private_ip ip"
    and "\<And>ips ip. parse_ip host = None \<Longrightarrow> lookup host = Some ips \<Longrightarrow> ip \<in> set ips \<Longrightarrow> \<not> is_private_ip ip"
proof -
  obtain host where host: "parse_host_from_url url = Inr host"
    using assms by (auto simp: ssrf_check_url_def split: sum.splits)
  show thesis
  proof (rule that [OF host])
    show "parse_ip host = Some ip \<Longrightarrow> \<not> is_private_ip ip" for ip
      using assms host by (auto simp: ssrf_check_url_def split: if_splits)
    show "parse_ip host = None \<Longrightarrow> lookup host = Some ips \<Longrightarrow> ip \<in> set ips \<Longrightarrow> \<not> is_private_ip ip" for ips ip
      using assms host by (auto simp: ssrf_check_url_def find_None_iff split: option.splits)
  qed
qed

text \<open>A URL that names a private address as a literal is refused whatever the name service says.\<close>

theorem private_literal_is_refused:
  assumes "parse_host_from_url url = Inr host" "parse_ip host = Some ip" "is_private_ip ip"
  shows "ssrf_check_url lookup url = Some (PrivateIp ip url)"
  using assms by (simp add: ssrf_check_url_def)

lemma loopback_is_refused:
  "ssrf_check_url lookup ''http://[::1]/x'' = Some (PrivateIp (IpV6 [0, 0, 0, 0, 0, 0, 0, 1]) ''http://[::1]/x'')"
proof (rule private_literal_is_refused)
  show "parse_host_from_url ''http://[::1]/x'' = Inr ''::1''" by code_simp
  show "parse_ip ''::1'' = Some (IpV6 [0, 0, 0, 0, 0, 0, 0, 1])" by code_simp
qed (simp add: is_private_ip_def)

text \<open>
  The guard reads the host its own way.  A user name or a query right after the address make it look up a name that
  does not exist, and a lookup that fails lets the request through; an IPv4 address in IPv6 notation, the unspecified
  address and the unique local addresses are not private to it.
\<close>

theorem ssrf_gaps:
  "ssrf_check_url (\<lambda>_. None) ''http://u@127.0.0.1/'' = None
   \<and> ssrf_check_url (\<lambda>_. None) ''http://127.0.0.1?x'' = None
   \<and> ssrf_check_url (\<lambda>_. None) ''http://[::ffff:127.0.0.1]/'' = None
   \<and> ssrf_check_url (\<lambda>_. None) ''http://0.0.0.0/'' = None
   \<and> ssrf_check_url (\<lambda>_. None) ''http://[fc00::1]/'' = None"
  by code_simp

end
