(* ===== verification/Json.thy ===== *)
theory Json
  imports Prelude
begin

text \<open>
  JSON values as tool inputs and settings files carry them (\<open>serde_json::Value\<close>).  An object is
  an association list in the order of its keys; a lookup takes the first entry.  Numbers are
  integers: no modelled operation reads a fractional one.
\<close>

datatype json =
    JNull
  | JBool bool
  | JNumber int
  | JString string
  | JArray "json list"
  | JObject "(string \<times> json) list"

text \<open>\<open>Value::get\<close> on a key, \<open>Value::as_str\<close>, \<open>as_bool\<close>, \<open>as_array\<close>, \<open>as_object\<close>.\<close>

fun json_get :: "json \<Rightarrow> string \<Rightarrow> json option" where
  "json_get (JObject kvs) k = map_of kvs k"
| "json_get _ k = None"

fun as_str :: "json \<Rightarrow> string option" where
  "as_str (JString s) = Some s"
| "as_str _ = None"

fun as_array :: "json \<Rightarrow> json list option" where
  "as_array (JArray vs) = Some vs"
| "as_array _ = None"

fun as_object :: "json \<Rightarrow> (string \<times> json) list option" where
  "as_object (JObject kvs) = Some kvs"
| "as_object _ = None"

definition get_str :: "json \<Rightarrow> string \<Rightarrow> string option" where
  "get_str v k = Option.bind (json_get v k) as_str"

text \<open>\<open>Map::insert\<close>: replaces the value of a present key in place, appends a new one.\<close>

fun obj_insert :: "(string \<times> json) list \<Rightarrow> string \<Rightarrow> json \<Rightarrow> (string \<times> json) list" where
  "obj_insert [] k v = [(k, v)]"
| "obj_insert ((k', v') # kvs) k v = (if k' = k then (k, v) # kvs else (k', v') # obj_insert kvs k v)"

lemmas json_defs [kernel_defs] = get_str_def

lemma map_of_obj_insert [simp]: "map_of (obj_insert kvs k v) = (map_of kvs)(k \<mapsto> v)"
  by (induction kvs k v rule: obj_insert.induct) auto

end
