(* ===== verification/Hooks.thy ===== *)
theory Hooks
  imports Ssrf Json "HOL-Library.Word"
begin

text \<open>
  Hooks, \<open>crates/hooks/src\<close>: the configuration (\<open>config.rs\<close>), the protocol (\<open>payload.rs\<close>), the
  matching of a hook's \<open>if\<close> pattern (\<open>runner/matcher.rs\<close>), the executors (\<open>runner/executor.rs\<close>) and the runner
  (\<open>runner/mod.rs\<close>).  What a hook's process, model, sub-agent, plugin or endpoint answers is the record
  \<open>hook_env\<close>, one per firing; the JSON readers, the glob compiler and the name service are fields of it.
\<close>

section \<open>Configuration\<close>

datatype hook_event =
    PreToolUse | PostToolUse | PostToolUseFailure | TurnStart | TurnComplete | SessionStart | SessionEnd | Stop
  | StopFailure | UserPromptSubmit | PreCompact | PostCompact | PermissionRequested | PermissionDenied | Setup
  | Notification | SubagentStop | SubagentStart | TeammateIdle | TaskCreated | TaskCompleted | Elicitation
  | ElicitationResult | ConfigChange | WorktreeCreate | WorktreeRemove | InstructionsLoaded | CwdChanged
  | FileChanged | PostSampling

record command_hook =
  ch_command :: string
  ch_shell :: "string option"
  ch_timeout :: "64 word option"
  ch_if_pattern :: "string option"
  ch_only_on_error :: "bool option"
  ch_once :: "bool option"
  ch_async_rewake :: "bool option"

datatype hook_config =
    HookCommand command_hook
  | HookPrompt string "64 word option" "string option"
  | HookHttp string "(string \<times> string) list" "64 word option"
  | HookAgent string "string option" "64 word option"
  | HookWasm string "64 word option"

type_synonym hooks_settings = "(hook_event \<times> hook_config list) list"

definition UNWIRED_EVENTS :: "hook_event list" where
  "UNWIRED_EVENTS = [ElicitationResult, ConfigChange]"

definition is_wired :: "hook_event \<Rightarrow> bool" where
  "is_wired ev \<longleftrightarrow> ev \<notin> set UNWIRED_EVENTS"

fun event_name :: "hook_event \<Rightarrow> string" where
  "event_name PreToolUse = ''PreToolUse''"
| "event_name PostToolUse = ''PostToolUse''"
| "event_name PostToolUseFailure = ''PostToolUseFailure''"
| "event_name TurnStart = ''TurnStart''"
| "event_name TurnComplete = ''TurnComplete''"
| "event_name SessionStart = ''SessionStart''"
| "event_name SessionEnd = ''SessionEnd''"
| "event_name Stop = ''Stop''"
| "event_name StopFailure = ''StopFailure''"
| "event_name UserPromptSubmit = ''UserPromptSubmit''"
| "event_name PreCompact = ''PreCompact''"
| "event_name PostCompact = ''PostCompact''"
| "event_name PermissionRequested = ''PermissionRequested''"
| "event_name PermissionDenied = ''PermissionDenied''"
| "event_name Setup = ''Setup''"
| "event_name Notification = ''Notification''"
| "event_name SubagentStop = ''SubagentStop''"
| "event_name SubagentStart = ''SubagentStart''"
| "event_name TeammateIdle = ''TeammateIdle''"
| "event_name TaskCreated = ''TaskCreated''"
| "event_name TaskCompleted = ''TaskCompleted''"
| "event_name Elicitation = ''Elicitation''"
| "event_name ElicitationResult = ''ElicitationResult''"
| "event_name ConfigChange = ''ConfigChange''"
| "event_name WorktreeCreate = ''WorktreeCreate''"
| "event_name WorktreeRemove = ''WorktreeRemove''"
| "event_name InstructionsLoaded = ''InstructionsLoaded''"
| "event_name CwdChanged = ''CwdChanged''"
| "event_name FileChanged = ''FileChanged''"
| "event_name PostSampling = ''PostSampling''"

definition all_events :: "hook_event list" where
  "all_events =
     [PreToolUse, PostToolUse, PostToolUseFailure, TurnStart, TurnComplete, SessionStart, SessionEnd, Stop,
      StopFailure, UserPromptSubmit, PreCompact, PostCompact, PermissionRequested, PermissionDenied, Setup,
      Notification, SubagentStop, SubagentStart, TeammateIdle, TaskCreated, TaskCompleted, Elicitation,
      ElicitationResult, ConfigChange, WorktreeCreate, WorktreeRemove, InstructionsLoaded, CwdChanged,
      FileChanged, PostSampling]"

definition event_of_name :: "string \<Rightarrow> hook_event option" where
  "event_of_name s = List.find (\<lambda>ev. event_name ev = s) all_events"

record parse_report =
  unknown_events :: "string list"
  invalid_configs :: "(string \<times> string) list"

definition is_clean :: "parse_report \<Rightarrow> bool" where
  "is_clean r \<longleftrightarrow> unknown_events r = [] \<and> invalid_configs r = []"

text \<open>\<open>entry(event).or_default().extend(list)\<close>.\<close>

fun add_hooks :: "hook_event \<Rightarrow> hook_config list \<Rightarrow> hooks_settings \<Rightarrow> hooks_settings" where
  "add_hooks ev cs [] = [(ev, cs)]"
| "add_hooks ev cs ((ev', cs') # rest) =
     (if ev' = ev then (ev', cs' @ cs) # rest else (ev', cs') # add_hooks ev cs rest)"

definition parse_entry ::
  "(json \<Rightarrow> string + hook_config list) \<Rightarrow> hooks_settings \<times> parse_report \<Rightarrow> string \<times> json
   \<Rightarrow> hooks_settings \<times> parse_report" where
  "parse_entry configs acc entry =
     (case (acc, entry) of ((out, report), (name, v)) \<Rightarrow>
        (case event_of_name name of
           None \<Rightarrow> (out, report\<lparr>unknown_events := unknown_events report @ [name]\<rparr>)
         | Some ev \<Rightarrow>
             (case configs v of
                Inr cs \<Rightarrow> (add_hooks ev cs out, report)
              | Inl e \<Rightarrow> (out, report\<lparr>invalid_configs := invalid_configs report @ [(name, e)]\<rparr>))))"

definition parse_hooks_settings ::
  "(json \<Rightarrow> string + hook_config list) \<Rightarrow> json \<Rightarrow> hooks_settings \<times> parse_report" where
  "parse_hooks_settings configs v =
     (case as_object v of
        None \<Rightarrow>
          ([], \<lparr>unknown_events = [],
             invalid_configs = [(''<root>'', ''expected an object of event name -> array of hook configs'')]\<rparr>)
      | Some kvs \<Rightarrow> foldl (parse_entry configs) ([], \<lparr>unknown_events = [], invalid_configs = []\<rparr>) kvs)"

section \<open>Protocol\<close>

record hook_input =
  hi_event_name :: string
  hi_session_id :: string
  hi_cwd :: string
  hi_permission_mode :: string
  hi_tool_name :: "string option"
  hi_tool_input :: "json option"
  hi_tool_use_id :: "string option"
  hi_tool_result :: "json option"
  hi_is_error :: "bool option"
  hi_user_prompt :: "string option"
  hi_turn_id :: "string option"
  hi_stop_reason :: "string option"
  hi_agent_type :: "string option"
  hi_reason :: "string option"

definition lifecycle :: "string \<Rightarrow> string \<Rightarrow> string \<Rightarrow> string \<Rightarrow> hook_input" where
  "lifecycle ev session_id cwd mode =
     \<lparr>hi_event_name = ev, hi_session_id = session_id, hi_cwd = cwd, hi_permission_mode = mode,
      hi_tool_name = None, hi_tool_input = None, hi_tool_use_id = None, hi_tool_result = None, hi_is_error = None,
      hi_user_prompt = None, hi_turn_id = None, hi_stop_reason = None, hi_agent_type = None, hi_reason = None\<rparr>"

datatype hook_decision = HookApprove | HookBlock

record hook_response =
  hr_continue :: "bool option"
  hr_decision :: "hook_decision option"
  hr_message :: "string option"
  hr_updated_input :: "json option"
  hr_suppress_output :: "bool option"
  hr_rewake :: "bool option"

definition response_default :: hook_response where
  "response_default =
     \<lparr>hr_continue = None, hr_decision = None, hr_message = None, hr_updated_input = None, hr_suppress_output = None,
      hr_rewake = None\<rparr>"

datatype hook_outcome =
    HookRan hook_response string string "int option"
  | HookSkipped string
  | HookError string

definition outcome_response :: "hook_outcome \<Rightarrow> hook_response option" where
  "outcome_response oc = (case oc of HookRan r _ _ _ \<Rightarrow> Some r | _ \<Rightarrow> None)"

section \<open>What a run amounts to\<close>

definition blocked :: "hook_outcome list \<Rightarrow> hook_response option" where
  "blocked ocs =
     List.find (\<lambda>r. hr_decision r = Some HookBlock) (List.map_filter outcome_response ocs)"

definition approved :: "hook_outcome list \<Rightarrow> hook_response option" where
  "approved ocs =
     List.find (\<lambda>r. hr_decision r = Some HookApprove) (List.map_filter outcome_response ocs)"

definition discontinued :: "hook_outcome list \<Rightarrow> bool" where
  "discontinued ocs = list_ex (\<lambda>r. hr_continue r = Some False) (List.map_filter outcome_response ocs)"

definition discontinue_message :: "hook_outcome list \<Rightarrow> string option" where
  "discontinue_message ocs =
     (case List.map_filter (\<lambda>r. if hr_continue r = Some False then hr_message r else None)
             (List.map_filter outcome_response ocs) of
        [] \<Rightarrow> None
      | m # _ \<Rightarrow> Some m)"

definition updated_input :: "hook_outcome list \<Rightarrow> json option" where
  "updated_input ocs =
     (case List.map_filter hr_updated_input (List.map_filter outcome_response ocs) of
        [] \<Rightarrow> None
      | v # _ \<Rightarrow> Some v)"

section \<open>The pattern of a hook\<close>

definition hook_tool_matches :: "string \<Rightarrow> string \<Rightarrow> bool" where
  "hook_tool_matches rule actual \<longleftrightarrow>
     rule = actual \<or>
     (case (strip_prefix ''mcp__'' rule, strip_prefix ''mcp__'' actual) of
        (Some pre, Some after) \<Rightarrow> after = pre \<or> prefix (pre @ ''__'') after
      | _ \<Rightarrow> False)"

definition hook_content_matches :: "(string \<Rightarrow> (string \<Rightarrow> bool) option) \<Rightarrow> string \<Rightarrow> string \<Rightarrow> bool" where
  "hook_content_matches glob pattern content =
     (case strip_suffix '':*'' pattern of
        Some pre \<Rightarrow> content = pre \<or> prefix (pre @ '' '') content
      | None \<Rightarrow>
          (if CHR ''*'' \<in> set pattern \<or> CHR ''?'' \<in> set pattern \<or> CHR ''['' \<in> set pattern
           then (case glob pattern of Some g \<Rightarrow> g content | None \<Rightarrow> False)
           else pattern = content))"

definition split_pattern :: "string \<Rightarrow> string \<times> string option" where
  "split_pattern pattern =
     (let pat = trim pattern
      in case find_char_at (CHR ''('') pat of
           Some i \<Rightarrow>
             (if suffix '')'' pat then (trim (take i pat), Some (Prelude.slice pat (i + 1) (length pat - 1))) else (pat, None))
         | None \<Rightarrow> (pat, None))"

text \<open>The first key that is present decides, also when its value is no string.\<close>

definition matched_content :: "json option \<Rightarrow> string option" where
  "matched_content input =
     (case input of
        None \<Rightarrow> None
      | Some v \<Rightarrow>
          (case List.map_filter (json_get v) [''command'', ''file_path'', ''path'', ''url''] of
             [] \<Rightarrow> None
           | x # _ \<Rightarrow> as_str x))"

definition if_matches :: "(string \<Rightarrow> (string \<Rightarrow> bool) option) \<Rightarrow> string \<Rightarrow> hook_input \<Rightarrow> bool" where
  "if_matches glob pattern input =
     (case hi_tool_name input of
        None \<Rightarrow> False
      | Some name \<Rightarrow>
          (case split_pattern pattern of (rule_tool, rule_content) \<Rightarrow>
             hook_tool_matches rule_tool name \<and>
             (case rule_content of
                None \<Rightarrow> True
              | Some rc \<Rightarrow>
                  (case matched_content (hi_tool_input input) of
                     None \<Rightarrow> False
                   | Some content \<Rightarrow> hook_content_matches glob rc content))))"

section \<open>Executors\<close>

datatype process_end =
    SpawnFailed string | ProcessTimedOut | WaitFailed string | Exited bool "int option" string string

datatype prompt_end = PromptText string | PromptFailed string | PromptTimedOut

datatype http_end = HttpFailed string | HttpTimedOut | HttpAnswer nat string

record hook_env =
  he_process :: "string \<Rightarrow> string \<Rightarrow> hook_input \<Rightarrow> 64 word \<Rightarrow> process_end"
  he_prompt :: "(string \<Rightarrow> string option \<Rightarrow> hook_input \<Rightarrow> 64 word \<Rightarrow> prompt_end) option"
  he_agent :: "(string \<Rightarrow> string option \<Rightarrow> hook_input \<Rightarrow> string + string) option"
  he_wasm :: "(string \<Rightarrow> hook_input \<Rightarrow> 64 word option \<Rightarrow> string + hook_response) option"
  he_http :: "string \<Rightarrow> (string \<times> string) list \<Rightarrow> hook_input \<Rightarrow> 64 word \<Rightarrow> http_end"
  he_lookup :: "string \<Rightarrow> ip_addr list option"
  he_json :: "string \<Rightarrow> json option"
  he_response :: "string \<Rightarrow> hook_response option"
  he_glob :: "string \<Rightarrow> (string \<Rightarrow> bool) option"
  he_show_timeout :: "64 word \<Rightarrow> string"
  he_show_ssrf :: "ssrf_error \<Rightarrow> string"
  he_show_status :: "nat \<Rightarrow> string"

function strip_fence :: "string \<Rightarrow> string" where
  "strip_fence s = (if suffix ''```'' s then strip_fence (take (length s - 3) s) else s)"
  by pat_completeness auto
termination
  by (relation "measure length") (auto simp: suffix_def)

declare strip_fence.simps [simp del]

definition response_candidate :: "string \<Rightarrow> string" where
  "response_candidate s =
     (let trimmed = trim s;
          inner = (\<lambda>rest. trim (strip_fence (dropWhile (\<lambda>c. c = CHR 0x0A) rest)))
      in case strip_prefix ''```json'' trimmed of
           Some rest \<Rightarrow> inner rest
         | None \<Rightarrow> (case strip_prefix ''```'' trimmed of Some rest \<Rightarrow> inner rest | None \<Rightarrow> trimmed))"

definition parse_hook_response_lenient :: "(string \<Rightarrow> hook_response option) \<Rightarrow> string \<Rightarrow> hook_response" where
  "parse_hook_response_lenient from_str s =
     (case from_str (response_candidate s) of Some r \<Rightarrow> r | None \<Rightarrow> response_default)"

definition exec_prompt ::
  "hook_env \<Rightarrow> 64 word \<Rightarrow> string \<Rightarrow> string option \<Rightarrow> hook_input \<Rightarrow> 64 word option \<Rightarrow> hook_outcome" where
  "exec_prompt e default_timeout prompt model input timeout_ms =
     (case he_prompt e of
        None \<Rightarrow> HookSkipped ''prompt-type hook needs a PromptHookExecutor injected (CLI does this for Auto mode)''
      | Some executor \<Rightarrow>
          (let limit = (case timeout_ms of Some t \<Rightarrow> t | None \<Rightarrow> default_timeout)
           in case executor prompt model input limit of
                PromptFailed err \<Rightarrow> HookError (''prompt hook executor: '' @ err)
              | PromptTimedOut \<Rightarrow> HookError (''prompt hook timed out after '' @ show_nat (unat limit) @ ''ms'')
              | PromptText answer \<Rightarrow> HookRan (parse_hook_response_lenient (he_response e) answer) answer [] (Some 0)))"

definition shorten :: "string \<Rightarrow> nat \<Rightarrow> string" where
  "shorten s n = (if length s \<le> n then s else take n s @ [CHR 0xE2, CHR 0x80, CHR 0xA6])"

definition exec_http ::
  "hook_env \<Rightarrow> 64 word \<Rightarrow> string \<Rightarrow> (string \<times> string) list \<Rightarrow> hook_input \<Rightarrow> 64 word option \<Rightarrow> hook_outcome" where
  "exec_http e default_timeout url headers input timeout_ms =
     (case ssrf_check_url (he_lookup e) url of
        Some err \<Rightarrow> HookError (he_show_ssrf e err)
      | None \<Rightarrow>
          (let limit = (case timeout_ms of Some t \<Rightarrow> t | None \<Rightarrow> default_timeout)
           in case he_http e url headers input limit of
                HttpFailed err \<Rightarrow> HookError (''http hook send: '' @ err)
              | HttpTimedOut \<Rightarrow> HookError (''http hook send: no response within '' @ show_nat (unat limit) @ ''ms'')
              | HttpAnswer status body \<Rightarrow>
                  (if \<not> (200 \<le> status \<and> status < 300)
                   then HookError (''http hook '' @ he_show_status e status @ '': '' @ shorten body 500)
                   else HookRan (parse_hook_response_lenient (he_response e) body) body [] (Some 0))))"

definition show_exit :: "int option \<Rightarrow> string" where
  "show_exit code =
     (case code of
        None \<Rightarrow> ''None''
      | Some c \<Rightarrow> ''Some('' @ (if c < 0 then ''-'' @ show_nat (nat (- c)) else show_nat (nat c)) @ '')'')"

definition command_response :: "hook_env \<Rightarrow> bool \<Rightarrow> int option \<Rightarrow> string \<Rightarrow> string \<Rightarrow> hook_response" where
  "command_response e success code out err =
     (if trim out = []
      then (if \<not> success
            then response_default
                   \<lparr>hr_decision := Some HookBlock,
                    hr_message := Some (if err = [] then ''hook exited '' @ show_exit code else trim err)\<rparr>
            else response_default)
      else (case he_response e (trim out) of Some r \<Rightarrow> r | None \<Rightarrow> response_default))"

definition exec_command :: "hook_env \<Rightarrow> string \<Rightarrow> string \<Rightarrow> hook_input \<Rightarrow> 64 word \<Rightarrow> hook_outcome" where
  "exec_command e shell command input limit =
     (case he_process e shell command input limit of
        SpawnFailed err \<Rightarrow> HookError (''hook spawn failed: '' @ err)
      | ProcessTimedOut \<Rightarrow> HookError (''hook timed out after '' @ he_show_timeout e limit)
      | WaitFailed err \<Rightarrow> HookError (''hook wait failed: '' @ err)
      | Exited success code out err \<Rightarrow> HookRan (command_response e success code out err) out err code)"

definition exec_wasm :: "hook_env \<Rightarrow> string \<Rightarrow> hook_input \<Rightarrow> 64 word option \<Rightarrow> hook_outcome" where
  "exec_wasm e plugin input timeout_ms =
     (case he_wasm e of
        None \<Rightarrow>
          HookSkipped (''wasm hook: no WasmHookExecutor configured '' @ em_dash
            @ '' plugins are unavailable in this build'')
      | Some executor \<Rightarrow>
          (case executor plugin input timeout_ms of
             Inr r \<Rightarrow> HookRan r (case hr_message r of Some m \<Rightarrow> m | None \<Rightarrow> []) [] (Some 0)
           | Inl _ \<Rightarrow> HookSkipped ''wasm hook: the plugin failed to answer''))"

definition agent_response :: "hook_env \<Rightarrow> string \<Rightarrow> hook_response" where
  "agent_response e response =
     (case he_json e response of
        Some v \<Rightarrow>
          (let ok = (case json_get v ''ok'' of Some (JBool b) \<Rightarrow> b | _ \<Rightarrow> False);
               reason = (case get_str v ''reason'' of Some r \<Rightarrow> r | None \<Rightarrow> [])
           in response_default
                \<lparr>hr_decision := Some (if ok then HookApprove else HookBlock), hr_message := Some reason\<rparr>)
      | None \<Rightarrow> response_default\<lparr>hr_message := Some response\<rparr>)"

definition exec_agent :: "hook_env \<Rightarrow> string \<Rightarrow> string option \<Rightarrow> hook_input \<Rightarrow> hook_outcome" where
  "exec_agent e prompt model input =
     (case he_agent e of
        None \<Rightarrow>
          HookSkipped (''agent hook: no AgentHookExecutor configured '' @ em_dash
            @ '' wire one at CLI/daemon startup'')
      | Some executor \<Rightarrow>
          (case executor prompt model input of
             Inr response \<Rightarrow> HookRan (agent_response e response) response [] (Some 0)
           | Inl err \<Rightarrow> HookError (''agent hook execution failed: '' @ err)))"

section \<open>The runner\<close>

record hook_runner =
  hk_settings :: hooks_settings
  hk_default_timeout :: "64 word"
  hk_once :: "(hook_event \<times> nat) set"
  hk_rewakes :: "(hook_event \<times> nat) list"
  hk_wake :: "(nat \<times> bool) option"

definition DEFAULT_HOOK_TIMEOUT_MS :: "64 word" where
  "DEFAULT_HOOK_TIMEOUT_MS = 600000"

definition runner_new :: "hooks_settings \<Rightarrow> hook_runner" where
  "runner_new settings =
     \<lparr>hk_settings = settings, hk_default_timeout = DEFAULT_HOOK_TIMEOUT_MS, hk_once = {}, hk_rewakes = [],
      hk_wake = None\<rparr>"

definition has_hooks_for :: "hook_runner \<Rightarrow> hook_event \<Rightarrow> bool" where
  "has_hooks_for h ev = (case map_of (hk_settings h) ev of Some cs \<Rightarrow> cs \<noteq> [] | None \<Rightarrow> False)"

definition register_hook :: "hook_event \<Rightarrow> hook_config \<Rightarrow> hook_runner \<Rightarrow> hook_runner" where
  "register_hook ev c h = h\<lparr>hk_settings := add_hooks ev [c] (hk_settings h)\<rparr>"

definition run_one :: "hook_env \<Rightarrow> hook_runner \<Rightarrow> hook_config \<Rightarrow> hook_input \<Rightarrow> hook_outcome" where
  "run_one e h cfg input =
     (case cfg of
        HookCommand c \<Rightarrow>
          (if (case ch_if_pattern c of Some p \<Rightarrow> \<not> if_matches (he_glob e) p input | None \<Rightarrow> False)
           then HookSkipped ''if pattern did not match''
           else if ch_only_on_error c = Some True \<and> hi_is_error input \<noteq> Some True
           then HookSkipped ''only_on_error=true but tool was not in error''
           else exec_command e (case ch_shell c of Some s \<Rightarrow> s | None \<Rightarrow> ''bash'') (ch_command c) input
                  (case ch_timeout c of Some t \<Rightarrow> t | None \<Rightarrow> hk_default_timeout h))
      | HookPrompt prompt limit model \<Rightarrow> exec_prompt e (hk_default_timeout h) prompt model input limit
      | HookHttp url headers limit \<Rightarrow> exec_http e (hk_default_timeout h) url headers input limit
      | HookAgent prompt model _ \<Rightarrow> exec_agent e prompt model input
      | HookWasm plugin limit \<Rightarrow> exec_wasm e plugin input limit)"

definition is_once :: "hook_config \<Rightarrow> bool" where
  "is_once cfg = (case cfg of HookCommand c \<Rightarrow> ch_once c = Some True | _ \<Rightarrow> False)"

definition is_async_rewake :: "hook_config \<Rightarrow> bool" where
  "is_async_rewake cfg = (case cfg of HookCommand c \<Rightarrow> ch_async_rewake c = Some True | _ \<Rightarrow> False)"

definition due :: "hook_runner \<Rightarrow> hook_event \<Rightarrow> hook_config list \<Rightarrow> nat list" where
  "due h ev cs = filter (\<lambda>i. \<not> is_once (cs ! i) \<or> (ev, i) \<notin> hk_once h) [0..<length cs]"

definition asks_rewake :: "hook_config \<Rightarrow> hook_outcome \<Rightarrow> bool" where
  "asks_rewake cfg oc \<longleftrightarrow>
     (case outcome_response oc of Some r \<Rightarrow> hr_rewake r = Some True | None \<Rightarrow> False) \<and> is_async_rewake cfg"

definition set_add :: "'a \<Rightarrow> 'a list \<Rightarrow> 'a list" where
  "set_add x xs = (if x \<in> set xs then xs else xs @ [x])"

text \<open>The hooks of an event run in parallel and are collected in registration order.\<close>

definition run_hooks :: "hook_env \<Rightarrow> hook_event \<Rightarrow> hook_input \<Rightarrow> hook_runner \<Rightarrow> hook_outcome list \<times> hook_runner" where
  "run_hooks e ev input h =
     (case map_of (hk_settings h) ev of
        None \<Rightarrow> ([], h)
      | Some cs \<Rightarrow>
          (let idxs = due h ev cs;
               ocs = map (\<lambda>i. (i, run_one e h (cs ! i) input)) idxs;
               awaited = foldl (\<lambda>ws (i, oc). if asks_rewake (cs ! i) oc then set_add (ev, i) ws else ws)
                           (hk_rewakes h) ocs
           in (map snd ocs, h\<lparr>hk_rewakes := awaited, hk_once := hk_once h \<union> set (map (Pair ev) idxs)\<rparr>)))"

text \<open>\<open>try_recv\<close> on the wake channel: a signal is consumed, a closed channel counts as one.\<close>

definition try_wake :: "hook_runner \<Rightarrow> bool \<times> hook_runner" where
  "try_wake h =
     (case hk_wake h of
        None \<Rightarrow> (False, h)
      | Some (Suc n, closed) \<Rightarrow> (True, h\<lparr>hk_wake := Some (n, closed)\<rparr>)
      | Some (0, closed) \<Rightarrow> (closed, h))"

definition rewake_input :: hook_input where
  "rewake_input = lifecycle ''WakeEvent'' [] [] ''default''"

definition rewake_one :: "hook_env \<Rightarrow> hook_runner \<Rightarrow> hook_event \<times> nat \<Rightarrow> hook_response option" where
  "rewake_one e h p =
     (case p of (ev, i) \<Rightarrow>
        (case map_of (hk_settings h) ev of
           None \<Rightarrow> None
         | Some cs \<Rightarrow>
             (if i < length cs then outcome_response (run_one e h (cs ! i) rewake_input) else None)))"

definition check_rewakes :: "hook_env \<Rightarrow> hook_runner \<Rightarrow> hook_response list \<times> hook_runner" where
  "check_rewakes e h =
     (if hk_rewakes h = [] then ([], h)
      else (case try_wake (h\<lparr>hk_rewakes := []\<rparr>) of
              (False, h1) \<Rightarrow> ([], h1\<lparr>hk_rewakes := hk_rewakes h\<rparr>)
            | (True, h1) \<Rightarrow> (List.map_filter (rewake_one e h1) (hk_rewakes h), h1)))"

definition elicitation_input :: "string \<Rightarrow> string \<Rightarrow> string \<Rightarrow> json option \<Rightarrow> hook_input" where
  "elicitation_input ev server url response =
     (lifecycle ev [] [] ''default'')
       \<lparr>hi_tool_name := Some (''mcp_elicitation_'' @ server),
        hi_tool_input := Some (JObject ([(''server_name'', JString server), (''url'', JString url)]
           @ (case response of Some r \<Rightarrow> [(''response'', r)] | None \<Rightarrow> []))),
        hi_tool_result := response\<rparr>"

definition run_elicitation ::
  "hook_env \<Rightarrow> string \<Rightarrow> string \<Rightarrow> hook_runner \<Rightarrow> hook_outcome list \<times> hook_runner" where
  "run_elicitation e server url h =
     run_hooks e Elicitation (elicitation_input ''Elicitation'' server url None) h"

definition run_elicitation_result ::
  "hook_env \<Rightarrow> string \<Rightarrow> string \<Rightarrow> json option \<Rightarrow> hook_runner \<Rightarrow> hook_outcome list \<times> hook_runner" where
  "run_elicitation_result e server url response h =
     run_hooks e ElicitationResult (elicitation_input ''ElicitationResult'' server url response) h"

lemmas hooks_defs [kernel_defs] =
  UNWIRED_EVENTS_def is_wired_def all_events_def event_of_name_def is_clean_def parse_entry_def
  parse_hooks_settings_def lifecycle_def response_default_def outcome_response_def blocked_def approved_def
  discontinued_def discontinue_message_def updated_input_def hook_tool_matches_def hook_content_matches_def
  split_pattern_def matched_content_def if_matches_def response_candidate_def parse_hook_response_lenient_def
  exec_prompt_def shorten_def exec_http_def show_exit_def command_response_def exec_command_def exec_wasm_def
  agent_response_def exec_agent_def DEFAULT_HOOK_TIMEOUT_MS_def runner_new_def has_hooks_for_def register_hook_def
  run_one_def is_once_def is_async_rewake_def due_def asks_rewake_def set_add_def run_hooks_def try_wake_def
  rewake_input_def rewake_one_def check_rewakes_def elicitation_input_def run_elicitation_def
  run_elicitation_result_def

end
