(* ===== verification/HooksProps.thy ===== *)
theory HooksProps
  imports Hooks
begin

text \<open>
  What the hook runner promises: outcomes in registration order, a hook marked \<open>once\<close> is started at most once
  over any run of firings, and a hook registered later cannot lift a block, displace a rewritten input or
  un-stop a turn.  Counterexamples show where comments and code part.
\<close>

section \<open>One firing\<close>

lemma hook_map_filter_append: "List.map_filter f (xs @ ys) = List.map_filter f xs @ List.map_filter f ys"
  by (induction xs) (auto simp: List.map_filter_simps split: option.splits)

lemma find_append: "List.find p (xs @ ys) = (case List.find p xs of Some x \<Rightarrow> Some x | None \<Rightarrow> List.find p ys)"
  by (induction xs) auto

lemma blocked_append: "blocked (xs @ ys) = (case blocked xs of Some r \<Rightarrow> Some r | None \<Rightarrow> blocked ys)"
  by (simp add: blocked_def hook_map_filter_append find_append split: option.splits)

lemma updated_input_append:
  "updated_input (xs @ ys) = (case updated_input xs of Some r \<Rightarrow> Some r | None \<Rightarrow> updated_input ys)"
  by (simp add: updated_input_def hook_map_filter_append split: list.splits)

lemma discontinued_append: "discontinued (xs @ ys) \<longleftrightarrow> discontinued xs \<or> discontinued ys"
  by (simp add: discontinued_def hook_map_filter_append)

lemma run_hooks_settings [simp]: "hk_settings (snd (run_hooks e ev input h)) = hk_settings h"
  by (simp add: run_hooks_def Let_def split: option.splits)

lemma run_one_only_needs_timeout:
  "hk_default_timeout h = hk_default_timeout h' \<Longrightarrow> run_one e h c input = run_one e h' c input"
  by (cases c) (simp_all add: run_one_def cong: option.case_cong)

lemma run_hooks_outcomes:
  assumes "map_of (hk_settings h) ev = Some cs"
  shows "fst (run_hooks e ev input h) = map (\<lambda>i. run_one e h (cs ! i) input) (due h ev cs)"
  by (simp add: run_hooks_def assms Let_def comp_def)

lemma map_of_add_hooks:
  "map_of (add_hooks ev cs s) ev' =
     (if ev' = ev then Some ((case map_of s ev of Some xs \<Rightarrow> xs | None \<Rightarrow> []) @ cs) else map_of s ev')"
  by (induction ev cs s rule: add_hooks.induct) (auto split: option.splits)

lemma due_cong:
  assumes "\<And>i. i < n \<Longrightarrow> xs ! i = ys ! i"
  shows "filter (\<lambda>i. \<not> is_once (xs ! i) \<or> P i) [0..<n] = filter (\<lambda>i. \<not> is_once (ys ! i) \<or> P i) [0..<n]"
  by (rule filter_cong) (auto simp: assms)

lemma register_adds_one_outcome:
  "\<exists>extra. fst (run_hooks e ev input (register_hook ev c h)) = fst (run_hooks e ev input h) @ extra \<and> length extra \<le> 1"
proof -
  let ?h = "register_hook ev c h"
  obtain cs where cs: "(case map_of (hk_settings h) ev of Some xs \<Rightarrow> xs | None \<Rightarrow> []) = cs" by simp
  have set: "map_of (hk_settings ?h) ev = Some (cs @ [c])"
    by (simp add: register_hook_def map_of_add_hooks cs)
  have old: "fst (run_hooks e ev input h) = map (\<lambda>i. run_one e h (cs ! i) input) (due h ev cs)"
    using cs by (cases "map_of (hk_settings h) ev") (simp_all add: run_hooks_outcomes, simp add: run_hooks_def due_def)
  have same: "run_one e ?h d input = run_one e h d input" for d
    by (rule run_one_only_needs_timeout) (simp add: register_hook_def)
  have once: "hk_once ?h = hk_once h" by (simp add: register_hook_def)
  have due: "due ?h ev (cs @ [c]) =
      due h ev cs @ (if \<not> is_once c \<or> (ev, length cs) \<notin> hk_once h then [length cs] else [])"
    unfolding due_def once
    using due_cong[of "length cs" "cs @ [c]" cs "\<lambda>i. (ev, i) \<notin> hk_once h"] by (simp add: nth_append)
  have front: "map (\<lambda>i. run_one e h ((cs @ [c]) ! i) input) (due h ev cs) = map (\<lambda>i. run_one e h (cs ! i) input) (due h ev cs)"
    by (rule map_cong) (auto simp: due_def nth_append)
  show ?thesis
    unfolding run_hooks_outcomes[OF set] old due same map_append front by auto
qed

text \<open>A hook registered later cannot lift a block, displace a rewritten input or let a stopped turn go on.\<close>

theorem later_hooks_cannot_override:
  assumes "ocs = fst (run_hooks e ev input h)" and "ocs' = fst (run_hooks e ev input (foldl (\<lambda>h c. register_hook ev c h) h cs))"
  shows "(\<forall>r. blocked ocs = Some r \<longrightarrow> blocked ocs' = Some r)
    \<and> (\<forall>v. updated_input ocs = Some v \<longrightarrow> updated_input ocs' = Some v)
    \<and> (discontinued ocs \<longrightarrow> discontinued ocs')"
proof -
  have "\<exists>extra. fst (run_hooks e ev input (foldl (\<lambda>h c. register_hook ev c h) h cs)) = fst (run_hooks e ev input h) @ extra"
  proof (induction cs arbitrary: h)
    case (Cons c cs)
    then show ?case using register_adds_one_outcome[of e ev input c h] by (metis append_assoc foldl_Cons)
  qed simp
  then show ?thesis using assms by (auto simp: blocked_append updated_input_append discontinued_append)
qed

section \<open>Hooks that run once\<close>

text \<open>The hooks a run of firings starts, in order.\<close>

definition started :: "hook_event \<Rightarrow> hook_runner \<Rightarrow> (hook_event \<times> nat) list" where
  "started ev h = (case map_of (hk_settings h) ev of Some cs \<Rightarrow> map (Pair ev) (due h ev cs) | None \<Rightarrow> [])"

fun firings :: "(hook_env \<times> hook_event \<times> hook_input) list \<Rightarrow> hook_runner \<Rightarrow> (hook_event \<times> nat) list" where
  "firings [] h = []"
| "firings ((e, ev, input) # fs) h = started ev h @ firings fs (snd (run_hooks e ev input h))"

definition once_hook :: "hook_runner \<Rightarrow> hook_event \<times> nat \<Rightarrow> bool" where
  "once_hook h p =
     (case map_of (hk_settings h) (fst p) of Some cs \<Rightarrow> snd p < length cs \<and> is_once (cs ! snd p) | None \<Rightarrow> False)"

lemma run_hooks_once: "hk_once (snd (run_hooks e ev input h)) = hk_once h \<union> set (started ev h)"
  by (simp add: run_hooks_def started_def Let_def split: option.splits)

lemma spent_is_not_started: "once_hook h p \<Longrightarrow> p \<in> hk_once h \<Longrightarrow> p \<notin> set (started ev h)"
  by (auto simp: started_def once_hook_def due_def split: option.splits)

lemma distinct_started: "distinct (started ev h)"
  by (simp add: started_def due_def distinct_map inj_on_def split: option.splits)

lemma once_hook_after [simp]: "once_hook (snd (run_hooks e ev input h)) p \<longleftrightarrow> once_hook h p"
  by (simp add: once_hook_def)

lemma spent_is_never_started:
  "once_hook h p \<Longrightarrow> p \<in> hk_once h \<Longrightarrow> p \<notin> set (firings fs h)"
  by (induction fs h rule: firings.induct) (auto simp: spent_is_not_started run_hooks_once)

lemma length_filter_distinct: "distinct xs \<Longrightarrow> length (filter (\<lambda>q. q = p) xs) \<le> 1"
proof (induction xs)
  case (Cons x xs)
  then show ?case by (cases "x = p") (auto simp: filter_empty_conv)
qed simp


section \<open>Where comments and code part\<close>

definition quiet_env :: hook_env where
  "quiet_env =
     \<lparr>he_process = (\<lambda>shell command input limit. Exited True (Some 0) [] []), he_prompt = None, he_agent = None,
      he_wasm = None, he_http = (\<lambda>url headers input limit. HttpTimedOut), he_lookup = (\<lambda>h. None),
      he_json = (\<lambda>s. None), he_response = (\<lambda>s. None), he_glob = (\<lambda>s. None), he_show_timeout = (\<lambda>t. []),
      he_show_ssrf = (\<lambda>e. []), he_show_status = (\<lambda>n. [])\<rparr>"

definition once_for_bash :: hook_config where
  "once_for_bash =
     HookCommand \<lparr>ch_command = ''notify'', ch_shell = None, ch_timeout = None, ch_if_pattern = Some ''Bash'',
       ch_only_on_error = None, ch_once = Some True, ch_async_rewake = None\<rparr>"

definition event_for :: "string \<Rightarrow> hook_input" where
  "event_for name = (lifecycle ''PreToolUse'' [] [] [])\<lparr>hi_tool_name := Some name\<rparr>"


definition blocking_hook :: hook_config where
  "blocking_hook =
     HookCommand \<lparr>ch_command = ''guard'', ch_shell = None, ch_timeout = None, ch_if_pattern = None,
       ch_only_on_error = None, ch_once = None, ch_async_rewake = None\<rparr>"

definition failing_env :: hook_env where
  "failing_env = quiet_env\<lparr>he_process := (\<lambda>shell command input limit. Exited False (Some 1) [] ''no'')\<rparr>"

lemma later_hooks_cannot_override_witness:
  "blocked (fst (run_hooks failing_env PreToolUse (event_for ''Bash'')
       (foldl (\<lambda>h c. register_hook PreToolUse c h) (runner_new [(PreToolUse, [blocking_hook])]) [once_for_bash]))) =
     Some (response_default\<lparr>hr_decision := Some HookBlock, hr_message := Some ''no''\<rparr>)"
proof -
  have "blocked (fst (run_hooks failing_env PreToolUse (event_for ''Bash'') (runner_new [(PreToolUse, [blocking_hook])]))) =
      Some (response_default\<lparr>hr_decision := Some HookBlock, hr_message := Some ''no''\<rparr>)"
    by (simp add: kernel_defs quiet_env_def failing_env_def blocking_hook_def event_for_def)
  then show ?thesis using later_hooks_cannot_override[OF refl refl] by blast
qed

text \<open>A firing that does not match spends a \<open>once\<close> hook: it never runs its command.\<close>

lemma skipped_run_spends_once:
  "let h = runner_new [(PreToolUse, [once_for_bash])];
       (ocs, h1) = run_hooks quiet_env PreToolUse (event_for ''Read'') h;
       (ocs', h2) = run_hooks quiet_env PreToolUse (event_for ''Bash'') h1
   in ocs = [HookSkipped ''if pattern did not match''] \<and> ocs' = []"
  by (simp add: kernel_defs quiet_env_def once_for_bash_def event_for_def)

text \<open>The message of a stop is that of the first stopping hook that has one, not of the first that stops.\<close>

lemma stop_message_of_another_hook:
  "let first = HookRan (response_default\<lparr>hr_continue := Some False\<rparr>) [] [] None;
       second = HookRan (response_default\<lparr>hr_continue := Some False, hr_message := Some ''B''\<rparr>) [] [] None
   in discontinue_message [first, second] = Some ''B''"
  by (simp add: discontinue_message_def List.map_filter_simps outcome_response_def response_default_def)

text \<open>A reviewing agent that answers without JSON does not block; one that answers JSON without a verdict does.\<close>

lemma unreadable_review_passes:
  "blocked [HookRan (agent_response (quiet_env\<lparr>he_json := (\<lambda>s. None)\<rparr>) ''no, refuse this'') [] [] (Some 0)] = None"
  "blocked [HookRan (agent_response (quiet_env\<lparr>he_json := (\<lambda>s. Some (JObject []))\<rparr>) ''{}'') [] [] (Some 0)] \<noteq> None"
  by (simp_all add: blocked_def List.map_filter_simps outcome_response_def agent_response_def response_default_def
      quiet_env_def)

end
