(* ===== verification/Permission.thy ===== *)
theory Permission
  imports Json
begin

text \<open>
  The shared permission vocabulary, \<open>crates/core/src/permission.rs\<close> and the parts of
  \<open>interface/tool.rs\<close> and \<open>interface/settings.rs\<close> it is converted from: modes, behaviours, rules
  and where they come from, decisions and their reasons.  Constructors that several Rust enums
  share (\<open>Allow\<close>, \<open>Deny\<close>, \<open>Ask\<close>) carry a prefix naming their enum.
\<close>

section \<open>Modes\<close>

datatype permission_mode =
  Default | Plan | AcceptEdits | BypassPermissions | Auto | DontAsk | Bubble | Yolo

datatype settings_mode =
    SDefault | SAcceptEdits | SBypassPermissions | SPlan | SAuto | SDontAsk | SBubble | SYolo

fun mode_from_settings :: "settings_mode \<Rightarrow> permission_mode" where
  "mode_from_settings SDefault = Default"
| "mode_from_settings SAcceptEdits = AcceptEdits"
| "mode_from_settings SBypassPermissions = BypassPermissions"
| "mode_from_settings SPlan = Plan"
| "mode_from_settings SAuto = Auto"
| "mode_from_settings SDontAsk = DontAsk"
| "mode_from_settings SBubble = Bubble"
| "mode_from_settings SYolo = Yolo"

definition is_safe_default :: "permission_mode \<Rightarrow> bool" where
  "is_safe_default m \<longleftrightarrow> m = Default"

definition is_user_settable :: "permission_mode \<Rightarrow> bool" where
  "is_user_settable m \<longleftrightarrow> \<not> (m = Auto \<or> m = Bubble)"

text \<open>How permissive a mode is (\<open>settings.rs\<close>), and the stricter of two modes.\<close>

fun permissiveness :: "permission_mode \<Rightarrow> nat" where
  "permissiveness DontAsk = 0"
| "permissiveness Plan = 1"
| "permissiveness Default = 2"
| "permissiveness Bubble = 3"
| "permissiveness AcceptEdits = 4"
| "permissiveness Auto = 5"
| "permissiveness Yolo = 6"
| "permissiveness BypassPermissions = 7"

definition min_permissive :: "permission_mode \<Rightarrow> permission_mode \<Rightarrow> permission_mode" where
  "min_permissive self other =
     (if permissiveness other < permissiveness self then other else self)"

lemma permissiveness_inj: "inj permissiveness"
proof (rule injI)
  fix a b
  assume "permissiveness a = permissiveness b"
  then show "a = b"
    by (cases a; cases b) simp_all
qed

lemma permissiveness_min [simp]:
  "permissiveness (min_permissive a b) = min (permissiveness a) (permissiveness b)"
  by (simp add: min_permissive_def min_def)

lemma min_permissive_commute: "min_permissive a b = min_permissive b a"
  using permissiveness_inj by (metis injD min.commute permissiveness_min)

lemma min_permissive_assoc:
  "min_permissive (min_permissive a b) c = min_permissive a (min_permissive b c)"
  using permissiveness_inj by (metis injD min.assoc permissiveness_min)

section \<open>Rules\<close>

datatype rule_behavior = BAllow | BDeny | BAsk

datatype rule_source =
    UserSettings | ProjectSettings | LocalSettings | CliArg | Session | PolicySettings | Command
  | Plugin

fun priority :: "rule_source \<Rightarrow> nat" where
  "priority CliArg = 60"
| "priority Session = 50"
| "priority Command = 45"
| "priority LocalSettings = 40"
| "priority ProjectSettings = 30"
| "priority UserSettings = 20"
| "priority PolicySettings = 10"
| "priority Plugin = 5"

record permission_rule =
  rule_source :: rule_source
  rule_behavior :: rule_behavior
  tool_name :: string
  rule_content :: "string option"

text \<open>No two sources share a priority: the reported rule never depends on list order across
  sources that match equally specifically.\<close>

lemma priority_inj: "inj priority"
proof (rule injI)
  fix a b
  assume "priority a = priority b"
  then show "a = b"
    by (cases a; cases b) simp_all
qed

section \<open>Decisions\<close>

datatype decision_reason =
    ReasonRule permission_rule
  | ReasonMode permission_mode
  | ReasonHook string
  | ReasonClassifier string
  | ReasonSubcommandResults
  | ReasonSafetyCheck
  | ReasonToolAllowed string
  | ReasonToolDenied string
  | ReasonToolBuiltin string
  | ReasonOther string

datatype permission_decision =
    PAllow "json option" "decision_reason option"
  | PDeny string decision_reason
  | PAsk string "decision_reason option"

definition is_allow :: "permission_decision \<Rightarrow> bool" where
  "is_allow d = (case d of PAllow _ _ \<Rightarrow> True | _ \<Rightarrow> False)"

definition is_deny :: "permission_decision \<Rightarrow> bool" where
  "is_deny d = (case d of PDeny _ _ \<Rightarrow> True | _ \<Rightarrow> False)"

definition is_ask :: "permission_decision \<Rightarrow> bool" where
  "is_ask d = (case d of PAsk _ _ \<Rightarrow> True | _ \<Rightarrow> False)"

lemmas decision_defs [simp] = is_allow_def is_deny_def is_ask_def

text \<open>A tool's own judgement (\<open>tool::PermissionDecision\<close>), the result of validating its
  input, and what its match content is.\<close>

datatype tool_decision =
    TAllow "string option"
  | TDeny "string option" "string option"
  | TAsk string "string option"

datatype validation_result = VOk | VErr string int

datatype content_kind = Opaque | ReadPath | WritePath | ShellCommand

section \<open>Rules as settings files write them\<close>

datatype permission_action = ActAllow | ActDeny | ActAsk

datatype tier = TierGlobal | TierScene | TierProject

record settings_rule =
  sr_tool :: string
  sr_action :: permission_action
  sr_tier :: "tier option"

end
