(* ===== verification/Rule.thy ===== *)
theory Rule
  imports Permission
begin

text \<open>
  Rule strings, \<open>crates/permissions/src/rule.rs\<close>: parsing \<open>Tool\<close> and \<open>Tool(content)\<close>, printing a
  rule back, and turning the rules of the settings tiers into engine rules.  An entry that does
  not parse is skipped, never fatal.  \<open>build_rule_string\<close> is from \<open>settings_patch.rs\<close>.
\<close>

datatype parse_rule_error = EmptyRule | Unbalanced string | Malformed string

definition parse_rule_string ::
  "string \<Rightarrow> rule_source \<Rightarrow> rule_behavior \<Rightarrow> parse_rule_error + permission_rule" where
  "parse_rule_string s0 src beh =
     (let s = trim s0 in
      if s = [] then Inl EmptyRule
      else case find_char_at (CHR ''('') s of
        Some open_idx \<Rightarrow>
          if \<not> suffix '')'' s then Inl (Unbalanced s)
          else (let name = trim (take open_idx s) in
            if name = [] then Inl (Malformed s)
            else Inr \<lparr>rule_source = src, rule_behavior = beh, tool_name = name,
                      rule_content = Some (slice s (open_idx + 1) (length s - 1))\<rparr>)
      | None \<Rightarrow> Inr \<lparr>rule_source = src, rule_behavior = beh, tool_name = s, rule_content = None\<rparr>)"

definition format_rule_string :: "permission_rule \<Rightarrow> string" where
  "format_rule_string r =
     (case rule_content r of
        Some c \<Rightarrow> tool_name r @ ''('' @ c @ '')''
      | None \<Rightarrow> tool_name r)"

fun behavior_of_action :: "permission_action \<Rightarrow> rule_behavior" where
  "behavior_of_action ActAllow = BAllow"
| "behavior_of_action ActDeny = BDeny"
| "behavior_of_action ActAsk = BAsk"

definition rules_from_settings ::
  "settings_rule list \<Rightarrow> rule_source \<Rightarrow> permission_rule list" where
  "rules_from_settings rules src =
     List.map_filter
       (\<lambda>r. case parse_rule_string (sr_tool r) src (behavior_of_action (sr_action r)) of
               Inr rule \<Rightarrow> Some rule
             | Inl _ \<Rightarrow> None) rules"

definition source_of_tier :: "tier option \<Rightarrow> rule_source" where
  "source_of_tier t =
     (case t of
        Some TierGlobal \<Rightarrow> UserSettings
      | Some TierScene \<Rightarrow> UserSettings
      | Some TierProject \<Rightarrow> ProjectSettings
      | None \<Rightarrow> ProjectSettings)"

text \<open>The two rule lists of a \<open>Settings\<close> value that the conversion reads.\<close>

definition rules_from_all_tiers ::
  "settings_rule list \<Rightarrow> settings_rule list \<Rightarrow> permission_rule list" where
  "rules_from_all_tiers permission_rules local_permission_rules =
     concat (map (\<lambda>r. rules_from_settings [r] (source_of_tier (sr_tier r))) permission_rules)
     @ rules_from_settings local_permission_rules LocalSettings"

definition build_rule_string :: "string \<Rightarrow> string option \<Rightarrow> string option" where
  "build_rule_string name match_content =
     (case match_content of
        None \<Rightarrow> None
      | Some c \<Rightarrow>
          (let content = trim c in
           if content = [] then None else Some (name @ ''('' @ content @ '')'')))"

lemmas rule_defs [kernel_defs] =
  parse_rule_string_def format_rule_string_def rules_from_settings_def source_of_tier_def
  rules_from_all_tiers_def build_rule_string_def

section \<open>Round trips\<close>

text \<open>A tool name as the grammar has it: non-empty, not padded, no opening bracket.\<close>

definition wf_tool_name :: "string \<Rightarrow> bool" where
  "wf_tool_name n \<longleftrightarrow> n \<noteq> [] \<and> trim n = n \<and> CHR ''('' \<notin> set n"

definition wf_rule :: "permission_rule \<Rightarrow> bool" where
  "wf_rule r \<longleftrightarrow> wf_tool_name (tool_name r)"

lemma not_whitespace_paren [simp]: "\<not> is_whitespace (CHR ''('')" "\<not> is_whitespace (CHR '')'')"
  by (simp_all add: kernel_defs)

lemma wf_tool_name_hd: "wf_tool_name n \<Longrightarrow> n \<noteq> [] \<and> \<not> is_whitespace (hd n)"
  by (metis trim_start_hd trim_start_of_trim wf_tool_name_def)

lemma trim_rule_text:
  assumes "wf_tool_name n"
  shows "trim (n @ ''('' @ c @ '')'') = n @ ''('' @ c @ '')''"
  using wf_tool_name_hd [OF assms] by (intro trim_id) auto

lemma parse_with_content:
  assumes "wf_tool_name n"
  shows "parse_rule_string (n @ ''('' @ c @ '')'') src beh =
    Inr \<lparr>rule_source = src, rule_behavior = beh, tool_name = n, rule_content = Some c\<rparr>"
proof -
  let ?s = "n @ ''('' @ c @ '')''"
  from assms have n: "n \<noteq> []" "trim n = n" "CHR ''('' \<notin> set n"
    by (auto simp: wf_tool_name_def)
  from n(3) have "find_char_at (CHR ''('') ?s = Some (length n)"
    using find_char_at_append [of "CHR ''(''" n "c @ '')''"] by simp
  moreover have "suffix '')'' ?s"
    by (metis append.assoc suffixI)
  moreover have "slice ?s (length n + 1) (length ?s - 1) = c"
    by (simp add: slice_def)
  ultimately show ?thesis
    using n trim_rule_text [OF assms, of c] by (simp add: parse_rule_string_def Let_def)
qed

lemma parse_name_only:
  assumes "wf_tool_name n"
  shows "parse_rule_string n src beh =
    Inr \<lparr>rule_source = src, rule_behavior = beh, tool_name = n, rule_content = None\<rparr>"
  using assms
  by (simp add: parse_rule_string_def wf_tool_name_def Let_def find_char_at_None [THEN iffD2])

text \<open>Printing a rule and parsing the text gives the rule back, whatever its content.\<close>

theorem parse_format_rule:
  assumes "wf_rule r"
  shows "parse_rule_string (format_rule_string r) (rule_source r) (rule_behavior r) = Inr r"
  using assms parse_with_content [of "tool_name r"]
  by (cases "rule_content r")
     (simp_all add: wf_rule_def format_rule_string_def parse_name_only)

theorem parse_format_rule_witness:
  "parse_rule_string ''Bash(git push:*)'' UserSettings BDeny =
     Inr \<lparr>rule_source = UserSettings, rule_behavior = BDeny, tool_name = ''Bash'',
          rule_content = Some ''git push:*''\<rparr>"
  using parse_format_rule
    [of "\<lparr>rule_source = UserSettings, rule_behavior = BDeny, tool_name = ''Bash'',
          rule_content = Some ''git push:*''\<rparr>"]
  by (simp add: wf_rule_def wf_tool_name_def format_rule_string_def kernel_defs)

text \<open>What the parser accepts is well formed, so it can be printed and parsed again.\<close>

lemma wf_tool_name_trim: "trim n \<noteq> [] \<Longrightarrow> CHR ''('' \<notin> set n \<Longrightarrow> wf_tool_name (trim n)"
  using set_trim by (auto simp: wf_tool_name_def)

lemma parse_wf:
  assumes "parse_rule_string s src beh = Inr r"
  shows "wf_rule r \<and> rule_source r = src \<and> rule_behavior r = beh"
proof (cases "find_char_at (CHR ''('') (trim s)")
  case None
  then have "CHR ''('' \<notin> set (trim s)"
    using find_char_at_None by metis
  with None assms wf_tool_name_trim [of "trim s"] show ?thesis
    by (auto simp: parse_rule_string_def Let_def wf_rule_def split: if_splits)
next
  case (Some i)
  then have "CHR ''('' \<notin> set (take i (trim s))"
    using find_char_at_Some by blast
  with assms Some show ?thesis
    by (auto simp: parse_rule_string_def Let_def wf_rule_def wf_tool_name_trim split: if_splits)
qed

lemma rules_from_settings_wf:
  "r \<in> set (rules_from_settings rs src) \<Longrightarrow> wf_rule r \<and> rule_source r = src"
  by (auto simp: rules_from_settings_def List.map_filter_def split: sum.splits dest: parse_wf)

lemma rules_from_settings_Cons:
  "rules_from_settings (r # rs) src =
     (case parse_rule_string (sr_tool r) src (behavior_of_action (sr_action r)) of
        Inr rule \<Rightarrow> [rule] | Inl _ \<Rightarrow> []) @ rules_from_settings rs src"
  by (simp add: rules_from_settings_def List.map_filter_simps split: sum.splits)

text \<open>Loading the tiers never yields a rule from any other source than the settings files, and
  every rule it yields is well formed; in particular a project rule can never pose as a policy,
  command-line or plugin rule.\<close>

theorem rules_from_all_tiers_sources:
  assumes "r \<in> set (rules_from_all_tiers global_rules local_rules)"
  shows "wf_rule r \<and> rule_source r \<in> {UserSettings, ProjectSettings, LocalSettings}"
proof -
  have "source_of_tier t \<in> {UserSettings, ProjectSettings, LocalSettings}" for t
    by (auto simp: source_of_tier_def split: option.splits tier.splits)
  with assms show ?thesis
    by (fastforce simp: rules_from_all_tiers_def dest: rules_from_settings_wf)
qed

theorem rules_from_all_tiers_sources_witness:
  "\<lparr>rule_source = LocalSettings, rule_behavior = BAllow, tool_name = ''Read'', rule_content = None\<rparr>
     \<in> set (rules_from_all_tiers
         [\<lparr>sr_tool = ''Bash(rm:*)'', sr_action = ActDeny, sr_tier = Some TierProject\<rparr>]
         [\<lparr>sr_tool = ''Read'', sr_action = ActAllow, sr_tier = None\<rparr>])
   \<and> wf_rule \<lparr>rule_source = LocalSettings, rule_behavior = BAllow, tool_name = ''Read'',
        rule_content = None\<rparr>"
proof -
  have m: "\<lparr>rule_source = LocalSettings, rule_behavior = BAllow, tool_name = ''Read'', rule_content = None\<rparr>
     \<in> set (rules_from_all_tiers
         [\<lparr>sr_tool = ''Bash(rm:*)'', sr_action = ActDeny, sr_tier = Some TierProject\<rparr>]
         [\<lparr>sr_tool = ''Read'', sr_action = ActAllow, sr_tier = None\<rparr>])"
    by (simp add: rules_from_all_tiers_def rules_from_settings_Cons parse_rule_string_def kernel_defs
        List.map_filter_simps)
  with rules_from_all_tiers_sources [OF m] show ?thesis by blast
qed

end
