(* ===== verification/Paths.thy ===== *)
theory Paths
  imports Prelude
begin

text \<open>
  \<open>std::path\<close> on Unix, as far as the permission code uses it.  A \<open>Path\<close> compares by its
  components, so a path is the list of its components: a leading root, a leading \<open>.\<close> of a relative
  path, \<open>..\<close>, and names.  \<open>path_of\<close> is \<open>Path::new\<close> read through \<open>components\<close>; \<open>path_str\<close> is the text
  of a path built by \<open>push\<close>.  The lexical normalization of \<open>path_rule.rs\<close> and \<open>path_safety.rs\<close> and
  the containment test are here because every client shares them.
\<close>

section \<open>Components\<close>

datatype component = RootDir | CurDir | ParentDir | Normal string

type_synonym path = "component list"

definition component_of :: "string \<Rightarrow> component" where
  "component_of s = (if s = ''.'' then CurDir else if s = ''..'' then ParentDir else Normal s)"

definition path_of :: "string \<Rightarrow> path" where
  "path_of s =
     (let parts = split_char (CHR ''/'') s;
          body = map component_of (filter (\<lambda>p. p \<noteq> [] \<and> p \<noteq> ''.'') parts)
      in if prefix ''/'' s then RootDir # body
         else if hd parts = ''.'' then CurDir # body
         else body)"

fun component_str :: "component \<Rightarrow> string" where
  "component_str RootDir = ''/''"
| "component_str CurDir = ''.''"
| "component_str ParentDir = ''..''"
| "component_str (Normal s) = s"

fun path_str :: "path \<Rightarrow> string" where
  "path_str (RootDir # cs) = CHR ''/'' # join_with ''/'' (map component_str cs)"
| "path_str cs = join_with ''/'' (map component_str cs)"

definition is_absolute :: "path \<Rightarrow> bool" where
  "is_absolute p \<longleftrightarrow> p \<noteq> [] \<and> hd p = RootDir"

text \<open>\<open>Path::parent\<close> and \<open>PathBuf::pop\<close>: the root and the empty path have no parent.\<close>

definition path_parent :: "path \<Rightarrow> path option" where
  "path_parent p = (if p = [] \<or> last p = RootDir then None else Some (butlast p))"

definition path_pop :: "path \<Rightarrow> path" where
  "path_pop p = (case path_parent p of None \<Rightarrow> p | Some q \<Rightarrow> q)"

text \<open>\<open>PathBuf::push\<close> of one component and \<open>Path::join\<close>: an absolute path replaces, a leading \<open>.\<close>
  disappears behind something.\<close>

definition path_push :: "path \<Rightarrow> component \<Rightarrow> path" where
  "path_push p c = (if c = RootDir then [RootDir] else p @ [c])"

definition path_join :: "path \<Rightarrow> path \<Rightarrow> path" where
  "path_join base p =
     (if is_absolute p then p
      else if base = [] then p
      else base @ filter (\<lambda>c. c \<noteq> CurDir) p)"

definition path_starts_with :: "path \<Rightarrow> path \<Rightarrow> bool" where
  "path_starts_with p base \<longleftrightarrow> prefix base p"

definition file_name :: "path \<Rightarrow> string option" where
  "file_name p = (if p = [] then None else case last p of Normal n \<Rightarrow> Some n | _ \<Rightarrow> None)"

text \<open>\<open>Path::ancestors\<close>: the path, its parent, and so on.\<close>

function ancestors :: "path \<Rightarrow> path list" where
  "ancestors p = p # (case path_parent p of None \<Rightarrow> [] | Some q \<Rightarrow> ancestors q)"
  by pat_completeness auto
termination
  by (relation "measure length") (auto simp: path_parent_def split: if_splits)

declare ancestors.simps [simp del]

lemmas path_defs [kernel_defs] =
  component_of_def path_of_def is_absolute_def path_parent_def path_pop_def path_push_def
  path_join_def path_starts_with_def file_name_def

lemma component_str_of [simp]: "component_str (component_of s) = s"
  by (simp add: component_of_def)

section \<open>Normal paths\<close>

text \<open>A name as one component of a path, and a path of names only, under the root or relative.\<close>

definition wf_name :: "string \<Rightarrow> bool" where
  "wf_name n \<longleftrightarrow> n \<noteq> [] \<and> n \<noteq> ''.'' \<and> n \<noteq> ''..'' \<and> CHR ''/'' \<notin> set n"

definition names_only :: "path \<Rightarrow> bool" where
  "names_only p \<longleftrightarrow> list_all (\<lambda>c. \<exists>n. c = Normal n \<and> wf_name n) p"

definition normal_path :: "path \<Rightarrow> bool" where
  "normal_path p \<longleftrightarrow> names_only p \<or> (p \<noteq> [] \<and> hd p = RootDir \<and> names_only (tl p))"

lemma names_only_simps [simp]:
  "names_only []"
  "names_only (c # p) \<longleftrightarrow> (\<exists>n. c = Normal n \<and> wf_name n) \<and> names_only p"
  "names_only (p @ q) \<longleftrightarrow> names_only p \<and> names_only q"
  by (simp_all add: names_only_def)

lemma names_only_butlast [intro]: "names_only p \<Longrightarrow> names_only (butlast p)"
  by (auto simp: names_only_def list_all_iff dest: in_set_butlastD)

lemma normal_path_Nil [simp]: "normal_path []"
  by (simp add: normal_path_def)

lemma normal_path_absolute: "normal_path p \<Longrightarrow> is_absolute p \<longleftrightarrow> (\<exists>q. p = RootDir # q \<and> names_only q)"
  by (cases p) (auto simp: normal_path_def is_absolute_def)

lemma component_of_name: "wf_name n \<Longrightarrow> component_of n = Normal n"
  by (simp add: component_of_def wf_name_def)

lemma split_char_join:
  "ns \<noteq> [] \<Longrightarrow> list_all (\<lambda>n. d \<notin> set n) ns \<Longrightarrow> split_char d (join_with [d] ns) = ns"
proof (induction "[d]" ns rule: join_with.induct)
  case (3 s t ss)
  then show ?case by (simp add: split_char_append)
qed (simp_all add: split_char_plain)

lemma names_components:
  assumes "names_only p"
  shows "map component_of (filter (\<lambda>p. p \<noteq> [] \<and> p \<noteq> ''.'') (map component_str p)) = p"
    and "list_all (\<lambda>n. CHR ''/'' \<notin> set n) (map component_str p)"
  using assms by (induction p) (auto simp: component_of_name wf_name_def)

lemma join_names_head:
  assumes "names_only p" "p \<noteq> []"
  shows "\<not> prefix ''/'' (join_with ''/'' (map component_str p))"
proof -
  from assms obtain n q where p: "p = Normal n # q" and n: "wf_name n"
    by (cases p) auto
  then obtain a m where "n = a # m" "a \<noteq> CHR ''/''"
    by (cases n) (auto simp: wf_name_def)
  with p show ?thesis by (cases q) auto
qed

text \<open>Reading back the text of a normal path gives the path.\<close>

lemma path_of_path_str:
  assumes "normal_path p"
  shows "path_of (path_str p) = p"
proof (cases "p \<noteq> [] \<and> hd p = RootDir")
  case True
  then obtain q where p: "p = RootDir # q" and q: "names_only q"
    using assms by (cases p) (auto simp: normal_path_def)
  have "split_char (CHR ''/'') (path_str p) =
      [] # (if q = [] then [[]] else map component_str q)"
    using split_char_join [of "map component_str q" "CHR ''/''"] names_components(2) [OF q] p
    by (cases q) auto
  then show ?thesis
    using names_components(1) [OF q] p by (auto simp: path_of_def)
next
  case False
  with assms have q: "names_only p"
    by (auto simp: normal_path_def)
  show ?thesis
  proof (cases "p = []")
    case True
    then show ?thesis by (simp add: path_of_def)
  next
    case ne: False
    then have s: "path_str p = join_with ''/'' (map component_str p)"
      using False by (cases p rule: path_str.cases) auto
    have "split_char (CHR ''/'') (path_str p) = map component_str p"
      using split_char_join [of "map component_str p" "CHR ''/''"] names_components(2) [OF q] ne s
      by simp
    moreover have "hd (map component_str p) \<noteq> ''.''"
      using q ne by (cases p) (auto simp: wf_name_def)
    ultimately show ?thesis
      using names_components(1) [OF q] join_names_head [OF q ne] s by (simp add: path_of_def)
  qed
qed

section \<open>Lexical normalization\<close>

text \<open>\<open>normalize\<close> (\<open>path_rule.rs\<close>) and \<open>normalize_path_lexically\<close> (\<open>path_safety.rs\<close>) fold the
  components onto an empty path.\<close>

fun normalize_step :: "path \<Rightarrow> component \<Rightarrow> path" where
  "normalize_step out ParentDir = path_pop out"
| "normalize_step out CurDir = out"
| "normalize_step out c = path_push out c"

definition normalize :: "path \<Rightarrow> path" where
  "normalize p = foldl normalize_step [] p"

fun normalize_lexically_step :: "path \<Rightarrow> component \<Rightarrow> path" where
  "normalize_lexically_step out CurDir = out"
| "normalize_lexically_step out ParentDir = path_pop out"
| "normalize_lexically_step out c = path_push out c"

definition normalize_path_lexically :: "path \<Rightarrow> path" where
  "normalize_path_lexically p = foldl normalize_lexically_step [] p"

lemma normalize_path_lexically_eq: "normalize_path_lexically = normalize"
proof -
  have "normalize_lexically_step out c = normalize_step out c" for out c
    by (cases c) simp_all
  then have step: "normalize_lexically_step = normalize_step" by blast
  show ?thesis
    by (rule ext) (simp add: normalize_path_lexically_def normalize_def step)
qed

text \<open>What parsing produces: well-formed names, and the root only in front.\<close>

definition wf_path :: "path \<Rightarrow> bool" where
  "wf_path p \<longleftrightarrow> RootDir \<notin> set (tl p) \<and> (\<forall>n. Normal n \<in> set p \<longrightarrow> wf_name n)"

lemma wf_path_of: "wf_path (path_of s)"
proof -
  have "wf_name n" if "Normal n \<in> set (map component_of (filter (\<lambda>p. p \<noteq> [] \<and> p \<noteq> ''.'') (split_char (CHR ''/'') s)))" for n
    using that by (auto simp: component_of_def wf_name_def split: if_splits dest: split_char_no_sep)
  moreover have "RootDir \<notin> set (map component_of xs)" for xs
    by (auto simp: component_of_def)
  moreover have "RootDir \<notin> set (tl (map component_of xs))" for xs
    by (cases xs) (auto simp: component_of_def)
  ultimately show ?thesis
    unfolding wf_path_def path_of_def Let_def by auto
qed

lemma normal_path_wf: "normal_path p \<Longrightarrow> wf_path p"
proof -
  have "names_only q \<Longrightarrow> RootDir \<notin> set q \<and> (\<forall>n. Normal n \<in> set q \<longrightarrow> wf_name n)" for q
    by (auto simp: names_only_def list_all_iff)
  then show "normal_path p \<Longrightarrow> wf_path p"
    by (cases p) (auto simp: wf_path_def normal_path_def)
qed

lemma wf_path_join:
  assumes "wf_path a" "wf_path b"
  shows "wf_path (path_join a b)"
proof (cases "is_absolute b \<or> a = []")
  case False
  then have "RootDir \<notin> set b"
    using assms(2) by (cases b) (auto simp: wf_path_def is_absolute_def)
  with False assms show ?thesis
    by (cases a) (auto simp: wf_path_def path_join_def)
qed (use assms in \<open>auto simp: path_join_def\<close>)

lemma normal_path_pop: "normal_path p \<Longrightarrow> normal_path (path_pop p)"
  by (cases p) (auto simp: normal_path_def path_pop_def path_parent_def)

lemma normal_path_snoc: "normal_path p \<Longrightarrow> wf_name n \<Longrightarrow> normal_path (p @ [Normal n])"
  by (cases p) (auto simp: normal_path_def)

lemma normalize_fold_normal:
  "normal_path out \<Longrightarrow> (\<forall>n. Normal n \<in> set p \<longrightarrow> wf_name n) \<Longrightarrow>
   normal_path (foldl normalize_step out p)"
proof (induction p arbitrary: out)
  case (Cons c p)
  then have "normal_path (normalize_step out c)"
    by (cases c) (simp_all add: normal_path_pop normal_path_snoc path_push_def, simp add: normal_path_def)
  with Cons show ?case by simp
qed simp

lemma normalize_normal [simp]: "wf_path p \<Longrightarrow> normal_path (normalize p)"
  unfolding normalize_def by (rule normalize_fold_normal) (auto simp: wf_path_def)

lemma normalize_fold_names: "names_only p \<Longrightarrow> foldl normalize_step out p = out @ p"
  by (induction p arbitrary: out) (auto simp: path_push_def)

lemma normalize_id [simp]: "normal_path p \<Longrightarrow> normalize p = p"
  by (cases p) (auto simp: normal_path_def normalize_def normalize_fold_names path_push_def)

lemma normalize_fold_absolute:
  "is_absolute out \<Longrightarrow> is_absolute (foldl normalize_step out p)"
proof (induction p arbitrary: out)
  case (Cons c p)
  then have "is_absolute (normalize_step out c)"
    by (cases c; cases out rule: rev_cases)
       (auto simp: is_absolute_def path_pop_def path_parent_def path_push_def hd_append split: if_splits)
  with Cons show ?case by simp
qed simp

lemma normalize_absolute [simp]: "is_absolute p \<Longrightarrow> is_absolute (normalize p)"
  by (cases p) (auto simp: is_absolute_def normalize_def path_push_def
      intro!: normalize_fold_absolute [unfolded is_absolute_def, of "[RootDir]", simplified])

lemma normalize_cons_dots:
  "normalize (p @ CurDir # q) = normalize (p @ q)"
  "wf_name n \<Longrightarrow> normalize (p @ Normal n # ParentDir # q) = normalize (p @ q)"
  by (simp_all add: normalize_def path_push_def path_pop_def path_parent_def)

section \<open>Containment\<close>

text \<open>\<open>starts_within\<close> (\<open>path_safety.rs\<close>) compares component by component.\<close>

definition starts_within :: "path \<Rightarrow> path \<Rightarrow> bool" where
  "starts_within target root =
     (if length target < length root then False
      else list_all (\<lambda>(a, b). a = b) (zip target root))"

definition is_path_within_root :: "path \<Rightarrow> path \<Rightarrow> bool" where
  "is_path_within_root target root = starts_within target root"

lemma starts_within_prefix: "starts_within t r \<longleftrightarrow> prefix r t"
proof (cases "length t < length r")
  case True
  then show ?thesis
    by (auto simp: starts_within_def dest: prefix_length_le)
next
  case False
  then have "list_all (\<lambda>(a, b). a = b) (zip t r) \<longleftrightarrow> prefix r t"
  proof (induction r arbitrary: t)
    case (Cons b r)
    then show ?case by (cases t) auto
  qed simp
  with False show ?thesis by (simp add: starts_within_def)
qed

end
