(* ===== verification/PathRule.thy ===== *)
theory PathRule
  imports Paths
begin

text \<open>
  Path rules, \<open>crates/permissions/src/path_rule.rs\<close>.  The process environment, the file system's
  \<open>canonicalize\<close> and the \<open>globset\<close> crate are outside the repository: they are the fields of an
  \<open>env\<close>, passed to the operations that consult them.  A glob pattern compiles to a matcher on
  text, or does not compile.
\<close>

record env =
  env_var :: "string \<Rightarrow> string option"
  env_canonicalize :: "path \<Rightarrow> path option"
  env_glob_path :: "string \<Rightarrow> (string \<Rightarrow> bool) option"
  env_glob_text :: "string \<Rightarrow> (string \<Rightarrow> bool) option"

record resolved_path =
  primary :: path
  aliases :: "path list"

definition home_dir :: "env \<Rightarrow> path option" where
  "home_dir e =
     (let v = (case env_var e ''HOME'' of Some h \<Rightarrow> Some h | None \<Rightarrow> env_var e ''USERPROFILE'')
      in case v of Some h \<Rightarrow> (if h = [] then None else Some (path_of h)) | None \<Rightarrow> None)"

definition expand_home :: "env \<Rightarrow> string \<Rightarrow> path option" where
  "expand_home e raw =
     (let rest = (if raw = ''~'' then Some [] else strip_prefix ''~/'' raw)
      in case rest of
           None \<Rightarrow> None
         | Some r \<Rightarrow> map_option (\<lambda>h. path_join h (path_of r)) (home_dir e))"

definition absolutize :: "path \<Rightarrow> path \<Rightarrow> path" where
  "absolutize p cwd = (if is_absolute p then normalize p else normalize (path_join cwd p))"

definition resolved_path_new :: "env \<Rightarrow> string \<Rightarrow> path \<Rightarrow> resolved_path" where
  "resolved_path_new e raw cwd =
     (let p = absolutize (path_of raw) cwd;
          home = (case expand_home e raw of Some h \<Rightarrow> [normalize h] | None \<Rightarrow> []);
          real = (case env_canonicalize e p of
                    Some r \<Rightarrow> (if r \<noteq> p then [r] else [])
                  | None \<Rightarrow> [])
      in \<lparr>primary = p, aliases = home @ real\<rparr>)"

definition resolved_all :: "resolved_path \<Rightarrow> path list" where
  "resolved_all r = primary r # aliases r"

definition has_glob :: "string \<Rightarrow> bool" where
  "has_glob s \<longleftrightarrow> list_ex (\<lambda>c. c \<in> set ''*?['') s"

definition starts_with_glob :: "string \<Rightarrow> bool" where
  "starts_with_glob s \<longleftrightarrow> s \<noteq> [] \<and> hd s \<in> set ''*?[''"

definition resolve_pattern :: "env \<Rightarrow> string \<Rightarrow> path \<Rightarrow> string" where
  "resolve_pattern e pattern cwd =
     (case expand_home e pattern of
        Some expanded \<Rightarrow> path_str (normalize expanded)
      | None \<Rightarrow>
          if starts_with_glob pattern then
            (if CHR ''/'' \<in> set pattern then pattern else ''**/'' @ pattern)
          else path_str (absolutize (path_of pattern) cwd))"

definition path_matches :: "env \<Rightarrow> string \<Rightarrow> path \<Rightarrow> bool" where
  "path_matches e pattern p =
     (if has_glob pattern then
        (case env_glob_path e pattern of Some g \<Rightarrow> g (path_str p) | None \<Rightarrow> False)
      else path_starts_with p (path_of pattern))"

definition star_meaning_changed :: "string \<Rightarrow> bool" where
  "star_meaning_changed pattern \<longleftrightarrow>
     CHR ''/'' \<in> set pattern \<and>
     list_ex (\<lambda>i. pattern ! i = CHR ''*''
               \<and> \<not> (i + 1 < length pattern \<and> pattern ! (i + 1) = CHR ''*'')
               \<and> (i = 0 \<or> pattern ! (i - 1) \<noteq> CHR ''*''))
       [0..<length pattern]"

lemmas path_rule_defs [kernel_defs] =
  home_dir_def expand_home_def absolutize_def resolved_path_new_def resolved_all_def has_glob_def
  starts_with_glob_def resolve_pattern_def path_matches_def star_meaning_changed_def

section \<open>Resolved paths are normal\<close>

lemma absolutize_normal: "wf_path p \<Longrightarrow> wf_path cwd \<Longrightarrow> normal_path (absolutize p cwd)"
  by (simp add: absolutize_def wf_path_join)

lemma absolutize_absolute: "is_absolute cwd \<Longrightarrow> is_absolute (absolutize p cwd)"
  by (cases cwd) (auto simp: absolutize_def path_join_def is_absolute_def
      intro!: normalize_absolute [unfolded is_absolute_def])

lemma primary_normal: "wf_path cwd \<Longrightarrow> normal_path (primary (resolved_path_new e raw cwd))"
  by (simp add: resolved_path_new_def Let_def absolutize_normal wf_path_of)

text \<open>A pattern without a tilde or a glob resolves to the text of a normal path, which reads back as
  that path.\<close>

lemma path_of_resolve_plain:
  assumes "expand_home e pattern = None" "\<not> starts_with_glob pattern" "wf_path cwd"
  shows "path_of (resolve_pattern e pattern cwd) = absolutize (path_of pattern) cwd"
  using assms absolutize_normal [OF wf_path_of, of cwd pattern]
  by (simp add: resolve_pattern_def path_of_path_str)

text \<open>The text of a normal path holds only characters of its names and slashes.\<close>

lemma set_join_with: "set (join_with sep ss) \<subseteq> set sep \<union> (\<Union>s \<in> set ss. set s)"
  by (induction sep ss rule: join_with.induct) auto

end
