(* ===== verification/Shell.thy ===== *)
theory Shell
  imports Prelude
begin

text \<open>
  The shell scanner, \<open>crates/permissions/src/shell.rs\<close>: \<open>words\<close> reads the words of one simple
  command, \<open>simple_commands\<close> cuts a command line into the simple commands it runs.  Positions are
  indices into the vector of characters, as in the source.  The source's \<open>scan_double_quoted\<close>
  calls \<open>split_into\<close> on each substitution body it meets; here it returns those bodies in order and
  \<open>split_into\<close> runs over them, which gives the same output vector.
\<close>

abbreviation backslash :: char where "backslash \<equiv> CHR 0x5C"
abbreviation squote :: char where "squote \<equiv> CHR 0x27"
abbreviation dquote :: char where "dquote \<equiv> CHR 0x22"
abbreviation backtick :: char where "backtick \<equiv> CHR 0x60"
abbreviation newline :: char where "newline \<equiv> CHR 0x0A"

section \<open>Words of one command\<close>

text \<open>The inner loops of \<open>words\<close>: the rest of a quoted string, added to the current word.\<close>

fun words_squoted :: "string \<Rightarrow> string \<Rightarrow> string \<times> string" where
  "words_squoted word [] = (word, [])"
| "words_squoted word (q # cs) = (if q = squote then (word, cs) else words_squoted (word @ [q]) cs)"

fun words_dquoted :: "string \<Rightarrow> string \<Rightarrow> string \<times> string" where
  "words_dquoted word [] = (word, [])"
| "words_dquoted word (q # cs) =
     (if q = dquote then (word, cs)
      else if q = backslash then
        (case cs of [] \<Rightarrow> (word, []) | n # cs' \<Rightarrow> words_dquoted (word @ [n]) cs')
      else words_dquoted (word @ [q]) cs)"

lemma words_squoted_shorter: "words_squoted w cs = (w', r) \<Longrightarrow> length r \<le> length cs"
  by (induction w cs rule: words_squoted.induct) (auto split: if_splits)

lemma words_dquoted_shorter: "words_dquoted w cs = (w', r) \<Longrightarrow> length r \<le> length cs"
proof (induction w cs rule: words_dquoted.induct)
  case (2 word q cs)
  then show ?case
    by (auto split: if_splits list.splits)
qed simp

function (sequential) words_loop :: "string \<Rightarrow> bool \<Rightarrow> string \<Rightarrow> string list" where
  "words_loop word in_word [] = (if in_word then [word] else [])"
| "words_loop word in_word (c # cs) =
     (if c = squote then
        (case words_squoted word cs of (word', rest) \<Rightarrow> words_loop word' True rest)
      else if c = dquote then
        (case words_dquoted word cs of (word', rest) \<Rightarrow> words_loop word' True rest)
      else if c = backslash then
        (case cs of [] \<Rightarrow> words_loop word True [] | n # cs' \<Rightarrow> words_loop (word @ [n]) True cs')
      else if is_whitespace c then
        (if in_word then word # words_loop [] False cs else words_loop word False cs)
      else words_loop (word @ [c]) True cs)"
  by pat_completeness auto
termination
  by (relation "measure (\<lambda>(w, b, cs). length cs)")
     (auto dest!: words_squoted_shorter [OF sym] words_dquoted_shorter [OF sym])

definition words :: "string \<Rightarrow> string list" where
  "words command = words_loop [] False command"

section \<open>Finding the end of a quoted part\<close>

definition find_char :: "string \<Rightarrow> nat \<Rightarrow> char \<Rightarrow> nat" where
  "find_char cs from target =
     (case List.find (\<lambda>j. cs ! j = target) [from..<length cs] of
        Some j \<Rightarrow> j
      | None \<Rightarrow> length cs)"

function find_unescaped :: "string \<Rightarrow> nat \<Rightarrow> char \<Rightarrow> nat" where
  "find_unescaped cs i target =
     (if i < length cs then
        (if cs ! i = backslash then find_unescaped cs (i + 2) target
         else if cs ! i = target then i
         else find_unescaped cs (i + 1) target)
      else length cs)"
  by pat_completeness auto
termination
  by (relation "measure (\<lambda>(cs, i, t). length cs - i)") auto

declare find_unescaped.simps [simp del]

lemma find_char_ge: "from \<le> length cs \<Longrightarrow> from \<le> find_char cs from t"
  by (auto simp: find_char_def find_Some_iff split: option.splits)

lemma find_unescaped_past [simp]: "length cs \<le> i \<Longrightarrow> find_unescaped cs i t = length cs"
  by (simp add: find_unescaped.simps)

lemma find_unescaped_ge: "i \<le> length cs \<Longrightarrow> i \<le> find_unescaped cs i t"
proof (induction cs i t rule: find_unescaped.induct)
  case (1 cs i t)
  show ?case
  proof (cases "i < length cs")
    case True
    with 1 show ?thesis
      by (cases "i + 2 \<le> length cs") (auto simp: find_unescaped.simps [of cs i])
  next
    case False
    with 1 show ?thesis by simp
  qed
qed

lemma find_char_hit:
  assumes "find_char cs from t < length cs"
  shows "cs ! find_char cs from t = t"
  using assms
proof (cases "List.find (\<lambda>j. cs ! j = t) [from..<length cs]")
  case (Some j)
  then have "cs ! j = t" by (auto simp: find_Some_iff)
  with Some show ?thesis by (simp add: find_char_def)
qed (simp add: find_char_def)

lemma find_char_gt:
  assumes "i < length cs" "cs ! i \<noteq> t"
  shows "i < find_char cs i t"
proof -
  have "i \<le> find_char cs i t"
    using assms by (intro find_char_ge) simp
  moreover have "find_char cs i t \<noteq> i"
    using assms find_char_hit [of cs i t] by auto
  ultimately show ?thesis by simp
qed

text \<open>\<open>find_close_paren\<close>: the index of the bracket closing a group whose body starts at \<open>i\<close>.  The
  depth is an \<open>i32\<close> in the source and never reaches its bounds on a vector that fits in memory.\<close>

definition paren_skip :: "string \<Rightarrow> nat \<Rightarrow> nat" where
  "paren_skip cs i =
     (if cs ! i = backslash then i + 1
      else if cs ! i = squote then find_char cs (i + 1) squote
      else if cs ! i = dquote then find_unescaped cs (i + 1) dquote
      else i)"

lemma paren_skip_ge: "i < length cs \<Longrightarrow> i \<le> paren_skip cs i"
  using find_char_ge [of "i + 1" cs squote] find_unescaped_ge [of "i + 1" cs dquote]
  by (auto simp: paren_skip_def)

function find_close_paren :: "string \<Rightarrow> nat \<Rightarrow> nat \<Rightarrow> nat" where
  "find_close_paren cs i depth =
     (if i < length cs then
        (if cs ! i = CHR ''('' then find_close_paren cs (i + 1) (depth + 1)
         else if cs ! i = CHR '')'' then
           (if depth = 1 then i else find_close_paren cs (i + 1) (depth - 1))
         else find_close_paren cs (paren_skip cs i + 1) depth)
      else length cs)"
  by pat_completeness auto
termination
proof (relation "measure (\<lambda>(cs, i, d). length cs - i)", goal_cases)
  case (4 cs i depth)
  then show ?case using paren_skip_ge [of i cs] by simp
qed auto

declare find_close_paren.simps [simp del]

lemma find_close_paren_ge: "i \<le> length cs \<Longrightarrow> i \<le> find_close_paren cs i d"
proof (induction cs i d rule: find_close_paren.induct)
  case (1 cs i d)
  show ?case
  proof (cases "i < length cs")
    case True
    then have "i \<le> paren_skip cs i" by (rule paren_skip_ge)
    moreover have "find_close_paren cs j d = length cs" if "\<not> j < length cs" for j
      using that by (simp add: find_close_paren.simps [of cs j])
    ultimately show ?thesis
      using True 1 by (cases "paren_skip cs i + 1 \<le> length cs")
        (auto simp: find_close_paren.simps [of cs i])
  next
    case False
    with 1 show ?thesis by (simp add: find_close_paren.simps)
  qed
qed

section \<open>Substitutions inside double quotes\<close>

text \<open>\<open>scan_double_quoted\<close>, from just past the opening quote: the index of the closing quote and
  the bodies of the substitutions inside, in order.\<close>

function scan_double_quoted :: "string \<Rightarrow> nat \<Rightarrow> nat \<times> string list" where
  "scan_double_quoted cs i =
     (if i < length cs then
        (if cs ! i = dquote then (i, [])
         else if cs ! i = backslash then scan_double_quoted cs (i + 2)
         else if cs ! i = backtick then
           (let e = find_unescaped cs (i + 1) backtick;
                inner = slice cs (i + 1) (min e (length cs));
                (close, bodies) = scan_double_quoted cs (e + 1)
            in (close, inner # bodies))
         else if cs ! i = CHR ''$'' \<and> i + 1 < length cs \<and> cs ! (i + 1) = CHR ''('' then
           (let e = find_close_paren cs (i + 2) 1;
                inner = slice cs (i + 2) (min e (length cs));
                (close, bodies) = scan_double_quoted cs (e + 1)
            in (close, inner # bodies))
         else scan_double_quoted cs (i + 1))
      else (length cs, []))"
  by pat_completeness auto
termination
proof (relation "measure (\<lambda>(cs, i). length cs - i)", goal_cases)
  case (3 cs i e)
  then show ?case using find_unescaped_ge [of "i + 1" cs backtick] by simp
next
  case (4 cs i e)
  then show ?case using find_close_paren_ge [of "i + 2" cs 1] by auto
qed auto

declare scan_double_quoted.simps [simp del]

lemma scan_double_quoted_past [simp]: "length cs \<le> i \<Longrightarrow> scan_double_quoted cs i = (length cs, [])"
  by (simp add: scan_double_quoted.simps)

lemma scan_double_quoted_ge: "i \<le> length cs \<Longrightarrow> i \<le> fst (scan_double_quoted cs i)"
proof (induction cs i rule: scan_double_quoted.induct)
  case (1 cs i)
  show ?case
  proof (cases "i < length cs")
    case True
    have later: "i \<le> fst (scan_double_quoted cs j)"
      if "i \<le> j" "j \<le> length cs \<Longrightarrow> j \<le> fst (scan_double_quoted cs j)" for j
      using that True by (cases "j \<le> length cs") auto
    let ?e1 = "find_unescaped cs (i + 1) backtick" and ?e2 = "find_close_paren cs (i + 2) 1"
    have e1: "i \<le> ?e1 + 1"
      using find_unescaped_ge [of "i + 1" cs backtick] True by simp
    have e2: "i \<le> ?e2 + 1" if "i + 1 < length cs"
      using find_close_paren_ge [of "i + 2" cs 1] that by simp
    note IH = 1
    consider "cs ! i = dquote" | "cs ! i = backslash" | "cs ! i = backtick"
      | "cs ! i = CHR ''$'' \<and> i + 1 < length cs \<and> cs ! (i + 1) = CHR ''(''"
      | "cs ! i \<notin> {dquote, backslash, backtick}"
        "\<not> (cs ! i = CHR ''$'' \<and> i + 1 < length cs \<and> cs ! (i + 1) = CHR ''('')"
      by auto
    then show ?thesis
    proof cases
      case 2
      with True IH(1) later [of "i + 2"] show ?thesis
        by (simp add: scan_double_quoted.simps [of cs i])
    next
      case 3
      with True IH(2) [OF True _ _ _ refl refl] later [OF e1] show ?thesis
        by (simp add: scan_double_quoted.simps [of cs i] Let_def case_prod_unfold)
    next
      case 4
      with True IH(3) [OF True _ _ _ _ refl refl] later [OF e2] show ?thesis
        by (simp add: scan_double_quoted.simps [of cs i] Let_def case_prod_unfold)
    next
      case 5
      with True IH(4) later [of "i + 1"] show ?thesis
        by (auto simp: scan_double_quoted.simps [of cs i])
    qed (use True in \<open>simp add: scan_double_quoted.simps [of cs i]\<close>)
  next
    case False
    with 1 show ?thesis by simp
  qed
qed

lemma scan_double_quoted_bodies:
  "b \<in> set (snd (scan_double_quoted cs i)) \<Longrightarrow> length b < length cs"
proof (induction cs i rule: scan_double_quoted.induct)
  case (1 cs i)
  have short: "length (slice cs (Suc i) n) < length cs" "length (slice cs (Suc (Suc i)) n) < length cs"
    if "i < length cs" for n
    using that by (simp_all add: slice_def)
  show ?case
    using 1 short
    by (auto simp: scan_double_quoted.simps [of cs i] Let_def split: prod.splits if_splits)
qed

section \<open>Peeling a simple command\<close>

definition PREFIX_KEYWORDS :: "string list" where
  "PREFIX_KEYWORDS =
     [''if'', ''then'', ''else'', ''elif'', ''do'', ''while'', ''until'', ''!'']"

definition WRAPPERS :: "string list" where
  "WRAPPERS = [''time'', ''nohup'', ''command'', ''builtin'', ''exec'', ''env'']"

definition TRAILING_KEYWORDS :: "string list" where
  "TRAILING_KEYWORDS = [''fi'', ''done'', ''esac'']"

text \<open>\<open>first_word_end\<close> scans bytes; on this fragment a byte index at an ASCII byte is a character
  index.  The inner loop over a double-quoted part skips two on a backslash.\<close>

function skip_dquoted :: "string \<Rightarrow> nat \<Rightarrow> nat" where
  "skip_dquoted s i =
     (if i < length s \<and> s ! i \<noteq> dquote then
        (if s ! i = backslash then skip_dquoted s (i + 2) else skip_dquoted s (i + 1))
      else i)"
  by pat_completeness auto
termination
  by (relation "measure (\<lambda>(s, i). length s - i)") auto

declare skip_dquoted.simps [simp del]

lemma skip_dquoted_ge: "i \<le> skip_dquoted s i"
proof (induction s i rule: skip_dquoted.induct)
  case (1 s i)
  then show ?case
    by (auto simp: skip_dquoted.simps [of s i])
qed

function first_word_end :: "string \<Rightarrow> nat \<Rightarrow> nat" where
  "first_word_end s i =
     (if i < length s then
        (if s ! i = squote then first_word_end s (find_char s (i + 1) squote + 1)
         else if s ! i = dquote then first_word_end s (skip_dquoted s (i + 1) + 1)
         else if s ! i = backslash then first_word_end s (i + 2)
         else if is_ascii_whitespace (s ! i) then i
         else first_word_end s (i + 1))
      else length s)"
  by pat_completeness auto
termination
proof (relation "measure (\<lambda>(s, i). length s - i)", goal_cases)
  case (2 s i)
  then show ?case using find_char_ge [of "i + 1" s squote] by auto
next
  case (3 s i)
  then show ?case using skip_dquoted_ge [of "i + 1" s] by auto
qed auto

declare first_word_end.simps [simp del]

definition is_assignment :: "string \<Rightarrow> bool" where
  "is_assignment word =
     (case split_once (CHR ''='') word of
        None \<Rightarrow> False
      | Some (name, _) \<Rightarrow>
          (case name of
             [] \<Rightarrow> False
           | c # cs \<Rightarrow>
               (is_ascii_alphabetic c \<or> c = CHR ''_'')
               \<and> list_all (\<lambda>c. is_ascii_alphanumeric c \<or> c = CHR ''_'') cs))"

definition trim_open :: "string \<Rightarrow> string" where
  "trim_open s = trim_start (dropWhile (\<lambda>c. c \<in> {CHR ''('', CHR ''{''}) s)"

lemma length_trim_open_le: "length (trim_open s) \<le> length s"
  unfolding trim_open_def
  by (meson length_dropWhile_le length_trim_start_le order_trans)

lemma peel_shorter:
  assumes "take e (trim_open s) \<noteq> []"
  shows "length (trim_start (drop e (trim_open s))) < length s"
proof -
  from assms have "0 < e" "0 < length (trim_open s)"
    by auto
  then have "length (drop e (trim_open s)) < length (trim_open s)"
    by simp
  with length_trim_start_le [of "drop e (trim_open s)"] length_trim_open_le [of s]
  show ?thesis by linarith
qed

text \<open>The peeling loop of \<open>push_command\<close>: what is left of the command and the last wrapper seen.\<close>

function peel :: "string \<Rightarrow> string option \<Rightarrow> string \<times> string option" where
  "peel s wrapper =
     (let rest = trim_open s;
          e = first_word_end rest 0;
          first = take e rest
      in if first = [] then (rest, wrapper)
         else if first \<in> set WRAPPERS then peel (trim_start (drop e rest)) (Some first)
         else if first \<in> set PREFIX_KEYWORDS \<or> is_assignment first
           then peel (trim_start (drop e rest)) wrapper
         else (rest, wrapper))"
  by pat_completeness auto
termination
proof (relation "measure (\<lambda>(s, w). length s)", goal_cases)
  case (2 s wrapper rest e first)
  then show ?case using peel_shorter [of e s] by simp
next
  case (3 s wrapper rest e first)
  then show ?case using peel_shorter [of e s] by simp
qed simp

declare peel.simps [simp del]

text \<open>The closing loop: trailing brackets, each with the blanks before it.\<close>

function strip_close :: "string \<Rightarrow> string" where
  "strip_close s =
     (if s \<noteq> [] \<and> last s \<in> {CHR '')'', CHR ''}''} then strip_close (trim_end (butlast s)) else s)"
  by pat_completeness auto
termination
proof (relation "measure length", goal_cases)
  case (2 s)
  then show ?case using length_trim_end_le [of "butlast s"] by (cases s) auto
qed simp

declare strip_close.simps [simp del]

definition push_command :: "string \<Rightarrow> string list \<Rightarrow> string list" where
  "push_command raw out =
     (case peel (trim raw) None of
        (peeled, wrapper) \<Rightarrow>
          (let rest = strip_close (trim_end peeled) in
           if rest \<in> set TRAILING_KEYWORDS then out
           else if rest \<noteq> [] then out @ [rest]
           else (case wrapper of Some w \<Rightarrow> out @ [w] | None \<Rightarrow> out)))"

section \<open>Splitting a line\<close>

text \<open>The index just past a comment: the newline that ends it, or the end of the text.\<close>

definition skip_comment :: "string \<Rightarrow> nat \<Rightarrow> nat" where
  "skip_comment cs i = find_char cs i newline"

text \<open>Every arm of the splitting loop moves forward, and every body it recurses on is shorter.\<close>

lemma advance:
  assumes "i < length cs"
  shows "length cs - Suc (find_char cs (Suc i) t) < length cs - i"
    and "length cs - Suc (find_unescaped cs (Suc i) t) < length cs - i"
    and "Suc i < length cs \<Longrightarrow> length cs - Suc (find_close_paren cs (Suc (Suc i)) d) < length cs - i"
    and "length (slice cs (Suc i) n) < length cs"
    and "length (slice cs (Suc (Suc i)) n) < length cs"
  using assms find_char_ge [of "Suc i" cs t] find_unescaped_ge [of "Suc i" cs t]
    find_close_paren_ge [of "Suc (Suc i)" cs d]
  by (auto simp: slice_def)

lemma advance_comment:
  assumes "CHR ''#'' = cs ! i" "i < length cs"
  shows "length cs - skip_comment cs i < length cs - i"
proof -
  from assms(1) [symmetric] have "cs ! i \<noteq> newline" by simp
  with find_char_gt [OF assms(2)] have "i < skip_comment cs i"
    by (simp add: skip_comment_def)
  with assms(2) show ?thesis by simp
qed

lemma advance_dquoted:
  assumes "scan_double_quoted cs (Suc i) = (e, bodies)" "i < length cs"
  shows "length cs - Suc e < length cs - i"
  using assms scan_double_quoted_ge [of "Suc i" cs] by simp

lemma body_dquoted:
  assumes "scan_double_quoted cs i = (e, bodies)" "b \<in> set bodies"
  shows "length b < length cs"
  using assms scan_double_quoted_bodies [of b cs i] by simp

definition is_redirect :: "string \<Rightarrow> string \<Rightarrow> nat \<Rightarrow> bool" where
  "is_redirect cur cs i =
     ((trim_end cur \<noteq> [] \<and> last (trim_end cur) \<in> {CHR ''>'', CHR ''<''})
      \<or> (i + 1 < length cs \<and> cs ! (i + 1) = CHR ''>''))"

function split_loop :: "string \<Rightarrow> nat \<Rightarrow> string \<Rightarrow> string list \<Rightarrow> string list" where
  "split_loop cs i cur out =
     (if i < length cs then
        (let c = cs ! i in
         if c = backslash then split_loop cs (i + 2) (cur @ slice cs i (min (i + 2) (length cs))) out
         else if c = squote then
           (let e = find_char cs (i + 1) squote
            in split_loop cs (e + 1) (cur @ slice cs i (min (e + 1) (length cs))) out)
         else if c = dquote then
           (case scan_double_quoted cs (i + 1) of
              (e, bodies) \<Rightarrow>
                split_loop cs (e + 1) (cur @ slice cs i (min (e + 1) (length cs)))
                  (fold (\<lambda>b o'. split_loop b 0 [] o') bodies out))
         else if c = backtick then
           (let e = find_unescaped cs (i + 1) backtick;
                inner = slice cs (i + 1) (min e (length cs))
            in split_loop cs (e + 1) (cur @ slice cs i (min (e + 1) (length cs)))
                 (split_loop inner 0 [] out))
         else if c \<in> {CHR ''$'', CHR ''<'', CHR ''>''} \<and> i + 1 < length cs \<and> cs ! (i + 1) = CHR ''('' then
           (let e = find_close_paren cs (i + 2) 1;
                inner = slice cs (i + 2) (min e (length cs))
            in split_loop cs (e + 1) (cur @ slice cs i (min (e + 1) (length cs)))
                 (split_loop inner 0 [] out))
         else if c = CHR ''#'' \<and> (cur = [] \<or> is_whitespace (last cur)) then
           split_loop cs (skip_comment cs i) cur out
         else if c \<in> {CHR '';'', newline, CHR ''|''} then
           split_loop cs (i + 1) [] (push_command cur out)
         else if c = CHR ''&'' then
           (if is_redirect cur cs i then split_loop cs (i + 1) (cur @ [c]) out
            else split_loop cs (i + 1) [] (push_command cur out))
         else split_loop cs (i + 1) (cur @ [c]) out)
      else push_command cur out)"
  by pat_completeness auto
termination
proof (relation "measures [\<lambda>(cs, i, cur, out). length cs, \<lambda>(cs, i, cur, out). length cs - i]",
       simp_all only: in_measures wf_measures)
qed (auto simp: advance advance_comment dest: advance_dquoted [OF sym] body_dquoted [OF sym])

declare split_loop.simps [simp del]

definition split_into :: "string \<Rightarrow> string list \<Rightarrow> string list" where
  "split_into src out = split_loop src 0 [] out"

definition simple_commands :: "string \<Rightarrow> string list" where
  "simple_commands line = split_into line []"

end
