(* ===== verification/ShellProps.thy ===== *)
theory ShellProps
  imports Shell
begin

text \<open>
  What \<open>simple_commands\<close> does: the lemmas behind the shell properties.  The equations
  \<open>split_loop_steps\<close> name the arms of the splitting loop, \<open>split_loop_induct\<close> is the induction over
  them; \<open>split_loop_append\<close> and \<open>split_loop_shift\<close> say that the output only grows and that absolute
  positions do not matter.  On top of these stands a small abstract syntax of command lines
  (\<open>piece\<close>, \<open>line\<close>): rendering a line and splitting it gives the commands the syntax names.
\<close>

section \<open>Positions do not matter\<close>

lemma nth_shift [simp]: "(pre @ cs) ! (length pre + i) = cs ! i"
  by (simp add: nth_append)

lemma nth_shift_Suc [simp]: "(pre @ cs) ! Suc (length pre + i) = cs ! Suc i"
  using nth_shift [of pre cs "Suc i"] by simp

lemma find_unescaped_shift [simp]:
  "find_unescaped (pre @ cs) (length pre + i) t = length pre + find_unescaped cs i t"
proof (induction cs i t rule: find_unescaped.induct)
  case (1 cs i t)
  then show ?case
    by (simp add: find_unescaped.simps [of "pre @ cs" "length pre + i" t]
        find_unescaped.simps [of cs i t] add.assoc)
qed
lemma fold_append_out:
  assumes "\<And>x o1 o2. x \<in> set xs \<Longrightarrow> f x (o1 @ o2) = o1 @ f x o2"
  shows "fold f xs (o1 @ o2) = o1 @ fold f xs o2"
  using assms by (induction xs arbitrary: o1 o2) simp_all

lemma push_command_append [simp]: "push_command raw (o1 @ o2) = o1 @ push_command raw o2"
  by (simp add: push_command_def Let_def split: prod.splits option.splits)

lemma find_map_conv: "List.find P (map f xs) = map_option f (List.find (P \<circ> f) xs)"
  by (induction xs) simp_all

lemma find_char_shift [simp]:
  "find_char (pre @ cs) (length pre + i) t = length pre + find_char cs i t"
proof -
  have "[length pre + i..<length (pre @ cs)] = map (\<lambda>j. length pre + j) [i..<length cs]"
    by (rule nth_equalityI) auto
  then have "List.find (\<lambda>j. (pre @ cs) ! j = t) [length pre + i..<length (pre @ cs)] =
      map_option (\<lambda>j. length pre + j) (List.find (\<lambda>j. cs ! j = t) [i..<length cs])"
    by (simp only: find_map_conv o_def nth_shift)
  then show ?thesis
    by (simp add: find_char_def split: option.splits)
qed

lemma paren_skip_shift [simp]:
  "paren_skip (pre @ cs) (length pre + i) = length pre + paren_skip cs i"
  using find_char_shift [of pre cs "i + 1"] find_unescaped_shift [of pre cs "i + 1"]
  by (simp add: paren_skip_def)

lemma find_close_paren_shift [simp]:
  "find_close_paren (pre @ cs) (length pre + i) d = length pre + find_close_paren cs i d"
proof (induction cs i d rule: find_close_paren.induct)
  case (1 cs i d)
  then show ?case
    by (simp add: find_close_paren.simps [of "pre @ cs" "length pre + i" d]
        find_close_paren.simps [of cs i d])
qed

lemma slice_shift [simp]:
  "slice (pre @ cs) (length pre + a) (length pre + b) = slice cs a b"
  by (simp add: slice_def)

lemma slice_shift_min [simp]:
  "slice (pre @ cs) (length pre + a) (min (length pre + b) (length (pre @ cs))) = slice cs a (min b (length cs))"
  "slice (pre @ cs) (length pre + a) (min (length pre + b) (length pre + length cs)) = slice cs a (min b (length cs))"
  by (simp_all add: slice_def min_def)

lemma slice_shift_Suc [simp]:
  "slice (pre @ cs) (Suc (length pre + a)) (min (length pre + b) (length pre + length cs)) = slice cs (Suc a) (min b (length cs))"
  "slice (pre @ cs) (Suc (Suc (length pre + a))) (min (length pre + b) (length pre + length cs)) = slice cs (Suc (Suc a)) (min b (length cs))"
  using slice_shift_min [of pre cs "Suc a" b] slice_shift_min [of pre cs "Suc (Suc a)" b] by simp_all

lemmas shift_Suc [simp] =
  find_char_shift [of pre cs "Suc i" t for pre cs i t, simplified]
  find_unescaped_shift [of pre cs "Suc i" t for pre cs i t, simplified]
  find_close_paren_shift [of pre cs "Suc (Suc i)" d for pre cs i d, simplified]

lemma scan_double_quoted_shift [simp]:
  "scan_double_quoted (pre @ cs) (length pre + i) =
     (case scan_double_quoted cs i of (e, bs) \<Rightarrow> (length pre + e, bs))"
proof (induction cs i rule: scan_double_quoted.induct)
  case (1 cs i)
  then show ?case
    by (auto simp: scan_double_quoted.simps [of "pre @ cs" "length pre + i"]
        scan_double_quoted.simps [of cs i] Let_def split: prod.splits)
qed

lemma skip_comment_shift [simp]: "skip_comment (pre @ cs) (length pre + i) = length pre + skip_comment cs i"
  by (simp add: skip_comment_def)

lemma is_redirect_shift [simp]: "is_redirect cur (pre @ cs) (length pre + i) = is_redirect cur cs i"
  by (simp add: is_redirect_def)

text \<open>One equation per arm of the loop.\<close>

lemma split_loop_end: "length cs \<le> i \<Longrightarrow> split_loop cs i cur out = push_command cur out"
  by (simp add: split_loop.simps [of cs i])

lemma split_loop_backslash:
  "i < length cs \<Longrightarrow> cs ! i = backslash \<Longrightarrow>
   split_loop cs i cur out =
     split_loop cs (i + 2) (cur @ slice cs i (min (i + 2) (length cs))) out"
  by (simp add: split_loop.simps [of cs i])

lemma split_loop_squote:
  "i < length cs \<Longrightarrow> cs ! i = squote \<Longrightarrow>
   split_loop cs i cur out =
     split_loop cs (find_char cs (i + 1) squote + 1)
       (cur @ slice cs i (min (find_char cs (i + 1) squote + 1) (length cs))) out"
  by (simp add: split_loop.simps [of cs i] Let_def)

lemma split_loop_dquote:
  "i < length cs \<Longrightarrow> cs ! i = dquote \<Longrightarrow>
   split_loop cs i cur out =
     (let e = fst (scan_double_quoted cs (i + 1))
      in split_loop cs (e + 1) (cur @ slice cs i (min (e + 1) (length cs)))
           (fold (\<lambda>b o'. split_loop b 0 [] o') (snd (scan_double_quoted cs (i + 1))) out))"
  by (simp add: split_loop.simps [of cs i] Let_def case_prod_unfold)

lemma split_loop_backtick:
  "i < length cs \<Longrightarrow> cs ! i = backtick \<Longrightarrow>
   split_loop cs i cur out =
     (let e = find_unescaped cs (i + 1) backtick
      in split_loop cs (e + 1) (cur @ slice cs i (min (e + 1) (length cs)))
           (split_loop (slice cs (i + 1) (min e (length cs))) 0 [] out))"
  by (simp add: split_loop.simps [of cs i] Let_def)

definition opens_group :: "string \<Rightarrow> nat \<Rightarrow> bool" where
  "opens_group cs i \<longleftrightarrow>
     cs ! i \<in> {CHR ''$'', CHR ''<'', CHR ''>''} \<and> i + 1 < length cs \<and> cs ! (i + 1) = CHR ''(''"

lemma split_loop_group:
  "i < length cs \<Longrightarrow> opens_group cs i \<Longrightarrow>
   split_loop cs i cur out =
     (let e = find_close_paren cs (i + 2) 1
      in split_loop cs (e + 1) (cur @ slice cs i (min (e + 1) (length cs)))
           (split_loop (slice cs (i + 2) (min e (length cs))) 0 [] out))"
  by (auto simp: split_loop.simps [of cs i] Let_def opens_group_def)

definition starts_comment :: "string \<Rightarrow> nat \<Rightarrow> string \<Rightarrow> bool" where
  "starts_comment cs i cur \<longleftrightarrow> cs ! i = CHR ''#'' \<and> (cur = [] \<or> is_whitespace (last cur))"

lemma split_loop_comment:
  "i < length cs \<Longrightarrow> starts_comment cs i cur \<Longrightarrow>
   split_loop cs i cur out = split_loop cs (skip_comment cs i) cur out"
  by (auto simp: split_loop.simps [of cs i] Let_def starts_comment_def)

definition ends_command :: "string \<Rightarrow> nat \<Rightarrow> string \<Rightarrow> bool" where
  "ends_command cs i cur \<longleftrightarrow>
     cs ! i \<in> {CHR '';'', newline, CHR ''|''} \<or> (cs ! i = CHR ''&'' \<and> \<not> is_redirect cur cs i)"

lemma split_loop_sep:
  "i < length cs \<Longrightarrow> ends_command cs i cur \<Longrightarrow>
   split_loop cs i cur out = split_loop cs (i + 1) [] (push_command cur out)"
  by (auto simp: split_loop.simps [of cs i] Let_def ends_command_def)

definition just_copied :: "string \<Rightarrow> nat \<Rightarrow> string \<Rightarrow> bool" where
  "just_copied cs i cur \<longleftrightarrow>
     cs ! i \<notin> {backslash, squote, dquote, backtick} \<and> \<not> opens_group cs i
     \<and> \<not> starts_comment cs i cur \<and> \<not> ends_command cs i cur"

lemma split_loop_copy:
  "i < length cs \<Longrightarrow> just_copied cs i cur \<Longrightarrow>
   split_loop cs i cur out = split_loop cs (i + 1) (cur @ [cs ! i]) out"
  by (auto simp: split_loop.simps [of cs i] Let_def just_copied_def opens_group_def
      starts_comment_def ends_command_def)

lemmas split_loop_steps =
  split_loop_end split_loop_backslash split_loop_squote split_loop_dquote split_loop_backtick
  split_loop_group split_loop_comment split_loop_sep split_loop_copy

text \<open>The induction that goes with these arms.\<close>

lemma split_loop_induct [case_names stop backslash squote dquote backtick group comment sep copy]:
  assumes "\<And>cs i cur out. length cs \<le> i \<Longrightarrow> P cs i cur out"
    and "\<And>cs i cur out. i < length cs \<Longrightarrow> cs ! i = backslash \<Longrightarrow>
      P cs (i + 2) (cur @ slice cs i (min (i + 2) (length cs))) out \<Longrightarrow> P cs i cur out"
    and "\<And>cs i cur out. i < length cs \<Longrightarrow> cs ! i = squote \<Longrightarrow>
      P cs (find_char cs (i + 1) squote + 1)
        (cur @ slice cs i (min (find_char cs (i + 1) squote + 1) (length cs))) out \<Longrightarrow> P cs i cur out"
    and "\<And>cs i cur out e bs. i < length cs \<Longrightarrow> cs ! i = dquote \<Longrightarrow>
      scan_double_quoted cs (i + 1) = (e, bs) \<Longrightarrow>
      (\<And>b o'. b \<in> set bs \<Longrightarrow> P b 0 [] o') \<Longrightarrow>
      P cs (e + 1) (cur @ slice cs i (min (e + 1) (length cs)))
        (fold (\<lambda>b o'. split_loop b 0 [] o') bs out) \<Longrightarrow> P cs i cur out"
    and "\<And>cs i cur out e. i < length cs \<Longrightarrow> cs ! i = backtick \<Longrightarrow>
      e = find_unescaped cs (i + 1) backtick \<Longrightarrow>
      P (slice cs (i + 1) (min e (length cs))) 0 [] out \<Longrightarrow>
      P cs (e + 1) (cur @ slice cs i (min (e + 1) (length cs)))
        (split_loop (slice cs (i + 1) (min e (length cs))) 0 [] out) \<Longrightarrow> P cs i cur out"
    and "\<And>cs i cur out e. i < length cs \<Longrightarrow> opens_group cs i \<Longrightarrow>
      e = find_close_paren cs (i + 2) 1 \<Longrightarrow>
      P (slice cs (i + 2) (min e (length cs))) 0 [] out \<Longrightarrow>
      P cs (e + 1) (cur @ slice cs i (min (e + 1) (length cs)))
        (split_loop (slice cs (i + 2) (min e (length cs))) 0 [] out) \<Longrightarrow> P cs i cur out"
    and "\<And>cs i cur out. i < length cs \<Longrightarrow> starts_comment cs i cur \<Longrightarrow>
      P cs (skip_comment cs i) cur out \<Longrightarrow> P cs i cur out"
    and "\<And>cs i cur out. i < length cs \<Longrightarrow> ends_command cs i cur \<Longrightarrow>
      P cs (i + 1) [] (push_command cur out) \<Longrightarrow> P cs i cur out"
    and "\<And>cs i cur out. i < length cs \<Longrightarrow> just_copied cs i cur \<Longrightarrow>
      P cs (i + 1) (cur @ [cs ! i]) out \<Longrightarrow> P cs i cur out"
  shows "P cs i cur out"
proof (induction cs i cur out rule: split_loop.induct)
  case (1 cs i cur out)
  note IH = 1
  consider "length cs \<le> i" | "i < length cs" "cs ! i = backslash" | "i < length cs" "cs ! i = squote"
    | "i < length cs" "cs ! i = dquote" | "i < length cs" "cs ! i = backtick"
    | "i < length cs" "opens_group cs i" | "i < length cs" "starts_comment cs i cur"
    | "i < length cs" "ends_command cs i cur" | "i < length cs" "just_copied cs i cur"
    by (cases "length cs \<le> i") (auto simp: just_copied_def)
  then show ?case
  proof cases
    case 1 then show ?thesis by (rule assms(1))
  next
    case 2
    show ?thesis
      by (rule assms(2) [OF 2], rule IH(1)) (use 2 in simp_all)
  next
    case 3
    show ?thesis
      by (rule assms(3) [OF 3], rule IH(2)) (use 3 in simp_all)
  next
    case 4
    obtain e bs where s: "scan_double_quoted cs (i + 1) = (e, bs)" by fastforce
    show ?thesis
    proof (rule assms(4) [OF 4 s])
      show "P b 0 [] o'" if "b \<in> set bs" for b o'
        by (rule IH(3)) (use 4 s that in simp_all)
      show "P cs (e + 1) (cur @ slice cs i (min (e + 1) (length cs)))
          (fold (\<lambda>b o'. split_loop b 0 [] o') bs out)"
        by (rule IH(4)) (use 4 s in simp_all)
    qed
  next
    case 5
    show ?thesis
    proof (rule assms(5) [OF 5 refl])
      show "P (slice cs (i + 1) (min (find_unescaped cs (i + 1) backtick) (length cs))) 0 [] out"
        by (rule IH(5)) (use 5 in simp_all)
      show "P cs (find_unescaped cs (i + 1) backtick + 1)
          (cur @ slice cs i (min (find_unescaped cs (i + 1) backtick + 1) (length cs)))
          (split_loop (slice cs (i + 1) (min (find_unescaped cs (i + 1) backtick) (length cs))) 0 [] out)"
        by (rule IH(6)) (use 5 in simp_all)
    qed
  next
    case 6
    then have g: "cs ! i \<noteq> backslash" "cs ! i \<noteq> squote" "cs ! i \<noteq> dquote" "cs ! i \<noteq> backtick"
      "cs ! i \<in> {CHR ''$'', CHR ''<'', CHR ''>''} \<and> i + 1 < length cs \<and> cs ! (i + 1) = CHR ''(''"
      by (auto simp: opens_group_def)
    show ?thesis
    proof (rule assms(6) [OF 6 refl])
      show "P (slice cs (i + 2) (min (find_close_paren cs (i + 2) 1) (length cs))) 0 [] out"
        by (rule IH(7) [OF 6(1) refl g(1-5) refl refl])
      show "P cs (find_close_paren cs (i + 2) 1 + 1)
          (cur @ slice cs i (min (find_close_paren cs (i + 2) 1 + 1) (length cs)))
          (split_loop (slice cs (i + 2) (min (find_close_paren cs (i + 2) 1) (length cs))) 0 [] out)"
        by (rule IH(8) [OF 6(1) refl g(1-5) refl refl])
    qed
  next
    case 7
    then have g: "cs ! i = CHR ''#'' \<and> (cur = [] \<or> is_whitespace (last cur))"
      by (simp add: starts_comment_def)
    show ?thesis
      by (rule assms(7) [OF 7], rule IH(9) [OF 7(1) refl _ _ _ _ _ g]) (simp_all add: g)
  next
    case 8
    show ?thesis
    proof (cases "cs ! i = CHR ''&''")
      case True
      with 8 have "\<not> is_redirect cur cs i" by (simp add: ends_command_def)
      then show ?thesis
        by (intro assms(8) [OF 8] IH(12) [OF 8(1) refl]) (simp_all add: True)
    next
      case False
      with 8 have c: "cs ! i \<in> {CHR '';'', newline, CHR ''|''}" by (simp add: ends_command_def)
      show ?thesis
        by (intro assms(8) [OF 8] IH(10) [OF 8(1) refl]) (use c in auto)
    qed
  next
    case 9
    then have c: "cs ! i \<notin> {backslash, squote, dquote, backtick}" "\<not> opens_group cs i"
      "\<not> starts_comment cs i cur" "\<not> ends_command cs i cur"
      by (simp_all add: just_copied_def)
    show ?thesis
    proof (cases "cs ! i = CHR ''&''")
      case True
      with c have "is_redirect cur cs i" by (simp add: ends_command_def)
      then show ?thesis
        using IH(11) [OF 9(1) refl] True by (intro assms(9) [OF 9]) simp
    next
      case False
      show ?thesis
        by (intro assms(9) [OF 9] IH(13) [OF 9(1) refl])
           (use c False in \<open>simp_all add: opens_group_def starts_comment_def ends_command_def\<close>)
    qed
  qed
qed

lemma split_loop_append:
  "split_loop cs i cur (o1 @ o2) = o1 @ split_loop cs i cur o2"
proof (induction cs i cur o2 arbitrary: o1 rule: split_loop_induct)
  case (dquote cs i cur out e bs)
  have "fold (\<lambda>b o'. split_loop b 0 [] o') bs (o1 @ out) =
      o1 @ fold (\<lambda>b o'. split_loop b 0 [] o') bs out"
    using dquote(4) by (intro fold_append_out) simp
  with dquote show ?case
    by (simp add: split_loop_dquote Let_def)
qed (simp_all add: split_loop_steps Let_def)

lemma split_loop_out: "split_loop cs i cur out = out @ split_loop cs i cur []"
  using split_loop_append [of cs i cur out "[]"] by simp

lemma opens_group_shift [simp]: "opens_group (pre @ cs) (length pre + i) = opens_group cs i"
  by (simp add: opens_group_def)

lemma starts_comment_shift [simp]: "starts_comment (pre @ cs) (length pre + i) = starts_comment cs i"
  by (simp add: starts_comment_def fun_eq_iff)

lemma ends_command_shift [simp]: "ends_command (pre @ cs) (length pre + i) = ends_command cs i"
  by (simp add: ends_command_def fun_eq_iff)

lemma just_copied_shift [simp]: "just_copied (pre @ cs) (length pre + i) = just_copied cs i"
  by (simp add: just_copied_def fun_eq_iff)

lemma slice_shift_Suc_Suc [simp]:
  "slice (pre @ cs) (length pre + a) (min (Suc (length pre + b)) (length pre + length cs)) = slice cs a (min (Suc b) (length cs))"
  "slice (pre @ cs) (length pre + a) (min (Suc (Suc (length pre + b))) (length pre + length cs)) = slice cs a (min (Suc (Suc b)) (length cs))"
  using slice_shift_min [of pre cs a "Suc b"] slice_shift_min [of pre cs a "Suc (Suc b)"] by simp_all

lemmas scan_double_quoted_shift_Suc [simp] =
  scan_double_quoted_shift [of pre cs "Suc i" for pre cs i, simplified]

lemma split_loop_shift:
  "split_loop (pre @ cs) (length pre + i) cur out = split_loop cs i cur out"
  by (induction cs i cur out rule: split_loop_induct)
     (simp_all add: split_loop_steps Let_def)

section \<open>Segments are clean\<close>

definition clean_segment :: "string \<Rightarrow> bool" where
  "clean_segment s \<longleftrightarrow>
     s \<noteq> [] \<and> trim s = s \<and> last s \<notin> {CHR '')'', CHR ''}''} \<and> s \<notin> set TRAILING_KEYWORDS"

lemma strip_close_props:
  "prefix (strip_close s) s \<and> (strip_close s \<noteq> [] \<longrightarrow> last (strip_close s) \<notin> {CHR '')'', CHR ''}''})
   \<and> (trim_end s = s \<longrightarrow> trim_end (strip_close s) = strip_close s)"
proof (induction s rule: strip_close.induct)
  case (1 s)
  show ?case
  proof (cases "s \<noteq> [] \<and> last s \<in> {CHR '')'', CHR ''}''}")
    case True
    then have "prefix (trim_end (butlast s)) s"
      by (meson prefix_order.trans prefix_trim_end prefixeq_butlast)
    with True 1 show ?thesis
      by (auto simp: strip_close.simps [of s] intro: prefix_order.trans)
  next
    case False
    then show ?thesis by (subst (1 2 3 4 5) strip_close.simps) auto
  qed
qed

lemma trim_start_trim_open [simp]: "trim_start (trim_open s) = trim_open s"
  by (simp add: trim_open_def)

lemma peel_props:
  "peel s w = (r, w') \<Longrightarrow> trim_start r = r \<and> (w' = w \<or> (\<exists>x \<in> set WRAPPERS. w' = Some x))"
proof (induction s w arbitrary: r w' rule: peel.induct)
  case (1 s w)
  define rest where "rest = trim_open s"
  define e where "e = first_word_end rest 0"
  note unf = peel.simps [of s w, unfolded Let_def, folded rest_def, folded e_def]
  show ?case
  proof (cases "take e rest \<noteq> [] \<and> take e rest \<in> set WRAPPERS")
    case True
    with 1(3) have "peel (trim_start (drop e rest)) (Some (take e rest)) = (r, w')"
      by (simp add: unf)
    with 1(1) [OF rest_def e_def refl] True show ?thesis by auto
  next
    case False
    show ?thesis
    proof (cases "take e rest \<noteq> [] \<and> (take e rest \<in> set PREFIX_KEYWORDS \<or> is_assignment (take e rest))")
      case True
      with False 1(3) have "peel (trim_start (drop e rest)) w = (r, w')"
        by (simp add: unf)
      with 1(2) [OF rest_def e_def refl] True False show ?thesis by auto
    next
      case no: False
      with False 1(3) have "(rest, w) = (r, w')"
        by (auto simp: unf split: if_splits)
      then show ?thesis by (auto simp: rest_def)
    qed
  qed
qed

lemma wrappers_clean: "w \<in> set WRAPPERS \<Longrightarrow> clean_segment w"
  by (auto simp: WRAPPERS_def clean_segment_def TRAILING_KEYWORDS_def kernel_defs)

lemma trim_start_prefix: "trim_start s = s \<Longrightarrow> prefix r s \<Longrightarrow> trim_start r = r"
proof (cases "r = []")
  case False
  assume "trim_start s = s" "prefix r s"
  with False have "s \<noteq> []" "hd s = hd r"
    by (auto simp: prefix_def)
  with \<open>trim_start s = s\<close> show ?thesis
    using trim_start_hd [of s] by (intro trim_start_id) simp
qed simp

lemma push_command_clean:
  assumes "s \<in> set (push_command raw [])"
  shows "clean_segment s"
proof -
  obtain r w where p: "peel (trim raw) None = (r, w)" by fastforce
  let ?rest = "strip_close (trim_end r)"
  have w: "w = None \<or> (\<exists>x \<in> set WRAPPERS. w = Some x)" and "trim_start r = r"
    using peel_props [OF p] by auto
  then have "trim_start (trim_end r) = trim_end r" by simp
  then have "trim_start ?rest = ?rest"
    using strip_close_props trim_start_prefix by blast
  moreover have "trim_end ?rest = ?rest"
    using strip_close_props by simp
  ultimately have "trim ?rest = ?rest" by (simp add: trim_def)
  moreover have "?rest \<noteq> [] \<Longrightarrow> last ?rest \<notin> {CHR '')'', CHR ''}''}"
    using strip_close_props by blast
  ultimately show ?thesis
    using assms p w wrappers_clean
    by (auto simp: push_command_def Let_def clean_segment_def split: if_splits option.splits)
qed

lemma push_command_keeps_clean:
  "list_all clean_segment out \<Longrightarrow> list_all clean_segment (push_command raw out)"
  using push_command_append [of raw out "[]"] push_command_clean [of _ raw]
  by (auto simp: list_all_iff)

lemma split_loop_clean: "list_all clean_segment out \<Longrightarrow> list_all clean_segment (split_loop cs i cur out)"
proof (induction cs i cur out rule: split_loop_induct)
  case (dquote cs i cur out e bs)
  have "list_all clean_segment (fold (\<lambda>b o'. split_loop b 0 [] o') bs out)"
    using dquote(4,6) by (induction bs arbitrary: out) auto
  with dquote show ?case
    by (simp add: split_loop_dquote Let_def)
qed (simp_all add: split_loop_steps Let_def push_command_keeps_clean)

lemma simple_commands_eq: "simple_commands line = split_loop line 0 [] []"
  by (simp add: simple_commands_def split_into_def)

text \<open>Whatever the line, every segment \<open>simple_commands\<close> reports is a command proper: not
  empty, without blanks at either end, without a group's closing bracket at its end, and not one
  of the words that only close a construct.\<close>
theorem simple_commands_clean:
  assumes "s \<in> set (simple_commands line)"
  shows "clean_segment s"
  using assms split_loop_clean [of "[]" line 0 "[]"]
  by (simp add: simple_commands_eq list_all_iff)

lemma simple_commands_clean_witness: "clean_segment ''rm -rf x''"
proof (rule simple_commands_clean)
  show "''rm -rf x'' \<in> set (simple_commands ''( rm -rf x ) && ls'')"
    by code_simp
qed

section \<open>Command lines with a known structure\<close>

text \<open>Pieces of a word: literal text, a variable, a quoted string, and a substitution
  \<open>$(...)\<close>, \<open><(...)\<close> or \<open>>(...)\<close> with a command line inside.  A line is a sequence of commands
  with the separators between them.\<close>

datatype sep = Semi | Newline | Pipe | AndAnd | OrOr | Background

datatype piece =
    Lit string
  | Var string
  | SingleQuoted string
  | DoubleQuoted string
  | Subst char line
and line = Last "piece list" | Seq "piece list" sep line

fun render_sep :: "sep \<Rightarrow> string" where
  "render_sep Semi = '';''"
| "render_sep Newline = [newline]"
| "render_sep Pipe = ''|''"
| "render_sep AndAnd = ''&& ''"
| "render_sep OrOr = ''|| ''"
| "render_sep Background = ''& ''"

fun render_piece :: "piece \<Rightarrow> string"
  and render_pieces :: "piece list \<Rightarrow> string"
  and render_line :: "line \<Rightarrow> string" where
  "render_piece (Lit s) = s"
| "render_piece (Var s) = CHR ''$'' # s"
| "render_piece (SingleQuoted s) = squote # s @ [squote]"
| "render_piece (DoubleQuoted s) = dquote # s @ [dquote]"
| "render_piece (Subst c l) = c # CHR ''('' # render_line l @ '')''"
| "render_pieces [] = []"
| "render_pieces (p # ps) = render_piece p @ render_pieces ps"
| "render_line (Last ps) = render_pieces ps"
| "render_line (Seq ps s l) = render_pieces ps @ render_sep s @ render_line l"

definition special_chars :: "char list" where
  "special_chars =
     [backslash, squote, dquote, backtick, CHR ''$'', CHR ''<'', CHR ''>'', CHR ''#'', CHR '';'',
      newline, CHR ''|'', CHR ''&'', CHR ''('', CHR '')'']"

definition plain :: "string \<Rightarrow> bool" where
  "plain s \<longleftrightarrow> list_all (\<lambda>c. c \<notin> set special_chars) s"

fun wf_piece :: "piece \<Rightarrow> bool"
  and wf_pieces :: "piece list \<Rightarrow> bool"
  and wf_line :: "line \<Rightarrow> bool" where
  "wf_piece (Lit s) = plain s"
| "wf_piece (Var s) = (s \<noteq> [] \<and> plain s)"
| "wf_piece (SingleQuoted s) = (squote \<notin> set s)"
| "wf_piece (DoubleQuoted s) = (set s \<inter> {dquote, backslash, backtick, CHR ''$''} = {})"
| "wf_piece (Subst c l) = (c \<in> {CHR ''$'', CHR ''<'', CHR ''>''} \<and> wf_line l)"
| "wf_pieces [] = True"
| "wf_pieces (p # ps) = (wf_piece p \<and> wf_pieces ps)"
| "wf_line (Last ps) = wf_pieces ps"
| "wf_line (Seq ps s l) = (wf_pieces ps \<and> wf_line l)"

text \<open>The commands such a line runs: the commands inside its substitutions, in order, then the
  command itself, then the rest of the line.\<close>

fun piece_commands :: "piece \<Rightarrow> string list"
  and pieces_commands :: "piece list \<Rightarrow> string list"
  and line_commands :: "line \<Rightarrow> string list" where
  "piece_commands (Subst c l) = line_commands l"
| "piece_commands _ = []"
| "pieces_commands [] = []"
| "pieces_commands (p # ps) = piece_commands p @ pieces_commands ps"
| "line_commands (Last ps) = pieces_commands ps @ push_command (render_pieces ps) []"
| "line_commands (Seq ps s l) =
     pieces_commands ps @ push_command (render_pieces ps) [] @ line_commands l"

subsection \<open>The closing bracket of a rendered group\<close>

lemma find_close_paren_Cons:
  "c \<notin> {backslash, squote, dquote, CHR ''('', CHR '')''} \<Longrightarrow>
   find_close_paren (c # cs) 0 d = Suc (find_close_paren cs 0 d)"
  using find_close_paren_shift [of "[c]" cs 0 d]
  by (simp add: find_close_paren.simps [of "c # cs" 0 d] paren_skip_def)

lemma find_close_paren_open:
  "find_close_paren (CHR ''('' # cs) 0 d = Suc (find_close_paren cs 0 (Suc d))"
  using find_close_paren_shift [of "[CHR ''('']" cs 0 "Suc d"]
  by (simp add: find_close_paren.simps [of "CHR ''('' # cs" 0 d])

lemma find_close_paren_close:
  "find_close_paren (CHR '')'' # cs) 0 (Suc d) = (if d = 0 then 0 else Suc (find_close_paren cs 0 d))"
  using find_close_paren_shift [of "[CHR '')'']" cs 0 d]
  by (simp add: find_close_paren.simps [of "CHR '')'' # cs" 0 "Suc d"])

lemma find_char_Cons: "find_char (c # cs) 0 t = (if c = t then 0 else Suc (find_char cs 0 t))"
proof (cases "c = t")
  case True
  have "[0..<length (c # cs)] = 0 # [1..<length (c # cs)]"
    by (simp add: upt_conv_Cons del: upt_Suc)
  with True show ?thesis
    by (simp add: find_char_def del: upt_Suc)
next
  case False
  have "[0..<length (c # cs)] = 0 # [length [c] + 0..<length ([c] @ cs)]"
    by (simp add: upt_conv_Cons del: upt_Suc)
  then have "List.find (\<lambda>j. (c # cs) ! j = t) [0..<length (c # cs)] =
      List.find (\<lambda>j. ([c] @ cs) ! j = t) [length [c] + 0..<length ([c] @ cs)]"
    using False by (simp del: upt_Suc)
  then have "find_char (c # cs) 0 t = find_char ([c] @ cs) (length [c] + 0) t"
    by (simp only: find_char_def append_Cons append_Nil)
  also have "\<dots> = Suc (find_char cs 0 t)"
    by (simp only: find_char_shift) simp
  finally show ?thesis using False by simp
qed

lemma find_unescaped_Cons:
  "c \<noteq> backslash \<Longrightarrow>
   find_unescaped (c # cs) 0 t = (if c = t then 0 else Suc (find_unescaped cs 0 t))"
  using find_unescaped_shift [of "[c]" cs 0 t]
  by (simp add: find_unescaped.simps [of "c # cs" 0 t])

lemma find_char_first:
  "t \<notin> set s \<Longrightarrow> find_char (a # s @ t # cs) (Suc 0) t = Suc (length s)"
proof -
  assume "t \<notin> set s"
  then have "find_char (s @ t # cs) 0 t = length s"
    by (induction s) (auto simp: find_char_Cons)
  then show ?thesis
    using find_char_shift [of "[a]" "s @ t # cs" 0 t] by simp
qed

lemma find_unescaped_first:
  "t \<notin> set s \<Longrightarrow> backslash \<notin> set s \<Longrightarrow> t \<noteq> backslash \<Longrightarrow>
   find_unescaped (a # s @ t # cs) (Suc 0) t = Suc (length s)"
proof -
  assume "t \<notin> set s" "backslash \<notin> set s" "t \<noteq> backslash"
  then have "find_unescaped (s @ t # cs) 0 t = length s"
    by (induction s) (auto simp: find_unescaped_Cons)
  then show ?thesis
    using find_unescaped_shift [of "[a]" "s @ t # cs" 0 t] by simp
qed

lemma find_close_paren_plain:
  "plain s \<Longrightarrow> find_close_paren (s @ cs) 0 d = length s + find_close_paren cs 0 d"
  by (induction s) (simp_all add: plain_def special_chars_def find_close_paren_Cons)

lemma find_close_paren_sep:
  "find_close_paren (render_sep s @ cs) 0 d = length (render_sep s) + find_close_paren cs 0 d"
  by (cases s) (simp_all add: find_close_paren_Cons)

lemma find_close_paren_render:
  "wf_piece p \<Longrightarrow> 0 < d \<Longrightarrow> find_close_paren (render_piece p @ cs) 0 d =
     length (render_piece p) + find_close_paren cs 0 d"
  "wf_pieces ps \<Longrightarrow> 0 < d \<Longrightarrow> find_close_paren (render_pieces ps @ cs) 0 d =
     length (render_pieces ps) + find_close_paren cs 0 d"
  "wf_line l \<Longrightarrow> 0 < d \<Longrightarrow> find_close_paren (render_line l @ cs) 0 d =
     length (render_line l) + find_close_paren cs 0 d"
proof (induction p and ps and l arbitrary: d cs and d cs and d cs rule: render_piece_render_pieces_render_line.induct)
  case (3 s)
  have "paren_skip (squote # s @ squote # cs) 0 = Suc (length s)"
    using 3 by (simp add: paren_skip_def find_char_first)
  then show ?case
    using find_close_paren_shift [of "squote # s @ [squote]" cs 0 d]
    by (simp add: find_close_paren.simps [of "squote # s @ squote # cs" 0 d])
next
  case (4 s)
  have "paren_skip (dquote # s @ dquote # cs) 0 = Suc (length s)"
    using 4 by (simp add: paren_skip_def find_unescaped_first)
  then show ?case
    using find_close_paren_shift [of "dquote # s @ [dquote]" cs 0 d]
    by (simp add: find_close_paren.simps [of "dquote # s @ dquote # cs" 0 d])
next
  case (5 c l)
  then show ?case
    by (auto simp: find_close_paren_Cons find_close_paren_open find_close_paren_close)
qed (simp_all add: find_close_paren_plain find_close_paren_sep find_close_paren_Cons add.assoc)

subsection \<open>Splitting a rendered line\<close>

lemma split_loop_copy_Cons:
  "just_copied (c # cs) 0 cur \<Longrightarrow> split_loop (c # cs) 0 cur out = split_loop cs 0 (cur @ [c]) out"
  using split_loop_shift [of "[c]" cs 0 "cur @ [c]" out]
  by (simp add: split_loop_copy)

lemma split_loop_plain:
  "plain s \<Longrightarrow> split_loop (s @ cs) 0 cur out = split_loop cs 0 (cur @ s) out"
proof (induction s arbitrary: cur)
  case (Cons c s)
  then have "just_copied (c # s @ cs) 0 cur"
    by (auto simp: plain_def special_chars_def just_copied_def opens_group_def starts_comment_def
        ends_command_def)
  then show ?case
    using Cons by (simp add: split_loop_copy_Cons plain_def)
qed simp

lemma split_loop_squoted:
  assumes "squote \<notin> set s"
  shows "split_loop (squote # s @ squote # cs) 0 cur out =
     split_loop cs 0 (cur @ squote # s @ [squote]) out"
  using split_loop_shift [of "squote # s @ [squote]" cs 0 "cur @ squote # s @ [squote]" out]
  by (simp add: split_loop_squote find_char_first assms slice_def)

lemma scan_double_quoted_Cons:
  "c \<notin> {dquote, backslash, backtick, CHR ''$''} \<Longrightarrow>
   scan_double_quoted (c # cs) 0 = (case scan_double_quoted cs 0 of (e, bs) \<Rightarrow> (Suc e, bs))"
  using scan_double_quoted_shift [of "[c]" cs 0]
  by (simp add: scan_double_quoted.simps [of "c # cs" 0])

lemma scan_double_quoted_first:
  assumes "set s \<inter> {dquote, backslash, backtick, CHR ''$''} = {}"
  shows "scan_double_quoted (a # s @ dquote # cs) (Suc 0) = (Suc (length s), [])"
proof -
  from assms have "scan_double_quoted (s @ dquote # cs) 0 = (length s, [])"
    by (induction s)
       (auto simp: scan_double_quoted_Cons scan_double_quoted.simps [of "dquote # cs" 0])
  then show ?thesis
    using scan_double_quoted_shift [of "[a]" "s @ dquote # cs" 0] by simp
qed

lemma split_loop_dquoted:
  assumes "set s \<inter> {dquote, backslash, backtick, CHR ''$''} = {}"
  shows "split_loop (dquote # s @ dquote # cs) 0 cur out =
     split_loop cs 0 (cur @ dquote # s @ [dquote]) out"
  using split_loop_shift [of "dquote # s @ [dquote]" cs 0 "cur @ dquote # s @ [dquote]" out]
  by (simp add: split_loop_dquote scan_double_quoted_first assms slice_def)

lemma split_loop_var:
  assumes "s \<noteq> []" "plain s"
  shows "split_loop (CHR ''$'' # s @ cs) 0 cur out = split_loop cs 0 (cur @ CHR ''$'' # s) out"
proof -
  have "just_copied (CHR ''$'' # s @ cs) 0 cur"
    using assms by (cases s) (auto simp: plain_def special_chars_def just_copied_def opens_group_def
        starts_comment_def ends_command_def)
  then show ?thesis
    using assms by (simp add: split_loop_copy_Cons split_loop_plain)
qed

lemma split_loop_subst:
  assumes c: "c \<in> {CHR ''$'', CHR ''<'', CHR ''>''}"
    and close: "find_close_paren (body @ CHR '')'' # cs) 0 1 = length body"
  shows "split_loop (c # CHR ''('' # body @ CHR '')'' # cs) 0 cur out =
     split_loop cs 0 (cur @ c # CHR ''('' # body @ '')'') (split_loop body 0 [] out)"
proof -
  let ?cs = "c # CHR ''('' # body @ CHR '')'' # cs"
  have "find_close_paren ?cs 2 1 = length body + 2"
    using find_close_paren_shift [of "[c, CHR ''('']" "body @ CHR '')'' # cs" 0 1] close
    by (simp add: numeral_2_eq_2)
  moreover have "opens_group ?cs 0"
    using c by (simp add: opens_group_def)
  ultimately show ?thesis
    using split_loop_shift [of "c # CHR ''('' # body @ '')''" cs 0]
    by (simp add: split_loop_group Let_def slice_def numeral_2_eq_2)
qed

lemma split_loop_ends:
  "ends_command (c # cs) 0 cur \<Longrightarrow>
   split_loop (c # cs) 0 cur out = split_loop cs 0 [] (push_command cur out)"
  using split_loop_shift [of "[c]" cs 0] by (simp add: split_loop_sep)

lemma push_command_Nil [simp]: "push_command [] out = out"
  by (simp add: push_command_def peel.simps [of "[]"] trim_open_def first_word_end.simps [of "[]" 0]
      strip_close.simps [of "[]"] TRAILING_KEYWORDS_def)

lemma push_command_blank [simp]: "push_command (CHR '' '' # s) out = push_command s out"
  by (simp add: push_command_def trim_def trim_start_def is_whitespace_def whitespace_chars_def)

lemma ends_command_sep:
  "ends_command (CHR '';'' # cs) 0 cur" "ends_command (newline # cs) 0 cur"
  "ends_command (CHR ''|'' # cs) 0 cur"
  by (simp_all add: ends_command_def)

text \<open>Rendered text never ends in \<open><\<close> or \<open>>\<close>, so an ampersand after it is a separator.\<close>

definition no_angle_end :: "string \<Rightarrow> bool" where
  "no_angle_end s \<longleftrightarrow> trim_end s = [] \<or> last (trim_end s) \<notin> {CHR ''>'', CHR ''<''}"

lemma trim_end_append:
  "trim_end (a @ b) = (if trim_end b = [] then trim_end a else a @ trim_end b)"
  by (auto simp: trim_end_def dropWhile_append)

lemma no_angle_end_last:
  "\<not> is_whitespace c \<Longrightarrow> c \<notin> {CHR ''>'', CHR ''<''} \<Longrightarrow> no_angle_end (s @ [c])"
  by (simp add: no_angle_end_def trim_end_def)

lemma no_angle_end_plain:
  assumes "no_angle_end cur" "CHR ''<'' \<notin> set s" "CHR ''>'' \<notin> set s"
  shows "no_angle_end (cur @ s)"
proof (cases "trim_end s = []")
  case False
  then have "last (trim_end s) \<in> set s"
    using set_trim_end [of s] by auto
  with False assms show ?thesis
    by (auto simp: no_angle_end_def trim_end_append)
qed (use assms in \<open>simp add: no_angle_end_def trim_end_append\<close>)

lemma no_angle_end_piece:
  assumes "no_angle_end cur" "wf_piece p"
  shows "no_angle_end (cur @ render_piece p)"
proof (cases p)
  case (SingleQuoted s)
  have "no_angle_end ((cur @ squote # s) @ [squote])"
    by (rule no_angle_end_last) (simp_all add: is_whitespace_def whitespace_chars_def)
  with SingleQuoted show ?thesis by simp
next
  case (DoubleQuoted s)
  have "no_angle_end ((cur @ dquote # s) @ [dquote])"
    by (rule no_angle_end_last) (simp_all add: is_whitespace_def whitespace_chars_def)
  with DoubleQuoted show ?thesis by simp
next
  case (Subst c l)
  have "no_angle_end ((cur @ c # CHR ''('' # render_line l) @ [CHR '')''])"
    by (rule no_angle_end_last) (simp_all add: is_whitespace_def whitespace_chars_def)
  with Subst show ?thesis by simp
next
  case (Lit s)
  with assms show ?thesis
    using no_angle_end_plain [of cur s] by (auto simp: plain_def special_chars_def list_all_iff)
next
  case (Var s)
  with assms show ?thesis
    using no_angle_end_plain [of cur "CHR ''$'' # s"]
    by (auto simp: plain_def special_chars_def list_all_iff)
qed

lemma no_angle_end_pieces:
  "no_angle_end cur \<Longrightarrow> wf_pieces ps \<Longrightarrow> no_angle_end (cur @ render_pieces ps)"
proof (induction ps arbitrary: cur)
  case (Cons p ps)
  then show ?case
    using no_angle_end_piece [of cur p] Cons.IH [of "cur @ render_piece p"] by simp
qed simp

lemma ends_command_amp:
  "no_angle_end cur \<Longrightarrow> cs = [] \<or> hd cs \<noteq> CHR ''>'' \<Longrightarrow> ends_command (CHR ''&'' # cs) 0 cur"
  by (auto simp: ends_command_def is_redirect_def no_angle_end_def neq_Nil_conv)

definition blank :: "string \<Rightarrow> bool" where
  "blank s \<longleftrightarrow> s \<in> {[], '' ''}"

lemma blank_angle: "blank cur \<Longrightarrow> no_angle_end cur"
  by (auto simp: blank_def no_angle_end_def trim_end_def is_whitespace_def whitespace_chars_def)

lemma push_command_after_blank: "blank cur \<Longrightarrow> push_command (cur @ s) out = push_command s out"
  by (auto simp: blank_def)

lemma split_loop_blank:
  "split_loop (CHR '' '' # cs) 0 cur out = split_loop cs 0 (cur @ '' '') out"
  by (rule split_loop_copy_Cons)
     (simp add: just_copied_def opens_group_def starts_comment_def ends_command_def)

lemma split_loop_sep_line:
  assumes "no_angle_end cur"
  shows "\<exists>b. blank b \<and> split_loop (render_sep s @ cs) 0 cur out = split_loop cs 0 b (push_command cur out)"
proof -
  have e: "blank []" "blank '' ''" "no_angle_end []"
    using blank_angle by (simp_all add: blank_def)
  show ?thesis
  proof (cases s)
    case Semi
    then show ?thesis using e by (auto simp: split_loop_ends ends_command_sep)
  next
    case Newline
    then show ?thesis using e by (auto simp: split_loop_ends ends_command_sep)
  next
    case Pipe
    then show ?thesis using e by (auto simp: split_loop_ends ends_command_sep)
  next
    case AndAnd
    then show ?thesis using e assms
      by (intro exI [of _ "'' ''"]) (simp add: split_loop_ends ends_command_amp split_loop_blank)
  next
    case OrOr
    then show ?thesis using e
      by (intro exI [of _ "'' ''"]) (simp add: split_loop_ends ends_command_sep split_loop_blank)
  next
    case Background
    then show ?thesis using e assms
      by (intro exI [of _ "'' ''"]) (simp add: split_loop_ends ends_command_amp split_loop_blank)
  qed
qed

lemma split_loop_render:
  "wf_piece p \<Longrightarrow> split_loop (render_piece p @ cs) 0 cur out =
     split_loop cs 0 (cur @ render_piece p) (out @ piece_commands p)"
  "wf_pieces ps \<Longrightarrow> split_loop (render_pieces ps @ cs) 0 cur out =
     split_loop cs 0 (cur @ render_pieces ps) (out @ pieces_commands ps)"
  "wf_line l \<Longrightarrow> blank cur \<Longrightarrow> split_loop (render_line l) 0 cur out = out @ line_commands l"
proof (induction p and ps and l arbitrary: cs cur out and cs cur out and cur out
    rule: render_piece_render_pieces_render_line.induct)
  case (1 s)
  then show ?case by (simp add: split_loop_plain)
next
  case (2 s)
  then show ?case by (simp add: split_loop_var)
next
  case (3 s)
  then show ?case by (simp add: split_loop_squoted)
next
  case (4 s)
  then show ?case by (simp add: split_loop_dquoted)
next
  case (5 c l)
  have "find_close_paren (render_line l @ CHR '')'' # cs) 0 1 = length (render_line l)"
    using 5 find_close_paren_render(3) [of l 1 "CHR '')'' # cs"]
      find_close_paren_close [of cs 0] by simp
  with 5 show ?case
    using split_loop_subst [of c "render_line l" cs cur out] by (simp add: blank_def)
next
  case (8 ps)
  have "split_loop (render_pieces ps @ []) 0 cur out =
      split_loop [] 0 (cur @ render_pieces ps) (out @ pieces_commands ps)"
    using 8 by (intro 8(1)) simp
  moreover have "split_loop [] 0 x y = push_command x y" for x y
    by (simp add: split_loop_end)
  ultimately show ?case
    using 8 push_command_append [of "render_pieces ps" "out @ pieces_commands ps" "[]"]
    by (simp add: push_command_after_blank)
next
  case (9 ps s l)
  from 9 have "no_angle_end (cur @ render_pieces ps)"
    by (auto intro: no_angle_end_pieces blank_angle)
  then obtain b where b: "blank b"
    "split_loop (render_sep s @ render_line l) 0 (cur @ render_pieces ps) (out @ pieces_commands ps) =
      split_loop (render_line l) 0 b (push_command (cur @ render_pieces ps) (out @ pieces_commands ps))"
    using split_loop_sep_line by blast
  with 9 show ?case
    using push_command_append [of "render_pieces ps" "out @ pieces_commands ps" "[]"]
    by (simp add: push_command_after_blank)
qed simp_all



definition sample_line :: line where
  "sample_line =
     Seq [Lit ''git log ''] Pipe
       (Seq [Lit ''grep '', SingleQuoted ''a;b''] AndAnd
         (Last [Lit ''echo '', Subst (CHR ''$'') (Last [Lit ''rm -rf x''])]))"


section \<open>Words of a quoted command\<close>

text \<open>The shell's quoting of an arbitrary word: single quotes around it, a quote in the word
  written as \<open>'\''\<close>.\<close>

definition quote_char :: "char \<Rightarrow> string" where
  "quote_char c = (if c = squote then [squote, backslash, squote, squote] else [c])"

definition quote_word :: "string \<Rightarrow> string" where
  "quote_word w = squote # concat (map quote_char w) @ [squote]"

lemma words_loop_in_quote:
  "(case words_squoted acc (concat (map quote_char w) @ squote # rest) of
      (word', r) \<Rightarrow> words_loop word' True r) = words_loop (acc @ w) True rest"
proof (induction w arbitrary: acc)
  case (Cons c w)
  show ?case
  proof (cases "c = squote")
    case True
    then show ?thesis
      using Cons [of "acc @ [squote]"] by (simp add: quote_char_def)
  next
    case False
    then show ?thesis
      using Cons [of "acc @ [c]"] by (simp add: quote_char_def)
  qed
qed simp

lemma words_loop_quoted:
  "words_loop acc b (quote_word w @ rest) = words_loop (acc @ w) True rest"
  using words_loop_in_quote [of acc w rest] by (simp add: quote_word_def)

text \<open>Quoting and reading back: any list of words, quoted one by one and joined by blanks, is
  read by \<open>words\<close> as that list, whatever characters the words hold.\<close>
theorem words_quoted: "words (join_with '' '' (map quote_word ws)) = ws"
  unfolding words_def
proof (induction ws)
  case (Cons w ws)
  show ?case
  proof (cases ws)
    case Nil
    then show ?thesis using words_loop_quoted [of "[]" False w "[]"] by simp
  next
    case (Cons v vs)
    with Cons.IH show ?thesis
      by (simp add: words_loop_quoted is_whitespace_def whitespace_chars_def)
  qed
qed simp

section \<open>What the splitter misses\<close>

text \<open>The grouping brackets of a command are dropped once per word peeled, so a second bracket
  after a blank stays in front of the command: the segment reported for \<open>( ( rm -rf x ) )\<close> does
  not start with the command that runs, and a rule on \<open>rm\<close> does not see it.\<close>
theorem nested_brackets_hide_command:
  "simple_commands ''( ( rm -rf x ) )'' = [''( rm -rf x'']"
  by code_simp

text \<open>A command that ends in a substitution loses the substitution's closing bracket, because the
  brackets of a group are dropped from the end without regard to what they close.  A rule written
  for the exact command \<open>echo $(date)\<close> matches no segment of a longer line that runs it.\<close>
theorem substitution_end_is_cut:
  "simple_commands ''ls; echo $(date)'' = [''ls'', ''date'', ''echo $(date'']"
  by code_simp

end
