(* ===== verification/RuleSet.thy ===== *)
theory RuleSet
  imports Rule PathRule ShellProps "HOL-Library.Word"
begin

text \<open>
  The rule engine, \<open>crates/permissions/src/ruleset.rs\<close>: which rules apply to a call, the verdict of
  a rule set, and the combination of verdicts for the aliases of a path and for the segments of a
  shell line.  The locale \<open>rule_matcher\<close> is the interface between the verdict loop (\<open>decide\<close>) and
  the two ways a rule can apply; it is interpreted for opaque content and for paths.
\<close>

section \<open>Which rules apply\<close>

definition path_rule_group :: "content_kind \<Rightarrow> string option" where
  "path_rule_group kind =
     (case kind of
        ReadPath \<Rightarrow> Some ''Read''
      | WritePath \<Rightarrow> Some ''Edit''
      | Opaque \<Rightarrow> None
      | ShellCommand \<Rightarrow> None)"

definition matches_tool_name :: "string \<Rightarrow> string \<Rightarrow> bool" where
  "matches_tool_name rule actual =
     (if rule = actual then True
      else (case strip_prefix rule actual of Some rest \<Rightarrow> prefix ''__'' rest | None \<Rightarrow> False))"

definition matches_content :: "env \<Rightarrow> string \<Rightarrow> string \<Rightarrow> bool" where
  "matches_content e pattern content =
     (case strip_suffix '':*'' pattern of
        Some pre \<Rightarrow> content = pre \<or> prefix (pre @ '' '') content
      | None \<Rightarrow>
          if CHR ''*'' \<in> set pattern \<or> CHR ''?'' \<in> set pattern \<or> CHR ''['' \<in> set pattern then
            (case env_glob_text e pattern of Some g \<Rightarrow> g content | None \<Rightarrow> False)
          else pattern = content)"

text \<open>\<open>rc.len() as i32\<close>: the byte length, wrapped to 32 bits.\<close>

definition as_i32 :: "nat \<Rightarrow> int" where
  "as_i32 n = sint (word_of_nat n :: 32 word)"

section \<open>The verdict of a rule set\<close>

datatype rule_hit = HAllow permission_rule | HDeny permission_rule | HAsk permission_rule | HNone

definition behavior_rank :: "rule_behavior \<Rightarrow> int" where
  "behavior_rank b = (case b of BDeny \<Rightarrow> 2 | BAsk \<Rightarrow> 1 | BAllow \<Rightarrow> 0)"

datatype match_score =
  MatchScore (ms_behavior_rank: int) (ms_specificity: int) (ms_source_priority: int)

text \<open>The derived \<open>Ord\<close>: fields compared in declaration order.\<close>

instantiation match_score :: linorder
begin

definition less_match_score :: "match_score \<Rightarrow> match_score \<Rightarrow> bool" where
  "less_match_score a b \<longleftrightarrow>
     ms_behavior_rank a < ms_behavior_rank b
     \<or> ms_behavior_rank a = ms_behavior_rank b
       \<and> (ms_specificity a < ms_specificity b
          \<or> ms_specificity a = ms_specificity b \<and> ms_source_priority a < ms_source_priority b)"

definition less_eq_match_score :: "match_score \<Rightarrow> match_score \<Rightarrow> bool" where
  "less_eq_match_score (a :: match_score) b \<longleftrightarrow> a < b \<or> a = b"

instance
proof
  fix x y z :: match_score
  show "x < y \<longleftrightarrow> x \<le> y \<and> \<not> y \<le> x"
    by (auto simp: less_match_score_def less_eq_match_score_def)
  show "x \<le> x"
    by (simp add: less_eq_match_score_def)
  show "x \<le> y \<Longrightarrow> y \<le> z \<Longrightarrow> x \<le> z"
    by (auto simp: less_match_score_def less_eq_match_score_def)
  show "x \<le> y \<Longrightarrow> y \<le> x \<Longrightarrow> x = y"
    by (auto simp: less_match_score_def less_eq_match_score_def)
  show "x \<le> y \<or> y \<le> x"
    by (cases x; cases y) (auto simp: less_match_score_def less_eq_match_score_def)
qed

end

lemma rank_le: "a \<le> b \<Longrightarrow> ms_behavior_rank a \<le> ms_behavior_rank b" for a b :: match_score
  by (auto simp: less_match_score_def less_eq_match_score_def)

definition match_score_of :: "permission_rule \<Rightarrow> int \<Rightarrow> match_score" where
  "match_score_of r specificity =
     MatchScore (behavior_rank (rule_behavior r)) specificity (int (priority (rule_source r)))"

type_synonym best = "(permission_rule \<times> match_score) option"

definition decide_step ::
  "(permission_rule \<Rightarrow> int option) \<Rightarrow> best \<Rightarrow> permission_rule \<Rightarrow> best" where
  "decide_step matches best r =
     (case matches r of
        None \<Rightarrow> best
      | Some specificity \<Rightarrow>
          (let score = match_score_of r specificity
           in case best of
                None \<Rightarrow> Some (r, score)
              | Some (_, b) \<Rightarrow> (if b < score then Some (r, score) else best)))"

definition hit_of :: "permission_rule \<Rightarrow> rule_hit" where
  "hit_of r = (case rule_behavior r of BAllow \<Rightarrow> HAllow r | BDeny \<Rightarrow> HDeny r | BAsk \<Rightarrow> HAsk r)"

definition decide :: "(permission_rule \<Rightarrow> int option) \<Rightarrow> permission_rule list \<Rightarrow> rule_hit" where
  "decide matches rules =
     (case foldl (decide_step matches) None rules of
        None \<Rightarrow> HNone
      | Some (r, _) \<Rightarrow> hit_of r)"

definition restricted_by :: "rule_hit \<Rightarrow> rule_hit \<Rightarrow> rule_hit" where
  "restricted_by self other =
     (case (self, other) of
        (HDeny _, _) \<Rightarrow> self
      | (_, HDeny _) \<Rightarrow> other
      | (HAsk _, _) \<Rightarrow> self
      | (_, HAsk _) \<Rightarrow> other
      | _ \<Rightarrow> self)"

text \<open>The matcher of \<open>evaluate\<close>, and \<open>evaluate\<close> itself.\<close>

definition content_matcher ::
  "env \<Rightarrow> string \<Rightarrow> string option \<Rightarrow> permission_rule \<Rightarrow> int option" where
  "content_matcher e tool content r =
     (if \<not> matches_tool_name (tool_name r) tool then None
      else case (rule_content r, content) of
             (None, _) \<Rightarrow> Some 0
           | (Some rc, Some c) \<Rightarrow>
               (if matches_content e rc c then Some (as_i32 (utf8_len rc)) else None)
           | (Some _, None) \<Rightarrow> None)"

definition evaluate ::
  "env \<Rightarrow> permission_rule list \<Rightarrow> string \<Rightarrow> string option \<Rightarrow> rule_hit" where
  "evaluate e rules tool content = decide (content_matcher e tool content) rules"

text \<open>The matcher of \<open>evaluate_path\<close> for one of the spellings of the file.\<close>

definition path_matcher ::
  "env \<Rightarrow> string \<Rightarrow> string \<Rightarrow> path \<Rightarrow> path \<Rightarrow> permission_rule \<Rightarrow> int option" where
  "path_matcher e tool grp cwd p r =
     (if \<not> (matches_tool_name (tool_name r) tool \<or> tool_name r = grp) then None
      else case rule_content r of
             None \<Rightarrow> Some 0
           | Some rc \<Rightarrow>
               (if path_matches e (resolve_pattern e rc cwd) p
                then Some (as_i32 (utf8_len rc)) else None))"

definition evaluate_path ::
  "env \<Rightarrow> permission_rule list \<Rightarrow> string \<Rightarrow> string \<Rightarrow> resolved_path \<Rightarrow> path \<Rightarrow> rule_hit" where
  "evaluate_path e rules tool grp p cwd =
     (let decide_for = (\<lambda>q. decide (path_matcher e tool grp cwd q) rules)
      in foldl (\<lambda>verdict alias. restricted_by verdict (decide_for alias))
           (decide_for (primary p)) (aliases p))"

text \<open>\<open>evaluate_shell\<close>: the loop over the segments carries the refusal, the first allowing rule and
  whether every segment was allowed.\<close>

definition shell_step ::
  "env \<Rightarrow> permission_rule list \<Rightarrow> string \<Rightarrow> rule_hit \<times> permission_rule option \<times> bool \<Rightarrow> string \<Rightarrow>
   rule_hit \<times> permission_rule option \<times> bool" where
  "shell_step e rules tool st seg =
     (case st of (refusal, segment_allow, all_allowed) \<Rightarrow>
        (case evaluate e rules tool (Some seg) of
           HAllow r \<Rightarrow>
             (refusal, (case segment_allow of None \<Rightarrow> Some r | Some _ \<Rightarrow> segment_allow), all_allowed)
         | other \<Rightarrow> (restricted_by refusal other, segment_allow, False)))"

definition evaluate_shell :: "env \<Rightarrow> permission_rule list \<Rightarrow> string \<Rightarrow> string \<Rightarrow> rule_hit" where
  "evaluate_shell e rules tool line =
     (let whole = evaluate e rules tool (Some line);
          segments = simple_commands line
      in if segments = [] then whole
         else (case foldl (shell_step e rules tool) (HNone, None, True) segments of
           (refusal0, segment_allow, all_allowed) \<Rightarrow>
             (let (refusal, exact_allow) =
                    (case whole of
                       HAllow r \<Rightarrow>
                         (refusal0, if rule_content r = Some (trim line) then Some r else None)
                     | HNone \<Rightarrow> (refusal0, None)
                     | refused \<Rightarrow> (restricted_by refusal0 refused, None))
              in case (refusal, exact_allow, segment_allow) of
                   (HDeny r, _, _) \<Rightarrow> HDeny r
                 | (HAsk r, _, _) \<Rightarrow> HAsk r
                 | (_, Some r, _) \<Rightarrow> HAllow r
                 | (_, None, Some r) \<Rightarrow> (if all_allowed then HAllow r else HNone)
                 | _ \<Rightarrow> HNone)))"

section \<open>The set itself and the safe-tool check\<close>

definition ruleset_add :: "permission_rule list \<Rightarrow> permission_rule \<Rightarrow> permission_rule list" where
  "ruleset_add rules r = rules @ [r]"

definition ruleset_extend ::
  "permission_rule list \<Rightarrow> permission_rule list \<Rightarrow> permission_rule list" where
  "ruleset_extend rules rs = rules @ rs"

definition remove_by_source :: "permission_rule list \<Rightarrow> rule_source \<Rightarrow> permission_rule list" where
  "remove_by_source rules src = filter (\<lambda>r. rule_source r \<noteq> src) rules"

definition SAFE_TOOLS :: "string list" where
  "SAFE_TOOLS = [''Read'', ''Glob'', ''Grep'', ''TaskList'', ''TaskGet'', ''ToolSearch'']"

datatype check_result = Allowed | Deferred

definition ruleset_check :: "string \<Rightarrow> string option \<Rightarrow> permission_mode \<Rightarrow> check_result" where
  "ruleset_check tool content mode =
     (case mode of
        BypassPermissions \<Rightarrow> (if tool \<in> set SAFE_TOOLS then Allowed else Deferred)
      | DontAsk \<Rightarrow> (if tool \<in> set SAFE_TOOLS then Allowed else Deferred)
      | Plan \<Rightarrow> (if tool \<in> set SAFE_TOOLS then Allowed else Deferred)
      | _ \<Rightarrow> Deferred)"

lemmas ruleset_defs [kernel_defs] =
  path_rule_group_def matches_tool_name_def matches_content_def behavior_rank_def
  match_score_of_def less_match_score_def decide_step_def hit_of_def decide_def restricted_by_def
  content_matcher_def evaluate_def path_matcher_def evaluate_path_def shell_step_def
  evaluate_shell_def ruleset_add_def ruleset_extend_def remove_by_source_def SAFE_TOOLS_def
  ruleset_check_def

end
