(* ===== verification/RuleSetProps.thy ===== *)
theory RuleSetProps
  imports RuleSet
begin

text \<open>
  What the rule engine guarantees.  The contract of the engine is the verdict of a set of
  behaviours: a matching deny wins, then a matching ask, then a matching allow.  \<open>decide\<close> refines it
  (\<open>decide_kind\<close>), and so do \<open>evaluate\<close>, \<open>evaluate_path\<close> and \<open>evaluate_shell\<close> over the spellings of
  a path and the segments of a line.
\<close>

section \<open>The contract\<close>

lemma as_i32_small: "n < 2 ^ 31 \<Longrightarrow> as_i32 n = int n"
  unfolding as_i32_def by transfer (simp add: signed_take_bit_int_eq_self)

definition kind :: "rule_hit \<Rightarrow> rule_behavior option" where
  "kind h = (case h of HAllow _ \<Rightarrow> Some BAllow | HDeny _ \<Rightarrow> Some BDeny | HAsk _ \<Rightarrow> Some BAsk | HNone \<Rightarrow> None)"

definition hit_rule :: "rule_hit \<Rightarrow> permission_rule option" where
  "hit_rule h = (case h of HAllow r \<Rightarrow> Some r | HDeny r \<Rightarrow> Some r | HAsk r \<Rightarrow> Some r | HNone \<Rightarrow> None)"

definition verdict_of :: "rule_behavior set \<Rightarrow> rule_behavior option" where
  "verdict_of B =
     (if BDeny \<in> B then Some BDeny
      else if BAsk \<in> B then Some BAsk
      else if BAllow \<in> B then Some BAllow
      else None)"

definition matching :: "(permission_rule \<Rightarrow> int option) \<Rightarrow> permission_rule list \<Rightarrow> permission_rule set" where
  "matching matches rules = {r \<in> set rules. matches r \<noteq> None}"

text \<open>The strongest of several verdicts, \<open>base\<close> when none refuses.\<close>

definition strongest :: "rule_behavior option set \<Rightarrow> rule_behavior option \<Rightarrow> rule_behavior option" where
  "strongest ks base =
     (if Some BDeny \<in> ks then Some BDeny else if Some BAsk \<in> ks then Some BAsk else base)"

lemma kind_hit_of [simp]: "kind (hit_of r) = Some (rule_behavior r)"
  by (simp add: kind_def hit_of_def split: rule_behavior.splits)

lemma hit_rule_hit_of [simp]: "hit_rule (hit_of r) = Some r"
  by (simp add: hit_rule_def hit_of_def split: rule_behavior.splits)

lemma kind_simps [simp]:
  "kind (HAllow r) = Some BAllow" "kind (HDeny r) = Some BDeny" "kind (HAsk r) = Some BAsk"
  "kind HNone = None"
  by (simp_all add: kind_def)

lemma kind_cases:
  "kind h = Some BDeny \<longleftrightarrow> (\<exists>r. h = HDeny r)"
  "kind h = Some BAsk \<longleftrightarrow> (\<exists>r. h = HAsk r)"
  "kind h = Some BAllow \<longleftrightarrow> (\<exists>r. h = HAllow r)"
  "kind h = None \<longleftrightarrow> h = HNone"
  by (cases h; simp)+

section \<open>The verdict loop\<close>

definition best_of :: "(permission_rule \<Rightarrow> int option) \<Rightarrow> permission_rule list \<Rightarrow> best \<Rightarrow> bool" where
  "best_of matches rules b =
     (case b of
        None \<Rightarrow> \<forall>r \<in> set rules. matches r = None
      | Some (r, s) \<Rightarrow>
          r \<in> set rules \<and> (\<exists>sp. matches r = Some sp \<and> s = match_score_of r sp)
          \<and> (\<forall>r' \<in> set rules. \<forall>sp. matches r' = Some sp \<longrightarrow> match_score_of r' sp \<le> s))"

lemma best_of_step:
  assumes "best_of matches rules b"
  shows "best_of matches (rules @ [r]) (decide_step matches b r)"
proof (cases "matches r")
  case None
  with assms show ?thesis
    by (auto simp: best_of_def decide_step_def split: option.splits)
next
  case (Some sp)
  show ?thesis
  proof (cases b)
    case None
    with Some assms show ?thesis
      by (auto simp: best_of_def decide_step_def)
  next
    case (Some p)
    obtain r0 s0 where p: "p = (r0, s0)" by fastforce
    show ?thesis
    proof (cases "s0 < match_score_of r sp")
      case True
      with \<open>matches r = Some sp\<close> Some p assms show ?thesis
        by (auto simp: best_of_def decide_step_def Let_def intro: order_trans less_imp_le)
    next
      case False
      with \<open>matches r = Some sp\<close> Some p assms show ?thesis
        by (auto simp: best_of_def decide_step_def Let_def)
    qed
  qed
qed

lemma best_of_fold: "best_of matches rules (foldl (decide_step matches) None rules)"
proof (induction rules rule: rev_induct)
  case Nil
  show ?case by (simp add: best_of_def)
next
  case (snoc r rules)
  then show ?case by (simp add: best_of_step)
qed

lemma behavior_rank_le: "behavior_rank a \<le> behavior_rank b \<longleftrightarrow>
    a = b \<or> a = BAllow \<or> (a = BAsk \<and> b = BDeny)"
  by (cases a; cases b) (simp_all add: behavior_rank_def)

lemma verdict_max:
  assumes "b \<in> B" "\<And>c. c \<in> B \<Longrightarrow> behavior_rank c \<le> behavior_rank b"
  shows "verdict_of B = Some b"
proof -
  from assms(2) have "\<forall>c \<in> B. c = b \<or> c = BAllow \<or> (c = BAsk \<and> b = BDeny)"
    by (simp add: behavior_rank_le)
  with assms(1) show ?thesis
    by (cases b) (auto simp: verdict_of_def)
qed

lemma decide_kind: "kind (decide matches rules) = verdict_of (rule_behavior ` matching matches rules)"
proof (cases "foldl (decide_step matches) None rules")
  case None
  then show ?thesis
    using best_of_fold [of matches rules]
    by (auto simp: best_of_def decide_def verdict_of_def matching_def)
next
  case (Some p)
  obtain r s where p: "p = (r, s)" by fastforce
  from best_of_fold [of matches rules] Some p obtain sp where
    r: "r \<in> set rules" "matches r = Some sp" "s = match_score_of r sp"
    and best: "\<And>r' sp'. r' \<in> set rules \<Longrightarrow> matches r' = Some sp' \<Longrightarrow> match_score_of r' sp' \<le> s"
    by (auto simp: best_of_def)
  have "behavior_rank (rule_behavior r') \<le> behavior_rank (rule_behavior r)"
    if "r' \<in> matching matches rules" for r'
    using that best rank_le r(3) by (fastforce simp: matching_def match_score_of_def)
  then have "verdict_of (rule_behavior ` matching matches rules) = Some (rule_behavior r)"
    using r(1,2) by (intro verdict_max) (auto simp: matching_def)
  with Some p show ?thesis by (simp add: decide_def)
qed

lemma decide_rule:
  assumes "hit_rule (decide matches rules) = Some r"
  shows "\<exists>sp. r \<in> set rules \<and> matches r = Some sp \<and>
    (\<forall>r' \<in> set rules. \<forall>sp'. matches r' = Some sp' \<longrightarrow> match_score_of r' sp' \<le> match_score_of r sp)"
proof -
  obtain s where "foldl (decide_step matches) None rules = Some (r, s)"
  proof (cases "foldl (decide_step matches) None rules")
    case (Some p)
    with assms that show ?thesis
      by (cases p) (simp add: decide_def)
  qed (use assms in \<open>simp add: decide_def hit_rule_def\<close>)
  with best_of_fold [of matches rules] show ?thesis
    by (auto simp: best_of_def)
qed

section \<open>The interface of a matcher\<close>

text \<open>What the engine asks of a way to match rules: it looks at a rule's tool name and content only,
  and a rule without content applies to every call of the tools it names.\<close>

locale rule_matcher =
  fixes names :: "string \<Rightarrow> bool" and matches :: "permission_rule \<Rightarrow> int option"
  assumes scoped: "matches r \<noteq> None \<Longrightarrow> names (tool_name r)"
    and bare: "names (tool_name r) \<Longrightarrow> rule_content r = None \<Longrightarrow> matches r = Some 0"
    and blind: "matches (r\<lparr>rule_source := s, rule_behavior := b\<rparr>) = matches r"
begin

lemma bare_deny:
  assumes "r \<in> set rules" "names (tool_name r)" "rule_content r = None" "rule_behavior r = BDeny"
  shows "kind (decide matches rules) = Some BDeny"
  using assms bare [of r] by (force simp: decide_kind verdict_of_def matching_def)

lemma blind_source: "matches (r\<lparr>rule_source := s\<rparr>) = matches r"
  using blind [where r = r and s = s and b = "rule_behavior r"] by (cases r) simp

lemma resourced:
  "kind (decide matches (map (\<lambda>r. r\<lparr>rule_source := f r\<rparr>) rules)) = kind (decide matches rules)"
proof -
  let ?g = "\<lambda>r. r\<lparr>rule_source := f r\<rparr>"
  have "matching matches (map ?g rules) = ?g ` matching matches rules"
    by (auto simp: matching_def blind_source)
  then show ?thesis
    by (simp add: decide_kind image_image)
qed

lemma reordered: "set rules = set rules' \<Longrightarrow> kind (decide matches rules) = kind (decide matches rules')"
  by (simp add: decide_kind matching_def)

lemma added_allow:
  assumes "rule_behavior r = BAllow"
  shows "kind (decide matches (rules @ [r])) = kind (decide matches rules)
    \<or> kind (decide matches rules) = None \<and> kind (decide matches (rules @ [r])) = Some BAllow \<and> names (tool_name r)"
proof (cases "matches r")
  case None
  then have "matching matches (rules @ [r]) = matching matches rules"
    by (auto simp: matching_def)
  then show ?thesis by (simp add: decide_kind)
next
  case (Some sp)
  then have "matching matches (rules @ [r]) = insert r (matching matches rules)"
    by (auto simp: matching_def)
  moreover have "names (tool_name r)"
    using Some scoped [of r] by simp
  ultimately show ?thesis
    using assms by (simp add: decide_kind verdict_of_def)
qed

end

interpretation content: rule_matcher
  "\<lambda>rule. matches_tool_name rule tool" "content_matcher e tool content" for e tool content
  by unfold_locales (auto simp: content_matcher_def split: if_splits option.splits)

interpretation paths: rule_matcher
  "\<lambda>rule. matches_tool_name rule tool \<or> rule = grp" "path_matcher e tool grp cwd p"
  for e tool grp cwd p
  by unfold_locales (auto simp: path_matcher_def split: if_splits option.splits)

section \<open>Combining verdicts\<close>

lemma kind_restricted_by: "kind (restricted_by a b) = strongest {kind a, kind b} (kind a)"
  by (cases a; cases b) (simp_all add: restricted_by_def strongest_def)

lemma kind_fold_restricted:
  "kind (foldl (\<lambda>v x. restricted_by v (f x)) v0 xs) =
     strongest (insert (kind v0) (kind ` f ` set xs)) (kind v0)"
proof (induction xs rule: rev_induct)
  case Nil
  show ?case by (simp add: strongest_def)
next
  case (snoc x xs)
  then show ?case
    by (auto simp: kind_restricted_by strongest_def)
qed

lemma evaluate_path_kind:
  "kind (evaluate_path e rules tool grp p cwd) =
     (let ks = (\<lambda>q. kind (decide (path_matcher e tool grp cwd q) rules))
      in strongest (ks ` set (resolved_all p)) (ks (primary p)))"
  by (simp add: evaluate_path_def Let_def kind_fold_restricted resolved_all_def image_image)

lemma shell_loop:
  assumes "foldl (shell_step e rules tool) (HNone, None, True) segs = (refusal, allow, all)"
  shows "kind refusal =
      strongest ((\<lambda>s. kind (evaluate e rules tool (Some s))) ` set segs) None"
    and "all = list_all (\<lambda>s. kind (evaluate e rules tool (Some s)) = Some BAllow) segs"
    and "allow = None \<longleftrightarrow> list_all (\<lambda>s. kind (evaluate e rules tool (Some s)) \<noteq> Some BAllow) segs"
  using assms
proof (induction segs arbitrary: refusal allow all rule: rev_induct)
  case Nil
  { case 1 then show ?case by (simp add: strongest_def) }
  { case 2 then show ?case by simp }
  { case 3 then show ?case by simp }
next
  case (snoc s segs)
  obtain rf al b where prev: "foldl (shell_step e rules tool) (HNone, None, True) segs = (rf, al, b)"
    using prod_cases3 by blast
  note IH = snoc.IH [OF prev]
  have st: "shell_step e rules tool (rf, al, b) s = y"
    if "foldl (shell_step e rules tool) (HNone, None, True) (segs @ [s]) = y" for y
    using that prev by simp
  { case 1
    with IH(1) st [OF 1] show ?case
      by (cases "evaluate e rules tool (Some s)")
         (auto simp: shell_step_def kind_restricted_by strongest_def simp del: foldl_append) }
  { case 2
    with IH(2) st [OF 2] show ?case
      by (cases "evaluate e rules tool (Some s)") (auto simp: shell_step_def simp del: foldl_append) }
  { case 3
    with IH(3) st [OF 3] show ?case
      by (cases "evaluate e rules tool (Some s)")
         (auto simp: shell_step_def simp del: foldl_append split: option.splits) }
qed

text \<open>A line approved as it stands: the verdict on the whole line is an allow rule whose text is the
  trimmed line.\<close>

definition approved_verbatim :: "env \<Rightarrow> permission_rule list \<Rightarrow> string \<Rightarrow> string \<Rightarrow> bool" where
  "approved_verbatim e rules tool line =
     (case evaluate e rules tool (Some line) of
        HAllow r \<Rightarrow> rule_content r = Some (trim line)
      | _ \<Rightarrow> False)"

definition shell_verdict ::
  "rule_behavior option \<Rightarrow> rule_behavior option list \<Rightarrow> bool \<Rightarrow> rule_behavior option" where
  "shell_verdict whole segs verbatim =
     (if segs = [] then whole
      else strongest (insert whole (set segs))
        (if verbatim \<or> list_all (\<lambda>k. k = Some BAllow) segs then Some BAllow else None))"

lemma evaluate_shell_kind:
  "kind (evaluate_shell e rules tool line) =
     shell_verdict (kind (evaluate e rules tool (Some line)))
       (map (\<lambda>s. kind (evaluate e rules tool (Some s))) (simple_commands line))
       (approved_verbatim e rules tool line)"
proof (cases "simple_commands line = []")
  case False
  obtain rf al b where loop:
    "foldl (shell_step e rules tool) (HNone, None, True) (simple_commands line) = (rf, al, b)"
    using prod_cases3 by blast
  note loop_facts = shell_loop [OF loop]
  let ?ks = "(\<lambda>s. kind (evaluate e rules tool (Some s))) ` set (simple_commands line)"
  have al: "al = None \<Longrightarrow> \<not> b"
    using loop_facts(2,3) False by (cases "simple_commands line") auto
  have b: "b = list_all (\<lambda>k. k = Some BAllow) (map (\<lambda>s. kind (evaluate e rules tool (Some s))) (simple_commands line))"
    using loop_facts(2) by (simp add: list_all_iff)
  show ?thesis
    using False loop loop_facts(1) al b [symmetric]
    by (cases "evaluate e rules tool (Some line)"; cases rf; cases al)
       (auto simp: evaluate_shell_def shell_verdict_def strongest_def approved_verbatim_def
         restricted_by_def split: if_splits)
qed (simp add: evaluate_shell_def shell_verdict_def)


lemma shell_segment_deny:
  assumes "s \<in> set (simple_commands line)" "kind (evaluate e rules tool (Some s)) = Some BDeny"
  shows "kind (evaluate_shell e rules tool line) = Some BDeny"
proof -
  have "Some BDeny \<in> (\<lambda>s. kind (evaluate e rules tool (Some s))) ` set (simple_commands line)"
    using assms by (metis imageI)
  then show ?thesis
    by (auto simp: evaluate_shell_kind shell_verdict_def strongest_def)
qed

section \<open>Properties of the engine\<close>

text \<open>C12. The verdict on a call depends only on the behaviours of the rules that match it: a matching
  deny decides, else a matching ask, else a matching allow, else there is no verdict.\<close>
theorem evaluate_verdict:
  "kind (evaluate e rules tool content) =
     verdict_of (rule_behavior ` matching (content_matcher e tool content) rules)"
  by (simp add: evaluate_def decide_kind)

text \<open>The rule reported is one of the set, matches the call, and among the matching rules of its
  behaviour none is more specific, and none as specific comes from a source of higher priority.\<close>
theorem evaluate_reports_best:
  assumes "hit_rule (evaluate e rules tool content) = Some r"
  shows "\<exists>sp. r \<in> set rules \<and> content_matcher e tool content r = Some sp \<and>
    (\<forall>r' \<in> set rules. \<forall>sp'. content_matcher e tool content r' = Some sp' \<longrightarrow>
       rule_behavior r' = rule_behavior r \<longrightarrow>
       sp' < sp \<or> sp' = sp \<and> priority (rule_source r') \<le> priority (rule_source r))"
proof -
  from assms obtain sp where r: "r \<in> set rules" "content_matcher e tool content r = Some sp"
    and best: "\<And>r' sp'. r' \<in> set rules \<Longrightarrow> content_matcher e tool content r' = Some sp' \<Longrightarrow>
      match_score_of r' sp' \<le> match_score_of r sp"
    using decide_rule [of "content_matcher e tool content" rules r] by (auto simp: evaluate_def)
  have "sp' < sp \<or> sp' = sp \<and> priority (rule_source r') \<le> priority (rule_source r)"
    if "r' \<in> set rules" "content_matcher e tool content r' = Some sp'"
      "rule_behavior r' = rule_behavior r" for r' sp'
    using best [OF that(1,2)] that(3)
    by (auto simp: match_score_of_def less_eq_match_score_def less_match_score_def)
  with r show ?thesis by blast
qed

definition no_globs :: env where
  "no_globs = \<lparr>env_var = (\<lambda>_. None), env_canonicalize = (\<lambda>_. None), env_glob_path = (\<lambda>_. None),
     env_glob_text = (\<lambda>_. None)\<rparr>"

definition sample_rules :: "permission_rule list" where
  "sample_rules =
     [\<lparr>rule_source = UserSettings, rule_behavior = BAllow, tool_name = ''Bash'', rule_content = Some ''git:*''\<rparr>,
      \<lparr>rule_source = Plugin, rule_behavior = BDeny, tool_name = ''Bash'', rule_content = Some ''rm:*''\<rparr>,
      \<lparr>rule_source = CliArg, rule_behavior = BDeny, tool_name = ''Bash'', rule_content = Some ''rm -rf:*''\<rparr>]"

lemma sample_hit:
  "evaluate no_globs sample_rules ''Bash'' (Some ''rm -rf x'') = HDeny (sample_rules ! 2)"
  "as_i32 (utf8_len ''rm:*'') = 4" "as_i32 (utf8_len ''rm -rf:*'') = 8"
  by (simp_all add: sample_rules_def no_globs_def as_i32_small ruleset_defs rule_hit.simps search_defs
      utf8_len_def char_code_def)

lemma evaluate_reports_best_witness:
  "\<exists>sp. content_matcher no_globs ''Bash'' (Some ''rm -rf x'') (sample_rules ! 2) = Some sp"
  using evaluate_reports_best [of no_globs sample_rules "''Bash''" "Some ''rm -rf x''" "sample_rules ! 2"]
  by (auto simp: sample_hit hit_rule_def)

text \<open>Where a rule comes from plays no part in the verdict: moving rules between sources, policy,
  plugin or command line, changes no allow into a deny or back.\<close>
theorem verdict_ignores_sources:
  "kind (evaluate e (map (\<lambda>r. r\<lparr>rule_source := f r\<rparr>) rules) tool content) = kind (evaluate e rules tool content)"
  unfolding evaluate_def by (rule content.resourced)

text \<open>The verdict on a path is the strongest refusal over all its spellings; an allow counts only
  on the spelling the tool opens.\<close>
theorem evaluate_path_verdict:
  "kind (evaluate_path e rules tool grp p cwd) =
     strongest
       ((\<lambda>q. verdict_of (rule_behavior ` matching (path_matcher e tool grp cwd q) rules)) ` set (resolved_all p))
       (verdict_of (rule_behavior ` matching (path_matcher e tool grp cwd (primary p)) rules))"
  by (simp add: evaluate_path_kind Let_def decide_kind)

text \<open>C13. The verdict on a shell line: refused if any of its commands or the line as a whole is
  refused, allowed only if every command is allowed or the very line was approved.\<close>
theorem evaluate_shell_verdict:
  "kind (evaluate_shell e rules tool line) =
     (let whole = kind (evaluate e rules tool (Some line));
          ks = map (\<lambda>s. kind (evaluate e rules tool (Some s))) (simple_commands line)
      in if ks = [] then whole
         else if Some BDeny \<in> set (whole # ks) then Some BDeny
         else if Some BAsk \<in> set (whole # ks) then Some BAsk
         else if list_all (\<lambda>k. k = Some BAllow) ks \<or> approved_verbatim e rules tool line then Some BAllow
         else None)"
  unfolding evaluate_shell_kind by (auto simp: shell_verdict_def strongest_def Let_def)

text \<open>A deny reaches every command of a structured line, however deep in substitutions it
  stands and whatever else allows the line.\<close>
theorem deny_reaches_nested_commands:
  assumes "wf_line l" "c \<in> set (line_commands l)"
    and "r \<in> set rules" "rule_behavior r = BDeny" "content_matcher e tool (Some c) r \<noteq> None"
  shows "\<exists>r'. evaluate_shell e rules tool (render_line l) = HDeny r'"
proof -
  have "kind (evaluate e rules tool (Some c)) = Some BDeny"
    using assms(3-5) by (force simp: evaluate_def decide_kind verdict_of_def matching_def)
  moreover have "simple_commands (render_line l) = line_commands l"
    using split_loop_render(3) [OF assms(1), of "[]" "[]"] by (simp add: simple_commands_eq blank_def)
  ultimately have "kind (evaluate_shell e rules tool (render_line l)) = Some BDeny"
    using assms(2) by (intro shell_segment_deny) simp_all
  then show ?thesis by (simp add: kind_cases)
qed

definition nested_line :: line where
  "nested_line = Last [Lit ''git log '', Subst (CHR ''$'') (Last [Lit ''git show '', Subst (CHR ''<'') (Last [Lit ''rm -rf x''])])]"

lemma nested_line_facts:
  "render_line nested_line = ''git log $(git show <(rm -rf x))''"
  "line_commands nested_line = [''rm -rf x'', ''git show <(rm -rf x'', ''git log $(git show <(rm -rf x'']"
  "content_matcher no_globs ''Bash'' (Some ''rm -rf x'') (sample_rules ! Suc 0) = Some 4"
proof -
  show "render_line nested_line = ''git log $(git show <(rm -rf x))''" by code_simp
  show "line_commands nested_line = [''rm -rf x'', ''git show <(rm -rf x'', ''git log $(git show <(rm -rf x'']"
    by code_simp
  show "content_matcher no_globs ''Bash'' (Some ''rm -rf x'') (sample_rules ! Suc 0) = Some 4"
    by (simp add: sample_rules_def as_i32_small ruleset_defs search_defs utf8_len_def char_code_def)
qed

lemma deny_reaches_nested_commands_witness:
  "\<exists>r'. evaluate_shell no_globs sample_rules ''Bash'' ''git log $(git show <(rm -rf x))'' = HDeny r'"
proof -
  have "wf_line nested_line"
    by (simp add: nested_line_def plain_def special_chars_def)
  moreover have "sample_rules ! 1 \<in> set sample_rules" "rule_behavior (sample_rules ! 1) = BDeny"
    by (simp_all add: sample_rules_def)
  ultimately show ?thesis
    using deny_reaches_nested_commands
      [of nested_line "''rm -rf x''" "sample_rules ! Suc 0" sample_rules no_globs "''Bash''"]
    by (simp add: nested_line_facts)
qed


definition env_rules :: "permission_rule list" where
  "env_rules =
     [\<lparr>rule_source = ProjectSettings, rule_behavior = BDeny, tool_name = ''Read'', rule_content = Some ''.env''\<rparr>,
      \<lparr>rule_source = CliArg, rule_behavior = BAllow, tool_name = ''Read'', rule_content = None\<rparr>]"


text \<open>A relative path rule is joined onto the working directory before it is tested for globs, so
  a bracket in the directory's name turns the rule into a glob.  With a glob matcher that reads
  brackets as a character class, the deny on \<open>.env\<close> no longer covers \<open>.env\<close> in that directory.\<close>
theorem bracket_cwd_disarms_path_deny:
  assumes "env_glob_path e ''/app/[id]/.env'' = Some g" "\<not> g ''/app/[id]/.env''"
    and "expand_home e ''.env'' = None"
  shows "decide (path_matcher e ''Read'' ''Read'' [RootDir, Normal ''app'', Normal ''[id]'']
      [RootDir, Normal ''app'', Normal ''[id]'', Normal ''.env'']) [env_rules ! 0] = HNone"
proof -
  have "resolve_pattern e ''.env'' [RootDir, Normal ''app'', Normal ''[id]''] = ''/app/[id]/.env''"
    using assms(3) by (simp add: resolve_pattern_def starts_with_glob_def absolutize_def kernel_defs
        normalize_def)
  then have "path_matcher e ''Read'' ''Read'' [RootDir, Normal ''app'', Normal ''[id]'']
      [RootDir, Normal ''app'', Normal ''[id]'', Normal ''.env''] (env_rules ! 0) = None"
    using assms(1,2)
    by (simp add: path_matcher_def env_rules_def path_matches_def has_glob_def matches_tool_name_def)
  then show ?thesis by (simp add: decide_def decide_step_def)
qed

lemma bracket_cwd_disarms_path_deny_witness:
  "decide (path_matcher (no_globs\<lparr>env_glob_path := (\<lambda>_. Some (\<lambda>t. t \<in> {''/app/i/.env'', ''/app/d/.env''}))\<rparr>)
      ''Read'' ''Read'' [RootDir, Normal ''app'', Normal ''[id]'']
      [RootDir, Normal ''app'', Normal ''[id]'', Normal ''.env'']) [env_rules ! 0] = HNone"
  by (rule bracket_cwd_disarms_path_deny [OF _ _ ])
     (auto simp: no_globs_def expand_home_def strip_prefix_def)

text \<open>Clearing a source undoes exactly the rules added under it, in their order:
  a skill's temporary rules leave no trace.\<close>
theorem remove_by_source_undoes_extend:
  assumes "\<forall>r \<in> set rules. rule_source r \<noteq> src" "\<forall>r \<in> set added. rule_source r = src"
  shows "remove_by_source (ruleset_extend rules added) src = rules"
  using assms by (auto simp: remove_by_source_def ruleset_extend_def filter_id_conv filter_empty_conv)

lemma remove_by_source_undoes_extend_witness:
  "remove_by_source (ruleset_extend env_rules
     [\<lparr>rule_source = Command, rule_behavior = BAllow, tool_name = ''Bash'', rule_content = None\<rparr>]) Command = env_rules"
  by (rule remove_by_source_undoes_extend) (simp_all add: env_rules_def)

end
