(* ===== verification/RuleAudit.thy ===== *)
theory RuleAudit
  imports RuleSetProps
begin

text \<open>
  What is said about a rule set when it is built, and how a rule is added to a settings file:
  rules that never take effect (\<open>shadow.rs\<close>), allow rules that are too broad (\<open>dangerous.rs\<close>),
  \<open>RuleSet::new\<close> with the warnings it logs (\<open>ruleset.rs\<close>), and \<open>append_permission_rule\<close>
  (\<open>settings_patch.rs\<close>), all of \<open>crates/permissions/src\<close>.
\<close>

section \<open>Shadowed rules\<close>

record shadowed_rule =
  shadowed :: permission_rule
  shadowing :: permission_rule
  shadowed_index :: nat
  shadowing_index :: nat

definition strength :: "rule_behavior \<Rightarrow> nat" where
  "strength b = (case b of BDeny \<Rightarrow> 2 | BAsk \<Rightarrow> 1 | BAllow \<Rightarrow> 0)"

definition is_shadowed_by :: "env \<Rightarrow> permission_rule \<Rightarrow> permission_rule \<Rightarrow> bool" where
  "is_shadowed_by e covering covered =
     (case (rule_content covering, rule_content covered) of
        (None, _) \<Rightarrow> True
      | (Some _, None) \<Rightarrow> False
      | (Some hc, Some lc) \<Rightarrow> hc = lc \<or> matches_content e hc lc)"

definition overrides :: "env \<Rightarrow> permission_rule \<Rightarrow> permission_rule \<Rightarrow> bool" where
  "overrides e weaker stronger =
     (strength (rule_behavior weaker) < strength (rule_behavior stronger)
      \<and> matches_tool_name (tool_name stronger) (tool_name weaker)
      \<and> is_shadowed_by e stronger weaker)"

definition detect_shadowed_rules :: "env \<Rightarrow> permission_rule list \<Rightarrow> shadowed_rule list" where
  "detect_shadowed_rules e rules =
     List.map_filter
       (\<lambda>(j, weaker).
          map_option
            (\<lambda>(i, stronger). \<lparr>shadowed = weaker, shadowing = stronger, shadowed_index = j, shadowing_index = i\<rparr>)
            (List.find (\<lambda>(_, stronger). overrides e weaker stronger) (List.enumerate 0 rules)))
       (List.enumerate 0 rules)"

definition behavior_label :: "rule_behavior \<Rightarrow> string" where
  "behavior_label b = (case b of BAllow \<Rightarrow> ''allow'' | BDeny \<Rightarrow> ''deny'' | BAsk \<Rightarrow> ''ask'')"

definition source_label :: "rule_source \<Rightarrow> string" where
  "source_label s =
     (case s of
        UserSettings \<Rightarrow> ''user settings''
      | ProjectSettings \<Rightarrow> ''project settings''
      | LocalSettings \<Rightarrow> ''local settings''
      | CliArg \<Rightarrow> ''command-line arguments''
      | Session \<Rightarrow> ''this session''
      | PolicySettings \<Rightarrow> ''managed policy''
      | Command \<Rightarrow> ''an active skill''
      | Plugin \<Rightarrow> ''a plugin'')"

definition format_shadow_warning :: "shadowed_rule \<Rightarrow> string" where
  "format_shadow_warning s =
     ''Permission rule never takes effect: '' @ [dquote] @ format_rule_string (shadowed s) @ [dquote] @ '' [''
     @ behavior_label (rule_behavior (shadowed s)) @ ''] from '' @ source_label (rule_source (shadowed s))
     @ '' is overridden by '' @ [dquote] @ format_rule_string (shadowing s) @ [dquote] @ '' [''
     @ behavior_label (rule_behavior (shadowing s)) @ ''] from '' @ source_label (rule_source (shadowing s))
     @ '' (a matching deny always wins, then ask, then allow)''"

section \<open>Dangerous allow rules\<close>

datatype severity = Warning | Critical

definition severity_label :: "severity \<Rightarrow> string" where
  "severity_label s = (case s of Warning \<Rightarrow> ''WARNING'' | Critical \<Rightarrow> ''CRITICAL'')"

record dangerous_rule =
  dangerous :: permission_rule
  rule_index :: nat
  severity :: severity
  danger_reason :: string

definition DANGEROUS_TOOLS :: "string list" where
  "DANGEROUS_TOOLS = [''Bash'', ''Write'', ''Edit'', ''FileWrite'', ''FileEdit'']"

definition DESTRUCTIVE_BASH_SUBCOMMANDS :: "string list" where
  "DESTRUCTIVE_BASH_SUBCOMMANDS =
     [''rm'', ''dd'', ''mkfs'', ''chmod'', ''chown'', ''sudo'', ''python'', ''python3'', ''node'', ''npm'',
      ''npx'', ''pip'', ''pip3'', ''curl'', ''wget'', ''systemctl'', ''passwd'', ''usermod'', ''groupmod'',
      ''fdisk'', ''parted'', ''mkswap'', ''swapon'', ''swapoff'', ''mount'', ''umount'', ''insmod'', ''rmmod'',
      ''iwconfig'', ''ifconfig'', ''ip'']"

definition is_broad_allow :: "permission_rule \<Rightarrow> string option" where
  "is_broad_allow rule =
     (if tool_name rule \<notin> set DANGEROUS_TOOLS then None
      else case rule_content rule of
        None \<Rightarrow> Some (''Allow rule with no content restriction on '' @ tool_name rule
          @ '': permits unrestricted use of a powerful tool that can access any file or execute arbitrary commands'')
      | Some content \<Rightarrow>
          (if content = ''*'' \<or> content = ''**'' then
             Some (''Allow rule with wildcard '' @ [squote] @ content @ [squote] @ '' on '' @ tool_name rule
               @ '': effectively permits unrestricted use, same as having no content restriction'')
           else if content = ''/**'' \<or> content = ''**/*'' then
             Some (''Allow rule with broad path wildcard '' @ [squote] @ content @ [squote] @ '' on ''
               @ tool_name rule @ '': permits access to the entire filesystem through this tool'')
           else None))"

definition subcommand_risk :: "string \<Rightarrow> string" where
  "subcommand_risk cmd =
     (if cmd = ''rm'' then ''allows broad file deletion commands (rm:*)''
      else if cmd = ''dd'' then ''allows raw disk I/O commands (dd:*) that can wipe storage''
      else if cmd = ''mkfs'' then ''allows filesystem creation commands (mkfs:*) that can destroy data''
      else if cmd = ''chmod'' then ''allows broad permission modification (chmod:*)''
      else if cmd = ''chown'' then ''allows broad ownership changes (chown:*)''
      else if cmd = ''sudo'' then ''allows privilege escalation (sudo:*)''
      else if cmd \<in> set [''python'', ''python3''] then ''allows arbitrary code execution (python:*)''
      else if cmd = ''node'' then ''allows arbitrary code execution (node:*)''
      else if cmd \<in> set [''npm'', ''npx''] then ''allows arbitrary package installation/execution (npm:*)''
      else if cmd \<in> set [''pip'', ''pip3''] then ''allows arbitrary package installation (pip:*)''
      else if cmd \<in> set [''curl'', ''wget''] then
        ''allows network data transfer (curl:*) that may lead to code execution''
      else if cmd = ''systemctl'' then ''allows system service management (systemctl:*)''
      else if cmd = ''passwd'' then ''allows password changes (passwd:*)''
      else if cmd \<in> set [''usermod'', ''groupmod''] then ''allows user/group management (cmd:*)''
      else if cmd \<in> set [''fdisk'', ''parted'', ''mkswap'', ''swapon'', ''swapoff''] then
        ''allows disk partition management (cmd:*)''
      else if cmd \<in> set [''mount'', ''umount''] then ''allows filesystem mount operations (mount:*)''
      else if cmd \<in> set [''insmod'', ''rmmod''] then ''allows kernel module management (insmod:*)''
      else if cmd \<in> set [''iwconfig'', ''ifconfig'', ''ip''] then
        ''allows network interface configuration (ip:*)''
      else ''allows potentially destructive subcommands via prefix wildcard (:*)'')"

definition is_destructive_bash_allow :: "permission_rule \<Rightarrow> string option" where
  "is_destructive_bash_allow rule =
     (if tool_name rule \<noteq> ''Bash'' then None
      else case rule_content rule of
        None \<Rightarrow> None
      | Some content \<Rightarrow>
          map_option
            (\<lambda>cmd. ''Bash allow rule with content '' @ [squote] @ content @ [squote] @ '' ''
               @ subcommand_risk cmd @ '' '' @ em_dash
               @ '' consider narrowing to specific subcommands rather than the whole category'')
            (List.find (\<lambda>cmd. content = cmd @ '':*'') DESTRUCTIVE_BASH_SUBCOMMANDS))"

definition dangerous_step :: "nat \<times> permission_rule \<Rightarrow> dangerous_rule option" where
  "dangerous_step p =
     (case p of (i, rule) \<Rightarrow>
        (if rule_behavior rule \<noteq> BAllow then None
         else case is_broad_allow rule of
           Some danger \<Rightarrow>
             Some \<lparr>dangerous = rule, rule_index = i, severity = Critical, danger_reason = danger\<rparr>
         | None \<Rightarrow>
             (case is_destructive_bash_allow rule of
                Some danger \<Rightarrow>
                  Some \<lparr>dangerous = rule, rule_index = i, severity = Warning, danger_reason = danger\<rparr>
              | None \<Rightarrow> None)))"

definition detect_dangerous_rules :: "permission_rule list \<Rightarrow> dangerous_rule list" where
  "detect_dangerous_rules rules = List.map_filter dangerous_step (List.enumerate 0 rules)"

definition format_dangerous_warning :: "dangerous_rule \<Rightarrow> string" where
  "format_dangerous_warning d =
     ''['' @ severity_label (severity d) @ ''] Dangerous permission rule: '' @ [dquote]
     @ format_rule_string (dangerous d) @ ''  [allow]'' @ [dquote] @ '' at line ''
     @ show_nat (rule_index d + 1) @ '' '' @ em_dash @ '' '' @ danger_reason d"

section \<open>Building a rule set\<close>

definition PATH_RULE_TOOLS :: "string list" where
  "PATH_RULE_TOOLS = [''Read'', ''Grep'', ''Glob'', ''Edit'', ''Write'', ''NotebookEdit'']"

definition star_warned :: "permission_rule \<Rightarrow> bool" where
  "star_warned r =
     (case rule_content r of
        None \<Rightarrow> False
      | Some content \<Rightarrow> tool_name r \<in> set PATH_RULE_TOOLS \<and> star_meaning_changed content)"

text \<open>The rules, and the warnings logged on the way.\<close>

definition ruleset_new :: "env \<Rightarrow> permission_rule list \<Rightarrow> permission_rule list \<times> string list" where
  "ruleset_new e rules =
     (rules,
      map format_shadow_warning (detect_shadowed_rules e rules)
      @ map format_dangerous_warning (detect_dangerous_rules rules)
      @ map format_rule_string (filter star_warned rules))"

section \<open>Adding a rule to a settings file\<close>

datatype append_target = AppendAllow | AppendDeny | AppendAsk

fun append_action :: "append_target \<Rightarrow> string" where
  "append_action AppendAllow = ''allow''"
| "append_action AppendDeny = ''deny''"
| "append_action AppendAsk = ''ask''"

text \<open>What reading the file gives: it does not exist, holds only white space, is not JSON, or is JSON.
  Failing reads and writes are the file system's and are not modelled.\<close>

datatype settings_file = Missing | Blank | Garbled | Parsed json

datatype append_error = BadJson | NotObject

definition rule_entry :: "append_target \<Rightarrow> string \<Rightarrow> json" where
  "rule_entry target rule = JObject [(''tool'', JString rule), (''action'', JString (append_action target))]"

definition append_permission_rule ::
  "settings_file \<Rightarrow> append_target \<Rightarrow> string \<Rightarrow> append_error + bool \<times> settings_file" where
  "append_permission_rule file target rule =
     (case (case file of
              Missing \<Rightarrow> Inr (JObject [])
            | Blank \<Rightarrow> Inr (JObject [])
            | Garbled \<Rightarrow> Inl BadJson
            | Parsed v \<Rightarrow> Inr v) of
        Inl err \<Rightarrow> Inl err
      | Inr v \<Rightarrow>
          (case as_object v of
             None \<Rightarrow> Inl NotObject
           | Some root \<Rightarrow>
               (case as_array (case map_of root ''permission_rules'' of Some x \<Rightarrow> x | None \<Rightarrow> JArray []) of
                  None \<Rightarrow> Inl NotObject
                | Some arr \<Rightarrow>
                    (let already = list_ex (\<lambda>x. get_str x ''tool'' = Some rule
                                              \<and> get_str x ''action'' = Some (append_action target)) arr
                     in if already then Inr (False, file)
                        else Inr (True, Parsed (JObject
                               (obj_insert root ''permission_rules'' (JArray (arr @ [rule_entry target rule])))))))))"

lemmas audit_defs [kernel_defs] =
  strength_def is_shadowed_by_def overrides_def detect_shadowed_rules_def DANGEROUS_TOOLS_def
  DESTRUCTIVE_BASH_SUBCOMMANDS_def is_broad_allow_def is_destructive_bash_allow_def
  dangerous_step_def detect_dangerous_rules_def PATH_RULE_TOOLS_def star_warned_def ruleset_new_def
  rule_entry_def append_permission_rule_def

section \<open>Properties\<close>

lemma matches_tool_name_iff:
  "matches_tool_name rule actual \<longleftrightarrow> actual = rule \<or> (\<exists>rest. actual = rule @ ''__'' @ rest)"
  by (auto simp: matches_tool_name_def strip_prefix_Some prefix_def split: option.splits)

lemma matches_tool_name_trans:
  "matches_tool_name a b \<Longrightarrow> matches_tool_name b c \<Longrightarrow> matches_tool_name a c"
  by (auto simp: matches_tool_name_iff)

text \<open>A content with no wildcard: as a rule it matches only itself.\<close>

definition literal_content :: "string \<Rightarrow> bool" where
  "literal_content c \<longleftrightarrow> \<not> suffix '':*'' c \<and> CHR ''*'' \<notin> set c \<and> CHR ''?'' \<notin> set c \<and> CHR ''['' \<notin> set c"

lemma literal_matches: "literal_content pat \<Longrightarrow> matches_content e pat c \<longleftrightarrow> pat = c"
  by (simp add: matches_content_def literal_content_def strip_suffix_def)

lemma shadow_covers:
  assumes "matches_tool_name (tool_name stronger) (tool_name weaker)" "is_shadowed_by e stronger weaker"
    and "\<And>lc. rule_content weaker = Some lc \<Longrightarrow> literal_content lc \<or> rule_content stronger = Some lc"
    and "content_matcher e tool content weaker \<noteq> None"
  shows "content_matcher e tool content stronger \<noteq> None"
proof -
  have name: "matches_tool_name (tool_name stronger) tool"
    using assms(1,4) matches_tool_name_trans
    by (auto simp: content_matcher_def split: if_splits)
  show ?thesis
  proof (cases "rule_content stronger")
    case None
    with name show ?thesis by (simp add: content_matcher_def)
  next
    case (Some hc)
    with assms(2) obtain lc where lc: "rule_content weaker = Some lc" "hc = lc \<or> matches_content e hc lc"
      by (cases "rule_content weaker") (auto simp: is_shadowed_by_def)
    with assms(4) obtain c where c: "content = Some c" "matches_content e lc c"
      by (cases content) (auto simp: content_matcher_def split: if_splits)
    have "matches_content e hc c"
      using lc c assms(3) [OF lc(1)] Some literal_matches by auto
    with name Some c show ?thesis by (simp add: content_matcher_def)
  qed
qed

lemma detect_shadowed_overrides:
  assumes "s \<in> set (detect_shadowed_rules e rules)"
  shows "shadowed s \<in> set rules \<and> shadowing s \<in> set rules \<and> overrides e (shadowed s) (shadowing s)"
proof -
  from assms obtain j w i st where "(j, w) \<in> set (List.enumerate 0 rules)"
    and f: "List.find (\<lambda>(_, stronger). overrides e w stronger) (List.enumerate 0 rules) = Some (i, st)"
    and "shadowed s = w" "shadowing s = st"
    by (auto simp: detect_shadowed_rules_def set_map_filter)
  with find_SomeD [OF f] show ?thesis
    by (auto dest: enumerate_mem)
qed

text \<open>A rule reported as shadowed, with a literal content, the same content as the rule above it,
  or none, is dead: whatever the call, the engine never reports that rule as its verdict.\<close>
theorem shadowed_rule_is_dead:
  assumes "s \<in> set (detect_shadowed_rules e rules)"
    and "\<And>lc. rule_content (shadowed s) = Some lc \<Longrightarrow> literal_content lc \<or> rule_content (shadowing s) = Some lc"
  shows "hit_rule (evaluate e rules tool content) \<noteq> Some (shadowed s)"
proof
  let ?w = "shadowed s" and ?st = "shadowing s"
  assume "hit_rule (evaluate e rules tool content) = Some ?w"
  then obtain sp where w: "content_matcher e tool content ?w = Some sp"
    and best: "\<forall>r' \<in> set rules. \<forall>sp'. content_matcher e tool content r' = Some sp' \<longrightarrow>
      match_score_of r' sp' \<le> match_score_of ?w sp"
    using decide_rule [of "content_matcher e tool content" rules ?w] by (auto simp: evaluate_def)
  have st: "?st \<in> set rules" "overrides e ?w ?st"
    using detect_shadowed_overrides [OF assms(1)] by auto
  then obtain sp' where "content_matcher e tool content ?st = Some sp'"
    using shadow_covers [of ?st ?w e tool content] assms(2) w by (auto simp: overrides_def)
  with best st(1) have "match_score_of ?st sp' \<le> match_score_of ?w sp"
    by blast
  then have "behavior_rank (rule_behavior ?st) \<le> behavior_rank (rule_behavior ?w)"
    using rank_le by (fastforce simp: match_score_of_def)
  with st(2) show False
    by (cases "rule_behavior ?st"; cases "rule_behavior ?w")
       (auto simp: overrides_def strength_def behavior_rank_def)
qed


lemma shadowed_rule_is_dead_witness:
  "hit_rule (evaluate no_globs
      [\<lparr>rule_source = CliArg, rule_behavior = BAllow, tool_name = ''Bash'', rule_content = Some ''git status''\<rparr>,
       \<lparr>rule_source = Plugin, rule_behavior = BDeny, tool_name = ''Bash'', rule_content = Some ''git:*''\<rparr>]
      ''Bash'' (Some ''git status'')) \<noteq>
   Some \<lparr>rule_source = CliArg, rule_behavior = BAllow, tool_name = ''Bash'', rule_content = Some ''git status''\<rparr>"
proof -
  let ?w = "\<lparr>rule_source = CliArg, rule_behavior = BAllow, tool_name = ''Bash'', rule_content = Some ''git status''\<rparr>"
  let ?st = "\<lparr>rule_source = Plugin, rule_behavior = BDeny, tool_name = ''Bash'', rule_content = Some ''git:*''\<rparr>"
  have "\<lparr>shadowed = ?w, shadowing = ?st, shadowed_index = 0, shadowing_index = 1\<rparr>
      \<in> set (detect_shadowed_rules no_globs [?w, ?st])"
    by (simp add: detect_shadowed_rules_def List.map_filter_simps overrides_def strength_def
        matches_tool_name_def is_shadowed_by_def matches_content_def search_defs)
  from shadowed_rule_is_dead [OF this, of "''Bash''" "Some ''git status''"] show ?thesis
    by (simp add: literal_content_def search_defs)
qed

text \<open>The containment test tries the covered pattern as a text, so it answers wrongly for two
  globs: with a matcher that reads \<open>?\<close> as any one character and \<open>*\<close> as any text, an allow on
  \<open>git *\<close> is reported as never taking effect under a deny on \<open>git ?\<close>, and still decides
  \<open>git status\<close>.\<close>
theorem glob_shadow_false_alarm:
  assumes "env_glob_text e ''git ?'' = Some one" "one ''git *''" "\<not> one ''git status''"
    and "env_glob_text e ''git *'' = Some many" "many ''git status''"
    and "w = \<lparr>rule_source = Session, rule_behavior = BAllow, tool_name = ''Bash'', rule_content = Some ''git *''\<rparr>"
    and "st = \<lparr>rule_source = Session, rule_behavior = BDeny, tool_name = ''Bash'', rule_content = Some ''git ?''\<rparr>"
  shows "w \<in> shadowed ` set (detect_shadowed_rules e [w, st]) \<and>
    evaluate e [w, st] ''Bash'' (Some ''git status'') = HAllow w"
proof
  have "overrides e w st" "\<not> overrides e w w"
    using assms(1,2,6,7)
    by (simp_all add: overrides_def strength_def matches_tool_name_def is_shadowed_by_def
        matches_content_def search_defs)
  then show "w \<in> shadowed ` set (detect_shadowed_rules e [w, st])"
    by (simp add: detect_shadowed_rules_def List.map_filter_simps)
  have "content_matcher e ''Bash'' (Some ''git status'') w \<noteq> None"
    "content_matcher e ''Bash'' (Some ''git status'') st = None"
    using assms by (simp_all add: content_matcher_def matches_tool_name_def matches_content_def search_defs)
  then show "evaluate e [w, st] ''Bash'' (Some ''git status'') = HAllow w"
    by (auto simp: evaluate_def decide_def decide_step_def hit_of_def assms(6))
qed

lemma glob_shadow_false_alarm_witness:
  "\<exists>e w st. w \<in> shadowed ` set (detect_shadowed_rules e [w, st]) \<and>
    evaluate e [w, st] ''Bash'' (Some ''git status'') = HAllow w"
proof -
  let ?e = "no_globs\<lparr>env_glob_text := (\<lambda>p.
      if p = ''git ?'' then Some (\<lambda>t. prefix ''git '' t \<and> length t = 5)
      else if p = ''git *'' then Some (\<lambda>t. prefix ''git '' t) else None)\<rparr>"
  show ?thesis
    by (intro exI, rule glob_shadow_false_alarm [where e = ?e
          and one = "\<lambda>t. prefix ''git '' t \<and> length t = 5" and many = "\<lambda>t. prefix ''git '' t"])
       simp_all
qed

text \<open>The audit for dangerous rules reports every allow rule without a content restriction on a
  tool that can run commands or write files, as critical, under the rule's own index.\<close>
theorem unrestricted_allow_is_critical:
  assumes "i < length rules" "rules ! i = r" "rule_behavior r = BAllow"
    and "tool_name r \<in> set DANGEROUS_TOOLS" "rule_content r = None"
  shows "\<exists>d \<in> set (detect_dangerous_rules rules). dangerous d = r \<and> rule_index d = i \<and> severity d = Critical"
proof -
  have "(i, r) \<in> set (List.enumerate 0 rules)"
    using assms(1,2) by (simp add: enumerate_nth)
  moreover have "\<exists>m. dangerous_step (i, r) =
      Some \<lparr>dangerous = r, rule_index = i, severity = Critical, danger_reason = m\<rparr>"
    using assms(3-5) by (simp add: dangerous_step_def is_broad_allow_def)
  ultimately show ?thesis
    unfolding detect_dangerous_rules_def Bex_def set_map_filter by force
qed

lemma unrestricted_allow_is_critical_witness:
  "\<exists>d \<in> set (detect_dangerous_rules (env_rules @
      [\<lparr>rule_source = Plugin, rule_behavior = BAllow, tool_name = ''Bash'', rule_content = None\<rparr>])).
     rule_index d = 2 \<and> severity d = Critical"
  using unrestricted_allow_is_critical [of 2 "env_rules @
      [\<lparr>rule_source = Plugin, rule_behavior = BAllow, tool_name = ''Bash'', rule_content = None\<rparr>]"]
  by (auto simp: env_rules_def DANGEROUS_TOOLS_def)

text \<open>Appending a rule to a settings file that holds an object: afterwards the file holds the
  entry, every earlier entry in its order and every other key; a second append changes nothing.\<close>
theorem append_rule_keeps_file:
  assumes "append_permission_rule (Parsed (JObject root)) target rule = Inr (changed, file)"
  shows "\<exists>root' arr. file = Parsed (JObject root') \<and> map_of root' ''permission_rules'' = Some (JArray arr)
      \<and> (\<exists>x \<in> set arr. get_str x ''tool'' = Some rule \<and> get_str x ''action'' = Some (append_action target))
      \<and> (case map_of root ''permission_rules'' of Some (JArray old) \<Rightarrow> prefix old arr | _ \<Rightarrow> length arr = 1)
      \<and> (\<forall>k. k \<noteq> ''permission_rules'' \<longrightarrow> map_of root' k = map_of root k)
      \<and> append_permission_rule file target rule = Inr (False, file)"
proof -
  let ?P = "\<lambda>x. get_str x ''tool'' = Some rule \<and> get_str x ''action'' = Some (append_action target)"
  have new: "?P (rule_entry target rule)"
    by (simp add: rule_entry_def get_str_def)
  have again: "append_permission_rule (Parsed (JObject r)) target rule = Inr (False, Parsed (JObject r))"
    if "map_of r ''permission_rules'' = Some (JArray arr)" "\<exists>x \<in> set arr. ?P x" for r arr
    using that by (auto simp: append_permission_rule_def list_ex_iff Let_def)
  show ?thesis
  proof (cases "map_of root ''permission_rules''")
    case None
    then have "file = Parsed (JObject (obj_insert root ''permission_rules'' (JArray [rule_entry target rule])))"
      using assms by (auto simp: append_permission_rule_def)
    with None new show ?thesis
      using again by force
  next
    case (Some v)
    show ?thesis
    proof (cases v)
      case (JArray arr)
      show ?thesis
      proof (cases "\<exists>x \<in> set arr. ?P x")
        case True
        with assms Some JArray have "file = Parsed (JObject root)"
          by (auto simp: append_permission_rule_def list_ex_iff Let_def)
        with True Some JArray again [of root arr] show ?thesis by auto
      next
        case False
        with assms Some JArray
        have f: "file = Parsed (JObject (obj_insert root ''permission_rules'' (JArray (arr @ [rule_entry target rule]))))"
          by (auto simp: append_permission_rule_def list_ex_iff Let_def)
        have "\<exists>x \<in> set (arr @ [rule_entry target rule]). ?P x"
          using new by auto
        with f Some JArray again [of "obj_insert root ''permission_rules'' (JArray (arr @ [rule_entry target rule]))"]
        show ?thesis by simp
      qed
    qed (use assms Some in \<open>simp_all add: append_permission_rule_def\<close>)
  qed
qed

lemma append_rule_keeps_file_witness:
  "append_permission_rule
     (Parsed (JObject [(''model'', JString ''m''),
        (''permission_rules'', JArray [rule_entry AppendDeny ''Bash(rm:*)'', rule_entry AppendAllow ''Read''])]))
     AppendAllow ''Read'' =
   Inr (False, Parsed (JObject [(''model'', JString ''m''),
        (''permission_rules'', JArray [rule_entry AppendDeny ''Bash(rm:*)'', rule_entry AppendAllow ''Read''])]))"
  using append_rule_keeps_file [of "[(''model'', JString ''m''),
      (''permission_rules'', JArray [rule_entry AppendDeny ''Bash(rm:*)''])]" AppendAllow "''Read''" True
      "Parsed (JObject [(''model'', JString ''m''),
        (''permission_rules'', JArray [rule_entry AppendDeny ''Bash(rm:*)'', rule_entry AppendAllow ''Read''])])"]
  by (simp add: append_permission_rule_def rule_entry_def get_str_def)

end
