(* ===== verification/Gate.thy ===== *)
theory Gate
  imports RuleAudit
begin

text \<open>
  The permission gate, \<open>crates/permissions/src/gate.rs\<close>: the protected paths, the order of the
  checks, the denial counters and the explainer.  A tool, the session and the classifier are behind
  traits; a tool is the record of the trait's answers the gate asks for, the classifier a function.
  The locks and the atomics are taken one operation at a time.
\<close>

section \<open>Protected paths\<close>

definition BYPASS_IMMUNE_COMPONENTS :: "string list" where
  "BYPASS_IMMUNE_COMPONENTS = [''.ssh'', ''.aws'', ''.gnupg'']"

definition CONFIRMATION_REQUIRED_COMPONENTS :: "string list" where
  "CONFIRMATION_REQUIRED_COMPONENTS = [''.git'', ''.claude'', ''.atta'']"

definition is_path_confirmation_required :: "string \<Rightarrow> bool" where
  "is_path_confirmation_required content =
     (let lowered = to_lowercase content
      in CHR ''/'' \<in> set lowered
         \<and> list_ex (\<lambda>component. component \<in> set CONFIRMATION_REQUIRED_COMPONENTS)
             (split_char (CHR ''/'') lowered))"

definition is_path_bypass_immune :: "string \<Rightarrow> bool" where
  "is_path_bypass_immune content =
     (let lowered = to_lowercase content in
      if CHR ''/'' \<in> set lowered
         \<and> list_ex (\<lambda>component. component \<in> set BYPASS_IMMUNE_COMPONENTS) (split_char (CHR ''/'') lowered)
      then True
      else if CHR ''/'' \<in> set lowered
         \<and> list_ex (\<lambda>sys_path. contains_str lowered sys_path) [''/etc/passwd'', ''/etc/shadow'', ''/etc/ssh/'']
      then True
      else list_ex
        (\<lambda>destructive.
           case find_str destructive lowered of
             None \<Rightarrow> False
           | Some idx \<Rightarrow> idx = 0 \<or> (0 < idx \<and> lowered ! (idx - 1) = CHR '' ''))
        [''rm -rf /'', ''mkfs.'', ''dd if=''])"

section \<open>The gate\<close>

datatype classify_decision =
    ClassifyAllow string
  | ClassifyDeny string
  | ClassifyAllowWithEdit string string
  | ClassifyDefer

datatype gate_error = InvalidInput string int

datatype network_mode_config = Unrestricted | DenyAll | Allowlist

record sandbox_settings =
  sb_allow_read :: "path list"
  sb_deny_read :: "path list"
  sb_allowed_domains :: "string list"
  sb_network_mode :: network_mode_config
  sb_deny_write :: "string list"
  sb_allow_write :: "path list"
  sb_state_root :: "path option"
  sb_require_enforcement :: bool

definition default_sandbox :: sandbox_settings where
  "default_sandbox =
     \<lparr>sb_allow_read = [], sb_deny_read = [], sb_allowed_domains = [], sb_network_mode = Unrestricted,
       sb_deny_write = [], sb_allow_write = [], sb_state_root = None, sb_require_enforcement = False\<rparr>"

record tool_context =
  ctx_cwd :: path
  ctx_mode :: permission_mode
  ctx_session_id :: string
  ctx_sandbox :: sandbox_settings

record tool =
  t_name :: string
  t_prompt :: string
  t_validate_input :: "json \<Rightarrow> tool_context \<Rightarrow> validation_result"
  t_check_permissions :: "json \<Rightarrow> tool_context \<Rightarrow> tool_decision"
  t_permission_match_content :: "json \<Rightarrow> string option"
  t_permission_content_kind :: content_kind
  t_is_read_only :: "json \<Rightarrow> bool"
  t_self_allow_overrides_mode :: bool

type_synonym classifier = "string \<Rightarrow> string \<Rightarrow> json \<Rightarrow> classify_decision"

record gate =
  g_rules :: "permission_rule list"
  g_classifier :: "classifier option"
  denial_count :: "64 word"
  total_denial_count :: "64 word"

definition gate_new :: "permission_rule list \<Rightarrow> gate" where
  "gate_new rules = \<lparr>g_rules = rules, g_classifier = None, denial_count = 0, total_denial_count = 0\<rparr>"

definition with_auto_classifier :: "gate \<Rightarrow> classifier \<Rightarrow> gate" where
  "with_auto_classifier g c = g\<lparr>g_classifier := Some c\<rparr>"

definition record_denial :: "gate \<Rightarrow> gate" where
  "record_denial g = g\<lparr>denial_count := denial_count g + 1, total_denial_count := total_denial_count g + 1\<rparr>"

definition record_success :: "gate \<Rightarrow> gate" where
  "record_success g = g\<lparr>denial_count := 0\<rparr>"

definition should_fallback_to_prompting :: "gate \<Rightarrow> bool" where
  "should_fallback_to_prompting g \<longleftrightarrow> 3 \<le> denial_count g \<or> 20 \<le> total_denial_count g"

definition gate_add_rules :: "gate \<Rightarrow> permission_rule list \<Rightarrow> gate" where
  "gate_add_rules g rs = g\<lparr>g_rules := ruleset_extend (g_rules g) rs\<rparr>"

definition remove_rules_by_source :: "gate \<Rightarrow> rule_source \<Rightarrow> gate" where
  "remove_rules_by_source g src = g\<lparr>g_rules := remove_by_source (g_rules g) src\<rparr>"

section \<open>One check\<close>

text \<open>Step 3: the file a path tool names, the verdict of the engine, and every text the protected-path
  checks look at.\<close>

definition resolved_for :: "env \<Rightarrow> tool \<Rightarrow> json \<Rightarrow> tool_context \<Rightarrow> resolved_path option" where
  "resolved_for e t input ctx =
     (case (path_rule_group (t_permission_content_kind t), t_permission_match_content t input) of
        (Some _, Some c) \<Rightarrow> Some (resolved_path_new e c (ctx_cwd ctx))
      | _ \<Rightarrow> None)"

definition rule_hit_for :: "env \<Rightarrow> permission_rule list \<Rightarrow> tool \<Rightarrow> json \<Rightarrow> tool_context \<Rightarrow> rule_hit" where
  "rule_hit_for e rules t input ctx =
     (case (path_rule_group (t_permission_content_kind t), resolved_for e t input ctx) of
        (Some grp, Some p) \<Rightarrow> evaluate_path e rules (t_name t) grp p (ctx_cwd ctx)
      | _ \<Rightarrow>
          (case t_permission_match_content t input of
             Some line \<Rightarrow>
               (if t_permission_content_kind t = ShellCommand
                then evaluate_shell e rules (t_name t) line
                else evaluate e rules (t_name t) (Some line))
           | None \<Rightarrow> evaluate e rules (t_name t) None))"

definition checked_strings :: "env \<Rightarrow> tool \<Rightarrow> json \<Rightarrow> tool_context \<Rightarrow> string list" where
  "checked_strings e t input ctx =
     (case t_permission_match_content t input of None \<Rightarrow> [] | Some c \<Rightarrow> [c])
     @ (case resolved_for e t input ctx of None \<Rightarrow> [] | Some r \<Rightarrow> map path_str (resolved_all r))"

text \<open>Step 8: what the mode says when nothing before decided.\<close>

definition allow_by_mode :: "permission_mode \<Rightarrow> permission_decision" where
  "allow_by_mode mode = PAllow None (Some (ReasonMode mode))"

definition ask_by_mode :: "string \<Rightarrow> permission_mode \<Rightarrow> permission_decision" where
  "ask_by_mode name mode = PAsk (''Allow '' @ name @ ''?'') (Some (ReasonMode mode))"

definition classifier_dispatch :: "gate \<Rightarrow> tool \<Rightarrow> json \<Rightarrow> permission_mode \<Rightarrow> permission_decision" where
  "classifier_dispatch g t input mode =
     (case g_classifier g of
        None \<Rightarrow> ask_by_mode (t_name t) mode
      | Some classify \<Rightarrow>
          (case classify (t_name t) (t_prompt t) input of
             ClassifyAllow reason \<Rightarrow> PAllow None (Some (ReasonOther (''auto-classifier: '' @ reason)))
           | ClassifyDeny reason \<Rightarrow> PDeny (''classifier denied: '' @ reason) (ReasonClassifier ''llm'')
           | ClassifyAllowWithEdit reason edits \<Rightarrow>
               PAllow None (Some (ReasonOther (''auto-classifier: '' @ reason
                 @ (if edits = [] then [] else '' (suggested edits: '' @ edits @ '')''))))
           | ClassifyDefer \<Rightarrow> ask_by_mode (t_name t) mode))"

definition mode_dispatch :: "gate \<Rightarrow> tool \<Rightarrow> json \<Rightarrow> permission_mode \<Rightarrow> permission_decision" where
  "mode_dispatch g t input mode =
     (case mode of
        BypassPermissions \<Rightarrow> allow_by_mode mode
      | AcceptEdits \<Rightarrow>
          (if t_is_read_only t input \<or> (t_name t = ''Edit'' \<or> t_name t = ''Write'') then allow_by_mode mode
           else ask_by_mode (t_name t) mode)
      | DontAsk \<Rightarrow> PDeny ''dontAsk mode and no rule matched'' (ReasonMode mode)
      | Bubble \<Rightarrow>
          PAsk ''Bubble: forwarding permission request to parent agent'' (Some (ReasonMode mode))
      | Default \<Rightarrow> ask_by_mode (t_name t) mode
      | Plan \<Rightarrow>
          (if t_is_read_only t input then allow_by_mode mode else ask_by_mode (t_name t) mode)
      | Auto \<Rightarrow> classifier_dispatch g t input mode
      | Yolo \<Rightarrow> classifier_dispatch g t input mode)"

text \<open>Steps 6 to 8: the tool's own allow, unless a checked text needs confirmation; an allow rule; the
  mode.\<close>

definition grant :: "env \<Rightarrow> gate \<Rightarrow> tool \<Rightarrow> json \<Rightarrow> tool_context \<Rightarrow> bool \<Rightarrow> permission_rule option \<Rightarrow> permission_decision" where
  "grant e g t input ctx tool_self_allow rule_allow =
     (let needs_confirmation = list_ex is_path_confirmation_required (checked_strings e t input ctx)
      in if tool_self_allow \<and> \<not> needs_confirmation then PAllow None (Some (ReasonOther ''tool allowed''))
         else case rule_allow of
                Some rule \<Rightarrow> PAllow None (Some (ReasonRule rule))
              | None \<Rightarrow> mode_dispatch g t input (ctx_mode ctx))"

definition gate_check ::
  "env \<Rightarrow> gate \<Rightarrow> tool \<Rightarrow> json \<Rightarrow> tool_context \<Rightarrow> gate_error + permission_decision" where
  "gate_check e g t input ctx =
     (case t_validate_input t input ctx of
        VErr msg code \<Rightarrow> Inl (InvalidInput msg code)
      | VOk \<Rightarrow>
     (case t_check_permissions t input ctx of
        TDeny reason _ \<Rightarrow>
          Inr (PDeny (case reason of Some m \<Rightarrow> m | None \<Rightarrow> []) (ReasonOther ''tool denied''))
      | own \<Rightarrow>
     (let tool_self_allow = (case own of TAllow _ \<Rightarrow> True | _ \<Rightarrow> False);
          hit = rule_hit_for e (g_rules g) t input ctx;
          mode = ctx_mode ctx
      in case hit of
        HDeny rule \<Rightarrow> Inr (PDeny (''denied by rule: '' @ format_rule_string rule) (ReasonRule rule))
      | _ \<Rightarrow>
     (let rule_allow = (case hit of HAllow r \<Rightarrow> Some r | _ \<Rightarrow> None);
          rule_ask = (case hit of HAsk r \<Rightarrow> Some r | _ \<Rightarrow> None)
      in case List.find is_path_bypass_immune (checked_strings e t input ctx) of
        Some content \<Rightarrow>
          Inr (PDeny (''access to protected path '' @ [squote] @ content @ [squote]
                 @ '' is blocked regardless of permission mode '' @ em_dash @ '' this path is bypass-immune'')
               (ReasonToolBuiltin ''bypass_immune''))
      | None \<Rightarrow>
     (let mode_denials_apply = (\<not> (tool_self_allow \<and> t_self_allow_overrides_mode t))
      in if mode_denials_apply \<and> mode = Plan \<and> \<not> t_is_read_only t input then
           Inr (PDeny ''plan mode forbids non-readonly tools'' (ReasonMode mode))
         else if mode_denials_apply \<and> mode = DontAsk \<and> rule_allow = None then
           Inr (PDeny ''dontAsk mode and no rule matched'' (ReasonMode mode))
         else case rule_ask of
           None \<Rightarrow> Inr (grant e g t input ctx tool_self_allow rule_allow)
         | Some rule \<Rightarrow>
             (if mode = BypassPermissions then Inr (grant e g t input ctx tool_self_allow rule_allow)
              else if mode = DontAsk then
                Inr (PDeny (''dontAsk mode and an ask rule matched: '' @ format_rule_string rule)
                       (ReasonRule rule))
              else
                Inr (PAsk (t_name t @ '' matches '' @ format_rule_string rule @ '', which requires confirmation'')
                       (Some (ReasonRule rule)))))))))"

section \<open>The explainer\<close>

definition extract_content_from_input :: "json \<Rightarrow> string option" where
  "extract_content_from_input input =
     (case get_str input ''command'' of Some cmd \<Rightarrow> Some cmd | None \<Rightarrow>
     (case get_str input ''file_path'' of Some p \<Rightarrow> Some p | None \<Rightarrow>
     (case get_str input ''path'' of Some p \<Rightarrow> Some p | None \<Rightarrow>
     (case get_str input ''url'' of Some u \<Rightarrow> Some u | None \<Rightarrow>
     (case get_str input ''pattern'' of Some p \<Rightarrow> Some p | None \<Rightarrow>
      get_str input ''query'')))))"

definition explain_decision :: "env \<Rightarrow> gate \<Rightarrow> string \<Rightarrow> json \<Rightarrow> string" where
  "explain_decision e g name input =
     (let content = extract_content_from_input input;
          quoted = (\<lambda>s. [dquote] @ s @ [dquote]);
          content_info = (case content of Some c \<Rightarrow> '' matches '' @ quoted c | None \<Rightarrow> []);
          display = (case content of Some c \<Rightarrow> c | None \<Rightarrow> ''<no content>'')
      in if (case content of Some c \<Rightarrow> is_path_bypass_immune c | None \<Rightarrow> False) then
           ''Denied by path safety: '' @ quoted (the content) @ '' is in the bypass-immune deny list''
         else case evaluate e (g_rules g) name content of
           HAllow rule \<Rightarrow> ''Allowed by rule: '' @ format_rule_string rule @ content_info
         | HDeny rule \<Rightarrow> ''Denied by rule: '' @ format_rule_string rule @ content_info
         | HAsk rule \<Rightarrow>
             ''Rule matches: '' @ format_rule_string rule @ '' [ask]'' @ content_info @ '' '' @ em_dash
             @ '' requires confirmation''
         | HNone \<Rightarrow>
             ''Ask: no matching rule found for '' @ name @ ''('' @ display @ '') '' @ em_dash
             @ (if list_ex (\<lambda>r. matches_tool_name (tool_name r) name) (g_rules g)
                then '' the tool has rules but none match this specific content''
                else '' no rules have been configured for this tool''))"

lemmas gate_defs [kernel_defs] =
  BYPASS_IMMUNE_COMPONENTS_def CONFIRMATION_REQUIRED_COMPONENTS_def is_path_confirmation_required_def
  is_path_bypass_immune_def gate_new_def with_auto_classifier_def record_denial_def
  record_success_def should_fallback_to_prompting_def gate_add_rules_def remove_rules_by_source_def
  resolved_for_def rule_hit_for_def checked_strings_def allow_by_mode_def ask_by_mode_def
  classifier_dispatch_def mode_dispatch_def grant_def gate_check_def extract_content_from_input_def
  explain_decision_def

end
