(* ===== verification/GateProps.thy ===== *)
theory GateProps
  imports Gate
begin

text \<open>
  What the gate guarantees: which calls it allows, that deny rules and protected paths hold in every
  mode, how the modes compare, and what its denial counters count.
\<close>

section \<open>The policy\<close>

definition gate_allows :: "env \<Rightarrow> gate \<Rightarrow> tool \<Rightarrow> json \<Rightarrow> tool_context \<Rightarrow> bool" where
  "gate_allows e g t input ctx \<longleftrightarrow>
     (case gate_check e g t input ctx of Inr d \<Rightarrow> is_allow d | Inl _ \<Rightarrow> False)"

definition gate_asks :: "env \<Rightarrow> gate \<Rightarrow> tool \<Rightarrow> json \<Rightarrow> tool_context \<Rightarrow> bool" where
  "gate_asks e g t input ctx \<longleftrightarrow>
     (case gate_check e g t input ctx of Inr d \<Rightarrow> is_ask d | Inl _ \<Rightarrow> False)"

definition self_allows :: "tool \<Rightarrow> json \<Rightarrow> tool_context \<Rightarrow> bool" where
  "self_allows t input ctx \<longleftrightarrow> (case t_check_permissions t input ctx of TAllow _ \<Rightarrow> True | _ \<Rightarrow> False)"

definition self_denies :: "tool \<Rightarrow> json \<Rightarrow> tool_context \<Rightarrow> bool" where
  "self_denies t input ctx \<longleftrightarrow> (case t_check_permissions t input ctx of TDeny _ _ \<Rightarrow> True | _ \<Rightarrow> False)"

definition classifier_allows :: "gate \<Rightarrow> tool \<Rightarrow> json \<Rightarrow> bool" where
  "classifier_allows g t input \<longleftrightarrow>
     (case g_classifier g of
        None \<Rightarrow> False
      | Some classify \<Rightarrow>
          (case classify (t_name t) (t_prompt t) input of
             ClassifyAllow _ \<Rightarrow> True
           | ClassifyAllowWithEdit _ _ \<Rightarrow> True
           | _ \<Rightarrow> False))"

text \<open>What a mode grants by itself.\<close>

definition mode_grants :: "gate \<Rightarrow> tool \<Rightarrow> json \<Rightarrow> permission_mode \<Rightarrow> bool" where
  "mode_grants g t input mode \<longleftrightarrow>
     (case mode of
        BypassPermissions \<Rightarrow> True
      | AcceptEdits \<Rightarrow> t_is_read_only t input \<or> t_name t \<in> {''Edit'', ''Write''}
      | Plan \<Rightarrow> t_is_read_only t input
      | Auto \<Rightarrow> classifier_allows g t input
      | Yolo \<Rightarrow> classifier_allows g t input
      | _ \<Rightarrow> False)"

text \<open>What a mode refuses by itself; \<open>own\<close> is a self-allow that overrides modes.\<close>

definition mode_refuses :: "tool \<Rightarrow> json \<Rightarrow> permission_mode \<Rightarrow> bool \<Rightarrow> rule_behavior option \<Rightarrow> bool" where
  "mode_refuses t input mode own verdict \<longleftrightarrow>
     \<not> own \<and> (mode = Plan \<and> \<not> t_is_read_only t input \<or> mode = DontAsk \<and> verdict \<noteq> Some BAllow)"

definition verdict :: "env \<Rightarrow> gate \<Rightarrow> tool \<Rightarrow> json \<Rightarrow> tool_context \<Rightarrow> rule_behavior option" where
  "verdict e g t input ctx = kind (rule_hit_for e (g_rules g) t input ctx)"

definition touches_protected :: "env \<Rightarrow> tool \<Rightarrow> json \<Rightarrow> tool_context \<Rightarrow> bool" where
  "touches_protected e t input ctx \<longleftrightarrow> list_ex is_path_bypass_immune (checked_strings e t input ctx)"

definition touches_config :: "env \<Rightarrow> tool \<Rightarrow> json \<Rightarrow> tool_context \<Rightarrow> bool" where
  "touches_config e t input ctx \<longleftrightarrow> list_ex is_path_confirmation_required (checked_strings e t input ctx)"

lemma find_None_list_ex: "List.find P xs = None \<longleftrightarrow> \<not> list_ex P xs"
  by (induction xs) auto

lemma is_allow_mode_dispatch: "is_allow (mode_dispatch g t input mode) \<longleftrightarrow> mode_grants g t input mode"
  by (auto simp: mode_dispatch_def mode_grants_def classifier_dispatch_def classifier_allows_def
      allow_by_mode_def ask_by_mode_def
      split: permission_mode.splits option.splits classify_decision.splits)

lemma is_ask_mode_dispatch: "mode \<in> {BypassPermissions, DontAsk} \<Longrightarrow> \<not> is_ask (mode_dispatch g t input mode)"
  by (auto simp: mode_dispatch_def allow_by_mode_def)

lemma is_allow_grant:
  "is_allow (grant e g t input ctx self rule_allow) \<longleftrightarrow>
     (self \<and> \<not> touches_config e t input ctx) \<or> rule_allow \<noteq> None \<or> mode_grants g t input (ctx_mode ctx)"
  using is_allow_mode_dispatch [of g t input "ctx_mode ctx"]
  by (auto simp: grant_def touches_config_def Let_def simp del: decision_defs split: option.splits)
     (simp_all add: is_allow_def)

text \<open>The checks before the grant, as one equation.\<close>

lemma gate_check_granted:
  assumes "t_validate_input t input ctx = VOk" "\<not> self_denies t input ctx"
    and "verdict e g t input ctx \<noteq> Some BDeny" "\<not> touches_protected e t input ctx"
    and "\<not> mode_refuses t input (ctx_mode ctx) (self_allows t input ctx \<and> t_self_allow_overrides_mode t)
           (verdict e g t input ctx)"
    and "verdict e g t input ctx \<noteq> Some BAsk \<or> ctx_mode ctx = BypassPermissions"
  shows "gate_check e g t input ctx =
    Inr (grant e g t input ctx (self_allows t input ctx)
      (case rule_hit_for e (g_rules g) t input ctx of HAllow r \<Rightarrow> Some r | _ \<Rightarrow> None))"
proof -
  have find: "List.find is_path_bypass_immune (checked_strings e t input ctx) = None"
    using assms(4) by (simp add: find_None_list_ex touches_protected_def)
  show ?thesis
    using assms find
    by (cases "t_check_permissions t input ctx"; cases "rule_hit_for e (g_rules g) t input ctx")
       (auto simp: gate_check_def self_denies_def self_allows_def verdict_def mode_refuses_def)
qed

lemma gate_check_refused:
  assumes "t_validate_input t input ctx \<noteq> VOk \<or> self_denies t input ctx
    \<or> verdict e g t input ctx = Some BDeny \<or> touches_protected e t input ctx
    \<or> mode_refuses t input (ctx_mode ctx) (self_allows t input ctx \<and> t_self_allow_overrides_mode t)
           (verdict e g t input ctx)"
  shows "\<not> gate_allows e g t input ctx \<and> \<not> gate_asks e g t input ctx"
proof (cases "t_validate_input t input ctx")
  case (VErr msg code)
  then show ?thesis by (simp add: gate_allows_def gate_asks_def gate_check_def)
next
  case ok: VOk
  have find: "touches_protected e t input ctx \<Longrightarrow>
      \<exists>s. List.find is_path_bypass_immune (checked_strings e t input ctx) = Some s"
    by (metis find_None_list_ex not_None_eq touches_protected_def)
  show ?thesis
    using assms ok find
    by (cases "t_check_permissions t input ctx"; cases "rule_hit_for e (g_rules g) t input ctx";
        cases "List.find is_path_bypass_immune (checked_strings e t input ctx)")
       (auto simp: gate_allows_def gate_asks_def gate_check_def self_denies_def self_allows_def
         verdict_def mode_refuses_def)
qed

lemma gate_check_asked:
  assumes "t_validate_input t input ctx = VOk" "\<not> self_denies t input ctx"
    and "verdict e g t input ctx = Some BAsk" "ctx_mode ctx \<noteq> BypassPermissions"
  shows "\<not> gate_allows e g t input ctx"
  using assms
  by (cases "t_check_permissions t input ctx"; cases "rule_hit_for e (g_rules g) t input ctx";
      cases "List.find is_path_bypass_immune (checked_strings e t input ctx)")
     (auto simp: gate_allows_def gate_check_def self_denies_def verdict_def Let_def split: if_splits)

lemma allows_iff:
  "gate_allows e g t input ctx \<longleftrightarrow>
     t_validate_input t input ctx = VOk \<and> \<not> self_denies t input ctx
     \<and> verdict e g t input ctx \<noteq> Some BDeny \<and> \<not> touches_protected e t input ctx
     \<and> \<not> mode_refuses t input (ctx_mode ctx) (self_allows t input ctx \<and> t_self_allow_overrides_mode t)
           (verdict e g t input ctx)
     \<and> (verdict e g t input ctx \<noteq> Some BAsk \<or> ctx_mode ctx = BypassPermissions)
     \<and> ((self_allows t input ctx \<and> \<not> touches_config e t input ctx)
        \<or> verdict e g t input ctx = Some BAllow \<or> mode_grants g t input (ctx_mode ctx))"
  (is "_ \<longleftrightarrow> ?pre \<and> ?den \<and> ?nd \<and> ?np \<and> ?nr \<and> ?ask \<and> ?g")
proof (cases "?pre \<and> ?den \<and> ?nd \<and> ?np \<and> ?nr \<and> ?ask")
  case True
  then have "gate_allows e g t input ctx \<longleftrightarrow>
      is_allow (grant e g t input ctx (self_allows t input ctx)
        (case rule_hit_for e (g_rules g) t input ctx of HAllow r \<Rightarrow> Some r | _ \<Rightarrow> None))"
    using gate_check_granted [of t input ctx e g] unfolding gate_allows_def by simp
  also have "\<dots> \<longleftrightarrow> ?g"
    unfolding is_allow_grant by (auto simp: verdict_def split: rule_hit.splits)
  finally show ?thesis using True by blast
next
  case False
  then show ?thesis
    using gate_check_refused [of t input ctx e g] gate_check_asked [of t input ctx e g] by blast
qed


section \<open>Properties\<close>

definition sample_tool :: tool where
  "sample_tool = \<lparr>t_name = ''Write'', t_prompt = [], t_validate_input = (\<lambda>_ _. VOk),
     t_check_permissions = (\<lambda>_ _. TAllow None), t_permission_match_content = (\<lambda>input. get_str input ''file_path''),
     t_permission_content_kind = WritePath, t_is_read_only = (\<lambda>_. False), t_self_allow_overrides_mode = False\<rparr>"

definition sample_ctx :: "permission_mode \<Rightarrow> tool_context" where
  "sample_ctx m = \<lparr>ctx_cwd = [RootDir, Normal ''proj''], ctx_mode = m, ctx_session_id = ''s'',
     ctx_sandbox = default_sandbox\<rparr>"

definition write_to :: "string \<Rightarrow> json" where
  "write_to p = JObject [(''file_path'', JString p)]"

text \<open>C1. Exactly which calls the gate lets through: the input is valid, the tool does not deny
  itself, no rule denies, no checked text is protected, the mode does not refuse, an ask rule is moot,
  and then the tool's own word, an allow rule or the mode grants it.\<close>
theorem gate_allows_iff:
  "gate_allows e g t input ctx =
     (t_validate_input t input ctx = VOk \<and> \<not> self_denies t input ctx
      \<and> verdict e g t input ctx \<noteq> Some BDeny \<and> \<not> touches_protected e t input ctx
      \<and> \<not> mode_refuses t input (ctx_mode ctx) (self_allows t input ctx \<and> t_self_allow_overrides_mode t)
            (verdict e g t input ctx)
      \<and> (ctx_mode ctx = BypassPermissions \<or> verdict e g t input ctx \<in> {None, Some BAllow})
      \<and> (self_allows t input ctx \<and> \<not> touches_config e t input ctx
         \<or> verdict e g t input ctx = Some BAllow \<or> mode_grants g t input (ctx_mode ctx)))"
proof -
  have "v \<noteq> Some BDeny \<Longrightarrow> v \<noteq> Some BAsk \<longleftrightarrow> v \<in> {None, Some BAllow}" for v
    by (cases v; cases "the v") auto
  then show ?thesis unfolding allows_iff by blast
qed

text \<open>C2. A deny rule is a hard edge: when the engine's verdict is deny, no mode, no allow of the
  tool's own and no classifier lets the call through, and nobody is asked.\<close>
theorem deny_rule_is_final:
  assumes "rule_hit_for e (g_rules g) t input ctx = HDeny r"
  shows "\<not> gate_allows e g t input ctx \<and> \<not> gate_asks e g t input ctx"
  by (rule gate_check_refused) (simp add: verdict_def assms)

lemma deny_rule_is_final_witness:
  "\<not> gate_allows no_globs (gate_new
      [\<lparr>rule_source = Plugin, rule_behavior = BDeny, tool_name = ''Edit'', rule_content = None\<rparr>])
      sample_tool (write_to ''a.txt'') (sample_ctx BypassPermissions)"
proof -
  let ?r = "\<lparr>rule_source = Plugin, rule_behavior = BDeny, tool_name = ''Edit'', rule_content = None\<rparr>"
  have "rule_hit_for no_globs (g_rules (gate_new [?r])) sample_tool (write_to ''a.txt'') (sample_ctx BypassPermissions)
      = HDeny ?r"
    by (simp add: rule_hit_for_def resolved_for_def gate_new_def sample_tool_def path_rule_group_def
        write_to_def get_str_def evaluate_path_def resolved_path_new_def no_globs_def expand_home_def
        strip_prefix_def decide_def decide_step_def path_matcher_def hit_of_def)
  then show ?thesis by (rule deny_rule_is_final [THEN conjunct1])
qed

text \<open>C3. Protected paths hold in every mode: a call one of whose texts names a credential directory,
  a system secret or a destructive command is denied without a question, allow rules and the
  tool's own allow notwithstanding.\<close>
theorem protected_path_is_final:
  assumes "s \<in> set (checked_strings e t input ctx)" "is_path_bypass_immune s"
  shows "\<not> gate_allows e g t input ctx \<and> \<not> gate_asks e g t input ctx"
  by (rule gate_check_refused) (use assms in \<open>auto simp: touches_protected_def list_ex_iff\<close>)

lemma ssh_is_immune: "is_path_bypass_immune ''/home/u/.ssh/id_rsa''"
  by code_simp

lemma protected_path_is_final_witness:
  "\<not> gate_allows no_globs (gate_new []) sample_tool (write_to ''/home/u/.ssh/id_rsa'') (sample_ctx BypassPermissions)"
  using protected_path_is_final [of "''/home/u/.ssh/id_rsa''" no_globs sample_tool "write_to ''/home/u/.ssh/id_rsa''"]
  by (simp add: ssh_is_immune checked_strings_def sample_tool_def write_to_def get_str_def)

text \<open>A component match is a match on the whole component: a path under a directory whose name,
  in any letter case, is one of the protected ones is protected, at any depth.\<close>
theorem protected_component:
  assumes "a \<in> {[], ''/''} \<or> (\<exists>b. a = b @ ''/'')" "c = [] \<or> (\<exists>d. c = ''/'' @ d)" "a @ c \<noteq> []"
    and "to_lowercase n \<in> set BYPASS_IMMUNE_COMPONENTS"
  shows "is_path_bypass_immune (a @ n @ c)"
proof -
  let ?L = to_lowercase
  have slash: "lower_char (CHR ''/'') = CHR ''/''"
    by (simp add: lower_char_def is_ascii_upper_def char_code_def)
  have no_slash: "CHR ''/'' \<notin> set (?L n)"
    using assms(4) by (auto simp: BYPASS_IMMUNE_COMPONENTS_def)
  have tail: "?L n \<in> set (split_char (CHR ''/'') (?L n @ ?L c))"
    using assms(2) no_slash slash
    by (auto simp: split_char_plain split_char_append to_lowercase_def)
  have "?L n \<in> set (split_char (CHR ''/'') (?L a @ ?L n @ ?L c))"
    using assms(1)
  proof
    assume "\<exists>b. a = b @ ''/''"
    then obtain b where "a = b @ ''/''" by blast
    then have "?L a @ ?L n @ ?L c = ?L b @ CHR ''/'' # ?L n @ ?L c"
      using slash by (simp add: to_lowercase_def)
    then show ?thesis using tail by (simp add: split_char_mid)
  qed (use tail slash in \<open>auto simp: to_lowercase_def\<close>)
  moreover have "CHR ''/'' \<in> set (?L (a @ n @ c))"
    using assms(1-3) slash by (auto simp: to_lowercase_def image_iff)
  ultimately show ?thesis
    using assms(4) unfolding is_path_bypass_immune_def Let_def
    by (auto simp: to_lowercase_def list_ex_iff)
qed

lemma protected_component_witness: "is_path_bypass_immune (''/srv/'' @ ''.AWS'' @ ''/credentials'')"
  by (rule protected_component) (simp_all, code_simp)

text \<open>A call that touches agent or repository configuration is never granted by the tool's own
  allow: in Default mode without an allow rule it is not let through silently.\<close>
theorem config_needs_confirmation:
  assumes "s \<in> set (checked_strings e t input ctx)" "is_path_confirmation_required s"
    and "ctx_mode ctx = Default" "verdict e g t input ctx \<noteq> Some BAllow"
  shows "\<not> gate_allows e g t input ctx"
  using assms by (auto simp: allows_iff mode_grants_def touches_config_def list_ex_iff)

lemma config_needs_confirmation_witness:
  "\<not> gate_allows no_globs (gate_new []) sample_tool (write_to ''.claude/settings.json'') (sample_ctx Default)"
proof (rule config_needs_confirmation [where s = "''.claude/settings.json''"])
  show "is_path_confirmation_required ''.claude/settings.json''" by code_simp
qed (simp_all add: checked_strings_def sample_tool_def write_to_def get_str_def sample_ctx_def verdict_def
      rule_hit_for_def gate_new_def resolved_for_def path_rule_group_def evaluate_path_kind Let_def
      decide_def strongest_def image_iff)

text \<open>DontAsk never asks, and lets a call through only on an allow rule or for a tool whose own
  allow is declared to override modes.\<close>
theorem dont_ask_never_asks:
  assumes "ctx_mode ctx = DontAsk"
  shows "\<not> gate_asks e g t input ctx \<and>
    (gate_allows e g t input ctx \<longrightarrow>
      verdict e g t input ctx = Some BAllow \<or> self_allows t input ctx \<and> t_self_allow_overrides_mode t)"
proof
  show "\<not> gate_asks e g t input ctx"
    using assms is_ask_mode_dispatch [of DontAsk g t input]
    by (auto simp: gate_asks_def gate_check_def grant_def Let_def
        split: validation_result.splits tool_decision.splits rule_hit.splits option.splits)
qed (use assms in \<open>auto simp: allows_iff mode_refuses_def\<close>)

lemma dont_ask_never_asks_witness:
  "\<not> gate_asks no_globs (gate_new []) sample_tool (write_to ''a'') (sample_ctx DontAsk)"
  using dont_ask_never_asks [of "sample_ctx DontAsk"] by (simp add: sample_ctx_def)

text \<open>BypassPermissions is the most permissive mode: what the gate lets through in any mode it
  lets through there, for tools whose own judgement does not look at the mode.\<close>
theorem bypass_is_most_permissive:
  assumes "gate_allows e g t input (ctx\<lparr>ctx_mode := m\<rparr>)"
    and "\<And>m'. t_validate_input t input (ctx\<lparr>ctx_mode := m'\<rparr>) = t_validate_input t input ctx"
    and "\<And>m'. t_check_permissions t input (ctx\<lparr>ctx_mode := m'\<rparr>) = t_check_permissions t input ctx"
  shows "gate_allows e g t input (ctx\<lparr>ctx_mode := BypassPermissions\<rparr>)"
proof -
  have same: "resolved_for e t input (ctx\<lparr>ctx_mode := m'\<rparr>) = resolved_for e t input ctx"
    "rule_hit_for e (g_rules g) t input (ctx\<lparr>ctx_mode := m'\<rparr>) = rule_hit_for e (g_rules g) t input ctx"
    "checked_strings e t input (ctx\<lparr>ctx_mode := m'\<rparr>) = checked_strings e t input ctx" for m'
    by (simp_all add: resolved_for_def rule_hit_for_def checked_strings_def cong: option.case_cong)
  show ?thesis
    using assms(1)
    by (simp add: allows_iff assms(2,3) same verdict_def touches_protected_def self_denies_def
        mode_refuses_def mode_grants_def)
qed

lemma bypass_is_most_permissive_witness:
  "gate_allows no_globs (gate_new []) sample_tool (JObject []) ((sample_ctx Default)\<lparr>ctx_mode := BypassPermissions\<rparr>)"
proof (rule bypass_is_most_permissive [where m = Default])
  show "gate_allows no_globs (gate_new []) sample_tool (JObject []) ((sample_ctx Default)\<lparr>ctx_mode := Default\<rparr>)"
    by (simp add: allows_iff sample_tool_def sample_ctx_def self_denies_def self_allows_def verdict_def
        rule_hit_for_def resolved_for_def path_rule_group_def get_str_def gate_new_def evaluate_def
        decide_def touches_protected_def touches_config_def checked_strings_def mode_refuses_def)
qed (simp_all add: sample_tool_def)


section \<open>How the modes compare\<close>

text \<open>A tool with no opinion of its own, and one whose allow overrides modes.\<close>

definition quiet_tool :: tool where
  "quiet_tool = sample_tool\<lparr>t_name := ''Read'', t_check_permissions := (\<lambda>_ _. TAsk [] None),
     t_permission_match_content := (\<lambda>_. None), t_permission_content_kind := Opaque\<rparr>"

definition allow_read :: "permission_rule list" where
  "allow_read = [\<lparr>rule_source = UserSettings, rule_behavior = BAllow, tool_name = ''Read'', rule_content = None\<rparr>]"

lemma quiet_verdict:
  "verdict e g (quiet_tool\<lparr>t_is_read_only := ro\<rparr>) input ctx =
     verdict_of (rule_behavior ` matching (content_matcher e ''Read'' None) (g_rules g))"
  by (simp add: verdict_def rule_hit_for_def quiet_tool_def resolved_for_def path_rule_group_def
      evaluate_def decide_kind)

lemma quiet_checked: "checked_strings e (quiet_tool\<lparr>t_is_read_only := ro\<rparr>) input ctx = []"
  by (simp add: checked_strings_def quiet_tool_def resolved_for_def path_rule_group_def)

lemma quiet_allows:
  "gate_allows e (gate_new rules) (quiet_tool\<lparr>t_is_read_only := ro\<rparr>) input (sample_ctx m) \<longleftrightarrow>
     (let v = verdict_of (rule_behavior ` matching (content_matcher e ''Read'' None) rules)
      in v \<noteq> Some BDeny \<and> \<not> (m = Plan \<and> \<not> ro input) \<and> \<not> (m = DontAsk \<and> v \<noteq> Some BAllow)
         \<and> (v \<noteq> Some BAsk \<or> m = BypassPermissions)
         \<and> (v = Some BAllow \<or> m = BypassPermissions \<or> m \<in> {AcceptEdits, Plan} \<and> ro input))"
  unfolding allows_iff quiet_verdict touches_protected_def quiet_checked
  by (cases m) (auto simp: quiet_tool_def sample_tool_def self_denies_def self_allows_def
      mode_refuses_def mode_grants_def sample_ctx_def gate_new_def Let_def classifier_allows_def)

text \<open>Clamping a mode to the stricter of two does not always tighten: under \<open>Plan\<close> a write with
  an allow rule is refused, and under the mode \<open>min_permissive\<close> picks between \<open>Plan\<close> and \<open>DontAsk\<close>
  it is let through.\<close>
theorem clamp_can_loosen:
  "\<not> gate_allows e (gate_new allow_read) (quiet_tool\<lparr>t_is_read_only := \<lambda>_. False\<rparr>) input (sample_ctx Plan) \<and>
   gate_allows e (gate_new allow_read) (quiet_tool\<lparr>t_is_read_only := \<lambda>_. False\<rparr>) input
     (sample_ctx (min_permissive DontAsk Plan))"
proof -
  have "matching (content_matcher e ''Read'' None) allow_read = set allow_read"
    by (auto simp: matching_def allow_read_def content_matcher_def matches_tool_name_def)
  then have "verdict_of (rule_behavior ` matching (content_matcher e ''Read'' None) allow_read) = Some BAllow"
    by (simp add: allow_read_def verdict_of_def)
  then show ?thesis
    unfolding quiet_allows by (simp add: min_permissive_def)
qed

text \<open>The refusal the source calls unreachable is reached: a tool that overrides modes, touching a
  configuration directory under \<open>DontAsk\<close> with no allow rule, passes the mode check and is refused by
  the last step.\<close>
theorem last_dont_ask_arm_is_reached:
  "gate_check no_globs (gate_new []) (sample_tool\<lparr>t_self_allow_overrides_mode := True\<rparr>)
     (write_to ''.git/config'') (sample_ctx DontAsk) =
   Inr (mode_dispatch (gate_new []) (sample_tool\<lparr>t_self_allow_overrides_mode := True\<rparr>)
          (write_to ''.git/config'') DontAsk)"
proof -
  let ?t = "sample_tool\<lparr>t_self_allow_overrides_mode := True\<rparr>" and ?i = "write_to ''.git/config''"
  let ?c = "sample_ctx DontAsk"
  have strings: "checked_strings no_globs ?t ?i ?c = [''.git/config'', ''/proj/.git/config'']"
    by code_simp
  have imm: "\<not> is_path_bypass_immune ''.git/config''" "\<not> is_path_bypass_immune ''/proj/.git/config''"
    "is_path_confirmation_required ''.git/config''"
    by code_simp+
  have hit: "rule_hit_for no_globs (g_rules (gate_new [])) ?t ?i ?c = HNone"
  proof -
    have "kind (rule_hit_for no_globs (g_rules (gate_new [])) ?t ?i ?c) = None"
      by (simp add: rule_hit_for_def sample_tool_def resolved_for_def path_rule_group_def write_to_def
          get_str_def gate_new_def evaluate_path_kind Let_def decide_def strongest_def image_iff)
    then show ?thesis by (simp add: kind_cases)
  qed
  have "gate_check no_globs (gate_new []) ?t ?i ?c = Inr (grant no_globs (gate_new []) ?t ?i ?c True None)"
    using gate_check_granted [of ?t ?i ?c no_globs "gate_new []"] strings imm hit
    by (simp add: self_denies_def self_allows_def verdict_def touches_protected_def mode_refuses_def
        sample_tool_def)
  also have "grant no_globs (gate_new []) ?t ?i ?c True None = mode_dispatch (gate_new []) ?t ?i DontAsk"
    using strings imm by (simp add: grant_def sample_ctx_def)
  finally show ?thesis .
qed

text \<open>The protected-path test misses two texts it is meant for: a credential directory that is the
  last component of an argument followed by another argument, and a destructive command after an
  earlier, harmless occurrence of the same words.\<close>
theorem protected_path_gaps:
  "\<not> is_path_bypass_immune ''cp -r ~/.ssh /tmp'' \<and>
   \<not> is_path_bypass_immune ''echo norm -rf /; rm -rf /''"
  by code_simp

section \<open>The denial counters\<close>

datatype gate_event = Denial | Success

fun gate_event_step :: "gate \<Rightarrow> gate_event \<Rightarrow> gate" where
  "gate_event_step g Denial = record_denial g"
| "gate_event_step g Success = record_success g"

definition run_events :: "gate \<Rightarrow> gate_event list \<Rightarrow> gate" where
  "run_events g evs = foldl gate_event_step g evs"

definition trailing_denials :: "gate_event list \<Rightarrow> nat" where
  "trailing_denials evs = length (takeWhile (\<lambda>ev. ev = Denial) (rev evs))"

lemma trailing_le: "trailing_denials evs \<le> length evs"
  by (metis length_rev length_takeWhile_le trailing_denials_def)

lemma counters:
  "denial_count (run_events (gate_new rules) evs) = of_nat (trailing_denials evs) \<and>
   total_denial_count (run_events (gate_new rules) evs) = of_nat (count_list evs Denial)"
proof (induction evs rule: rev_induct)
  case Nil
  show ?case by (simp add: run_events_def gate_new_def trailing_denials_def)
next
  case (snoc ev evs)
  then show ?case
    by (cases ev) (simp_all add: run_events_def record_denial_def record_success_def trailing_denials_def)
qed

lemma word_le_of_nat:
  assumes "n < 2 ^ 64" "k < 2 ^ 64"
  shows "(of_nat k :: 64 word) \<le> of_nat n \<longleftrightarrow> k \<le> n"
  using assms by (simp add: word_le_nat_alt unat_of_nat)

text \<open>After any run of denials and successes, of a length the counters can hold, the gate falls
  back to prompting exactly when the last three calls were denials or twenty were in all; the
  second count is never reset.\<close>
theorem fallback_iff:
  assumes "length evs < 2 ^ 64"
  shows "should_fallback_to_prompting (run_events (gate_new rules) evs) =
     (3 \<le> trailing_denials evs \<or> 20 \<le> count_list evs Denial)"
proof -
  have "trailing_denials evs < 2 ^ 64" "count_list evs Denial < 2 ^ 64"
    using assms trailing_le [of evs] count_le_length [of evs Denial] by linarith+
  then show ?thesis
    using word_le_of_nat [of "trailing_denials evs" 3] word_le_of_nat [of "count_list evs Denial" 20]
    by (simp add: should_fallback_to_prompting_def counters)
qed

lemma fallback_iff_witness:
  "should_fallback_to_prompting (run_events (gate_new []) [Denial, Success, Denial, Denial, Denial])"
  using fallback_iff [of "[Denial, Success, Denial, Denial, Denial]" "[]"]
  by (simp add: trailing_denials_def)

end
