(* ===== verification/Handler.thy ===== *)
theory Handler
  imports GateProps
begin

text \<open>
  Who asks the gate: \<open>RuleSetPermission\<close> (\<open>rule_set_permission.rs\<close>), the implementation of the
  \<open>Permission\<close> trait of \<open>core/src/interface/permission.rs\<close>, and the two classifiers,
  \<open>YoloClassifier\<close> (\<open>yolo.rs\<close>) and \<open>LlmClassifier\<close> (\<open>llm_classifier.rs\<close>).  The trait's promises
  about temporary and persistent grants are the locale \<open>allow_grants\<close>.  The model behind the LLM
  classifier, the hash and the JSON codec are parameters.
\<close>

section \<open>The handler\<close>

datatype outcome = Permit | Refuse string | Prompt string string

type_synonym registry = "(string \<times> tool) list"

record handler =
  h_gate :: gate
  h_tools :: registry
  h_session :: "permission_mode option"
  h_mode :: permission_mode
  h_sandbox :: sandbox_settings

definition handler_new :: "gate \<Rightarrow> registry \<Rightarrow> permission_mode \<Rightarrow> handler" where
  "handler_new g tools mode = \<lparr>h_gate = g, h_tools = tools, h_session = None, h_mode = mode, h_sandbox = default_sandbox\<rparr>"

definition with_sandbox :: "handler \<Rightarrow> sandbox_settings \<Rightarrow> handler" where
  "with_sandbox h sandbox = h\<lparr>h_sandbox := sandbox\<rparr>"

text \<open>\<open>from_settings\<close>: both tiers of the settings file, then the caller's rules; the sandbox section
  of the settings without a state root.\<close>

definition handler_from_settings ::
  "settings_rule list \<Rightarrow> settings_rule list \<Rightarrow> sandbox_settings \<Rightarrow> permission_mode \<Rightarrow> registry \<Rightarrow>
   permission_rule list \<Rightarrow> handler" where
  "handler_from_settings global_rules local_rules sandbox mode tools extra =
     with_sandbox
       (handler_new (gate_new (rules_from_all_tiers global_rules local_rules @ extra)) tools mode)
       (sandbox\<lparr>sb_state_root := None\<rparr>)"

definition gate_error_str :: "gate_error \<Rightarrow> string" where
  "gate_error_str err =
     (case err of InvalidInput message code \<Rightarrow>
        ''invalid input: '' @ message @ '' (code ''
        @ (if code < 0 then ''-'' @ show_nat (nat (- code)) else show_nat (nat code)) @ '')'')"

text \<open>\<open>check\<close>; the prompt id is a fresh identifier handed in.\<close>

definition handler_check ::
  "env \<Rightarrow> handler \<Rightarrow> string \<Rightarrow> string \<Rightarrow> json \<Rightarrow> path \<Rightarrow> string \<Rightarrow> outcome" where
  "handler_check e h fresh name input cwd session_id =
     (case map_of (h_tools h) name of
        None \<Rightarrow>
          Prompt fresh ([backtick] @ name @ [backtick] @ '' is not registered in this session'' @ [squote]
            @ ''s permission registry. It is either an unknown tool, or a tool that reached dispatch without ''
            @ ''being registered for permission checks '' @ em_dash @ '' approve only if you expected it.'')
      | Some t \<Rightarrow>
          (let mode = (case h_session h of Some live \<Rightarrow> live | None \<Rightarrow> h_mode h);
               ctx = \<lparr>ctx_cwd = cwd, ctx_mode = mode, ctx_session_id = session_id,
                     ctx_sandbox = h_sandbox h\<rparr>
           in case gate_check e (h_gate h) t input ctx of
                Inr (PAllow _ _) \<Rightarrow> Permit
              | Inr (PDeny message _) \<Rightarrow> Refuse message
              | Inr (PAsk message _) \<Rightarrow> Prompt fresh message
              | Inl err \<Rightarrow> Refuse (''permission check error: '' @ gate_error_str err)))"

definition bind_tool_registry :: "handler \<Rightarrow> registry \<Rightarrow> handler" where
  "bind_tool_registry h tools = h\<lparr>h_tools := tools\<rparr>"

definition bind_session_state :: "handler \<Rightarrow> permission_mode \<Rightarrow> handler" where
  "bind_session_state h live = h\<lparr>h_session := Some live\<rparr>"

definition add_temporary_allow :: "handler \<Rightarrow> string \<Rightarrow> string option \<Rightarrow> handler" where
  "add_temporary_allow h name content =
     h\<lparr>h_gate := gate_add_rules (h_gate h)
        [\<lparr>rule_source = Command, rule_behavior = BAllow, tool_name = name, rule_content = content\<rparr>]\<rparr>"

definition clear_temporary_allows :: "handler \<Rightarrow> handler" where
  "clear_temporary_allows h = h\<lparr>h_gate := remove_rules_by_source (h_gate h) Command\<rparr>"

definition add_persistent_allow :: "handler \<Rightarrow> string \<Rightarrow> string option \<Rightarrow> handler" where
  "add_persistent_allow h name content =
     h\<lparr>h_gate := gate_add_rules (h_gate h)
        [\<lparr>rule_source = Session, rule_behavior = BAllow, tool_name = name, rule_content = content\<rparr>]\<rparr>"

section \<open>The grants of the trait\<close>

text \<open>What the trait promises its callers: clearing removes every temporary grant and nothing else, so
  it may be done at any time, and a persistent grant is not cleared.\<close>

datatype grant_op = Temporary string "string option" | Persistent string "string option" | Clear

fun apply_grant ::
  "('h \<Rightarrow> string \<Rightarrow> string option \<Rightarrow> 'h) \<Rightarrow> ('h \<Rightarrow> 'h) \<Rightarrow> ('h \<Rightarrow> string \<Rightarrow> string option \<Rightarrow> 'h) \<Rightarrow>
   'h \<Rightarrow> grant_op \<Rightarrow> 'h" where
  "apply_grant add_temp clear add_persistent h (Temporary n c) = add_temp h n c"
| "apply_grant add_temp clear add_persistent h (Persistent n c) = add_persistent h n c"
| "apply_grant add_temp clear add_persistent h Clear = clear h"

fun keep_grant :: "('h \<Rightarrow> string \<Rightarrow> string option \<Rightarrow> 'h) \<Rightarrow> 'h \<Rightarrow> grant_op \<Rightarrow> 'h" where
  "keep_grant add_persistent h (Persistent n c) = add_persistent h n c"
| "keep_grant add_persistent h _ = h"

locale allow_grants =
  fixes add_temp :: "'h \<Rightarrow> string \<Rightarrow> string option \<Rightarrow> 'h"
    and clear :: "'h \<Rightarrow> 'h"
    and add_persistent :: "'h \<Rightarrow> string \<Rightarrow> string option \<Rightarrow> 'h"
  assumes clear_temp: "clear (add_temp h n c) = clear h"
    and clear_persistent: "clear (add_persistent h n c) = add_persistent (clear h) n c"
    and clear_clear: "clear (clear h) = clear h"
begin

lemma only_persistent_survives:
  "clear (foldl (apply_grant add_temp clear add_persistent) h ops) =
     foldl (keep_grant add_persistent) (clear h) ops"
proof (induction ops arbitrary: h)
  case (Cons op ops)
  then show ?case
    by (cases op) (simp_all add: clear_temp clear_persistent clear_clear)
qed simp

end

interpretation handler_grants: allow_grants add_temporary_allow clear_temporary_allows add_persistent_allow
  by unfold_locales
     (simp_all add: add_temporary_allow_def clear_temporary_allows_def add_persistent_allow_def
       gate_add_rules_def remove_rules_by_source_def ruleset_extend_def remove_by_source_def)

section \<open>The Yolo classifier\<close>

definition safe_patterns :: "string list" where
  "safe_patterns =
     [''git '', ''cargo '', ''npm '', ''yarn '', ''pnpm '', ''bun '', ''ls'', ''cat '', ''echo '', ''head '',
      ''tail '', ''wc '', ''pwd'', ''whoami'', ''uname'', ''date'', ''which '', ''type '', ''mkdir -p'',
      ''cp '', ''mv '', ''touch '', ''chmod +x'', ''rustc'', ''python'', ''python3'', ''node '', ''deno '',
      ''make '', ''cmake'', ''go '', ''cargo test'', ''npm test'', ''docker '', ''docker-compose'']"

definition destructive_patterns :: "string list" where
  "destructive_patterns =
     [''rm '', ''rmdir '', ''dd '', ''mkfs'', ''fdisk'', ''parted'', ''chmod 0'', ''chown '', ''kill '',
      ''pkill '', ''sudo '', ''passwd'', ''shutdown'', ''reboot'', ''init '', ''> /dev/'', ''> /etc/'',
      '':(){ :|:& };:'', ''wget '', ''curl -'', ''curl --'', ''chattr'']"

text \<open>The first key that is present decides, also when its value is not a string.\<close>

definition first_str :: "json \<Rightarrow> string list \<Rightarrow> string" where
  "first_str input keys =
     (case List.find (\<lambda>k. json_get input k \<noteq> None) keys of
        None \<Rightarrow> []
      | Some k \<Rightarrow> (case get_str input k of Some s \<Rightarrow> s | None \<Rightarrow> []))"

definition yolo_bash :: "string \<Rightarrow> classify_decision" where
  "yolo_bash cmd =
     (let trimmed = trim cmd in
      if trimmed = [] \<or> utf8_len trimmed < 3 then ClassifyAllow ''yolo: trivial command''
      else if list_ex (\<lambda>p. prefix p trimmed) safe_patterns then ClassifyAllow ''yolo: safe command pattern''
      else if list_ex (\<lambda>p. contains_str trimmed p) destructive_patterns then ClassifyDefer
      else ClassifyAllow ''yolo: bash command'')"

definition yolo_write :: "string \<Rightarrow> classify_decision" where
  "yolo_write p =
     (if \<not> prefix ''/'' p \<and> \<not> contains_str p ''..'' then ClassifyAllow ''yolo: in-project file write''
      else if prefix ''/tmp'' p \<or> prefix ''/var/tmp'' p then ClassifyAllow ''yolo: temp directory write''
      else ClassifyDefer)"

definition yolo_classify :: classifier where
  "yolo_classify name description input =
     (if name \<in> set [''Read'', ''Grep'', ''Glob'', ''ListFiles'', ''Search''] then
        ClassifyAllow ''yolo: read-only operation''
      else if name \<in> set [''WebSearch'', ''WebFetch'', ''Fetch'', ''Http''] then
        ClassifyAllow ''yolo: network fetch always allowed''
      else if name \<in> set [''Bash'', ''PowerShell'', ''Shell''] then
        yolo_bash (first_str input [''command'', ''cmd'', ''script''])
      else if name \<in> set [''Edit'', ''Write'', ''NotebookEdit'', ''FileWrite'', ''FileEdit''] then
        yolo_write (first_str input [''file_path'', ''path'', ''target_file'', ''filename''])
      else ClassifyDefer)"

section \<open>The LLM classifier\<close>

text \<open>\<open>str::replace\<close> for a non-empty pattern.\<close>

function replace_all :: "string \<Rightarrow> string \<Rightarrow> string \<Rightarrow> string" where
  "replace_all pat rep s =
     (if s = [] \<or> pat = [] then s
      else if prefix pat s then rep @ replace_all pat rep (drop (length pat) s)
      else hd s # replace_all pat rep (tl s))"
  by pat_completeness auto
termination
  by (relation "measure (\<lambda>(p, r, s). length s)") auto

declare replace_all.simps [simp del]

datatype model_event = TextDelta string | TextBlockStart string | EndTurn | StreamError | OtherEvent

record cache_entry =
  ce_decision :: classify_decision
  ce_expires_at :: nat

record llm_classifier =
  l_enabled :: bool
  l_cache :: "(string \<times> cache_entry) list"

text \<open>The services it calls: the hash of a text in hex, the compact and the pretty JSON printer, the
  JSON parser, the working directory, and the model, which answers a prompt with a stream of
  events or fails.\<close>

record services =
  sv_sha256_hex :: "string \<Rightarrow> string"
  sv_to_string :: "json \<Rightarrow> string"
  sv_to_string_pretty :: "json \<Rightarrow> string"
  sv_from_str :: "string \<Rightarrow> json option"
  sv_cwd :: string
  sv_template :: string
  sv_stream :: "string \<Rightarrow> model_event list option"

definition CACHE_TTL_SECS :: nat where
  "CACHE_TTL_SECS = 300"

definition MAX_CACHE_ENTRIES :: nat where
  "MAX_CACHE_ENTRIES = 1000"

definition cache_key :: "services \<Rightarrow> string \<Rightarrow> json \<Rightarrow> string" where
  "cache_key sv name input = sv_sha256_hex sv (name @ '':'' @ sv_to_string sv input)"

definition get_cached :: "llm_classifier \<Rightarrow> nat \<Rightarrow> string \<Rightarrow> classify_decision option" where
  "get_cached l now key =
     (case map_of (l_cache l) key of
        None \<Rightarrow> None
      | Some entry \<Rightarrow> (if now < ce_expires_at entry then Some (ce_decision entry) else None))"

text \<open>\<open>HashMap::insert\<close>: one entry per key.\<close>

definition cache_insert :: "(string \<times> cache_entry) list \<Rightarrow> string \<Rightarrow> cache_entry \<Rightarrow> (string \<times> cache_entry) list" where
  "cache_insert cache key entry = (key, entry) # filter (\<lambda>(k, _). k \<noteq> key) cache"

definition set_cache :: "llm_classifier \<Rightarrow> nat \<Rightarrow> string \<Rightarrow> classify_decision \<Rightarrow> llm_classifier" where
  "set_cache l now key decision =
     (let cache0 = l_cache l;
          live = filter (\<lambda>(_, ce). now < ce_expires_at ce) cache0;
          cache1 = (if MAX_CACHE_ENTRIES \<le> length cache0 then
                      (if MAX_CACHE_ENTRIES \<le> length live then [] else live)
                    else cache0)
      in l\<lparr>l_cache := cache_insert cache1 key
            \<lparr>ce_decision = decision, ce_expires_at = now + CACHE_TTL_SECS\<rparr>\<rparr>)"

text \<open>The outermost braces of a reply.\<close>

definition rfind_char_at :: "char \<Rightarrow> string \<Rightarrow> nat option" where
  "rfind_char_at c s = map_option (\<lambda>i. length s - 1 - i) (find_char_at c (rev s))"

definition extract_json :: "services \<Rightarrow> string \<Rightarrow> json option" where
  "extract_json sv s =
     (case (find_char_at (CHR ''{'') s, rfind_char_at (CHR ''}'') s) of
        (Some start, Some fin) \<Rightarrow>
          (if fin \<le> start then None else sv_from_str sv (Prelude.slice s start (fin + 1)))
      | _ \<Rightarrow> None)"

definition or_default :: "string \<Rightarrow> string \<Rightarrow> string" where
  "or_default s d = (if s = [] then d else s)"

definition str_or :: "json \<Rightarrow> string \<Rightarrow> string \<Rightarrow> string" where
  "str_or v k d = (case get_str v k of Some s \<Rightarrow> s | None \<Rightarrow> d)"

definition parse_decision :: "json \<Rightarrow> classify_decision" where
  "parse_decision v =
     (let decision = str_or v ''decision'' ''DEFER'';
          reason = str_or v ''reason'' []
      in if decision = ''ALLOW'' then ClassifyAllow (or_default reason ''allowed by LLM classifier'')
         else if decision = ''DENY'' then ClassifyDeny (or_default reason ''denied by LLM classifier'')
         else if decision = ''ALLOW_WITH_EDIT'' then
           ClassifyAllowWithEdit (or_default reason ''allowed with suggested edits'')
             (str_or v ''suggested_edits'' [])
         else ClassifyDefer)"

text \<open>The text of a stream: it ends at the end of the turn or at an error, keeping what has arrived.\<close>

fun collect_text :: "model_event list \<Rightarrow> string" where
  "collect_text [] = []"
| "collect_text (TextDelta d # evs) = d @ collect_text evs"
| "collect_text (TextBlockStart t # evs) = t @ collect_text evs"
| "collect_text (EndTurn # evs) = []"
| "collect_text (StreamError # evs) = []"
| "collect_text (OtherEvent # evs) = collect_text evs"

definition classification_prompt :: "services \<Rightarrow> string \<Rightarrow> string \<Rightarrow> json \<Rightarrow> string" where
  "classification_prompt sv name description input =
     replace_all ''{cwd}'' (sv_cwd sv)
       (replace_all ''{tool_input}'' (sv_to_string_pretty sv input)
         (replace_all ''{tool_description}'' description
           (replace_all ''{tool_name}'' name (sv_template sv))))"

definition llm_classify ::
  "services \<Rightarrow> nat \<Rightarrow> llm_classifier \<Rightarrow> string \<Rightarrow> string \<Rightarrow> json \<Rightarrow> classify_decision \<times> llm_classifier" where
  "llm_classify sv now l name description input =
     (if \<not> l_enabled l then (ClassifyDefer, l)
      else (let key = cache_key sv name input in
        case get_cached l now key of
          Some cached \<Rightarrow> (cached, l)
        | None \<Rightarrow>
            (case sv_stream sv (classification_prompt sv name description input) of
               None \<Rightarrow> (ClassifyDefer, l)
             | Some evs \<Rightarrow>
                 (let response = collect_text evs;
                      decision = (if trim response = [] then ClassifyDefer
                                  else case extract_json sv response of
                                         Some v \<Rightarrow> parse_decision v
                                       | None \<Rightarrow> ClassifyDefer)
                  in (decision, set_cache l now key decision)))))"

lemmas handler_defs [kernel_defs] =
  handler_new_def with_sandbox_def handler_from_settings_def handler_check_def bind_tool_registry_def
  bind_session_state_def add_temporary_allow_def clear_temporary_allows_def add_persistent_allow_def
  safe_patterns_def destructive_patterns_def first_str_def yolo_bash_def yolo_write_def
  yolo_classify_def cache_key_def get_cached_def cache_insert_def set_cache_def rfind_char_at_def
  extract_json_def or_default_def str_or_def parse_decision_def classification_prompt_def
  llm_classify_def

section \<open>Properties\<close>

lemma handler_permits_iff:
  "handler_check e h fresh name input cwd sid = Permit \<longleftrightarrow>
     (\<exists>t. map_of (h_tools h) name = Some t \<and>
        gate_allows e (h_gate h) t input
          \<lparr>ctx_cwd = cwd, ctx_mode = (case h_session h of Some live \<Rightarrow> live | None \<Rightarrow> h_mode h), ctx_session_id = sid,
         ctx_sandbox = h_sandbox h\<rparr>)"
  by (simp add: handler_check_def gate_allows_def Let_def
      split: option.splits sum.splits permission_decision.splits)

text \<open>The handler fails closed: it lets a call through only for a tool of the registry it is bound
  to, and only when the gate allows it in the session's live mode.\<close>
theorem handler_fails_closed:
  assumes "handler_check e h fresh name input cwd sid = Permit"
  shows "\<exists>t. map_of (h_tools h) name = Some t \<and>
    gate_allows e (h_gate h) t input
      \<lparr>ctx_cwd = cwd, ctx_mode = (case h_session h of Some live \<Rightarrow> live | None \<Rightarrow> h_mode h), ctx_session_id = sid,
         ctx_sandbox = h_sandbox h\<rparr>"
  using assms handler_permits_iff by blast

lemma handler_fails_closed_witness:
  "\<exists>t. map_of [(''Read'', quiet_tool)] ''Read'' = Some t \<and>
     gate_allows no_globs (gate_new []) t (JObject [])
       \<lparr>ctx_cwd = [RootDir], ctx_mode = BypassPermissions, ctx_session_id = ''s'', ctx_sandbox = default_sandbox\<rparr>"
proof -
  have "handler_check no_globs (handler_new (gate_new []) [(''Read'', quiet_tool)] BypassPermissions)
      ''id'' ''Read'' (JObject []) [RootDir] ''s'' = Permit"
    by (simp add: handler_check_def handler_new_def quiet_tool_def sample_tool_def gate_check_def
        rule_hit_for_def resolved_for_def path_rule_group_def gate_new_def evaluate_def decide_def
        checked_strings_def grant_def mode_dispatch_def allow_by_mode_def)
  from handler_fails_closed [OF this] show ?thesis
    by (simp add: handler_new_def)
qed

text \<open>However a session interleaves temporary grants, persistent grants and clearings, after a
  clearing its rules are those it started with, less earlier temporary ones, and the persistent
  grants in their order.\<close>
theorem grants_after_clear:
  "clear_temporary_allows
     (foldl (apply_grant add_temporary_allow clear_temporary_allows add_persistent_allow) h ops) =
   foldl (keep_grant add_persistent_allow) (clear_temporary_allows h) ops"
  by (rule handler_grants.only_persistent_survives)

text \<open>A temporary grant never overrides a deny rule: whatever grants a skill adds, a call the
  rules denied before is still denied.\<close>
theorem temporary_allow_keeps_denials:
  assumes "kind (evaluate e (g_rules (h_gate h)) name content) = Some BDeny"
  shows "kind (evaluate e (g_rules (h_gate (add_temporary_allow h n c))) name content) = Some BDeny"
  using assms
    content.added_allow [of "\<lparr>rule_source = Command, rule_behavior = BAllow, tool_name = n, rule_content = c\<rparr>"
      e name content "g_rules (h_gate h)"]
  by (auto simp: evaluate_def add_temporary_allow_def gate_add_rules_def ruleset_extend_def)

lemma temporary_allow_keeps_denials_witness:
  "kind (evaluate no_globs (g_rules (h_gate (add_temporary_allow (handler_new (gate_new sample_rules) [] Default)
      ''Bash'' None))) ''Bash'' (Some ''rm -rf x'')) = Some BDeny"
proof (rule temporary_allow_keeps_denials)
  show "kind (evaluate no_globs (g_rules (h_gate (handler_new (gate_new sample_rules) [] Default))) ''Bash''
      (Some ''rm -rf x'')) = Some BDeny"
    by (simp add: handler_new_def gate_new_def sample_hit)
qed

lemma yolo_never_denies: "yolo_classify name d input \<noteq> ClassifyDeny r"
proof -
  have "yolo_bash cmd \<noteq> ClassifyDeny r" for cmd by (simp add: yolo_bash_def Let_def)
  moreover have "yolo_write p \<noteq> ClassifyDeny r" for p by (simp add: yolo_write_def)
  ultimately show ?thesis unfolding yolo_classify_def by simp
qed

text \<open>The Yolo classifier never denies, and for a file tool it lets an absolute path through only
  under a path that starts with \<open>/tmp\<close> or \<open>/var/tmp\<close>.\<close>
theorem yolo_write_scope:
  "yolo_classify name d input \<noteq> ClassifyDeny r \<and>
   yolo_classify ''Write'' d (write_to (CHR ''/'' # p)) =
     (if prefix ''/tmp'' (CHR ''/'' # p) \<or> prefix ''/var/tmp'' (CHR ''/'' # p)
      then ClassifyAllow ''yolo: temp directory write'' else ClassifyDefer)"
  using yolo_never_denies
  by (simp add: yolo_classify_def yolo_write_def first_str_def write_to_def get_str_def)

text \<open>Two calls the classifier's own description defers and its code allows: a destructive command
  behind a safe prefix, and a write that leaves the temporary directory.\<close>
theorem yolo_gaps:
  "yolo_bash ''git status && rm -rf /'' = ClassifyAllow ''yolo: safe command pattern'' \<and>
   yolo_write ''/tmp/../etc/passwd'' = ClassifyAllow ''yolo: temp directory write''"
  by code_simp

lemma length_cache_insert_le: "length (cache_insert c k x) \<le> length c + 1"
  by (simp add: cache_insert_def)

lemma distinct_cache_insert: "distinct (map fst c) \<Longrightarrow> distinct (map fst (cache_insert c k x))"
  by (auto simp: cache_insert_def distinct_map_filter)

definition cache_ok :: "llm_classifier \<Rightarrow> bool" where
  "cache_ok l \<longleftrightarrow> length (l_cache l) \<le> MAX_CACHE_ENTRIES \<and> distinct (map fst (l_cache l))"

lemma set_cache_ok:
  assumes "cache_ok l"
  shows "cache_ok (set_cache l now key d)"
proof -
  have "length c < MAX_CACHE_ENTRIES \<Longrightarrow> length (cache_insert c key x) \<le> MAX_CACHE_ENTRIES" for c x
    using length_cache_insert_le [of c key x] by simp
  moreover have "0 < MAX_CACHE_ENTRIES" by (simp add: MAX_CACHE_ENTRIES_def)
  ultimately show ?thesis
    using assms
    by (auto simp: cache_ok_def set_cache_def Let_def distinct_cache_insert distinct_map_filter)
qed

text \<open>The classifier's cache keeps its bound of 1000 entries and one entry per key, whatever it is
  asked and whenever.\<close>
theorem llm_cache_bounded:
  assumes "cache_ok l"
  shows "cache_ok (snd (llm_classify sv now l name description input))"
  using assms set_cache_ok [OF assms]
  by (auto simp: llm_classify_def Let_def split: option.splits)

definition silent_services :: services where
  "silent_services = \<lparr>sv_sha256_hex = (\<lambda>s. s), sv_to_string = (\<lambda>_. ''{}''), sv_to_string_pretty = (\<lambda>_. ''{}''),
     sv_from_str = (\<lambda>_. Some (JObject [(''decision'', JString ''ALLOW'')])), sv_cwd = ''/'',
     sv_template = ''{tool_name}'', sv_stream = (\<lambda>_. Some [TextDelta ''{}'', EndTurn])\<rparr>"

lemma llm_cache_bounded_witness:
  "cache_ok (snd (llm_classify silent_services 5 \<lparr>l_enabled = True, l_cache = []\<rparr> ''Bash'' [] (JObject [])))"
  by (rule llm_cache_bounded) (simp add: cache_ok_def)

text \<open>A verdict the classifier gave is given again for the same tool and input for five minutes,
  whatever the model would answer by then.\<close>
theorem llm_answer_is_cached:
  assumes "l_enabled l" "get_cached l now (cache_key sv name input) = None"
    and "sv_stream sv (classification_prompt sv name description input) = Some evs"
    and "llm_classify sv now l name description input = (d, l')"
    and "later < now + CACHE_TTL_SECS" "cache_key sv' name input = cache_key sv name input"
  shows "llm_classify sv' later l' name description' input = (d, l')"
  using assms
  by (auto simp: llm_classify_def get_cached_def set_cache_def cache_insert_def Let_def)

lemma llm_answer_is_cached_witness:
  "\<exists>l'. llm_classify (silent_services\<lparr>sv_stream := \<lambda>_. None\<rparr>) 304 l' ''Bash'' [] (JObject []) =
     (ClassifyAllow ''allowed by LLM classifier'', l')"
proof -
  let ?l = "\<lparr>l_enabled = True, l_cache = []\<rparr>"
  have first: "llm_classify silent_services 5 ?l ''Bash'' [] (JObject []) =
      (ClassifyAllow ''allowed by LLM classifier'',
       snd (llm_classify silent_services 5 ?l ''Bash'' [] (JObject [])))"
    by (simp add: llm_classify_def silent_services_def get_cached_def trim_def trim_start_def trim_end_def
        is_whitespace_def whitespace_chars_def extract_json_def rfind_char_at_def parse_decision_def
        str_or_def get_str_def or_default_def Let_def)
  show ?thesis
    by (rule exI, rule llm_answer_is_cached [OF _ _ _ first])
       (simp_all add: silent_services_def get_cached_def CACHE_TTL_SECS_def cache_key_def)
qed

end
