(* ===== verification/Message.thy ===== *)
theory Message
  imports Json "HOL-Library.Word"
begin

text \<open>
  Messages and log lines: \<open>crates/core/src/message.rs\<close> and \<open>crates/history/src/entry.rs\<close>.
  Identifiers are texts, points in time integers, and a floating-point cost is carried as its 64 bits,
  which nothing here looks into.
\<close>

section \<open>Messages\<close>

datatype stop_reason =
  SrEndTurn | SrMaxTokens | SrToolUse | SrStopSequence | SrPauseTurn | SrMaxTurnsReached | SrUnknown

datatype system_kind = SkLocalCommand | SkReminder | SkNotice

datatype image_source = ImageBase64 string string | ImageUrl string

datatype cache_edit = DeleteToolResult string

datatype content_block =
    CbText string "json option"
  | CbImage image_source
  | CbToolUse string string json
  | CbToolResult string tool_result_content bool
  | CbThinking string "string option" "string option"
  | CbRedactedThinking string "string option"
  | CbCacheEdits "cache_edit list"
and tool_result_content =
    TrText string
  | TrBlocks "content_block list"

datatype message =
    MUser "content_block list"
  | MAssistant "content_block list" "stop_reason option" "string option"
  | MSystem string system_kind

fun tool_result_is_empty :: "tool_result_content \<Rightarrow> bool" where
  "tool_result_is_empty (TrText s) = (s = [])"
| "tool_result_is_empty (TrBlocks b) = (b = [])"

section \<open>Log lines\<close>

datatype session_kind = Primary | Sidechain

datatype session_end_state = Completed | Failed

datatype system_subkind = SubLocalCommand | SubReminder | SubNotice

datatype message_origin = OriginUser | OriginSteer | OriginCommand | OriginInjected | OriginToolResult

record usage_record =
  input_tokens :: "64 word"
  output_tokens :: "64 word"
  cache_creation_input_tokens :: "64 word option"
  cache_read_input_tokens :: "64 word option"

record meta =
  meta_cwd :: string
  meta_started_at :: int
  meta_model :: string
  meta_permission_mode :: string
  meta_engine_version :: string
  meta_attacode_version :: string
  meta_parent_session_id :: "string option"
  meta_scene :: "string option"
  meta_project_root :: "string option"
  meta_session_kind :: session_kind
  meta_schema_version :: "32 word"

record compact_line =
  before_tokens :: "64 word"
  after_tokens :: "64 word"
  summary_block_id :: "string option"
  replacement_history :: "message list option"
  summary :: "content_block list option"
  snip_removed_uuids :: "string list option"

record blob_ref =
  blob_store :: string
  blob_id :: string
  blob_describes :: string
  blob_bytes :: "64 word"

record usage_totals =
  total_input :: "64 word"
  total_output :: "64 word"
  total_cache_creation :: "64 word"
  total_cache_read :: "64 word"
  total_cost_usd_bits :: "64 word"

datatype log_entry =
    EMeta meta
  | EUser "content_block list"
  | EAssistant "content_block list" "stop_reason option" "usage_record option" "string option"
  | EToolResult string tool_result_content bool
  | ESystem system_subkind string
  | ECompact compact_line
  | EUsageSnapshot usage_totals
  | EPasteRef string
  | EBlob blob_ref
  | ESessionEnd session_end_state
  | EExtension string string json

record enveloped_entry =
  env_v :: "32 word"
  env_id :: string
  env_ts :: int
  env_session_id :: string
  env_parent_id :: "string option"
  env_is_sidechain :: bool
  env_turn_id :: "string option"
  env_origin :: "message_origin option"
  env_entry :: log_entry

record entry_tags =
  tag_turn_id :: "string option"
  tag_origin :: "message_origin option"

definition CURRENT_SCHEMA_VERSION :: "32 word" where
  "CURRENT_SCHEMA_VERSION = 1"

text \<open>\<open>new_in\<close>: the id and the time come from the environment.\<close>

definition entry_new_in :: "string \<Rightarrow> int \<Rightarrow> string \<Rightarrow> log_entry \<Rightarrow> enveloped_entry" where
  "entry_new_in new_id now session_id entry =
     \<lparr>env_v = CURRENT_SCHEMA_VERSION, env_id = new_id, env_ts = now, env_session_id = session_id,
      env_parent_id = None, env_is_sidechain = False, env_turn_id = None, env_origin = None,
      env_entry = entry\<rparr>"

definition with_tags :: "enveloped_entry \<Rightarrow> entry_tags \<Rightarrow> enveloped_entry" where
  "with_tags e tags = e\<lparr>env_turn_id := tag_turn_id tags, env_origin := tag_origin tags\<rparr>"

definition with_parent :: "enveloped_entry \<Rightarrow> string \<Rightarrow> enveloped_entry" where
  "with_parent e parent_id = e\<lparr>env_parent_id := Some parent_id\<rparr>"

definition as_sidechain :: "enveloped_entry \<Rightarrow> enveloped_entry" where
  "as_sidechain e = e\<lparr>env_is_sidechain := True\<rparr>"

fun entry_kind :: "log_entry \<Rightarrow> string" where
  "entry_kind (EMeta _) = ''meta''"
| "entry_kind (EUser _) = ''user''"
| "entry_kind (EAssistant _ _ _ _) = ''assistant''"
| "entry_kind (EToolResult _ _ _) = ''tool_result''"
| "entry_kind (ESystem _ _) = ''system''"
| "entry_kind (ECompact _) = ''compact''"
| "entry_kind (EUsageSnapshot _) = ''usage_snapshot''"
| "entry_kind (EPasteRef _) = ''paste_ref''"
| "entry_kind (EBlob _) = ''blob''"
| "entry_kind (ESessionEnd _) = ''session_end''"
| "entry_kind (EExtension _ _ _) = ''extension''"

lemmas message_defs [kernel_defs] =
  CURRENT_SCHEMA_VERSION_def entry_new_in_def with_tags_def with_parent_def as_sidechain_def

end
