(* ===== verification/Roots.thy ===== *)
theory Roots
  imports Message
begin

text \<open>
  Names on disk: \<open>crates/core/src/path.rs\<close> (one safe component out of any text) and
  \<open>crates/history/src/path.rs\<close> (where transcripts and sidecars live).  A path is its text, joined
  with a slash; a session id is its printed form.  Resolving symbolic links is the parameter
  \<open>realpath\<close>.
\<close>

section \<open>File-system names\<close>

text \<open>The UTF-8 bytes of a text, as \<open>str::bytes\<close> yields them.\<close>

definition char_bytes :: "char \<Rightarrow> nat list" where
  "char_bytes c =
     (let n = char_code c in if n < 128 then [n] else [192 + n div 64, 128 + n mod 64])"

definition utf8_bytes :: "string \<Rightarrow> nat list" where
  "utf8_bytes s = concat (map char_bytes s)"

definition DJB2_INIT :: "64 word" where
  "DJB2_INIT = 5381"

definition djb2_hash :: "string \<Rightarrow> 64 word" where
  "djb2_hash s = foldl (\<lambda>hash byte. hash * 33 + of_nat byte) DJB2_INIT (utf8_bytes s)"

definition RADIX36_CHARS :: string where
  "RADIX36_CHARS = ''0123456789abcdefghijklmnopqrstuvwxyz''"

fun radix36_loop :: "nat \<Rightarrow> string" where
  "radix36_loop v = (if v = 0 then [] else (RADIX36_CHARS ! (v mod 36)) # radix36_loop (v div 36))"

declare radix36_loop.simps [simp del]

definition radix36_encode :: "64 word \<Rightarrow> string" where
  "radix36_encode v = (if v = 0 then ''0'' else rev (radix36_loop (unat v)))"

definition SANITIZE_MAX_LEN :: nat where
  "SANITIZE_MAX_LEN = 200"

definition sanitize_char :: "char \<Rightarrow> char" where
  "sanitize_char c = (if is_ascii_alphanumeric c then c else CHR ''-'')"

definition sanitize_for_fs :: "string \<Rightarrow> string" where
  "sanitize_for_fs name =
     (let sanitized = map sanitize_char name
      in if length sanitized \<le> SANITIZE_MAX_LEN then sanitized
         else (let suf = radix36_encode (djb2_hash name);
                   prefix_len = SANITIZE_MAX_LEN - (length suf + 1)
               in take prefix_len sanitized @ ''-'' @ suf))"

section \<open>Directories of the history\<close>

definition path_under :: "string \<Rightarrow> string \<Rightarrow> string" where
  "path_under dir name =
     (if dir = [] then name else if last dir = CHR ''/'' then dir @ name else dir @ ''/'' @ name)"

record history_roots =
  hr_projects :: string
  hr_sessions :: string

definition roots_under :: "string \<Rightarrow> history_roots" where
  "roots_under global_root =
     \<lparr>hr_projects = path_under global_root ''projects'', hr_sessions = path_under global_root ''sessions''\<rparr>"

definition project_session_state_file :: "string \<Rightarrow> string" where
  "project_session_state_file cwd = path_under (path_under cwd ''.atta'') ''session.json''"

definition session_sidecar_dir :: "string \<Rightarrow> string \<Rightarrow> string" where
  "session_sidecar_dir sessions_root session = path_under sessions_root session"

definition session_metadata_file :: "string \<Rightarrow> string \<Rightarrow> string" where
  "session_metadata_file sessions_root session =
     path_under (session_sidecar_dir sessions_root session) ''metadata.json''"

datatype 'a stored = Absent | Unreadable string | Stored 'a

datatype history_error =
    HeIo string
  | HeParse nat
  | HeSchema
  | HePath string
  | HeNotFound string

definition canonicalize_cwd :: "(string \<Rightarrow> string stored) \<Rightarrow> string \<Rightarrow> history_error + string" where
  "canonicalize_cwd realpath p =
     (case realpath p of
        Stored c \<Rightarrow> Inr c
      | Absent \<Rightarrow> Inr p
      | Unreadable e \<Rightarrow> Inl (HeIo e))"

definition project_dir :: "string \<Rightarrow> string \<Rightarrow> string" where
  "project_dir projects_root canonical_cwd = path_under projects_root (sanitize_for_fs canonical_cwd)"

definition NO_PROJECT_DIR :: string where
  "NO_PROJECT_DIR = ''_no-project''"

definition project_dir_for :: "string \<Rightarrow> string option \<Rightarrow> string" where
  "project_dir_for projects_root home =
     (case home of
        Some cwd \<Rightarrow> project_dir projects_root cwd
      | None \<Rightarrow> path_under projects_root NO_PROJECT_DIR)"

definition session_file :: "string \<Rightarrow> string \<Rightarrow> string" where
  "session_file dir session = path_under dir (session @ ''.jsonl'')"

lemmas roots_defs [kernel_defs] =
  char_bytes_def utf8_bytes_def DJB2_INIT_def djb2_hash_def RADIX36_CHARS_def radix36_encode_def
  SANITIZE_MAX_LEN_def sanitize_char_def sanitize_for_fs_def path_under_def roots_under_def
  project_session_state_file_def session_sidecar_dir_def session_metadata_file_def
  canonicalize_cwd_def project_dir_def NO_PROJECT_DIR_def project_dir_for_def session_file_def

section \<open>Safe names are short and plain\<close>

lemma radix36_length: "v < 36 ^ k \<Longrightarrow> length (radix36_loop v) \<le> k"
proof (induction k arbitrary: v)
  case 0
  then show ?case by (simp add: radix36_loop.simps [of 0])
next
  case (Suc k)
  have "v div 36 < 36 ^ k" using Suc.prems by (simp add: less_mult_imp_div_less mult.commute)
  with Suc.IH show ?case by (subst radix36_loop.simps) simp
qed

lemma radix36_encode_length: "length (radix36_encode v) \<le> 13"
proof -
  have "unat v < 2 ^ 64" using unsigned_less [of v] by simp
  also have "(2::nat) ^ 64 < 36 ^ 13" by simp
  finally show ?thesis using radix36_length [of "unat v" 13] by (simp add: radix36_encode_def)
qed

lemma radix36_loop_chars: "set (radix36_loop v) \<subseteq> set RADIX36_CHARS"
proof (induction v rule: radix36_loop.induct)
  case (1 v)
  have "RADIX36_CHARS ! (v mod 36) \<in> set RADIX36_CHARS"
    by (rule nth_mem) (simp add: RADIX36_CHARS_def)
  with 1 show ?case by (subst radix36_loop.simps) auto
qed

definition is_fs_char :: "char \<Rightarrow> bool" where
  "is_fs_char c \<longleftrightarrow> is_ascii_alphanumeric c \<or> c = CHR ''-''"

lemma radix36_chars_plain: "c \<in> set RADIX36_CHARS \<Longrightarrow> is_fs_char c"
proof -
  have "list_all is_fs_char RADIX36_CHARS" by code_simp
  then show "c \<in> set RADIX36_CHARS \<Longrightarrow> is_fs_char c" by (simp add: list_all_iff)
qed

lemma sanitize_char_plain: "is_fs_char (sanitize_char c)"
  by (simp add: sanitize_char_def is_fs_char_def)

lemma radix36_encode_plain: "c \<in> set (radix36_encode v) \<Longrightarrow> is_fs_char c"
proof -
  have "is_fs_char (CHR ''0'')" by code_simp
  moreover have "c \<in> set (radix36_loop n) \<Longrightarrow> is_fs_char c" for n
    using radix36_loop_chars radix36_chars_plain by blast
  ultimately show "c \<in> set (radix36_encode v) \<Longrightarrow> is_fs_char c"
    by (auto simp: radix36_encode_def split: if_splits)
qed

theorem sanitized_name:
  "length (sanitize_for_fs name) \<le> SANITIZE_MAX_LEN \<and> list_all is_fs_char (sanitize_for_fs name)"
proof -
  have len: "length (radix36_encode (djb2_hash name)) \<le> 13" by (rule radix36_encode_length)
  have dash: "is_fs_char (CHR ''-'')" by (simp add: is_fs_char_def)
  have pre: "c \<in> set (take n (map sanitize_char name)) \<Longrightarrow> is_fs_char c" for c n
    using sanitize_char_plain by (auto simp: take_map)
  show ?thesis
    using len by (auto simp: sanitize_for_fs_def Let_def list_all_iff SANITIZE_MAX_LEN_def
        dash sanitize_char_plain radix36_encode_plain dest: pre)
qed

text \<open>An absolute path never sanitizes to the directory of the sessions without a project.\<close>

lemma no_project_is_reserved:
  "project_dir root cwd \<noteq> path_under root NO_PROJECT_DIR"
proof
  assume "project_dir root cwd = path_under root NO_PROJECT_DIR"
  then have "sanitize_for_fs cwd = NO_PROJECT_DIR"
    by (simp add: project_dir_def path_under_def split: if_splits)
  then have "is_fs_char (CHR ''_'')"
    using sanitized_name [of cwd] by (simp add: NO_PROJECT_DIR_def)
  moreover have "\<not> is_fs_char (CHR ''_'')" by code_simp
  ultimately show False by simp
qed

text \<open>Sanitizing is not injective: two projects can share one transcript directory.\<close>

theorem projects_can_collide:
  "project_dir root ''/srv/my-app'' = project_dir root ''/srv/my/app''"
proof -
  have "sanitize_for_fs ''/srv/my-app'' = sanitize_for_fs ''/srv/my/app''" by code_simp
  then show ?thesis by (simp add: project_dir_def)
qed

end
