(* ===== verification/Transcript.thy ===== *)
theory Transcript
  imports Message
begin

text \<open>
  The transcript, \<open>crates/history/src/transcript.rs\<close>: how the append-only log becomes the messages the
  model sees.  A projection is the pair of functions of the trait \<open>TranscriptProjection\<close>; the two of
  the source are \<open>default_projection\<close> and \<open>extensions_are_visible\<close>.  The JSON printer used for an
  extension's payload, and the trip of a line through its serialized form, are parameters.
\<close>

section \<open>Projections\<close>

record projection =
  pj_apply :: "log_entry \<Rightarrow> message list \<Rightarrow> message list"
  pj_is_model_visible :: "log_entry \<Rightarrow> bool"

definition push_tool_result :: "content_block \<Rightarrow> message list \<Rightarrow> message list" where
  "push_tool_result block messages =
     (if messages = [] then [MUser [block]]
      else case last messages of
        MUser content \<Rightarrow> butlast messages @ [MUser (content @ [block])]
      | _ \<Rightarrow> messages @ [MUser [block]])"

fun apply_entry_to_messages :: "log_entry \<Rightarrow> message list \<Rightarrow> message list" where
  "apply_entry_to_messages (EUser content) messages = messages @ [MUser content]"
| "apply_entry_to_messages (EAssistant content stop usage model) messages =
     messages @ [MAssistant content stop model]"
| "apply_entry_to_messages (EToolResult tool_use_id content is_error) messages =
     push_tool_result (CbToolResult tool_use_id content is_error) messages"
| "apply_entry_to_messages (ECompact c) messages =
     (case replacement_history c of
        Some rh \<Rightarrow> rh
      | None \<Rightarrow>
          (case summary c of
             Some s \<Rightarrow> (if s = [] then [] else [MUser s])
           | None \<Rightarrow> messages))"
| "apply_entry_to_messages _ messages = messages"

definition default_is_model_visible :: "log_entry \<Rightarrow> bool" where
  "default_is_model_visible entry =
     (case entry of
        EUser _ \<Rightarrow> True
      | EAssistant _ _ _ _ \<Rightarrow> True
      | EToolResult _ _ _ \<Rightarrow> True
      | _ \<Rightarrow> False)"

definition default_projection :: projection where
  "default_projection =
     \<lparr>pj_apply = apply_entry_to_messages, pj_is_model_visible = default_is_model_visible\<rparr>"

definition ENGINE_NAMESPACE_PREFIX :: string where
  "ENGINE_NAMESPACE_PREFIX = ''attacore.''"

definition extension_covers :: "string list \<Rightarrow> string \<Rightarrow> bool" where
  "extension_covers namespaces ns =
     (if prefix ENGINE_NAMESPACE_PREFIX ns then False
      else namespaces = [] \<or> list_ex (\<lambda>n. n = ns) namespaces)"

definition extension_text :: "(json \<Rightarrow> string) \<Rightarrow> string \<Rightarrow> string \<Rightarrow> json \<Rightarrow> string" where
  "extension_text show_json ns event payload =
     ''<'' @ ns @ '':'' @ event @ ''>'' @ [CHR 0x0A] @ show_json payload @ [CHR 0x0A]
     @ ''</'' @ ns @ '':'' @ event @ ''>''"

definition extensions_are_visible :: "(json \<Rightarrow> string) \<Rightarrow> string list \<Rightarrow> projection" where
  "extensions_are_visible show_json namespaces =
     \<lparr>pj_apply = (\<lambda>entry messages.
        (case entry of
           EExtension ns event payload \<Rightarrow>
             (if \<not> extension_covers namespaces ns then messages
              else messages @ [MUser [CbText (extension_text show_json ns event payload) None]])
         | _ \<Rightarrow> pj_apply default_projection entry messages)),
      pj_is_model_visible = (\<lambda>entry.
        (case entry of
           EExtension ns event payload \<Rightarrow> extension_covers namespaces ns
         | _ \<Rightarrow> pj_is_model_visible default_projection entry))\<rparr>"

section \<open>Projecting a log\<close>

definition project_step :: "projection \<Rightarrow> message list \<Rightarrow> enveloped_entry \<Rightarrow> message list" where
  "project_step pj out env =
     (if env_is_sidechain env then out else pj_apply pj (env_entry env) out)"

definition project_messages_with :: "enveloped_entry list \<Rightarrow> projection \<Rightarrow> message list" where
  "project_messages_with entries pj = foldl (project_step pj) [] entries"

definition project_messages :: "enveloped_entry list \<Rightarrow> message list" where
  "project_messages entries = project_messages_with entries default_projection"

definition model_visible_content_is_reconstructible ::
  "(enveloped_entry \<Rightarrow> enveloped_entry option) \<Rightarrow> projection \<Rightarrow> enveloped_entry list \<Rightarrow> bool" where
  "model_visible_content_is_reconstructible round_trip pj entries =
     (case those (map round_trip entries) of
        None \<Rightarrow> False
      | Some again \<Rightarrow> project_messages_with entries pj = project_messages_with again pj)"

text \<open>With the line each message came from; a message of a compaction's replacement view carries its
  position in that view.\<close>

record sourced_message =
  sm_message :: message
  sm_entry :: enveloped_entry
  sm_part :: "nat option"

definition is_compact :: "log_entry \<Rightarrow> bool" where
  "is_compact entry = (case entry of ECompact _ \<Rightarrow> True | _ \<Rightarrow> False)"

type_synonym sources = "(enveloped_entry \<times> nat option) list"

definition sourced_step ::
  "projection \<Rightarrow> message list \<times> sources \<Rightarrow> enveloped_entry \<Rightarrow> message list \<times> sources" where
  "sourced_step pj st env =
     (case st of (messages, sources) \<Rightarrow>
        (if env_is_sidechain env then (messages, sources)
         else (let messages' = pj_apply pj (env_entry env) messages;
                   sources' =
                     (if is_compact (env_entry env) then
                        map (\<lambda>i. (env, Some i)) [0..<length messages']
                      else if length messages < length messages' then
                        sources @ replicate (length messages' - length messages) (env, None)
                      else take (length messages') sources)
               in (messages', sources'))))"

definition project_messages_sourced :: "enveloped_entry list \<Rightarrow> projection \<Rightarrow> sourced_message list" where
  "project_messages_sourced entries pj =
     (case foldl (sourced_step pj) ([], []) entries of (messages, sources) \<Rightarrow>
        map (\<lambda>(m, (e, p)). \<lparr>sm_message = m, sm_entry = e, sm_part = p\<rparr>) (zip messages sources))"

fun projected_lengths_loop :: "projection \<Rightarrow> message list \<Rightarrow> enveloped_entry list \<Rightarrow> nat list" where
  "projected_lengths_loop pj messages [] = []"
| "projected_lengths_loop pj messages (env # envs) =
     (let messages' = project_step pj messages env
      in length messages' # projected_lengths_loop pj messages' envs)"

definition projected_lengths_with :: "enveloped_entry list \<Rightarrow> projection \<Rightarrow> nat list" where
  "projected_lengths_with entries pj = projected_lengths_loop pj [] entries"

definition projected_lengths :: "enveloped_entry list \<Rightarrow> nat list" where
  "projected_lengths entries = projected_lengths_with entries default_projection"

section \<open>The resume report\<close>

datatype resume_projection_warning = EmptyHistory | EmptyProjection | EmptyCompactBoundary

record resume_report =
  entry_count :: nat
  projected_message_count :: nat
  compact_boundary_count :: nat
  replacement_compact_count :: nat
  summary_fallback_compact_count :: nat
  sidechain_entry_count :: nat
  metadata_entry_count :: nat
  warning :: "resume_projection_warning option"

type_synonym report_state = "resume_report \<times> message list \<times> bool"

definition report_compact :: "projection \<Rightarrow> compact_line \<Rightarrow> report_state \<Rightarrow> report_state" where
  "report_compact pj c st =
     (case st of (r, messages, saw_empty) \<Rightarrow>
        (let r1 = r\<lparr>compact_boundary_count := compact_boundary_count r + 1\<rparr>;
             messages' = pj_apply pj (ECompact c) messages
         in if replacement_history c \<noteq> None then
              (r1\<lparr>replacement_compact_count := replacement_compact_count r1 + 1\<rparr>, messages', saw_empty)
            else if (case summary c of Some s \<Rightarrow> s \<noteq> [] | None \<Rightarrow> False) then
              (r1\<lparr>summary_fallback_compact_count := summary_fallback_compact_count r1 + 1\<rparr>, messages', saw_empty)
            else (r1, messages', True)))"

definition report_step :: "projection \<Rightarrow> report_state \<Rightarrow> enveloped_entry \<Rightarrow> report_state" where
  "report_step pj st env =
     (case st of (r, messages, saw_empty) \<Rightarrow>
        (if env_is_sidechain env then
           (r\<lparr>sidechain_entry_count := sidechain_entry_count r + 1\<rparr>, messages, saw_empty)
         else
           (case env_entry env of
              EMeta _ \<Rightarrow> (r\<lparr>metadata_entry_count := metadata_entry_count r + 1\<rparr>, messages, saw_empty)
            | ESystem _ _ \<Rightarrow> (r\<lparr>metadata_entry_count := metadata_entry_count r + 1\<rparr>, messages, saw_empty)
            | EUsageSnapshot _ \<Rightarrow> (r\<lparr>metadata_entry_count := metadata_entry_count r + 1\<rparr>, messages, saw_empty)
            | EExtension _ _ _ \<Rightarrow> (r\<lparr>metadata_entry_count := metadata_entry_count r + 1\<rparr>, messages, saw_empty)
            | ECompact c \<Rightarrow> report_compact pj c (r, messages, saw_empty)
            | _ \<Rightarrow> (r, pj_apply pj (env_entry env) messages, saw_empty))))"

definition resume_projection_report_with :: "enveloped_entry list \<Rightarrow> projection \<Rightarrow> resume_report" where
  "resume_projection_report_with entries pj =
     (let r0 = \<lparr>entry_count = length entries, projected_message_count = 0, compact_boundary_count = 0,
            replacement_compact_count = 0, summary_fallback_compact_count = 0, sidechain_entry_count = 0,
            metadata_entry_count = 0, warning = None\<rparr>
      in case foldl (report_step pj) (r0, [], False) entries of (r, messages, saw_empty) \<Rightarrow>
           r\<lparr>projected_message_count := length messages,
             warning := (if entries = [] then Some EmptyHistory
                         else if messages = [] then Some EmptyProjection
                         else if saw_empty then Some EmptyCompactBoundary
                         else None)\<rparr>)"

definition resume_projection_report :: "enveloped_entry list \<Rightarrow> resume_report" where
  "resume_projection_report entries = resume_projection_report_with entries default_projection"

section \<open>Questions about a projection\<close>

definition compact_summary_from_messages :: "message list \<Rightarrow> content_block list option" where
  "compact_summary_from_messages messages =
     (case messages of
        MUser content # _ \<Rightarrow> (if content = [] then None else Some content)
      | _ \<Rightarrow> None)"

fun find_map :: "('a \<Rightarrow> 'b option) \<Rightarrow> 'a list \<Rightarrow> 'b option" where
  "find_map f [] = None"
| "find_map f (x # xs) = (case f x of Some y \<Rightarrow> Some y | None \<Rightarrow> find_map f xs)"

definition latest_stop_reason :: "message list \<Rightarrow> stop_reason option" where
  "latest_stop_reason messages =
     find_map (\<lambda>m. case m of MAssistant _ stop _ \<Rightarrow> stop | _ \<Rightarrow> None) (rev messages)"

fun count_through_loop :: "projection \<Rightarrow> string \<Rightarrow> message list \<Rightarrow> enveloped_entry list \<Rightarrow> nat option" where
  "count_through_loop pj target messages [] = None"
| "count_through_loop pj target messages (env # envs) =
     (let messages' = project_step pj messages env
      in if env_id env = target then Some (length messages')
         else count_through_loop pj target messages' envs)"

definition projected_message_count_through_entry_id_with ::
  "enveloped_entry list \<Rightarrow> string \<Rightarrow> projection \<Rightarrow> nat option" where
  "projected_message_count_through_entry_id_with entries target pj = count_through_loop pj target [] entries"

definition projected_message_count_through_entry_id :: "enveloped_entry list \<Rightarrow> string \<Rightarrow> nat option" where
  "projected_message_count_through_entry_id entries target =
     projected_message_count_through_entry_id_with entries target default_projection"

definition latest_projected_message_entry_id_with :: "enveloped_entry list \<Rightarrow> projection \<Rightarrow> string option" where
  "latest_projected_message_entry_id_with entries pj =
     map_option env_id
       (List.find (\<lambda>env. \<not> env_is_sidechain env \<and> pj_is_model_visible pj (env_entry env)) (rev entries))"

definition latest_projected_message_entry_id :: "enveloped_entry list \<Rightarrow> string option" where
  "latest_projected_message_entry_id entries =
     latest_projected_message_entry_id_with entries default_projection"

section \<open>Text views\<close>

fun render_content_blocks :: "(json \<Rightarrow> string) \<Rightarrow> content_block list \<Rightarrow> string"
  and render_block :: "(json \<Rightarrow> string) \<Rightarrow> content_block \<Rightarrow> string"
  and render_tool_result_content :: "(json \<Rightarrow> string) \<Rightarrow> tool_result_content \<Rightarrow> string" where
  "render_content_blocks sj [] = []"
| "render_content_blocks sj (b # bs) = render_block sj b @ render_content_blocks sj bs"
| "render_block sj (CbText t _) = t @ [CHR 0x0A]"
| "render_block sj (CbImage _) = ''[image]'' @ [CHR 0x0A]"
| "render_block sj (CbToolUse _ name input) = ''[tool '' @ name @ ''] '' @ sj input @ [CHR 0x0A]"
| "render_block sj (CbToolResult _ content is_error) =
     (if is_error then ''[tool result error] '' else ''[tool result] '')
     @ render_tool_result_content sj content @ [CHR 0x0A]"
| "render_block sj (CbThinking _ _ _) = []"
| "render_block sj (CbRedactedThinking _ _) = []"
| "render_block sj (CbCacheEdits _) = []"
| "render_tool_result_content sj (TrText t) = t"
| "render_tool_result_content sj (TrBlocks bs) = render_content_blocks sj bs"

fun render_message :: "(json \<Rightarrow> string) \<Rightarrow> message \<Rightarrow> string" where
  "render_message sj (MUser content) = ''user: '' @ render_content_blocks sj content"
| "render_message sj (MAssistant content _ _) = ''assistant: '' @ render_content_blocks sj content"
| "render_message sj (MSystem content _) = ''system: '' @ content @ [CHR 0x0A]"

definition render_search_text :: "(json \<Rightarrow> string) \<Rightarrow> message list \<Rightarrow> string" where
  "render_search_text sj messages = concat (map (render_message sj) messages)"

definition messages_match_query :: "(json \<Rightarrow> string) \<Rightarrow> message list \<Rightarrow> string \<Rightarrow> bool" where
  "messages_match_query sj messages query =
     (let q = to_lowercase (trim query)
      in if q = [] then True else contains_str (to_lowercase (render_search_text sj messages)) q)"

definition block_text :: "content_block \<Rightarrow> string option" where
  "block_text b = (case b of CbText t _ \<Rightarrow> Some t | _ \<Rightarrow> None)"

fun first_block_text :: "content_block \<Rightarrow> string option" where
  "first_block_text (CbText t _) = Some t"
| "first_block_text (CbToolUse _ name _) = Some name"
| "first_block_text (CbToolResult _ (TrText t) _) = Some t"
| "first_block_text (CbToolResult _ (TrBlocks bs) _) = find_map block_text bs"
| "first_block_text _ = None"

fun first_text :: "message \<Rightarrow> string option" where
  "first_text (MUser content) = find_map first_block_text content"
| "first_text (MAssistant content _ _) = find_map first_block_text content"
| "first_text (MSystem content _) = Some content"

text \<open>\<open>split_whitespace\<close>, joined by single blanks.\<close>

fun split_ws :: "string \<Rightarrow> string \<Rightarrow> string list" where
  "split_ws cur [] = (if cur = [] then [] else [cur])"
| "split_ws cur (c # cs) =
     (if is_whitespace c then (if cur = [] then split_ws [] cs else cur # split_ws [] cs)
      else split_ws (cur @ [c]) cs)"

definition normalize_ws :: "string \<Rightarrow> string" where
  "normalize_ws t = join_with '' '' (split_ws [] t)"

text \<open>The source ends a shortened text with the one character U+2026, which lies outside the text
  fragment; it is the parameter \<open>ellipsis\<close>.\<close>

definition truncate_chars :: "string \<Rightarrow> string \<Rightarrow> nat \<Rightarrow> string" where
  "truncate_chars ellipsis t max_chars =
     (if length t \<le> max_chars then t else take (max_chars - 1) t @ ellipsis)"

fun preview_parts :: "message list \<Rightarrow> string list \<Rightarrow> string list" where
  "preview_parts [] parts = parts"
| "preview_parts (m # ms) parts =
     (case first_text m of
        None \<Rightarrow> preview_parts ms parts
      | Some t \<Rightarrow>
          (let normalized = normalize_ws t;
               parts' = (if normalized \<noteq> [] then parts @ [normalized] else parts)
           in if 2 \<le> length parts' then parts' else preview_parts ms parts'))"

definition preview_messages :: "string \<Rightarrow> message list \<Rightarrow> nat \<Rightarrow> string" where
  "preview_messages ellipsis messages max_chars =
     truncate_chars ellipsis (join_with '' | '' (rev (preview_parts (rev messages) []))) max_chars"

lemmas transcript_defs [kernel_defs] =
  push_tool_result_def default_is_model_visible_def default_projection_def
  ENGINE_NAMESPACE_PREFIX_def extension_covers_def extension_text_def extensions_are_visible_def
  project_step_def project_messages_with_def project_messages_def
  model_visible_content_is_reconstructible_def is_compact_def sourced_step_def
  project_messages_sourced_def projected_lengths_with_def projected_lengths_def report_compact_def
  report_step_def resume_projection_report_with_def resume_projection_report_def
  compact_summary_from_messages_def latest_stop_reason_def
  projected_message_count_through_entry_id_with_def projected_message_count_through_entry_id_def
  latest_projected_message_entry_id_with_def latest_projected_message_entry_id_def
  render_search_text_def messages_match_query_def block_text_def normalize_ws_def truncate_chars_def
  preview_messages_def

end
