(* ===== verification/History.thy ===== *)
theory History
  imports Roots Transcript "HOL-Library.AList" "HOL-Library.Char_ord" "HOL-Library.List_Lexorder"
    "HOL-Library.Option_ord"
begin

text \<open>
  The history store, \<open>crates/history/src/store.rs\<close>, without its files: the facts and summaries of a
  session, the default methods of the trait \<open>HistoryStore\<close> as functions of \<open>load\<close> and \<open>list_sessions\<close>,
  the in-memory backend, and the observers of \<open>observers.rs\<close>; and the blob stores of \<open>blob.rs\<close> with the
  externalization of bulky lines.  The environment's answers (ids, times) are arguments of the operation that
  asks; SHA-256, the JSON codec and the time printer are parameters.  A \<open>HashMap\<close> is an association
  list whose order nothing relies on.
\<close>

section \<open>Vocabulary\<close>

record stamp =
  st_id :: string
  st_now :: int
  st_text :: string

record session_summary =
  ss_session_id :: string
  ss_last_modified :: string
  ss_entry_count :: nat
  ss_message_count :: nat
  ss_preview :: string
  ss_canonical_cwd :: "string option"
  ss_title :: "string option"
  ss_total_input :: "64 word option"
  ss_total_output :: "64 word option"
  ss_compact_count :: "64 word"

record session_facts =
  sf_scene :: "string option"
  sf_project_root :: "string option"
  sf_kind :: session_kind
  sf_parent :: "string option"

definition default_facts :: session_facts where
  "default_facts = \<lparr>sf_scene = None, sf_project_root = None, sf_kind = Primary, sf_parent = None\<rparr>"

definition facts_of :: "log_entry \<Rightarrow> session_facts option" where
  "facts_of entry =
     (case entry of
        EMeta m \<Rightarrow> Some \<lparr>sf_scene = meta_scene m, sf_project_root = meta_project_root m,
          sf_kind = meta_session_kind m, sf_parent = meta_parent_session_id m\<rparr>
      | _ \<Rightarrow> None)"

record session_stats =
  sx_title :: "string option"
  sx_compact_count :: "64 word"

datatype session_scope = CurrentProject | ScopeProject "string option" | AllProjects | ScopeUnder string

datatype summary_detail = IdsOnly | FullDetail

record session_query =
  q_text :: string
  q_scope :: session_scope
  q_limit :: nat
  q_detail :: summary_detail

definition recent_query :: "nat \<Rightarrow> session_query" where
  "recent_query limit = \<lparr>q_text = [], q_scope = CurrentProject, q_limit = limit, q_detail = FullDetail\<rparr>"

definition matching_query :: "string \<Rightarrow> nat \<Rightarrow> session_query" where
  "matching_query text limit =
     \<lparr>q_text = text, q_scope = CurrentProject, q_limit = limit, q_detail = FullDetail\<rparr>"

definition needle :: "session_query \<Rightarrow> string option" where
  "needle q = (let trimmed = trim (q_text q) in if trimmed \<noteq> [] then Some trimmed else None)"

text \<open>How a store reads its logs: the projection and the printers.\<close>

record read_ops =
  ro_projection :: projection
  ro_json :: "json \<Rightarrow> string"
  ro_ellipsis :: string
  ro_time :: "int \<Rightarrow> string"

section \<open>Default methods of the trait\<close>

type_synonym loader = "string \<Rightarrow> history_error + enveloped_entry list"

definition load_messages :: "read_ops \<Rightarrow> loader \<Rightarrow> string \<Rightarrow> history_error + message list" where
  "load_messages ro ld session =
     (case ld session of
        Inl e \<Rightarrow> Inl e
      | Inr entries \<Rightarrow> Inr (project_messages_with entries (ro_projection ro)))"

definition session_facts_default :: "loader \<Rightarrow> string \<Rightarrow> history_error + session_facts" where
  "session_facts_default ld session =
     (case ld session of
        Inl (HeNotFound _) \<Rightarrow> Inr default_facts
      | Inl e \<Rightarrow> Inl e
      | Inr entries \<Rightarrow>
          Inr (case find_map (\<lambda>env. facts_of (env_entry env)) entries of
                 Some f \<Rightarrow> f | None \<Rightarrow> default_facts))"

definition session_parent :: "loader \<Rightarrow> string \<Rightarrow> history_error + string option" where
  "session_parent ld session =
     (case session_facts_default ld session of Inl e \<Rightarrow> Inl e | Inr f \<Rightarrow> Inr (sf_parent f))"

fun child_sessions_in :: "loader \<Rightarrow> string \<Rightarrow> string list \<Rightarrow> history_error + string list" where
  "child_sessions_in ld parent [] = Inr []"
| "child_sessions_in ld parent (sid # sids) =
     (case session_parent ld sid of
        Inl e \<Rightarrow> Inl e
      | Inr p \<Rightarrow>
          (case child_sessions_in ld parent sids of
             Inl e \<Rightarrow> Inl e
           | Inr out \<Rightarrow> Inr (if p = Some parent then sid # out else out)))"

definition latest_ts :: "enveloped_entry list \<Rightarrow> int option" where
  "latest_ts entries = (if entries = [] then None else Some (Max (set (map env_ts entries))))"

definition matches_needle :: "read_ops \<Rightarrow> string option \<Rightarrow> string \<Rightarrow> message list \<Rightarrow> bool" where
  "matches_needle ro n session messages =
     (case n of
        None \<Rightarrow> True
      | Some text \<Rightarrow> contains_str session text \<or> messages_match_query (ro_json ro) messages text)"

definition summary_row ::
  "read_ops \<Rightarrow> string \<Rightarrow> enveloped_entry list \<Rightarrow> message list \<Rightarrow> int option \<times> session_summary" where
  "summary_row ro session entries messages =
     (latest_ts entries,
      \<lparr>ss_session_id = session,
       ss_last_modified = (case latest_ts entries of Some t \<Rightarrow> ro_time ro t | None \<Rightarrow> ''unknown''),
       ss_entry_count = length entries, ss_message_count = length messages,
       ss_preview = preview_messages (ro_ellipsis ro) messages 140, ss_canonical_cwd = None, ss_title = None,
       ss_total_input = None, ss_total_output = None, ss_compact_count = 0\<rparr>)"

fun find_rows ::
  "read_ops \<Rightarrow> loader \<Rightarrow> string option \<Rightarrow> string list \<Rightarrow> history_error + (int option \<times> session_summary) list"
where
  "find_rows ro ld n [] = Inr []"
| "find_rows ro ld n (sid # sids) =
     (case ld sid of
        Inl (HeNotFound _) \<Rightarrow> find_rows ro ld n sids
      | Inl e \<Rightarrow> Inl e
      | Inr entries \<Rightarrow>
          (let messages = project_messages_with entries (ro_projection ro)
           in if \<not> matches_needle ro n sid messages then find_rows ro ld n sids
              else (case find_rows ro ld n sids of
                      Inl e \<Rightarrow> Inl e
                    | Inr rows \<Rightarrow> Inr (summary_row ro sid entries messages # rows))))"

definition newest_first :: "int option \<times> session_summary \<Rightarrow> int option \<times> session_summary \<Rightarrow> bool" where
  "newest_first a b \<longleftrightarrow>
     fst b < fst a \<or> (fst a = fst b \<and> ss_session_id (snd b) \<le> ss_session_id (snd a))"

definition find_sessions_default ::
  "read_ops \<Rightarrow> loader \<Rightarrow> string list \<Rightarrow> session_query \<Rightarrow> history_error + session_summary list" where
  "find_sessions_default ro ld sessions q =
     (if q_limit q = 0 then Inr []
      else case find_rows ro ld (needle q) sessions of
             Inl e \<Rightarrow> Inl e
           | Inr rows \<Rightarrow> Inr (map snd (take (q_limit q) (sort_by newest_first rows))))"

section \<open>The in-memory backend\<close>

record mem_store =
  mem_sessions :: "(string \<times> enveloped_entry list) list"
  mem_titles :: "(string \<times> string) list"

definition mem_new :: mem_store where
  "mem_new = \<lparr>mem_sessions = [], mem_titles = []\<rparr>"

definition no_tags :: entry_tags where
  "no_tags = \<lparr>tag_turn_id = None, tag_origin = None\<rparr>"

definition enveloped :: "stamp \<Rightarrow> string \<Rightarrow> log_entry \<Rightarrow> entry_tags \<Rightarrow> enveloped_entry" where
  "enveloped s session entry tags = with_tags (entry_new_in (st_id s) (st_now s) session entry) tags"

definition mem_append_tagged :: "mem_store \<Rightarrow> stamp \<Rightarrow> string \<Rightarrow> log_entry \<Rightarrow> entry_tags \<Rightarrow> mem_store" where
  "mem_append_tagged st s session entry tags =
     (let old = (case map_of (mem_sessions st) session of Some es \<Rightarrow> es | None \<Rightarrow> [])
      in st\<lparr>mem_sessions := AList.update session (old @ [enveloped s session entry tags]) (mem_sessions st)\<rparr>)"

definition mem_append :: "mem_store \<Rightarrow> stamp \<Rightarrow> string \<Rightarrow> log_entry \<Rightarrow> mem_store" where
  "mem_append st s session entry = mem_append_tagged st s session entry no_tags"

definition mem_load :: "mem_store \<Rightarrow> string \<Rightarrow> history_error + enveloped_entry list" where
  "mem_load st session =
     (case map_of (mem_sessions st) session of Some es \<Rightarrow> Inr es | None \<Rightarrow> Inl (HeNotFound session))"

definition mem_list_sessions :: "mem_store \<Rightarrow> string list" where
  "mem_list_sessions st = map fst (mem_sessions st)"

definition mem_delete :: "mem_store \<Rightarrow> string \<Rightarrow> mem_store" where
  "mem_delete st session =
     st\<lparr>mem_sessions := AList.delete session (mem_sessions st),
       mem_titles := AList.delete session (mem_titles st)\<rparr>"

definition mem_set_title :: "mem_store \<Rightarrow> string \<Rightarrow> string option \<Rightarrow> mem_store" where
  "mem_set_title st session title =
     st\<lparr>mem_titles := (case title of
          Some t \<Rightarrow> AList.update session t (mem_titles st)
        | None \<Rightarrow> AList.delete session (mem_titles st))\<rparr>"

definition mem_stats :: "mem_store \<Rightarrow> string \<Rightarrow> session_stats" where
  "mem_stats st session = \<lparr>sx_title = map_of (mem_titles st) session, sx_compact_count = 0\<rparr>"

section \<open>Observers\<close>

record append_counts =
  ac_total :: "64 word"
  ac_per_session :: "(string \<times> (string \<times> 64 word) list) list"

definition counts_new :: append_counts where
  "counts_new = \<lparr>ac_total = 0, ac_per_session = []\<rparr>"

definition kinds_of :: "append_counts \<Rightarrow> string \<Rightarrow> (string \<times> 64 word) list" where
  "kinds_of ac session = (case map_of (ac_per_session ac) session of Some ks \<Rightarrow> ks | None \<Rightarrow> [])"

definition counted_entries :: "append_counts \<Rightarrow> string \<Rightarrow> 64 word" where
  "counted_entries ac session = sum_list (map snd (kinds_of ac session))"

definition counted_of_kind :: "append_counts \<Rightarrow> string \<Rightarrow> string \<Rightarrow> 64 word" where
  "counted_of_kind ac session kind = (case map_of (kinds_of ac session) kind of Some n \<Rightarrow> n | None \<Rightarrow> 0)"

definition counts_forget :: "append_counts \<Rightarrow> string \<Rightarrow> append_counts" where
  "counts_forget ac session =
     (case map_of (ac_per_session ac) session of
        None \<Rightarrow> ac
      | Some kinds \<Rightarrow>
          ac\<lparr>ac_total := ac_total ac - sum_list (map snd kinds),
            ac_per_session := AList.delete session (ac_per_session ac)\<rparr>)"

definition counts_observed :: "append_counts \<Rightarrow> string \<Rightarrow> log_entry \<Rightarrow> append_counts" where
  "counts_observed ac session entry =
     (let kinds = kinds_of ac session; k = entry_kind entry;
          n = (case map_of kinds k of Some n \<Rightarrow> n | None \<Rightarrow> 0)
      in ac\<lparr>ac_total := ac_total ac + 1,
           ac_per_session := AList.update session (AList.update k (n + 1) kinds) (ac_per_session ac)\<rparr>)"

text \<open>\<open>ObservedHistoryStore\<close>: the observers see an entry only when its append went through.\<close>

definition observed_append ::
  "('o \<Rightarrow> string \<Rightarrow> log_entry \<Rightarrow> 'o) \<Rightarrow> (history_error + 'st) \<Rightarrow> 'o list \<Rightarrow> string \<Rightarrow> log_entry
   \<Rightarrow> history_error + 'st \<times> 'o list" where
  "observed_append observe appended observers session entry =
     (case appended of
        Inl e \<Rightarrow> Inl e
      | Inr st \<Rightarrow> Inr (st, map (\<lambda>ob. observe ob session entry) observers))"

section \<open>Blobs\<close>

text \<open>Both shipped stores: contents by id with the time of the file.  \<open>content_id\<close> is the printed hash.\<close>

record blob_items =
  bl_name :: string
  bl_items :: "(string \<times> string \<times> int) list"

definition bl_put :: "(string \<Rightarrow> string) \<Rightarrow> int \<Rightarrow> blob_items \<Rightarrow> string \<Rightarrow> string \<times> blob_items" where
  "bl_put content_id now bs bytes =
     (let i = content_id bytes
      in (i, if map_of (bl_items bs) i \<noteq> None then bs
             else bs\<lparr>bl_items := (i, bytes, now) # bl_items bs\<rparr>))"

definition bl_get :: "blob_items \<Rightarrow> string \<Rightarrow> string option" where
  "bl_get bs i = map_option fst (map_of (bl_items bs) i)"

definition PASTE_MAX_AGE :: int where
  "PASTE_MAX_AGE = 7 * 24 * 3600"

definition paste_cleanup :: "int \<Rightarrow> blob_items \<Rightarrow> nat \<times> blob_items" where
  "paste_cleanup now bs =
     (let old = (\<lambda>(i, bytes, modified). PASTE_MAX_AGE < now - modified)
      in (length (filter old (bl_items bs)), bs\<lparr>bl_items := filter (\<lambda>x. \<not> old x) (bl_items bs)\<rparr>))"

text \<open>The serialized forms a log is made of.\<close>

record codec =
  enc_env :: "enveloped_entry \<Rightarrow> string"
  dec_env :: "string \<Rightarrow> enveloped_entry option"
  enc_entry :: "log_entry \<Rightarrow> string"
  dec_entry :: "string \<Rightarrow> log_entry option"
  blocks_len :: "content_block list \<Rightarrow> nat"
  result_len :: "tool_result_content \<Rightarrow> nat"

definition BULKY_CONTENT_BYTES :: nat where
  "BULKY_CONTENT_BYTES = 1024"

fun block_carries_image :: "content_block \<Rightarrow> bool" where
  "block_carries_image (CbImage _) = True"
| "block_carries_image (CbToolResult _ (TrBlocks nested) _) = list_ex block_carries_image nested"
| "block_carries_image _ = False"

definition blocks_carry_image :: "content_block list \<Rightarrow> bool" where
  "blocks_carry_image blocks = list_ex block_carries_image blocks"

definition externalizable_kind :: "codec \<Rightarrow> log_entry \<Rightarrow> string option" where
  "externalizable_kind cd entry =
     (case entry of
        EUser content \<Rightarrow>
          (if blocks_carry_image content \<or> BULKY_CONTENT_BYTES < blocks_len cd content
           then Some ''user'' else None)
      | EAssistant content _ _ _ \<Rightarrow>
          (if blocks_carry_image content \<or> BULKY_CONTENT_BYTES < blocks_len cd content
           then Some ''assistant'' else None)
      | EToolResult _ content _ \<Rightarrow>
          (let carries_image = (case content of TrText _ \<Rightarrow> False | TrBlocks blocks \<Rightarrow> blocks_carry_image blocks)
           in if carries_image \<or> BULKY_CONTENT_BYTES < result_len cd content
              then Some ''tool_result'' else None)
      | _ \<Rightarrow> None)"

definition externalize_if_bulky ::
  "codec \<Rightarrow> (string \<Rightarrow> string) \<Rightarrow> int \<Rightarrow> blob_items \<Rightarrow> log_entry \<Rightarrow> log_entry \<times> blob_items" where
  "externalize_if_bulky cd content_id now bs entry =
     (case externalizable_kind cd entry of
        None \<Rightarrow> (entry, bs)
      | Some describes \<Rightarrow>
          (let json = enc_entry cd entry; (i, bs') = bl_put content_id now bs json
           in (EBlob \<lparr>blob_store = bl_name bs, blob_id = i, blob_describes = describes,
                 blob_bytes = of_nat (utf8_len json)\<rparr>, bs')))"

definition hydrate :: "codec \<Rightarrow> blob_items \<Rightarrow> enveloped_entry \<Rightarrow> enveloped_entry" where
  "hydrate cd bs env =
     (let i = (case env_entry env of
                 EBlob b \<Rightarrow> (if blob_store b = bl_name bs then Some (blob_id b) else None)
               | EPasteRef paste_id \<Rightarrow> Some paste_id
               | _ \<Rightarrow> None)
      in case Option.bind i (bl_get bs) of
           None \<Rightarrow> env
         | Some bytes \<Rightarrow>
             (case dec_entry cd bytes of
                Some entry \<Rightarrow> env\<lparr>env_entry := entry\<rparr>
              | None \<Rightarrow> env))"

lemmas history_defs [kernel_defs] =
  default_facts_def facts_of_def recent_query_def matching_query_def needle_def load_messages_def
  session_facts_default_def session_parent_def latest_ts_def matches_needle_def summary_row_def
  newest_first_def find_sessions_default_def mem_new_def no_tags_def enveloped_def
  mem_append_tagged_def mem_append_def mem_load_def mem_list_sessions_def mem_delete_def
  mem_set_title_def mem_stats_def counts_new_def kinds_of_def counted_entries_def
  counted_of_kind_def counts_forget_def counts_observed_def observed_append_def bl_put_def
  bl_get_def PASTE_MAX_AGE_def paste_cleanup_def BULKY_CONTENT_BYTES_def blocks_carry_image_def
  externalizable_kind_def externalize_if_bulky_def hydrate_def

end
