(* ===== verification/Tokens.thy ===== *)
theory Tokens
  imports Json "HOL-Library.Word" "HOL-Library.AList"
begin

text \<open>
  The model's side of a conversation and its size: \<open>crates/core/src/interface/model.rs\<close> (messages),
  \<open>core/src/text.rs\<close> (cutting at a byte budget), \<open>core/src/interface/token_counter.rs\<close> and
  \<open>crates/model/src/tokens.rs\<close> (token estimates with their memo table).

  The tokenizer (\<open>tiktoken_rs\<close>), the hash of the memo table and the JSON printer are parameters.
  A \<open>usize\<close> is a \<open>nat\<close>: the sums here are sizes of data in memory.  \<open>saturating_sub\<close> is the
  subtraction of \<open>nat\<close>.
\<close>

section \<open>Messages\<close>

datatype message_role = RoleUser | RoleAssistant | RoleSystem

datatype model_block =
    MText string
  | MImage string string
  | MThinking string "string option" "string option"
  | MRedacted string "string option"
  | MToolUse string string json
  | MToolResult string string "bool option"

record model_message =
  role :: message_role
  content :: "model_block list"

definition is_foreign_reasoning :: "model_block \<Rightarrow> string option \<Rightarrow> bool" where
  "is_foreign_reasoning b provenance =
     (let produced_by =
        (case b of
           MThinking _ _ provider \<Rightarrow> Some provider
         | MRedacted _ provider \<Rightarrow> Some provider
         | _ \<Rightarrow> None)
      in case produced_by of
           None \<Rightarrow> False
         | Some p \<Rightarrow> (case (p, provenance) of (Some a, Some b') \<Rightarrow> a \<noteq> b' | _ \<Rightarrow> False))"

section \<open>Cutting text at a byte budget\<close>

definition char_width :: "char \<Rightarrow> nat" where
  "char_width c = (if char_code c < 128 then 1 else 2)"

text \<open>\<open>str::is_char_boundary\<close> and \<open>&s[..n]\<close> for a boundary \<open>n\<close>.\<close>

fun is_char_boundary :: "string \<Rightarrow> nat \<Rightarrow> bool" where
  "is_char_boundary s 0 = True"
| "is_char_boundary [] (Suc n) = False"
| "is_char_boundary (c # s) (Suc n) = (char_width c \<le> Suc n \<and> is_char_boundary s (Suc n - char_width c))"

fun byte_take :: "string \<Rightarrow> nat \<Rightarrow> string" where
  "byte_take s 0 = []"
| "byte_take [] (Suc n) = []"
| "byte_take (c # s) (Suc n) = c # byte_take s (Suc n - char_width c)"

fun back_off :: "string \<Rightarrow> nat \<Rightarrow> nat" where
  "back_off s 0 = 0"
| "back_off s (Suc n) = (if \<not> is_char_boundary s (Suc n) then back_off s n else Suc n)"

definition truncate_at_char_boundary :: "string \<Rightarrow> nat \<Rightarrow> string" where
  "truncate_at_char_boundary s max_bytes =
     (if utf8_len s \<le> max_bytes then s else byte_take s (back_off s max_bytes))"

section \<open>Token estimates\<close>

definition CACHE_MIN_LEN :: nat where
  "CACHE_MIN_LEN = 512"

definition CACHE_MAX_ENTRIES :: nat where
  "CACHE_MAX_ENTRIES = 4096"

type_synonym text_cache = "(64 word \<times> nat) list"

text \<open>\<open>count_text\<close> with the process-wide memo table threaded through; \<open>encode_len\<close> is the length of the
  tokenizer's encoding.\<close>

definition count_text_memo ::
  "(string \<Rightarrow> nat) \<Rightarrow> (string \<Rightarrow> 64 word) \<Rightarrow> text_cache \<Rightarrow> string \<Rightarrow> nat \<times> text_cache" where
  "count_text_memo encode_len hash cache s =
     (if utf8_len s < CACHE_MIN_LEN then (encode_len s, cache)
      else (let key = hash s in
        case map_of cache key of
          Some n \<Rightarrow> (n, cache)
        | None \<Rightarrow>
            (let n = encode_len s;
                 cache1 = (if CACHE_MAX_ENTRIES \<le> length cache then [] else cache)
             in (n, AList.update key n cache1))))"

text \<open>What a counter needs: the count of a text and the printed form of a tool's input.\<close>

record tokenizer =
  count_text :: "string \<Rightarrow> nat"
  show_json :: "json \<Rightarrow> string"

definition IMAGE_TOKEN_ESTIMATE :: nat where
  "IMAGE_TOKEN_ESTIMATE = 1600"

fun estimate_model_block_tokens :: "tokenizer \<Rightarrow> model_block \<Rightarrow> nat" where
  "estimate_model_block_tokens tk (MText t) = count_text tk t"
| "estimate_model_block_tokens tk (MImage _ _) = IMAGE_TOKEN_ESTIMATE"
| "estimate_model_block_tokens tk (MThinking t _ _) = count_text tk t"
| "estimate_model_block_tokens tk (MRedacted d _) = count_text tk d"
| "estimate_model_block_tokens tk (MToolResult i c _) = count_text tk i + count_text tk c"
| "estimate_model_block_tokens tk (MToolUse i n v) =
     count_text tk i + count_text tk n + count_text tk (show_json tk v)"

definition estimate_message_tokens :: "tokenizer \<Rightarrow> model_message list \<Rightarrow> nat" where
  "estimate_message_tokens tk messages =
     sum_list (map (estimate_model_block_tokens tk) (concat (map content messages)))"

text \<open>The second counter of the source, for tests: a fixed charge per block and per byte.\<close>

record fixed_counter =
  per_char :: nat
  per_block :: nat

fun fixed_block_text :: "(json \<Rightarrow> string) \<Rightarrow> model_block \<Rightarrow> nat" where
  "fixed_block_text sj (MText t) = utf8_len t"
| "fixed_block_text sj (MThinking t _ _) = utf8_len t"
| "fixed_block_text sj (MRedacted d _) = utf8_len d"
| "fixed_block_text sj (MToolResult i c _) = utf8_len i + utf8_len c"
| "fixed_block_text sj (MToolUse i n v) = utf8_len i + utf8_len n + utf8_len (sj v)"
| "fixed_block_text sj (MImage _ _) = 0"

definition fixed_count_block :: "(json \<Rightarrow> string) \<Rightarrow> fixed_counter \<Rightarrow> model_block \<Rightarrow> nat" where
  "fixed_count_block sj c b = per_block c + fixed_block_text sj b * per_char c"

definition count_messages :: "(model_block \<Rightarrow> nat) \<Rightarrow> model_message list \<Rightarrow> nat" where
  "count_messages count_block messages = sum_list (map count_block (concat (map content messages)))"

lemmas token_defs [kernel_defs] =
  is_foreign_reasoning_def char_width_def truncate_at_char_boundary_def CACHE_MIN_LEN_def
  CACHE_MAX_ENTRIES_def count_text_memo_def IMAGE_TOKEN_ESTIMATE_def estimate_message_tokens_def
  fixed_count_block_def count_messages_def

section \<open>Facts\<close>

lemma utf8_len_Cons: "utf8_len (c # s) = char_width c + utf8_len s"
  by (simp add: utf8_len_def char_width_def)

lemma utf8_len_Nil [simp]: "utf8_len [] = 0"
  by (simp add: utf8_len_def)

lemma utf8_len_append [simp]: "utf8_len (a @ b) = utf8_len a + utf8_len b"
  by (simp add: utf8_len_def)

lemma char_width_range: "0 < char_width c" "char_width c \<le> 2"
  by (simp_all add: char_width_def)

lemma char_width_nonzero [simp]: "char_width c \<noteq> 0"
  using char_width_range(1) [of c] by simp

lemma byte_take_boundary:
  "is_char_boundary s n \<Longrightarrow> prefix (byte_take s n) s \<and> utf8_len (byte_take s n) = n"
proof (induction s n rule: byte_take.induct)
  case (3 c s n)
  then show ?case
    by (auto simp: utf8_len_Cons)
qed simp_all

lemma prefix_boundary: "prefix p s \<Longrightarrow> is_char_boundary s (utf8_len p)"
proof (induction s arbitrary: p)
  case (Cons c s)
  show ?case
  proof (cases p)
    case (Cons d q)
    with Cons.prems have "d = c" "prefix q s" by simp_all
    then have "is_char_boundary s (utf8_len q)" by (simp add: Cons.IH)
    moreover obtain k where "char_width c + utf8_len q = Suc k"
      using char_width_range(1) [of c] by (metis Suc_pred add_gr_0)
    ultimately show ?thesis
      using Cons \<open>d = c\<close> by (simp add: utf8_len_Cons) (metis add_diff_cancel_left' le_add1)
  qed simp
qed simp

lemma back_off_boundary: "is_char_boundary s (back_off s n)"
  by (induction n) auto

lemma back_off_le: "back_off s n \<le> n"
  by (induction n) (auto intro: le_SucI)

lemma back_off_greatest: "is_char_boundary s m \<Longrightarrow> m \<le> n \<Longrightarrow> m \<le> back_off s n"
  by (induction n) (auto simp: le_Suc_eq)

lemma prefix_by_len: "prefix p s \<Longrightarrow> prefix q s \<Longrightarrow> utf8_len p \<le> utf8_len q \<Longrightarrow> prefix p q"
proof (rule ccontr)
  assume a: "prefix p s" "prefix q s" "utf8_len p \<le> utf8_len q" "\<not> prefix p q"
  then have "prefix q p" by (meson prefix_same_cases)
  then obtain r where r: "p = q @ r" by (auto simp: prefix_def)
  with a have "utf8_len r = 0" by simp
  then have "r = []" by (cases r) (simp_all add: utf8_len_Cons)
  with r a show False by simp
qed

lemma estimate_append [simp]:
  "estimate_message_tokens tk (a @ b) = estimate_message_tokens tk a + estimate_message_tokens tk b"
  by (simp add: estimate_message_tokens_def)

lemma estimate_Nil [simp]: "estimate_message_tokens tk [] = 0"
  by (simp add: estimate_message_tokens_def)

lemma estimate_concat:
  "estimate_message_tokens tk (concat mss) = sum_list (map (estimate_message_tokens tk) mss)"
  by (induction mss) simp_all

lemma estimate_Cons:
  "estimate_message_tokens tk (m # ms) =
     sum_list (map (estimate_model_block_tokens tk) (content m)) + estimate_message_tokens tk ms"
  by (simp add: estimate_message_tokens_def)

lemma set_update_subset: "set (AList.update k v c) \<subseteq> insert (k, v) (set c)"
  by (induction c) auto

lemma length_update_le: "length (AList.update k v c) \<le> Suc (length c)"
  by (induction c) auto

section \<open>Properties\<close>

text \<open>The cut is the longest prefix within the budget: it never splits a character, it never exceeds the
  budget, and no longer prefix would fit.\<close>
theorem truncate_is_longest_prefix:
  "prefix (truncate_at_char_boundary s n) s \<and> utf8_len (truncate_at_char_boundary s n) \<le> n \<and>
   (\<forall>p. prefix p s \<and> utf8_len p \<le> n \<longrightarrow> prefix p (truncate_at_char_boundary s n))"
proof (cases "utf8_len s \<le> n")
  case True
  then show ?thesis by (simp add: truncate_at_char_boundary_def)
next
  case False
  let ?e = "back_off s n"
  have t: "truncate_at_char_boundary s n = byte_take s ?e"
    using False by (simp add: truncate_at_char_boundary_def)
  from byte_take_boundary [OF back_off_boundary]
  have b: "prefix (byte_take s ?e) s" "utf8_len (byte_take s ?e) = ?e" by simp_all
  have "prefix p (byte_take s ?e)" if "prefix p s" "utf8_len p \<le> n" for p
  proof (rule prefix_by_len [OF that(1) b(1)])
    show "utf8_len p \<le> utf8_len (byte_take s ?e)"
      using back_off_greatest [OF prefix_boundary [OF that(1)] that(2)] b(2) by simp
  qed
  moreover have "utf8_len (byte_take s ?e) \<le> n"
    using b(2) back_off_le [of s n] by linarith
  ultimately show ?thesis
    unfolding t using b(1) by blast
qed

lemma truncate_is_longest_prefix_witness:
  "utf8_len (truncate_at_char_boundary ''hello'' 3) \<le> 3 \<and> prefix ''hel'' (truncate_at_char_boundary ''hello'' 3)"
proof -
  have "utf8_len ''hel'' \<le> 3" by code_simp
  then show ?thesis
    using truncate_is_longest_prefix [of "''hello''" 3] by auto
qed

text \<open>The memo table is transparent as long as the texts it has met do not collide: then a count is the
  tokenizer's, every entry stays right, and the table keeps its bound.\<close>
theorem count_text_memo_transparent:
  assumes "\<forall>e \<in> set cache. \<exists>t. hash t = fst e \<and> encode_len t = snd e"
    and "\<forall>t. hash t = hash s \<longrightarrow> encode_len t = encode_len s"
    and "length cache \<le> CACHE_MAX_ENTRIES"
  shows "fst (count_text_memo encode_len hash cache s) = encode_len s \<and>
    (\<forall>e \<in> set (snd (count_text_memo encode_len hash cache s)). \<exists>t. hash t = fst e \<and> encode_len t = snd e) \<and>
    length (snd (count_text_memo encode_len hash cache s)) \<le> CACHE_MAX_ENTRIES"
proof (cases "utf8_len s < CACHE_MIN_LEN")
  case True
  then show ?thesis using assms(1,3) by (simp add: count_text_memo_def)
next
  case long: False
  show ?thesis
  proof (cases "map_of cache (hash s)")
    case (Some n)
    from map_of_SomeD [OF Some] assms(1) obtain t where "hash t = hash s" "encode_len t = n"
      by fastforce
    with assms(2) have "n = encode_len s" by metis
    then show ?thesis using long Some assms(1,3) by (simp add: count_text_memo_def)
  next
    case None
    define c1 where "c1 = (if CACHE_MAX_ENTRIES \<le> length cache then [] else cache)"
    have r: "count_text_memo encode_len hash cache s = (encode_len s, AList.update (hash s) (encode_len s) c1)"
      using long None by (simp add: count_text_memo_def c1_def Let_def)
    have sub: "set c1 \<subseteq> set cache" by (simp add: c1_def)
    have "\<exists>t. hash t = fst e \<and> encode_len t = snd e"
      if "e \<in> set (AList.update (hash s) (encode_len s) c1)" for e
    proof -
      have "e = (hash s, encode_len s) \<or> e \<in> set cache"
        using set_update_subset [of "hash s" "encode_len s" c1] that sub by blast
      then show ?thesis using assms(1) by fastforce
    qed
    moreover have "length c1 < CACHE_MAX_ENTRIES"
      by (simp add: c1_def CACHE_MAX_ENTRIES_def)
    then have "length (AList.update (hash s) (encode_len s) c1) \<le> CACHE_MAX_ENTRIES"
      using length_update_le [of "hash s" "encode_len s" c1] by linarith
    ultimately show ?thesis by (simp add: r)
  qed
qed

lemma count_text_memo_transparent_witness:
  "fst (count_text_memo length (\<lambda>_. 0) [] ''hi'') = 2"
  using count_text_memo_transparent [of "[]" "\<lambda>_. 0" "\<lambda>_. 2" "''hi''"]
  by (simp add: count_text_memo_def CACHE_MIN_LEN_def CACHE_MAX_ENTRIES_def utf8_len_def char_code_def)

end
