(* ===== verification/Session.thy ===== *)
theory Session
  imports History Tokens
begin

text \<open>
  The session manager, \<open>crates/session/src/session.rs\<close>: it owns the conversation in memory and keeps the log of a
  history store in step with it.  The store is any backend (\<open>store_ops\<close>), \<open>None\<close> when there is
  none; parsing an id, printing nested blocks and the clock are parameters.  A method returns the session it leaves
  behind with its answer, also when it fails, since a failed \<open>persist\<close> has already moved on.
\<close>

section \<open>State\<close>

record usage =
  us_input :: "32 word"
  us_output :: "32 word"
  us_cache_creation :: "32 word"
  us_cache_read :: "32 word"

record message_note =
  note_origin :: "message_origin option"
  note_usage :: "usage option"

record session =
  ses_messages :: "model_message list"
  ses_timestamps :: "int list"
  ses_turn_count :: "32 word"
  ses_id :: string
  ses_parent :: "string option"
  ses_persisted :: nat
  ses_turn_id :: "string option"
  ses_notes :: "nat \<Rightarrow> message_note option"

record 'st store_ops =
  so_append :: "'st \<Rightarrow> stamp \<Rightarrow> string \<Rightarrow> log_entry \<Rightarrow> entry_tags \<Rightarrow> history_error + 'st"
  so_load :: "'st \<Rightarrow> string \<Rightarrow> history_error + enveloped_entry list"
  so_projection :: projection
  so_parse_id :: "string \<Rightarrow> string option"
  so_show_blocks :: "content_block list \<Rightarrow> string"

datatype session_error = SeNotFound string | SeStore history_error | SeId string

definition session_new :: "string \<Rightarrow> string option \<Rightarrow> session" where
  "session_new session_id parent =
     \<lparr>ses_messages = [], ses_timestamps = [], ses_turn_count = 0, ses_id = session_id, ses_parent = parent,
      ses_persisted = 0, ses_turn_id = None, ses_notes = Map.empty\<rparr>"

section \<open>In memory\<close>

definition push_message :: "int \<Rightarrow> model_message \<Rightarrow> session \<Rightarrow> session" where
  "push_message now msg s =
     s\<lparr>ses_timestamps := ses_timestamps s @ [now], ses_messages := ses_messages s @ [msg]\<rparr>"

definition push_message_from :: "int \<Rightarrow> model_message \<Rightarrow> message_origin \<Rightarrow> session \<Rightarrow> session" where
  "push_message_from now msg origin s =
     push_message now msg
       (s\<lparr>ses_notes := (ses_notes s)(length (ses_messages s) \<mapsto> \<lparr>note_origin = Some origin, note_usage = None\<rparr>)\<rparr>)"

definition push_reply :: "int \<Rightarrow> model_message \<Rightarrow> usage \<Rightarrow> session \<Rightarrow> session" where
  "push_reply now msg u s =
     push_message now msg
       (s\<lparr>ses_notes := (ses_notes s)(length (ses_messages s) \<mapsto> \<lparr>note_origin = None, note_usage = Some u\<rparr>)\<rparr>)"

definition set_turn_id :: "string option \<Rightarrow> session \<Rightarrow> session" where
  "set_turn_id t s = s\<lparr>ses_turn_id := t\<rparr>"

definition increment_turn :: "session \<Rightarrow> session" where
  "increment_turn s = s\<lparr>ses_turn_count := ses_turn_count s + 1\<rparr>"

definition message_ages :: "int \<Rightarrow> session \<Rightarrow> (nat \<times> int) list" where
  "message_ages now s =
     map (\<lambda>i. (i, if i < length (ses_timestamps s) then ses_timestamps s ! i else now))
       [0..<length (ses_messages s)]"

definition set_session_id :: "string \<Rightarrow> session \<Rightarrow> session" where
  "set_session_id i s = s\<lparr>ses_id := i\<rparr>"

definition set_parent_session :: "string \<Rightarrow> session \<Rightarrow> session" where
  "set_parent_session p s = s\<lparr>ses_parent := Some p\<rparr>"

section \<open>Messages and log lines\<close>

fun to_content_block :: "model_block \<Rightarrow> content_block" where
  "to_content_block (MText text) = CbText text None"
| "to_content_block (MImage media_type data) = CbImage (ImageBase64 media_type data)"
| "to_content_block (MThinking text signature provider) = CbThinking text signature provider"
| "to_content_block (MRedacted data provider) = CbRedactedThinking data provider"
| "to_content_block (MToolUse i name input) = CbToolUse i name input"
| "to_content_block (MToolResult i text is_error) =
     CbToolResult i (TrText text) (case is_error of Some b \<Rightarrow> b | None \<Rightarrow> False)"

definition answers_tool :: "model_block \<Rightarrow> bool" where
  "answers_tool b = (case b of MToolResult _ _ _ \<Rightarrow> True | _ \<Rightarrow> False)"

definition is_image :: "model_block \<Rightarrow> bool" where
  "is_image b = (case b of MImage _ _ \<Rightarrow> True | _ \<Rightarrow> False)"

definition unmarked_user_origin :: "model_message \<Rightarrow> message_origin" where
  "unmarked_user_origin msg =
     (if list_ex answers_tool (content msg) \<and> list_all (\<lambda>b. answers_tool b \<or> is_image b) (content msg)
      then OriginToolResult else OriginInjected)"

definition to_usage_record :: "usage \<Rightarrow> usage_record" where
  "to_usage_record u =
     \<lparr>input_tokens = ucast (us_input u), output_tokens = ucast (us_output u),
      cache_creation_input_tokens = Some (ucast (us_cache_creation u)),
      cache_read_input_tokens = Some (ucast (us_cache_read u))\<rparr>"

definition model_message_to_log_entry :: "model_message \<Rightarrow> log_entry option" where
  "model_message_to_log_entry msg =
     (let blocks = map to_content_block (content msg)
      in case role msg of
           RoleUser \<Rightarrow> Some (EUser blocks)
         | RoleAssistant \<Rightarrow> Some (EAssistant blocks None None None)
         | RoleSystem \<Rightarrow> None)"

definition model_message_to_message :: "model_message \<Rightarrow> message option" where
  "model_message_to_message msg =
     (let blocks = map to_content_block (content msg)
      in case role msg of
           RoleUser \<Rightarrow> Some (MUser blocks)
         | RoleAssistant \<Rightarrow> Some (MAssistant blocks None None)
         | RoleSystem \<Rightarrow> None)"

fun to_model_block :: "(content_block list \<Rightarrow> string) \<Rightarrow> content_block \<Rightarrow> model_block option" where
  "to_model_block sb (CbText text _) = Some (MText text)"
| "to_model_block sb (CbToolUse i name input) = Some (MToolUse i name input)"
| "to_model_block sb (CbToolResult i text is_error) =
     Some (MToolResult i (case text of TrText t \<Rightarrow> t | TrBlocks bs \<Rightarrow> sb bs) (Some is_error))"
| "to_model_block sb (CbImage (ImageBase64 media_type data)) = Some (MImage media_type data)"
| "to_model_block sb (CbThinking text signature provider) = Some (MThinking text signature provider)"
| "to_model_block sb (CbRedactedThinking data provider) = Some (MRedacted data provider)"
| "to_model_block sb (CbImage (ImageUrl _)) = None"
| "to_model_block sb (CbCacheEdits _) = None"

fun message_to_model_message :: "(content_block list \<Rightarrow> string) \<Rightarrow> message \<Rightarrow> model_message option" where
  "message_to_model_message sb (MUser blocks) =
     Some \<lparr>role = RoleUser, content = List.map_filter (to_model_block sb) blocks\<rparr>"
| "message_to_model_message sb (MAssistant blocks _ _) =
     Some \<lparr>role = RoleAssistant, content = List.map_filter (to_model_block sb) blocks\<rparr>"
| "message_to_model_message sb (MSystem _ _) = None"

section \<open>Persistence\<close>

definition note_at :: "session \<Rightarrow> nat \<Rightarrow> message_note" where
  "note_at s i = (case ses_notes s i of Some n \<Rightarrow> n | None \<Rightarrow> \<lparr>note_origin = None, note_usage = None\<rparr>)"

definition entry_with_usage :: "log_entry \<Rightarrow> usage option \<Rightarrow> log_entry" where
  "entry_with_usage entry u =
     (case (entry, u) of
        (EAssistant blocks stop _ model, Some n) \<Rightarrow> EAssistant blocks stop (Some (to_usage_record n)) model
      | _ \<Rightarrow> entry)"

definition line_tags :: "session \<Rightarrow> model_message \<Rightarrow> message_note \<Rightarrow> entry_tags" where
  "line_tags s msg note =
     \<lparr>tag_turn_id = ses_turn_id s,
      tag_origin = (case role msg of
         RoleUser \<Rightarrow> Some (case note_origin note of Some og \<Rightarrow> og | None \<Rightarrow> unmarked_user_origin msg)
       | _ \<Rightarrow> None)\<rparr>"

definition advance :: "session \<Rightarrow> session" where
  "advance s = s\<lparr>ses_notes := (ses_notes s)(ses_persisted s := None), ses_persisted := ses_persisted s + 1\<rparr>"

text \<open>The loop of \<open>persist\<close> over the messages not yet on record; \<open>stamps\<close> answers for the environment.\<close>

fun persist_from ::
  "'st store_ops \<Rightarrow> (nat \<Rightarrow> stamp) \<Rightarrow> string \<Rightarrow> model_message list \<Rightarrow> session \<Rightarrow> 'st
   \<Rightarrow> session_error option \<times> session \<times> 'st" where
  "persist_from ops stamps sid [] s st = (None, s, st)"
| "persist_from ops stamps sid (msg # msgs) s st =
     (let note = note_at s (ses_persisted s)
      in case model_message_to_log_entry msg of
           None \<Rightarrow> persist_from ops stamps sid msgs (advance s) st
         | Some entry \<Rightarrow>
             (case so_append ops st (stamps (ses_persisted s)) sid (entry_with_usage entry (note_usage note))
                     (line_tags s msg note) of
                Inl e \<Rightarrow> (Some (SeStore e), s, st)
              | Inr st' \<Rightarrow> persist_from ops stamps sid msgs (advance s) st'))"

definition persist ::
  "'st store_ops \<Rightarrow> (nat \<Rightarrow> stamp) \<Rightarrow> session \<Rightarrow> 'st option \<Rightarrow> session_error option \<times> session \<times> 'st option" where
  "persist ops stamps s store =
     (case store of
        None \<Rightarrow> (None, s, None)
      | Some st \<Rightarrow>
          (case so_parse_id ops (ses_id s) of
             None \<Rightarrow> (Some (SeId (ses_id s)), s, Some st)
           | Some sid \<Rightarrow>
               (case persist_from ops stamps sid (drop (ses_persisted s) (ses_messages s)) s st of
                  (e, s', st') \<Rightarrow> (e, s', Some st'))))"

definition compact_boundary :: "64 word \<Rightarrow> 64 word \<Rightarrow> message list \<Rightarrow> log_entry" where
  "compact_boundary before after replacement =
     ECompact \<lparr>before_tokens = before, after_tokens = after, summary_block_id = None,
       replacement_history = Some replacement, summary = None, snip_removed_uuids = None\<rparr>"

definition replace_messages_after_compact ::
  "'st store_ops \<Rightarrow> stamp \<Rightarrow> model_message list \<Rightarrow> 64 word \<Rightarrow> 64 word \<Rightarrow> session \<Rightarrow> 'st option
   \<Rightarrow> session_error option \<times> session \<times> 'st option" where
  "replace_messages_after_compact ops stmp new_messages before after s store =
     (let replacement = List.map_filter model_message_to_message new_messages;
          s1 = s\<lparr>ses_messages := new_messages, ses_notes := Map.empty\<rparr>
      in case store of
           None \<Rightarrow> (None, s1\<lparr>ses_persisted := length new_messages\<rparr>, None)
         | Some st \<Rightarrow>
             (case so_parse_id ops (ses_id s1) of
                None \<Rightarrow> (Some (SeId (ses_id s1)), s1\<lparr>ses_persisted := 0\<rparr>, Some st)
              | Some sid \<Rightarrow>
                  (case so_append ops st stmp sid (compact_boundary before after replacement)
                          \<lparr>tag_turn_id = ses_turn_id s1, tag_origin = None\<rparr> of
                     Inl e \<Rightarrow> (Some (SeStore e), s1\<lparr>ses_persisted := 0\<rparr>, Some st)
                   | Inr st' \<Rightarrow> (None, s1\<lparr>ses_persisted := length new_messages\<rparr>, Some st'))))"

definition session_clear ::
  "'st store_ops \<Rightarrow> stamp \<Rightarrow> session \<Rightarrow> 'st option \<Rightarrow> session_error option \<times> session \<times> 'st option" where
  "session_clear ops stmp s store =
     replace_messages_after_compact ops stmp [] 0 0 (s\<lparr>ses_timestamps := [], ses_turn_count := 0\<rparr>) store"

definition resume ::
  "'st store_ops \<Rightarrow> int \<Rightarrow> string \<Rightarrow> session \<Rightarrow> 'st option \<Rightarrow> session_error + session" where
  "resume ops now i s store =
     (case store of
        None \<Rightarrow> Inl (SeNotFound i)
      | Some st \<Rightarrow>
          (case so_parse_id ops i of
             None \<Rightarrow> Inl (SeId i)
           | Some sid \<Rightarrow>
               (case so_load ops st sid of
                  Inl (HeNotFound j) \<Rightarrow> Inl (SeNotFound j)
                | Inl e \<Rightarrow> Inl (SeStore e)
                | Inr entries \<Rightarrow>
                    (if entries = [] then Inl (SeNotFound i)
                     else (let parent = find_map (\<lambda>env. case env_entry env of
                                  EMeta m \<Rightarrow> Some (meta_parent_session_id m) | _ \<Rightarrow> None) entries;
                               messages = List.map_filter (message_to_model_message (so_show_blocks ops))
                                 (project_messages_with entries (so_projection ops))
                           in Inr (s\<lparr>ses_id := i, ses_turn_count := of_nat (length entries),
                                ses_parent := (case parent of Some p \<Rightarrow> p | None \<Rightarrow> ses_parent s),
                                ses_messages := messages, ses_timestamps := replicate (length messages) now,
                                ses_persisted := length messages, ses_notes := Map.empty\<rparr>))))))"

lemmas session_defs [kernel_defs] =
  session_new_def push_message_def push_message_from_def push_reply_def set_turn_id_def increment_turn_def
  message_ages_def set_session_id_def set_parent_session_def answers_tool_def is_image_def
  unmarked_user_origin_def to_usage_record_def model_message_to_log_entry_def
  model_message_to_message_def note_at_def entry_with_usage_def line_tags_def advance_def persist_def
  compact_boundary_def replace_messages_after_compact_def session_clear_def resume_def

end
