(* ===== verification/Streaming.thy ===== *)
theory Streaming
  imports Session
begin

text \<open>
  The streaming executor, \<open>crates/runtime/src/streaming.rs\<close>: one model reply consumed event by event, its tool
  calls run, and the reply with its answers written to the session.

  What the outside decides is the record \<open>stream_world\<close>: what a call answers, which tools may run concurrently,
  which of the futures in flight finishes next, whether a future that finds its batch cancelled still
  delivers its own answer (\<open>tokio::select!\<close> picks any ready branch), and when the turn is cancelled.  Call
  number \<open>idx\<close> is run at most once, so a function of \<open>idx\<close> is as free as the world itself.  The futures of
  a batch are polled by \<open>drain_batch\<close> only, which is where the model runs them.  Host events are
  recorded without the turn id they all carry; a send on a closed channel is ignored by the code.
\<close>

section \<open>Events and outcomes\<close>

datatype model_event =
    EvTextDelta string
  | EvThinkingDelta string
  | EvThinkingSignature string
  | EvRedactedThinking string
  | EvToolUseStart string string
  | EvToolUse string string json
  | EvToolArgsDelta string string
  | EvContentBlockStart nat model_block
  | EvContentBlockStop nat
  | EvEndTurn string usage

datatype host_event =
    HostTextDelta string
  | HostThinkingDelta string
  | HostToolUseStart string string
  | HostToolArgsDelta string string
  | HostToolUse string string json
  | HostToolResult string string string bool

record tool_answer =
  ta_text :: string
  ta_new_messages :: "json list option"
  ta_reported_failure :: bool

type_synonym tool_outcome = "string + tool_answer"

record stream_world =
  w_run :: "nat \<Rightarrow> string \<Rightarrow> string \<Rightarrow> json \<Rightarrow> tool_outcome"
  w_safe :: "string \<Rightarrow> json \<Rightarrow> bool"
  w_next :: "nat list \<Rightarrow> nat"
  w_cut :: "nat \<Rightarrow> bool"
  w_cancelled :: "nat \<Rightarrow> bool"
  w_show :: "json \<Rightarrow> string"
  w_provenance :: "string option"

definition no_usage :: usage where
  "no_usage = \<lparr>us_input = 0, us_output = 0, us_cache_creation = 0, us_cache_read = 0\<rparr>"

record flight =
  fl_index :: nat
  fl_id :: string
  fl_name :: string
  fl_input :: json

record stream_state =
  str_reply :: "model_block list"
  str_text :: string
  str_thinking :: string
  str_queued :: "flight list"
  str_seen :: "string list"
  str_batch :: "flight list"
  str_aborted :: bool
  str_results :: "(nat \<times> model_block) list"
  str_new_msgs :: "json list list"
  str_stop :: string
  str_usage :: usage
  str_has_tools :: bool
  str_calls :: "32 word"
  str_events :: "host_event list"

definition stream_start :: stream_state where
  "stream_start =
     \<lparr>str_reply = [], str_text = [], str_thinking = [], str_queued = [], str_seen = [], str_batch = [],
      str_aborted = False, str_results = [], str_new_msgs = [], str_stop = [], str_usage = no_usage,
      str_has_tools = False, str_calls = 0, str_events = []\<rparr>"

section \<open>Blocks\<close>

definition close_thinking :: "stream_world \<Rightarrow> string option \<Rightarrow> stream_state \<Rightarrow> stream_state" where
  "close_thinking w signature s =
     (if str_thinking s \<noteq> []
      then s\<lparr>str_reply := str_reply s @ [MThinking (str_thinking s) signature (w_provenance w)], str_thinking := []\<rparr>
      else s)"

definition close_text :: "stream_state \<Rightarrow> stream_state" where
  "close_text s =
     (if str_text s \<noteq> [] then s\<lparr>str_reply := str_reply s @ [MText (str_text s)], str_text := []\<rparr> else s)"

definition emit :: "host_event \<Rightarrow> stream_state \<Rightarrow> stream_state" where
  "emit e s = s\<lparr>str_events := str_events s @ [e]\<rparr>"

section \<open>Tools\<close>

definition read_outcome :: "tool_outcome \<Rightarrow> string \<times> json list option \<times> bool" where
  "read_outcome oc =
     (case oc of
        Inr a \<Rightarrow> (ta_text a, ta_new_messages a, ta_reported_failure a)
      | Inl e \<Rightarrow> (e, None, True))"

definition buffer_result :: "nat \<Rightarrow> string \<Rightarrow> string \<Rightarrow> string \<Rightarrow> bool \<Rightarrow> stream_state \<Rightarrow> stream_state" where
  "buffer_result idx tool_use_id tool_name text is_error s =
     emit (HostToolResult tool_use_id tool_name text is_error)
       (s\<lparr>str_results := str_results s @ [(idx, MToolResult tool_use_id text (Some is_error))]\<rparr>)"

definition push_new :: "json list option \<Rightarrow> stream_state \<Rightarrow> stream_state" where
  "push_new msgs s = (case msgs of Some ms \<Rightarrow> s\<lparr>str_new_msgs := str_new_msgs s @ [ms]\<rparr> | None \<Rightarrow> s)"

definition CANCELLED :: string where
  "CANCELLED = ''cancelled by sibling error''"

definition flight_outcome :: "stream_world \<Rightarrow> bool \<Rightarrow> flight \<Rightarrow> tool_outcome" where
  "flight_outcome w aborted f =
     (if aborted \<and> w_cut w (fl_index f) then Inl CANCELLED
      else w_run w (fl_index f) (fl_id f) (fl_name f) (fl_input f))"

text \<open>The name a result is reported under is looked up in the queue.\<close>

definition queued_name :: "stream_state \<Rightarrow> nat \<Rightarrow> string" where
  "queued_name s idx = (if idx < length (str_queued s) then fl_name (str_queued s ! idx) else [])"

definition finish_flight :: "stream_world \<Rightarrow> flight \<Rightarrow> stream_state \<Rightarrow> stream_state" where
  "finish_flight w f s =
     (let outcome = flight_outcome w (str_aborted s) f;
          s1 = (if isl outcome then s\<lparr>str_aborted := True\<rparr> else s)
      in case read_outcome outcome of (text, new_msgs, failed) \<Rightarrow>
           push_new new_msgs (buffer_result (fl_index f) (fl_id f) (queued_name s (fl_index f)) text failed s1))"

definition pick :: "stream_world \<Rightarrow> flight list \<Rightarrow> nat" where
  "pick w fs = w_next w (map fl_index fs) mod length fs"

definition take_flight :: "stream_world \<Rightarrow> stream_state \<Rightarrow> flight \<times> stream_state" where
  "take_flight w s =
     (let fs = str_batch s; n = pick w fs in (fs ! n, s\<lparr>str_batch := take n fs @ drop (Suc n) fs\<rparr>))"

function drain_batch :: "stream_world \<Rightarrow> stream_state \<Rightarrow> stream_state" where
  "drain_batch w s =
     (if str_batch s = [] then s
      else (case take_flight w s of (f, s1) \<Rightarrow> drain_batch w (finish_flight w f s1)))"
  by pat_completeness auto

lemma finish_flight_batch [simp]: "str_batch (finish_flight w f s) = str_batch s"
  by (auto simp: finish_flight_def push_new_def buffer_result_def emit_def Let_def
      split: prod.splits option.splits)

lemma pick_less: "fs \<noteq> [] \<Longrightarrow> pick w fs < length fs"
  by (simp add: pick_def)

lemma take_flight_length:
  "str_batch s \<noteq> [] \<Longrightarrow> length (str_batch (snd (take_flight w s))) < length (str_batch s)"
  using pick_less [of "str_batch s" w] by (simp add: take_flight_def Let_def)

termination drain_batch
proof (relation "measure (\<lambda>(w, s). length (str_batch s))")
  fix w s f s1 assume "str_batch s \<noteq> []" "(f, s1) = take_flight w s"
  then show "((w, finish_flight w f s1), w, s) \<in> measure (\<lambda>(w, s). length (str_batch s))"
    using take_flight_length [of s w] by (metis (mono_tags) case_prod_conv finish_flight_batch in_measure snd_conv)
qed simp

declare drain_batch.simps [simp del]

definition DUPLICATE :: string where
  "DUPLICATE = ''[Duplicate tool call skipped '' @ em_dash @ '' identical call was already made this turn.]''"

definition dedup_key :: "stream_world \<Rightarrow> string \<Rightarrow> json \<Rightarrow> string" where
  "dedup_key w name input = ''('' @ name @ '','' @ w_show w input @ '')''"

text \<open>A tool that must run alone: the batch drains first, then it runs, then a fresh batch begins.\<close>

definition run_alone :: "stream_world \<Rightarrow> flight \<Rightarrow> stream_state \<Rightarrow> stream_state" where
  "run_alone w f s =
     (let s1 = drain_batch w s
      in case read_outcome (w_run w (fl_index f) (fl_id f) (fl_name f) (fl_input f)) of
           (text, new_msgs, failed) \<Rightarrow>
             (push_new new_msgs (buffer_result (fl_index f) (fl_id f) (fl_name f) text failed s1))
               \<lparr>str_aborted := False, str_batch := []\<rparr>)"

definition start_tool :: "stream_world \<Rightarrow> flight \<Rightarrow> stream_state \<Rightarrow> stream_state" where
  "start_tool w f s =
     (let key = dedup_key w (fl_name f) (fl_input f)
      in if key \<in> set (str_seen s)
         then buffer_result (fl_index f) (fl_id f) (fl_name f) DUPLICATE False s
         else (let s1 = s\<lparr>str_seen := key # str_seen s\<rparr>;
                   s2 = (if w_safe w (fl_name f) (fl_input f)
                         then s1\<lparr>str_batch := str_batch s1 @ [f]\<rparr> else run_alone w f s1)
               in s2\<lparr>str_calls := str_calls s2 + 1\<rparr>))"

definition on_tool_use :: "stream_world \<Rightarrow> string \<Rightarrow> string \<Rightarrow> json \<Rightarrow> stream_state \<Rightarrow> stream_state" where
  "on_tool_use w i name input s =
     (let s1 = close_text (close_thinking w None s);
          s2 = emit (HostToolUse i name input)
                 (s1\<lparr>str_has_tools := True, str_reply := str_reply s1 @ [MToolUse i name input]\<rparr>);
          f = \<lparr>fl_index = length (str_queued s2), fl_id = i, fl_name = name, fl_input = input\<rparr>
      in start_tool w f (s2\<lparr>str_queued := str_queued s2 @ [f]\<rparr>))"

section \<open>The stream\<close>

fun on_event :: "stream_world \<Rightarrow> model_event \<Rightarrow> stream_state \<Rightarrow> stream_state" where
  "on_event w (EvTextDelta text) s =
     (let s1 = close_thinking w None s in emit (HostTextDelta text) (s1\<lparr>str_text := str_text s1 @ text\<rparr>))"
| "on_event w (EvThinkingDelta text) s =
     (let s1 = close_text s in emit (HostThinkingDelta text) (s1\<lparr>str_thinking := str_thinking s1 @ text\<rparr>))"
| "on_event w (EvThinkingSignature signature) s = close_thinking w (Some signature) s"
| "on_event w (EvRedactedThinking data) s =
     (let s1 = close_thinking w None (close_text s)
      in s1\<lparr>str_reply := str_reply s1 @ [MRedacted data (w_provenance w)]\<rparr>)"
| "on_event w (EvToolUseStart i name) s = emit (HostToolUseStart i name) s"
| "on_event w (EvToolArgsDelta i fragment) s = emit (HostToolArgsDelta i fragment) s"
| "on_event w (EvToolUse i name input) s = on_tool_use w i name input s"
| "on_event w (EvEndTurn stop u) s = s\<lparr>str_stop := stop, str_usage := u\<rparr>"
| "on_event w _ s = s"

text \<open>The loop: a cancelled turn stops before the event it has just received, an error of the stream cancels the
  batch.\<close>

fun consume :: "stream_world \<Rightarrow> nat \<Rightarrow> (string + model_event) list \<Rightarrow> stream_state \<Rightarrow> stream_state \<times> string option" where
  "consume w n [] s = (s, None)"
| "consume w n (ev # evs) s =
     (if w_cancelled w n then (s, None)
      else case ev of
             Inl e \<Rightarrow> (s\<lparr>str_aborted := True\<rparr>, Some e)
           | Inr e \<Rightarrow> consume w (Suc n) evs (on_event w e s))"

section \<open>Writing the reply\<close>

type_synonym interceptor = "model_message \<Rightarrow> model_message"

definition intercept_message :: "interceptor list \<Rightarrow> model_message \<Rightarrow> model_message" where
  "intercept_message interceptors message = foldl (\<lambda>m f. f m) message interceptors"

definition injected :: "json \<Rightarrow> model_message" where
  "injected msg =
     (let role_str = (case get_str msg ''role'' of Some r \<Rightarrow> r | None \<Rightarrow> ''user'');
          content_str = (case get_str msg ''content'' of Some c \<Rightarrow> c | None \<Rightarrow> [])
      in \<lparr>role = (if role_str = ''assistant'' then RoleAssistant else RoleUser), content = [MText content_str]\<rparr>)"

definition inject_new_messages :: "int \<Rightarrow> json list \<Rightarrow> session \<Rightarrow> session" where
  "inject_new_messages now msgs s = foldl (\<lambda>s m. push_message now (injected m) s) s msgs"

definition is_tool_use :: "model_block \<Rightarrow> bool" where
  "is_tool_use b = (case b of MToolUse _ _ _ \<Rightarrow> True | _ \<Rightarrow> False)"

definition write_reply ::
  "int \<Rightarrow> interceptor list \<Rightarrow> model_block list \<Rightarrow> usage \<Rightarrow> (nat \<times> model_block) list \<Rightarrow> json list list
   \<Rightarrow> session \<Rightarrow> session" where
  "write_reply now interceptors reply u results new_msgs s =
     (if reply = [] then s
      else (let asked_for_tools = list_ex is_tool_use reply;
                message = intercept_message interceptors \<lparr>role = RoleAssistant, content = reply\<rparr>;
                s1 = push_reply now message u s;
                s2 = (if asked_for_tools
                      then push_message now \<lparr>role = RoleUser, content = map snd (sort_key fst results)\<rparr> s1
                      else s1)
            in foldl (\<lambda>s msgs. inject_new_messages now msgs s) s2 new_msgs))"

record stream_result =
  sr_stop_reason :: string
  sr_usage :: usage
  sr_has_tool_uses :: bool
  sr_tool_calls :: "32 word"

definition finish_stream :: "stream_world \<Rightarrow> stream_state \<Rightarrow> stream_state" where
  "finish_stream w s = drain_batch w (close_text (close_thinking w None s))"

definition execute_stream ::
  "stream_world \<Rightarrow> int \<Rightarrow> interceptor list \<Rightarrow> (string + model_event) list \<Rightarrow> session
   \<Rightarrow> (string + stream_result) \<times> session \<times> host_event list" where
  "execute_stream w now interceptors events ses =
     (case consume w 0 events stream_start of (s, stream_error) \<Rightarrow>
        (let s1 = finish_stream w s;
             ses1 = write_reply now interceptors (str_reply s1) (str_usage s1) (str_results s1) (str_new_msgs s1) ses
         in ((case stream_error of
                Some e \<Rightarrow> Inl e
              | None \<Rightarrow> Inr \<lparr>sr_stop_reason = str_stop s1, sr_usage = str_usage s1,
                  sr_has_tool_uses = str_has_tools s1, sr_tool_calls = str_calls s1\<rparr>), ses1, str_events s1)))"

lemmas streaming_defs [kernel_defs] =
  no_usage_def stream_start_def close_thinking_def close_text_def emit_def read_outcome_def
  buffer_result_def push_new_def CANCELLED_def flight_outcome_def queued_name_def finish_flight_def
  pick_def take_flight_def DUPLICATE_def dedup_key_def run_alone_def start_tool_def on_tool_use_def
  intercept_message_def injected_def inject_new_messages_def is_tool_use_def write_reply_def
  finish_stream_def execute_stream_def

end
