(* ===== verification/Dispatch.thy ===== *)
theory Dispatch
  imports HooksProps Handler RuleAudit Streaming
begin

text \<open>
  The dispatch of a tool call: \<open>execute_tool_with_telemetry\<close> and \<open>execute_tool_inner\<close> of \<open>runtime/src/turn.rs\<close>, the
  ring of wrappers of \<open>core/src/interface/tool_middleware.rs\<close>, the transformers of
  \<open>core/src/interface/tool_result.rs\<close>, and the questions to a person of \<open>core/src/interface/elicitation.rs\<close> and
  \<open>runtime/src/elicitation.rs\<close>.

  A session's permission checker is a trait object: it is a state \<open>'p\<close> with the record \<open>permission_ops\<close> of its
  methods, and \<open>rule_set_ops\<close> is the one the source ships.  A cancellation token is a value of type \<open>'c\<close>.  What
  the outside answers during one attempt at a call (hooks, the person, the tool, the mode the session is in at that
  moment) is the record \<open>attempt\<close>.  Two fields of the state record effects: \<open>ds_ran\<close> the calls of \<open>Tool::call\<close>,
  \<open>ds_asked\<close> the questions put to a person.  Latencies are left out of the telemetry.
\<close>

section \<open>Questions to a person\<close>

datatype elicit_kind =
    Authorization string "path list" "string option"
  | Clarification "string option"
  | Import "string list"

type_synonym elicit_option = "string \<times> string"

record elicit_request =
  er_id :: string
  er_kind :: elicit_kind
  er_message :: string
  er_options :: "elicit_option list"

datatype elicit_outcome = Answered json | Declined string

datatype persist_scope = ScopeSession | ScopeLocal

datatype person_decision = PersonPermit | PersonDeny string | PersonPermitAlways persist_scope

definition answer_as :: "(json \<Rightarrow> 'a option) \<Rightarrow> elicit_outcome \<Rightarrow> 'a option" where
  "answer_as from_value oc = (case oc of Answered v \<Rightarrow> from_value v | Declined _ \<Rightarrow> None)"

definition decline_reason :: "elicit_outcome \<Rightarrow> string option" where
  "decline_reason oc = (case oc of Declined reason \<Rightarrow> Some reason | Answered _ \<Rightarrow> None)"

definition decline_all :: "elicit_request \<Rightarrow> elicit_outcome" where
  "decline_all r =
     (let what = (case er_kind r of
                    Authorization name _ _ \<Rightarrow> ''authorize '' @ [backtick] @ name @ [backtick]
                  | Clarification _ \<Rightarrow> ''answer a question''
                  | Import _ \<Rightarrow> ''confirm an import'')
      in Declined (''no one is available to '' @ what @ '': this engine was built without an ''
           @ ''elicitation handler, and an unanswered question is not consent''))"

definition authorization_options :: "elicit_option list" where
  "authorization_options = [(''permit'', ''Allow once''), (''permit_always'', ''Allow every time''), (''deny'', ''Deny'')]"

section \<open>Asking over the session's channels\<close>

text \<open>The one-shot senders waiting for an answer, by prompt id; what has been delivered; the prompts shown.\<close>

record ask_channel =
  ac_pending :: "string list"
  ac_delivered :: "(string \<times> person_decision) list"
  ac_prompts :: "(string \<times> string \<times> string) list"
  ac_denials :: "32 word"

definition channel_ask :: "elicit_request \<Rightarrow> ask_channel \<Rightarrow> elicit_outcome + ask_channel" where
  "channel_ask r c =
     (let unable = (\<lambda>what. Inl (Declined (''this host is connected for permission prompts only and has no way to ''
                     @ ''put '' @ what @ '' to a person; register an '' @ [backtick] @ ''Elicitation'' @ [backtick]
                     @ '' implementation that can reach your UI to change that'')))
      in case er_kind r of
           Clarification _ \<Rightarrow> unable ''a clarification''
         | Import _ \<Rightarrow> unable ''an import confirmation''
         | Authorization name paths tool_use_id \<Rightarrow>
             Inr (c\<lparr>ac_pending := er_id r # filter (\<lambda>i. i \<noteq> er_id r) (ac_pending c),
                    ac_prompts := ac_prompts c @ [(er_id r, name, er_message r)]\<rparr>))"

definition resolve_permission_response :: "string \<Rightarrow> person_decision \<Rightarrow> ask_channel \<Rightarrow> ask_channel" where
  "resolve_permission_response prompt_id decision c =
     (let c1 = (case decision of PersonDeny _ \<Rightarrow> c\<lparr>ac_denials := ac_denials c + 1\<rparr> | _ \<Rightarrow> c)
      in if prompt_id \<in> set (ac_pending c1)
         then c1\<lparr>ac_pending := filter (\<lambda>i. i \<noteq> prompt_id) (ac_pending c1),
                 ac_delivered := ac_delivered c1 @ [(prompt_id, decision)]\<rparr>
         else c1)"

text \<open>Dropping the future of a question, answered or not, removes its registration.\<close>

definition drop_registration :: "string \<Rightarrow> ask_channel \<Rightarrow> ask_channel" where
  "drop_registration prompt_id c = c\<lparr>ac_pending := filter (\<lambda>i. i \<noteq> prompt_id) (ac_pending c)\<rparr>"

section \<open>What a tool returns\<close>

record tool_result_block =
  rb_type :: string
  rb_text :: "string option"
  rb_source :: "json option"

datatype returned_content = ContentText string | ContentBlocks "tool_result_block list"

record tool_result =
  tr_content :: returned_content
  tr_is_error :: bool
  tr_new_messages :: "json list option"

definition as_image :: "tool_result_block \<Rightarrow> (string \<times> string) option" where
  "as_image b =
     (if rb_type b \<noteq> ''image'' then None
      else case rb_source b of
             None \<Rightarrow> None
           | Some src \<Rightarrow>
               (case (get_str src ''media_type'', get_str src ''data'') of
                  (Some t, Some d) \<Rightarrow> Some (t, d)
                | _ \<Rightarrow> None))"

definition block_text :: "tool_result_block \<Rightarrow> string option" where
  "block_text b =
     (case as_image b of
        Some _ \<Rightarrow> None
      | None \<Rightarrow> (case rb_text b of Some t \<Rightarrow> (if t = [] then None else Some t) | None \<Rightarrow> None))"

definition render_result_content :: "returned_content \<Rightarrow> string \<times> (string \<times> string) list" where
  "render_result_content c =
     (case c of
        ContentText t \<Rightarrow> (t, [])
      | ContentBlocks bs \<Rightarrow>
          (let images = List.map_filter as_image bs;
               txt = join_with [CHR 0x0A] (List.map_filter block_text bs)
           in (if txt = [] \<and> images \<noteq> []
               then (if length images = 1 then ''[image]'' else ''['' @ show_nat (length images) @ '' images]'')
               else txt, images)))"

section \<open>Transformers\<close>

record tool_call =
  tc_name :: string
  tc_input :: json

record tool_result_draft =
  td_text :: string
  td_images :: "(string \<times> string) list"
  td_is_error :: bool

type_synonym transformer = "tool_call \<Rightarrow> tool_result_draft \<Rightarrow> tool_result_draft"

definition apply_transformers :: "transformer list \<Rightarrow> tool_call \<Rightarrow> tool_result_draft \<Rightarrow> tool_result_draft" where
  "apply_transformers ts c d = foldl (\<lambda>d t. t c d) d ts"

definition truncate_text :: "nat \<Rightarrow> transformer" where
  "truncate_text max_bytes c d =
     (if utf8_len (td_text d) \<le> max_bytes then d
      else (let kept = truncate_at_char_boundary (td_text d) max_bytes;
                dropped = utf8_len (td_text d) - utf8_len kept
            in d\<lparr>td_text := kept @ [CHR 0x0A, CHR 0xE2, CHR 0x80, CHR 0xA6] @ '' ['' @ show_nat dropped
                   @ '' bytes truncated]''\<rparr>))"

record redact_literals =
  rl_secrets :: "string list"
  rl_replacement :: string

definition redact_new :: "string list \<Rightarrow> redact_literals" where
  "redact_new secrets = \<lparr>rl_secrets = filter (\<lambda>s. s \<noteq> []) secrets, rl_replacement = ''<redacted>''\<rparr>"

definition with_replacement :: "string \<Rightarrow> redact_literals \<Rightarrow> redact_literals" where
  "with_replacement r t = t\<lparr>rl_replacement := r\<rparr>"

definition redact_text :: "redact_literals \<Rightarrow> string \<Rightarrow> string" where
  "redact_text t txt =
     foldl (\<lambda>txt secret. if contains_str txt secret then replace_all secret (rl_replacement t) txt else txt)
       txt (rl_secrets t)"

definition redact :: "redact_literals \<Rightarrow> transformer" where
  "redact t c d = d\<lparr>td_text := redact_text t (td_text d)\<rparr>"

section \<open>The ring of wrappers\<close>

text \<open>What a wrapper may touch besides the call: the cancellation the call runs under, and its own memory.\<close>

record ('c, 'm) tool_exec =
  ex_cancel :: 'c
  ex_memory :: 'm

text \<open>A wrapper answers, or calls through and goes on with what came back; it may hand on a call of its own
  making.  A wrapper that calls through for ever is not represented.\<close>

datatype ('c, 'm) wrapper_step =
    WrapAnswer tool_outcome "('c, 'm) tool_exec"
  | WrapNext tool_call "('c, 'm) tool_exec" "tool_outcome \<Rightarrow> ('c, 'm) tool_exec \<Rightarrow> ('c, 'm) wrapper_step"

type_synonym ('c, 'm) middleware = "tool_call \<Rightarrow> ('c, 'm) tool_exec \<Rightarrow> ('c, 'm) wrapper_step"

primrec around ::
  "('c, 'm) wrapper_step
   \<Rightarrow> (tool_call \<Rightarrow> ('c, 'm) tool_exec \<Rightarrow> 's \<Rightarrow> tool_outcome \<times> ('c, 'm) tool_exec \<times> 's)
   \<Rightarrow> 's \<Rightarrow> tool_outcome \<times> ('c, 'm) tool_exec \<times> 's" where
  "around (WrapAnswer oc x) inner s = (oc, x, s)"
| "around (WrapNext c x k) inner s = (case inner c x s of (oc, x', s') \<Rightarrow> around (k oc x') inner s')"

fun next_run ::
  "('c \<Rightarrow> 's \<Rightarrow> tool_outcome \<times> 's) \<Rightarrow> ('c, 'm) middleware list
   \<Rightarrow> tool_call \<Rightarrow> ('c, 'm) tool_exec \<Rightarrow> 's \<Rightarrow> tool_outcome \<times> ('c, 'm) tool_exec \<times> 's" where
  "next_run terminal [] c x s = (case terminal (ex_cancel x) s of (oc, s') \<Rightarrow> (oc, x, s'))"
| "next_run terminal (m # ms) c x s = around (m c x) (next_run terminal ms) s"

definition dispatch_through ::
  "('c, 'm) middleware list \<Rightarrow> tool_call \<Rightarrow> 'c \<Rightarrow> 'm \<Rightarrow> ('c \<Rightarrow> 's \<Rightarrow> tool_outcome \<times> 's)
   \<Rightarrow> 's \<Rightarrow> tool_outcome \<times> 'm \<times> 's" where
  "dispatch_through chain c cancel memory dispatch s =
     (case next_run dispatch chain c \<lparr>ex_cancel = cancel, ex_memory = memory\<rparr> s of
        (oc, x, s') \<Rightarrow> (oc, ex_memory x, s'))"

section \<open>Context and state of a call\<close>

text \<open>A checker sees the live mode of the session it is bound to, and names a prompt with a fresh id.\<close>

record 'p permission_ops =
  pm_check :: "string \<Rightarrow> permission_mode \<Rightarrow> 'p \<Rightarrow> string \<Rightarrow> json \<Rightarrow> path \<Rightarrow> string \<Rightarrow> outcome"
  pm_allow :: "'p \<Rightarrow> string \<Rightarrow> string option \<Rightarrow> 'p"

definition rule_set_ops :: "env \<Rightarrow> handler permission_ops" where
  "rule_set_ops e =
     \<lparr>pm_check = (\<lambda>fresh live h name input cwd sid.
        handler_check e (if h_session h = None then h else bind_session_state h live) fresh name input cwd sid),
      pm_allow = add_persistent_allow\<rparr>"

record sandbox_policy_config =
  sp_allow_read :: "path list"
  sp_deny_read :: "path list option"
  sp_network_mode :: network_mode_config
  sp_allowed_domains :: "string list"
  sp_deny_write :: "string list"
  sp_allow_write :: "path list"
  sp_state_root :: "path option"
  sp_require_enforcement :: bool

definition sandbox_settings_from :: "sandbox_policy_config \<Rightarrow> sandbox_settings" where
  "sandbox_settings_from p =
     \<lparr>sb_allow_read = sp_allow_read p,
      sb_deny_read = (case sp_deny_read p of Some ps \<Rightarrow> ps | None \<Rightarrow> []),
      sb_allowed_domains = sp_allowed_domains p, sb_network_mode = sp_network_mode p,
      sb_deny_write = sp_deny_write p, sb_allow_write = sp_allow_write p, sb_state_root = sp_state_root p,
      sb_require_enforcement = sp_require_enforcement p\<rparr>"

record 'c call_ctx =
  cc_cwd :: path
  cc_session_id :: string
  cc_turn_no :: "32 word"
  cc_sandbox :: sandbox_settings
  cc_cancel :: 'c
  cc_writable :: "path list"
  cc_mode :: permission_mode
  cc_tool_use_id :: string
  cc_agent_depth :: "32 word"

record tool_traits =
  tt_destructive :: "json \<Rightarrow> bool"
  tt_deferred :: bool

record ('p, 'c, 'm) exec_ctx =
  xc_tool_use_id :: string
  xc_tools :: "(string \<times> (tool \<times> tool_traits)) list"
  xc_cwd :: path
  xc_session_id :: string
  xc_turn_no :: "32 word"
  xc_agent_depth :: "32 word"
  xc_turn_id :: string
  xc_cancel :: 'c
  xc_sandbox_policy :: sandbox_policy_config
  xc_prompt_timeout :: "64 word"
  xc_permission :: "'p permission_ops"
  xc_decision :: "json \<Rightarrow> person_decision option"
  xc_middleware :: "('c, 'm) middleware list"
  xc_transformers :: "transformer list"
  xc_json_size :: "json \<Rightarrow> nat"

datatype wait_end = WaitTimedOut | WaitAnswered elicit_outcome | WaitCancelled

record 'c attempt =
  at_hooks :: "hook_event \<Rightarrow> hook_env"
  at_mode :: permission_mode
  at_fresh :: string
  at_wait :: "elicit_request \<Rightarrow> 'c \<Rightarrow> 64 word \<Rightarrow> wait_end"
  at_mode_running :: permission_mode
  at_writable :: "path list"
  at_call :: "string \<Rightarrow> json \<Rightarrow> 'c call_ctx \<Rightarrow> string + tool_result"
  at_mode_after :: permission_mode

datatype tool_event =
    ToolCancelled string string
  | ToolStart string string nat bool bool
  | ToolExecution string string bool

record ('p, 'c, 'm) dispatch_state =
  ds_permission :: 'p
  ds_hooks :: hook_runner
  ds_settings :: settings_file
  ds_images :: "(string \<times> string) list"
  ds_discontinued :: bool
  ds_memory :: 'm
  ds_attempts :: nat
  ds_asked :: "elicit_request list"
  ds_ran :: "(string \<times> json \<times> 'c call_ctx) list"
  ds_events :: "tool_event list"

section \<open>Hooks around a call\<close>

fun hook_permission_mode :: "permission_mode \<Rightarrow> string" where
  "hook_permission_mode Default = ''default''"
| "hook_permission_mode AcceptEdits = ''acceptEdits''"
| "hook_permission_mode BypassPermissions = ''bypassPermissions''"
| "hook_permission_mode Plan = ''plan''"
| "hook_permission_mode Auto = ''auto''"
| "hook_permission_mode DontAsk = ''dontAsk''"
| "hook_permission_mode Bubble = ''bubble''"
| "hook_permission_mode Yolo = ''yolo''"

definition with_turn_id :: "string \<Rightarrow> hook_input \<Rightarrow> hook_input" where
  "with_turn_id t i = i\<lparr>hi_turn_id := Some t\<rparr>"

definition with_tool :: "string \<Rightarrow> json \<Rightarrow> hook_input \<Rightarrow> hook_input" where
  "with_tool name input i = i\<lparr>hi_tool_name := Some name, hi_tool_input := Some input\<rparr>"

definition with_reason :: "string \<Rightarrow> hook_input \<Rightarrow> hook_input" where
  "with_reason r i = i\<lparr>hi_reason := Some r\<rparr>"

definition tool_hook_input ::
  "('p, 'c, 'm) exec_ctx \<Rightarrow> string \<Rightarrow> permission_mode \<Rightarrow> string \<Rightarrow> json \<Rightarrow> json option \<Rightarrow> bool option \<Rightarrow> hook_input" where
  "tool_hook_input c event mode name input result is_error =
     (lifecycle event (xc_session_id c) (path_str (xc_cwd c)) (hook_permission_mode mode))
       \<lparr>hi_tool_name := Some name, hi_tool_input := Some input, hi_tool_use_id := Some (xc_tool_use_id c),
        hi_tool_result := result, hi_is_error := is_error\<rparr>"

definition run_ctx_hooks ::
  "'c attempt \<Rightarrow> hook_event \<Rightarrow> hook_input \<Rightarrow> ('p, 'c, 'm) dispatch_state
   \<Rightarrow> hook_outcome list \<times> ('p, 'c, 'm) dispatch_state" where
  "run_ctx_hooks a ev input s =
     (case run_hooks (at_hooks a ev) ev input (ds_hooks s) of (ocs, h) \<Rightarrow> (ocs, s\<lparr>ds_hooks := h\<rparr>))"

definition fire_ctx_lifecycle_hook ::
  "('p, 'c, 'm) exec_ctx \<Rightarrow> 'c attempt \<Rightarrow> hook_event \<Rightarrow> (hook_input \<Rightarrow> hook_input)
   \<Rightarrow> ('p, 'c, 'm) dispatch_state \<Rightarrow> ('p, 'c, 'm) dispatch_state" where
  "fire_ctx_lifecycle_hook c a ev build s =
     (if \<not> has_hooks_for (ds_hooks s) ev then s
      else snd (run_ctx_hooks a ev
             (build (with_turn_id (xc_turn_id c) (lifecycle (event_name ev) (xc_session_id c) (path_str (xc_cwd c)) [])))
             s))"

definition reason_or :: "hook_response \<Rightarrow> string" where
  "reason_or r = (case hr_message r of Some m \<Rightarrow> m | None \<Rightarrow> ''no reason given'')"

definition pre_tool_use ::
  "('p, 'c, 'm) exec_ctx \<Rightarrow> 'c attempt \<Rightarrow> string \<Rightarrow> json \<Rightarrow> ('p, 'c, 'm) dispatch_state
   \<Rightarrow> (string + json) \<times> ('p, 'c, 'm) dispatch_state" where
  "pre_tool_use c a name input s =
     (if \<not> has_hooks_for (ds_hooks s) PreToolUse then (Inr input, s)
      else case run_ctx_hooks a PreToolUse (tool_hook_input c ''PreToolUse'' (at_mode a) name input None None) s of
             (ocs, s1) \<Rightarrow>
               (case blocked ocs of
                  Some r \<Rightarrow> (Inl (''Blocked by PreToolUse hook: '' @ reason_or r), s1)
                | None \<Rightarrow> (Inr (case updated_input ocs of Some v \<Rightarrow> v | None \<Rightarrow> input), s1)))"

section \<open>Permission\<close>

definition deny_call ::
  "('p, 'c, 'm) exec_ctx \<Rightarrow> 'c attempt \<Rightarrow> string \<Rightarrow> json \<Rightarrow> string \<Rightarrow> ('p, 'c, 'm) dispatch_state
   \<Rightarrow> ('p, 'c, 'm) dispatch_state" where
  "deny_call c a name input reason s =
     fire_ctx_lifecycle_hook c a PermissionDenied (with_reason reason \<circ> with_tool name input) s"

definition permit_always ::
  "('p, 'c, 'm) exec_ctx \<Rightarrow> tool \<Rightarrow> string \<Rightarrow> json \<Rightarrow> persist_scope \<Rightarrow> ('p, 'c, 'm) dispatch_state
   \<Rightarrow> ('p, 'c, 'm) dispatch_state" where
  "permit_always c t name input scope s =
     (let match_content = t_permission_match_content t input;
          s1 = s\<lparr>ds_permission := pm_allow (xc_permission c) (ds_permission s) name match_content\<rparr>
      in case scope of
           ScopeSession \<Rightarrow> s1
         | ScopeLocal \<Rightarrow>
             (case build_rule_string name match_content of
                None \<Rightarrow> s1
              | Some rule \<Rightarrow>
                  (case append_permission_rule (ds_settings s1) AppendAllow rule of
                     Inl _ \<Rightarrow> s1
                   | Inr (_, file) \<Rightarrow> s1\<lparr>ds_settings := file\<rparr>)))"

definition authorization :: "('p, 'c, 'm) exec_ctx \<Rightarrow> string \<Rightarrow> string \<Rightarrow> string \<Rightarrow> elicit_request" where
  "authorization c name prompt_id message =
     \<lparr>er_id = prompt_id, er_kind = Authorization name [] (Some (xc_tool_use_id c)), er_message = message,
      er_options = authorization_options\<rparr>"

definition ask_person ::
  "('p, 'c, 'm) exec_ctx \<Rightarrow> 'c attempt \<Rightarrow> tool \<Rightarrow> string \<Rightarrow> json \<Rightarrow> string \<Rightarrow> string \<Rightarrow> ('p, 'c, 'm) dispatch_state
   \<Rightarrow> string option \<times> ('p, 'c, 'm) dispatch_state" where
  "ask_person c a t name input prompt_id message s =
     (let s1 = fire_ctx_lifecycle_hook c a PermissionRequested (with_reason message \<circ> with_tool name input) s;
          s2 = fire_ctx_lifecycle_hook c a Notification
                 (with_reason (''waiting for a permission decision on '' @ [backtick] @ name @ [backtick])
                  \<circ> with_tool name input) s1;
          r = authorization c name prompt_id message;
          s3 = s2\<lparr>ds_asked := ds_asked s2 @ [r]\<rparr>
      in case at_wait a r (xc_cancel c) (xc_prompt_timeout c) of
           WaitTimedOut \<Rightarrow>
             (Some (''Denied by permission: no answer to the permission prompt within ''
                @ show_nat (unat (xc_prompt_timeout c)) @ ''s''),
              deny_call c a name input ''permission prompt timed out'' s3)
         | WaitCancelled \<Rightarrow>
             (Some ''permission request cancelled: session closing'',
              s3\<lparr>ds_events := ds_events s3 @ [ToolCancelled name ''session_closing_during_permission_wait'']\<rparr>)
         | WaitAnswered oc \<Rightarrow>
             (case answer_as (xc_decision c) oc of
                Some PersonPermit \<Rightarrow> (None, s3)
              | Some (PersonPermitAlways scope) \<Rightarrow> (None, permit_always c t name input scope s3)
              | Some (PersonDeny reason) \<Rightarrow>
                  (Some (''Denied by permission: '' @ reason), deny_call c a name input reason s3)
              | None \<Rightarrow>
                  (let reason = (case decline_reason oc of
                                   Some r \<Rightarrow> r
                                 | None \<Rightarrow> ''the answer to the permission prompt was not a decision'')
                   in (Some reason, deny_call c a name input reason s3))))"

definition authorize ::
  "('p, 'c, 'm) exec_ctx \<Rightarrow> 'c attempt \<Rightarrow> tool \<Rightarrow> string \<Rightarrow> json \<Rightarrow> ('p, 'c, 'm) dispatch_state
   \<Rightarrow> string option \<times> ('p, 'c, 'm) dispatch_state" where
  "authorize c a t name input s =
     (case pm_check (xc_permission c) (at_fresh a) (at_mode a) (ds_permission s) name input (xc_cwd c) (xc_session_id c) of
        Permit \<Rightarrow> (None, s)
      | Refuse reason \<Rightarrow> (Some (''Denied by permission: '' @ reason), deny_call c a name input reason s)
      | Prompt prompt_id message \<Rightarrow> ask_person c a t name input prompt_id message s)"

section \<open>The call and its result\<close>

definition call_tool ::
  "('p, 'c, 'm) exec_ctx \<Rightarrow> 'c attempt \<Rightarrow> tool_traits \<Rightarrow> string \<Rightarrow> json \<Rightarrow> ('p, 'c, 'm) dispatch_state
   \<Rightarrow> tool_outcome \<times> ('p, 'c, 'm) dispatch_state" where
  "call_tool c a tt name input s =
     (let k = \<lparr>cc_cwd = xc_cwd c, cc_session_id = xc_session_id c, cc_turn_no = xc_turn_no c,
               cc_sandbox = sandbox_settings_from (xc_sandbox_policy c), cc_cancel = xc_cancel c,
               cc_writable = at_writable a, cc_mode = at_mode_running a, cc_tool_use_id = xc_tool_use_id c,
               cc_agent_depth = xc_agent_depth c\<rparr>;
          result = at_call a name input k;
          failed = (case result of Inr r \<Rightarrow> tr_is_error r | Inl _ \<Rightarrow> True);
          s1 = s\<lparr>ds_ran := ds_ran s @ [(name, input, k)],
                 ds_events := ds_events s
                   @ [ToolStart name (xc_tool_use_id c) (xc_json_size c input) (tt_destructive tt input) (tt_deferred tt),
                      ToolExecution name (xc_tool_use_id c) failed]\<rparr>
      in case result of
           Inl e \<Rightarrow> (Inl e, s1)
         | Inr r \<Rightarrow>
             (case render_result_content (tr_content r) of (txt, images) \<Rightarrow>
                (Inr \<lparr>ta_text = txt, ta_new_messages = tr_new_messages r, ta_reported_failure = tr_is_error r\<rparr>,
                 s1\<lparr>ds_images := ds_images s1 @ images\<rparr>)))"

definition outcome_text :: "tool_outcome \<Rightarrow> string" where
  "outcome_text oc = (case oc of Inr a \<Rightarrow> ta_text a | Inl e \<Rightarrow> e)"

definition outcome_failed :: "tool_outcome \<Rightarrow> bool" where
  "outcome_failed oc = (case oc of Inr a \<Rightarrow> ta_reported_failure a | Inl _ \<Rightarrow> True)"

definition post_tool_use ::
  "('p, 'c, 'm) exec_ctx \<Rightarrow> 'c attempt \<Rightarrow> string \<Rightarrow> json \<Rightarrow> tool_outcome \<times> ('p, 'c, 'm) dispatch_state
   \<Rightarrow> tool_outcome \<times> ('p, 'c, 'm) dispatch_state" where
  "post_tool_use c a name input p =
     (case p of (oc, s) \<Rightarrow>
        (let s1 = (case oc of
                     Inl e \<Rightarrow> fire_ctx_lifecycle_hook c a PostToolUseFailure (with_reason e \<circ> with_tool name input) s
                   | Inr _ \<Rightarrow> s)
         in if \<not> has_hooks_for (ds_hooks s1) PostToolUse then (oc, s1)
            else case run_ctx_hooks a PostToolUse
                        (tool_hook_input c ''PostToolUse'' (at_mode_after a) name input (Some (JString (outcome_text oc)))
                           (Some (outcome_failed oc))) s1 of
                   (ocs, s2) \<Rightarrow>
                     ((case blocked ocs of
                         Some r \<Rightarrow> Inl (''Denied by PostToolUse hook: '' @ reason_or r)
                       | None \<Rightarrow> oc),
                      s2\<lparr>ds_discontinued := ds_discontinued s2 \<or> discontinued ocs\<rparr>)))"

definition lifecycle_event :: "string \<Rightarrow> hook_event option" where
  "lifecycle_event name =
     (if name = ''TaskCreate'' then Some TaskCreated
      else if name = ''EnterWorktree'' then Some WorktreeCreate
      else if name = ''ExitWorktree'' then Some WorktreeRemove
      else None)"

definition announce_success ::
  "('p, 'c, 'm) exec_ctx \<Rightarrow> 'c attempt \<Rightarrow> string \<Rightarrow> json \<Rightarrow> tool_outcome \<times> ('p, 'c, 'm) dispatch_state
   \<Rightarrow> tool_outcome \<times> ('p, 'c, 'm) dispatch_state" where
  "announce_success c a name input p =
     (case p of
        (Inr ans, s) \<Rightarrow>
          (case lifecycle_event name of
             Some ev \<Rightarrow> (Inr ans, fire_ctx_lifecycle_hook c a ev (with_tool name input) s)
           | None \<Rightarrow> (Inr ans, s))
      | (Inl e, s) \<Rightarrow> (Inl e, s))"

definition apply_result_transformers ::
  "('p, 'c, 'm) exec_ctx \<Rightarrow> string \<Rightarrow> json \<Rightarrow> tool_outcome \<times> ('p, 'c, 'm) dispatch_state
   \<Rightarrow> tool_outcome \<times> ('p, 'c, 'm) dispatch_state" where
  "apply_result_transformers c name input p =
     (case p of (oc, s) \<Rightarrow>
        if xc_transformers c = [] then (oc, s)
        else (let was_reported_failure = (case oc of Inr ans \<Rightarrow> ta_reported_failure ans | Inl _ \<Rightarrow> False);
                  new_messages = (case oc of Inr ans \<Rightarrow> ta_new_messages ans | Inl _ \<Rightarrow> None);
                  draft = apply_transformers (xc_transformers c) \<lparr>tc_name = name, tc_input = input\<rparr>
                    \<lparr>td_text = outcome_text oc, td_images = ds_images s, td_is_error = outcome_failed oc\<rparr>;
                  s1 = s\<lparr>ds_images := td_images draft\<rparr>
              in if td_is_error draft \<and> \<not> was_reported_failure then (Inl (td_text draft), s1)
                 else (Inr \<lparr>ta_text = td_text draft, ta_new_messages = new_messages,
                            ta_reported_failure = td_is_error draft\<rparr>, s1)))"

section \<open>Dispatch\<close>

definition execute_tool_inner ::
  "('p, 'c, 'm) exec_ctx \<Rightarrow> 'c attempt \<Rightarrow> string \<Rightarrow> json \<Rightarrow> ('p, 'c, 'm) dispatch_state
   \<Rightarrow> tool_outcome \<times> ('p, 'c, 'm) dispatch_state" where
  "execute_tool_inner c a name input s =
     (case map_of (xc_tools c) name of
        None \<Rightarrow> (Inl (''Tool not found: '' @ name), s)
      | Some (t, tt) \<Rightarrow>
          (case pre_tool_use c a name input s of
             (Inl e, s1) \<Rightarrow> (Inl e, s1)
           | (Inr input1, s1) \<Rightarrow>
               (case authorize c a t name input1 s1 of
                  (Some e, s2) \<Rightarrow> (Inl e, s2)
                | (None, s2) \<Rightarrow>
                    apply_result_transformers c name input1
                      (announce_success c a name input1
                         (post_tool_use c a name input1 (call_tool c a tt name input1 s2))))))"

text \<open>Each pass through the ring is an attempt of its own, with the cancellation the wrappers settled on.\<close>

definition dispatch_attempt ::
  "('p, 'c, 'm) exec_ctx \<Rightarrow> (nat \<Rightarrow> 'c attempt) \<Rightarrow> string \<Rightarrow> json \<Rightarrow> 'c \<Rightarrow> ('p, 'c, 'm) dispatch_state
   \<Rightarrow> tool_outcome \<times> ('p, 'c, 'm) dispatch_state" where
  "dispatch_attempt c w name input cancel s =
     execute_tool_inner (c\<lparr>xc_cancel := cancel\<rparr>) (w (ds_attempts s)) name input
       (s\<lparr>ds_attempts := ds_attempts s + 1\<rparr>)"

definition execute_tool_with_telemetry ::
  "('p, 'c, 'm) exec_ctx \<Rightarrow> (nat \<Rightarrow> 'c attempt) \<Rightarrow> string \<Rightarrow> json \<Rightarrow> ('p, 'c, 'm) dispatch_state
   \<Rightarrow> tool_outcome \<times> ('p, 'c, 'm) dispatch_state" where
  "execute_tool_with_telemetry c w name input s =
     (if xc_middleware c = [] then dispatch_attempt c w name input (xc_cancel c) s
      else case dispatch_through (xc_middleware c) \<lparr>tc_name = name, tc_input = input\<rparr> (xc_cancel c) (ds_memory s)
                  (dispatch_attempt c w name input) s of
             (oc, m, s') \<Rightarrow> (oc, s'\<lparr>ds_memory := m\<rparr>))"

lemmas dispatch_defs [kernel_defs] =
  answer_as_def decline_reason_def decline_all_def authorization_options_def channel_ask_def
  resolve_permission_response_def drop_registration_def as_image_def block_text_def render_result_content_def
  apply_transformers_def truncate_text_def redact_new_def with_replacement_def redact_text_def redact_def
  dispatch_through_def rule_set_ops_def sandbox_settings_from_def with_turn_id_def with_tool_def with_reason_def
  tool_hook_input_def run_ctx_hooks_def fire_ctx_lifecycle_hook_def reason_or_def pre_tool_use_def deny_call_def
  permit_always_def authorization_def ask_person_def authorize_def call_tool_def outcome_text_def outcome_failed_def
  post_tool_use_def lifecycle_event_def announce_success_def apply_result_transformers_def execute_tool_inner_def
  dispatch_attempt_def execute_tool_with_telemetry_def

end
