(* ===== verification/DispatchProps.thy ===== *)
theory DispatchProps
  imports Dispatch GateProps
begin

text \<open>
  What the dispatch of a tool call promises: a tool runs only on an input the permission checker was asked about and
  permitted or a person approved, whatever hooks, wrappers and transformers do; a call that a deny rule, a
  protected path or the tool itself forbids never runs, in any mode and whatever anyone answers; redaction leaves no
  secret behind.  The locale \<open>permission_contract\<close> is what dispatch needs of a checker; it is interpreted for the one
  the source ships.
\<close>

section \<open>What an attempt leaves alone\<close>

lemma run_ctx_hooks_frame [simp]:
  "ds_ran (snd (run_ctx_hooks a ev i s)) = ds_ran s"
  "ds_permission (snd (run_ctx_hooks a ev i s)) = ds_permission s"
  "ds_asked (snd (run_ctx_hooks a ev i s)) = ds_asked s"
  by (simp_all add: run_ctx_hooks_def split: prod.splits)

lemma fire_frame [simp]:
  "ds_ran (fire_ctx_lifecycle_hook c a ev b s) = ds_ran s"
  "ds_permission (fire_ctx_lifecycle_hook c a ev b s) = ds_permission s"
  "ds_asked (fire_ctx_lifecycle_hook c a ev b s) = ds_asked s"
  by (simp_all add: fire_ctx_lifecycle_hook_def)

lemma deny_frame [simp]:
  "ds_ran (deny_call c a n i r s) = ds_ran s" "ds_permission (deny_call c a n i r s) = ds_permission s"
  by (simp_all add: deny_call_def)

text \<open>The input a call goes on with: the one it came with, or what a hook made of it.\<close>

definition came_from ::
  "('p, 'c, 'm) exec_ctx \<Rightarrow> 'c attempt \<Rightarrow> string \<Rightarrow> json \<Rightarrow> json \<Rightarrow> bool" where
  "came_from c a name input i \<longleftrightarrow>
     i = input \<or>
     (\<exists>h. updated_input (fst (run_hooks (at_hooks a PreToolUse) PreToolUse
            (tool_hook_input c ''PreToolUse'' (at_mode a) name input None None) h)) = Some i)"

lemma pre_tool_use_frame:
  assumes "pre_tool_use c a name input s = (r, s')"
  shows "ds_ran s' = ds_ran s \<and> ds_permission s' = ds_permission s \<and> (\<forall>i. r = Inr i \<longrightarrow> came_from c a name input i)"
proof (cases "has_hooks_for (ds_hooks s) PreToolUse")
  case True
  let ?i = "tool_hook_input c ''PreToolUse'' (at_mode a) name input None None"
  obtain ocs s1 where run: "run_ctx_hooks a PreToolUse ?i s = (ocs, s1)" by fastforce
  have ocs: "ocs = fst (run_hooks (at_hooks a PreToolUse) PreToolUse ?i (ds_hooks s))"
    using run by (simp add: run_ctx_hooks_def split: prod.splits)
  have "ds_ran s1 = ds_ran s" "ds_permission s1 = ds_permission s"
    using run_ctx_hooks_frame[of a PreToolUse ?i s] run by simp_all
  then show ?thesis
    using assms True run ocs
    by (auto simp: pre_tool_use_def came_from_def split: option.splits)
qed (use assms in \<open>auto simp: pre_tool_use_def came_from_def\<close>)

section \<open>Authorisation\<close>

definition approved_by_person :: "('p, 'c, 'm) exec_ctx \<Rightarrow> 'c attempt \<Rightarrow> elicit_request \<Rightarrow> bool" where
  "approved_by_person c a r \<longleftrightarrow>
     (\<exists>v. at_wait a r (xc_cancel c) (xc_prompt_timeout c) = WaitAnswered (Answered v) \<and>
        (xc_decision c v = Some PersonPermit \<or> (\<exists>scope. xc_decision c v = Some (PersonPermitAlways scope))))"

definition authorised :: "('p, 'c, 'm) exec_ctx \<Rightarrow> 'c attempt \<Rightarrow> 'p \<Rightarrow> string \<Rightarrow> json \<Rightarrow> bool" where
  "authorised c a p name i \<longleftrightarrow>
     (case pm_check (xc_permission c) (at_fresh a) (at_mode a) p name i (xc_cwd c) (xc_session_id c) of
        Permit \<Rightarrow> True
      | Refuse _ \<Rightarrow> False
      | Prompt prompt_id message \<Rightarrow> approved_by_person c a (authorization c name prompt_id message))"

definition grown :: "'p permission_ops \<Rightarrow> string \<Rightarrow> 'p \<Rightarrow> 'p \<Rightarrow> bool" where
  "grown ops name p p' \<longleftrightarrow> (\<exists>ms. p' = foldl (\<lambda>p m. pm_allow ops p name m) p ms)"

lemma grown_refl [simp]: "grown ops name p p"
  unfolding grown_def by (rule exI[of _ "[]"]) simp

lemma grown_one: "grown ops name p q \<Longrightarrow> grown ops name p (pm_allow ops q name m)"
  unfolding grown_def by (metis foldl_Cons foldl_Nil foldl_append)

lemma permit_always_frame:
  "ds_ran (permit_always c t name i scope s) = ds_ran s \<and>
   ds_permission (permit_always c t name i scope s) =
     pm_allow (xc_permission c) (ds_permission s) name (t_permission_match_content t i)"
  by (simp add: permit_always_def Let_def split: persist_scope.splits option.splits sum.splits prod.splits)

lemma answer_as_Some: "answer_as f oc = Some d \<longleftrightarrow> (\<exists>v. oc = Answered v \<and> f v = Some d)"
  by (cases oc) (auto simp: answer_as_def)

lemma ask_person_frame:
  assumes "ask_person c a t name i prompt_id message s = (r, s')"
  shows "ds_ran s' = ds_ran s \<and> grown (xc_permission c) name (ds_permission s) (ds_permission s')
    \<and> (r = None \<longrightarrow> approved_by_person c a (authorization c name prompt_id message))"
proof -
  note allow = grown_one[OF grown_refl]
  show ?thesis
    using assms
    by (auto simp: ask_person_def Let_def approved_by_person_def answer_as_Some permit_always_frame allow
        split: wait_end.splits option.splits person_decision.splits)
qed

lemma authorize_frame:
  assumes "authorize c a t name i s = (r, s')"
  shows "ds_ran s' = ds_ran s \<and> grown (xc_permission c) name (ds_permission s) (ds_permission s')
    \<and> (r = None \<longrightarrow> authorised c a (ds_permission s) name i)"
  using assms ask_person_frame
  by (fastforce simp: authorize_def authorised_def split: outcome.splits)

section \<open>One attempt\<close>

lemma call_tool_ran:
  assumes "call_tool c a tt name i s = (oc, s')"
  shows "\<exists>k. ds_ran s' = ds_ran s @ [(name, i, k)] \<and> cc_cancel k = xc_cancel c \<and> ds_permission s' = ds_permission s"
  using assms by (auto simp: call_tool_def Let_def split: sum.splits prod.splits)

lemma post_tool_use_frame:
  "ds_ran (snd (post_tool_use c a name i p)) = ds_ran (snd p)"
  "ds_permission (snd (post_tool_use c a name i p)) = ds_permission (snd p)"
proof -
  obtain oc s where p: "p = (oc, s)" by fastforce
  let ?s = "case oc of Inl e \<Rightarrow> fire_ctx_lifecycle_hook c a PostToolUseFailure (with_reason e \<circ> with_tool name i) s
                     | Inr _ \<Rightarrow> s"
  have s: "ds_ran ?s = ds_ran s" "ds_permission ?s = ds_permission s" by (cases oc; simp)+
  have "ds_ran (snd (run_ctx_hooks a PostToolUse j ?s)) = ds_ran s"
    "ds_permission (snd (run_ctx_hooks a PostToolUse j ?s)) = ds_permission s" for j
    by (simp_all add: s)
  then show "ds_ran (snd (post_tool_use c a name i p)) = ds_ran (snd p)"
    "ds_permission (snd (post_tool_use c a name i p)) = ds_permission (snd p)"
    using s by (simp_all add: post_tool_use_def p Let_def split_beta)
qed

lemma announce_success_frame:
  "ds_ran (snd (announce_success c a name i p)) = ds_ran (snd p)"
  "ds_permission (snd (announce_success c a name i p)) = ds_permission (snd p)"
  by (auto simp: announce_success_def split: prod.splits sum.splits option.splits)

lemma apply_result_transformers_frame:
  "ds_ran (snd (apply_result_transformers c name i p)) = ds_ran (snd p)"
  "ds_permission (snd (apply_result_transformers c name i p)) = ds_permission (snd p)"
  by (auto simp: apply_result_transformers_def Let_def split: prod.splits)

lemmas tail_frames = apply_result_transformers_frame announce_success_frame post_tool_use_frame

text \<open>An attempt runs the tool at most once, and only on an input that was authorised.\<close>

lemma execute_tool_inner_ran:
  assumes "execute_tool_inner c a name input s = (oc, s')"
  shows "grown (xc_permission c) name (ds_permission s) (ds_permission s') \<and>
    (ds_ran s' = ds_ran s \<or>
     (\<exists>i k. ds_ran s' = ds_ran s @ [(name, i, k)] \<and> cc_cancel k = xc_cancel c
        \<and> came_from c a name input i \<and> authorised c a (ds_permission s) name i))"
proof (cases "map_of (xc_tools c) name")
  case None
  then show ?thesis using assms by (simp add: execute_tool_inner_def)
next
  case (Some pair)
  obtain t tt where pair: "pair = (t, tt)" by fastforce
  obtain r s1 where pre: "pre_tool_use c a name input s = (r, s1)" by fastforce
  note pre_f = pre_tool_use_frame[OF pre]
  show ?thesis
  proof (cases r)
    case (Inl e)
    then show ?thesis using assms Some pair pre pre_f by (simp add: execute_tool_inner_def)
  next
    case (Inr i)
    obtain q s2 where auth: "authorize c a t name i s1 = (q, s2)" by fastforce
    note auth_f = authorize_frame[OF auth]
    show ?thesis
    proof (cases q)
      case (Some e)
      then show ?thesis
        using assms \<open>map_of (xc_tools c) name = Some pair\<close> pair pre Inr auth pre_f auth_f
        by (simp add: execute_tool_inner_def)
    next
      case None
      obtain oc3 s3 where call: "call_tool c a tt name i s2 = (oc3, s3)" by fastforce
      have "s' = snd (apply_result_transformers c name i (announce_success c a name i
              (post_tool_use c a name i (oc3, s3))))"
        using assms \<open>map_of (xc_tools c) name = Some pair\<close> pair pre Inr auth None call
        by (simp add: execute_tool_inner_def)
      then have "ds_ran s' = ds_ran s3" "ds_permission s' = ds_permission s3" by (simp_all add: tail_frames)
      then show ?thesis
        using call_tool_ran[OF call] pre_f auth_f Inr None by metis
    qed
  qed
qed

section \<open>The ring\<close>

text \<open>What every pass through the terminal keeps, the ring keeps, whatever its wrappers do.\<close>

lemma around_keeps:
  assumes "\<And>c x s. P s \<Longrightarrow> P (snd (snd (inner c x s)))"
  shows "P s \<Longrightarrow> P (snd (snd (around st inner s)))"
proof (induction st arbitrary: s)
  case (WrapNext c x k)
  obtain oc x' s' where i: "inner c x s = (oc, x', s')" by (metis surj_pair)
  then have "P s'" using assms[OF WrapNext.prems, of c x] by simp
  then show ?case using WrapNext.IH[OF rangeI rangeI, of s' oc x'] i by simp
qed simp

lemma next_run_keeps:
  assumes "\<And>c s. P s \<Longrightarrow> P (snd (terminal c s))"
  shows "P s \<Longrightarrow> P (snd (snd (next_run terminal ms c x s)))"
proof (induction ms arbitrary: c x s)
  case Nil
  then show ?case using assms[of s "ex_cancel x"] by (auto split: prod.splits)
next
  case (Cons m ms)
  show ?case using around_keeps[of P "next_run terminal ms", OF Cons.IH Cons.prems] by simp
qed

lemma dispatch_keeps:
  assumes step: "\<And>cancel s. P s \<Longrightarrow> P (snd (dispatch_attempt c w name input cancel s))"
    and memory: "\<And>s m. P s \<Longrightarrow> P (s\<lparr>ds_memory := m\<rparr>)"
    and "execute_tool_with_telemetry c w name input s = (oc, s')" and "P s"
  shows "P s'"
proof (cases "xc_middleware c = []")
  case True
  then show ?thesis using assms step[of s "xc_cancel c"] by (simp add: execute_tool_with_telemetry_def)
next
  case False
  obtain oc' m s1 where d: "dispatch_through (xc_middleware c) \<lparr>tc_name = name, tc_input = input\<rparr> (xc_cancel c)
      (ds_memory s) (dispatch_attempt c w name input) s = (oc', m, s1)" by (metis surj_pair)
  have "P s1"
    using next_run_keeps[of P "dispatch_attempt c w name input" s "xc_middleware c" "\<lparr>tc_name = name, tc_input = input\<rparr>"
        "\<lparr>ex_cancel = xc_cancel c, ex_memory = ds_memory s\<rparr>", OF step \<open>P s\<close>] d
    by (simp add: dispatch_through_def split: prod.splits)
  then have "P (s1\<lparr>ds_memory := m\<rparr>)" by (rule memory)
  then show ?thesis using assms(3) False d by (simp add: execute_tool_with_telemetry_def)
qed

text \<open>Every call that reached the tool was on an input the checker was asked about, in a permission state the
  session's own grants lead to, and was permitted or approved by a person in that attempt.\<close>

definition accounted ::
  "('p, 'c, 'm) exec_ctx \<Rightarrow> (nat \<Rightarrow> 'c attempt) \<Rightarrow> 'p \<Rightarrow> string \<Rightarrow> json \<Rightarrow> string \<times> json \<times> 'c call_ctx \<Rightarrow> bool" where
  "accounted c w p0 name input x \<longleftrightarrow>
     (case x of (n, i, k) \<Rightarrow>
        n = name \<and>
        (\<exists>j p. grown (xc_permission c) name p0 p
           \<and> came_from c (w j) name input i
           \<and> authorised (c\<lparr>xc_cancel := cc_cancel k\<rparr>) (w j) p name i))"

definition progressed ::
  "('p, 'c, 'm) exec_ctx \<Rightarrow> (nat \<Rightarrow> 'c attempt) \<Rightarrow> string \<Rightarrow> json \<Rightarrow> ('p, 'c, 'm) dispatch_state
   \<Rightarrow> ('p, 'c, 'm) dispatch_state \<Rightarrow> bool" where
  "progressed c w name input s0 s \<longleftrightarrow>
     grown (xc_permission c) name (ds_permission s0) (ds_permission s) \<and>
     (\<exists>new. ds_ran s = ds_ran s0 @ new \<and> (\<forall>x\<in>set new. accounted c w (ds_permission s0) name input x))"

lemma grown_trans: "grown ops name p q \<Longrightarrow> grown ops name q r \<Longrightarrow> grown ops name p r"
  unfolding grown_def by (metis foldl_append)

lemma came_from_cancel [simp]: "came_from (c\<lparr>xc_cancel := x\<rparr>) a name input i \<longleftrightarrow> came_from c a name input i"
  by (simp add: came_from_def tool_hook_input_def)

lemma attempt_progresses:
  assumes "progressed c w name input s0 s"
  shows "progressed c w name input s0 (snd (dispatch_attempt c w name input cancel s))"
proof -
  let ?c = "c\<lparr>xc_cancel := cancel\<rparr>" and ?s = "s\<lparr>ds_attempts := ds_attempts s + 1\<rparr>"
  obtain oc s' where inner: "execute_tool_inner ?c (w (ds_attempts s)) name input ?s = (oc, s')"
    by (meson surj_pair)
  have s': "snd (dispatch_attempt c w name input cancel s) = s'" using inner by (simp add: dispatch_attempt_def)
  obtain new where new: "ds_ran s = ds_ran s0 @ new" "\<forall>x\<in>set new. accounted c w (ds_permission s0) name input x"
    and grown: "grown (xc_permission c) name (ds_permission s0) (ds_permission s)"
    using assms by (auto simp: progressed_def)
  note one = execute_tool_inner_ran[OF inner, simplified]
  have grown': "grown (xc_permission c) name (ds_permission s0) (ds_permission s')"
    using grown_trans[OF grown] one by simp
  consider "ds_ran s' = ds_ran s"
    | i k where "ds_ran s' = ds_ran s @ [(name, i, k)]" "cc_cancel k = cancel"
        "came_from c (w (ds_attempts s)) name input i" "authorised ?c (w (ds_attempts s)) (ds_permission s) name i"
    using one by auto
  then show ?thesis
  proof cases
    case 1
    then show ?thesis using new grown' by (auto simp: progressed_def s')
  next
    case 2
    then have "accounted c w (ds_permission s0) name input (name, i, k)" using grown by (auto simp: accounted_def)
    then show ?thesis using new grown' 2(1) by (auto simp: progressed_def s')
  qed
qed

lemma dispatch_progresses:
  assumes "execute_tool_with_telemetry c w name input s = (oc, s')"
  shows "progressed c w name input s s'"
  using dispatch_keeps[where P = "progressed c w name input s", OF attempt_progresses _ assms]
  by (auto simp: progressed_def)

text \<open>C4. However wrappers retry, forge or answer calls, every call that reached a tool was on the name the model asked
  for and an input that came from the model or a hook's rewriting of it, and was permitted by the checker, as the session's own
  grants left it, or approved by a person.\<close>

theorem tool_runs_are_authorised:
  assumes "execute_tool_with_telemetry c w name input s = (oc, s')"
  shows "\<exists>new. ds_ran s' = ds_ran s @ new \<and> (\<forall>x\<in>set new. accounted c w (ds_permission s) name input x)"
  using dispatch_progresses[OF assms] by (simp add: progressed_def)

section \<open>The contract of a checker\<close>

locale permission_contract =
  fixes check :: "string \<Rightarrow> permission_mode \<Rightarrow> 'p \<Rightarrow> string \<Rightarrow> json \<Rightarrow> path \<Rightarrow> string \<Rightarrow> outcome"
    and allow :: "'p \<Rightarrow> string \<Rightarrow> string option \<Rightarrow> 'p"
    and forbidden :: "'p \<Rightarrow> string \<Rightarrow> json \<Rightarrow> path \<Rightarrow> string \<Rightarrow> bool"
  assumes refuses: "forbidden p n i d sid \<Longrightarrow> \<exists>r. check fresh live p n i d sid = Refuse r"
    and kept: "forbidden p n i d sid \<Longrightarrow> forbidden (allow p n m) n i d sid"
begin

lemma kept_grown:
  assumes "grown \<lparr>pm_check = check, pm_allow = allow\<rparr> n p q" "forbidden p n i d sid"
  shows "forbidden q n i d sid"
proof -
  have "forbidden (foldl (\<lambda>p m. allow p n m) p ms) n i d sid" for ms
    using assms(2) by (induction ms arbitrary: p) (simp_all add: kept)
  then show ?thesis using assms(1) by (auto simp: grown_def)
qed

lemma never_accounted:
  assumes "xc_permission c = \<lparr>pm_check = check, pm_allow = allow\<rparr>" "accounted c w p name input (n, i, k)"
  shows "n = name \<and> \<not> forbidden p name i (xc_cwd c) (xc_session_id c)"
proof -
  obtain j q where n: "n = name" and q: "grown (xc_permission c) name p q"
    and a: "authorised (c\<lparr>xc_cancel := cc_cancel k\<rparr>) (w j) q name i"
    using assms(2) by (auto simp: accounted_def)
  have "\<not> forbidden q name i (xc_cwd c) (xc_session_id c)"
    using a refuses[of q name i "xc_cwd c" "xc_session_id c" "at_fresh (w j)" "at_mode (w j)"] assms(1)
    by (auto simp: authorised_def)
  then show ?thesis using n q assms(1) kept_grown by auto
qed

lemma forbidden_never_runs:
  assumes "execute_tool_with_telemetry c w name input s = (oc, s')"
    and "xc_permission c = \<lparr>pm_check = check, pm_allow = allow\<rparr>"
  shows "\<exists>new. ds_ran s' = ds_ran s @ new \<and>
    (\<forall>(n, i, k)\<in>set new. n = name \<and> \<not> forbidden (ds_permission s) name i (xc_cwd c) (xc_session_id c))"
  using dispatch_progresses[OF assms(1)] never_accounted[OF assms(2)] by (fastforce simp: progressed_def)

end

section \<open>The checker the source ships\<close>

text \<open>What no mode, grant or person can let through: a deny verdict of the rules, a protected path, the tool's
  own refusal.\<close>

definition forbidden_call :: "env \<Rightarrow> handler \<Rightarrow> string \<Rightarrow> json \<Rightarrow> path \<Rightarrow> string \<Rightarrow> bool" where
  "forbidden_call e h name i d sid \<longleftrightarrow>
     (case map_of (h_tools h) name of
        None \<Rightarrow> False
      | Some t \<Rightarrow>
          \<forall>mode. let ctx = \<lparr>ctx_cwd = d, ctx_mode = mode, ctx_session_id = sid, ctx_sandbox = h_sandbox h\<rparr>
                 in verdict e (h_gate h) t i ctx = Some BDeny \<or> touches_protected e t i ctx \<or> self_denies t i ctx)"

lemma evaluate_deny_mono:
  assumes "kind (evaluate e rules n c) = Some BDeny" "rule_behavior r = BAllow"
  shows "kind (evaluate e (rules @ [r]) n c) = Some BDeny"
  using assms content.added_allow[OF assms(2), of e n c rules] by (auto simp: evaluate_def)

lemma evaluate_shell_deny_mono:
  assumes "kind (evaluate_shell e rules n l) = Some BDeny" "rule_behavior r = BAllow"
  shows "kind (evaluate_shell e (rules @ [r]) n l) = Some BDeny"
  using assms evaluate_deny_mono[OF _ assms(2)]
  by (force simp: evaluate_shell_kind shell_verdict_def strongest_def Let_def split: if_splits)

lemma primary_in_all: "primary p \<in> set (resolved_all p)"
  by (simp add: resolved_all_def)

lemma evaluate_path_deny_mono:
  assumes "kind (evaluate_path e rules n g p d) = Some BDeny" "rule_behavior r = BAllow"
  shows "kind (evaluate_path e (rules @ [r]) n g p d) = Some BDeny"
proof -
  have "kind (decide (path_matcher e n g d q) (rules @ [r])) = Some BDeny"
    if "kind (decide (path_matcher e n g d q) rules) = Some BDeny" for q
    using that paths.added_allow[OF assms(2), of e n g d q rules] by auto
  moreover have "\<exists>q\<in>set (resolved_all p). kind (decide (path_matcher e n g d q) rules) = Some BDeny"
    using assms(1) primary_in_all[of p] by (auto simp: evaluate_path_kind strongest_def Let_def split: if_splits)
  ultimately show ?thesis by (force simp: evaluate_path_kind strongest_def Let_def)
qed

lemma deny_verdict_mono:
  assumes "verdict e g t i ctx = Some BDeny" "rule_behavior r = BAllow"
  shows "verdict e (gate_add_rules g [r]) t i ctx = Some BDeny"
proof -
  note mono = evaluate_deny_mono[OF _ assms(2)] evaluate_shell_deny_mono[OF _ assms(2)] evaluate_path_deny_mono[OF _ assms(2)]
  show ?thesis
    using assms(1)
    by (cases "path_rule_group (t_permission_content_kind t)"; cases "resolved_for e t i ctx";
        cases "t_permission_match_content t i"; cases "t_permission_content_kind t = ShellCommand")
       (simp_all add: verdict_def rule_hit_for_def gate_add_rules_def ruleset_extend_def mono)
qed

lemma forbidden_call_bound [simp]: "forbidden_call e (bind_session_state h live) = forbidden_call e h"
  by (intro ext) (simp add: forbidden_call_def bind_session_state_def cong: option.case_cong)

lemma forbidden_call_refused:
  assumes "forbidden_call e h name i d sid"
  shows "\<exists>r. handler_check e h fresh name i d sid = Refuse r"
proof -
  obtain t where t: "map_of (h_tools h) name = Some t"
    using assms by (auto simp: forbidden_call_def split: option.splits)
  let ?ctx = "\<lparr>ctx_cwd = d, ctx_mode = (case h_session h of Some m \<Rightarrow> m | None \<Rightarrow> h_mode h), ctx_session_id = sid,
    ctx_sandbox = h_sandbox h\<rparr>"
  have "\<not> gate_allows e (h_gate h) t i ?ctx \<and> \<not> gate_asks e (h_gate h) t i ?ctx"
    by (rule gate_check_refused) (use assms t in \<open>auto simp: forbidden_call_def Let_def\<close>)
  then show ?thesis
    by (cases "gate_check e (h_gate h) t i ?ctx"; cases "projr (gate_check e (h_gate h) t i ?ctx)")
       (simp_all add: handler_check_def Let_def t gate_allows_def gate_asks_def)
qed

lemma forbidden_call_kept:
  assumes "forbidden_call e h name i d sid"
  shows "forbidden_call e (add_persistent_allow h name m) name i d sid"
proof -
  let ?r = "\<lparr>rule_source = Session, rule_behavior = BAllow, tool_name = name, rule_content = m\<rparr>"
  have "verdict e g t i ctx = Some BDeny \<Longrightarrow> verdict e (gate_add_rules g [?r]) t i ctx = Some BDeny" for g t ctx
    by (rule deny_verdict_mono) simp_all
  then show ?thesis
    using assms by (auto simp: forbidden_call_def add_persistent_allow_def Let_def split: option.splits)
qed

interpretation rule_set_checker: permission_contract "pm_check (rule_set_ops e)" add_persistent_allow "forbidden_call e" for e
  by unfold_locales (auto simp: rule_set_ops_def forbidden_call_refused forbidden_call_kept)

text \<open>C5. A call that a deny rule, a protected path or the tool itself forbids in every mode never reaches the tool:
  not through a hook that rewrites its input, not through a wrapper that retries or forges calls, not through a
  person who approves or approves for always, not through earlier grants.\<close>

theorem forbidden_call_never_runs:
  assumes "execute_tool_with_telemetry c w name input s = (oc, s')" and "xc_permission c = rule_set_ops e"
  shows "\<exists>new. ds_ran s' = ds_ran s @ new \<and>
    (\<forall>(n, i, k)\<in>set new. n = name \<and> \<not> forbidden_call e (ds_permission s) name i (xc_cwd c) (xc_session_id c))"
  by (rule rule_set_checker.forbidden_never_runs[OF assms(1)]) (simp add: assms(2) rule_set_ops_def)

section \<open>Answers\<close>

datatype channel_op = OpAsk elicit_request | OpResolve string person_decision | OpDrop string

fun channel_step :: "ask_channel \<Rightarrow> channel_op \<Rightarrow> ask_channel" where
  "channel_step c (OpAsk r) = (case channel_ask r c of Inr c' \<Rightarrow> c' | Inl _ \<Rightarrow> c)"
| "channel_step c (OpResolve i d) = resolve_permission_response i d c"
| "channel_step c (OpDrop i) = drop_registration i c"

definition no_asks :: ask_channel where
  "no_asks = \<lparr>ac_pending = [], ac_delivered = [], ac_prompts = [], ac_denials = 0\<rparr>"

definition ids_asked :: "channel_op list \<Rightarrow> string list" where
  "ids_asked ops = List.map_filter (\<lambda>op. case op of OpAsk r \<Rightarrow> Some (er_id r) | _ \<Rightarrow> None) ops"

definition channel_ok :: "string list \<Rightarrow> ask_channel \<Rightarrow> bool" where
  "channel_ok ids c \<longleftrightarrow>
     distinct (map fst (ac_delivered c)) \<and> set (ac_pending c) \<inter> fst ` set (ac_delivered c) = {}
     \<and> set (ac_pending c) \<union> fst ` set (ac_delivered c) \<subseteq> set ids"

lemma channel_ask_ok:
  assumes "channel_ok ids c" "er_id r \<notin> set ids" "channel_ask r c = Inr c'"
  shows "channel_ok (ids @ [er_id r]) c'"
proof -
  have c': "set (ac_pending c') \<subseteq> insert (er_id r) (set (ac_pending c))" "ac_delivered c' = ac_delivered c"
    using assms(3) by (cases "er_kind r"; auto simp: channel_ask_def Let_def)+
  let ?p = "set (ac_pending c)" and ?d = "fst ` set (ac_delivered c)"
  have old: "distinct (map fst (ac_delivered c))" "?p \<inter> ?d = {}" "?p \<union> ?d \<subseteq> set ids"
    using assms(1) by (auto simp: channel_ok_def)
  then have "er_id r \<notin> ?d" using assms(2) by blast
  then have "insert (er_id r) ?p \<inter> ?d = {}" using old(2) by simp
  then have "set (ac_pending c') \<inter> ?d = {}" using c'(1) by blast
  moreover have "set (ac_pending c') \<union> ?d \<subseteq> set (ids @ [er_id r])" using c'(1) old(3) by auto
  ultimately show ?thesis using old(1) c'(2) by (simp add: channel_ok_def)
qed

lemma resolve_ok: "channel_ok ids c \<Longrightarrow> channel_ok ids (resolve_permission_response i d c)"
  by (cases d) (auto simp: resolve_permission_response_def channel_ok_def Let_def)

lemma channel_ok_more: "channel_ok ids c \<Longrightarrow> channel_ok (ids @ more_ids) c"
  by (auto simp: channel_ok_def)

text \<open>However questions, answers and give-ups interleave, a question gets at most one answer, and no answer is
  delivered that no question asked for.\<close>

theorem each_question_is_answered_once:
  assumes "distinct (ids_asked ops)"
  shows "channel_ok (ids_asked ops) (foldl channel_step no_asks ops)"
  using assms
proof (induction ops rule: rev_induct)
  case (snoc op ops)
  have ids: "ids_asked (ops @ [op]) = ids_asked ops @ ids_asked [op]"
    by (simp add: ids_asked_def hook_map_filter_append)
  then have ok: "channel_ok (ids_asked ops) (foldl channel_step no_asks ops)" using snoc by simp
  show ?case
  proof (cases op)
    case (OpAsk r)
    then have "er_id r \<notin> set (ids_asked ops)" and one: "ids_asked [op] = [er_id r]"
      using snoc.prems ids by (auto simp: ids_asked_def List.map_filter_simps)
    then show ?thesis
      using channel_ask_ok[OF ok, of r] channel_ok_more[OF ok]
      by (cases "channel_ask r (foldl channel_step no_asks ops)") (simp_all add: OpAsk ids[unfolded OpAsk])
  next
    case (OpResolve i d)
    then have "ids_asked [op] = []" by (simp add: ids_asked_def List.map_filter_simps)
    then show ?thesis using resolve_ok[OF ok] OpResolve ids by simp
  next
    case (OpDrop i)
    then have "ids_asked [op] = []" by (simp add: ids_asked_def List.map_filter_simps)
    then show ?thesis using ok OpDrop ids by (auto simp: channel_ok_def drop_registration_def)
  qed
qed (simp add: channel_ok_def no_asks_def)

lemma each_question_is_answered_once_witness:
  "let r = \<lparr>er_id = ''p1'', er_kind = Authorization ''Bash'' [] None, er_message = [], er_options = []\<rparr>;
       c = foldl channel_step no_asks
             [OpAsk r, OpResolve ''p1'' PersonPermit, OpResolve ''p1'' (PersonDeny []), OpDrop ''p1'']
   in ac_delivered c = [(''p1'', PersonPermit)] \<and> channel_ok [''p1''] c"
proof -
  let ?r = "\<lparr>er_id = ''p1'', er_kind = Authorization ''Bash'' [] None, er_message = [], er_options = []\<rparr>"
  let ?ops = "[OpAsk ?r, OpResolve ''p1'' PersonPermit, OpResolve ''p1'' (PersonDeny []), OpDrop ''p1'']"
  have "ids_asked ?ops = [''p1'']" by (simp add: ids_asked_def List.map_filter_simps)
  then have "channel_ok [''p1''] (foldl channel_step no_asks ?ops)"
    using each_question_is_answered_once[of ?ops] by simp
  moreover have "ac_delivered (foldl channel_step no_asks ?ops) = [(''p1'', PersonPermit)]"
    by (simp add: no_asks_def channel_ask_def resolve_permission_response_def drop_registration_def)
  ultimately show ?thesis by (simp only: Let_def simp_thms)
qed

section \<open>Samples\<close>

definition sample_traits :: tool_traits where
  "sample_traits = \<lparr>tt_destructive = (\<lambda>_. False), tt_deferred = False\<rparr>"

definition no_sandbox :: sandbox_policy_config where
  "no_sandbox =
     \<lparr>sp_allow_read = [], sp_deny_read = None, sp_network_mode = Unrestricted, sp_allowed_domains = [],
      sp_deny_write = [], sp_allow_write = [], sp_state_root = None, sp_require_enforcement = False\<rparr>"

definition sample_exec :: "'p permission_ops \<Rightarrow> string \<Rightarrow> ('p, unit, unit) exec_ctx" where
  "sample_exec ops name =
     \<lparr>xc_tool_use_id = ''toolu_1'', xc_tools = [(name, (quiet_tool, sample_traits))], xc_cwd = [RootDir],
      xc_session_id = ''s'', xc_turn_no = 1, xc_agent_depth = 0, xc_turn_id = ''t1'', xc_cancel = (),
      xc_sandbox_policy = no_sandbox, xc_prompt_timeout = 0, xc_permission = ops,
      xc_decision = (\<lambda>_. Some (PersonPermitAlways ScopeSession)),
      xc_middleware = [\<lambda>c x. WrapNext c x (\<lambda>oc x. WrapNext c x (\<lambda>oc x. WrapAnswer oc x))],
      xc_transformers = [], xc_json_size = (\<lambda>_. 2)\<rparr>"

definition sample_attempt :: "(string \<Rightarrow> hook_response option) \<Rightarrow> tool_result \<Rightarrow> nat \<Rightarrow> unit attempt" where
  "sample_attempt answers r n =
     \<lparr>at_hooks = (\<lambda>_. quiet_env\<lparr>he_process := (\<lambda>_ _ _ _. Exited True (Some 0) ''answer'' []), he_response := answers\<rparr>),
      at_mode = BypassPermissions, at_fresh = ''p1'', at_wait = (\<lambda>_ _ _. WaitAnswered (Answered JNull)),
      at_mode_running = BypassPermissions, at_writable = [], at_call = (\<lambda>_ _ _. Inr r),
      at_mode_after = BypassPermissions\<rparr>"

definition sample_state :: "'p \<Rightarrow> hooks_settings \<Rightarrow> ('p, unit, unit) dispatch_state" where
  "sample_state p hooks =
     \<lparr>ds_permission = p, ds_hooks = runner_new hooks, ds_settings = Missing, ds_images = [], ds_discontinued = False,
      ds_memory = (), ds_attempts = 0, ds_asked = [], ds_ran = [], ds_events = []\<rparr>"

definition plain_result :: tool_result where
  "plain_result = \<lparr>tr_content = ContentText ''ok'', tr_is_error = False, tr_new_messages = None\<rparr>"

definition permit_all :: "unit permission_ops" where
  "permit_all = \<lparr>pm_check = (\<lambda>_ _ _ _ _ _ _. Permit), pm_allow = (\<lambda>p _ _. p)\<rparr>"

lemmas sample_defs = sample_traits_def no_sandbox_def sample_exec_def sample_attempt_def sample_state_def
  plain_result_def permit_all_def quiet_env_def

text \<open>A wrapper that always retries runs a permitted tool twice, each run accounted for.\<close>

lemma sample_runs_twice:
  "map (\<lambda>(n, i, k). (n, i)) (ds_ran (snd (execute_tool_with_telemetry (sample_exec permit_all ''Read'')
     (sample_attempt (\<lambda>_. None) plain_result) ''Read'' JNull (sample_state () [])))) = [(''Read'', JNull), (''Read'', JNull)]"
  by (simp add: sample_defs kernel_defs has_hooks_for_def runner_new_def)

lemma tool_runs_are_authorised_witness:
  "\<exists>new. length new = 2 \<and> (\<forall>x\<in>set new. accounted (sample_exec permit_all ''Read'') (sample_attempt (\<lambda>_. None) plain_result)
     () ''Read'' JNull x)"
proof -
  let ?c = "sample_exec permit_all ''Read''" and ?w = "sample_attempt (\<lambda>_. None) plain_result"
  let ?s = "sample_state () []"
  obtain oc s' where d: "execute_tool_with_telemetry ?c ?w ''Read'' JNull ?s = (oc, s')" by fastforce
  have "length (ds_ran s') = 2" using arg_cong[OF sample_runs_twice, of length] d by simp
  then show ?thesis using tool_runs_are_authorised[OF d] by (auto simp: sample_state_def)
qed

definition deny_read :: handler where
  "deny_read = handler_new (gate_new [\<lparr>rule_source = UserSettings, rule_behavior = BDeny, tool_name = ''Read'',
     rule_content = None\<rparr>]) [(''Read'', quiet_tool)] BypassPermissions"

lemma deny_read_forbids: "forbidden_call e deny_read ''Read'' i d sid"
  by (simp add: forbidden_call_def deny_read_def handler_new_def verdict_def rule_hit_for_def quiet_tool_def
      resolved_for_def path_rule_group_def sample_tool_def gate_new_def evaluate_def decide_def decide_step_def
      content_matcher_def matches_tool_name_def hit_of_def kind_def Let_def)

text \<open>A denied tool never runs, though the wrapper retries and a person approves for always.\<close>

lemma forbidden_call_never_runs_witness:
  "ds_ran (snd (execute_tool_with_telemetry (sample_exec (rule_set_ops no_globs) ''Read'')
     (sample_attempt (\<lambda>_. None) plain_result) ''Read'' JNull (sample_state deny_read []))) = []"
proof -
  let ?c = "sample_exec (rule_set_ops no_globs) ''Read''" and ?w = "sample_attempt (\<lambda>_. None) plain_result"
  let ?s = "sample_state deny_read []"
  obtain oc s' where d: "execute_tool_with_telemetry ?c ?w ''Read'' JNull ?s = (oc, s')" by fastforce
  have c: "xc_permission ?c = rule_set_ops no_globs" by (simp add: sample_exec_def)
  have "ds_permission ?s = deny_read" "ds_ran ?s = []" by (simp_all add: sample_state_def)
  then show ?thesis
    using forbidden_call_never_runs[OF d c] deny_read_forbids d by (cases "ds_ran s'") auto
qed

section \<open>Where comments and code part\<close>

definition command_on :: "hook_event \<Rightarrow> hooks_settings" where
  "command_on ev =
     [(ev, [HookCommand \<lparr>ch_command = ''c'', ch_shell = None, ch_timeout = None, ch_if_pattern = None,
        ch_only_on_error = None, ch_once = Some True, ch_async_rewake = None\<rparr>])]"

text \<open>A tool that reports its own failure still counts as a success: \<open>TaskCreated\<close> fires, and the hook for failures
  does not.  A fired hook shows as spent.\<close>

lemma failed_create_is_announced:
  "let fired = (\<lambda>ev. hk_once (ds_hooks (snd (execute_tool_inner (sample_exec permit_all ''TaskCreate'')
         (sample_attempt (\<lambda>_. None) (plain_result\<lparr>tr_is_error := True\<rparr>) 0) ''TaskCreate'' JNull
         (sample_state () (command_on ev))))))
   in fired TaskCreated = {(TaskCreated, 0)} \<and> fired PostToolUseFailure = {}"
  by (simp add: sample_defs kernel_defs command_on_def)

text \<open>A late or repeated denial is dropped, but counted.\<close>

lemma stale_denial_is_counted:
  "let c = \<lparr>ac_pending = [], ac_delivered = [], ac_prompts = [], ac_denials = 0\<rparr>;
       c' = resolve_permission_response ''gone'' (PersonDeny ''no'') c
   in ac_delivered c' = [] \<and> ac_denials c' = 1"
  by (simp add: resolve_permission_response_def)

end
