(* ===== verification/Redaction.thy ===== *)
theory Redaction
  imports DispatchProps
begin

text \<open>
  The redacting transformer of \<open>core/src/interface/tool_result.rs\<close>: what it removes for good, and what of a tool
  call's answer it never sees.
\<close>

section \<open>Redaction\<close>

lemma sublist_around:
  assumes "sublist p (a @ x # b)" "x \<notin> set p"
  shows "sublist p a \<or> sublist p b"
proof -
  have start: "q = []" if "prefix q (x # b)" "set q \<subseteq> set p" for q
    using that assms(2) by (cases q) auto
  consider "sublist p a" | "sublist p (x # b)" | q r where "p = q @ r" "suffix q a" "prefix r (x # b)"
    using assms(1) by (auto simp: sublist_append)
  then show ?thesis
  proof cases
    case 2
    then show ?thesis using start[of p] by (auto simp: sublist_Cons_right)
  next
    case 3
    then show ?thesis using start[of r] by auto
  qed simp
qed

lemma replace_all_simps:
  "replace_all pat rep [] = []"
  "pat \<noteq> [] \<Longrightarrow> replace_all pat rep (x # xs) =
     (if prefix pat (x # xs) then rep @ replace_all pat rep (drop (length pat) (x # xs)) else x # replace_all pat rep xs)"
  by (subst replace_all.simps; simp)+

text \<open>A text that the replacement neither touches nor contains.\<close>

definition apart :: "string \<Rightarrow> bool" where
  "apart s \<longleftrightarrow> s \<noteq> [] \<and> CHR ''<'' \<notin> set s \<and> CHR ''>'' \<notin> set s \<and> \<not> sublist s ''redacted''"

lemma sublist_redacted:
  assumes "sublist s (''<redacted>'' @ r)" "apart s"
  shows "sublist s r"
proof -
  have "sublist s [] \<or> sublist s (''redacted'' @ CHR ''>'' # r)"
    using sublist_around[of s "[]" "CHR ''<''" "''redacted'' @ CHR ''>'' # r"] assms by (simp add: apart_def)
  then have "sublist s (''redacted'' @ CHR ''>'' # r)" using assms(2) by (auto simp: apart_def)
  then show ?thesis using sublist_around[of s "''redacted''" "CHR ''>''" r] assms(2) by (auto simp: apart_def)
qed

lemma prefix_replaced:
  assumes "pat \<noteq> []" "CHR ''<'' \<notin> set p" "prefix p (replace_all pat ''<redacted>'' t)"
  shows "prefix p t"
  using assms(2,3)
proof (induction t arbitrary: p)
  case (Cons x xs)
  then show ?case
    using assms(1) by (cases p) (auto simp: replace_all_simps split: if_splits)
qed (simp add: replace_all_simps)

lemma nothing_created:
  assumes "pat \<noteq> []" "apart s" "sublist s (replace_all pat ''<redacted>'' t)"
  shows "sublist s t"
  using assms(3)
proof (induction t rule: length_induct)
  case (1 t)
  show ?case
  proof (cases t)
    case Nil
    then show ?thesis using 1 by (simp add: replace_all_simps)
  next
    case (Cons x xs)
    show ?thesis
    proof (cases "prefix pat t")
      case True
      then have "sublist s (replace_all pat ''<redacted>'' (drop (length pat) t))"
        using 1(2) assms sublist_redacted unfolding Cons replace_all_simps(2)[OF assms(1)] by auto
      moreover have "length (drop (length pat) t) < length t" using assms(1) Cons by (cases pat) auto
      ultimately have "sublist s (drop (length pat) t)" using 1(1) by blast
      then show ?thesis by (meson sublist_drop sublist_order.order_trans)
    next
      case False
      then have "prefix s (x # replace_all pat ''<redacted>'' xs) \<or> sublist s (replace_all pat ''<redacted>'' xs)"
        using 1(2) Cons assms(1) by (simp add: replace_all_simps sublist_Cons_right)
      then show ?thesis
      proof
        assume "prefix s (x # replace_all pat ''<redacted>'' xs)"
        then have "prefix s t"
          using False Cons assms prefix_replaced[OF assms(1), of s t] by (simp add: replace_all_simps apart_def)
        then show ?thesis by simp
      next
        assume "sublist s (replace_all pat ''<redacted>'' xs)"
        then have "sublist s xs" using 1(1) Cons by simp
        then show ?thesis using Cons by (simp add: sublist_Cons_right)
      qed
    qed
  qed
qed

lemma replaced_is_gone:
  assumes "apart pat"
  shows "\<not> sublist pat (replace_all pat ''<redacted>'' t)"
proof (induction t rule: length_induct)
  case (1 t)
  have pat: "pat \<noteq> []" "CHR ''<'' \<notin> set pat" using assms by (auto simp: apart_def)
  show ?case
  proof (cases t)
    case Nil
    then show ?thesis using pat by (simp add: replace_all_simps)
  next
    case (Cons x xs)
    show ?thesis
    proof (cases "prefix pat t")
      case True
      have "length (drop (length pat) t) < length t" using pat Cons by (cases pat) auto
      then have "\<not> sublist pat (replace_all pat ''<redacted>'' (drop (length pat) t))" using 1 by blast
      then show ?thesis
        using True sublist_redacted[OF _ assms] unfolding Cons replace_all_simps(2)[OF pat(1)] by auto
    next
      case False
      have "\<not> prefix pat (x # replace_all pat ''<redacted>'' xs)"
        using False Cons pat prefix_replaced[OF pat, of t] by (auto simp: replace_all_simps)
      then show ?thesis using 1 False Cons pat by (simp add: replace_all_simps sublist_Cons_right)
    qed
  qed
qed

definition mask :: "string \<Rightarrow> string \<Rightarrow> string" where
  "mask t x = (if contains_str t x then replace_all x ''<redacted>'' t else t)"

lemma redact_text_mask: "redact_text \<lparr>rl_secrets = secrets, rl_replacement = ''<redacted>''\<rparr> t = foldl mask t secrets"
  by (simp add: redact_text_def mask_def[abs_def] cong del: if_weak_cong)

lemma mask_keeps_out: "apart s \<Longrightarrow> x \<noteq> [] \<Longrightarrow> \<not> sublist s t \<Longrightarrow> \<not> sublist s (mask t x)"
  using nothing_created[of x s t] by (auto simp: mask_def)

lemma masks_keep_out:
  assumes "apart s" "\<forall>x\<in>set secrets. x \<noteq> []"
  shows "\<not> sublist s t \<Longrightarrow> \<not> sublist s (foldl mask t secrets)"
  using assms(2)
proof (induction secrets arbitrary: t)
  case (Cons x xs)
  have "\<not> sublist s (mask t x)" by (rule mask_keeps_out[OF assms(1)]) (use Cons.prems in auto)
  then show ?case using Cons.IH[of "mask t x"] Cons.prems by simp
qed simp

lemma mask_removes: "apart s \<Longrightarrow> \<not> sublist s (mask t s)"
  using replaced_is_gone[of s t] by (simp add: mask_def)

lemma masks_remove:
  assumes "apart s" "s \<in> set secrets" "\<forall>x\<in>set secrets. x \<noteq> []"
  shows "\<not> sublist s (foldl mask t secrets)"
proof -
  obtain xs ys where split: "secrets = xs @ s # ys" using assms(2) by (auto simp: in_set_conv_decomp)
  have "\<not> sublist s (foldl mask (mask (foldl mask t xs) s) ys)"
    by (rule masks_keep_out[OF assms(1)]) (use assms(3) mask_removes[OF assms(1)] in \<open>auto simp: split\<close>)
  then show ?thesis by (simp add: split)
qed



text \<open>A secret that is part of the replacement survives.\<close>

lemma secret_in_replacement_survives:
  "contains_str (redact_text (redact_new [''act'']) ''act'') ''act''"
  by (simp add: redact_new_def redact_text_def replace_all_simps sublist_code)

text \<open>The messages a tool injects, and the answer to a call that a hook blocks, reach the model unredacted.\<close>

definition redacting :: "(unit, unit, unit) exec_ctx" where
  "redacting = (sample_exec permit_all ''Read'')\<lparr>xc_transformers := [redact (redact_new [''pw''])]\<rparr>"

lemma injected_messages_are_not_redacted:
  "fst (execute_tool_inner redacting
     (sample_attempt (\<lambda>_. None) (plain_result\<lparr>tr_content := ContentText ''pw'', tr_new_messages := Some [JString ''pw'']\<rparr>) 0)
     ''Read'' JNull (sample_state () [])) =
   Inr \<lparr>ta_text = ''<redacted>'', ta_new_messages = Some [JString ''pw''], ta_reported_failure = False\<rparr>"
  by (simp add: redacting_def sample_defs kernel_defs replace_all_simps)

lemma refusals_are_not_redacted:
  "fst (execute_tool_inner redacting
     (sample_attempt (\<lambda>_. Some (response_default\<lparr>hr_decision := Some HookBlock, hr_message := Some ''pw''\<rparr>)) plain_result 0)
     ''Read'' JNull (sample_state () (command_on PreToolUse))) =
   Inl ''Blocked by PreToolUse hook: pw''"
  by (simp add: redacting_def sample_defs kernel_defs command_on_def)

text \<open>The note on what was cut is not counted: a truncated text may be longer than the cap, and than the original.\<close>

lemma truncation_exceeds_cap:
  "utf8_len (td_text (truncate_text 3 \<lparr>tc_name = ''Read'', tc_input = JNull\<rparr> \<lparr>td_text = ''abcd'', td_images = [], td_is_error = False\<rparr>)) > 3"
  by code_simp

text \<open>A transformer is handed the images of every call of the round so far, not of its own call only.\<close>

lemma transformer_takes_images_of_others:
  "ds_images (snd (execute_tool_inner
     (redacting\<lparr>xc_transformers := [\<lambda>c d. d\<lparr>td_images := []\<rparr>]\<rparr>)
     (sample_attempt (\<lambda>_. None) plain_result 0) ''Read'' JNull
     ((sample_state () [])\<lparr>ds_images := [(''image/png'', ''of another call'')]\<rparr>))) = []"
  by (simp add: redacting_def sample_defs kernel_defs)

end
