(* ===== verification/PathSafety.thy ===== *)
theory PathSafety
  imports PathRule
begin

text \<open>
  The write check, \<open>crates/permissions/src/path_safety.rs\<close>: the tests on the path someone asked for,
  the tests on the path it resolves to, and the search for an intermediate symbolic link that leaves
  the allowed roots.  Unicode normalization and \<open>canonicalize\<close> are parameters.  A panic of the
  source (a slice whose start lies past its end) is a result of its own.
\<close>

section \<open>Policy and errors\<close>

definition DEFAULT_FILENAME_BLACKLIST :: "string list" where
  "DEFAULT_FILENAME_BLACKLIST =
     [''.env'', ''.env.local'', ''.env.production'', ''id_rsa'', ''id_ed25519'', ''.ssh'', ''.aws'',
      ''.gnupg'', ''.netrc'', ''.pypirc'', ''.npmrc'', ''.pgpass'']"

definition GUARDED_FILENAMES :: "string list" where
  "GUARDED_FILENAMES = [''.gitignore'', ''package-lock.json'', ''Cargo.lock'']"

definition SETTINGS_FILENAMES :: "string list" where
  "SETTINGS_FILENAMES = [''settings.json'', ''settings.local.json'']"

definition SETTINGS_DIRS :: "string list" where
  "SETTINGS_DIRS = [''.atta'', ''.claude'']"

definition ABSOLUTE_DENY_PREFIXES :: "string list" where
  "ABSOLUTE_DENY_PREFIXES =
     [''/etc'', ''/System'', ''/Library/Apple'', ''/usr/bin'', ''/usr/sbin'', ''/sbin'', ''/bin'',
      ''/boot'', ''/proc'', ''/sys'']"

record write_policy =
  primary_root :: path
  additional_roots :: "path list"
  extra_blacklist :: "string list"
  allow_paths :: "path list"

definition write_policy_new :: "path \<Rightarrow> write_policy" where
  "write_policy_new root =
     \<lparr>primary_root = root, additional_roots = [], extra_blacklist = [], allow_paths = []\<rparr>"

definition with_allowed :: "write_policy \<Rightarrow> path list \<Rightarrow> write_policy" where
  "with_allowed p paths = p\<lparr>allow_paths := paths\<rparr>"

definition with_additional_roots :: "write_policy \<Rightarrow> path list \<Rightarrow> write_policy" where
  "with_additional_roots p roots = p\<lparr>additional_roots := roots\<rparr>"

definition with_extra_blacklist :: "write_policy \<Rightarrow> string list \<Rightarrow> write_policy" where
  "with_extra_blacklist p items = p\<lparr>extra_blacklist := items\<rparr>"

datatype path_safety_error =
    UnresolvedTraversal path
  | OutsideAllowedRoots path path "path list"
  | BlacklistedFilename path string
  | SystemPathDenied path
  | TildeExpansion string
  | ShellExpansion string string
  | UncPathDetected string
  | SymlinkEscape path path path
  | UnicodeNormalizationAttack string string

datatype safety_result = SafeOk | SafeErr path_safety_error | SafePanic

section \<open>The check\<close>

text \<open>Steps 1 to 3 and 5, about the text of the requested path.\<close>

definition requested_early :: "(string \<Rightarrow> string) \<Rightarrow> string \<Rightarrow> path_safety_error option" where
  "requested_early nfc s =
     (if s = ''~'' \<or> prefix ''~/'' s \<or> prefix [CHR ''~'', CHR 0x5C] s then Some (TildeExpansion s)
      else if prefix [CHR 0x5C, CHR 0x5C] s then Some (UncPathDetected s)
      else if nfc s \<noteq> s then Some (UnicodeNormalizationAttack s (nfc s))
      else None)"

definition requested_shell :: "string \<Rightarrow> path_safety_error option" where
  "requested_shell s =
     (if contains_str s ''$('' then Some (ShellExpansion s ''$('')
      else if CHR 0x60 \<in> set s then Some (ShellExpansion s [CHR 0x60])
      else None)"

text \<open>Steps 6 and 7: the deny rules a deployment can make exceptions to.\<close>

definition under_settings_dir :: "path \<Rightarrow> bool" where
  "under_settings_dir target \<longleftrightarrow>
     list_ex (\<lambda>c. case c of Normal d \<Rightarrow> d \<in> set SETTINGS_DIRS | _ \<Rightarrow> False) target"

definition blacklist_hit :: "write_policy \<Rightarrow> string \<Rightarrow> string option" where
  "blacklist_hit policy s =
     List.find (\<lambda>b. s = b \<or> prefix (b @ ''.'') s)
       (DEFAULT_FILENAME_BLACKLIST @ GUARDED_FILENAMES @ extra_blacklist policy)"

fun blacklisted_component :: "write_policy \<Rightarrow> path \<Rightarrow> path \<Rightarrow> path_safety_error option" where
  "blacklisted_component policy target [] = None"
| "blacklisted_component policy target (Normal name # cs) =
     (case blacklist_hit policy name of
        Some matched \<Rightarrow> Some (BlacklistedFilename target matched)
      | None \<Rightarrow> blacklisted_component policy target cs)"
| "blacklisted_component policy target (_ # cs) = blacklisted_component policy target cs"

definition deny_rules :: "write_policy \<Rightarrow> path \<Rightarrow> path_safety_error option" where
  "deny_rules policy target =
     (if list_ex (\<lambda>a. starts_within target a) (allow_paths policy) then None
      else if list_ex (\<lambda>p. path_starts_with target (path_of p)) ABSOLUTE_DENY_PREFIXES then
        Some (SystemPathDenied target)
      else case (case file_name target of
                   Some name \<Rightarrow>
                     (if under_settings_dir target \<and> name \<in> set SETTINGS_FILENAMES
                      then Some (BlacklistedFilename target (name @ '' under an engine settings directory''))
                      else None)
                 | None \<Rightarrow> None) of
             Some err \<Rightarrow> Some err
           | None \<Rightarrow> blacklisted_component policy target target)"

definition policy_roots :: "write_policy \<Rightarrow> path list" where
  "policy_roots policy = primary_root policy # additional_roots policy"

text \<open>Step 9: \<open>ancestors[1..len - 1]\<close>, the indexing included, walked from the root towards the target.\<close>

definition slice_range :: "'a list \<Rightarrow> nat \<Rightarrow> nat \<Rightarrow> 'a list option" where
  "slice_range xs a b = (if a \<le> b \<and> b \<le> length xs then Some (take (b - a) (drop a xs)) else None)"

fun escape_in :: "env \<Rightarrow> write_policy \<Rightarrow> path list \<Rightarrow> path_safety_error option" where
  "escape_in e policy [] = None"
| "escape_in e policy (dir # comps) =
     (let roots = policy_roots policy;
          canonical_roots = List.map_filter (env_canonicalize e) roots
      in if list_ex (\<lambda>r. r = dir) roots then escape_in e policy comps
         else if \<not> list_ex (\<lambda>r. starts_within dir r) roots then escape_in e policy comps
         else case env_canonicalize e dir of
           None \<Rightarrow> escape_in e policy comps
         | Some real \<Rightarrow>
             (if real \<noteq> dir \<and> \<not> list_ex (\<lambda>r. starts_within real r) roots
                 \<and> \<not> list_ex (\<lambda>r. starts_within real r) canonical_roots
              then Some (SymlinkEscape dir real (primary_root policy))
              else escape_in e policy comps))"

definition check_write_for ::
  "env \<Rightarrow> (string \<Rightarrow> string) \<Rightarrow> string \<Rightarrow> path \<Rightarrow> write_policy \<Rightarrow> safety_result" where
  "check_write_for e nfc requested target policy =
     (case requested_early nfc requested of Some err \<Rightarrow> SafeErr err | None \<Rightarrow>
      if \<not> is_absolute target then SafeErr (UnresolvedTraversal target)
      else if ParentDir \<in> set target then SafeErr (UnresolvedTraversal target)
      else (case requested_shell requested of Some err \<Rightarrow> SafeErr err | None \<Rightarrow>
      (case deny_rules policy target of Some err \<Rightarrow> SafeErr err | None \<Rightarrow>
      if \<not> list_ex (\<lambda>r. starts_within target r) (policy_roots policy) then
        SafeErr (OutsideAllowedRoots target (primary_root policy) (additional_roots policy))
      else (let as = ancestors target in
        case slice_range as 1 (length as - 1) of
          None \<Rightarrow> SafePanic
        | Some inner \<Rightarrow>
            (case escape_in e policy (rev inner) of Some err \<Rightarrow> SafeErr err | None \<Rightarrow> SafeOk)))))"

definition check_write :: "env \<Rightarrow> (string \<Rightarrow> string) \<Rightarrow> string \<Rightarrow> write_policy \<Rightarrow> safety_result" where
  "check_write e nfc s policy = check_write_for e nfc s (path_of s) policy"

text \<open>The second check runs on a path the file system returned, whose text is that of its components.\<close>

definition check_write_resolve_symlinks ::
  "env \<Rightarrow> (string \<Rightarrow> string) \<Rightarrow> string \<Rightarrow> path option \<Rightarrow> write_policy \<Rightarrow> safety_result" where
  "check_write_resolve_symlinks e nfc s resolved policy =
     (case check_write e nfc s policy of
        SafeOk \<Rightarrow>
          (case resolved of
             Some real \<Rightarrow>
               (if real \<noteq> path_of s then
                  (case check_write e nfc (path_str real) policy of
                     SafeErr _ \<Rightarrow> SafeErr (SymlinkEscape (path_of s) real (primary_root policy))
                   | r \<Rightarrow> r)
                else SafeOk)
           | None \<Rightarrow> SafeOk)
      | r \<Rightarrow> r)"

lemmas path_safety_defs [kernel_defs] =
  DEFAULT_FILENAME_BLACKLIST_def GUARDED_FILENAMES_def SETTINGS_FILENAMES_def SETTINGS_DIRS_def
  ABSOLUTE_DENY_PREFIXES_def write_policy_new_def with_allowed_def with_additional_roots_def
  with_extra_blacklist_def requested_early_def requested_shell_def under_settings_dir_def
  blacklist_hit_def deny_rules_def policy_roots_def slice_range_def check_write_for_def
  check_write_def check_write_resolve_symlinks_def

section \<open>Properties\<close>

lemma blacklisted_component_None:
  "blacklisted_component policy target cs = None \<longleftrightarrow> (\<forall>n. Normal n \<in> set cs \<longrightarrow> blacklist_hit policy n = None)"
  by (induction policy target cs rule: blacklisted_component.induct) (auto split: option.splits)

text \<open>A directory inside a root resolves to something inside the roots, or inside what the roots
  themselves resolve to.\<close>

definition stays_inside :: "env \<Rightarrow> write_policy \<Rightarrow> path \<Rightarrow> bool" where
  "stays_inside e policy dir \<longleftrightarrow>
     (case env_canonicalize e dir of
        None \<Rightarrow> True
      | Some real \<Rightarrow>
          real = dir \<or> list_ex (\<lambda>r. prefix r real) (policy_roots policy)
          \<or> list_ex (\<lambda>r. prefix r real) (List.map_filter (env_canonicalize e) (policy_roots policy)))"

definition inside_a_root :: "write_policy \<Rightarrow> path \<Rightarrow> bool" where
  "inside_a_root policy dir \<longleftrightarrow>
     dir \<notin> set (policy_roots policy) \<and> list_ex (\<lambda>r. prefix r dir) (policy_roots policy)"

lemma escape_in_Cons:
  "escape_in e policy (dir # dirs) = None \<longleftrightarrow>
     (\<not> inside_a_root policy dir \<or> stays_inside e policy dir) \<and> escape_in e policy dirs = None"
  by (auto simp: inside_a_root_def stays_inside_def starts_within_prefix list_ex_iff Let_def
      split: option.splits)

lemma escape_in_None:
  "escape_in e policy dirs = None \<longleftrightarrow>
     (\<forall>dir \<in> set dirs. \<not> inside_a_root policy dir \<or> stays_inside e policy dir)"
proof (induction dirs)
  case (Cons dir dirs)
  then show ?case by (simp add: escape_in_Cons del: escape_in.simps)
qed simp

text \<open>The ancestors of an absolute path without steps upwards are its prefixes, longest first.\<close>

lemma ancestors_prefixes:
  "RootDir \<notin> set p \<Longrightarrow> ancestors (RootDir # p) = rev (map (\<lambda>q. RootDir # q) (prefixes p))"
proof (induction p rule: rev_induct)
  case Nil
  show ?case by (simp add: ancestors.simps [of "[RootDir]"] path_parent_def)
next
  case (snoc c p)
  then have "path_parent (RootDir # p @ [c]) = Some (RootDir # p)"
    by (auto simp: path_parent_def butlast_append)
  with snoc show ?case
    by (simp add: ancestors.simps [of "RootDir # p @ [c]"] prefixes_snoc)
qed

lemma inner_ancestors:
  assumes "RootDir \<notin> set p" "p \<noteq> []"
  shows "slice_range (ancestors (RootDir # p)) 1 (length (ancestors (RootDir # p)) - 1) =
    Some (rev (map (\<lambda>q. RootDir # q) (tl (prefixes (butlast p)))))"
proof -
  obtain q c where p: "p = q @ [c]"
    using assms(2) by (cases p rule: rev_cases) auto
  have "prefixes q \<noteq> []" by (cases q) auto
  then obtain rest where "prefixes q = [] # rest"
    by (cases q) auto
  then show ?thesis
    using assms p
    by (simp add: ancestors_prefixes slice_range_def prefixes_snoc)
qed


definition exempt :: "write_policy \<Rightarrow> path \<Rightarrow> bool" where
  "exempt policy target \<longleftrightarrow> list_ex (\<lambda>a. prefix a target) (allow_paths policy)"

definition sensitive :: "write_policy \<Rightarrow> path \<Rightarrow> bool" where
  "sensitive policy target \<longleftrightarrow>
     list_ex (\<lambda>p. prefix (path_of p) target) ABSOLUTE_DENY_PREFIXES
     \<or> list_ex (\<lambda>c. case c of Normal n \<Rightarrow> blacklist_hit policy n \<noteq> None | _ \<Rightarrow> False) target
     \<or> under_settings_dir target \<and> (case file_name target of Some n \<Rightarrow> n \<in> set SETTINGS_FILENAMES | None \<Rightarrow> False)"

lemma deny_rules_None: "deny_rules policy target = None \<longleftrightarrow> exempt policy target \<or> \<not> sensitive policy target"
proof -
  have "blacklisted_component policy target target = None \<longleftrightarrow>
      \<not> list_ex (\<lambda>c. case c of Normal n \<Rightarrow> blacklist_hit policy n \<noteq> None | _ \<Rightarrow> False) target"
    unfolding blacklisted_component_None list_ex_iff by (auto split: component.splits)
  then show ?thesis
    by (auto simp: deny_rules_def exempt_def sensitive_def starts_within_prefix path_starts_with_def
        split: option.splits)
qed

lemma check_write_for_ok:
  "check_write_for e nfc s target policy = SafeOk \<longleftrightarrow>
     requested_early nfc s = None \<and> requested_shell s = None \<and> is_absolute target
     \<and> ParentDir \<notin> set target \<and> (exempt policy target \<or> \<not> sensitive policy target)
     \<and> list_ex (\<lambda>r. prefix r target) (policy_roots policy)
     \<and> (\<exists>inner. slice_range (ancestors target) 1 (length (ancestors target) - 1) = Some inner
          \<and> escape_in e policy (rev inner) = None)"
  by (auto simp: check_write_for_def deny_rules_None [symmetric] starts_within_prefix Let_def
      split: option.splits)

text \<open>C16. What a passed check guarantees of the file written: it lies in an allowed root, is reached
  without a step upwards, and is neither a system file, nor a secret, nor the engine's own settings,
  unless the deployment listed it.\<close>
theorem checked_write_is_contained:
  assumes "check_write_for e nfc s target policy = SafeOk"
  shows "is_absolute target \<and> ParentDir \<notin> set target
    \<and> list_ex (\<lambda>r. prefix r target) (policy_roots policy)
    \<and> (exempt policy target \<or> \<not> sensitive policy target)"
  using assms by (simp add: check_write_for_ok)

definition bare_env :: env where
  "bare_env = \<lparr>env_var = (\<lambda>_. None), env_canonicalize = (\<lambda>_. None), env_glob_path = (\<lambda>_. None),
     env_glob_text = (\<lambda>_. None)\<rparr>"

lemma checked_write_is_contained_witness:
  "\<not> sensitive (write_policy_new [RootDir, Normal ''proj'']) (path_of ''/proj/src/a.rs'')"
proof -
  have "check_write_for bare_env id ''/proj/src/a.rs'' (path_of ''/proj/src/a.rs'')
      (write_policy_new [RootDir, Normal ''proj'']) = SafeOk"
    by code_simp
  from checked_write_is_contained [OF this] show ?thesis
    by (simp add: exempt_def write_policy_new_def)
qed

text \<open>No directory between an allowed root and the file is a symbolic link that leads out: each
  one strictly inside a root resolves into the roots or into what the roots resolve to.\<close>
theorem checked_write_has_no_escape:
  assumes "check_write_for e nfc s target policy = SafeOk" "RootDir \<notin> set (tl target)"
    and "strict_prefix dir target" "inside_a_root policy dir" "dir \<noteq> [RootDir]" "dir \<noteq> []"
  shows "stays_inside e policy dir"
proof -
  from assms(1) obtain inner where abs: "is_absolute target"
    and inner: "slice_range (ancestors target) 1 (length (ancestors target) - 1) = Some inner"
    and none: "escape_in e policy (rev inner) = None"
    by (auto simp: check_write_for_ok)
  from abs obtain p where p: "target = RootDir # p"
    by (cases target) (auto simp: is_absolute_def)
  with assms(3,5,6) obtain q where q: "dir = RootDir # q" "strict_prefix q p" "q \<noteq> []"
    by (cases dir) auto
  then have "p \<noteq> []" by auto
  then obtain p' c where p': "p = p' @ [c]"
    by (cases p rule: rev_cases) auto
  with q have "prefix q p'"
    by (auto simp: strict_prefix_def prefix_snoc)
  then have "q \<in> set (tl (prefixes p'))"
    using q(3) by (cases p'; cases q) (auto simp: in_set_prefixes)
  then have "dir \<in> set inner"
    using inner assms(2) p p' q(1) inner_ancestors [of p] by auto
  with none assms(4) show ?thesis
    by (auto simp: escape_in_None)
qed

definition linked_env :: env where
  "linked_env = bare_env\<lparr>env_canonicalize :=
     (\<lambda>p. if p = path_of ''/proj/link'' then Some (path_of ''/proj/real'') else None)\<rparr>"

lemma checked_write_has_no_escape_witness:
  "stays_inside linked_env (write_policy_new [RootDir, Normal ''proj'']) [RootDir, Normal ''proj'', Normal ''link'']"
proof (rule checked_write_has_no_escape [where s = "''/proj/link/a''" and target = "path_of ''/proj/link/a''" and nfc = id])
  show "check_write_for linked_env id ''/proj/link/a'' (path_of ''/proj/link/a'')
      (write_policy_new [RootDir, Normal ''proj'']) = SafeOk"
    by code_simp
  show "RootDir \<notin> set (tl (path_of ''/proj/link/a''))"
    "strict_prefix [RootDir, Normal ''proj'', Normal ''link''] (path_of ''/proj/link/a'')"
    "inside_a_root (write_policy_new [RootDir, Normal ''proj'']) [RootDir, Normal ''proj'', Normal ''link'']"
    by (simp_all add: path_of_def component_of_def inside_a_root_def policy_roots_def write_policy_new_def)
qed simp_all

text \<open>A link that does lead out is refused, and named with what it resolves to.\<close>
theorem escaping_link_is_refused:
  assumes "check_write_for e nfc s target policy \<noteq> SafePanic" "RootDir \<notin> set (tl target)"
    and "strict_prefix dir target" "inside_a_root policy dir" "\<not> stays_inside e policy dir"
    and "dir \<noteq> [RootDir]" "dir \<noteq> []"
  shows "\<exists>err. check_write_for e nfc s target policy = SafeErr err"
  using assms checked_write_has_no_escape
  by (cases "check_write_for e nfc s target policy") blast+

lemma escaping_link_is_refused_witness:
  "\<exists>err. check_write_for (bare_env\<lparr>env_canonicalize :=
       (\<lambda>p. if p = path_of ''/proj/link'' then Some (path_of ''/etc'') else None)\<rparr>) id
     ''/proj/link/a'' (path_of ''/proj/link/a'') (write_policy_new [RootDir, Normal ''proj'']) = SafeErr err"
proof (rule escaping_link_is_refused [where dir = "[RootDir, Normal ''proj'', Normal ''link'']"])
  show "check_write_for (bare_env\<lparr>env_canonicalize :=
       (\<lambda>p. if p = path_of ''/proj/link'' then Some (path_of ''/etc'') else None)\<rparr>) id
     ''/proj/link/a'' (path_of ''/proj/link/a'') (write_policy_new [RootDir, Normal ''proj'']) \<noteq> SafePanic"
    by code_simp
  show "RootDir \<notin> set (tl (path_of ''/proj/link/a''))"
    "strict_prefix [RootDir, Normal ''proj'', Normal ''link''] (path_of ''/proj/link/a'')"
    "inside_a_root (write_policy_new [RootDir, Normal ''proj'']) [RootDir, Normal ''proj'', Normal ''link'']"
    "\<not> stays_inside (bare_env\<lparr>env_canonicalize :=
       (\<lambda>p. if p = path_of ''/proj/link'' then Some (path_of ''/etc'') else None)\<rparr>)
       (write_policy_new [RootDir, Normal ''proj'']) [RootDir, Normal ''proj'', Normal ''link'']"
    by (simp_all add: path_of_def component_of_def inside_a_root_def policy_roots_def write_policy_new_def
        stays_inside_def List.map_filter_simps)
qed simp_all

text \<open>The check panics on the file system root when the root itself is an allowed root: the slice
  of the ancestors between the path and the top starts after its end.\<close>
theorem root_write_panics:
  "check_write e id ''/'' (write_policy_new [RootDir]) = SafePanic"
proof -
  have "path_of ''/'' = [RootDir]" by code_simp
  moreover have "deny_rules (write_policy_new [RootDir]) [RootDir] = None" by code_simp
  moreover have "requested_early id ''/'' = None" "requested_shell ''/'' = None" by code_simp+
  ultimately show ?thesis
    by (simp add: check_write_def check_write_for_def is_absolute_def policy_roots_def
        write_policy_new_def starts_within_def ancestors.simps [of "[RootDir]"] path_parent_def
        slice_range_def)
qed

end
