(* ===== verification/TranscriptProps.thy ===== *)
theory TranscriptProps
  imports Transcript
begin

text \<open>
  What the transcript guarantees: one-pass computations agree with re-projecting prefixes, a message
  keeps the line it came from, sidechains and everything before a compaction payload leave no trace,
  and the resume report describes the projection.  The trait's contract is the locale
  \<open>transcript_projection\<close>, interpreted for both projections of the source.
\<close>

section \<open>Folding\<close>

lemma project_append:
  "project_messages_with (xs @ ys) pj = foldl (project_step pj) (project_messages_with xs pj) ys"
  by (simp add: project_messages_with_def)

lemma project_snoc:
  "project_messages_with (xs @ [e]) pj = project_step pj (project_messages_with xs pj) e"
  by (simp add: project_append)

lemma lengths_loop:
  "projected_lengths_loop pj ms es = map (\<lambda>i. length (foldl (project_step pj) ms (take (Suc i) es))) [0..<length es]"
proof (induction es arbitrary: ms)
  case (Cons e es)
  have "[0..<length (e # es)] = 0 # map Suc [0..<length es]"
    by (simp add: map_Suc_upt upt_conv_Cons del: upt_Suc)
  then show ?case
    using Cons by (simp add: Let_def o_def del: upt_Suc)
qed simp

lemma count_loop:
  "count_through_loop pj target ms es =
     (case List.find (\<lambda>i. env_id (es ! i) = target) [0..<length es] of
        None \<Rightarrow> None
      | Some i \<Rightarrow> Some (length (foldl (project_step pj) ms (take (Suc i) es))))"
proof (induction es arbitrary: ms)
  case (Cons e es)
  have upt: "[0..<length (e # es)] = 0 # map Suc [0..<length es]"
    by (simp add: map_Suc_upt upt_conv_Cons del: upt_Suc)
  have shift: "List.find (\<lambda>i. env_id ((e # es) ! i) = target) (map Suc xs) =
      map_option Suc (List.find (\<lambda>i. env_id (es ! i) = target) xs)" for xs
    by (induction xs) auto
  show ?case
    unfolding upt using Cons shift by (auto simp: Let_def split: option.splits)
qed simp

section \<open>The contract of a projection\<close>

text \<open>An entry that is not model-visible and not a compaction boundary leaves the view alone, and a
  visible one never shortens it.\<close>

locale transcript_projection =
  fixes pj :: projection
  assumes invisible: "\<not> pj_is_model_visible pj entry \<Longrightarrow> \<not> is_compact entry \<Longrightarrow> pj_apply pj entry ms = ms"
    and visible: "pj_is_model_visible pj entry \<Longrightarrow> pj_apply pj entry ms \<noteq> []"
    and grows: "\<not> is_compact entry \<Longrightarrow> length ms \<le> length (pj_apply pj entry ms)"
begin

lemma quiet_tail:
  assumes "\<forall>e \<in> set es. env_is_sidechain e \<or> \<not> pj_is_model_visible pj (env_entry e) \<and> \<not> is_compact (env_entry e)"
  shows "foldl (project_step pj) ms es = ms"
  using assms by (induction es arbitrary: ms) (auto simp: project_step_def invisible)

lemma only_messages:
  "foldl (project_step pj) ms (filter (\<lambda>e. \<not> env_is_sidechain e \<and>
      (pj_is_model_visible pj (env_entry e) \<or> is_compact (env_entry e))) es) = foldl (project_step pj) ms es"
  by (induction es arbitrary: ms) (auto simp: project_step_def invisible)

text \<open>Between compactions the view only grows, so counts of messages are monotone.\<close>

lemma monotone_without_compact:
  assumes "\<forall>e \<in> set es. \<not> is_compact (env_entry e)"
  shows "length ms \<le> length (foldl (project_step pj) ms es)"
  using assms
proof (induction es arbitrary: ms)
  case (Cons e es)
  have "length ms \<le> length (project_step pj ms e)"
    using Cons.prems grows by (simp add: project_step_def)
  with Cons show ?case by (simp add: order_trans)
qed simp

text \<open>The entry of the latest message: everything the model sees was there once that entry was applied,
  if no compaction came later.\<close>

lemma latest_entry:
  assumes "latest_projected_message_entry_id_with entries pj = Some i"
  obtains pre e post where "entries = pre @ e # post" "env_id e = i" "\<not> env_is_sidechain e"
    "pj_is_model_visible pj (env_entry e)"
    "\<forall>x \<in> set post. env_is_sidechain x \<or> \<not> pj_is_model_visible pj (env_entry x)"
proof -
  let ?P = "\<lambda>env. \<not> env_is_sidechain env \<and> pj_is_model_visible pj (env_entry env)"
  from assms obtain e where f: "List.find ?P (rev entries) = Some e" and i: "env_id e = i"
    by (auto simp: latest_projected_message_entry_id_with_def)
  then obtain n where n: "n < length (rev entries)" "?P (rev entries ! n)" "e = rev entries ! n"
    "\<forall>j<n. \<not> ?P (rev entries ! j)"
    by (auto simp: find_Some_iff)
  have split: "rev entries = take n (rev entries) @ e # drop (Suc n) (rev entries)"
    using n(1,3) by (simp add: id_take_nth_drop)
  then have "entries = rev (drop (Suc n) (rev entries)) @ e # rev (take n (rev entries))"
    by (metis append.assoc append_Cons append_Nil rev.simps(2) rev_append rev_rev_ident)
  moreover have "\<forall>x \<in> set (rev (take n (rev entries))). \<not> ?P x"
  proof
    fix x assume "x \<in> set (rev (take n (rev entries)))"
    then have "x \<in> set (take n (rev entries))" by simp
    then obtain j where "j < length (take n (rev entries))" "x = take n (rev entries) ! j"
      by (metis in_set_conv_nth)
    then have "j < n" "x = rev entries ! j" by simp_all
    then show "\<not> ?P x" using n(4) by blast
  qed
  ultimately show ?thesis using n i that by blast
qed

lemma nothing_after_latest:
  assumes "latest_projected_message_entry_id_with entries pj = Some i"
    and "\<forall>e \<in> set entries. \<not> is_compact (env_entry e)" "distinct (map env_id entries)"
  shows "projected_message_count_through_entry_id_with entries i pj = Some (length (project_messages_with entries pj))"
proof -
  obtain pre e post where e: "entries = pre @ e # post" "env_id e = i"
    "\<forall>x \<in> set post. env_is_sidechain x \<or> \<not> pj_is_model_visible pj (env_entry x)"
    using assms(1) by (rule latest_entry)
  have "List.find (\<lambda>k. env_id (entries ! k) = i) [0..<length entries] = Some (length pre)"
    unfolding find_Some_iff
  proof (intro exI conjI allI impI)
    show "length pre < length [0..<length entries]" "length pre = [0..<length entries] ! length pre"
      "env_id (entries ! ([0..<length entries] ! length pre)) = i"
      using e by (simp_all add: nth_append del: upt_Suc)
    show "env_id (entries ! ([0..<length entries] ! j)) \<noteq> i" if "j < length pre" for j
    proof -
      have "env_id (pre ! j) \<in> env_id ` set pre" using that by simp
      then have "env_id (pre ! j) \<noteq> env_id e"
        using assms(3) e(1) by auto
      then show ?thesis using that e by (simp add: nth_append del: upt_Suc)
    qed
  qed
  moreover have "foldl (project_step pj) (project_messages_with (pre @ [e]) pj) post =
      project_messages_with (pre @ [e]) pj"
    using assms(2) e by (intro quiet_tail) auto
  then have "project_messages_with entries pj = project_messages_with (pre @ [e]) pj"
    using e(1) project_append [of "pre @ [e]" post pj] by simp
  ultimately show ?thesis
    using e(1) by (simp add: projected_message_count_through_entry_id_with_def count_loop
        project_messages_with_def)
qed

end

lemma push_tool_result_grows: "push_tool_result b ms \<noteq> []" "length ms \<le> length (push_tool_result b ms)"
  by (auto simp: push_tool_result_def split: message.splits)

interpretation default_pj: transcript_projection default_projection
proof
  fix entry :: log_entry and ms :: "message list"
  show "\<not> pj_is_model_visible default_projection entry \<Longrightarrow> \<not> is_compact entry \<Longrightarrow>
      pj_apply default_projection entry ms = ms"
    by (cases entry) (simp_all add: default_projection_def default_is_model_visible_def is_compact_def)
  show "pj_is_model_visible default_projection entry \<Longrightarrow> pj_apply default_projection entry ms \<noteq> []"
    by (cases entry) (simp_all add: default_projection_def default_is_model_visible_def push_tool_result_grows)
  show "\<not> is_compact entry \<Longrightarrow> length ms \<le> length (pj_apply default_projection entry ms)"
    by (cases entry) (simp_all add: default_projection_def is_compact_def push_tool_result_grows)
qed

interpretation ext_pj: transcript_projection "extensions_are_visible show_json namespaces"
  for show_json namespaces
proof
  fix entry :: log_entry and ms :: "message list"
  let ?pj = "extensions_are_visible show_json namespaces"
  show "\<not> pj_is_model_visible ?pj entry \<Longrightarrow> \<not> is_compact entry \<Longrightarrow> pj_apply ?pj entry ms = ms"
    using default_pj.invisible [of entry ms]
    by (cases entry) (simp_all add: extensions_are_visible_def)
  show "pj_is_model_visible ?pj entry \<Longrightarrow> pj_apply ?pj entry ms \<noteq> []"
    using default_pj.visible [of entry ms]
    by (cases entry) (simp_all add: extensions_are_visible_def)
  show "\<not> is_compact entry \<Longrightarrow> length ms \<le> length (pj_apply ?pj entry ms)"
    using default_pj.grows [of entry ms]
    by (cases entry) (simp_all add: extensions_are_visible_def)
qed

section \<open>Properties\<close>

text \<open>The one-pass vector of counts is the projection of every prefix.\<close>
theorem projected_lengths_spec:
  "projected_lengths_with entries pj =
     map (\<lambda>i. length (project_messages_with (take (Suc i) entries) pj)) [0..<length entries]"
  by (simp add: projected_lengths_with_def lengths_loop project_messages_with_def)

lemma sourced_fold:
  assumes "foldl (sourced_step pj) ([], []) entries = (ms, ss)"
  shows "ms = project_messages_with entries pj \<and> length ss = length ms"
  using assms
proof (induction entries arbitrary: ms ss rule: rev_induct)
  case Nil
  then show ?case by (simp add: project_messages_with_def)
next
  case (snoc e entries)
  obtain ms0 ss0 where p: "foldl (sourced_step pj) ([], []) entries = (ms0, ss0)"
    by fastforce
  with snoc.IH have "ms0 = project_messages_with entries pj" "length ss0 = length ms0"
    by blast+
  moreover have "sourced_step pj (ms0, ss0) e = (ms, ss)"
    using snoc.prems p by simp
  ultimately show ?case
    by (auto simp: sourced_step_def project_snoc project_step_def Let_def split: if_splits)
qed

text \<open>Keeping the sources loses no message and invents none: the messages of the sourced view are
  those of the projection, in order.\<close>
theorem sourced_messages:
  "map sm_message (project_messages_sourced entries pj) = project_messages_with entries pj"
proof -
  obtain ms ss where p: "foldl (sourced_step pj) ([], []) entries = (ms, ss)" by fastforce
  from sourced_fold [OF p] have len: "length ss = length ms" and ms: "ms = project_messages_with entries pj"
    by simp_all
  have "map (sm_message \<circ> (\<lambda>(m, e, p). \<lparr>sm_message = m, sm_entry = e, sm_part = p\<rparr>)) (zip ms ss) = map fst (zip ms ss)"
    by (rule map_cong) auto
  then show ?thesis
    using p len ms by (simp add: project_messages_sourced_def)
qed

text \<open>Every source line is a line of the log, is not a sidechain's, and a message with a position
  in a replacement view comes from a compaction line.\<close>
theorem sources_are_lines:
  assumes "s \<in> set (project_messages_sourced entries pj)"
  shows "sm_entry s \<in> set entries \<and> \<not> env_is_sidechain (sm_entry s) \<and>
    (sm_part s = None \<or> is_compact (env_entry (sm_entry s)))"
proof -
  have "\<forall>(e, p) \<in> set ss. e \<in> set entries \<and> \<not> env_is_sidechain e \<and> (p = None \<or> is_compact (env_entry e))"
    if "foldl (sourced_step pj) ([], []) entries = (ms, ss)" for ms ss
    using that
  proof (induction entries arbitrary: ms ss rule: rev_induct)
    case (snoc e entries)
    obtain ms0 ss0 where p: "foldl (sourced_step pj) ([], []) entries = (ms0, ss0)"
      by fastforce
    have st: "sourced_step pj (ms0, ss0) e = (ms, ss)"
      using snoc.prems p by simp
    have old: "x \<in> set ss0 \<Longrightarrow> fst x \<in> set entries \<and> \<not> env_is_sidechain (fst x) \<and>
        (snd x = None \<or> is_compact (env_entry (fst x)))" for x
      using snoc.IH [OF p] by auto
    show ?case
    proof (rule ballI)
      fix x assume "x \<in> set ss"
      with st show "case x of (e', q) \<Rightarrow> e' \<in> set (entries @ [e]) \<and> \<not> env_is_sidechain e' \<and>
          (q = None \<or> is_compact (env_entry e'))"
        using old by (cases x) (force simp: sourced_step_def Let_def split: if_splits dest!: in_set_takeD)
    qed
  qed simp
  moreover obtain ms ss where p: "foldl (sourced_step pj) ([], []) entries = (ms, ss)" by fastforce
  ultimately show ?thesis
    using assms by (force simp: project_messages_sourced_def dest: set_zip_rightD)
qed

definition line :: "string \<Rightarrow> log_entry \<Rightarrow> enveloped_entry" where
  "line i e = entry_new_in i 0 ''s'' e"

definition user_text :: "string \<Rightarrow> log_entry" where
  "user_text t = EUser [CbText t None]"

lemma sources_are_lines_witness:
  "sm_entry (project_messages_sourced [line ''a'' (user_text ''hi'')] default_projection ! 0) =
     line ''a'' (user_text ''hi'') \<and> \<not> env_is_sidechain (line ''a'' (user_text ''hi''))"
proof -
  have v: "project_messages_sourced [line ''a'' (user_text ''hi'')] default_projection =
      [\<lparr>sm_message = MUser [CbText ''hi'' None], sm_entry = line ''a'' (user_text ''hi''), sm_part = None\<rparr>]"
    by (simp add: project_messages_sourced_def sourced_step_def line_def user_text_def entry_new_in_def
        default_projection_def is_compact_def)
  have "\<not> env_is_sidechain (sm_entry (project_messages_sourced [line ''a'' (user_text ''hi'')] default_projection ! 0))"
    using sources_are_lines [of "project_messages_sourced [line ''a'' (user_text ''hi'')] default_projection ! 0"
        "[line ''a'' (user_text ''hi'')]" default_projection] by (simp add: v)
  then show ?thesis by (simp add: v)
qed

text \<open>The count through an entry id is the length of the projection of the log up to the first
  line with that id, and there is none exactly when no line has it.\<close>
theorem count_through_entry_id:
  "projected_message_count_through_entry_id_with entries target pj =
     (case List.find (\<lambda>i. env_id (entries ! i) = target) [0..<length entries] of
        None \<Rightarrow> None
      | Some i \<Rightarrow> Some (length (project_messages_with (take (Suc i) entries) pj)))"
  by (simp add: projected_message_count_through_entry_id_with_def count_loop project_messages_with_def
      split: option.splits)

text \<open>C23. A compaction with a payload is a replay boundary: what the model sees afterwards depends on
  nothing before it.\<close>
theorem compact_is_a_boundary:
  assumes "env_entry c = ECompact cl" "\<not> env_is_sidechain c"
    and "replacement_history cl \<noteq> None \<or> summary cl \<noteq> None"
  shows "project_messages (before @ c # later) = project_messages (before' @ c # later)"
proof -
  have "project_step default_projection ms c = project_step default_projection ms' c" for ms ms'
    using assms by (auto simp: project_step_def default_projection_def split: option.splits)
  then show ?thesis
    by (simp add: project_messages_def project_messages_with_def) metis
qed

definition empty_compact :: compact_line where
  "empty_compact = \<lparr>before_tokens = 10, after_tokens = 1, summary_block_id = None,
     replacement_history = None, summary = None, snip_removed_uuids = None\<rparr>"

lemma compact_is_a_boundary_witness:
  "project_messages ([line ''a'' (user_text ''old'')] @
      line ''c'' (ECompact (empty_compact\<lparr>summary := Some [CbText ''sum'' None]\<rparr>)) # []) =
   project_messages ([] @ line ''c'' (ECompact (empty_compact\<lparr>summary := Some [CbText ''sum'' None]\<rparr>)) # [])"
  by (rule compact_is_a_boundary) (auto simp: line_def entry_new_in_def)

text \<open>Only model-visible lines and compactions of the main chain shape the view: sidechain lines,
  metadata, and the entries of extensions nobody surfaces can be dropped from the log, under either
  projection, without the model noticing.\<close>
theorem inert_lines:
  "project_messages_with
     (filter (\<lambda>e. \<not> env_is_sidechain e \<and>
        (pj_is_model_visible (extensions_are_visible sj ns) (env_entry e) \<or> is_compact (env_entry e))) entries)
     (extensions_are_visible sj ns) =
   project_messages_with entries (extensions_are_visible sj ns)"
  unfolding project_messages_with_def by (rule ext_pj.only_messages)

text \<open>The latest message's line covers the whole view: in a log without compactions whose lines
  have distinct ids, counting through the line \<open>latest_projected_message_entry_id\<close> names gives every
  message.\<close>
theorem latest_covers_all:
  assumes "latest_projected_message_entry_id entries = Some i"
    and "\<forall>e \<in> set entries. \<not> is_compact (env_entry e)" "distinct (map env_id entries)"
  shows "projected_message_count_through_entry_id entries i = Some (length (project_messages entries))"
  using default_pj.nothing_after_latest [of entries i] assms
  by (simp add: latest_projected_message_entry_id_def projected_message_count_through_entry_id_def
      project_messages_def)

lemma latest_covers_all_witness:
  "projected_message_count_through_entry_id
     [line ''a'' (user_text ''hi''), line ''b'' (EExtension ''plug'' ''ping'' JNull)] ''a'' = Some 1"
  using latest_covers_all [of "[line ''a'' (user_text ''hi''), line ''b'' (EExtension ''plug'' ''ping'' JNull)]" "''a''"]
  by (simp add: latest_projected_message_entry_id_def latest_projected_message_entry_id_with_def line_def
      entry_new_in_def user_text_def default_projection_def default_is_model_visible_def is_compact_def
      project_messages_def project_messages_with_def project_step_def)

lemma report_fold:
  assumes "foldl (report_step pj) (r0, [], False) entries = (r, ms, b)"
    and "\<And>ns ev pl ms. pj_apply pj (EExtension ns ev pl) ms = ms"
    and "\<And>m ms. pj_apply pj (EMeta m) ms = ms" "\<And>k t ms. pj_apply pj (ESystem k t) ms = ms"
    and "\<And>u ms. pj_apply pj (EUsageSnapshot u) ms = ms"
  shows "ms = project_messages_with entries pj"
  using assms(1)
proof (induction entries arbitrary: r ms b rule: rev_induct)
  case Nil
  then show ?case by (simp add: project_messages_with_def)
next
  case (snoc e entries)
  obtain r1 ms1 b1 where p: "foldl (report_step pj) (r0, [], False) entries = (r1, ms1, b1)"
    using prod_cases3 by blast
  have st: "report_step pj (r1, ms1, b1) e = (r, ms, b)"
    using snoc.prems p by simp
  then have "ms = project_step pj ms1 e"
    by (cases "env_entry e") (auto simp: project_step_def report_step_def report_compact_def assms(2-5)
        Let_def split: if_splits)
  then show ?case
    using snoc.IH [OF p] by (simp add: project_snoc)
qed

text \<open>Under the engine's own rules the resume report counts the messages the model will see, and
  warns of an empty view exactly when a log with lines projects to nothing.\<close>
theorem resume_report_counts:
  "projected_message_count (resume_projection_report entries) = length (project_messages entries) \<and>
   (warning (resume_projection_report entries) = Some EmptyProjection) =
     (entries \<noteq> [] \<and> project_messages entries = [])"
proof -
  let ?r0 = "\<lparr>entry_count = length entries, projected_message_count = 0, compact_boundary_count = 0,
            replacement_compact_count = 0, summary_fallback_compact_count = 0, sidechain_entry_count = 0,
            metadata_entry_count = 0, warning = None\<rparr>"
  obtain r ms b where p: "foldl (report_step default_projection) (?r0, [], False) entries = (r, ms, b)"
    using prod_cases3 by blast
  from report_fold [OF this] have "ms = project_messages entries"
    by (simp add: default_projection_def project_messages_def)
  then show ?thesis
    using p by (auto simp: resume_projection_report_def resume_projection_report_with_def)
qed

text \<open>Under the projection that surfaces extensions the report disagrees with the view: an extension
  line is counted as metadata and never applied, so a log whose only message is an extension's is
  reported as empty.\<close>
theorem report_misses_extensions:
  "projected_message_count (resume_projection_report_with [line ''x'' (EExtension ''plug'' ''ping'' JNull)]
     (extensions_are_visible sj [])) = 0 \<and>
   length (project_messages_with [line ''x'' (EExtension ''plug'' ''ping'' JNull)] (extensions_are_visible sj [])) = 1"
  by (simp add: resume_projection_report_with_def report_step_def line_def entry_new_in_def
      project_messages_with_def project_step_def extensions_are_visible_def extension_covers_def
      ENGINE_NAMESPACE_PREFIX_def)

text \<open>A compaction line without a payload leaves the messages in place and still claims them: every
  message before it is reported as part of a replacement view that does not exist.\<close>
theorem empty_compact_claims_messages:
  "project_messages_sourced [line ''a'' (user_text ''hi''), line ''c'' (ECompact empty_compact)] default_projection =
     [\<lparr>sm_message = MUser [CbText ''hi'' None], sm_entry = line ''c'' (ECompact empty_compact), sm_part = Some 0\<rparr>]"
  by (simp add: project_messages_sourced_def sourced_step_def line_def user_text_def entry_new_in_def
      default_projection_def is_compact_def empty_compact_def)

text \<open>A preview never exceeds the length asked for, unless not even the ellipsis fits.\<close>
theorem preview_bounded:
  assumes "length ellipsis = 1" "0 < n"
  shows "length (preview_messages ellipsis messages n) \<le> n"
  using assms by (auto simp: preview_messages_def truncate_chars_def)

lemma preview_bounded_witness: "length (preview_messages ''.'' [MUser [CbText ''hello world'' None]] 4) \<le> 4"
  by (rule preview_bounded) simp_all

end
