(* ===== verification/Grouping.thy ===== *)
theory Grouping
  imports Tokens
begin

text \<open>
  API rounds, \<open>crates/compaction/src/grouping.rs\<close>: the units the compaction strategies keep or drop.
  What a grouping promises its clients is the locale \<open>round_grouping\<close>.
\<close>

record api_round =
  start :: nat
  messages :: "model_message list"
  estimated_tokens :: nat

definition is_user_text :: "model_message \<Rightarrow> bool" where
  "is_user_text m \<longleftrightarrow> role m = RoleUser \<and> (case content m of MText _ # _ \<Rightarrow> True | _ \<Rightarrow> False)"

definition is_tool_result :: "model_message \<Rightarrow> bool" where
  "is_tool_result m \<longleftrightarrow> role m = RoleUser \<and> (case content m of MToolResult _ _ _ # _ \<Rightarrow> True | _ \<Rightarrow> False)"

definition finish_round :: "tokenizer \<Rightarrow> model_message list \<Rightarrow> nat \<Rightarrow> api_round" where
  "finish_round tk ms st =
     \<lparr>start = st, messages = ms, estimated_tokens = estimate_message_tokens tk ms\<rparr>"

text \<open>The loop: the rounds finished so far, the open round and where it starts, and whether the previous
  message was a tool result.\<close>

fun group_loop ::
  "tokenizer \<Rightarrow> api_round list \<Rightarrow> model_message list \<Rightarrow> nat \<Rightarrow> bool \<Rightarrow> nat \<Rightarrow> model_message list \<Rightarrow> api_round list" where
  "group_loop tk rounds current start_idx prev_was_tool_result i [] =
     (if current \<noteq> [] then rounds @ [finish_round tk current start_idx] else rounds)"
| "group_loop tk rounds current start_idx prev_was_tool_result i (msg # msgs) =
     (let is_round_start = (is_user_text msg \<or> role msg = RoleAssistant \<and> prev_was_tool_result)
      in if is_round_start \<and> current \<noteq> [] then
           group_loop tk (rounds @ [finish_round tk current start_idx]) [msg] i (is_tool_result msg) (i + 1) msgs
         else
           group_loop tk rounds (current @ [msg]) start_idx (is_tool_result msg) (i + 1) msgs)"

definition group_by_api_round :: "tokenizer \<Rightarrow> model_message list \<Rightarrow> api_round list" where
  "group_by_api_round tk ms = (if ms = [] then [] else group_loop tk [] [] 0 False 0 ms)"

definition flatten :: "api_round list \<Rightarrow> model_message list" where
  "flatten rounds = concat (map messages rounds)"

lemmas grouping_defs [kernel_defs] =
  is_user_text_def is_tool_result_def finish_round_def group_by_api_round_def flatten_def

section \<open>What a grouping promises\<close>

text \<open>Every round is a stretch of the conversation with the size of its messages; together they are the
  conversation; and a round that is not the first never begins with a tool result.\<close>

definition well_grouped :: "tokenizer \<Rightarrow> api_round list \<Rightarrow> model_message list \<Rightarrow> bool" where
  "well_grouped tk rounds ms \<longleftrightarrow>
     flatten rounds = ms \<and>
     list_all (\<lambda>r. messages r \<noteq> [] \<and> estimated_tokens r = estimate_message_tokens tk (messages r)) rounds \<and>
     map start rounds = map (\<lambda>k. length (flatten (take k rounds))) [0..<length rounds] \<and>
     list_all (\<lambda>r. \<not> is_tool_result (hd (messages r))) (tl rounds)"

lemma flatten_append [simp]: "flatten (a @ b) = flatten a @ flatten b"
  by (simp add: flatten_def)

lemma flatten_Nil [simp]: "flatten [] = []"
  by (simp add: flatten_def)

lemma flatten_Cons: "flatten (r # rs) = messages r @ flatten rs"
  by (simp add: flatten_def)

lemma flatten_take_drop: "flatten (take n rs) @ flatten (drop n rs) = flatten rs"
  by (metis append_take_drop_id flatten_append)

locale round_grouping =
  fixes tk :: tokenizer and rounds_of :: "model_message list \<Rightarrow> api_round list"
  assumes grouped: "well_grouped tk (rounds_of ms) ms"
begin

lemma flatten_rounds: "flatten (rounds_of ms) = ms"
  using grouped [of ms] by (simp add: well_grouped_def)

lemma rounds_nonempty: "r \<in> set (rounds_of ms) \<Longrightarrow> messages r \<noteq> []"
  using grouped [of ms] by (simp add: well_grouped_def list_all_iff)

lemma round_tokens: "r \<in> set (rounds_of ms) \<Longrightarrow> estimated_tokens r = estimate_message_tokens tk (messages r)"
  using grouped [of ms] by (simp add: well_grouped_def list_all_iff)

lemma tokens_of_rounds:
  assumes "set rs \<subseteq> set (rounds_of ms)"
  shows "sum_list (map estimated_tokens rs) = estimate_message_tokens tk (flatten rs)"
  using assms by (induction rs) (auto simp: flatten_Cons round_tokens)

lemma rounds_empty_iff: "rounds_of ms = [] \<longleftrightarrow> ms = []"
proof
  show "rounds_of ms = [] \<Longrightarrow> ms = []"
    using flatten_rounds [of ms] by simp
  show "ms = [] \<Longrightarrow> rounds_of ms = []"
    using flatten_rounds [of ms] rounds_nonempty [of "hd (rounds_of ms)" ms]
    by (cases "rounds_of ms") (auto simp: flatten_Cons)
qed

lemma dropped_never_orphans:
  assumes "0 < n" "n < length (rounds_of ms)"
  shows "flatten (drop n (rounds_of ms)) \<noteq> [] \<and> \<not> is_tool_result (hd (flatten (drop n (rounds_of ms))))"
proof -
  let ?rs = "rounds_of ms"
  have d: "drop n ?rs = ?rs ! n # drop (Suc n) ?rs"
    using assms by (simp add: Cons_nth_drop_Suc)
  have "?rs ! n \<in> set (tl ?rs)"
    using assms by (cases ?rs) (auto simp: nth_Cons' )
  then have "\<not> is_tool_result (hd (messages (?rs ! n)))" "messages (?rs ! n) \<noteq> []"
    using grouped [of ms] rounds_nonempty [of "?rs ! n" ms] assms
    by (auto simp: well_grouped_def list_all_iff)
  then show ?thesis by (simp add: d flatten_Cons)
qed

lemma flatten_drop_tokens_le:
  "estimate_message_tokens tk (flatten (drop n (rounds_of ms))) \<le> estimate_message_tokens tk ms"
  using flatten_take_drop [of n "rounds_of ms"] flatten_rounds [of ms]
  by (metis estimate_append le_add2)

end

section \<open>The loop keeps the promise\<close>

definition loop_inv :: "tokenizer \<Rightarrow> api_round list \<Rightarrow> model_message list \<Rightarrow> nat \<Rightarrow> nat \<Rightarrow> bool" where
  "loop_inv tk rounds current start_idx i \<longleftrightarrow>
     well_grouped tk rounds (flatten rounds) \<and> start_idx = length (flatten rounds) \<and>
     i = start_idx + length current \<and> (rounds \<noteq> [] \<longrightarrow> current \<noteq> [] \<and> \<not> is_tool_result (hd current))"

lemma not_round_start_tool_result:
  "is_user_text m \<Longrightarrow> \<not> is_tool_result m" "role m = RoleAssistant \<Longrightarrow> \<not> is_tool_result m"
  by (auto simp: is_user_text_def is_tool_result_def split: list.splits model_block.splits)

lemma well_grouped_snoc:
  assumes "well_grouped tk rounds (flatten rounds)" "current \<noteq> []"
    and "rounds \<noteq> [] \<longrightarrow> \<not> is_tool_result (hd current)"
  shows "well_grouped tk (rounds @ [finish_round tk current (length (flatten rounds))]) (flatten rounds @ current)"
proof -
  let ?r = "finish_round tk current (length (flatten rounds))"
  have m: "messages ?r = current" "estimated_tokens ?r = estimate_message_tokens tk current"
    "start ?r = length (flatten rounds)" by (simp_all add: finish_round_def)
  have st: "map start (rounds @ [?r]) = map (\<lambda>k. length (flatten (take k (rounds @ [?r])))) [0..<length (rounds @ [?r])]"
    using assms(1) by (simp add: well_grouped_def m)
  have tl: "list_all (\<lambda>r. \<not> is_tool_result (hd (messages r))) (tl (rounds @ [?r]))"
    using assms(1,3) by (cases rounds) (auto simp: well_grouped_def finish_round_def)
  show ?thesis
    unfolding well_grouped_def using assms(1,2) st tl m by (simp add: well_grouped_def flatten_Cons)
qed

lemma group_loop_grouped:
  assumes "loop_inv tk rounds current start_idx i"
  shows "well_grouped tk (group_loop tk rounds current start_idx p i ms) (flatten rounds @ current @ ms)"
  using assms
proof (induction tk rounds current start_idx p i ms rule: group_loop.induct)
  case (1 tk rounds current start_idx p i)
  then show ?case
    using well_grouped_snoc [of tk rounds current] by (auto simp: loop_inv_def)
next
  case (2 tk rounds current start_idx p i msg msgs)
  let ?b = "is_user_text msg \<or> role msg = RoleAssistant \<and> p"
  show ?case
  proof (cases "?b \<and> current \<noteq> []")
    case True
    let ?r = "finish_round tk current start_idx"
    have w: "well_grouped tk (rounds @ [?r]) (flatten rounds @ current)"
      using True 2(3) well_grouped_snoc [of tk rounds current] by (auto simp: loop_inv_def)
    moreover have "\<not> is_tool_result msg"
      using True not_round_start_tool_result by blast
    moreover have "flatten (rounds @ [?r]) = flatten rounds @ current"
      using w by (simp add: well_grouped_def)
    ultimately have "loop_inv tk (rounds @ [?r]) [msg] i (i + 1)"
      using 2(3) by (simp add: loop_inv_def)
    from 2(1) [OF refl True this] True show ?thesis
      by (simp add: flatten_Cons finish_round_def)
  next
    case False
    have "loop_inv tk rounds (current @ [msg]) start_idx (i + 1)"
      using 2(3) by (auto simp: loop_inv_def)
    from 2(2) [OF refl False this] show ?thesis using False by (auto simp: Let_def)
  qed
qed

interpretation grouping: round_grouping tk "group_by_api_round tk" for tk
proof
  fix ms
  have "loop_inv tk [] [] 0 0" by (simp add: loop_inv_def well_grouped_def)
  from group_loop_grouped [OF this, of False ms]
  show "well_grouped tk (group_by_api_round tk ms) ms"
    by (simp add: group_by_api_round_def well_grouped_def)
qed

section \<open>Properties\<close>

text \<open>Grouping partitions the conversation: the rounds in order are the messages, none is empty, each knows
  its index and its size, and no later round begins with a tool result, so a cut between rounds never
  separates a result from the call before it.\<close>
theorem rounds_partition:
  "concat (map messages (group_by_api_round tk ms)) = ms \<and>
   list_all (\<lambda>r. messages r \<noteq> [] \<and> estimated_tokens r = estimate_message_tokens tk (messages r)) (group_by_api_round tk ms) \<and>
   map start (group_by_api_round tk ms) =
     map (\<lambda>k. length (concat (map messages (take k (group_by_api_round tk ms))))) [0..<length (group_by_api_round tk ms)] \<and>
   list_all (\<lambda>r. \<not> is_tool_result (hd (messages r))) (tl (group_by_api_round tk ms))"
  using grouping.grouped [of tk ms] by (simp add: well_grouped_def flatten_def)

end
