(* ===== verification/Compact.thy ===== *)
theory Compact
  imports Grouping
begin

text \<open>
  The compaction strategies of \<open>crates/compaction/src/compact.rs\<close>, the two aging passes
  (\<open>time_based_mc.rs\<close>, \<open>cached.rs\<close>), the reactive trigger (\<open>reactive.rs\<close>) and the callbacks of
  \<open>cleanup.rs\<close>.  Instants are milliseconds of a monotonic clock; \<open>elapsed\<close> saturates at zero.
  Floating-point arithmetic is a parameter: the record \<open>f64_ops\<close> holds the operations the source uses.
\<close>

section \<open>Floating point\<close>

record 'f f64_ops =
  f_of_nat :: "nat \<Rightarrow> 'f"
  f_div :: "'f \<Rightarrow> 'f \<Rightarrow> 'f"
  f_mul :: "'f \<Rightarrow> 'f \<Rightarrow> 'f"
  f_min :: "'f \<Rightarrow> 'f \<Rightarrow> 'f"
  f_le :: "'f \<Rightarrow> 'f \<Rightarrow> bool"
  f_less :: "'f \<Rightarrow> 'f \<Rightarrow> bool"
  f_four_fifths :: "'f"
  f_as_usize :: "'f \<Rightarrow> nat"
  f_show0 :: "'f \<Rightarrow> string"

section \<open>Vocabulary\<close>

datatype compact_strategy = NoOp | Snip | MicroCompact | CollapseContext | FullCompact | SessionMemory

record snip_projection =
  dropped_rounds :: nat
  dropped_messages :: nat
  estimated_tokens_saved :: nat

record compact_result =
  cr_strategy :: compact_strategy
  messages_before :: nat
  messages_after :: nat
  tokens_before :: nat
  tokens_after :: nat
  cr_projection :: "snip_projection option"

datatype compact_error = Exhausted | NotApplicable string | Internal string

definition CLEARED :: string where
  "CLEARED = ''[Old tool result content cleared]''"

definition CLEARED_BY_TIME :: string where
  "CLEARED_BY_TIME = ''[Old tool result content cleared by time-based MC]''"

definition COMPACTABLE_TOOLS :: "string list" where
  "COMPACTABLE_TOOLS =
     [''Read'', ''Bash'', ''Grep'', ''Glob'', ''WebSearch'', ''WebFetch'', ''Edit'', ''Write'']"

definition is_compactable :: "string option \<Rightarrow> bool" where
  "is_compactable last_tool_name =
     (case last_tool_name of None \<Rightarrow> False | Some n \<Rightarrow> n \<in> set COMPACTABLE_TOOLS)"

definition track_tool_name :: "string option \<Rightarrow> model_block list \<Rightarrow> string option" where
  "track_tool_name = foldl (\<lambda>last b. case b of MToolUse _ name _ \<Rightarrow> Some name | _ \<Rightarrow> last)"

section \<open>Snip\<close>

text \<open>The walk back from the newest round: \<open>keep\<close> rounds worth \<open>tokens\<close> so far.\<close>

fun snip_walk :: "nat \<Rightarrow> nat \<Rightarrow> nat \<Rightarrow> nat \<Rightarrow> api_round list \<Rightarrow> nat \<times> nat" where
  "snip_walk max_tokens target_keep keep tokens [] = (keep, tokens)"
| "snip_walk max_tokens target_keep keep tokens (r # rs) =
     (let next = tokens + estimated_tokens r
      in if 0 < keep \<and> (max_tokens < next \<or> target_keep \<le> keep) then (keep, tokens)
         else snip_walk max_tokens target_keep (keep + 1) next rs)"

definition clamp_keep :: "nat \<Rightarrow> nat \<Rightarrow> nat" where
  "clamp_keep keep_rounds n = min (max keep_rounds 1) n"

definition snip ::
  "tokenizer \<Rightarrow> model_message list \<Rightarrow> nat \<Rightarrow> nat \<Rightarrow> model_message list \<times> compact_strategy \<times> nat \<times> nat \<times> nat" where
  "snip tk ms max_tokens keep_rounds =
     (let rounds = group_by_api_round tk ms;
          total_rounds = length rounds;
          total_messages = length ms
      in if total_rounds = 0 then (ms, Snip, 0, 0, 0)
         else
           (let before = estimate_message_tokens tk ms;
                target_keep = clamp_keep keep_rounds total_rounds
            in case snip_walk max_tokens target_keep 0 0 (rev rounds) of (keep, tokens) \<Rightarrow>
              (let result = flatten (drop (total_rounds - keep) rounds)
               in (result, Snip, total_rounds - keep, total_messages - length result, before - tokens))))"

section \<open>Micro-compaction\<close>

definition clear_body :: "string option \<Rightarrow> model_block \<Rightarrow> model_block" where
  "clear_body last_tool_name b =
     (case b of
        MToolResult i c e \<Rightarrow>
          (if is_compactable last_tool_name then MToolResult i CLEARED (Some False) else b)
      | _ \<Rightarrow> b)"

fun micro_loop :: "string option \<Rightarrow> model_message list \<Rightarrow> model_message list" where
  "micro_loop last_tool_name [] = []"
| "micro_loop last_tool_name (m # ms) =
     (let last' = track_tool_name last_tool_name (content m)
      in m\<lparr>content := map (clear_body last') (content m)\<rparr> # micro_loop last' ms)"

definition micro_compact :: "tokenizer \<Rightarrow> model_message list \<Rightarrow> nat \<Rightarrow> model_message list \<times> compact_strategy" where
  "micro_compact tk ms keep_rounds =
     (let rounds = group_by_api_round tk ms
      in if length rounds \<le> keep_rounds then (ms, MicroCompact)
         else
           (let keep_start = length rounds - keep_rounds
            in (micro_loop None (flatten (take keep_start rounds)) @ flatten (drop keep_start rounds),
                MicroCompact)))"

section \<open>Collapse\<close>

definition collapse_part :: "model_block \<Rightarrow> string option" where
  "collapse_part b =
     (case b of
        MText t \<Rightarrow>
          Some (if 200 < utf8_len t then truncate_at_char_boundary t 200 @ ''...'' else t)
      | MToolUse _ name _ \<Rightarrow> Some (''[tool: '' @ name @ '']'')
      | _ \<Rightarrow> None)"

definition user_message :: "string \<Rightarrow> model_message" where
  "user_message t = \<lparr>role = RoleUser, content = [MText t]\<rparr>"

definition collapse_context :: "tokenizer \<Rightarrow> model_message list \<Rightarrow> nat \<Rightarrow> model_message list \<times> compact_strategy" where
  "collapse_context tk ms keep_rounds =
     (let rounds = group_by_api_round tk ms
      in if length rounds \<le> keep_rounds then (ms, CollapseContext)
         else
           (let keep_start = length rounds - keep_rounds;
                parts = List.map_filter collapse_part (concat (map content (flatten (take keep_start rounds))));
                summary = join_with '' | '' parts
            in ([user_message ''[Earlier conversation collapsed for context]'',
                 user_message (''[Summary of earlier conversation]: '' @ summary)]
                @ flatten (drop keep_start rounds), CollapseContext)))"

section \<open>The cascade\<close>

definition compact_default ::
  "tokenizer \<Rightarrow> model_message list \<Rightarrow> nat \<Rightarrow> nat \<Rightarrow> compact_error + (model_message list \<times> compact_result)" where
  "compact_default tk ms max_tokens keep_rounds =
     (let before = estimate_message_tokens tk ms;
          count_before = length ms
      in if before \<le> max_tokens then
           Inr (ms, \<lparr>cr_strategy = NoOp, messages_before = count_before, messages_after = count_before,
                     tokens_before = before, tokens_after = before, cr_projection = None\<rparr>)
         else
           (case (case snip tk ms max_tokens keep_rounds of (r, s, dr, dm, ts) \<Rightarrow>
                    (if estimate_message_tokens tk r \<le> max_tokens then (r, s, dr, dm, ts)
                     else case micro_compact tk ms keep_rounds of (r, s) \<Rightarrow>
                       (if estimate_message_tokens tk r \<le> max_tokens then (r, s, 0, 0, 0)
                        else case collapse_context tk ms keep_rounds of (r, s) \<Rightarrow> (r, s, 0, 0, 0))))
            of (result, strategy, dr, dm, ts) \<Rightarrow>
              Inr (result,
                \<lparr>cr_strategy = strategy, messages_before = count_before, messages_after = length result,
                 tokens_before = before, tokens_after = estimate_message_tokens tk result,
                 cr_projection =
                   (if strategy = Snip \<and> 0 < dr then
                      Some \<lparr>dropped_rounds = dr, dropped_messages = dm, estimated_tokens_saved = ts\<rparr>
                    else None)\<rparr>)))"

section \<open>Aging\<close>

record time_based_config =
  max_age :: "nat option"
  min_messages :: nat

record time_based_result =
  tb_cleared :: nat
  tb_skipped :: nat

definition time_default :: time_based_result where
  "time_default = \<lparr>tb_cleared = 0, tb_skipped = 0\<rparr>"

definition time_body :: "string option \<Rightarrow> model_block \<Rightarrow> model_block" where
  "time_body last_tool_name b =
     (case b of
        MToolResult i c e \<Rightarrow>
          (if is_compactable last_tool_name \<and> c \<noteq> CLEARED \<and> c \<noteq> CLEARED_BY_TIME
           then MToolResult i CLEARED_BY_TIME e else b)
      | _ \<Rightarrow> b)"

fun time_loop ::
  "nat \<Rightarrow> (nat \<times> nat) list \<Rightarrow> nat \<Rightarrow> string option \<Rightarrow> nat \<Rightarrow> model_message list \<Rightarrow> time_based_result
    \<Rightarrow> model_message list \<times> time_based_result" where
  "time_loop now ages limit last_tool_name idx [] res = ([], res)"
| "time_loop now ages limit last_tool_name idx (m # ms) res =
     (let last' = track_tool_name last_tool_name (content m);
          age = (case map_of (rev ages) idx of Some t \<Rightarrow> now - t | None \<Rightarrow> 0)
      in if age < limit then
           (case time_loop now ages limit last' (idx + 1) ms (res\<lparr>tb_skipped := tb_skipped res + 1\<rparr>) of
              (ms', res') \<Rightarrow> (m # ms', res'))
         else
           (let content' = map (time_body last') (content m);
                n = length (filter (\<lambda>b. time_body last' b \<noteq> b) (content m))
            in case time_loop now ages limit last' (idx + 1) ms (res\<lparr>tb_cleared := tb_cleared res + n\<rparr>) of
                 (ms', res') \<Rightarrow> (m\<lparr>content := content'\<rparr> # ms', res')))"

definition apply_time_based_mc ::
  "nat \<Rightarrow> model_message list \<Rightarrow> time_based_config \<Rightarrow> (nat \<times> nat) list \<Rightarrow> model_message list \<times> time_based_result" where
  "apply_time_based_mc now ms config ages =
     (case max_age config of
        None \<Rightarrow> (ms, time_default)
      | Some limit \<Rightarrow>
          (if length ms < min_messages config then (ms, time_default)
           else time_loop now ages limit None 0 ms time_default))"

definition is_result :: "model_block \<Rightarrow> bool" where
  "is_result b = (case b of MToolResult _ _ _ \<Rightarrow> True | _ \<Rightarrow> False)"

definition set_block :: "model_message list \<Rightarrow> nat \<Rightarrow> nat \<Rightarrow> model_block \<Rightarrow> model_message list" where
  "set_block ms mi bi b = ms[mi := (ms ! mi)\<lparr>content := (content (ms ! mi))[bi := b]\<rparr>]"

text \<open>Positions of the results in user messages, newest message first.\<close>

definition stale_positions :: "model_message list \<Rightarrow> (nat \<times> nat) list" where
  "stale_positions ms =
     concat (map (\<lambda>i. if role (ms ! i) = RoleUser
                      then map (Pair i) (filter (\<lambda>j. is_result (content (ms ! i) ! j)) [0..<length (content (ms ! i))])
                      else []) (rev [0..<length ms]))"

definition stale_step :: "model_message list \<times> string list \<Rightarrow> nat \<times> nat \<Rightarrow> model_message list \<times> string list" where
  "stale_step st p =
     (case (st, p) of ((ms, ids), (mi, bi)) \<Rightarrow>
        (let ids' = (case content (ms ! mi) ! bi of
                       MToolResult i _ _ \<Rightarrow> (if i \<noteq> [] then ids @ [i] else ids)
                     | _ \<Rightarrow> ids)
         in (set_block ms mi bi (MToolResult [] CLEARED (Some False)), ids')))"

definition clear_stale_tool_results :: "model_message list \<Rightarrow> nat \<Rightarrow> model_message list \<times> nat \<times> string list" where
  "clear_stale_tool_results ms keep_recent =
     (let positions = stale_positions ms;
          to_keep = min keep_recent (length positions);
          to_clear = length positions - to_keep
      in case foldl stale_step (ms, []) (drop to_keep positions) of (ms', ids) \<Rightarrow> (ms', to_clear, ids))"

record aging_input =
  message_ages :: "(nat \<times> nat) list"
  time_based :: time_based_config
  cached_due :: bool
  cached_keep_recent :: nat

record aging =
  ag_time_based :: time_based_result
  cached_cleared :: nat
  cache_edits :: "string list option"

definition aging_default :: aging where
  "aging_default = \<lparr>ag_time_based = time_default, cached_cleared = 0, cache_edits = None\<rparr>"

definition cleared :: "aging \<Rightarrow> nat" where
  "cleared a = tb_cleared (ag_time_based a) + cached_cleared a"

definition age_default :: "nat \<Rightarrow> model_message list \<Rightarrow> aging_input \<Rightarrow> model_message list \<times> aging" where
  "age_default now ms input =
     (case (if max_age (time_based input) \<noteq> None then
              (case apply_time_based_mc now ms (time_based input) (message_ages input) of
                 (ms1, tb) \<Rightarrow> (ms1, aging_default\<lparr>ag_time_based := tb\<rparr>))
            else (ms, aging_default)) of
        (ms1, out) \<Rightarrow>
          (if cached_due input then
             (case clear_stale_tool_results ms1 (cached_keep_recent input) of
                (ms2, n, ids) \<Rightarrow> (ms2, out\<lparr>cached_cleared := n, cache_edits := Some ids\<rparr>))
           else (ms1, out)))"

section \<open>The cached pass and its pending edits\<close>

record cached_config =
  cc_enabled :: bool
  cc_interval :: nat
  cc_keep_recent :: nat

record cached_micro_compact =
  config :: cached_config
  last_run :: nat
  run_count :: "64 word"
  pending_edits :: "string list"

definition cached_new :: "nat \<Rightarrow> cached_config \<Rightarrow> cached_micro_compact" where
  "cached_new now c = \<lparr>config = c, last_run = now, run_count = 0, pending_edits = []\<rparr>"

definition should_run :: "nat \<Rightarrow> cached_micro_compact \<Rightarrow> bool" where
  "should_run now c \<longleftrightarrow> cc_enabled (config c) \<and> cc_interval (config c) \<le> now - last_run c"

definition record_pass :: "nat \<Rightarrow> cached_micro_compact \<Rightarrow> string list \<Rightarrow> cached_micro_compact" where
  "record_pass now c ids = c\<lparr>pending_edits := ids, last_run := now, run_count := run_count c + 1\<rparr>"

definition cached_run ::
  "nat \<Rightarrow> cached_micro_compact \<Rightarrow> model_message list \<Rightarrow> cached_micro_compact \<times> model_message list \<times> nat" where
  "cached_run now c ms =
     (if \<not> cc_enabled (config c) then (c, ms, 0)
      else case clear_stale_tool_results ms (cc_keep_recent (config c)) of
        (ms', n, ids) \<Rightarrow> (record_pass now c ids, ms', n))"

definition consume_pending_edits :: "cached_micro_compact \<Rightarrow> string list \<times> cached_micro_compact" where
  "consume_pending_edits c = (pending_edits c, c\<lparr>pending_edits := []\<rparr>)"

fun edits_loop :: "nat \<Rightarrow> nat \<Rightarrow> string list \<Rightarrow> model_block list \<Rightarrow> nat \<times> string list" where
  "edits_loop keep_recent n ids [] = (n, ids)"
| "edits_loop keep_recent n ids (b # bs) =
     (case b of
        MToolResult i _ _ \<Rightarrow>
          edits_loop keep_recent (n + 1)
            (if keep_recent < n + 1 \<and> i \<noteq> [] \<and> i \<notin> set ids then ids @ [i] else ids) bs
      | _ \<Rightarrow> edits_loop keep_recent n ids bs)"

definition build_cache_edits :: "model_message list \<Rightarrow> nat \<Rightarrow> string list" where
  "build_cache_edits ms keep_recent =
     snd (edits_loop keep_recent 0 []
       (concat (map (\<lambda>m. if role m = RoleUser then content m else []) (rev ms))))"

definition format_cache_edit :: "string list \<Rightarrow> json option" where
  "format_cache_edit ids =
     (if ids = [] then None
      else Some (JObject
        [(''type'', JString ''cache_edits''),
         (''cache_edits'', JArray (map (\<lambda>i. JObject
            [(''type'', JString ''delete_tool_result''), (''tool_use_id'', JString i)]) ids))]))"

lemmas compact_defs [kernel_defs] =
  CLEARED_def CLEARED_BY_TIME_def COMPACTABLE_TOOLS_def is_compactable_def track_tool_name_def
  clamp_keep_def snip_def clear_body_def micro_compact_def collapse_part_def user_message_def
  collapse_context_def compact_default_def time_default_def time_body_def apply_time_based_mc_def
  is_result_def set_block_def stale_positions_def stale_step_def clear_stale_tool_results_def
  aging_default_def cleared_def age_default_def cached_new_def should_run_def record_pass_def
  cached_run_def consume_pending_edits_def build_cache_edits_def format_cache_edit_def

end
