(* ===== verification/CompactProps.thy ===== *)
theory CompactProps
  imports Compact
begin

text \<open>
  What the compaction strategies guarantee: snip keeps the newest rounds that fit, micro-compaction only
  blanks bodies, the cascade keeps the newest round and never fails, and the aging passes keep the shape
  of the conversation.  Everything about rounds comes from the interpretation \<open>grouping\<close>.
\<close>

section \<open>Snip\<close>

lemma snip_walk_spec:
  assumes "snip_walk limit target keep tokens rs = (k, t)"
  obtains j where "j \<le> length rs" "k = keep + j" "t = tokens + sum_list (map estimated_tokens (take j rs))"
    "\<forall>i<j. 0 < keep + i \<longrightarrow> tokens + sum_list (map estimated_tokens (take (Suc i) rs)) \<le> limit \<and> keep + i < target"
    "j = length rs \<or> 0 < k \<and> (limit < tokens + sum_list (map estimated_tokens (take (Suc j) rs)) \<or> target \<le> k)"
  using assms
proof (induction limit target keep tokens rs arbitrary: thesis rule: snip_walk.induct)
  case (1 limit target keep tokens)
  then show ?case by fastforce
next
  case (2 limit target keep tokens r rs)
  show ?case
  proof (cases "0 < keep \<and> (limit < tokens + estimated_tokens r \<or> target \<le> keep)")
    case True
    with 2(3) have "k = keep" "t = tokens" by (simp_all add: Let_def)
    then show ?thesis using 2(2) [of 0] True by simp
  next
    case False
    with 2(3) have w: "snip_walk limit target (keep + 1) (tokens + estimated_tokens r) rs = (k, t)"
      by (simp add: Let_def split: if_splits)
    obtain j where j: "j \<le> length rs" "k = keep + 1 + j"
      "t = tokens + estimated_tokens r + sum_list (map estimated_tokens (take j rs))"
      "\<forall>i<j. 0 < keep + 1 + i \<longrightarrow> tokens + estimated_tokens r +
        sum_list (map estimated_tokens (take (Suc i) rs)) \<le> limit \<and> keep + 1 + i < target"
      "j = length rs \<or> 0 < k \<and> (limit < tokens + estimated_tokens r +
        sum_list (map estimated_tokens (take (Suc j) rs)) \<or> target \<le> k)"
      using 2(1) [OF refl False _ w] by blast
    show ?thesis
    proof (rule 2(2) [of "Suc j"])
      show "\<forall>i<Suc j. 0 < keep + i \<longrightarrow>
          tokens + sum_list (map estimated_tokens (take (Suc i) (r # rs))) \<le> limit \<and> keep + i < target"
      proof (intro allI impI)
        fix i assume i: "i < Suc j" "0 < keep + i"
        show "tokens + sum_list (map estimated_tokens (take (Suc i) (r # rs))) \<le> limit \<and> keep + i < target"
        proof (cases i)
          case 0
          with False i(2) show ?thesis by simp
        next
          case (Suc i')
          then have "i' < j" using i(1) by simp
          with j(4) Suc show ?thesis by (simp add: add.assoc)
        qed
      qed
    qed (use j in \<open>auto simp: add.assoc\<close>)
  qed
qed

lemma newest_tokens:
  assumes "j \<le> length (group_by_api_round tk ms)"
  shows "sum_list (map estimated_tokens (take j (rev (group_by_api_round tk ms)))) =
    estimate_message_tokens tk (flatten (drop (length (group_by_api_round tk ms) - j) (group_by_api_round tk ms)))"
proof -
  let ?rs = "group_by_api_round tk ms"
  have "take j (rev ?rs) = rev (drop (length ?rs - j) ?rs)"
    using assms by (simp add: take_rev)
  then have "sum_list (map estimated_tokens (take j (rev ?rs))) =
      sum_list (map estimated_tokens (drop (length ?rs - j) ?rs))"
    by (simp add: rev_map [symmetric])
  then show ?thesis
    using grouping.tokens_of_rounds [of "drop (length ?rs - j) ?rs" tk ms] set_drop_subset by metis
qed

text \<open>The newest \<open>k\<close> rounds of a conversation.\<close>

definition newest :: "tokenizer \<Rightarrow> model_message list \<Rightarrow> nat \<Rightarrow> model_message list" where
  "newest tk ms k =
     flatten (drop (length (group_by_api_round tk ms) - k) (group_by_api_round tk ms))"

definition round_count :: "tokenizer \<Rightarrow> model_message list \<Rightarrow> nat" where
  "round_count tk ms = length (group_by_api_round tk ms)"

text \<open>C24. Snip keeps the newest rounds and nothing else: at least one, at most the number asked for, as many as
  fit beyond the first, and its three counters are those of what it dropped.\<close>
theorem snip_keeps_newest:
  assumes "ms \<noteq> []"
  shows "\<exists>k. 1 \<le> k \<and> k \<le> clamp_keep keep_rounds (round_count tk ms) \<and>
    snip tk ms max_tokens keep_rounds =
      (newest tk ms k, Snip, round_count tk ms - k, length ms - length (newest tk ms k),
       estimate_message_tokens tk ms - estimate_message_tokens tk (newest tk ms k)) \<and>
    (k = 1 \<or> estimate_message_tokens tk (newest tk ms k) \<le> max_tokens) \<and>
    (k = clamp_keep keep_rounds (round_count tk ms) \<or>
     max_tokens < estimate_message_tokens tk (newest tk ms (Suc k)))"
proof -
  let ?rs = "group_by_api_round tk ms" and ?target = "clamp_keep keep_rounds (round_count tk ms)"
  have ne: "?rs \<noteq> []"
    using assms grouping.rounds_empty_iff [of tk ms] by simp
  then have n: "1 \<le> round_count tk ms"
    by (cases ?rs) (simp_all add: round_count_def)
  then have target: "1 \<le> ?target" "?target \<le> round_count tk ms"
    by (simp_all add: clamp_keep_def)
  obtain k t where w: "snip_walk max_tokens ?target 0 0 (rev ?rs) = (k, t)" by fastforce
  then obtain j where j: "j \<le> length (rev ?rs)" "k = 0 + j"
    "t = 0 + sum_list (map estimated_tokens (take j (rev ?rs)))"
    "\<forall>i<j. 0 < 0 + i \<longrightarrow> 0 + sum_list (map estimated_tokens (take (Suc i) (rev ?rs))) \<le> max_tokens \<and> 0 + i < ?target"
    "j = length (rev ?rs) \<or> 0 < k \<and>
      (max_tokens < 0 + sum_list (map estimated_tokens (take (Suc j) (rev ?rs))) \<or> ?target \<le> k)"
    by (rule snip_walk_spec)
  have k: "k = j" "k \<le> round_count tk ms" "1 \<le> k"
    using j(1,2,5) n by (auto simp: round_count_def)
  have t: "t = estimate_message_tokens tk (newest tk ms k)"
    using j(3) newest_tokens [of k tk ms] k by (simp add: newest_def round_count_def)
  have step: "2 \<le> k \<Longrightarrow> t \<le> max_tokens \<and> k \<le> ?target"
    using j(4) [rule_format, of "k - 1"] j(3) k(1) by auto
  have le: "k \<le> ?target"
    using step target(1) by (cases "2 \<le> k") auto
  have stop: "k = ?target \<or> max_tokens < estimate_message_tokens tk (newest tk ms (Suc k))"
  proof (cases "k = ?target")
    case False
    with le target(2) have lt: "k < ?target" "k < round_count tk ms" by simp_all
    then have "max_tokens < sum_list (map estimated_tokens (take (Suc k) (rev ?rs)))"
      using j(5) k(1) by (auto simp: round_count_def)
    then show ?thesis
      using newest_tokens [of "Suc k" tk ms] lt(2) by (simp add: newest_def round_count_def)
  qed simp
  have "snip tk ms max_tokens keep_rounds =
      (newest tk ms k, Snip, round_count tk ms - k, length ms - length (newest tk ms k),
       estimate_message_tokens tk ms - t)"
    using w ne by (simp add: snip_def newest_def round_count_def Let_def)
  moreover have "k = 1 \<or> estimate_message_tokens tk (newest tk ms k) \<le> max_tokens"
    using step t k(3) by (cases "2 \<le> k") auto
  ultimately show ?thesis
    using k(3) le stop t by blast
qed

definition tok4 :: tokenizer where
  "tok4 = \<lparr>count_text = length, show_json = (\<lambda>_. [])\<rparr>"

definition said :: "string \<Rightarrow> model_message" where
  "said t = \<lparr>role = RoleUser, content = [MText t]\<rparr>"

lemma snip_keeps_newest_witness:
  "\<exists>k. 1 \<le> k \<and> k \<le> clamp_keep 5 (round_count tok4 [said ''aaaa'', said ''b'']) \<and>
     fst (snip tok4 [said ''aaaa'', said ''b''] 3 5) = newest tok4 [said ''aaaa'', said ''b''] k"
  using snip_keeps_newest [of "[said ''aaaa'', said ''b'']" 5 tok4 3] by force

section \<open>Micro-compaction\<close>

definition block_kept :: "model_block \<Rightarrow> model_block \<Rightarrow> bool" where
  "block_kept b b' \<longleftrightarrow> b' = b \<or>
     (case b of MToolResult i c e \<Rightarrow> b' = MToolResult i CLEARED (Some False) | _ \<Rightarrow> False)"

definition message_kept :: "model_message \<Rightarrow> model_message \<Rightarrow> bool" where
  "message_kept m m' \<longleftrightarrow> role m' = role m \<and> list_all2 block_kept (content m) (content m')"

lemma block_kept_refl: "block_kept b b"
  by (simp add: block_kept_def)

lemma messages_kept_refl: "list_all2 message_kept ms ms"
  by (simp add: message_kept_def block_kept_refl list_all2_refl)

lemma micro_loop_kept: "list_all2 message_kept ms (micro_loop last_tool ms)"
proof (induction ms arbitrary: last_tool)
  case (Cons m ms)
  have "block_kept b (clear_body l b)" for l b
    by (auto simp: block_kept_def clear_body_def split: model_block.splits)
  then have "list_all2 block_kept (content m) (map (clear_body l) (content m))" for l
    by (simp add: list_all2_conv_all_nth)
  then show ?case
    using Cons by (simp add: Let_def message_kept_def)
qed simp

lemma micro_compact_parts:
  "fst (micro_compact tk ms k) =
     (if round_count tk ms \<le> k then ms
      else micro_loop None (flatten (take (round_count tk ms - k) (group_by_api_round tk ms))) @ newest tk ms k)"
  by (simp add: micro_compact_def round_count_def newest_def Let_def)

lemma micro_kept: "list_all2 message_kept ms (fst (micro_compact tk ms k))"
proof -
  let ?old = "flatten (take (round_count tk ms - k) (group_by_api_round tk ms))"
  have "ms = ?old @ newest tk ms k"
    using flatten_take_drop [of "round_count tk ms - k" "group_by_api_round tk ms"]
      grouping.flatten_rounds [of tk ms] by (simp add: newest_def round_count_def)
  then show ?thesis
    by (metis list_all2_appendI messages_kept_refl micro_compact_parts micro_loop_kept)
qed

lemma newest_all: "round_count tk ms \<le> k \<Longrightarrow> newest tk ms k = ms"
  using grouping.flatten_rounds [of tk ms] by (simp add: newest_def round_count_def)

lemma micro_newest:
  "\<exists>front. fst (micro_compact tk ms k) = front @ newest tk ms (min k (round_count tk ms))"
  using newest_all [of tk ms "round_count tk ms"]
  by (cases "round_count tk ms \<le> k") (auto simp: micro_compact_parts min_def)

text \<open>Micro-compaction drops no message, no block and no id: each block is as it was, or is a tool result
  whose body became the placeholder; and the newest rounds are untouched.\<close>
theorem micro_compact_keeps:
  "list_all2 message_kept ms (fst (micro_compact tk ms k)) \<and>
   (\<exists>front. fst (micro_compact tk ms k) = front @ newest tk ms (min k (round_count tk ms)))"
  using micro_kept micro_newest by blast

lemma kept_same_length: "list_all2 message_kept ms ms' \<Longrightarrow> length ms' = length ms"
  by (simp add: list_all2_lengthD)

section \<open>The cascade\<close>

text \<open>Every strategy ends with the newest round, as long as a round is to be kept.\<close>

lemma newest_suffix: "j \<le> k \<Longrightarrow> suffix (newest tk ms j) (newest tk ms k)"
proof -
  assume "j \<le> k"
  let ?rs = "group_by_api_round tk ms"
  have "length ?rs - j = (length ?rs - j) - (length ?rs - k) + (length ?rs - k)"
    using \<open>j \<le> k\<close> by linarith
  then have "drop (length ?rs - j) ?rs = drop ((length ?rs - j) - (length ?rs - k)) (drop (length ?rs - k) ?rs)"
    by (metis drop_drop)
  then have "suffix (drop (length ?rs - j) ?rs) (drop (length ?rs - k) ?rs)"
    by (metis suffix_drop)
  then show ?thesis
    by (auto simp: newest_def suffix_def)
qed

lemma snip_newest:
  assumes "ms \<noteq> []"
  shows "\<exists>k\<ge>1. fst (snip tk ms max_tokens keep_rounds) = newest tk ms k"
proof -
  let ?rs = "group_by_api_round tk ms"
  have ne: "?rs \<noteq> []"
    using assms grouping.rounds_empty_iff [of tk ms] by simp
  obtain k t where w: "snip_walk max_tokens (clamp_keep keep_rounds (length ?rs)) 0 0 (rev ?rs) = (k, t)"
    by fastforce
  then obtain j where "k = 0 + j" "j = length (rev ?rs) \<or> 0 < k"
    by (rule snip_walk_spec) blast
  then have "1 \<le> k" using ne by (cases k) auto
  then show ?thesis
    using w ne by (auto simp: snip_def newest_def Let_def)
qed

lemma collapse_parts:
  "\<exists>front. fst (collapse_context tk ms k) = front @ newest tk ms (min k (round_count tk ms))"
proof (cases "round_count tk ms \<le> k")
  case True
  then show ?thesis
    using newest_all [of tk ms "round_count tk ms"]
    by (simp add: collapse_context_def round_count_def min_def)
next
  case False
  then show ?thesis
    by (simp add: collapse_context_def round_count_def newest_def Let_def min_def)
qed

definition cascade_report ::
  "tokenizer \<Rightarrow> model_message list \<Rightarrow> model_message list \<Rightarrow> compact_strategy \<Rightarrow> snip_projection option \<Rightarrow> compact_result" where
  "cascade_report tk ms r s p =
     \<lparr>cr_strategy = s, messages_before = length ms, messages_after = length r,
      tokens_before = estimate_message_tokens tk ms, tokens_after = estimate_message_tokens tk r, cr_projection = p\<rparr>"

lemma strategy_of:
  "fst (snd (snip tk ms max_tokens k)) = Snip" "snd (micro_compact tk ms k) = MicroCompact"
  "snd (collapse_context tk ms k) = CollapseContext"
  by (auto simp: snip_def micro_compact_def collapse_context_def Let_def split: prod.splits)

lemma compact_default_parts:
  obtains p where "compact_default tk ms max_tokens k =
    (if estimate_message_tokens tk ms \<le> max_tokens then Inr (ms, cascade_report tk ms ms NoOp None)
     else if estimate_message_tokens tk (fst (snip tk ms max_tokens k)) \<le> max_tokens
       then Inr (fst (snip tk ms max_tokens k), cascade_report tk ms (fst (snip tk ms max_tokens k)) Snip p)
     else if estimate_message_tokens tk (fst (micro_compact tk ms k)) \<le> max_tokens
       then Inr (fst (micro_compact tk ms k), cascade_report tk ms (fst (micro_compact tk ms k)) MicroCompact None)
     else Inr (fst (collapse_context tk ms k),
       cascade_report tk ms (fst (collapse_context tk ms k)) CollapseContext None))"
proof -
  obtain rs a b c where s: "snip tk ms max_tokens k = (rs, Snip, a, b, c)"
    using strategy_of(1) [of tk ms max_tokens k] by (metis prod.collapse)
  obtain rm where m: "micro_compact tk ms k = (rm, MicroCompact)"
    using strategy_of(2) [of tk ms k] by (metis prod.collapse)
  obtain rc where c: "collapse_context tk ms k = (rc, CollapseContext)"
    using strategy_of(3) [of tk ms k] by (metis prod.collapse)
  show ?thesis
    by (rule that [of "if 0 < a then Some \<lparr>dropped_rounds = a, dropped_messages = b, estimated_tokens_saved = c\<rparr>
        else None"]) (simp add: compact_default_def cascade_report_def s m c Let_def)
qed

lemma cascade_cases:
  assumes "compact_default tk ms max_tokens k = Inr (r, res)"
  obtains (fits) "estimate_message_tokens tk ms \<le> max_tokens" "r = ms" "cr_strategy res = NoOp"
  | (snip) "max_tokens < estimate_message_tokens tk ms" "r = fst (snip tk ms max_tokens k)"
      "estimate_message_tokens tk r \<le> max_tokens" "cr_strategy res = Snip"
  | (micro) "max_tokens < estimate_message_tokens tk ms" "r = fst (micro_compact tk ms k)"
      "estimate_message_tokens tk r \<le> max_tokens" "cr_strategy res = MicroCompact"
  | (collapse) "max_tokens < estimate_message_tokens tk ms" "r = fst (collapse_context tk ms k)"
      "cr_strategy res = CollapseContext"
proof -
  obtain p where "compact_default tk ms max_tokens k =
    (if estimate_message_tokens tk ms \<le> max_tokens then Inr (ms, cascade_report tk ms ms NoOp None)
     else if estimate_message_tokens tk (fst (snip tk ms max_tokens k)) \<le> max_tokens
       then Inr (fst (snip tk ms max_tokens k), cascade_report tk ms (fst (snip tk ms max_tokens k)) Snip p)
     else if estimate_message_tokens tk (fst (micro_compact tk ms k)) \<le> max_tokens
       then Inr (fst (micro_compact tk ms k), cascade_report tk ms (fst (micro_compact tk ms k)) MicroCompact None)
     else Inr (fst (collapse_context tk ms k),
       cascade_report tk ms (fst (collapse_context tk ms k)) CollapseContext None))"
    by (rule compact_default_parts)
  with assms show ?thesis
    using fits snip micro collapse by (auto simp: cascade_report_def split: if_splits)
qed

lemma compact_default_total:
  obtains r res where "compact_default tk ms max_tokens k = Inr (r, res)"
    "messages_before res = length ms" "messages_after res = length r"
    "tokens_before res = estimate_message_tokens tk ms" "tokens_after res = estimate_message_tokens tk r"
proof -
  obtain r s p where "compact_default tk ms max_tokens k = Inr (r, cascade_report tk ms r s p)"
    by (rule compact_default_parts [of tk ms max_tokens k]) (metis (no_types, lifting))
  then show ?thesis by (rule that) (simp_all add: cascade_report_def)
qed

text \<open>Compaction never fails and reports what it did: a conversation within the budget is returned
  untouched, and every strategy but the last resort ends within the budget.\<close>
theorem compact_fits_or_collapses:
  "\<exists>r res. compact_default tk ms max_tokens keep_rounds = Inr (r, res) \<and>
     messages_before res = length ms \<and> messages_after res = length r \<and>
     tokens_before res = estimate_message_tokens tk ms \<and> tokens_after res = estimate_message_tokens tk r \<and>
     (cr_strategy res = NoOp) = (estimate_message_tokens tk ms \<le> max_tokens) \<and>
     (cr_strategy res = NoOp \<longrightarrow> r = ms) \<and>
     (cr_strategy res \<noteq> CollapseContext \<longrightarrow> estimate_message_tokens tk r \<le> max_tokens)"
proof -
  obtain r res where c: "compact_default tk ms max_tokens keep_rounds = Inr (r, res)"
    "messages_before res = length ms" "messages_after res = length r"
    "tokens_before res = estimate_message_tokens tk ms" "tokens_after res = estimate_message_tokens tk r"
    by (rule compact_default_total)
  from c(1) have "(cr_strategy res = NoOp) = (estimate_message_tokens tk ms \<le> max_tokens) \<and>
     (cr_strategy res = NoOp \<longrightarrow> r = ms) \<and>
     (cr_strategy res \<noteq> CollapseContext \<longrightarrow> estimate_message_tokens tk r \<le> max_tokens)"
    by (cases rule: cascade_cases) simp_all
  with c show ?thesis by blast
qed

lemma compact_fits_or_collapses_witness:
  "\<exists>r res. compact_default tok4 [said ''a'', said ''b''] 1 5 = Inr (r, res) \<and>
     messages_before res = 2 \<and> tokens_after res = estimate_message_tokens tok4 r"
  using compact_fits_or_collapses [of tok4 "[said ''a'', said ''b'']" 1 5] by fastforce

text \<open>As long as a round is to be kept, whatever strategy runs the newest round survives whole, at the
  end of the result.\<close>
theorem compact_keeps_newest_round:
  assumes "1 \<le> keep_rounds" "ms \<noteq> []"
  shows "\<exists>r res. compact_default tk ms max_tokens keep_rounds = Inr (r, res) \<and>
    suffix (messages (last (group_by_api_round tk ms))) r"
proof -
  let ?rs = "group_by_api_round tk ms"
  obtain r res where c: "compact_default tk ms max_tokens keep_rounds = Inr (r, res)"
    by (rule compact_default_total)
  have ne: "?rs \<noteq> []"
    using assms(2) grouping.rounds_empty_iff [of tk ms] by simp
  then have n: "1 \<le> round_count tk ms"
    by (cases ?rs) (simp_all add: round_count_def)
  obtain front lastr where fl: "?rs = front @ [lastr]"
    using ne by (metis append_butlast_last_id)
  have one: "newest tk ms 1 = messages (last ?rs)"
    by (simp add: newest_def fl flatten_Cons)
  have suf: "suffix (newest tk ms 1) (front @ newest tk ms (min keep_rounds (round_count tk ms)))" for front
    using newest_suffix [of 1 "min keep_rounds (round_count tk ms)" tk ms] assms(1) n
    by (simp add: suffix_append suffix_appendI)
  from c have "suffix (newest tk ms 1) r"
  proof (cases rule: cascade_cases)
    case fits
    then show ?thesis
      using newest_suffix [OF n, of tk ms] newest_all [of tk ms "round_count tk ms"] by simp
  next
    case snip
    obtain k where "1 \<le> k" "fst (snip tk ms max_tokens keep_rounds) = newest tk ms k"
      using snip_newest [OF assms(2)] by blast
    then show ?thesis using snip newest_suffix [of 1 k tk ms] by simp
  next
    case micro
    then show ?thesis using micro_newest [of tk ms keep_rounds] suf by metis
  next
    case collapse
    then show ?thesis using collapse_parts [of tk ms keep_rounds] suf by metis
  qed
  with c one show ?thesis by metis
qed

lemma compact_keeps_newest_round_witness:
  "\<exists>r res. compact_default tok4 [said ''a'', said ''b''] 1 5 = Inr (r, res) \<and>
     suffix (messages (last (group_by_api_round tok4 [said ''a'', said ''b'']))) r"
  using compact_keeps_newest_round [of 5 "[said ''a'', said ''b'']" tok4 1] by simp

section \<open>The aging passes\<close>

lemma set_block_shape:
  "length (set_block ms mi bi b) = length ms"
  "i < length ms \<Longrightarrow> role (set_block ms mi bi b ! i) = role (ms ! i)"
  "i < length ms \<Longrightarrow> length (content (set_block ms mi bi b ! i)) = length (content (ms ! i))"
  by (cases "mi < length ms"; auto simp: set_block_def nth_list_update)+

lemma set_block_nth:
  "i < length ms \<Longrightarrow> j < length (content (ms ! i)) \<Longrightarrow>
    content (set_block ms mi bi b ! i) ! j = (if i = mi \<and> j = bi then b else content (ms ! i) ! j)"
  by (cases "mi < length ms") (auto simp: set_block_def nth_list_update)

definition blanked :: model_block where
  "blanked = MToolResult [] CLEARED (Some False)"

definition reported :: "model_message list \<Rightarrow> nat \<times> nat \<Rightarrow> string list" where
  "reported ms p =
     (case content (ms ! fst p) ! snd p of MToolResult i _ _ \<Rightarrow> (if i \<noteq> [] then [i] else []) | _ \<Rightarrow> [])"

lemma stale_fold:
  assumes "foldl stale_step (ms, ids) ps = (ms', ids')" "distinct ps"
    and "\<forall>p \<in> set ps. fst p < length ms \<and> snd p < length (content (ms ! fst p))"
  shows "length ms' = length ms \<and>
    (\<forall>i<length ms. role (ms' ! i) = role (ms ! i) \<and> length (content (ms' ! i)) = length (content (ms ! i)) \<and>
      (\<forall>j<length (content (ms ! i)). content (ms' ! i) ! j = (if (i, j) \<in> set ps then blanked else content (ms ! i) ! j))) \<and>
    ids' = ids @ concat (map (reported ms) ps)"
  using assms
proof (induction ps arbitrary: ms ids)
  case (Cons p ps)
  obtain mi bi where p: "p = (mi, bi)" by fastforce
  let ?m1 = "set_block ms mi bi blanked"
  have s: "stale_step (ms, ids) p = (?m1, ids @ reported ms p)"
    by (auto simp: stale_step_def p blanked_def reported_def split: model_block.splits)
  have b: "mi < length ms" "bi < length (content (ms ! mi))"
    using Cons.prems(3) p by auto
  have "foldl stale_step (?m1, ids @ reported ms p) ps = (ms', ids')"
    using Cons.prems(1) s by simp
  moreover have "distinct ps" "p \<notin> set ps" using Cons.prems(2) by simp_all
  moreover have v: "\<forall>q \<in> set ps. fst q < length ms \<and> snd q < length (content (ms ! fst q))"
    using Cons.prems(3) by simp
  then have "\<forall>q \<in> set ps. fst q < length ?m1 \<and> snd q < length (content (?m1 ! fst q))"
    by (simp add: set_block_shape)
  ultimately have ih: "length ms' = length ?m1 \<and>
    (\<forall>i<length ?m1. role (ms' ! i) = role (?m1 ! i) \<and> length (content (ms' ! i)) = length (content (?m1 ! i)) \<and>
      (\<forall>j<length (content (?m1 ! i)). content (ms' ! i) ! j = (if (i, j) \<in> set ps then blanked else content (?m1 ! i) ! j))) \<and>
    ids' = (ids @ reported ms p) @ concat (map (reported ?m1) ps)"
    using Cons.IH by blast
  have "map (reported ?m1) ps = map (reported ms) ps"
  proof (rule map_cong [OF refl])
    fix q assume q: "q \<in> set ps"
    with \<open>p \<notin> set ps\<close> p have "q \<noteq> (mi, bi)" by blast
    then show "reported ?m1 q = reported ms q"
      using q v set_block_nth [of "fst q" ms "snd q" mi bi blanked] by (auto simp: reported_def prod_eq_iff)
  qed
  with ih show ?case
    by (auto simp: set_block_shape set_block_nth p)
qed simp

lemma stale_positions_valid:
  "distinct (stale_positions ms)"
  "p \<in> set (stale_positions ms) \<longleftrightarrow> fst p < length ms \<and> role (ms ! fst p) = RoleUser \<and>
     snd p < length (content (ms ! fst p)) \<and> is_result (content (ms ! fst p) ! snd p)"
proof -
  let ?f = "\<lambda>i. if role (ms ! i) = RoleUser
    then map (Pair i) (filter (\<lambda>j. is_result (content (ms ! i) ! j)) [0..<length (content (ms ! i))]) else []"
  have "distinct (?f i)" for i
    by (simp add: distinct_map inj_on_def)
  moreover have "set (?f i) \<inter> set (?f j) = {}" if "i \<noteq> j" for i j
    using that by auto
  ultimately have "distinct (concat (map ?f xs))" if "distinct xs" for xs
    using that by (induction xs) fastforce+
  then show "distinct (stale_positions ms)"
    by (simp add: stale_positions_def)
  show "p \<in> set (stale_positions ms) \<longleftrightarrow> fst p < length ms \<and> role (ms ! fst p) = RoleUser \<and>
     snd p < length (content (ms ! fst p)) \<and> is_result (content (ms ! fst p) ! snd p)"
    by (cases p) (auto simp: stale_positions_def)
qed

text \<open>The cached pass blanks every result of a user message beyond the first \<open>keep_recent\<close> of its
  order, changes nothing else, counts what it blanked and reports the ids it took away.\<close>
theorem stale_pass_effect:
  assumes "clear_stale_tool_results ms keep_recent = (ms', n, ids)"
  shows "length ms' = length ms \<and>
    (\<forall>i<length ms. role (ms' ! i) = role (ms ! i) \<and> length (content (ms' ! i)) = length (content (ms ! i)) \<and>
      (\<forall>j<length (content (ms ! i)). content (ms' ! i) ! j =
         (if (i, j) \<in> set (drop keep_recent (stale_positions ms)) then MToolResult [] CLEARED (Some False)
          else content (ms ! i) ! j))) \<and>
    n = length (drop keep_recent (stale_positions ms)) \<and>
    ids = concat (map (reported ms) (drop keep_recent (stale_positions ms)))"
proof -
  let ?ps = "drop (min keep_recent (length (stale_positions ms))) (stale_positions ms)"
  have d: "?ps = drop keep_recent (stale_positions ms)"
    by (simp add: min_def)
  obtain m2 i2 where f: "foldl stale_step (ms, []) ?ps = (m2, i2)" by fastforce
  have "m2 = ms'" "i2 = ids" "n = length ?ps"
    using assms f by (auto simp: clear_stale_tool_results_def Let_def)
  moreover have "distinct ?ps" "\<forall>p \<in> set ?ps. fst p < length ms \<and> snd p < length (content (ms ! fst p))"
    using stale_positions_valid(1) [of ms] stale_positions_valid(2) [of _ ms]
      set_drop_subset [of "min keep_recent (length (stale_positions ms))" "stale_positions ms"]
    by (auto simp: distinct_drop dest!: subsetD)
  ultimately show ?thesis
    using stale_fold [OF f] unfolding blanked_def d by simp
qed

definition answered :: "string \<Rightarrow> string \<Rightarrow> model_block" where
  "answered i t = MToolResult i t None"

definition called :: "string \<Rightarrow> string \<Rightarrow> model_block" where
  "called i name = MToolUse i name JNull"

lemma stale_pass_effect_witness:
  "snd (snd (clear_stale_tool_results [\<lparr>role = RoleUser, content = [answered ''a'' ''x'']\<rparr>] 0)) =
     concat (map (reported [\<lparr>role = RoleUser, content = [answered ''a'' ''x'']\<rparr>])
       (stale_positions [\<lparr>role = RoleUser, content = [answered ''a'' ''x'']\<rparr>]))"
proof -
  obtain ms' n ids where "clear_stale_tool_results [\<lparr>role = RoleUser, content = [answered ''a'' ''x'']\<rparr>] 0 = (ms', n, ids)"
    using prod_cases3 by blast
  from stale_pass_effect [OF this] this show ?thesis by simp
qed

text \<open>The cached pass breaks the pairing of results with their calls: the call keeps its id, its result
  loses it.  And among the results of one message it keeps the older ones.\<close>
theorem stale_pass_orphans:
  "fst (clear_stale_tool_results
     [\<lparr>role = RoleAssistant, content = [called ''t1'' ''Read'', called ''t2'' ''Read'']\<rparr>,
      \<lparr>role = RoleUser, content = [answered ''t1'' ''old'', answered ''t2'' ''new'']\<rparr>] 1) =
   [\<lparr>role = RoleAssistant, content = [called ''t1'' ''Read'', called ''t2'' ''Read'']\<rparr>,
    \<lparr>role = RoleUser, content = [answered ''t1'' ''old'', MToolResult [] CLEARED (Some False)]\<rparr>]"
  by (simp add: clear_stale_tool_results_def stale_positions_def stale_step_def set_block_def is_result_def
      called_def answered_def)

text \<open>Whether a body may be cleared is judged by the last call seen, not by the call the result answers:
  of two parallel calls the answer to a tool off the list is cleared when the other is on it.\<close>
theorem micro_compact_judges_by_last_call:
  "fst (micro_compact tok4
     [\<lparr>role = RoleUser, content = [MText ''q'']\<rparr>,
      \<lparr>role = RoleAssistant, content = [called ''t1'' ''AskUser'', called ''t2'' ''Read'']\<rparr>,
      \<lparr>role = RoleUser, content = [answered ''t1'' ''yes'']\<rparr>, said ''next''] 1) =
   [\<lparr>role = RoleUser, content = [MText ''q'']\<rparr>,
    \<lparr>role = RoleAssistant, content = [called ''t1'' ''AskUser'', called ''t2'' ''Read'']\<rparr>,
    \<lparr>role = RoleUser, content = [MToolResult ''t1'' CLEARED (Some False)]\<rparr>, said ''next'']"
  by (simp add: micro_compact_def group_by_api_round_def is_user_text_def is_tool_result_def finish_round_def
      flatten_def clear_body_def track_tool_name_def is_compactable_def COMPACTABLE_TOOLS_def called_def
      answered_def said_def Let_def)

text \<open>A snip that cannot reach the budget is thrown away even when it helps: with no more rounds than are
  to be kept, the later strategies change nothing, and the conversation comes back as it was.\<close>
theorem cascade_discards_useful_snip:
  "fst (snip tok4 [said ''aaaaaaaa'', said ''bbbb''] 3 5) = [said ''bbbb''] \<and>
   (\<exists>res. compact_default tok4 [said ''aaaaaaaa'', said ''bbbb''] 3 5 =
     Inr ([said ''aaaaaaaa'', said ''bbbb''], res) \<and> tokens_after res = tokens_before res)"
  by (simp add: compact_default_def snip_def micro_compact_def collapse_context_def group_by_api_round_def
      is_user_text_def is_tool_result_def finish_round_def flatten_def clamp_keep_def said_def
      estimate_message_tokens_def tok4_def Let_def)

text \<open>Nor is that reported: the error for exhausted strategies is never returned, and what comes back over
  budget is a success.\<close>
theorem compact_default_never_fails: "\<not> isl (compact_default tk ms max_tokens keep_rounds)"
  by (metis compact_default_total isl_def sum.distinct(1))

definition body_only :: "model_block \<Rightarrow> model_block \<Rightarrow> bool" where
  "body_only b b' \<longleftrightarrow> b' = b \<or> (case b of MToolResult i c e \<Rightarrow> b' = MToolResult i CLEARED_BY_TIME e | _ \<Rightarrow> False)"

lemma time_loop_spec:
  assumes "time_loop now ages limit last_tool idx ms res = (ms', res')"
  shows "length ms' = length ms \<and> (\<forall>i<length ms.
    role (ms' ! i) = role (ms ! i) \<and> list_all2 body_only (content (ms ! i)) (content (ms' ! i)) \<and>
    ((case map_of (rev ages) (idx + i) of Some t \<Rightarrow> now - t | None \<Rightarrow> 0) < limit \<longrightarrow> ms' ! i = ms ! i))"
  using assms
proof (induction now ages limit last_tool idx ms res arbitrary: ms' res' rule: time_loop.induct)
  case (2 now ages limit last_tool idx m ms res)
  let ?last = "track_tool_name last_tool (content m)"
  let ?age = "case map_of (rev ages) idx of Some t \<Rightarrow> now - t | None \<Rightarrow> 0"
  have refl': "list_all2 body_only bs bs" for bs
    by (simp add: list_all2_refl body_only_def)
  have body: "list_all2 body_only bs (map (time_body ?last) bs)" for bs
    by (auto simp: list_all2_conv_all_nth body_only_def time_body_def split: model_block.splits)
  show ?case
  proof (cases "?age < limit")
    case True
    obtain m2 r2 where r: "time_loop now ages limit ?last (idx + 1) ms (res\<lparr>tb_skipped := tb_skipped res + 1\<rparr>) = (m2, r2)"
      by fastforce
    then have "ms' = m # m2" using 2(3) True by (simp add: Let_def)
    with 2(1) [OF refl refl True r] refl' show ?thesis
      by (auto simp: nth_Cons' less_Suc_eq_0_disj)
  next
    case False
    let ?n = "length (filter (\<lambda>b. time_body ?last b \<noteq> b) (content m))"
    obtain m2 r2 where r: "time_loop now ages limit ?last (idx + 1) ms (res\<lparr>tb_cleared := tb_cleared res + ?n\<rparr>) = (m2, r2)"
      by fastforce
    then have "ms' = m\<lparr>content := map (time_body ?last) (content m)\<rparr> # m2" using 2(3) False by (simp add: Let_def)
    with 2(2) [OF refl refl False refl refl r] body False show ?thesis
      by (auto simp: nth_Cons' less_Suc_eq_0_disj)
  qed
qed simp

text \<open>The time-based pass leaves alone every message that is not old enough, and in an old one it only
  replaces bodies of results: ids and error flags stay.\<close>
theorem time_pass_keeps:
  assumes "apply_time_based_mc now ms cfg ages = (ms', res)" "i < length ms"
  shows "length ms' = length ms \<and> role (ms' ! i) = role (ms ! i) \<and>
    list_all2 body_only (content (ms ! i)) (content (ms' ! i)) \<and>
    (max_age cfg = Some limit \<and> (case map_of (rev ages) i of Some t \<Rightarrow> now - t | None \<Rightarrow> 0) < limit \<longrightarrow>
      ms' ! i = ms ! i)"
proof -
  have "list_all2 body_only bs bs" for bs
    by (simp add: list_all2_refl body_only_def)
  then show ?thesis
    using assms time_loop_spec [of now ages _ None 0 ms time_default ms' res]
    by (auto simp: apply_time_based_mc_def split: option.splits if_splits)
qed

lemma time_pass_keeps_witness:
  "apply_time_based_mc 10 [said ''a''] \<lparr>max_age = Some 5, min_messages = 0\<rparr> [(0, 8)] =
     ([said ''a''], \<lparr>tb_cleared = 0, tb_skipped = 1\<rparr>) \<and>
   list_all2 body_only (content (said ''a'')) (content (said ''a''))"
proof -
  have r: "apply_time_based_mc 10 [said ''a''] \<lparr>max_age = Some 5, min_messages = 0\<rparr> [(0, 8)] =
     ([said ''a''], \<lparr>tb_cleared = 0, tb_skipped = 1\<rparr>)"
    by (simp add: apply_time_based_mc_def time_default_def)
  from time_pass_keeps [OF r, of 0 5] r show ?thesis by simp
qed

end
