(* ===== verification/Recovery.thy ===== *)
theory Recovery
  imports CompactProps
begin

text \<open>
  Around a compaction (\<open>crates/compaction/src/compact.rs\<close>): the budget on accumulated tool results,
  the files and skills given back afterwards, and the breakdown of a context.  Then the summary an LLM
  writes (\<open>llm_summary.rs\<close>), whose call is a parameter, and the pruning of what session memory already
  holds (\<open>session_memory.rs\<close>), whose sidecar file is I/O.
\<close>

section \<open>The budget on tool results\<close>

record tool_result_budget =
  max_per_result :: nat
  max_total :: nat

definition budget_default :: tool_result_budget where
  "budget_default = \<lparr>max_per_result = 50000, max_total = 500000\<rparr>"

definition truncated_body :: "nat \<Rightarrow> string \<Rightarrow> string" where
  "truncated_body limit c =
     ''[Tool result truncated: '' @ show_nat (utf8_len c) @ '' bytes > '' @ show_nat limit
     @ '' max; first 1000 bytes preserved]'' @ [CHR 0x0A] @ truncate_at_char_boundary c 1000 @ ''...''"

text \<open>Pass 1 over the blocks, counting the rewritten ones and the bytes held.\<close>

fun budget_block :: "nat \<Rightarrow> model_block \<Rightarrow> nat \<times> nat \<Rightarrow> model_block \<times> nat \<times> nat" where
  "budget_block limit (MToolResult i c e) (modified, total_size) =
     (if limit < utf8_len c then
        (let c' = truncated_body limit c in (MToolResult i c' e, modified + 1, total_size + utf8_len c'))
      else (MToolResult i c e, modified, total_size + utf8_len c))"
| "budget_block limit b st = (b, st)"

fun budget_blocks :: "nat \<Rightarrow> model_block list \<Rightarrow> nat \<times> nat \<Rightarrow> model_block list \<times> nat \<times> nat" where
  "budget_blocks limit [] st = ([], st)"
| "budget_blocks limit (b # bs) st =
     (case budget_block limit b st of (b', st') \<Rightarrow>
        (case budget_blocks limit bs st' of (bs', st'') \<Rightarrow> (b' # bs', st'')))"

fun budget_messages :: "nat \<Rightarrow> model_message list \<Rightarrow> nat \<times> nat \<Rightarrow> model_message list \<times> nat \<times> nat" where
  "budget_messages limit [] st = ([], st)"
| "budget_messages limit (m # ms) st =
     (case budget_blocks limit (content m) st of (bs', st') \<Rightarrow>
        (case budget_messages limit ms st' of (ms', st'') \<Rightarrow> (m\<lparr>content := bs'\<rparr> # ms', st'')))"

definition result_positions :: "model_message list \<Rightarrow> (nat \<times> nat) list" where
  "result_positions ms =
     concat (map (\<lambda>i. map (Pair i) (filter (\<lambda>j. is_result (content (ms ! i) ! j)) [0..<length (content (ms ! i))]))
       [0..<length ms])"

text \<open>Pass 2: clear oldest first until the total fits.\<close>

fun budget_clear ::
  "nat \<Rightarrow> (nat \<times> nat) list \<Rightarrow> model_message list \<Rightarrow> nat \<Rightarrow> nat \<Rightarrow> model_message list \<times> nat \<times> nat" where
  "budget_clear limit [] ms total_size modified = (ms, total_size, modified)"
| "budget_clear limit ((mi, bi) # ps) ms total_size modified =
     (if total_size \<le> limit then (ms, total_size, modified)
      else (case content (ms ! mi) ! bi of
        MToolResult i c e \<Rightarrow>
          (if c = CLEARED then budget_clear limit ps ms total_size modified
           else budget_clear limit ps (set_block ms mi bi (MToolResult i CLEARED e))
                  (total_size - utf8_len c + utf8_len CLEARED) (modified + 1))
      | _ \<Rightarrow> budget_clear limit ps ms total_size modified))"

definition enforce_tool_result_budget ::
  "model_message list \<Rightarrow> tool_result_budget \<Rightarrow> model_message list \<times> nat" where
  "enforce_tool_result_budget ms budget =
     (case budget_messages (max_per_result budget) ms (0, 0) of (ms1, modified, total_size) \<Rightarrow>
        (if max_total budget < total_size then
           (case budget_clear (max_total budget) (result_positions ms1) ms1 total_size modified of
              (ms2, _, modified') \<Rightarrow> (ms2, modified'))
         else (ms1, modified)))"

section \<open>Files read before the compaction\<close>

definition FILE_READ_TOOLS :: "string list" where
  "FILE_READ_TOOLS = [''Read'']"

definition read_call :: "model_block \<Rightarrow> (string \<times> string) option" where
  "read_call b =
     (case b of
        MToolUse i name input \<Rightarrow>
          (if name \<notin> set FILE_READ_TOOLS then None
           else (case get_str input ''file_path'' of
                   Some path \<Rightarrow> (if path \<noteq> [] then Some (i, path) else None)
                 | None \<Rightarrow> None))
      | _ \<Rightarrow> None)"

text \<open>The hash map of pass 1: a later call with the same id replaces an earlier one.\<close>

definition read_calls :: "model_message list \<Rightarrow> (string \<times> string) list" where
  "read_calls ms = rev (List.map_filter read_call (concat (map content ms)))"

fun reads_loop ::
  "(string \<times> string) list \<Rightarrow> (string \<times> string) list \<Rightarrow> string list \<Rightarrow> model_block list \<Rightarrow> (string \<times> string) list" where
  "reads_loop calls files seen [] = files"
| "reads_loop calls files seen (b # bs) =
     (case b of
        MToolResult i c e \<Rightarrow>
          (if e = Some True \<or> c = [] then reads_loop calls files seen bs
           else (case map_of calls i of
                   None \<Rightarrow> reads_loop calls files seen bs
                 | Some path \<Rightarrow>
                     (if path \<in> set seen then reads_loop calls files seen bs
                      else reads_loop calls (files @ [(path, c)]) (path # seen) bs)))
      | _ \<Rightarrow> reads_loop calls files seen bs)"

definition extract_recent_reads :: "model_message list \<Rightarrow> (string \<times> string) list" where
  "extract_recent_reads ms =
     (let calls = read_calls ms
      in if calls = [] then []
         else reads_loop calls [] [] (concat (map content (rev ms))))"

section \<open>What is given back\<close>

record invoked_skill =
  skill_name :: string
  skill_content :: "string option"
  last_seq :: "64 word"

record post_compact_context =
  recent_files :: "(string \<times> string) list"
  invoked_skills :: "invoked_skill list"
  in_plan_mode :: bool
  plan_content :: "string option"
  activated_tools :: "string list"
  running_tasks :: "(string \<times> string) list"

definition MAX_RECOVER_FILES :: nat where
  "MAX_RECOVER_FILES = 5"

definition MAX_CHARS_PER_FILE :: nat where
  "MAX_CHARS_PER_FILE = 5000"

definition MAX_CHARS_PER_SKILL :: nat where
  "MAX_CHARS_PER_SKILL = 20000"

definition MAX_CHARS_SKILLS_TOTAL :: nat where
  "MAX_CHARS_SKILLS_TOTAL = 100000"

definition capped :: "nat \<Rightarrow> string \<Rightarrow> string \<Rightarrow> string" where
  "capped limit mark t = (if limit < utf8_len t then truncate_at_char_boundary t limit @ mark else t)"

definition nl :: string where
  "nl = [CHR 0x0A]"

definition reminder :: "string \<Rightarrow> model_message" where
  "reminder body = user_message (''<system-reminder>'' @ nl @ body @ nl @ ''</system-reminder>'')"

definition recover_files :: "(string \<times> string) list \<Rightarrow> model_message list" where
  "recover_files fs =
     (if fs = [] then []
      else (let files = map (\<lambda>(path, c). ''## '' @ path @ nl @ nl
                   @ capped MAX_CHARS_PER_FILE (''...'' @ nl @ ''[content truncated]'') c) (take MAX_RECOVER_FILES fs)
            in if files = [] then []
               else [reminder (''The following files were read before context compaction and may still be relevant:''
                       @ nl @ nl @ join_with (nl @ nl @ ''---'' @ nl @ nl) files)]))"

fun skills_loop ::
  "invoked_skill list \<Rightarrow> string list \<Rightarrow> nat \<Rightarrow> string list \<Rightarrow> string list \<times> nat \<times> string list" where
  "skills_loop [] sections spent dropped = (sections, spent, dropped)"
| "skills_loop (s # ss) sections spent dropped =
     (case skill_content s of
        None \<Rightarrow> skills_loop ss sections spent (dropped @ [skill_name s])
      | Some c \<Rightarrow>
          (let c' = capped MAX_CHARS_PER_SKILL ''...[truncated]'' c
           in if MAX_CHARS_SKILLS_TOTAL < spent + utf8_len c' then
                skills_loop ss sections spent (dropped @ [skill_name s])
              else skills_loop ss (sections @ [''## '' @ skill_name s @ nl @ nl @ c']) (spent + utf8_len c') dropped))"

definition by_recency :: "invoked_skill list \<Rightarrow> invoked_skill list" where
  "by_recency ss = sort_key (\<lambda>s. - uint (last_seq s)) ss"

definition recover_skills :: "invoked_skill list \<Rightarrow> model_message list" where
  "recover_skills ss =
     (if ss = [] then []
      else (case skills_loop (by_recency ss) [] 0 [] of (sections, spent, dropped) \<Rightarrow>
        (let body = ''The following skills were invoked before compaction '' @ em_dash
               @ '' their instructions may still apply. Full content for the most recently used ones is repeated below; re-invoke any skill via the Skill tool if you need the exact steps again.''
               @ nl @ nl @ join_with (nl @ nl @ ''---'' @ nl @ nl) sections
         in [reminder (if dropped \<noteq> [] then
               body @ nl @ nl @ ''(Also invoked before compaction, but dropped here for budget '' @ em_dash
               @ '' re-invoke if needed: '' @ join_with '', '' dropped @ '')''
             else body)])))"

definition recover_plan :: "bool \<Rightarrow> string option \<Rightarrow> model_message list" where
  "recover_plan in_plan plan =
     (if \<not> in_plan then []
      else (case plan of
              Some p \<Rightarrow> [reminder (''Plan mode is still active. The current plan:'' @ nl @ nl
                @ capped MAX_CHARS_PER_FILE (''...'' @ nl @ ''[plan content truncated]'') p)]
            | None \<Rightarrow> [reminder ''Plan mode is still active. Continue operating in plan mode.'']))"

definition recover_tasks :: "(string \<times> string) list \<Rightarrow> model_message list" where
  "recover_tasks ts =
     (if ts = [] then []
      else [reminder (''The following background tasks are still running:'' @ nl @ nl
             @ join_with nl (map (\<lambda>(i, status). ''- task:'' @ i @ '' '' @ em_dash @ '' '' @ status) ts))])"

definition recover_tools :: "string list \<Rightarrow> model_message list" where
  "recover_tools ts =
     (if ts = [] then []
      else [reminder (''These deferred tools were loaded earlier with ToolSearch: '' @ join_with '', '' ts
             @ ''. If a schema it returned is no longer in the conversation, load it again with ToolSearch (select:<name>) before calling that tool.'')])"

definition build_post_compact_recovery :: "post_compact_context \<Rightarrow> model_message list" where
  "build_post_compact_recovery ctx =
     recover_files (recent_files ctx) @ recover_skills (invoked_skills ctx)
     @ recover_plan (in_plan_mode ctx) (plan_content ctx) @ recover_tasks (running_tasks ctx)
     @ recover_tools (activated_tools ctx)"

section \<open>The breakdown of a context\<close>

record 'f context_analysis =
  total_messages :: nat
  total_estimated_tokens :: nat
  user_text_tokens :: nat
  assistant_text_tokens :: nat
  tool_result_tokens :: nat
  tool_use_tokens :: nat
  system_tokens :: nat
  tool_usage :: "(string \<times> nat \<times> nat) list"
  cleared_results :: nat
  tool_result_pct :: 'f
  conversation_pct :: 'f

definition to_side :: "message_role \<Rightarrow> nat \<Rightarrow> 'f context_analysis \<Rightarrow> 'f context_analysis" where
  "to_side r n a =
     (case r of
        RoleUser \<Rightarrow> a\<lparr>user_text_tokens := user_text_tokens a + n\<rparr>
      | RoleAssistant \<Rightarrow> a\<lparr>assistant_text_tokens := assistant_text_tokens a + n\<rparr>
      | RoleSystem \<Rightarrow> a\<lparr>system_tokens := system_tokens a + n\<rparr>)"

definition count_use :: "string \<Rightarrow> nat \<Rightarrow> (string \<times> nat \<times> nat) list \<Rightarrow> (string \<times> nat \<times> nat) list" where
  "count_use name n usage =
     (case map_of usage name of
        Some (calls, tokens) \<Rightarrow> AList.update name (calls + 1, tokens + n) usage
      | None \<Rightarrow> AList.update name (1, n) usage)"

definition analyze_block :: "tokenizer \<Rightarrow> message_role \<Rightarrow> 'f context_analysis \<Rightarrow> model_block \<Rightarrow> 'f context_analysis" where
  "analyze_block tk r a b =
     (let n = estimate_model_block_tokens tk b;
          a1 = a\<lparr>total_estimated_tokens := total_estimated_tokens a + n\<rparr>
      in case b of
           MText _ \<Rightarrow> to_side r n a1
         | MImage _ _ \<Rightarrow> to_side r n a1
         | MThinking _ _ _ \<Rightarrow> to_side RoleAssistant n a1
         | MRedacted _ _ \<Rightarrow> to_side RoleAssistant n a1
         | MToolResult _ c _ \<Rightarrow>
             a1\<lparr>tool_result_tokens := tool_result_tokens a1 + n,
                cleared_results := cleared_results a1 + (if c = CLEARED then 1 else 0)\<rparr>
         | MToolUse _ name _ \<Rightarrow>
             a1\<lparr>tool_use_tokens := tool_use_tokens a1 + n, tool_usage := count_use name n (tool_usage a1)\<rparr>)"

definition analyze_context :: "'f f64_ops \<Rightarrow> tokenizer \<Rightarrow> model_message list \<Rightarrow> 'f context_analysis" where
  "analyze_context F tk ms =
     (let zero = f_of_nat F 0;
          a0 = \<lparr>total_messages = length ms, total_estimated_tokens = 0, user_text_tokens = 0,
                assistant_text_tokens = 0, tool_result_tokens = 0, tool_use_tokens = 0, system_tokens = 0,
                tool_usage = [], cleared_results = 0, tool_result_pct = zero, conversation_pct = zero\<rparr>;
          a = foldl (\<lambda>a m. foldl (analyze_block tk (role m)) a (content m)) a0 ms
      in if 0 < total_estimated_tokens a then
           (let whole = f_of_nat F (total_estimated_tokens a);
                conversation = user_text_tokens a + assistant_text_tokens a;
                pct = (\<lambda>n. f_mul F (f_div F (f_of_nat F n) whole) (f_of_nat F 100))
            in a\<lparr>tool_result_pct := pct (tool_result_tokens a), conversation_pct := pct conversation\<rparr>)
         else a)"

lemmas recovery_defs [kernel_defs] =
  budget_default_def truncated_body_def result_positions_def enforce_tool_result_budget_def
  FILE_READ_TOOLS_def read_call_def read_calls_def extract_recent_reads_def MAX_RECOVER_FILES_def
  MAX_CHARS_PER_FILE_def MAX_CHARS_PER_SKILL_def MAX_CHARS_SKILLS_TOTAL_def capped_def nl_def reminder_def
  recover_files_def by_recency_def recover_skills_def recover_plan_def recover_tasks_def recover_tools_def
  build_post_compact_recovery_def to_side_def count_use_def analyze_block_def analyze_context_def

end
