(* ===== verification/RecoveryProps.thy ===== *)
theory RecoveryProps
  imports Recovery
begin

text \<open>
  The budget on tool results, the files and skills recovered after a compaction, and the breakdown of a
  context: the bound each promises, and that the breakdown adds up to the estimate that drives compaction.
\<close>

section \<open>Bytes held by tool results\<close>

fun result_size :: "model_block \<Rightarrow> nat" where
  "result_size (MToolResult i c e) = utf8_len c"
| "result_size _ = 0"

definition message_bytes :: "model_message \<Rightarrow> nat" where
  "message_bytes m = sum_list (map result_size (content m))"

definition result_bytes :: "model_message list \<Rightarrow> nat" where
  "result_bytes ms = sum_list (map message_bytes ms)"

fun body_cleared :: "model_block \<Rightarrow> bool" where
  "body_cleared (MToolResult i c e) = (c = CLEARED)"
| "body_cleared _ = True"

definition all_cleared :: "model_message list \<Rightarrow> bool" where
  "all_cleared ms = list_all (\<lambda>m. list_all body_cleared (content m)) ms"

lemma budget_block_size:
  "budget_block limit b (k, n) = (b', k', n') \<Longrightarrow> n' = n + result_size b'"
  by (cases b) (auto simp: Let_def split: if_splits)

lemma budget_blocks_size:
  "budget_blocks limit bs (k, n) = (bs', k', n') \<Longrightarrow> n' = n + sum_list (map result_size bs')"
proof (induction bs arbitrary: k n bs' k' n')
  case (Cons b bs)
  obtain b1 k1 n1 where b: "budget_block limit b (k, n) = (b1, k1, n1)"
    using prod_cases3 by blast
  obtain bs2 k2 n2 where bs: "budget_blocks limit bs (k1, n1) = (bs2, k2, n2)"
    using prod_cases3 by blast
  from Cons.IH [OF bs] budget_block_size [OF b] Cons.prems b bs show ?case by auto
qed simp

lemma budget_messages_size:
  "budget_messages limit ms (k, n) = (ms', k', n') \<Longrightarrow> n' = n + result_bytes ms'"
proof (induction ms arbitrary: k n ms' k' n')
  case (Cons m ms)
  obtain bs1 k1 n1 where b: "budget_blocks limit (content m) (k, n) = (bs1, k1, n1)"
    using prod_cases3 by blast
  obtain ms2 k2 n2 where ms: "budget_messages limit ms (k1, n1) = (ms2, k2, n2)"
    using prod_cases3 by blast
  from Cons.IH [OF ms] budget_blocks_size [OF b] Cons.prems b ms show ?case
    by (auto simp: result_bytes_def message_bytes_def)
qed (simp add: result_bytes_def)

lemma member_le_sum: "k < length xs \<Longrightarrow> (xs ! k :: nat) \<le> sum_list xs"
  by (simp add: member_le_sum_list)

lemma set_block_bytes:
  assumes "mi < length ms" "bi < length (content (ms ! mi))"
  shows "result_bytes (set_block ms mi bi b) = result_bytes ms - result_size (content (ms ! mi) ! bi) + result_size b \<and>
    result_size (content (ms ! mi) ! bi) \<le> result_bytes ms"
proof -
  let ?m = "ms ! mi"
  let ?m' = "?m\<lparr>content := (content ?m)[bi := b]\<rparr>"
  have sz: "result_size (content ?m ! bi) \<le> message_bytes ?m"
    using member_le_sum [of bi "map result_size (content ?m)"] assms(2) by (simp add: message_bytes_def)
  have mb: "message_bytes ?m \<le> result_bytes ms"
    using member_le_sum [of mi "map message_bytes ms"] assms(1) by (simp add: result_bytes_def)
  have "message_bytes ?m' = message_bytes ?m + result_size b - result_size (content ?m ! bi)"
    using assms(2) by (simp add: message_bytes_def map_update sum_list_update)
  moreover have "result_bytes (set_block ms mi bi b) = result_bytes ms + message_bytes ?m' - message_bytes ?m"
    using assms(1) by (simp add: result_bytes_def set_block_def map_update sum_list_update)
  ultimately show ?thesis using sz mb by linarith
qed

lemma all_cleared_nth:
  "all_cleared ms \<longleftrightarrow> (\<forall>i<length ms. \<forall>j<length (content (ms ! i)). body_cleared (content (ms ! i) ! j))"
  by (simp add: all_cleared_def list_all_length)

lemma budget_clear_skip:
  "\<not> total_size \<le> limit \<Longrightarrow> body_cleared (content (ms ! mi) ! bi) \<Longrightarrow>
    budget_clear limit ((mi, bi) # ps) ms total_size k = budget_clear limit ps ms total_size k"
  by (cases "content (ms ! mi) ! bi") simp_all

lemma budget_clear_spec:
  assumes "budget_clear limit ps ms total_size k = (ms', total', k')" "total_size = result_bytes ms"
    and "\<forall>p \<in> set ps. fst p < length ms \<and> snd p < length (content (ms ! fst p))"
    and "\<forall>i<length ms. \<forall>j<length (content (ms ! i)). (i, j) \<in> set ps \<or> body_cleared (content (ms ! i) ! j)"
  shows "total' = result_bytes ms' \<and> (result_bytes ms' \<le> limit \<or> all_cleared ms')"
  using assms
proof (induction ps arbitrary: ms total_size k)
  case Nil
  then show ?case by (auto simp: all_cleared_nth)
next
  case (Cons p ps)
  obtain mi bi where p: "p = (mi, bi)" by fastforce
  have valid: "mi < length ms" "bi < length (content (ms ! mi))" using Cons.prems(3) p by auto
  consider (fit) "total_size \<le> limit" | (skip) "\<not> total_size \<le> limit" "body_cleared (content (ms ! mi) ! bi)"
    | (clear) "\<not> total_size \<le> limit" "\<not> body_cleared (content (ms ! mi) ! bi)"
    by blast
  then show ?case
  proof cases
    case fit
    then show ?thesis using Cons.prems(1,2) p by auto
  next
    case skip
    have "budget_clear limit ps ms total_size k = (ms', total', k')"
      using Cons.prems(1) budget_clear_skip [OF skip] p by simp
    moreover have "\<forall>i<length ms. \<forall>j<length (content (ms ! i)). (i, j) \<in> set ps \<or> body_cleared (content (ms ! i) ! j)"
      using Cons.prems(4) skip(2) p by auto
    ultimately show ?thesis
      using Cons.IH [of ms total_size k] Cons.prems(2,3) by simp
  next
    case clear
    then obtain i c e where b: "content (ms ! mi) ! bi = MToolResult i c e" "c \<noteq> CLEARED"
      by (cases "content (ms ! mi) ! bi") auto
    let ?ms1 = "set_block ms mi bi (MToolResult i CLEARED e)"
    have "budget_clear limit ps ?ms1 (total_size - utf8_len c + utf8_len CLEARED) (k + 1) = (ms', total', k')"
      using Cons.prems(1) clear(1) b p by simp
    moreover have "total_size - utf8_len c + utf8_len CLEARED = result_bytes ?ms1"
      using set_block_bytes [OF valid, of "MToolResult i CLEARED e"] b Cons.prems(2) by simp
    moreover have "\<forall>q \<in> set ps. fst q < length ?ms1 \<and> snd q < length (content (?ms1 ! fst q))"
      using Cons.prems(3) by (simp add: set_block_shape)
    moreover have "\<forall>a<length ?ms1. \<forall>j<length (content (?ms1 ! a)). (a, j) \<in> set ps \<or> body_cleared (content (?ms1 ! a) ! j)"
      using Cons.prems(4) p by (auto simp: set_block_shape set_block_nth)
    ultimately show ?thesis
      using Cons.IH [of ?ms1] by blast
  qed
qed

lemma result_positions_complete:
  "(i, j) \<in> set (result_positions ms) \<longleftrightarrow>
     i < length ms \<and> j < length (content (ms ! i)) \<and> is_result (content (ms ! i) ! j)"
  by (auto simp: result_positions_def)

lemma not_result_cleared: "\<not> is_result b \<Longrightarrow> body_cleared b"
  by (cases b) (simp_all add: is_result_def)

text \<open>C25. After the pass the results together fit the budget, or there is nothing left to clear.\<close>
theorem tool_results_fit_budget:
  assumes "enforce_tool_result_budget ms budget = (ms', n)"
  shows "result_bytes ms' \<le> max_total budget \<or> all_cleared ms'"
proof -
  obtain ms1 k t where p1: "budget_messages (max_per_result budget) ms (0, 0) = (ms1, k, t)"
    using prod_cases3 by blast
  from budget_messages_size [OF p1] have t: "t = result_bytes ms1" by simp
  show ?thesis
  proof (cases "max_total budget < t")
    case False
    then show ?thesis using assms p1 t by (simp add: enforce_tool_result_budget_def)
  next
    case True
    obtain ms2 t2 k2 where p2: "budget_clear (max_total budget) (result_positions ms1) ms1 t k = (ms2, t2, k2)"
      using prod_cases3 by blast
    have "ms' = ms2"
      using assms p1 p2 True by (simp add: enforce_tool_result_budget_def)
    moreover have "\<forall>p \<in> set (result_positions ms1). fst p < length ms1 \<and> snd p < length (content (ms1 ! fst p))"
      by (auto simp: result_positions_complete)
    moreover have "\<forall>i<length ms1. \<forall>j<length (content (ms1 ! i)). (i, j) \<in> set (result_positions ms1) \<or>
        body_cleared (content (ms1 ! i) ! j)"
      using not_result_cleared by (auto simp: result_positions_complete)
    ultimately show ?thesis
      using budget_clear_spec [OF p2 t] by blast
  qed
qed

lemma tool_results_fit_budget_witness:
  "result_bytes (fst (enforce_tool_result_budget
      [\<lparr>role = RoleUser, content = [answered ''a'' ''12345678901234567890123456789012345678901234567890'']\<rparr>]
      \<lparr>max_per_result = 100, max_total = 40\<rparr>)) \<le> 40 \<or>
   all_cleared (fst (enforce_tool_result_budget
      [\<lparr>role = RoleUser, content = [answered ''a'' ''12345678901234567890123456789012345678901234567890'']\<rparr>]
      \<lparr>max_per_result = 100, max_total = 40\<rparr>))"
  using tool_results_fit_budget [of
      "[\<lparr>role = RoleUser, content = [answered ''a'' ''12345678901234567890123456789012345678901234567890'']\<rparr>]"
      "\<lparr>max_per_result = 100, max_total = 40\<rparr>"]
  by (metis prod.collapse tool_result_budget.select_convs(2))

section \<open>One result\<close>

lemma show_nat_digits: "n < 10 ^ Suc k \<Longrightarrow> length (show_nat n) \<le> Suc k"
proof (induction k arbitrary: n)
  case 0
  then show ?case by (simp add: show_nat.simps [of n])
next
  case (Suc k)
  show ?case
  proof (cases "n < 10")
    case False
    have "n div 10 < 10 ^ Suc k" using Suc.prems by (simp add: div_less_iff_less_mult)
    then show ?thesis using Suc.IH [of "n div 10"] False by (simp add: show_nat.simps [of n])
  qed (simp add: show_nat.simps [of n])
qed

lemma utf8_len_ascii: "list_all (\<lambda>c. char_code c < 128) t \<Longrightarrow> utf8_len t = length t"
  by (induction t) (simp_all add: utf8_len_Cons char_width_def)

lemma show_nat_ascii: "list_all (\<lambda>c. char_code c < 128) (show_nat n)"
proof (induction n rule: less_induct)
  case (less n)
  have digit: "char_code (char_of (48 + d)) < 128" if "d < 10" for d :: nat
    using that by (simp add: char_code_def)
  show ?case
  proof (cases "n < 10")
    case True
    then show ?thesis using digit [of n] by (simp add: show_nat.simps [of n])
  next
    case False
    then show ?thesis
      using less [of "n div 10"] digit [of "n mod 10"] by (simp add: show_nat.simps [of n])
  qed
qed

lemma show_nat_bytes: "n < 2 ^ 64 \<Longrightarrow> utf8_len (show_nat n) \<le> 20"
  using show_nat_digits [of n 19] utf8_len_ascii [OF show_nat_ascii [of n]] by simp

text \<open>A result longer than its limit is replaced by one of at most 1,110 bytes, so under the engine's own
  budget of 50,000 every result fits.\<close>
theorem truncated_result_is_short:
  assumes "utf8_len c < 2 ^ 64" "limit < 2 ^ 64"
  shows "utf8_len (truncated_body limit c) \<le> 1110"
proof -
  have cut: "utf8_len (truncate_at_char_boundary c 1000) \<le> 1000"
  proof (cases "utf8_len c \<le> 1000")
    case False
    then show ?thesis
      using byte_take_boundary [OF back_off_boundary [of c 1000]] back_off_le [of c 1000]
      by (simp add: truncate_at_char_boundary_def)
  qed (simp add: truncate_at_char_boundary_def)
  have lits: "utf8_len ''[Tool result truncated: '' = 24" "utf8_len '' bytes > '' = 9"
    "utf8_len '' max; first 1000 bytes preserved]'' = 33" "utf8_len [CHR 0x0A] = 1" "utf8_len ''...'' = 3"
    by (simp_all add: utf8_len_def char_code_def)
  show ?thesis
    using cut show_nat_bytes [OF assms(1)] show_nat_bytes [OF assms(2)]
    by (simp only: truncated_body_def utf8_len_append lits)
qed

lemma truncated_result_is_short_witness: "utf8_len (truncated_body 3 ''abcd'') \<le> 1110"
proof -
  have "utf8_len ''abcd'' = 4" by code_simp
  then show ?thesis by (intro truncated_result_is_short) simp_all
qed

text \<open>A host that tightens the limit below what the replacement needs makes results longer, and every
  further pass makes them longer again.\<close>
theorem tight_budget_grows_results:
  "utf8_len ''aaaaaaaaaaaa'' < utf8_len (truncated_body 10 ''aaaaaaaaaaaa'') \<and>
   utf8_len (truncated_body 10 ''aaaaaaaaaaaa'') < utf8_len (truncated_body 10 (truncated_body 10 ''aaaaaaaaaaaa''))"
  by code_simp

section \<open>Files read\<close>

definition result_read :: "(string \<times> string) list \<Rightarrow> model_block \<Rightarrow> (string \<times> string) option" where
  "result_read calls b =
     (case b of
        MToolResult i c e \<Rightarrow>
          (if e = Some True \<or> c = [] then None
           else (case map_of calls i of None \<Rightarrow> None | Some path \<Rightarrow> Some (path, c)))
      | _ \<Rightarrow> None)"

fun keep_first :: "string list \<Rightarrow> (string \<times> string) list \<Rightarrow> (string \<times> string) list" where
  "keep_first seen [] = []"
| "keep_first seen ((p, c) # xs) =
     (if p \<in> set seen then keep_first seen xs else (p, c) # keep_first (p # seen) xs)"

lemma reads_loop_keep_first:
  "reads_loop calls files seen bs = files @ keep_first seen (List.map_filter (result_read calls) bs)"
proof (induction bs arbitrary: files seen)
  case (Cons b bs)
  then show ?case
    by (cases b) (auto simp: List.map_filter_simps result_read_def split: option.splits)
qed (simp add: List.map_filter_simps)

lemma keep_first_distinct:
  "distinct (map fst (keep_first seen xs)) \<and> set (keep_first seen xs) \<subseteq> set xs \<and>
   set seen \<inter> fst ` set (keep_first seen xs) = {}"
proof (induction seen xs rule: keep_first.induct)
  case (2 seen p c xs)
  then show ?case by (auto split: if_splits)
qed simp

lemma result_read_SomeD:
  "result_read calls b = Some (p, c) \<Longrightarrow>
    \<exists>i e. b = MToolResult i c e \<and> c \<noteq> [] \<and> e \<noteq> Some True \<and> map_of calls i = Some p"
  by (cases b) (auto simp: result_read_def split: if_splits option.splits)

lemma read_call_SomeD:
  "read_call u = Some (i, p) \<Longrightarrow> \<exists>input. u = MToolUse i ''Read'' input \<and> get_str input ''file_path'' = Some p"
  by (cases u) (auto simp: read_call_def FILE_READ_TOOLS_def split: if_splits option.splits)

text \<open>The recovered files are, newest first, the first good result of each path: each comes from a result
  that is no error and not empty, answering a call of the Read tool on that path, and no path occurs twice.\<close>
theorem recovered_reads_are_backed:
  "extract_recent_reads ms =
     keep_first [] (List.map_filter (result_read (read_calls ms)) (concat (map content (rev ms)))) \<and>
   distinct (map fst (extract_recent_reads ms)) \<and>
   (\<forall>(p, c) \<in> set (extract_recent_reads ms). c \<noteq> [] \<and>
      (\<exists>i input e. MToolUse i ''Read'' input \<in> (\<Union>m \<in> set ms. set (content m)) \<and> get_str input ''file_path'' = Some p \<and>
        MToolResult i c e \<in> (\<Union>m \<in> set ms. set (content m)) \<and> e \<noteq> Some True))"
proof -
  let ?blocks = "concat (map content (rev ms))"
  let ?reads = "List.map_filter (result_read (read_calls ms)) ?blocks"
  have eq: "extract_recent_reads ms = keep_first [] ?reads"
  proof (cases "read_calls ms = []")
    case True
    then have "result_read (read_calls ms) = (\<lambda>b. None)"
      by (auto simp: result_read_def fun_eq_iff split: model_block.splits)
    then have "?reads = []"
      by (simp add: List.map_filter_def)
    then show ?thesis using True by (simp add: extract_recent_reads_def)
  qed (simp add: extract_recent_reads_def reads_loop_keep_first)
  have sub: "set (extract_recent_reads ms) \<subseteq> set ?reads"
    unfolding eq using keep_first_distinct by blast
  have backed: "c \<noteq> [] \<and>
      (\<exists>i input e. MToolUse i ''Read'' input \<in> (\<Union>m \<in> set ms. set (content m)) \<and> get_str input ''file_path'' = Some p \<and>
        MToolResult i c e \<in> (\<Union>m \<in> set ms. set (content m)) \<and> e \<noteq> Some True)"
    if in_reads: "(p, c) \<in> set (extract_recent_reads ms)" for p c
  proof -
    obtain b where b: "b \<in> set ?blocks" "result_read (read_calls ms) b = Some (p, c)"
      using subsetD [OF sub in_reads] by (auto simp: set_map_filter)
    from result_read_SomeD [OF b(2)]
    obtain i e where r: "b = MToolResult i c e" "c \<noteq> []" "e \<noteq> Some True" "map_of (read_calls ms) i = Some p"
      by blast
    from map_of_SomeD [OF r(4)] obtain u where u: "u \<in> set (concat (map content ms))" "read_call u = Some (i, p)"
      by (auto simp: read_calls_def set_map_filter)
    from read_call_SomeD [OF u(2)] obtain input where "u = MToolUse i ''Read'' input" "get_str input ''file_path'' = Some p"
      by blast
    then show ?thesis using b r u by auto
  qed
  have "distinct (map fst (extract_recent_reads ms))"
    unfolding eq using keep_first_distinct by blast
  then show ?thesis
    using eq backed by auto
qed

definition read_input :: json where
  "read_input = JObject [(''file_path'', JString ''/a'')]"

lemma recovered_reads_are_backed_witness:
  "distinct (map fst (extract_recent_reads
     [\<lparr>role = RoleAssistant, content = [MToolUse ''t'' ''Read'' read_input]\<rparr>,
      \<lparr>role = RoleUser, content = [answered ''t'' ''1 x'']\<rparr>]))"
  using recovered_reads_are_backed [of "[\<lparr>role = RoleAssistant, content = [MToolUse ''t'' ''Read'' read_input]\<rparr>,
      \<lparr>role = RoleUser, content = [answered ''t'' ''1 x'']\<rparr>]"] by blast

text \<open>A result that an aging pass has blanked is recovered as if its placeholder were the file.\<close>
theorem placeholder_is_recovered_as_file:
  "extract_recent_reads
     [\<lparr>role = RoleAssistant, content = [MToolUse ''t'' ''Read'' read_input]\<rparr>,
      \<lparr>role = RoleUser, content = [MToolResult ''t'' CLEARED_BY_TIME None]\<rparr>] = [(''/a'', CLEARED_BY_TIME)]"
  by (simp add: extract_recent_reads_def read_calls_def read_call_def FILE_READ_TOOLS_def read_input_def
      get_str_def List.map_filter_simps CLEARED_BY_TIME_def)

section \<open>Skills\<close>

lemma skills_loop_spec:
  assumes "skills_loop ss sections spent dropped = (sections', spent', dropped')"
    "spent \<le> MAX_CHARS_SKILLS_TOTAL"
  shows "spent' \<le> MAX_CHARS_SKILLS_TOTAL \<and>
    length sections' + length dropped' = length sections + length dropped + length ss \<and>
    (\<forall>s \<in> set ss. skill_name s \<in> set dropped' \<or>
      (\<exists>c. skill_content s = Some c \<and>
        ''## '' @ skill_name s @ nl @ nl @ capped MAX_CHARS_PER_SKILL ''...[truncated]'' c \<in> set sections')) \<and>
    set sections \<subseteq> set sections' \<and> set dropped \<subseteq> set dropped'"
  using assms
proof (induction ss arbitrary: sections spent dropped)
  case (Cons s ss)
  show ?case
  proof (cases "skill_content s")
    case None
    then have "skills_loop ss sections spent (dropped @ [skill_name s]) = (sections', spent', dropped')"
      using Cons.prems(1) by simp
    from Cons.IH [OF this Cons.prems(2)] show ?thesis by auto
  next
    case (Some c)
    let ?c = "capped MAX_CHARS_PER_SKILL ''...[truncated]'' c"
    show ?thesis
    proof (cases "MAX_CHARS_SKILLS_TOTAL < spent + utf8_len ?c")
      case True
      then have "skills_loop ss sections spent (dropped @ [skill_name s]) = (sections', spent', dropped')"
        using Cons.prems(1) Some by (simp add: Let_def)
      from Cons.IH [OF this Cons.prems(2)] show ?thesis by auto
    next
      case False
      then have "skills_loop ss (sections @ [''## '' @ skill_name s @ nl @ nl @ ?c]) (spent + utf8_len ?c) dropped =
          (sections', spent', dropped')"
        using Cons.prems(1) Some by (simp add: Let_def)
      from Cons.IH [OF this] False Some show ?thesis by auto
    qed
  qed
qed simp

text \<open>The bodies given back never exceed the shared budget, and no skill is forgotten: each is attached
  under its name or named among those dropped.\<close>
theorem skills_fit_shared_budget:
  assumes "skills_loop (by_recency ss) [] 0 [] = (sections, spent, dropped)"
  shows "spent \<le> MAX_CHARS_SKILLS_TOTAL \<and> length sections + length dropped = length ss \<and>
    (\<forall>s \<in> set ss. skill_name s \<in> set dropped \<or>
      (\<exists>c. skill_content s = Some c \<and>
        ''## '' @ skill_name s @ nl @ nl @ capped MAX_CHARS_PER_SKILL ''...[truncated]'' c \<in> set sections))"
  using skills_loop_spec [OF assms] by (simp add: by_recency_def)

lemma skills_fit_shared_budget_witness:
  "fst (snd (skills_loop (by_recency [\<lparr>skill_name = ''s'', skill_content = Some ''x'', last_seq = 1\<rparr>]) [] 0 [])) \<le>
     MAX_CHARS_SKILLS_TOTAL"
  using skills_fit_shared_budget [of "[\<lparr>skill_name = ''s'', skill_content = Some ''x'', last_seq = 1\<rparr>]"]
  by (metis prod.collapse)

section \<open>The breakdown\<close>

definition parts_total :: "'f context_analysis \<Rightarrow> nat" where
  "parts_total a = user_text_tokens a + assistant_text_tokens a + tool_result_tokens a + tool_use_tokens a + system_tokens a"

lemma analyze_block_parts:
  "total_estimated_tokens (analyze_block tk r a b) = total_estimated_tokens a + estimate_model_block_tokens tk b"
  "parts_total (analyze_block tk r a b) = parts_total a + estimate_model_block_tokens tk b"
  by (cases b; cases r; simp add: analyze_block_def to_side_def parts_total_def Let_def)+

lemma analyze_blocks_parts:
  "total_estimated_tokens (foldl (analyze_block tk r) a bs) =
     total_estimated_tokens a + sum_list (map (estimate_model_block_tokens tk) bs)"
  "parts_total (foldl (analyze_block tk r) a bs) = parts_total a + sum_list (map (estimate_model_block_tokens tk) bs)"
  by (induction bs arbitrary: a) (simp_all add: analyze_block_parts)

lemma analyze_messages_parts:
  "total_estimated_tokens (foldl (\<lambda>a m. foldl (analyze_block tk (role m)) a (content m)) a ms) =
     total_estimated_tokens a + estimate_message_tokens tk ms"
  "parts_total (foldl (\<lambda>a m. foldl (analyze_block tk (role m)) a (content m)) a ms) =
     parts_total a + estimate_message_tokens tk ms"
  by (induction ms arbitrary: a) (simp_all add: analyze_blocks_parts estimate_Cons)

text \<open>The breakdown adds up: its total is the estimate that drives compaction, and every token is
  attributed to exactly one part.\<close>
theorem analysis_adds_up:
  "total_estimated_tokens (analyze_context F tk ms) = estimate_message_tokens tk ms \<and>
   user_text_tokens (analyze_context F tk ms) + assistant_text_tokens (analyze_context F tk ms) +
   tool_result_tokens (analyze_context F tk ms) + tool_use_tokens (analyze_context F tk ms) +
   system_tokens (analyze_context F tk ms) = estimate_message_tokens tk ms"
proof -
  let ?a0 = "\<lparr>total_messages = length ms, total_estimated_tokens = 0, user_text_tokens = 0,
                assistant_text_tokens = 0, tool_result_tokens = 0, tool_use_tokens = 0, system_tokens = 0,
                tool_usage = [], cleared_results = 0, tool_result_pct = f_of_nat F 0, conversation_pct = f_of_nat F 0\<rparr>"
  have "parts_total ?a0 = 0" by (simp add: parts_total_def)
  then show ?thesis
    using analyze_messages_parts [of tk ?a0 ms]
    by (simp add: analyze_context_def Let_def parts_total_def)
qed

end
