(* ===== verification/Reactive.thy ===== *)
theory Reactive
  imports Recovery
begin

text \<open>
  When compaction happens: the thresholds and the circuit breaker of \<open>crates/compaction/src/reactive.rs\<close>,
  the callbacks of \<open>cleanup.rs\<close>, and the trait \<open>Compactor\<close> with its default judgements and its
  wrapper \<open>OnlyAtThreshold\<close> from \<open>compact.rs\<close>.  A registered callback is a name; running the registry
  yields the calls made.
\<close>

section \<open>Thresholds\<close>

definition AUTOCOMPACT_BUFFER_TOKENS :: nat where
  "AUTOCOMPACT_BUFFER_TOKENS = 13000"

definition WARNING_BUFFER_TOKENS :: nat where
  "WARNING_BUFFER_TOKENS = 20000"

definition ERROR_BUFFER_TOKENS :: nat where
  "ERROR_BUFFER_TOKENS = 20000"

definition BLOCK_BUFFER_TOKENS :: nat where
  "BLOCK_BUFFER_TOKENS = 3000"

definition MAX_CONSECUTIVE_FAILURES :: nat where
  "MAX_CONSECUTIVE_FAILURES = 3"

datatype comp_level = LevelNormal | LevelAuto | LevelWarning | LevelError | LevelBlocking

definition calculate_thresholds :: "nat \<Rightarrow> nat \<times> nat \<times> nat \<times> nat" where
  "calculate_thresholds context_window =
     (let auto = context_window - AUTOCOMPACT_BUFFER_TOKENS;
          warn = auto - WARNING_BUFFER_TOKENS;
          err = auto - ERROR_BUFFER_TOKENS;
          block = context_window - BLOCK_BUFFER_TOKENS
      in (auto, warn, err, block))"

definition compaction_level :: "nat \<Rightarrow> nat \<Rightarrow> comp_level" where
  "compaction_level current_tokens context_window =
     (case calculate_thresholds context_window of (auto, warn, err, block) \<Rightarrow>
        (if block \<le> current_tokens then LevelBlocking
         else if auto \<le> current_tokens then LevelAuto
         else if warn \<le> current_tokens then LevelWarning
         else LevelNormal))"

section \<open>The circuit breaker\<close>

record compaction_state =
  consecutive_failures :: nat
  last_compact_turn :: nat
  circuit_open :: bool

definition compaction_state_default :: compaction_state where
  "compaction_state_default = \<lparr>consecutive_failures = 0, last_compact_turn = 0, circuit_open = False\<rparr>"

definition record_compact_success :: "compaction_state \<Rightarrow> compaction_state" where
  "record_compact_success st = st\<lparr>consecutive_failures := 0, circuit_open := False\<rparr>"

definition record_compact_failure :: "compaction_state \<Rightarrow> compaction_state" where
  "record_compact_failure st =
     (let st' = st\<lparr>consecutive_failures := consecutive_failures st + 1\<rparr>
      in if MAX_CONSECUTIVE_FAILURES \<le> consecutive_failures st' then st'\<lparr>circuit_open := True\<rparr> else st')"

section \<open>The prediction\<close>

definition should_compact_reactively :: "'f f64_ops \<Rightarrow> nat \<Rightarrow> nat \<Rightarrow> 'f option \<Rightarrow> bool" where
  "should_compact_reactively F current_tokens context_limit velocity =
     (let trigger = 50000;
          remaining = context_limit - current_tokens
      in if remaining \<le> trigger then True
         else (case velocity of
                 Some v \<Rightarrow>
                   f_less F (f_of_nat F 0) v \<and> f_le F (f_div F (f_of_nat F remaining) v) (f_of_nat F 3)
               | None \<Rightarrow> False))"

definition should_compact_with_state ::
  "'f f64_ops \<Rightarrow> nat \<Rightarrow> nat \<Rightarrow> 'f option \<Rightarrow> compaction_state \<Rightarrow> bool" where
  "should_compact_with_state F current_tokens context_limit velocity st =
     (if circuit_open st then False else should_compact_reactively F current_tokens context_limit velocity)"

definition estimate_token_velocity :: "'f f64_ops \<Rightarrow> tokenizer \<Rightarrow> model_message list \<Rightarrow> 'f option" where
  "estimate_token_velocity F tk ms =
     (if length ms < 4 then None
      else Some (f_mul F (f_div F (f_of_nat F (estimate_message_tokens tk ms)) (f_of_nat F (length ms)))
                   (f_of_nat F 2)))"

section \<open>Callbacks and re-injection\<close>

type_synonym callbacks = "string list"

definition register_cleanup_callback :: "callbacks \<Rightarrow> string \<Rightarrow> callbacks" where
  "register_cleanup_callback cbs cb = cbs @ [cb]"

definition run_cleanup_callbacks :: "callbacks \<Rightarrow> string list" where
  "run_cleanup_callbacks cbs = cbs"

record cleanup_context =
  inject_messages :: "model_message list"
  skills_text :: "string option"
  skills_reinjected :: bool

definition build_post_compact_injections :: "string option \<Rightarrow> string option \<Rightarrow> cleanup_context" where
  "build_post_compact_injections skills memory_summary =
     (let ctx = \<lparr>inject_messages = [], skills_text = None, skills_reinjected = False\<rparr>
      in case memory_summary of
           None \<Rightarrow> ctx
         | Some s \<Rightarrow>
             (if s = [] then ctx
              else ctx\<lparr>inject_messages := inject_messages ctx
                         @ [reminder (''Session memory (re-injected after compaction):'' @ nl @ s)],
                       skills_reinjected := True\<rparr>))"

definition skills_need_reinjection :: "string option \<Rightarrow> cleanup_context" where
  "skills_need_reinjection t = \<lparr>inject_messages = [], skills_text = t, skills_reinjected = True\<rparr>"

section \<open>The trait and its defaults\<close>

record reactive_input =
  ri_context_tokens :: nat
  ri_context_limit :: nat
  ri_keep_recent :: nat
  ri_enabled :: bool
  ri_circuit_open :: bool

datatype reactive_outcome = NotTriggered | Compacted | NoEffect

record budget_state =
  bs_context_tokens :: nat
  threshold :: nat
  warned_already :: bool

definition reactive_default ::
  "'f f64_ops \<Rightarrow> tokenizer \<Rightarrow> callbacks \<Rightarrow> model_message list \<Rightarrow> reactive_input
    \<Rightarrow> reactive_outcome \<times> model_message list \<times> string list" where
  "reactive_default F tk cbs ms input =
     (if \<not> ri_enabled input \<or> ri_context_limit input = 0 \<or> ri_circuit_open input then (NotTriggered, ms, [])
      else
        (let velocity = estimate_token_velocity F tk ms
         in if \<not> should_compact_reactively F (ri_context_tokens input) (ri_context_limit input) velocity
            then (NotTriggered, ms, [])
            else
              (let keep = max (ri_keep_recent input) 5
               in if length (group_by_api_round tk ms) \<le> keep then (NotTriggered, ms, [])
                  else
                    (let before = estimate_message_tokens tk ms;
                         compacted = fst (micro_compact tk ms keep)
                     in if before \<le> estimate_message_tokens tk compacted then (NoEffect, ms, [])
                        else (Compacted, compacted, run_cleanup_callbacks cbs)))))"

text \<open>The warning sign of the text, U+26A0 U+FE0F, lies outside the fragment; it is a parameter.\<close>

definition context_warning_default :: "'f f64_ops \<Rightarrow> string \<Rightarrow> budget_state \<Rightarrow> string option" where
  "context_warning_default F sign st =
     (if threshold st = 0 \<or> warned_already st then None
      else
        (let warn_at = f_as_usize F (f_mul F (f_of_nat F (threshold st)) (f_four_fifths F))
         in if bs_context_tokens st \<le> warn_at \<or> threshold st < bs_context_tokens st then None
            else Some (''<system-reminder>'' @ nl @ sign @ '' Context is at ''
              @ f_show0 F (f_min F (f_mul F (f_div F (f_of_nat F (bs_context_tokens st)) (f_of_nat F (threshold st)))
                                      (f_of_nat F 100)) (f_of_nat F 99))
              @ ''% of the token budget ('' @ show_nat (bs_context_tokens st) @ ''/'' @ show_nat (threshold st)
              @ '' tokens). The conversation will be compacted soon to make room. If you have pending work, wrap it up or ask the user what to preserve.''
              @ nl @ ''</system-reminder>'')))"

definition should_compact_default :: "budget_state \<Rightarrow> bool" where
  "should_compact_default st \<longleftrightarrow> 0 < threshold st \<and> threshold st < bs_context_tokens st"

definition MIN_SUMMARIZED_TOKENS :: nat where
  "MIN_SUMMARIZED_TOKENS = 2000"

definition should_summarize :: "tokenizer \<Rightarrow> model_message list \<Rightarrow> nat \<Rightarrow> nat \<Rightarrow> bool" where
  "should_summarize tk ms max_tokens keep_rounds =
     (if estimate_message_tokens tk ms \<le> max_tokens then False
      else
        (let rounds = group_by_api_round tk ms;
             keep = clamp_keep keep_rounds (max (length rounds) 1)
         in if length rounds \<le> keep then False
            else MIN_SUMMARIZED_TOKENS \<le> sum_list (map estimated_tokens (take (length rounds - keep) rounds))))"

text \<open>A compactor is what its methods do; the state a method needs besides its arguments (the clock, the
  registered callbacks) is the method's own argument here.\<close>

record compactor =
  cmp_compact :: "model_message list \<Rightarrow> nat \<Rightarrow> nat \<Rightarrow> compact_error + (model_message list \<times> compact_result)"
  cmp_age :: "nat \<Rightarrow> model_message list \<Rightarrow> aging_input \<Rightarrow> model_message list \<times> aging"
  cmp_reactive :: "callbacks \<Rightarrow> model_message list \<Rightarrow> reactive_input \<Rightarrow> reactive_outcome \<times> model_message list \<times> string list"
  cmp_context_warning :: "budget_state \<Rightarrow> string option"
  cmp_should_compact :: "budget_state \<Rightarrow> bool"
  cmp_tool_result_budget :: tool_result_budget
  cmp_trim_tool_results :: "model_message list \<Rightarrow> model_message list \<times> nat"
  cmp_wants_llm_summary :: "model_message list \<Rightarrow> nat \<Rightarrow> nat \<Rightarrow> bool"

text \<open>An implementor who writes \<open>compact\<close> and nothing else.\<close>

definition with_trait_defaults ::
  "'f f64_ops \<Rightarrow> string \<Rightarrow> tokenizer
    \<Rightarrow> (model_message list \<Rightarrow> nat \<Rightarrow> nat \<Rightarrow> compact_error + (model_message list \<times> compact_result)) \<Rightarrow> compactor" where
  "with_trait_defaults F sign tk compact =
     \<lparr>cmp_compact = compact, cmp_age = age_default, cmp_reactive = reactive_default F tk,
      cmp_context_warning = context_warning_default F sign, cmp_should_compact = should_compact_default,
      cmp_tool_result_budget = budget_default,
      cmp_trim_tool_results = (\<lambda>ms. enforce_tool_result_budget ms budget_default),
      cmp_wants_llm_summary = should_summarize tk\<rparr>"

definition default_compactor :: "'f f64_ops \<Rightarrow> string \<Rightarrow> tokenizer \<Rightarrow> compactor" where
  "default_compactor F sign tk = with_trait_defaults F sign tk (compact_default tk)"

text \<open>A host that overrides the budget: the trimming follows it.\<close>

definition with_budget :: "compactor \<Rightarrow> tool_result_budget \<Rightarrow> compactor" where
  "with_budget c b =
     c\<lparr>cmp_tool_result_budget := b, cmp_trim_tool_results := (\<lambda>ms. enforce_tool_result_budget ms b)\<rparr>"

definition only_at_threshold :: "'f f64_ops \<Rightarrow> string \<Rightarrow> tokenizer \<Rightarrow> compactor \<Rightarrow> compactor" where
  "only_at_threshold F sign tk c =
     (with_trait_defaults F sign tk (cmp_compact c))
       \<lparr>cmp_age := (\<lambda>now ms input. (ms, aging_default)),
        cmp_reactive := (\<lambda>cbs ms input. (NotTriggered, ms, [])),
        cmp_context_warning := (\<lambda>st. None)\<rparr>"

lemmas reactive_defs [kernel_defs] =
  AUTOCOMPACT_BUFFER_TOKENS_def WARNING_BUFFER_TOKENS_def ERROR_BUFFER_TOKENS_def BLOCK_BUFFER_TOKENS_def
  MAX_CONSECUTIVE_FAILURES_def calculate_thresholds_def compaction_level_def compaction_state_default_def
  record_compact_success_def record_compact_failure_def should_compact_reactively_def
  should_compact_with_state_def estimate_token_velocity_def register_cleanup_callback_def
  run_cleanup_callbacks_def build_post_compact_injections_def skills_need_reinjection_def
  reactive_default_def context_warning_default_def should_compact_default_def MIN_SUMMARIZED_TOKENS_def
  should_summarize_def with_trait_defaults_def default_compactor_def with_budget_def only_at_threshold_def

section \<open>The breaker as a state machine\<close>

text \<open>Any run of successes and failures from the initial state.\<close>

inductive breaker_run :: "bool list \<Rightarrow> compaction_state \<Rightarrow> bool" where
  breaker_start: "breaker_run [] compaction_state_default"
| breaker_success: "breaker_run h st \<Longrightarrow> breaker_run (True # h) (record_compact_success st)"
| breaker_failure: "breaker_run h st \<Longrightarrow> breaker_run (False # h) (record_compact_failure st)"

inductive_cases breaker_runE: "breaker_run (b # h) st"

lemma breaker_counts:
  "breaker_run h st \<Longrightarrow> consecutive_failures st = length (takeWhile Not h)"
  by (induction rule: breaker_run.induct)
    (simp_all add: compaction_state_default_def record_compact_success_def record_compact_failure_def Let_def)

text \<open>The circuit is open exactly when the last three outcomes, or more, were failures, so one success
  closes it again; and while it is open nothing triggers a reactive pass.\<close>
theorem circuit_opens_after_three:
  assumes "breaker_run h st"
  shows "circuit_open st = (3 \<le> length (takeWhile Not h)) \<and>
    (circuit_open st \<longrightarrow> \<not> should_compact_with_state F current_tokens context_limit velocity st)"
proof -
  from assms have "circuit_open st = (3 \<le> length (takeWhile Not h))"
  proof (induction rule: breaker_run.induct)
    case (breaker_failure h st)
    with breaker_counts [of h st] show ?case
      by (auto simp: record_compact_failure_def MAX_CONSECUTIVE_FAILURES_def Let_def)
  qed (simp_all add: compaction_state_default_def record_compact_success_def)
  then show ?thesis by (simp add: should_compact_with_state_def)
qed

lemma circuit_opens_after_three_witness:
  "circuit_open (record_compact_failure (record_compact_failure (record_compact_failure compaction_state_default)))"
proof -
  have r: "breaker_run [False, False, False]
      (record_compact_failure (record_compact_failure (record_compact_failure compaction_state_default)))"
    by (intro breaker_run.intros)
  show ?thesis
    by (rule circuit_opens_after_three [OF r, THEN conjunct1, THEN iffD2]) simp
qed

section \<open>The reactive pass and the levels\<close>

fun level_rank :: "comp_level \<Rightarrow> nat" where
  "level_rank LevelNormal = 0"
| "level_rank LevelWarning = 1"
| "level_rank LevelError = 1"
| "level_rank LevelAuto = 2"
| "level_rank LevelBlocking = 3"

text \<open>Levels escalate: with more tokens in the same window the level never falls, and with the same
  tokens in a larger window it never rises.\<close>
theorem levels_escalate:
  assumes "t \<le> t'" "w' \<le> w"
  shows "level_rank (compaction_level t w) \<le> level_rank (compaction_level t' w')"
  using assms
  by (auto simp: compaction_level_def calculate_thresholds_def Let_def AUTOCOMPACT_BUFFER_TOKENS_def
      WARNING_BUFFER_TOKENS_def ERROR_BUFFER_TOKENS_def BLOCK_BUFFER_TOKENS_def)

lemma levels_escalate_witness:
  "level_rank (compaction_level 100 200000) \<le> level_rank (compaction_level 190000 200000)"
  by (rule levels_escalate) simp_all

text \<open>A reactive pass is adopted only when it made the history cheaper, it then dropped no message and ran
  every callback once; in every other case the history is untouched and no callback ran.\<close>
theorem reactive_adopts_only_cheaper:
  assumes "reactive_default F tk cbs ms input = (outcome, ms', calls)"
  shows "(if outcome = Compacted
          then estimate_message_tokens tk ms' < estimate_message_tokens tk ms \<and>
               list_all2 message_kept ms ms' \<and> calls = cbs
          else ms' = ms \<and> calls = []) \<and>
    (\<not> ri_enabled input \<or> ri_circuit_open input \<or> ri_context_limit input = 0 \<longrightarrow> outcome = NotTriggered)"
proof -
  have "list_all2 message_kept ms (fst (micro_compact tk ms k))" for k
    by (rule micro_kept)
  with assms show ?thesis
    by (auto simp: reactive_default_def run_cleanup_callbacks_def Let_def split: if_splits)
qed

definition nat_ops :: "nat f64_ops" where
  "nat_ops = \<lparr>f_of_nat = id, f_div = (div), f_mul = (*), f_min = min, f_le = (\<le>), f_less = (<),
     f_four_fifths = 0, f_as_usize = id, f_show0 = show_nat\<rparr>"

definition talk :: "model_message list" where
  "talk = [said ''a'', said ''b'', said ''c'', said ''d'', said ''e'', said ''f'']"

lemma reactive_adopts_only_cheaper_witness:
  "reactive_default nat_ops tok4 [''cb''] talk
     \<lparr>ri_context_tokens = 5, ri_context_limit = 10, ri_keep_recent = 2, ri_enabled = True, ri_circuit_open = False\<rparr> =
     (NoEffect, talk, []) \<and> talk = talk"
proof -
  have r: "reactive_default nat_ops tok4 [''cb''] talk
     \<lparr>ri_context_tokens = 5, ri_context_limit = 10, ri_keep_recent = 2, ri_enabled = True, ri_circuit_open = False\<rparr> =
     (NoEffect, talk, [])"
    by (simp add: reactive_default_def estimate_token_velocity_def should_compact_reactively_def micro_compact_def
        group_by_api_round_def is_user_text_def is_tool_result_def finish_round_def flatten_def clear_body_def
        track_tool_name_def estimate_message_tokens_def talk_def said_def tok4_def nat_ops_def Let_def)
  from reactive_adopts_only_cheaper [OF r] r show ?thesis by simp
qed

text \<open>The wrapper that postpones compaction keeps only the wrapped compactor's \<open>compact\<close>: a budget the
  host chose for tool results is silently the default again.\<close>
theorem wrapper_forgets_budget:
  "cmp_tool_result_budget (with_budget (default_compactor F sign tk) \<lparr>max_per_result = 100, max_total = 1000\<rparr>) =
     \<lparr>max_per_result = 100, max_total = 1000\<rparr> \<and>
   cmp_tool_result_budget (only_at_threshold F sign tk
     (with_budget (default_compactor F sign tk) \<lparr>max_per_result = 100, max_total = 1000\<rparr>)) =
     \<lparr>max_per_result = 50000, max_total = 500000\<rparr>"
  by (simp add: only_at_threshold_def with_budget_def with_trait_defaults_def budget_default_def)

end
