(* ===== verification/Summaries.thy ===== *)
theory Summaries
  imports Reactive
begin

text \<open>
  The two strategies that run before the cascade: \<open>crates/compaction/src/session_memory.rs\<close> prunes what
  session memory already holds, \<open>llm_summary.rs\<close> replaces the oldest rounds by a summary.  The model's
  answer is a parameter (\<open>None\<close> for a failed call, a stream error or a timeout); the trimming of the
  sidecar file is modelled as a function on its text.
\<close>

section \<open>Session memory\<close>

record session_memory_config =
  sm_min_tokens :: nat
  sm_min_text_blocks :: nat
  sm_max_tokens :: nat

record session_memory_compactor =
  sm_config :: session_memory_config
  last_summarized_count :: nat

definition session_memory_new :: "session_memory_config \<Rightarrow> session_memory_compactor" where
  "session_memory_new c = \<lparr>sm_config = c, last_summarized_count = 0\<rparr>"

definition mark_extracted :: "session_memory_compactor \<Rightarrow> nat \<Rightarrow> session_memory_compactor" where
  "mark_extracted c n = c\<lparr>last_summarized_count := n\<rparr>"

definition is_text_block :: "model_block \<Rightarrow> bool" where
  "is_text_block b = (case b of MText _ \<Rightarrow> True | _ \<Rightarrow> False)"

definition count_text_blocks :: "model_message list \<Rightarrow> nat" where
  "count_text_blocks ms = length (filter is_text_block (concat (map content ms)))"

definition round_tokens_up_to :: "api_round list \<Rightarrow> nat \<Rightarrow> nat" where
  "round_tokens_up_to rounds n = sum_list (map estimated_tokens (take (min n (length rounds)) rounds))"

fun prune_walk :: "nat \<Rightarrow> nat \<Rightarrow> nat \<Rightarrow> api_round list \<Rightarrow> nat" where
  "prune_walk cursor running n [] = n"
| "prune_walk cursor running n (r # rs) =
     (let running' = running + length (messages r)
      in if cursor \<le> running' then n else prune_walk cursor running' (n + 1) rs)"

text \<open>\<open>while p > 1\<close>: give back the newest pruned round until the rest is within the cap.\<close>

fun prune_cap :: "api_round list \<Rightarrow> nat \<Rightarrow> nat \<Rightarrow> nat" where
  "prune_cap rounds limit 0 = 0"
| "prune_cap rounds limit (Suc p) =
     (if Suc p \<le> 1 then Suc p
      else if round_tokens_up_to rounds p \<le> limit then p
      else prune_cap rounds limit p)"

definition noop_result :: "tokenizer \<Rightarrow> model_message list \<Rightarrow> model_message list \<times> compact_result" where
  "noop_result tk ms =
     (ms, \<lparr>cr_strategy = SessionMemory, messages_before = length ms, messages_after = length ms,
           tokens_before = estimate_message_tokens tk ms, tokens_after = estimate_message_tokens tk ms,
           cr_projection = None\<rparr>)"

text \<open>How many rounds to remove; each of the early returns that leave the conversation alone is 0.\<close>

definition rounds_to_prune ::
  "session_memory_config \<Rightarrow> nat \<Rightarrow> nat \<Rightarrow> api_round list \<Rightarrow> nat \<Rightarrow> nat" where
  "rounds_to_prune cfg cursor count_before rounds keep_rounds =
     (if cursor = 0 \<or> count_before \<le> max keep_rounds 1 then 0
      else
        (let prune_up_to_round = prune_walk cursor 0 0 rounds;
             max_prune = length rounds - max keep_rounds 1;
             effective_prune = min prune_up_to_round max_prune
         in if effective_prune = 0 then 0
            else
              (let pruned_tokens = round_tokens_up_to rounds effective_prune
               in if pruned_tokens < sm_min_tokens cfg then 0
                  else if count_text_blocks (flatten (take effective_prune rounds)) < sm_min_text_blocks cfg then 0
                  else if sm_max_tokens cfg < pruned_tokens then prune_cap rounds (sm_max_tokens cfg) effective_prune
                  else effective_prune)))"

definition session_memory_compact ::
  "tokenizer \<Rightarrow> session_memory_compactor \<Rightarrow> model_message list \<Rightarrow> nat
    \<Rightarrow> (model_message list \<times> compact_result) \<times> session_memory_compactor" where
  "session_memory_compact tk c ms keep_rounds =
     (let rounds = group_by_api_round tk ms;
          final_prune = rounds_to_prune (sm_config c) (last_summarized_count c) (length ms) rounds keep_rounds
      in if final_prune = 0 then (noop_result tk ms, c)
         else
           (let result = flatten (drop final_prune rounds)
            in ((result,
                 \<lparr>cr_strategy = SessionMemory, messages_before = length ms, messages_after = length result,
                  tokens_before = estimate_message_tokens tk ms,
                  tokens_after = estimate_message_tokens tk result, cr_projection = None\<rparr>),
                c\<lparr>last_summarized_count := 0\<rparr>)))"

text \<open>The new text of the sidecar file, or \<open>None\<close> when it is left alone.\<close>

definition fence :: string where
  "fence = ''---''"

definition split_frontmatter :: "string \<Rightarrow> string option \<times> string" where
  "split_frontmatter t =
     (case strip_prefix fence t of
        Some after_first \<Rightarrow>
          (case find_str (nl @ fence) after_first of
             Some i \<Rightarrow> (Some (fence @ take i after_first @ nl @ fence), trim_start (drop (i + length (nl @ fence)) after_first))
           | None \<Rightarrow> (None, t))
      | None \<Rightarrow> (None, t))"

definition truncate_session_memory_file :: "string \<Rightarrow> nat \<Rightarrow> string option" where
  "truncate_session_memory_file file max_token_equivalent =
     (let t = trim file
      in if t = [] then None
         else (case split_frontmatter t of (frontmatter, body) \<Rightarrow>
           (let max_chars = max_token_equivalent * 4
            in if utf8_len body \<le> max_chars then None
               else (let truncated_body = truncate_at_char_boundary body max_chars
                     in Some (case frontmatter of
                                Some fm \<Rightarrow> fm @ nl @ nl @ truncated_body
                              | None \<Rightarrow> truncated_body)))))"

section \<open>The LLM summary\<close>

definition MAX_RENDERED_BLOCK_CHARS :: nat where
  "MAX_RENDERED_BLOCK_CHARS = 2000"

definition MAX_RENDERED_TRANSCRIPT_CHARS :: nat where
  "MAX_RENDERED_TRANSCRIPT_CHARS = 120000"

text \<open>The ellipsis U+2026 of a capped block, as its three bytes.\<close>

definition ellipsis_bytes :: string where
  "ellipsis_bytes = [CHR 0xE2, CHR 0x80, CHR 0xA6]"

definition cap :: "string \<Rightarrow> string" where
  "cap s =
     (if utf8_len s \<le> MAX_RENDERED_BLOCK_CHARS then s
      else truncate_at_char_boundary s MAX_RENDERED_BLOCK_CHARS @ ellipsis_bytes @ '' [''
           @ show_nat (utf8_len s - MAX_RENDERED_BLOCK_CHARS) @ '' bytes truncated]'')"

definition who :: "message_role \<Rightarrow> string" where
  "who r = (case r of RoleUser \<Rightarrow> ''User'' | RoleAssistant \<Rightarrow> ''Assistant'' | RoleSystem \<Rightarrow> ''System'')"

definition render_block_line :: "(json \<Rightarrow> string) \<Rightarrow> message_role \<Rightarrow> model_block \<Rightarrow> string option" where
  "render_block_line sj r b =
     (case b of
        MText t \<Rightarrow> (if trim t = [] then None else Some (who r @ '': '' @ cap t))
      | MThinking _ _ _ \<Rightarrow> None
      | MRedacted _ _ \<Rightarrow> None
      | MImage media_type _ \<Rightarrow> Some (who r @ '': [image: '' @ media_type @ '']'')
      | MToolUse _ name input \<Rightarrow> Some (who r @ '' called '' @ name @ ''('' @ cap (sj input) @ '')'')
      | MToolResult _ c e \<Rightarrow>
          Some (''['' @ (if e = Some True then ''tool error'' else ''tool result'') @ ''] '' @ cap c))"

definition rendered_len :: "string list \<Rightarrow> nat" where
  "rendered_len ls = sum_list (map (\<lambda>l. utf8_len l + 1) ls)"

fun trim_front :: "nat \<Rightarrow> string list \<Rightarrow> string list" where
  "trim_front whole [] = []"
| "trim_front whole (l # ls) =
     (if MAX_RENDERED_TRANSCRIPT_CHARS < whole then trim_front (whole - (utf8_len l + 1)) ls else l # ls)"

definition render_transcript :: "(json \<Rightarrow> string) \<Rightarrow> model_message list \<Rightarrow> string" where
  "render_transcript sj ms =
     (let lines = concat (map (\<lambda>m. List.map_filter (render_block_line sj (role m)) (content m)) ms)
      in join_with nl (trim_front (rendered_len lines) lines))"

text \<open>\<open>summarize\<close>: \<open>ask\<close> is the call with the rendered transcript, \<open>Inl\<close> the reason it failed.\<close>

definition summarize ::
  "(json \<Rightarrow> string) \<Rightarrow> (string \<Rightarrow> string + string) \<Rightarrow> model_message list \<Rightarrow> compact_error + string" where
  "summarize sj ask ms =
     (let transcript = render_transcript sj ms
      in if trim transcript = [] then
           Inl (NotApplicable ''no summarizable content in the rounds being dropped'')
         else (case ask transcript of
                 Inl why \<Rightarrow> Inl (Internal why)
               | Inr answer \<Rightarrow>
                   (let summary = trim answer
                    in if summary = [] then Inl (Internal ''summarization returned an empty response'')
                       else Inr summary)))"

text \<open>The message that carries a summary; its fixed wording is \<open>preamble\<close>.\<close>

definition preamble :: string where
  "preamble = ''The earlier part of this conversation was removed to free context. It is gone '' @ em_dash
     @ '' you cannot scroll back to it. The structured summary below is all that remains of it; treat it as an accurate record of what happened and continue from its ''
     @ [CHR 0x22] @ ''Current work and next step'' @ [CHR 0x22]
     @ '' section. Anything not in the summary and not in the messages after it must be re-established (re-read the file, re-run the command) rather than assumed.''"

definition summary_message :: "string \<Rightarrow> model_message" where
  "summary_message s =
     reminder (preamble @ nl @ nl @ ''<compacted-context>'' @ nl @ s @ nl @ ''</compacted-context>'')"

fun shed_rounds :: "tokenizer \<Rightarrow> model_message \<Rightarrow> api_round list \<Rightarrow> nat \<Rightarrow> nat \<Rightarrow> nat" where
  "shed_rounds tk m rounds max_tokens 0 = 0"
| "shed_rounds tk m rounds max_tokens (Suc k) =
     (if 1 < Suc k \<and> max_tokens < estimate_message_tokens tk (m # flatten (drop (length rounds - Suc k) rounds))
      then shed_rounds tk m rounds max_tokens k else Suc k)"

definition full_compact ::
  "tokenizer \<Rightarrow> (string \<Rightarrow> string + string) \<Rightarrow> model_message list \<Rightarrow> nat \<Rightarrow> nat
    \<Rightarrow> compact_error + (model_message list \<times> compact_result)" where
  "full_compact tk ask ms max_tokens keep_rounds =
     (let rounds = group_by_api_round tk ms;
          keep = clamp_keep keep_rounds (max (length rounds) 1)
      in if length rounds \<le> keep then
           Inl (NotApplicable (''fewer rounds than the keep floor '' @ em_dash @ '' nothing to summarize''))
         else
           (case summarize (show_json tk) ask (flatten (take (length rounds - keep) rounds)) of
              Inl e \<Rightarrow> Inl e
            | Inr summary \<Rightarrow>
                (let m = summary_message summary;
                     kept_rounds = shed_rounds tk m rounds max_tokens keep;
                     result = m # flatten (drop (length rounds - kept_rounds) rounds);
                     before = estimate_message_tokens tk ms;
                     after = estimate_message_tokens tk result
                 in Inr (result,
                      \<lparr>cr_strategy = FullCompact, messages_before = length ms, messages_after = length result,
                       tokens_before = before, tokens_after = after,
                       cr_projection = Some \<lparr>dropped_rounds = length rounds - kept_rounds,
                         dropped_messages = length ms - length result,
                         estimated_tokens_saved = before - after\<rparr>\<rparr>))))"

lemmas summary_defs [kernel_defs] =
  session_memory_new_def mark_extracted_def is_text_block_def count_text_blocks_def round_tokens_up_to_def
  noop_result_def rounds_to_prune_def session_memory_compact_def fence_def split_frontmatter_def truncate_session_memory_file_def
  MAX_RENDERED_BLOCK_CHARS_def MAX_RENDERED_TRANSCRIPT_CHARS_def ellipsis_bytes_def cap_def who_def
  render_block_line_def rendered_len_def render_transcript_def summarize_def preamble_def summary_message_def
  full_compact_def

section \<open>What pruning keeps\<close>

lemma prune_walk_le: "prune_walk cursor running n rs \<le> n + length rs"
proof (induction rs arbitrary: running n)
  case (Cons r rs)
  then show ?case
    using Cons.IH [of "running + length (messages r)" "Suc n"] by (simp add: Let_def)
qed simp

lemma prune_walk_before_cursor:
  "prune_walk cursor running n rs = n + k \<Longrightarrow> k \<le> length rs \<Longrightarrow> 0 < k \<Longrightarrow>
    running + length (flatten (take k rs)) < cursor"
proof (induction rs arbitrary: running n k)
  case (Cons r rs)
  show ?case
  proof (cases "cursor \<le> running + length (messages r)")
    case True
    with Cons.prems show ?thesis by (simp add: Let_def)
  next
    case False
    then have w: "prune_walk cursor (running + length (messages r)) (Suc n) rs = Suc n + (k - 1)"
      using Cons.prems by (simp add: Let_def)
    show ?thesis
    proof (cases "k = 1")
      case True
      then show ?thesis using False by (simp add: flatten_Cons)
    next
      case k: False
      then obtain k' where "k = Suc k'" "0 < k'" using Cons.prems(3) by (cases k) auto
      with Cons.IH [OF w] Cons.prems(2) show ?thesis by (simp add: flatten_Cons)
    qed
  qed
qed simp

lemma prune_cap_le: "prune_cap rounds limit p \<le> p"
  by (induction p) (auto intro: le_SucI)

lemma flatten_take_mono: "k \<le> n \<Longrightarrow> length (flatten (take k rs)) \<le> length (flatten (take n rs))"
  by (metis (no_types, lifting) append_take_drop_id flatten_append le_add1 length_append min.absorb1 take_take)

lemma prune_walk_prefix:
  assumes "k \<le> prune_walk cursor 0 0 rounds" "0 < k"
  shows "length (flatten (take k rounds)) < cursor"
proof -
  let ?n = "prune_walk cursor 0 0 rounds"
  have "?n \<le> length rounds" using prune_walk_le [of cursor 0 0 rounds] by simp
  then have "length (flatten (take ?n rounds)) < cursor"
    using prune_walk_before_cursor [of cursor 0 0 rounds ?n] assms by simp
  then show ?thesis
    using flatten_take_mono [OF assms(1), of rounds] by linarith
qed

lemma rounds_to_prune_le:
  assumes "rounds_to_prune cfg cursor n rounds keep \<noteq> 0"
  shows "rounds_to_prune cfg cursor n rounds keep \<le> min (prune_walk cursor 0 0 rounds) (length rounds - max keep 1)"
proof -
  let ?eff = "min (prune_walk cursor 0 0 rounds) (length rounds - max keep 1)"
  have "rounds_to_prune cfg cursor n rounds keep \<in> {0, ?eff, prune_cap rounds (sm_max_tokens cfg) ?eff}"
    unfolding rounds_to_prune_def Let_def by (simp split del: if_split) auto
  then show ?thesis
    using assms prune_cap_le [of rounds "sm_max_tokens cfg" ?eff] by auto
qed

text \<open>Pruning is safe: what is removed is a run of whole rounds from the front, all of whose messages lie
  before the extraction cursor; at least the rounds to keep, and at least one, remain; and the cursor is
  reset exactly when something was removed.\<close>
theorem pruning_stays_before_cursor:
  assumes "session_memory_compact tk c ms keep_rounds = ((r, res), c')"
  shows "(r = ms \<and> c' = c) \<or>
    (\<exists>k. 0 < k \<and> k + max keep_rounds 1 \<le> length (group_by_api_round tk ms) \<and>
       ms = flatten (take k (group_by_api_round tk ms)) @ r \<and>
       r = flatten (drop k (group_by_api_round tk ms)) \<and>
       length (flatten (take k (group_by_api_round tk ms))) < last_summarized_count c \<and>
       c' = c\<lparr>last_summarized_count := 0\<rparr>)"
proof -
  let ?rs = "group_by_api_round tk ms"
  let ?k = "rounds_to_prune (sm_config c) (last_summarized_count c) (length ms) ?rs keep_rounds"
  show ?thesis
  proof (cases "?k = 0")
    case True
    then show ?thesis using assms by (simp add: session_memory_compact_def noop_result_def)
  next
    case False
    then have r: "r = flatten (drop ?k ?rs)" "c' = c\<lparr>last_summarized_count := 0\<rparr>"
      using assms by (simp_all add: session_memory_compact_def Let_def)
    have b: "?k \<le> prune_walk (last_summarized_count c) 0 0 ?rs" "?k \<le> length ?rs - max keep_rounds 1"
      using rounds_to_prune_le [OF False] by simp_all
    have "ms = flatten (take ?k ?rs) @ flatten (drop ?k ?rs)"
      using flatten_take_drop [of ?k ?rs] grouping.flatten_rounds [of tk ms] by simp
    moreover have "?k + max keep_rounds 1 \<le> length ?rs"
      using b(2) False by linarith
    ultimately show ?thesis
      using r False prune_walk_prefix [OF b(1)] by blast
  qed
qed

definition sm_loose :: session_memory_config where
  "sm_loose = \<lparr>sm_min_tokens = 0, sm_min_text_blocks = 0, sm_max_tokens = 100\<rparr>"

lemma pruning_stays_before_cursor_witness:
  "fst (fst (session_memory_compact tok4 \<lparr>sm_config = sm_loose, last_summarized_count = 2\<rparr> [said ''a'', said ''b'', said ''c''] 1)) =
     [said ''b'', said ''c''] \<and>
   last_summarized_count (snd (session_memory_compact tok4 \<lparr>sm_config = sm_loose, last_summarized_count = 2\<rparr>
     [said ''a'', said ''b'', said ''c''] 1)) = 0"
proof -
  let ?c = "\<lparr>sm_config = sm_loose, last_summarized_count = 2\<rparr>" and ?ms = "[said ''a'', said ''b'', said ''c'']"
  have v: "fst (fst (session_memory_compact tok4 ?c ?ms 1)) = [said ''b'', said ''c'']"
    by (simp add: session_memory_compact_def rounds_to_prune_def sm_loose_def group_by_api_round_def is_user_text_def
        is_tool_result_def finish_round_def flatten_def round_tokens_up_to_def said_def tok4_def
        estimate_message_tokens_def Let_def)
  obtain r res c' where e: "session_memory_compact tok4 ?c ?ms 1 = ((r, res), c')"
    by (metis prod.collapse)
  from pruning_stays_before_cursor [OF e] v e show ?thesis by auto
qed

text \<open>A round that ends exactly at the cursor is not pruned, although all its messages have been extracted.\<close>
theorem cursor_round_is_kept:
  "fst (fst (session_memory_compact tok4 \<lparr>sm_config = sm_loose, last_summarized_count = 1\<rparr>
     [said ''a'', said ''b''] 1)) = [said ''a'', said ''b'']"
  by (simp add: session_memory_compact_def rounds_to_prune_def sm_loose_def group_by_api_round_def is_user_text_def
      is_tool_result_def finish_round_def flatten_def noop_result_def said_def Let_def)

section \<open>What a full compaction keeps\<close>

lemma shed_rounds_spec:
  assumes "0 < k"
  shows "1 \<le> shed_rounds tk m rounds limit k \<and> shed_rounds tk m rounds limit k \<le> k \<and>
    (shed_rounds tk m rounds limit k = 1 \<or>
     estimate_message_tokens tk (m # flatten (drop (length rounds - shed_rounds tk m rounds limit k) rounds)) \<le> limit)"
  using assms
proof (induction k)
  case (Suc k)
  show ?case
  proof (cases "1 < Suc k \<and> limit < estimate_message_tokens tk (m # flatten (drop (length rounds - Suc k) rounds))")
    case True
    then have "0 < k" by simp
    from Suc.IH [OF this] True show ?thesis by simp
  qed auto
qed simp

text \<open>A full compaction puts the summary first and then the newest rounds, at least one and at most the
  number to keep; it fits the budget unless only the newest round is left; and when it fails nothing has
  been dropped: the caller still holds the conversation.\<close>
theorem full_compact_keeps_newest:
  assumes "full_compact tk ask ms max_tokens keep_rounds = Inr (r, res)"
  shows "\<exists>s k. s \<noteq> [] \<and> 1 \<le> k \<and> k \<le> max keep_rounds 1 \<and> k < round_count tk ms \<and>
    r = summary_message s # newest tk ms k \<and>
    (k = 1 \<or> estimate_message_tokens tk r \<le> max_tokens) \<and> tokens_after res = estimate_message_tokens tk r"
proof -
  define rs where "rs = group_by_api_round tk ms"
  define keep where "keep = clamp_keep keep_rounds (max (length rs) 1)"
  note f = assms [unfolded full_compact_def Let_def, folded rs_def, folded keep_def]
  from f have more: "keep < length rs"
    by (simp split: if_splits)
  with f obtain s where s: "summarize (show_json tk) ask (flatten (take (length rs - keep) rs)) = Inr s"
    by (cases "summarize (show_json tk) ask (flatten (take (length rs - keep) rs))") simp_all
  then have ne: "s \<noteq> []"
    by (auto simp: summarize_def Let_def split: if_splits sum.splits)
  define k where "k = shed_rounds tk (summary_message s) rs max_tokens keep"
  have keep: "0 < keep" "keep \<le> max keep_rounds 1" by (auto simp: keep_def clamp_keep_def max_def)
  from shed_rounds_spec [OF keep(1), of tk "summary_message s" rs max_tokens]
  have k: "1 \<le> k" "k \<le> keep"
    "k = 1 \<or> estimate_message_tokens tk (summary_message s # flatten (drop (length rs - k) rs)) \<le> max_tokens"
    by (simp_all add: k_def)
  have r: "r = summary_message s # newest tk ms k" "tokens_after res = estimate_message_tokens tk r"
    using f more s by (auto simp: newest_def rs_def k_def)
  show ?thesis
  proof (intro exI conjI)
    show "k = 1 \<or> estimate_message_tokens tk r \<le> max_tokens"
      using k(3) r(1) by (simp add: newest_def rs_def)
    show "k \<le> max keep_rounds 1" using k(2) keep(2) by linarith
    show "k < round_count tk ms" using k(2) more by (simp add: round_count_def rs_def)
  qed (fact ne k(1) r)+
qed

lemma full_compact_keeps_newest_witness:
  "\<exists>r res s k. full_compact tok4 (\<lambda>_. Inr ''sum'') [said ''a'', said ''b''] 1 1 = Inr (r, res) \<and>
     s \<noteq> [] \<and> k = 1 \<and> r = summary_message s # newest tok4 [said ''a'', said ''b''] k"
proof -
  have t: "trim ''sum'' = ''sum''" "trim ''a'' = ''a''" "trim ''User: a'' = ''User: a''"
    by (simp_all add: trim_id is_whitespace_def whitespace_chars_def)
  have l: "render_transcript (\<lambda>_. []) [said ''a''] = ''User: a''"
    by (simp add: render_transcript_def render_block_line_def said_def List.map_filter_simps t cap_def who_def
        rendered_len_def MAX_RENDERED_BLOCK_CHARS_def MAX_RENDERED_TRANSCRIPT_CHARS_def utf8_len_def char_code_def)
  have u: "summarize (\<lambda>_. []) (\<lambda>_. Inr ''sum'') [said ''a''] = Inr ''sum''"
    by (simp add: summarize_def l t)
  have g: "group_by_api_round tok4 [said ''a'', said ''b''] =
      [finish_round tok4 [said ''a''] 0, finish_round tok4 [said ''b''] 1]"
    by (simp add: group_by_api_round_def is_user_text_def is_tool_result_def said_def Let_def)
  have sj: "show_json tok4 = (\<lambda>_. [])" by (simp add: tok4_def)
  obtain r res where c: "full_compact tok4 (\<lambda>_. Inr ''sum'') [said ''a'', said ''b''] 1 1 = Inr (r, res)"
    by (simp add: full_compact_def g sj u clamp_keep_def flatten_def finish_round_def Let_def)
  from full_compact_keeps_newest [OF c] c show ?thesis
    by (metis le_antisym max.idem)
qed

end
