(* ===== verification/Jsonl.thy ===== *)
theory Jsonl
  imports History Paths
begin

text \<open>
  The file backend of the history, \<open>JsonlHistoryStore\<close> of \<open>crates/history/src/store.rs\<close> with the
  sidecars of \<open>project.rs\<close>: one JSON line per entry, one file per session, the file's directory chosen by the
  project the session recorded.  The disk is part of the state: transcripts with their modification
  times, sidecars as the value they parse to (\<open>None\<close> when they do not), and the paths the operating
  system refuses.  Directory order is the order of the association list, on which nothing may rely.
\<close>

section \<open>State\<close>

record session_metadata =
  md_session_id :: string
  md_canonical_cwd :: string
  md_project_state_file :: string
  md_history_file :: string
  md_created_at :: string
  md_updated_at :: string
  md_title :: "string option"
  md_first_user_prompt :: "string option"
  md_latest_summary :: "string option"
  md_total_input :: "64 word option"
  md_total_output :: "64 word option"
  md_compact_count :: "64 word"
  md_tags :: "string list"
  md_pr_link :: "string option"
  md_agent_mode :: "string option"

record jsonl_store =
  js_projects_root :: string
  js_sessions_root :: string
  js_cwd :: string
  js_homes :: "(string \<times> string option) list"
  js_blobs :: "blob_items option"
  js_files :: "(string \<times> string \<times> int) list"
  js_meta :: "(string \<times> session_metadata option) list"
  js_refused :: "string \<Rightarrow> string option"

record jsonl_ops =
  jo_codec :: codec
  jo_hash :: "string \<Rightarrow> string"
  jo_realpath :: "string \<Rightarrow> string stored"
  jo_parse_id :: "string \<Rightarrow> string option"
  jo_read :: read_ops

definition with_roots :: "jsonl_ops \<Rightarrow> string \<Rightarrow> history_roots \<Rightarrow> jsonl_store \<Rightarrow> history_error + jsonl_store" where
  "with_roots ops cwd roots on_disk =
     (case canonicalize_cwd (jo_realpath ops) cwd of
        Inl e \<Rightarrow> Inl e
      | Inr canonical \<Rightarrow>
          Inr (on_disk\<lparr>js_projects_root := hr_projects roots, js_sessions_root := hr_sessions roots,
                 js_cwd := canonical, js_homes := [], js_blobs := None\<rparr>))"

definition read_file :: "jsonl_store \<Rightarrow> string \<Rightarrow> string stored" where
  "read_file st path =
     (case js_refused st path of
        Some e \<Rightarrow> Unreadable e
      | None \<Rightarrow> (case map_of (js_files st) path of None \<Rightarrow> Absent | Some (text, _) \<Rightarrow> Stored text))"

definition read_meta :: "jsonl_store \<Rightarrow> string \<Rightarrow> session_metadata option stored" where
  "read_meta st session =
     (case js_refused st (session_metadata_file (js_sessions_root st) session) of
        Some e \<Rightarrow> Unreadable e
      | None \<Rightarrow> (case map_of (js_meta st) session of None \<Rightarrow> Absent | Some m \<Rightarrow> Stored m))"

definition load_session_metadata :: "jsonl_store \<Rightarrow> string \<Rightarrow> session_metadata option" where
  "load_session_metadata st session = (case read_meta st session of Stored m \<Rightarrow> m | _ \<Rightarrow> None)"

section \<open>Sidecars\<close>

definition metadata_new :: "stamp \<Rightarrow> string \<Rightarrow> string \<Rightarrow> string \<Rightarrow> session_metadata" where
  "metadata_new s cwd dir session =
     \<lparr>md_session_id = session, md_canonical_cwd = cwd,
      md_project_state_file = project_session_state_file cwd, md_history_file = session_file dir session,
      md_created_at = st_text s, md_updated_at = st_text s, md_title = None, md_first_user_prompt = None,
      md_latest_summary = None, md_total_input = None, md_total_output = None, md_compact_count = 0,
      md_tags = [], md_pr_link = None, md_agent_mode = None\<rparr>"

definition metadata_or_new ::
  "jsonl_store \<Rightarrow> stamp \<Rightarrow> string \<Rightarrow> string \<Rightarrow> string \<Rightarrow> history_error + session_metadata" where
  "metadata_or_new st s cwd dir session =
     (case read_meta st session of
        Stored (Some m) \<Rightarrow> Inr m
      | Stored None \<Rightarrow> Inr (metadata_new s cwd dir session)
      | Absent \<Rightarrow> Inr (metadata_new s cwd dir session)
      | Unreadable e \<Rightarrow> Inl (HeIo e))"

definition write_meta :: "jsonl_store \<Rightarrow> string \<Rightarrow> session_metadata \<Rightarrow> history_error + jsonl_store" where
  "write_meta st session m =
     (case js_refused st (session_metadata_file (js_sessions_root st) session) of
        Some e \<Rightarrow> Inl (HeIo e)
      | None \<Rightarrow> Inr (st\<lparr>js_meta := AList.update session (Some m) (js_meta st)\<rparr>))"

definition ensure_session_sidecar_in ::
  "jsonl_store \<Rightarrow> stamp \<Rightarrow> string \<Rightarrow> string \<Rightarrow> string \<Rightarrow> history_error + jsonl_store" where
  "ensure_session_sidecar_in st s cwd dir session =
     (case metadata_or_new st s cwd dir session of
        Inl e \<Rightarrow> Inl e
      | Inr m \<Rightarrow>
          write_meta st session
            (m\<lparr>md_updated_at := st_text s, md_canonical_cwd := cwd,
              md_history_file := session_file dir session,
              md_project_state_file := project_session_state_file cwd\<rparr>))"

definition counter_delta :: "log_entry \<Rightarrow> 64 word" where
  "counter_delta entry = (case entry of ECompact _ \<Rightarrow> 1 | _ \<Rightarrow> 0)"

definition add_counters_in ::
  "jsonl_store \<Rightarrow> stamp \<Rightarrow> string \<Rightarrow> string \<Rightarrow> string \<Rightarrow> 64 word \<Rightarrow> history_error + jsonl_store" where
  "add_counters_in st s cwd dir session delta =
     (if delta = 0 then Inr st
      else case metadata_or_new st s cwd dir session of
             Inl e \<Rightarrow> Inl e
           | Inr m \<Rightarrow>
               write_meta st session
                 (m\<lparr>md_compact_count := md_compact_count m + delta, md_updated_at := st_text s\<rparr>))"

definition set_session_title_in ::
  "jsonl_store \<Rightarrow> stamp \<Rightarrow> string \<Rightarrow> string \<Rightarrow> string \<Rightarrow> string option \<Rightarrow> history_error + jsonl_store" where
  "set_session_title_in st s cwd dir session title =
     (case ensure_session_sidecar_in st s cwd dir session of
        Inl e \<Rightarrow> Inl e
      | Inr st1 \<Rightarrow>
          (case metadata_or_new st1 s cwd dir session of
             Inl e \<Rightarrow> Inl e
           | Inr m \<Rightarrow> write_meta st1 session (m\<lparr>md_title := title, md_updated_at := st_text s\<rparr>)))"

definition session_stats_in :: "jsonl_store \<Rightarrow> string \<Rightarrow> history_error + session_stats" where
  "session_stats_in st session =
     (case read_meta st session of
        Unreadable e \<Rightarrow> Inl (HeIo e)
      | Stored (Some m) \<Rightarrow> Inr \<lparr>sx_title = md_title m, sx_compact_count = md_compact_count m\<rparr>
      | _ \<Rightarrow> Inr \<lparr>sx_title = None, sx_compact_count = 0\<rparr>)"

section \<open>Which project a session belongs to\<close>

definition resolve_home :: "jsonl_store \<Rightarrow> string \<Rightarrow> string option" where
  "resolve_home st session =
     (case load_session_metadata st session of
        Some m \<Rightarrow> (if md_canonical_cwd m = [] then None else Some (md_canonical_cwd m))
      | None \<Rightarrow> Some (js_cwd st))"

definition home_of :: "jsonl_store \<Rightarrow> string \<Rightarrow> string option \<times> jsonl_store" where
  "home_of st session =
     (case map_of (js_homes st) session of
        Some home \<Rightarrow> (home, st)
      | None \<Rightarrow>
          (let home = resolve_home st session
           in (home, st\<lparr>js_homes := AList.update session home (js_homes st)\<rparr>)))"

definition canonical_or_self :: "jsonl_ops \<Rightarrow> string \<Rightarrow> string" where
  "canonical_or_self ops root =
     (case canonicalize_cwd (jo_realpath ops) root of Inr c \<Rightarrow> c | Inl _ \<Rightarrow> root)"

definition project_dir_of_root :: "jsonl_ops \<Rightarrow> jsonl_store \<Rightarrow> string option \<Rightarrow> string" where
  "project_dir_of_root ops st home =
     project_dir_for (js_projects_root st) (map_option (canonical_or_self ops) home)"

definition session_dir_of :: "jsonl_store \<Rightarrow> string \<Rightarrow> string \<times> jsonl_store" where
  "session_dir_of st session =
     (case home_of st session of (home, st') \<Rightarrow> (project_dir_for (js_projects_root st) home, st'))"

definition session_path_of :: "jsonl_store \<Rightarrow> string \<Rightarrow> string \<times> jsonl_store" where
  "session_path_of st session =
     (case session_dir_of st session of (dir, st') \<Rightarrow> (session_file dir session, st'))"

definition project_dir_path :: "jsonl_store \<Rightarrow> string" where
  "project_dir_path st = project_dir (js_projects_root st) (js_cwd st)"

definition home_from_meta ::
  "jsonl_ops \<Rightarrow> jsonl_store \<Rightarrow> log_entry \<Rightarrow> string option option \<times> jsonl_store" where
  "home_from_meta ops st entry =
     (case entry of
        EMeta m \<Rightarrow>
          (case meta_project_root m of
             Some root \<Rightarrow> (Some (Some (canonical_or_self ops root)), st)
           | None \<Rightarrow>
               (case meta_parent_session_id m of
                  Some parent \<Rightarrow>
                    (case jo_parse_id ops parent of
                       Some p \<Rightarrow> (case home_of st p of (home, st') \<Rightarrow> (Some home, st'))
                     | None \<Rightarrow> (Some (Some (js_cwd st)), st))
                | None \<Rightarrow> (Some None, st)))
      | _ \<Rightarrow> (None, st))"

definition home_text :: "string option \<Rightarrow> string" where
  "home_text home = (case home of Some h \<Rightarrow> h | None \<Rightarrow> [])"

section \<open>Appending\<close>

text \<open>A \<open>Meta\<close> line records the session's project, sidecar first.\<close>

definition settle_home ::
  "jsonl_ops \<Rightarrow> jsonl_store \<Rightarrow> stamp \<Rightarrow> string \<Rightarrow> log_entry \<Rightarrow> history_error + string option \<times> jsonl_store" where
  "settle_home ops st s session entry =
     (case home_from_meta ops st entry of
        (Some home, st1) \<Rightarrow>
          (case ensure_session_sidecar_in st1 s (home_text home)
                  (project_dir_for (js_projects_root st1) home) session of
             Inl e \<Rightarrow> Inl e
           | Inr st2 \<Rightarrow> Inr (home, st2\<lparr>js_homes := AList.update session home (js_homes st2)\<rparr>))
      | (None, st1) \<Rightarrow> Inr (home_of st1 session))"

definition put_bulk ::
  "jsonl_ops \<Rightarrow> jsonl_store \<Rightarrow> stamp \<Rightarrow> log_entry \<Rightarrow> log_entry \<times> jsonl_store" where
  "put_bulk ops st s entry =
     (case js_blobs st of
        None \<Rightarrow> (entry, st)
      | Some bs \<Rightarrow>
          (case externalize_if_bulky (jo_codec ops) (jo_hash ops) (st_now s) bs entry of
             (entry', bs') \<Rightarrow> (entry', st\<lparr>js_blobs := Some bs'\<rparr>)))"

definition write_line :: "jsonl_store \<Rightarrow> string \<Rightarrow> int \<Rightarrow> string \<Rightarrow> history_error + jsonl_store" where
  "write_line st path now text =
     (case read_file st path of
        Unreadable e \<Rightarrow> Inl (HeIo e)
      | Absent \<Rightarrow> Inr (st\<lparr>js_files := AList.update path (text @ [CHR 0x0A], now) (js_files st)\<rparr>)
      | Stored old \<Rightarrow> Inr (st\<lparr>js_files := AList.update path (old @ text @ [CHR 0x0A], now) (js_files st)\<rparr>))"

definition jsonl_append_tagged ::
  "jsonl_ops \<Rightarrow> jsonl_store \<Rightarrow> stamp \<Rightarrow> string \<Rightarrow> log_entry \<Rightarrow> entry_tags \<Rightarrow> history_error + jsonl_store" where
  "jsonl_append_tagged ops st s session entry tags =
     (case settle_home ops st s session entry of
        Inl e \<Rightarrow> Inl e
      | Inr (home, st1) \<Rightarrow>
          (let dir = project_dir_for (js_projects_root st1) home;
               counters = counter_delta entry
           in case put_bulk ops st1 s entry of (entry', st2) \<Rightarrow>
                (case write_line st2 (session_file dir session) (st_now s)
                        (enc_env (jo_codec ops) (enveloped s session entry' tags)) of
                   Inl e \<Rightarrow> Inl e
                 | Inr st3 \<Rightarrow>
                     (case add_counters_in st3 s (home_text home) dir session counters of
                        Inl _ \<Rightarrow> Inr st3
                      | Inr st4 \<Rightarrow> Inr st4))))"

definition jsonl_append ::
  "jsonl_ops \<Rightarrow> jsonl_store \<Rightarrow> stamp \<Rightarrow> string \<Rightarrow> log_entry \<Rightarrow> history_error + jsonl_store" where
  "jsonl_append ops st s session entry = jsonl_append_tagged ops st s session entry no_tags"

section \<open>Reading back\<close>

definition drop_cr :: "string \<Rightarrow> string" where
  "drop_cr l = (if l \<noteq> [] \<and> last l = CHR 0x0D then butlast l else l)"

text \<open>\<open>str::lines\<close>.\<close>

definition text_lines :: "string \<Rightarrow> string list" where
  "text_lines text =
     (let ls = split_char (CHR 0x0A) text
      in map drop_cr (if last ls = [] then butlast ls else ls))"

definition hydrate_with :: "jsonl_ops \<Rightarrow> blob_items option \<Rightarrow> enveloped_entry \<Rightarrow> enveloped_entry" where
  "hydrate_with ops blobs env =
     (case blobs of None \<Rightarrow> env | Some bs \<Rightarrow> hydrate (jo_codec ops) bs env)"

fun parse_lines :: "(string \<Rightarrow> enveloped_entry option) \<Rightarrow> nat \<Rightarrow> string list \<Rightarrow> history_error + enveloped_entry list"
where
  "parse_lines dec i [] = Inr []"
| "parse_lines dec i (l # ls) =
     (if trim l = [] then parse_lines dec (Suc i) ls
      else case dec l of
             None \<Rightarrow> Inl (HeParse (i + 1))
           | Some env \<Rightarrow>
               (case parse_lines dec (Suc i) ls of Inl e \<Rightarrow> Inl e | Inr es \<Rightarrow> Inr (env # es)))"

definition load_entries_from_path :: "jsonl_ops \<Rightarrow> jsonl_store \<Rightarrow> string \<Rightarrow> string \<Rightarrow> history_error + enveloped_entry list"
where
  "load_entries_from_path ops st path session =
     (case read_file st path of
        Absent \<Rightarrow> Inl (HeNotFound session)
      | Unreadable e \<Rightarrow> Inl (HeIo e)
      | Stored text \<Rightarrow> parse_lines (dec_env (jo_codec ops)) 0 (text_lines text))"

definition jsonl_load :: "jsonl_ops \<Rightarrow> jsonl_store \<Rightarrow> string \<Rightarrow> (history_error + enveloped_entry list) \<times> jsonl_store" where
  "jsonl_load ops st session =
     (case session_path_of st session of (path, st') \<Rightarrow>
        ((case load_entries_from_path ops st path session of
            Inl e \<Rightarrow> Inl e
          | Inr es \<Rightarrow> Inr (map (hydrate_with ops (js_blobs st)) es)), st'))"

definition jsonl_delete :: "jsonl_store \<Rightarrow> string \<Rightarrow> history_error + jsonl_store" where
  "jsonl_delete st session =
     (case session_path_of st session of (path, st1) \<Rightarrow>
        (case js_refused st path of
           Some e \<Rightarrow> Inl (HeIo e)
         | None \<Rightarrow>
             (let st2 = st1\<lparr>js_files := AList.delete path (js_files st1)\<rparr>;
                  st3 = (if js_refused st2 (session_metadata_file (js_sessions_root st2) session) = None
                         then st2\<lparr>js_meta := AList.delete session (js_meta st2)\<rparr> else st2)
              in Inr (st3\<lparr>js_homes := AList.delete session (js_homes st3)\<rparr>))))"

definition jsonl_set_title ::
  "jsonl_store \<Rightarrow> stamp \<Rightarrow> string \<Rightarrow> string option \<Rightarrow> history_error + jsonl_store" where
  "jsonl_set_title st s session title =
     (case home_of st session of (home, st1) \<Rightarrow>
        set_session_title_in st1 s (home_text home) (project_dir_for (js_projects_root st1) home) session title)"

fun facts_in_lines :: "(string \<Rightarrow> enveloped_entry option) \<Rightarrow> nat \<Rightarrow> string list \<Rightarrow> history_error + session_facts" where
  "facts_in_lines dec i [] = Inr default_facts"
| "facts_in_lines dec i (l # ls) =
     (if trim l = [] then facts_in_lines dec (Suc i) ls
      else case dec l of
             None \<Rightarrow> Inl (HeParse (i + 1))
           | Some env \<Rightarrow>
               (case facts_of (env_entry env) of
                  Some f \<Rightarrow> Inr f
                | None \<Rightarrow> facts_in_lines dec (Suc i) ls))"

definition jsonl_facts :: "jsonl_ops \<Rightarrow> jsonl_store \<Rightarrow> string \<Rightarrow> (history_error + session_facts) \<times> jsonl_store" where
  "jsonl_facts ops st session =
     (case session_path_of st session of (path, st') \<Rightarrow>
        ((case read_file st path of
            Absent \<Rightarrow> Inr default_facts
          | Unreadable e \<Rightarrow> Inl (HeIo e)
          | Stored text \<Rightarrow> facts_in_lines (dec_env (jo_codec ops)) 0 (text_lines text)), st'))"

end
