(* ===== verification/Listing.thy ===== *)
theory Listing
  imports Jsonl
begin

text \<open>
  Which sessions are there: the directory listings of \<open>JsonlHistoryStore\<close> and its \<open>find_sessions\<close>
  (\<open>crates/history/src/store.rs\<close>).  A loop over sessions threads the store, because looking up
  where a session lives fills the cache of projects.
\<close>

section \<open>Directories\<close>

definition dir_names :: "jsonl_store \<Rightarrow> string \<Rightarrow> (string \<times> string \<times> int) list" where
  "dir_names st dir =
     List.map_filter (\<lambda>(path, text, mtime).
        (case strip_prefix (path_under dir []) path of
           Some name \<Rightarrow> (if name \<noteq> [] \<and> CHR ''/'' \<notin> set name then Some (name, path, mtime) else None)
         | None \<Rightarrow> None)) (js_files st)"

definition session_of_name :: "jsonl_ops \<Rightarrow> string \<Rightarrow> string option" where
  "session_of_name ops name = Option.bind (strip_suffix ''.jsonl'' name) (jo_parse_id ops)"

definition session_ids_in :: "jsonl_ops \<Rightarrow> jsonl_store \<Rightarrow> string \<Rightarrow> history_error + string list" where
  "session_ids_in ops st dir =
     (case js_refused st dir of
        Some e \<Rightarrow> Inl (HeIo e)
      | None \<Rightarrow> Inr (List.map_filter (\<lambda>(name, path, mtime). session_of_name ops name) (dir_names st dir)))"

definition jsonl_list_sessions :: "jsonl_ops \<Rightarrow> jsonl_store \<Rightarrow> history_error + string list" where
  "jsonl_list_sessions ops st = session_ids_in ops st (project_dir_path st)"

type_synonym session_row = "string \<times> string \<times> int"

definition session_rows :: "jsonl_ops \<Rightarrow> jsonl_store \<Rightarrow> string \<Rightarrow> session_row list" where
  "session_rows ops st dir =
     List.map_filter (\<lambda>(name, path, mtime).
        (case session_of_name ops name of Some i \<Rightarrow> Some (i, path, mtime) | None \<Rightarrow> None)) (dir_names st dir)"

definition newer_file :: "session_row \<Rightarrow> session_row \<Rightarrow> bool" where
  "newer_file a b \<longleftrightarrow> snd (snd b) \<le> snd (snd a)"

definition session_files_by_mtime :: "jsonl_ops \<Rightarrow> jsonl_store \<Rightarrow> string \<Rightarrow> nat option \<Rightarrow> session_row list" where
  "session_files_by_mtime ops st dir limit =
     (if limit = Some 0 then []
      else if js_refused st dir \<noteq> None then []
      else (let found = sort_by newer_file (session_rows ops st dir)
            in (case limit of None \<Rightarrow> found | Some n \<Rightarrow> take n found)))"

definition collect_session_files :: "jsonl_ops \<Rightarrow> jsonl_store \<Rightarrow> string \<Rightarrow> history_error + session_row list" where
  "collect_session_files ops st dir =
     (case js_refused st dir of Some e \<Rightarrow> Inl (HeIo e) | None \<Rightarrow> Inr (session_rows ops st dir))"

definition list_recent_sessions :: "jsonl_ops \<Rightarrow> jsonl_store \<Rightarrow> nat \<Rightarrow> (string \<times> string) list" where
  "list_recent_sessions ops st limit =
     map (\<lambda>(i, path, mtime). (i, ro_time (jo_read ops) mtime))
       (session_files_by_mtime ops st (project_dir_path st) (Some limit))"

fun children_of ::
  "jsonl_ops \<Rightarrow> jsonl_store \<Rightarrow> string \<Rightarrow> string list \<Rightarrow> (history_error + string list) \<times> jsonl_store" where
  "children_of ops st parent [] = (Inr [], st)"
| "children_of ops st parent (sid # sids) =
     (case jsonl_facts ops st sid of
        (Inl e, st1) \<Rightarrow> (Inl e, st1)
      | (Inr f, st1) \<Rightarrow>
          (case children_of ops st1 parent sids of
             (Inl e, st2) \<Rightarrow> (Inl e, st2)
           | (Inr out, st2) \<Rightarrow> (Inr (if sf_parent f = Some parent then sid # out else out), st2)))"

definition jsonl_child_sessions ::
  "jsonl_ops \<Rightarrow> jsonl_store \<Rightarrow> string \<Rightarrow> (history_error + string list) \<times> jsonl_store" where
  "jsonl_child_sessions ops st parent =
     (case (case jo_parse_id ops parent of
              Some p \<Rightarrow> session_dir_of st p
            | None \<Rightarrow> (project_dir_path st, st)) of
        (dir, st1) \<Rightarrow>
          (case session_ids_in ops st1 dir of
             Inl e \<Rightarrow> (Inl e, st1)
           | Inr sids \<Rightarrow> children_of ops st1 parent sids))"

section \<open>Summaries\<close>

definition summary_from_parts ::
  "jsonl_ops \<Rightarrow> string \<Rightarrow> int \<Rightarrow> nat \<Rightarrow> message list \<Rightarrow> session_metadata option \<Rightarrow> session_summary" where
  "summary_from_parts ops session mtime entries messages metadata =
     \<lparr>ss_session_id = session, ss_last_modified = ro_time (jo_read ops) mtime, ss_entry_count = entries,
      ss_message_count = length messages,
      ss_preview = (case Option.bind metadata md_latest_summary of
                      Some s \<Rightarrow> s | None \<Rightarrow> preview_messages (ro_ellipsis (jo_read ops)) messages 140),
      ss_canonical_cwd = map_option md_canonical_cwd metadata,
      ss_title = Option.bind metadata md_title,
      ss_total_input = Option.bind metadata md_total_input,
      ss_total_output = Option.bind metadata md_total_output,
      ss_compact_count = (case metadata of Some m \<Rightarrow> md_compact_count m | None \<Rightarrow> 0)\<rparr>"

definition session_summary_of ::
  "jsonl_ops \<Rightarrow> jsonl_store \<Rightarrow> string \<Rightarrow> int \<Rightarrow> (history_error + session_summary option) \<times> jsonl_store" where
  "session_summary_of ops st session mtime =
     (case jsonl_load ops st session of
        (Inl (HeNotFound _), st1) \<Rightarrow> (Inr None, st1)
      | (Inl (HeParse _), st1) \<Rightarrow> (Inr None, st1)
      | (Inl e, st1) \<Rightarrow> (Inl e, st1)
      | (Inr entries, st1) \<Rightarrow>
          (Inr (Some (summary_from_parts ops session mtime (length entries)
             (project_messages_with entries (ro_projection (jo_read ops)))
             (load_session_metadata st1 session))), st1))"

type_synonym found = "(history_error + session_summary list) \<times> jsonl_store"

fun recent_loop :: "jsonl_ops \<Rightarrow> jsonl_store \<Rightarrow> summary_detail \<Rightarrow> session_row list \<Rightarrow> found" where
  "recent_loop ops st detail [] = (Inr [], st)"
| "recent_loop ops st detail ((sid, path, mtime) # rows) =
     (case (case detail of
              IdsOnly \<Rightarrow> (Inr (Some (summary_from_parts ops sid mtime 0 [] (load_session_metadata st sid))), st)
            | FullDetail \<Rightarrow> session_summary_of ops st sid mtime) of
        (Inl e, st1) \<Rightarrow> (Inl e, st1)
      | (Inr s, st1) \<Rightarrow>
          (case recent_loop ops st1 detail rows of
             (Inl e, st2) \<Rightarrow> (Inl e, st2)
           | (Inr out, st2) \<Rightarrow> (Inr (case s of Some x \<Rightarrow> x # out | None \<Rightarrow> out), st2)))"

definition recent_summaries :: "jsonl_ops \<Rightarrow> jsonl_store \<Rightarrow> string \<Rightarrow> nat \<Rightarrow> summary_detail \<Rightarrow> found" where
  "recent_summaries ops st dir limit detail =
     recent_loop ops st detail (session_files_by_mtime ops st dir (Some limit))"

text \<open>The searches stop after the row that fills the answer; \<open>room\<close> counts the places left, and the check
  comes after a row was looked at.\<close>

fun search_loop ::
  "jsonl_ops \<Rightarrow> jsonl_store \<Rightarrow> string \<Rightarrow> nat \<Rightarrow> session_summary list \<Rightarrow> session_row list \<Rightarrow> found" where
  "search_loop ops st text limit out [] = (Inr out, st)"
| "search_loop ops st text limit out ((sid, path, mtime) # rows) =
     (case jsonl_load ops st sid of
        (Inl (HeNotFound _), st1) \<Rightarrow> search_loop ops st1 text limit out rows
      | (Inl e, st1) \<Rightarrow> (Inl e, st1)
      | (Inr entries, st1) \<Rightarrow>
          (let messages = project_messages_with entries (ro_projection (jo_read ops));
               out1 = (if contains_str sid text \<or> messages_match_query (ro_json (jo_read ops)) messages text
                       then out @ [summary_from_parts ops sid mtime (length entries) messages
                                     (load_session_metadata st1 sid)]
                       else out)
           in if limit \<le> length out1 then (Inr out1, st1)
              else search_loop ops st1 text limit out1 rows))"

definition search_one_project :: "jsonl_ops \<Rightarrow> jsonl_store \<Rightarrow> string \<Rightarrow> string \<Rightarrow> nat \<Rightarrow> found" where
  "search_one_project ops st dir text limit =
     search_loop ops st text limit [] (session_files_by_mtime ops st dir None)"

datatype project_dir_filter = AllDirs | UnderPath string

fun filter_matches :: "project_dir_filter \<Rightarrow> session_metadata option \<Rightarrow> bool" where
  "filter_matches AllDirs metadata = True"
| "filter_matches (UnderPath root) metadata =
     (case metadata of
        Some m \<Rightarrow> path_starts_with (path_of (md_canonical_cwd m)) (path_of root)
      | None \<Rightarrow> False)"

text \<open>The directories under the projects root, in the order their first file appears.\<close>

definition project_dirs :: "jsonl_store \<Rightarrow> string list" where
  "project_dirs st =
     remdups (List.map_filter (\<lambda>(path, text, mtime).
        (case strip_prefix (path_under (js_projects_root st) []) path of
           Some rest \<Rightarrow>
             (case split_once (CHR ''/'') rest of
                Some (name, _) \<Rightarrow> (if name = [] then None else Some (path_under (js_projects_root st) name))
              | None \<Rightarrow> None)
         | None \<Rightarrow> None)) (js_files st))"

fun collect_all :: "jsonl_ops \<Rightarrow> jsonl_store \<Rightarrow> string list \<Rightarrow> history_error + session_row list" where
  "collect_all ops st [] = Inr []"
| "collect_all ops st (d # ds) =
     (case collect_session_files ops st d of
        Inl e \<Rightarrow> Inl e
      | Inr rows \<Rightarrow> (case collect_all ops st ds of Inl e \<Rightarrow> Inl e | Inr others \<Rightarrow> Inr (rows @ others)))"

definition haystack :: "jsonl_ops \<Rightarrow> string \<Rightarrow> session_metadata option \<Rightarrow> message list \<Rightarrow> string" where
  "haystack ops session metadata messages =
     to_lowercase (join_with [CHR 0x0A]
       [session,
        (case Option.bind metadata md_title of Some t \<Rightarrow> t | None \<Rightarrow> []),
        (case metadata of Some m \<Rightarrow> md_canonical_cwd m | None \<Rightarrow> []),
        render_search_text (ro_json (jo_read ops)) messages])"

fun search_dirs_loop ::
  "jsonl_ops \<Rightarrow> jsonl_store \<Rightarrow> string \<Rightarrow> nat \<Rightarrow> project_dir_filter \<Rightarrow> session_summary list \<Rightarrow> session_row list
   \<Rightarrow> history_error + session_summary list" where
  "search_dirs_loop ops st query limit flt out [] = Inr out"
| "search_dirs_loop ops st query limit flt out ((sid, path, mtime) # rows) =
     (case load_entries_from_path ops st path sid of
        Inl e \<Rightarrow> Inl e
      | Inr entries \<Rightarrow>
          (let metadata = load_session_metadata st sid
           in if \<not> filter_matches flt metadata then search_dirs_loop ops st query limit flt out rows
              else (let messages = project_messages_with entries (ro_projection (jo_read ops));
                        out1 = (if query = [] \<or> contains_str (haystack ops sid metadata messages) query
                                then out @ [summary_from_parts ops sid mtime (length entries) messages metadata]
                                else out)
                    in if limit \<le> length out1 then Inr out1
                       else search_dirs_loop ops st query limit flt out1 rows)))"

definition search_project_dirs ::
  "jsonl_ops \<Rightarrow> jsonl_store \<Rightarrow> string \<Rightarrow> nat \<Rightarrow> project_dir_filter \<Rightarrow> history_error + session_summary list" where
  "search_project_dirs ops st query limit flt =
     (if limit = 0 then Inr []
      else (let q = to_lowercase (trim query)
            in case js_refused st (js_projects_root st) of
                 Some e \<Rightarrow> Inl (HeIo e)
               | None \<Rightarrow>
                   (case collect_all ops st (project_dirs st) of
                      Inl e \<Rightarrow> Inl e
                    | Inr candidates \<Rightarrow>
                        search_dirs_loop ops st q limit flt [] (sort_by newer_file candidates))))"

definition jsonl_find_sessions :: "jsonl_ops \<Rightarrow> jsonl_store \<Rightarrow> session_query \<Rightarrow> found" where
  "jsonl_find_sessions ops st q =
     (case q_scope q of
        CurrentProject \<Rightarrow>
          (case needle q of
             None \<Rightarrow> recent_summaries ops st (project_dir_path st) (q_limit q) (q_detail q)
           | Some text \<Rightarrow> search_one_project ops st (project_dir_path st) text (q_limit q))
      | ScopeProject home \<Rightarrow>
          (let dir = project_dir_of_root ops st home
           in case needle q of
                None \<Rightarrow> recent_summaries ops st dir (q_limit q) (q_detail q)
              | Some text \<Rightarrow> search_one_project ops st dir text (q_limit q))
      | AllProjects \<Rightarrow> (search_project_dirs ops st (q_text q) (q_limit q) AllDirs, st)
      | ScopeUnder root \<Rightarrow> (search_project_dirs ops st (q_text q) (q_limit q) (UnderPath root), st))"

end
