(* ===== verification/HistoryProps.thy ===== *)
theory HistoryProps
  imports Listing
begin

text \<open>
  The contract of \<open>HistoryStore\<close> (order of appends, absent is not empty) as the locale
  \<open>history_log\<close>, with both shipped backends as interpretations; the contract of \<open>find_sessions\<close> for
  the default method and where the file backend leaves it; observers and blobs.
\<close>

section \<open>The contract of a log\<close>

definition entries_or_none :: "history_error + enveloped_entry list \<Rightarrow> enveloped_entry list" where
  "entries_or_none r = (case r of Inr es \<Rightarrow> es | Inl _ \<Rightarrow> [])"

lemma entries_or_none_simps [simp]:
  "entries_or_none (Inr es) = es" "entries_or_none (Inl e) = []"
  by (simp_all add: entries_or_none_def)

text \<open>\<open>sound\<close> says that the log on record is complete and readable, \<open>writable\<close> that the serialized form of the
  entry reads back; a backend without a serialized form asks for nothing.\<close>

text \<open>A sequence of appends to one session, stopping at the first failure.\<close>

fun append_all ::
  "('st \<Rightarrow> stamp \<Rightarrow> string \<Rightarrow> log_entry \<Rightarrow> entry_tags \<Rightarrow> history_error + 'st) \<Rightarrow> 'st \<Rightarrow> string
   \<Rightarrow> (stamp \<times> log_entry \<times> entry_tags) list \<Rightarrow> history_error + 'st" where
  "append_all app st i [] = Inr st"
| "append_all app st i ((s, e, t) # later) =
     (case app st s i e t of Inl x \<Rightarrow> Inl x | Inr st' \<Rightarrow> append_all app st' i later)"

fun all_writable ::
  "('st \<Rightarrow> stamp \<Rightarrow> string \<Rightarrow> log_entry \<Rightarrow> entry_tags \<Rightarrow> history_error + 'st)
   \<Rightarrow> ('st \<Rightarrow> stamp \<Rightarrow> string \<Rightarrow> log_entry \<Rightarrow> entry_tags \<Rightarrow> bool) \<Rightarrow> 'st \<Rightarrow> string
   \<Rightarrow> (stamp \<times> log_entry \<times> entry_tags) list \<Rightarrow> bool" where
  "all_writable app w st i [] = True"
| "all_writable app w st i ((s, e, t) # later) =
     (w st s i e t \<and> (case app st s i e t of Inl _ \<Rightarrow> True | Inr st' \<Rightarrow> all_writable app w st' i later))"

locale history_log =
  fixes append :: "'st \<Rightarrow> stamp \<Rightarrow> string \<Rightarrow> log_entry \<Rightarrow> entry_tags \<Rightarrow> history_error + 'st"
    and load :: "'st \<Rightarrow> string \<Rightarrow> history_error + enveloped_entry list"
    and sound :: "'st \<Rightarrow> string \<Rightarrow> bool"
    and writable :: "'st \<Rightarrow> stamp \<Rightarrow> string \<Rightarrow> log_entry \<Rightarrow> entry_tags \<Rightarrow> bool"
  assumes appended: "sound st i \<Longrightarrow> writable st s i e t \<Longrightarrow> append st s i e t = Inr st' \<Longrightarrow>
      load st' i = Inr (entries_or_none (load st i) @ [enveloped s i e t]) \<and> sound st' i"
begin

lemma load_in_order:
  assumes "sound st i" "all_writable append writable st i xs" "append_all append st i xs = Inr st'"
  shows "entries_or_none (load st' i) = entries_or_none (load st i) @ map (\<lambda>(s, e, t). enveloped s i e t) xs
    \<and> sound st' i"
  using assms
proof (induction xs arbitrary: st)
  case (Cons x xs)
  obtain s e t where x: "x = (s, e, t)" using prod_cases3 by blast
  obtain st1 where one: "append st s i e t = Inr st1"
    using Cons.prems x by (auto split: sum.splits)
  have step: "load st1 i = Inr (entries_or_none (load st i) @ [enveloped s i e t]) \<and> sound st1 i"
    using appended [OF Cons.prems(1) _ one] Cons.prems(2) x by simp
  with Cons.IH [of st1] Cons.prems x one show ?case by simp
qed simp

end

section \<open>The in-memory backend\<close>

definition mem_appended ::
  "mem_store \<Rightarrow> stamp \<Rightarrow> string \<Rightarrow> log_entry \<Rightarrow> entry_tags \<Rightarrow> history_error + mem_store" where
  "mem_appended st s i e t = Inr (mem_append_tagged st s i e t)"

lemma mem_load_append:
  "mem_load (mem_append_tagged st s i e t) j =
     (if j = i then Inr (entries_or_none (mem_load st i) @ [enveloped s i e t]) else mem_load st j)"
  by (auto simp: mem_load_def mem_append_tagged_def Let_def update_conv split: option.splits)

interpretation mem: history_log mem_appended mem_load "\<lambda>st i. True" "\<lambda>st s i e t. True"
  by unfold_locales (auto simp: mem_appended_def mem_load_append)

lemma mem_load_delete: "mem_load (mem_delete st i) j = (if j = i then Inl (HeNotFound i) else mem_load st j)"
  by (auto simp: mem_load_def mem_delete_def AList.delete_conv)

section \<open>The file backend\<close>

definition complete_log :: "string \<Rightarrow> bool" where
  "complete_log text \<longleftrightarrow> text = [] \<or> last text = CHR 0x0A"

definition refs_resolved :: "blob_items option \<Rightarrow> enveloped_entry \<Rightarrow> bool" where
  "refs_resolved blobs env =
     (case blobs of
        None \<Rightarrow> True
      | Some bs \<Rightarrow>
          (case env_entry env of
             EBlob b \<Rightarrow> blob_store b \<noteq> bl_name bs \<or> bl_get bs (blob_id b) \<noteq> None
           | EPasteRef p \<Rightarrow> bl_get bs p \<noteq> None
           | _ \<Rightarrow> True))"

definition jsonl_sound :: "jsonl_ops \<Rightarrow> jsonl_store \<Rightarrow> string \<Rightarrow> bool" where
  "jsonl_sound ops st session =
     (case read_file st (fst (session_path_of st session)) of
        Absent \<Rightarrow> True
      | Unreadable _ \<Rightarrow> False
      | Stored text \<Rightarrow>
          complete_log text \<and>
          (case parse_lines (dec_env (jo_codec ops)) 0 (text_lines text) of
             Inl _ \<Rightarrow> False
           | Inr es \<Rightarrow> list_all (refs_resolved (js_blobs st)) es))"

text \<open>What serde, the hash and the caller owe an append: the line is one line and parses to what was
  written, the moved-out entry parses too and its id is not taken by other content, the session's
  project does not change, and the entry is not itself a reference.\<close>

definition line_ok :: "codec \<Rightarrow> enveloped_entry \<Rightarrow> bool" where
  "line_ok cd env =
     (let l = enc_env cd env
      in CHR 0x0A \<notin> set l \<and> drop_cr l = l \<and> trim l \<noteq> [] \<and> dec_env cd l = Some env)"

definition bulk_ok :: "jsonl_ops \<Rightarrow> blob_items option \<Rightarrow> log_entry \<Rightarrow> bool" where
  "bulk_ok ops blobs entry =
     (case blobs of
        None \<Rightarrow> True
      | Some bs \<Rightarrow>
          externalizable_kind (jo_codec ops) entry = None \<or>
          (let json = enc_entry (jo_codec ops) entry
           in dec_entry (jo_codec ops) json = Some entry \<and>
              bl_get bs (jo_hash ops json) \<in> {None, Some json}))"

definition is_reference :: "log_entry \<Rightarrow> bool" where
  "is_reference entry = (case entry of EBlob _ \<Rightarrow> True | EPasteRef _ \<Rightarrow> True | _ \<Rightarrow> False)"

definition jsonl_writable ::
  "jsonl_ops \<Rightarrow> jsonl_store \<Rightarrow> stamp \<Rightarrow> string \<Rightarrow> log_entry \<Rightarrow> entry_tags \<Rightarrow> bool" where
  "jsonl_writable ops st s session entry tags =
     (\<not> is_reference entry \<and> bulk_ok ops (js_blobs st) entry \<and>
      line_ok (jo_codec ops) (enveloped s session (fst (put_bulk ops st s entry)) tags) \<and>
      (case settle_home ops st s session entry of
         Inl _ \<Rightarrow> True
       | Inr (home, _) \<Rightarrow> home = fst (home_of st session)))"

definition jsonl_loaded :: "jsonl_ops \<Rightarrow> jsonl_store \<Rightarrow> string \<Rightarrow> history_error + enveloped_entry list" where
  "jsonl_loaded ops st session = fst (jsonl_load ops st session)"

lemma parse_lines_append:
  "parse_lines dec i (xs @ ys) =
     (case parse_lines dec i xs of
        Inl e \<Rightarrow> Inl e
      | Inr a \<Rightarrow>
          (case parse_lines dec (i + length xs) ys of Inl e \<Rightarrow> Inl e | Inr b \<Rightarrow> Inr (a @ b)))"
  by (induction dec i xs rule: parse_lines.induct) (auto split: option.splits sum.splits)

lemma text_lines_snoc:
  assumes "complete_log text" "CHR 0x0A \<notin> set l"
  shows "text_lines (text @ l @ [CHR 0x0A]) = text_lines text @ [drop_cr l]"
proof (cases "text = []")
  case True
  then show ?thesis
    using assms(2) split_char_append [of "CHR 0x0A" l "[]"] by (simp add: text_lines_def Let_def)
next
  case False
  with assms(1) obtain body where body: "text = body @ [CHR 0x0A]"
    by (metis append_butlast_last_id complete_log_def)
  have "split_char (CHR 0x0A) (text @ l @ [CHR 0x0A]) = split_char (CHR 0x0A) body @ [l, []]"
    using split_char_mid [of "CHR 0x0A" body "l @ [CHR 0x0A]"] split_char_append [OF assms(2), of "[]"]
    by (simp add: body)
  moreover have "split_char (CHR 0x0A) text = split_char (CHR 0x0A) body @ [[]]"
    using split_char_mid [of "CHR 0x0A" body "[]"] by (simp add: body)
  ultimately show ?thesis by (simp add: text_lines_def Let_def butlast_append)
qed


lemma meta_frame:
  assumes "write_meta st session m = Inr st'"
  shows "js_files st' = js_files st" "js_blobs st' = js_blobs st" "js_homes st' = js_homes st"
    "js_projects_root st' = js_projects_root st" "js_refused st' = js_refused st" "js_cwd st' = js_cwd st"
  using assms by (auto simp: write_meta_def split: option.splits)

lemma sidecar_frame:
  assumes "ensure_session_sidecar_in st s cwd dir session = Inr st'"
  shows "js_files st' = js_files st" "js_blobs st' = js_blobs st"
    "js_projects_root st' = js_projects_root st" "js_refused st' = js_refused st"
  using assms by (auto simp: ensure_session_sidecar_in_def split: sum.splits dest: meta_frame)

lemma counters_frame:
  assumes "add_counters_in st s cwd dir session d = Inr st'"
  shows "js_files st' = js_files st" "js_blobs st' = js_blobs st" "js_homes st' = js_homes st"
    "js_projects_root st' = js_projects_root st" "js_refused st' = js_refused st"
  using assms by (auto simp: add_counters_in_def split: sum.splits if_splits dest: meta_frame)

lemma home_of_frame:
  assumes "home_of st session = (home, st')"
  shows "js_files st' = js_files st" "js_blobs st' = js_blobs st"
    "js_projects_root st' = js_projects_root st" "js_refused st' = js_refused st"
    "map_of (js_homes st') session = Some home"
  using assms by (auto simp: home_of_def Let_def update_conv split: option.splits)

lemma home_from_meta_frame:
  assumes "home_from_meta ops st entry = (h, st')"
  shows "js_files st' = js_files st" "js_blobs st' = js_blobs st"
    "js_projects_root st' = js_projects_root st" "js_refused st' = js_refused st"
  using assms
  by (auto simp: home_from_meta_def split: log_entry.splits option.splits prod.splits dest: home_of_frame)

lemma settle_home_frame:
  assumes "settle_home ops st s session entry = Inr (home, st')"
  shows "js_files st' = js_files st" "js_blobs st' = js_blobs st"
    "js_projects_root st' = js_projects_root st" "js_refused st' = js_refused st"
    "map_of (js_homes st') session = Some home"
proof -
  obtain h st1 where hm: "home_from_meta ops st entry = (h, st1)" by fastforce
  note f1 = home_from_meta_frame [OF hm]
  have "js_files st' = js_files st \<and> js_blobs st' = js_blobs st \<and>
    js_projects_root st' = js_projects_root st \<and> js_refused st' = js_refused st \<and>
    map_of (js_homes st') session = Some home"
  proof (cases h)
    case None
    then show ?thesis
      using assms hm f1 home_of_frame [of st1 session home st'] by (simp add: settle_home_def)
  next
    case (Some home')
    then obtain st2 where "ensure_session_sidecar_in st1 s (home_text home')
        (project_dir_for (js_projects_root st1) home') session = Inr st2"
      "home = home'" "st' = st2\<lparr>js_homes := AList.update session home' (js_homes st2)\<rparr>"
      using assms hm by (auto simp: settle_home_def split: sum.splits)
    then show ?thesis using f1 sidecar_frame [of st1] by (simp add: update_conv)
  qed
  then show "js_files st' = js_files st" "js_blobs st' = js_blobs st"
    "js_projects_root st' = js_projects_root st" "js_refused st' = js_refused st"
    "map_of (js_homes st') session = Some home" by auto
qed

lemma session_path_cached:
  "map_of (js_homes st) session = Some home \<Longrightarrow>
   fst (session_path_of st session) = session_file (project_dir_for (js_projects_root st) home) session"
  by (simp add: session_path_of_def session_dir_of_def home_of_def)

lemma session_path_home:
  "fst (session_path_of st session) =
   session_file (project_dir_for (js_projects_root st) (fst (home_of st session))) session"
  by (simp add: session_path_of_def session_dir_of_def split: prod.splits)

lemma bl_put_get:
  "bl_put h now bs json = (i, bs') \<Longrightarrow> bl_get bs (h json) \<in> {None, Some json} \<Longrightarrow>
   i = h json \<and> bl_get bs' i = Some json \<and> bl_name bs' = bl_name bs"
  by (auto simp: bl_put_def bl_get_def Let_def split: if_splits)

lemma bl_put_keeps: "bl_put h now bs json = (i, bs') \<Longrightarrow> bl_get bs j = Some x \<Longrightarrow> bl_get bs' j = Some x"
  by (auto simp: bl_put_def bl_get_def Let_def split: if_splits)

text \<open>Putting bulk away keeps what is resolved resolved, and the new line comes back as it was.\<close>

lemma hydrate_keeps:
  assumes "bl_put h now bs json = (i, bs')" "refs_resolved (Some bs) env"
  shows "hydrate cd bs' env = hydrate cd bs env" "refs_resolved (Some bs') env"
proof -
  have name: "bl_name bs' = bl_name bs" using assms(1) by (auto simp: bl_put_def Let_def split: if_splits)
  have "env_entry env = EBlob b \<Longrightarrow> blob_store b = bl_name bs \<Longrightarrow> \<exists>x. bl_get bs (blob_id b) = Some x" for b
    using assms(2) by (auto simp: refs_resolved_def)
  moreover have "env_entry env = EPasteRef p \<Longrightarrow> \<exists>x. bl_get bs p = Some x" for p
    using assms(2) by (auto simp: refs_resolved_def)
  ultimately show "hydrate cd bs' env = hydrate cd bs env" "refs_resolved (Some bs') env"
    using name bl_put_keeps [OF assms(1)]
    by (cases "env_entry env"; fastforce simp: hydrate_def refs_resolved_def Let_def)+
qed

lemma put_bulk_frame:
  assumes "put_bulk ops st s entry = (entry', st')"
  shows "js_files st' = js_files st" "js_homes st' = js_homes st"
    "js_projects_root st' = js_projects_root st" "js_refused st' = js_refused st"
  using assms by (auto simp: put_bulk_def split: option.splits prod.splits)

lemma put_bulk_keeps:
  assumes "put_bulk ops st s entry = (entry', st')" "refs_resolved (js_blobs st) env"
  shows "hydrate_with ops (js_blobs st') env = hydrate_with ops (js_blobs st) env"
    "refs_resolved (js_blobs st') env"
  using assms hydrate_keeps
  by (auto simp: put_bulk_def hydrate_with_def externalize_if_bulky_def Let_def
      split: option.splits prod.splits)

lemma put_bulk_back:
  assumes put: "put_bulk ops st s entry = (entry', st')" and "\<not> is_reference entry"
    and ok: "bulk_ok ops (js_blobs st) entry"
  shows "hydrate_with ops (js_blobs st') (enveloped s i entry' t) = enveloped s i entry t"
    "refs_resolved (js_blobs st') (enveloped s i entry' t)"
proof -
  have env: "env_entry (enveloped s i e t) = e" for e
    by (simp add: enveloped_def with_tags_def entry_new_in_def)
  have set_env: "(enveloped s i e t)\<lparr>env_entry := e'\<rparr> = enveloped s i e' t" for e e'
    by (simp add: enveloped_def with_tags_def entry_new_in_def)
  have plain: "hydrate cd bs (enveloped s i entry t) = enveloped s i entry t"
    "refs_resolved (Some bs) (enveloped s i entry t)" for cd bs
    using \<open>\<not> is_reference entry\<close>
    by (auto simp: hydrate_def refs_resolved_def is_reference_def env split: log_entry.splits)
  have "hydrate_with ops (js_blobs st') (enveloped s i entry' t) = enveloped s i entry t \<and>
    refs_resolved (js_blobs st') (enveloped s i entry' t)"
  proof (cases "js_blobs st")
    case None
    then show ?thesis using put by (auto simp: put_bulk_def hydrate_with_def refs_resolved_def)
  next
    case (Some bs)
    show ?thesis
    proof (cases "externalizable_kind (jo_codec ops) entry")
      case None
      then show ?thesis
        using put Some plain by (auto simp: put_bulk_def externalize_if_bulky_def hydrate_with_def)
    next
      case (Some d)
      define json where "json = enc_entry (jo_codec ops) entry"
      obtain j bs' where j: "bl_put (jo_hash ops) (st_now s) bs json = (j, bs')" by fastforce
      have dec: "dec_entry (jo_codec ops) json = Some entry"
        and free: "bl_get bs (jo_hash ops json) \<in> {None, Some json}"
        using ok Some \<open>js_blobs st = Some bs\<close> by (auto simp: bulk_ok_def json_def Let_def)
      have got: "j = jo_hash ops json" "bl_get bs' (jo_hash ops json) = Some json" "bl_name bs' = bl_name bs"
        using bl_put_get [OF j free] by auto
      have "entry' = EBlob \<lparr>blob_store = bl_name bs, blob_id = j, blob_describes = d,
          blob_bytes = of_nat (utf8_len json)\<rparr>" "js_blobs st' = Some bs'"
        using put Some \<open>js_blobs st = Some bs\<close> j
        by (auto simp: put_bulk_def externalize_if_bulky_def json_def Let_def)
      then show ?thesis
        using got dec by (simp add: hydrate_with_def hydrate_def refs_resolved_def env set_env Let_def)
    qed
  qed
  then show "hydrate_with ops (js_blobs st') (enveloped s i entry' t) = enveloped s i entry t"
    "refs_resolved (js_blobs st') (enveloped s i entry' t)" by auto
qed


lemma write_line_effect:
  assumes "write_line st path now l = Inr st'"
  shows "js_blobs st' = js_blobs st" "js_homes st' = js_homes st" "js_projects_root st' = js_projects_root st"
    "js_refused st' = js_refused st"
    "read_file st' path = Stored ((case read_file st path of Stored t \<Rightarrow> t | _ \<Rightarrow> []) @ l @ [CHR 0x0A])"
  using assms by (auto simp: write_line_def read_file_def update_conv split: option.splits prod.splits)

lemma read_file_cong:
  "js_files st' = js_files st \<Longrightarrow> js_refused st' = js_refused st \<Longrightarrow> read_file st' p = read_file st p"
  by (simp add: read_file_def split: option.splits)

lemma read_meta_cong:
  "js_meta st' = js_meta st \<Longrightarrow> js_sessions_root st' = js_sessions_root st \<Longrightarrow> js_refused st' = js_refused st \<Longrightarrow>
   load_session_metadata st' i = load_session_metadata st i"
  by (simp add: load_session_metadata_def read_meta_def split: option.splits)

lemma loaded_at:
  "jsonl_loaded ops st session =
     (case load_entries_from_path ops st (fst (session_path_of st session)) session of
        Inl e \<Rightarrow> Inl e | Inr es \<Rightarrow> Inr (map (hydrate_with ops (js_blobs st)) es))"
  by (simp add: jsonl_loaded_def jsonl_load_def split: prod.splits)

text \<open>An append that went through left this behind.\<close>

lemma append_effect:
  assumes "jsonl_append_tagged ops st s session entry tags = Inr st'"
    and home: "\<forall>home st1. settle_home ops st s session entry = Inr (home, st1) \<longrightarrow> home = fst (home_of st session)"
    and put: "put_bulk ops st s entry = (entry', st2)"
  defines "path \<equiv> fst (session_path_of st session)"
  shows "fst (session_path_of st' session) = path" "js_blobs st' = js_blobs st2"
    "read_file st' path = Stored ((case read_file st path of Stored t \<Rightarrow> t | _ \<Rightarrow> []) @
       enc_env (jo_codec ops) (enveloped s session entry' tags) @ [CHR 0x0A])"
proof -
  obtain h st1 where settle: "settle_home ops st s session entry = Inr (h, st1)"
    using assms(1) by (auto simp: jsonl_append_tagged_def split: sum.splits)
  note f1 = settle_home_frame [OF settle]
  have path: "session_file (project_dir_for (js_projects_root st1) h) session = path"
    using home settle f1(3) by (simp add: path_def session_path_home)
  obtain e1 st2' where put1: "put_bulk ops st1 s entry = (e1, st2')" by fastforce
  have e1: "e1 = entry'" and blobs: "js_blobs st2' = js_blobs st2"
    using put put1 f1(2) by (auto simp: put_bulk_def split: option.splits prod.splits)
  note f2 = put_bulk_frame [OF put1]
  define l where "l = enc_env (jo_codec ops) (enveloped s session entry' tags)"
  obtain st3 where written: "write_line st2' path (st_now s) l = Inr st3"
    and final: "st' = st3 \<or> (\<exists>c d w. add_counters_in st3 s c d session w = Inr st')"
    using assms(1) settle put1 e1 path by (auto simp: jsonl_append_tagged_def l_def Let_def split: sum.splits)
  note f3 = write_line_effect [OF written]
  have tail: "js_files st' = js_files st3 \<and> js_blobs st' = js_blobs st3 \<and> js_homes st' = js_homes st3 \<and>
      js_projects_root st' = js_projects_root st3 \<and> js_refused st' = js_refused st3"
    using final by (auto dest: counters_frame)
  have "map_of (js_homes st') session = Some h" using tail f3 f2 f1 by simp
  then show "fst (session_path_of st' session) = path"
    using tail f3 f2 path by (simp add: session_path_cached)
  show "js_blobs st' = js_blobs st2" using tail f3 blobs by simp
  have "read_file st2' path = read_file st path"
    using f2 f1 by (intro read_file_cong) simp_all
  then show "read_file st' path = Stored ((case read_file st path of Stored t \<Rightarrow> t | _ \<Rightarrow> []) @
       enc_env (jo_codec ops) (enveloped s session entry' tags) @ [CHR 0x0A])"
    using f3(5) read_file_cong [of st' st3] tail by (simp add: l_def)
qed

lemma jsonl_appended:
  assumes sound: "jsonl_sound ops st session"
    and writable: "jsonl_writable ops st s session entry tags"
    and ok: "jsonl_append_tagged ops st s session entry tags = Inr st'"
  shows "jsonl_loaded ops st' session =
      Inr (entries_or_none (jsonl_loaded ops st session) @ [enveloped s session entry tags])
    \<and> jsonl_sound ops st' session"
proof -
  obtain entry' st2 where put: "put_bulk ops st s entry = (entry', st2)" by fastforce
  define path where "path = fst (session_path_of st session)"
  define l where "l = enc_env (jo_codec ops) (enveloped s session entry' tags)"
  define old where "old = (case read_file st path of Stored t \<Rightarrow> t | _ \<Rightarrow> [])"
  have ref: "\<not> is_reference entry" and bulk: "bulk_ok ops (js_blobs st) entry"
    and line: "CHR 0x0A \<notin> set l" "drop_cr l = l" "trim l \<noteq> []"
      "dec_env (jo_codec ops) l = Some (enveloped s session entry' tags)"
    using writable put by (auto simp: jsonl_writable_def line_ok_def l_def Let_def)
  have home: "\<forall>home st1. settle_home ops st s session entry = Inr (home, st1) \<longrightarrow> home = fst (home_of st session)"
    using writable by (auto simp: jsonl_writable_def)
  note eff = append_effect [OF ok home put, folded path_def]
  have old_ok: "complete_log old" "\<exists>es. parse_lines (dec_env (jo_codec ops)) 0 (text_lines old) = Inr es \<and>
      list_all (refs_resolved (js_blobs st)) es \<and>
      entries_or_none (jsonl_loaded ops st session) = map (hydrate_with ops (js_blobs st)) es"
  proof -
    have nil: "text_lines [] = []" by (simp add: text_lines_def)
    show "complete_log old" "\<exists>es. parse_lines (dec_env (jo_codec ops)) 0 (text_lines old) = Inr es \<and>
      list_all (refs_resolved (js_blobs st)) es \<and>
      entries_or_none (jsonl_loaded ops st session) = map (hydrate_with ops (js_blobs st)) es"
      using sound unfolding jsonl_sound_def loaded_at load_entries_from_path_def path_def [symmetric] old_def
      by (auto split: stored.splits sum.splits simp: complete_log_def nil)
  qed
  then obtain es where es: "parse_lines (dec_env (jo_codec ops)) 0 (text_lines old) = Inr es"
    "list_all (refs_resolved (js_blobs st)) es"
    "entries_or_none (jsonl_loaded ops st session) = map (hydrate_with ops (js_blobs st)) es" by blast
  have parse: "parse_lines (dec_env (jo_codec ops)) 0 (text_lines (old @ l @ [CHR 0x0A])) =
      Inr (es @ [enveloped s session entry' tags])"
    unfolding text_lines_snoc [OF old_ok(1) line(1)] parse_lines_append
    using es(1) line by simp
  have restored: "hydrate_with ops (js_blobs st') (enveloped s session entry' tags) = enveloped s session entry tags"
    "refs_resolved (js_blobs st') (enveloped s session entry' tags)"
    using put_bulk_back [OF put ref bulk] eff(2) by simp_all
  have kept: "map (hydrate_with ops (js_blobs st')) es = map (hydrate_with ops (js_blobs st)) es"
    "list_all (refs_resolved (js_blobs st')) es"
    using es(2) put_bulk_keeps [OF put] eff(2) by (auto simp: list_all_iff)
  have stored: "read_file st' path = Stored (old @ l @ [CHR 0x0A])"
    using eff(3) by (simp add: old_def l_def)
  have "jsonl_loaded ops st' session =
      Inr (entries_or_none (jsonl_loaded ops st session) @ [enveloped s session entry tags])"
    unfolding loaded_at [of ops st'] load_entries_from_path_def eff(1) stored
    using parse kept restored es(3) by simp
  moreover have "jsonl_sound ops st' session"
    unfolding jsonl_sound_def eff(1) stored using parse kept restored by (simp add: complete_log_def)
  ultimately show ?thesis ..
qed

interpretation jsonl: history_log "jsonl_append_tagged ops" "jsonl_loaded ops" "jsonl_sound ops"
  "jsonl_writable ops" for ops
  by unfold_locales (rule jsonl_appended)


section \<open>What a load returns\<close>

text \<open>C26. Whatever was appended is what a load returns, in order: over any run of appends that went through, the
  file backend (lines, moved-out content, changing cache of projects) gives back the earlier log
  followed by exactly the new entries with their ids, times and tags.\<close>
theorem jsonl_log_in_order:
  assumes "jsonl_sound ops st i"
    and "all_writable (jsonl_append_tagged ops) (jsonl_writable ops) st i xs"
    and "append_all (jsonl_append_tagged ops) st i xs = Inr st'"
  shows "entries_or_none (jsonl_loaded ops st' i) =
      entries_or_none (jsonl_loaded ops st i) @ map (\<lambda>(s, e, t). enveloped s i e t) xs"
  using jsonl.load_in_order [OF assms] by blast

definition disk_ops :: jsonl_ops where
  "disk_ops =
     \<lparr>jo_codec = \<lparr>enc_env = (\<lambda>e. case env_entry e of EUser _ \<Rightarrow> ''plain'' | _ \<Rightarrow> ''moved''),
        dec_env = (\<lambda>l. if l = ''plain'' then Some (enveloped \<lparr>st_id = ''e1'', st_now = 5, st_text = ''t''\<rparr> ''s''
                           (EUser [CbText ''hi'' None]) no_tags)
                      else if l = ''moved'' then Some (enveloped \<lparr>st_id = ''e2'', st_now = 6, st_text = ''t''\<rparr> ''s''
                           (EBlob \<lparr>blob_store = ''paste'', blob_id = ''h'', blob_describes = ''user'', blob_bytes = 3\<rparr>) no_tags)
                      else None),
        enc_entry = (\<lambda>e. ''img''),
        dec_entry = (\<lambda>b. if b = ''img'' then Some (EUser [CbImage (ImageBase64 ''png'' ''xx'')]) else None),
        blocks_len = length, result_len = (\<lambda>_. 0)\<rparr>,
      jo_hash = (\<lambda>_. ''h''), jo_realpath = Stored, jo_parse_id = Some,
      jo_read = \<lparr>ro_projection = default_projection, ro_json = (\<lambda>_. []), ro_ellipsis = ''.'', ro_time = (\<lambda>_. ''t'')\<rparr>\<rparr>"

definition empty_disk :: jsonl_store where
  "empty_disk = \<lparr>js_projects_root = ''/p'', js_sessions_root = ''/s'', js_cwd = ''/w'', js_homes = [],
     js_blobs = Some \<lparr>bl_name = ''paste'', bl_items = []\<rparr>, js_files = [], js_meta = [], js_refused = (\<lambda>_. None)\<rparr>"

definition two_appends :: "(stamp \<times> log_entry \<times> entry_tags) list" where
  "two_appends =
     [(\<lparr>st_id = ''e1'', st_now = 5, st_text = ''t''\<rparr>, EUser [CbText ''hi'' None], no_tags),
      (\<lparr>st_id = ''e2'', st_now = 6, st_text = ''t''\<rparr>, EUser [CbImage (ImageBase64 ''png'' ''xx'')], no_tags)]"

lemma jsonl_log_in_order_witness:
  "case append_all (jsonl_append_tagged disk_ops) empty_disk ''s'' two_appends of
     Inl _ \<Rightarrow> False
   | Inr st' \<Rightarrow>
       entries_or_none (jsonl_loaded disk_ops st' ''s'') = map (\<lambda>(s, e, t). enveloped s ''s'' e t) two_appends"
proof -
  have fine: "\<not> isl (append_all (jsonl_append_tagged disk_ops) empty_disk ''s'' two_appends)" by code_simp
  have sound: "jsonl_sound disk_ops empty_disk ''s''" by code_simp
  have writable: "all_writable (jsonl_append_tagged disk_ops) (jsonl_writable disk_ops) empty_disk ''s'' two_appends"
    by code_simp
  have none: "entries_or_none (jsonl_loaded disk_ops empty_disk ''s'') = []" by code_simp
  show ?thesis
    using fine jsonl_log_in_order [OF sound writable] none by (auto split: sum.splits)
qed

text \<open>A line cut short by a crash takes the log with it: the next append continues that line, and from then on
  every load fails, also for the lines before.\<close>

theorem torn_line_loses_log:
  assumes "read_file st (fst (session_path_of st i)) = Stored (old @ torn)" "complete_log old"
    and "CHR 0x0A \<notin> set torn" "CHR 0x0A \<notin> set l" "trim (drop_cr (torn @ l)) \<noteq> []"
    and "dec_env (jo_codec ops) (drop_cr (torn @ l)) = None"
    and "write_line st (fst (session_path_of st i)) now l = Inr st'" "map_of (js_homes st) i = Some home"
  shows "\<exists>e. jsonl_loaded ops st' i = Inl e"
proof -
  define path where "path = fst (session_path_of st i)"
  note eff = write_line_effect [OF assms(7)]
  have path': "fst (session_path_of st' i) = path"
    using assms(8) eff by (simp add: path_def session_path_cached)
  have stored: "read_file st' path = Stored (old @ (torn @ l) @ [CHR 0x0A])"
    using eff(5) assms(1) by (simp add: path_def)
  have "text_lines (old @ (torn @ l) @ [CHR 0x0A]) = text_lines old @ [drop_cr (torn @ l)]"
    using assms(2-4) by (intro text_lines_snoc) auto
  then have "\<exists>e. parse_lines (dec_env (jo_codec ops)) 0 (text_lines (old @ (torn @ l) @ [CHR 0x0A])) = Inl e"
    using assms(5,6) by (auto simp: parse_lines_append split: sum.splits)
  then show ?thesis
    unfolding loaded_at load_entries_from_path_def path' stored by auto
qed

section \<open>Finding sessions\<close>

definition row_of :: "read_ops \<Rightarrow> loader \<Rightarrow> string option \<Rightarrow> string \<Rightarrow> (int option \<times> session_summary) option" where
  "row_of ro ld n sid =
     (case ld sid of
        Inl _ \<Rightarrow> None
      | Inr entries \<Rightarrow>
          (let messages = project_messages_with entries (ro_projection ro)
           in if matches_needle ro n sid messages then Some (summary_row ro sid entries messages) else None))"

lemma find_rows_spec: "find_rows ro ld n sids = Inr rows \<Longrightarrow> rows = List.map_filter (row_of ro ld n) sids"
proof (induction sids arbitrary: rows)
  case (Cons sid sids)
  then show ?case
    by (auto simp: row_of_def Let_def List.map_filter_simps
        split: sum.splits history_error.splits if_splits)
qed (simp add: List.map_filter_simps)

lemma newest_first_total: "newest_first a b \<or> newest_first b a"
  by (auto simp: newest_first_def)

lemma newest_first_trans: "newest_first a b \<Longrightarrow> newest_first b c \<Longrightarrow> newest_first a c"
  by (auto simp: newest_first_def)

lemma sorted_take_drop:
  "sorted_wrt R xs \<Longrightarrow> x \<in> set (take n xs) \<Longrightarrow> y \<in> set (drop n xs) \<Longrightarrow> R x y"
  by (metis append_take_drop_id sorted_wrt_append)

text \<open>The default \<open>find_sessions\<close> keeps its contract: at most \<open>limit\<close> answers, newest first with ties
  broken by id, only sessions whose id or rendered text contains the needle, and a matching session is
  left out only when the answer is full of newer ones.\<close>
theorem find_sessions_contract:
  assumes "find_sessions_default ro ld sessions q = Inr out"
  defines "matching \<equiv> set (List.map_filter (row_of ro ld (needle q)) sessions)"
  shows "\<exists>rows. out = map snd rows \<and> length rows \<le> q_limit q \<and> sorted_wrt newest_first rows \<and>
      set rows \<subseteq> matching \<and>
      (\<forall>left_out \<in> matching - set rows. length rows = q_limit q \<and> (\<forall>r \<in> set rows. newest_first r left_out))"
proof (cases "q_limit q = 0")
  case True
  then show ?thesis using assms by (auto simp: find_sessions_default_def)
next
  case False
  then obtain found where found: "find_rows ro ld (needle q) sessions = Inr found"
    "out = map snd (take (q_limit q) (sort_by newest_first found))"
    using assms(1) by (auto simp: find_sessions_default_def split: sum.splits)
  define all where "all = sort_by newest_first found"
  have matching: "matching = set all"
    using find_rows_spec [OF found(1)] by (simp add: matching_def all_def)
  have sorted: "sorted_wrt newest_first all"
    unfolding all_def by (rule sorted_sort_by) (use newest_first_total newest_first_trans in blast)+
  show ?thesis
  proof (intro exI [of _ "take (q_limit q) all"] conjI ballI)
    show "out = map snd (take (q_limit q) all)" using found(2) by (simp add: all_def)
    show "sorted_wrt newest_first (take (q_limit q) all)" using sorted by (simp add: sorted_wrt_take)
    show "set (take (q_limit q) all) \<subseteq> matching" by (auto simp: matching dest: in_set_takeD)
  next
    fix x assume x: "x \<in> matching - set (take (q_limit q) all)"
    then have dropped: "x \<in> set (drop (q_limit q) all)"
      by (metis DiffE Un_iff append_take_drop_id matching set_append)
    then show "length (take (q_limit q) all) = q_limit q"
      by (cases "q_limit q \<le> length all") auto
    fix r assume "r \<in> set (take (q_limit q) all)"
    then show "newest_first r x" using sorted_take_drop [OF sorted] dropped by blast
  qed simp
qed

definition mem_two :: mem_store where
  "mem_two = mem_append (mem_append mem_new \<lparr>st_id = ''a'', st_now = 1, st_text = ''t''\<rparr> ''s1'' (EUser [CbText ''hi'' None]))
     \<lparr>st_id = ''b'', st_now = 2, st_text = ''t''\<rparr> ''s2'' (EUser [CbText ''hi'' None])"

lemma find_sessions_contract_witness:
  "\<exists>out. find_sessions_default (jo_read disk_ops) (mem_load mem_two) (mem_list_sessions mem_two) (recent_query 1) = Inr out
    \<and> length out \<le> 1"
proof -
  have "\<not> isl (find_sessions_default (jo_read disk_ops) (mem_load mem_two) (mem_list_sessions mem_two) (recent_query 1))"
    by code_simp
  then obtain out where
    "find_sessions_default (jo_read disk_ops) (mem_load mem_two) (mem_list_sessions mem_two) (recent_query 1) = Inr out"
    by (auto simp: isl_def) (metis isl_def sum.exhaust)
  from find_sessions_contract [OF this] this show ?thesis
    by (auto simp: recent_query_def)
qed

text \<open>The file backend's search of one project looks at a row before it asks whether there is room: a limit of
  nothing can be answered with a session.\<close>

theorem search_ignores_zero_limit:
  assumes "session_files_by_mtime ops st dir None = (sid, path, mtime) # rows"
    and "jsonl_load ops st sid = (Inr entries, st1)" "contains_str sid text"
  shows "\<exists>s st'. search_one_project ops st dir text 0 = (Inr [s], st')"
  using assms by (simp add: search_one_project_def Let_def)

text \<open>The search of all projects reads lines without putting moved-out content back: a message that was
  moved out is not found, although a load of the session shows it.\<close>

theorem search_all_reads_unhydrated:
  assumes "read_file st path = Stored text" "fst (session_path_of st sid) = path"
    and "parse_lines (dec_env (jo_codec ops)) 0 (text_lines text) = Inr es"
  shows "load_entries_from_path ops st path sid = Inr es"
    "jsonl_loaded ops st sid = Inr (map (hydrate_with ops (js_blobs st)) es)"
  using assms by (simp_all add: load_entries_from_path_def loaded_at)

text \<open>One unreadable line anywhere fails the search of all projects, which the listing of recent
  sessions takes care not to do.\<close>

theorem search_all_fails_on_one_bad_log:
  assumes "load_entries_from_path ops st path sid = Inl e"
  shows "search_dirs_loop ops st query limit flt out ((sid, path, mtime) # rows) = Inl e"
  using assms by simp

theorem recent_skips_bad_logs:
  assumes "jsonl_load ops st sid = (Inl (HeParse n), st1)"
  shows "recent_loop ops st FullDetail ((sid, path, mtime) # rows) = recent_loop ops st1 FullDetail rows"
  using assms by (auto simp: session_summary_of_def split: prod.splits sum.splits)

text \<open>A session is found again after a restart: once its \<open>Meta\<close> line went through, a process that
  remembers nothing resolves it, through the sidecar, to the file the line was written to.\<close>
theorem restart_finds_log:
  assumes "jsonl_append_tagged ops st s session (EMeta m) tags = Inr st'"
    and "fst (home_of st' session) \<noteq> Some []"
  shows "fst (session_path_of (st'\<lparr>js_homes := []\<rparr>) session) = fst (session_path_of st' session) \<and>
    read_file st' (fst (session_path_of st' session)) \<noteq> Absent"
proof -
  obtain h st1 where settle: "settle_home ops st s session (EMeta m) = Inr (h, st1)"
    using assms(1) by (auto simp: jsonl_append_tagged_def split: sum.splits)
  obtain e2 st2 where put: "put_bulk ops st1 s (EMeta m) = (e2, st2)" by fastforce
  define path where "path = session_file (project_dir_for (js_projects_root st1) h) session"
  obtain l where written: "write_line st2 path (st_now s) l = Inr st'"
    using assms(1) settle put
    by (auto simp: jsonl_append_tagged_def add_counters_in_def counter_delta_def path_def Let_def split: sum.splits)
  note f1 = settle_home_frame [OF settle] and f2 = put_bulk_frame [OF put] and f3 = write_line_effect [OF written]
  have cached: "map_of (js_homes st') session = Some h" using f1 f2 f3 by simp
  have path': "fst (session_path_of st' session) = path"
    using f1 f2 f3 by (simp add: session_path_cached [OF cached] path_def)
  have roots: "js_meta st' = js_meta st1 \<and> js_sessions_root st' = js_sessions_root st1 \<and> js_refused st' = js_refused st1"
    using written put by (auto simp: write_line_def put_bulk_def split: stored.splits option.splits prod.splits)
  have "h = fst (home_of st' session)" using cached by (simp add: home_of_def)
  then have "h \<noteq> Some []" using assms(2) by simp
  have "\<exists>x. load_session_metadata st1 session = Some x \<and> md_canonical_cwd x = home_text h"
    using settle
    by (auto simp: settle_home_def home_from_meta_def ensure_session_sidecar_in_def write_meta_def
        load_session_metadata_def read_meta_def update_conv
        split: option.splits prod.splits sum.splits)
  then have "\<exists>x. load_session_metadata (st'\<lparr>js_homes := []\<rparr>) session = Some x \<and> md_canonical_cwd x = home_text h"
    using roots read_meta_cong [of "st'\<lparr>js_homes := []\<rparr>" st1 session] by simp
  then have "resolve_home (st'\<lparr>js_homes := []\<rparr>) session = h"
    using \<open>h \<noteq> Some []\<close> by (auto simp: resolve_home_def home_text_def split: option.splits)
  then have "fst (session_path_of (st'\<lparr>js_homes := []\<rparr>) session) = path"
    using f1 f2 f3 by (simp add: path_def session_path_home home_of_def Let_def)
  then show ?thesis using f3(5) path' by simp
qed

definition disk_meta :: meta where
  "disk_meta = \<lparr>meta_cwd = ''/w'', meta_started_at = 0, meta_model = ''m'', meta_permission_mode = ''default'',
     meta_engine_version = ''1'', meta_attacode_version = ''1'', meta_parent_session_id = None,
     meta_scene = None, meta_project_root = Some ''/proj'', meta_session_kind = Primary, meta_schema_version = 1\<rparr>"

lemma restart_finds_log_witness:
  "case jsonl_append_tagged disk_ops empty_disk \<lparr>st_id = ''e1'', st_now = 5, st_text = ''t''\<rparr> ''s'' (EMeta disk_meta) no_tags of
     Inl _ \<Rightarrow> False
   | Inr st' \<Rightarrow> fst (session_path_of (st'\<lparr>js_homes := []\<rparr>) ''s'') = fst (session_path_of st' ''s'')"
proof -
  define r where
    "r = jsonl_append_tagged disk_ops empty_disk \<lparr>st_id = ''e1'', st_now = 5, st_text = ''t''\<rparr> ''s'' (EMeta disk_meta) no_tags"
  have "case r of Inl _ \<Rightarrow> False | Inr st' \<Rightarrow> fst (home_of st' ''s'') \<noteq> Some []" unfolding r_def by code_simp
  then obtain st' where st': "r = Inr st'" "fst (home_of st' ''s'') \<noteq> Some []"
    by (auto split: sum.splits)
  show ?thesis
    using restart_finds_log [OF st'(1) [unfolded r_def] st'(2)] st'(1) unfolding r_def by simp
qed

section \<open>Observers\<close>

datatype observation = Observed string log_entry | Forgotten string

fun observe_step :: "append_counts \<Rightarrow> observation \<Rightarrow> append_counts" where
  "observe_step ac (Observed i e) = counts_observed ac i e"
| "observe_step ac (Forgotten i) = counts_forget ac i"

text \<open>The entries of a session since it was last forgotten.\<close>

definition remembered :: "observation list \<Rightarrow> string \<Rightarrow> log_entry list" where
  "remembered obs i =
     foldl (\<lambda>seen ob. case ob of
        Observed j e \<Rightarrow> (if i = j then seen @ [e] else seen)
      | Forgotten j \<Rightarrow> (if i = j then [] else seen)) [] obs"

definition counts_sum :: "append_counts \<Rightarrow> 64 word" where
  "counts_sum ac = sum_list (map (\<lambda>(i, ks). sum_list (map snd ks)) (ac_per_session ac))"

lemma sum_update:
  fixes f :: "'a \<times> 'b \<Rightarrow> 'c :: ab_group_add"
  assumes "distinct (map fst xs)"
  shows "sum_list (map f (AList.update k v xs)) =
    sum_list (map f xs) + f (k, v) - (case map_of xs k of Some w \<Rightarrow> f (k, w) | None \<Rightarrow> 0)"
  using assms by (induction xs) (auto split: option.splits)

lemma delete_absent: "k \<notin> fst ` set xs \<Longrightarrow> AList.delete k xs = xs"
  by (induction xs) (auto simp: AList.delete_eq)

lemma sum_delete:
  fixes f :: "'a \<times> 'b \<Rightarrow> 'c :: ab_group_add"
  assumes "distinct (map fst xs)"
  shows "sum_list (map f (AList.delete k xs)) =
    sum_list (map f xs) - (case map_of xs k of Some w \<Rightarrow> f (k, w) | None \<Rightarrow> 0)"
  using assms
proof (induction xs)
  case (Cons x xs)
  obtain a w where x: "x = (a, w)" by fastforce
  show ?case
  proof (cases "a = k")
    case True
    then have "AList.delete k xs = xs" using Cons.prems x delete_absent by force
    with True x show ?thesis by simp
  next
    case False
    with Cons x show ?thesis by (simp add: add_diff_eq)
  qed
qed simp

lemma set_updated_subset: "set (AList.update k v xs) \<subseteq> insert (k, v) (set xs)"
  by (induction xs) auto

lemma set_delete_subset: "set (AList.delete k xs) \<subseteq> set xs"
  by (auto simp: AList.delete_eq)

definition counts_ok :: "append_counts \<Rightarrow> bool" where
  "counts_ok ac \<longleftrightarrow>
     distinct (map fst (ac_per_session ac)) \<and>
     list_all (\<lambda>(i, ks). distinct (map fst ks)) (ac_per_session ac) \<and>
     ac_total ac = counts_sum ac"

lemma counts_ok_observed: "counts_ok ac \<Longrightarrow> counts_ok (counts_observed ac i e)"
proof -
  assume ok: "counts_ok ac"
  then have outer: "distinct (map fst (ac_per_session ac))"
    and inner: "\<And>j ks. (j, ks) \<in> set (ac_per_session ac) \<Longrightarrow> distinct (map fst ks)"
    and sums: "ac_total ac = counts_sum ac"
    by (auto simp: counts_ok_def list_all_iff)
  have kinds: "distinct (map fst (kinds_of ac i))"
    using inner by (auto simp: kinds_of_def dest: map_of_SomeD split: option.splits)
  show "counts_ok (counts_observed ac i e)"
    unfolding counts_ok_def
  proof (intro conjI)
    show "distinct (map fst (ac_per_session (counts_observed ac i e)))"
      using outer by (simp add: counts_observed_def Let_def distinct_update)
    show "list_all (\<lambda>(i, ks). distinct (map fst ks)) (ac_per_session (counts_observed ac i e))"
      using inner kinds
      by (auto simp: counts_observed_def Let_def distinct_update list_all_iff
          dest!: subsetD [OF set_updated_subset])
    show "ac_total (counts_observed ac i e) = counts_sum (counts_observed ac i e)"
    proof -
      define k where "k = entry_kind e"
      define n where "n = (case map_of (kinds_of ac i) k of Some n \<Rightarrow> n | None \<Rightarrow> 0)"
      have one_more: "sum_list (map snd (AList.update k (n + 1) (kinds_of ac i))) = sum_list (map snd (kinds_of ac i)) + 1"
        by (simp add: sum_update [OF kinds] n_def split: option.splits)
      have before: "(case map_of (ac_per_session ac) i of None \<Rightarrow> 0
          | Some w \<Rightarrow> (case (i, w) of (i, ks) \<Rightarrow> sum_list (map snd ks))) = sum_list (map snd (kinds_of ac i))"
        by (simp add: kinds_of_def split: option.splits)
      show ?thesis
        using sums by (simp add: counts_observed_def counts_sum_def Let_def sum_update [OF outer] one_more before
            flip: k_def n_def)
    qed
  qed
qed

lemma counts_ok_forget: "counts_ok ac \<Longrightarrow> counts_ok (counts_forget ac i)"
proof (cases "map_of (ac_per_session ac) i")
  case (Some ks)
  moreover assume "counts_ok ac"
  ultimately show ?thesis
    by (auto simp: counts_ok_def counts_forget_def counts_sum_def sum_delete distinct_delete list_all_iff
        dest: subsetD [OF set_delete_subset])
qed (simp add: counts_forget_def)

lemma counts_ok_run: "counts_ok ac \<Longrightarrow> counts_ok (foldl observe_step ac obs)"
proof (induction obs arbitrary: ac)
  case (Cons ob obs)
  then have "counts_ok (observe_step ac ob)"
    by (cases ob) (simp_all add: counts_ok_observed counts_ok_forget)
  with Cons.IH show ?case by simp
qed simp

lemma count_step:
  "counted_of_kind (observe_step ac ob) i k =
     (case ob of
        Observed j e \<Rightarrow> counted_of_kind ac i k + (if i = j \<and> entry_kind e = k then 1 else 0)
      | Forgotten j \<Rightarrow> (if i = j then 0 else counted_of_kind ac i k))"
  by (cases ob)
    (auto simp: counted_of_kind_def kinds_of_def counts_observed_def counts_forget_def Let_def update_conv
      AList.delete_conv split: option.splits)

lemma entries_step:
  assumes "counts_ok ac"
  shows "counted_entries (observe_step ac ob) i =
     (case ob of
        Observed j e \<Rightarrow> counted_entries ac i + (if i = j then 1 else 0)
      | Forgotten j \<Rightarrow> (if i = j then 0 else counted_entries ac i))"
proof (cases ob)
  case (Observed j e)
  have kinds: "distinct (map fst (kinds_of ac j))"
    using assms by (auto simp: counts_ok_def list_all_iff kinds_of_def dest: map_of_SomeD split: option.splits)
  show ?thesis
  proof (cases "i = j")
    case True
    then have "kinds_of (observe_step ac ob) i =
        AList.update (entry_kind e) ((case map_of (kinds_of ac i) (entry_kind e) of Some n \<Rightarrow> n | None \<Rightarrow> 0) + 1) (kinds_of ac i)"
      using Observed by (simp add: counts_observed_def Let_def kinds_of_def update_conv)
    then show ?thesis
      using True Observed kinds by (simp add: counted_entries_def sum_update split: option.splits)
  next
    case False
    then show ?thesis
      using Observed by (simp add: counted_entries_def counts_observed_def Let_def kinds_of_def update_conv)
  qed
next
  case (Forgotten j)
  then show ?thesis
    by (auto simp: counted_entries_def counts_forget_def kinds_of_def AList.delete_conv split: option.splits)
qed

lemma counts_ok_new: "counts_ok counts_new"
  by (simp add: counts_ok_def counts_new_def counts_sum_def)

text \<open>The observer's counters are right whatever was written and forgotten: per kind and per session they
  count the entries since the session was last forgotten, and the total is always the sum over the
  sessions still remembered.\<close>
theorem append_counts_match:
  "let ac = foldl observe_step counts_new obs
   in counted_of_kind ac i k = of_nat (length (filter (\<lambda>e. entry_kind e = k) (remembered obs i))) \<and>
      counted_entries ac i = of_nat (length (remembered obs i)) \<and>
      ac_total ac = counts_sum ac"
proof (induction obs rule: rev_induct)
  case Nil
  show ?case
    by (simp add: counted_of_kind_def counted_entries_def kinds_of_def counts_new_def counts_sum_def remembered_def)
next
  case (snoc ob obs)
  have ok: "counts_ok (foldl observe_step counts_new obs)"
    "counts_ok (foldl observe_step counts_new (obs @ [ob]))"
    by (rule counts_ok_run [OF counts_ok_new])+
  have "counts_ok (observe_step (foldl observe_step counts_new obs) ob)" using ok(2) by simp
  with snoc show ?case
    by (auto simp: Let_def count_step entries_step [OF ok(1)] remembered_def counts_ok_def
        split: observation.splits)
qed

section \<open>Blobs\<close>

text \<open>Storing content that is already there leaves its file's time: a cleanup takes content that a line
  written a moment ago refers to, and the line loads with a gap.\<close>

theorem cleanup_takes_fresh_content:
  assumes "map_of (bl_items bs) (h json) = Some (json, modified)" "distinct (map fst (bl_items bs))"
    and "PASTE_MAX_AGE < now - modified" "externalizable_kind cd entry \<noteq> None" "enc_entry cd entry = json"
  shows "\<exists>env'. fst (externalize_if_bulky cd h now bs entry) = EBlob env' \<and> blob_id env' = h json \<and>
    bl_get (snd (paste_cleanup now (snd (externalize_if_bulky cd h now bs entry)))) (h json) = None"
proof -
  have same: "snd (externalize_if_bulky cd h now bs entry) = bs"
    and ref: "\<exists>env'. fst (externalize_if_bulky cd h now bs entry) = EBlob env' \<and> blob_id env' = h json"
    using assms(1,4,5) by (auto simp: externalize_if_bulky_def bl_put_def Let_def split: option.splits)
  have "x \<notin> set (bl_items (snd (paste_cleanup now bs)))" if at: "fst x = h json" for x
  proof
    assume kept: "x \<in> set (bl_items (snd (paste_cleanup now bs)))"
    obtain y where y: "x = (h json, y)" using at by (metis prod.collapse)
    from kept have x: "x \<in> set (bl_items bs)" "\<not> PASTE_MAX_AGE < now - snd (snd x)"
      by (auto simp: paste_cleanup_def Let_def)
    then have "map_of (bl_items bs) (h json) = Some (snd x)"
      using assms(2) y by simp
    with x(2) assms(1,3) show False by simp
  qed
  then have "map_of (bl_items (snd (paste_cleanup now bs))) (h json) = None"
    by (force simp: map_of_eq_None_iff)
  then show ?thesis using ref same by (auto simp: bl_get_def)
qed

end
