(* ===== verification/SessionProps.thy ===== *)
theory SessionProps
  imports Session HistoryProps
begin

text \<open>
  The log follows the conversation: over any run of pushes, persists and compactions, what a store
  gives back is the part of the conversation that was persisted, so a resume restores it.  Proved once
  for any store that keeps the contract of \<open>history_log\<close> and reads conversation lines as the engine
  does (locale \<open>session_log\<close>), and instantiated for both shipped stores under both shipped projections.
\<close>

section \<open>What a trip through the log keeps\<close>

fun normal_block :: "model_block \<Rightarrow> model_block" where
  "normal_block (MToolResult i t None) = MToolResult i t (Some False)"
| "normal_block b = b"

definition normal_message :: "model_message \<Rightarrow> model_message" where
  "normal_message m = m\<lparr>content := map normal_block (content m)\<rparr>"

definition recorded :: "model_message list \<Rightarrow> model_message list" where
  "recorded ms = map normal_message (filter (\<lambda>m. role m \<noteq> RoleSystem) ms)"

lemma recorded_append [simp]: "recorded (xs @ ys) = recorded xs @ recorded ys"
  by (simp add: recorded_def)

lemma recorded_Nil [simp]: "recorded [] = []"
  by (simp add: recorded_def)

lemma block_there_and_back: "to_model_block sb (to_content_block b) = Some (normal_block b)"
  by (cases b rule: normal_block.cases) auto

lemma blocks_there_and_back: "List.map_filter (to_model_block sb) (map to_content_block bs) = map normal_block bs"
  by (induction bs) (simp_all add: List.map_filter_simps block_there_and_back)

lemma message_there_and_back:
  "model_message_to_message m = Some msg \<Longrightarrow> message_to_model_message sb msg = Some (normal_message m)"
  by (cases m) (auto simp: model_message_to_message_def normal_message_def Let_def blocks_there_and_back
      split: message_role.splits)

lemma messages_there_and_back:
  "List.map_filter (message_to_model_message sb) (List.map_filter model_message_to_message ms) = recorded ms"
proof (induction ms)
  case (Cons m ms)
  show ?case
  proof (cases "model_message_to_message m")
    case None
    then have "role m = RoleSystem" by (auto simp: model_message_to_message_def Let_def split: message_role.splits)
    with None Cons show ?thesis by (simp add: List.map_filter_simps recorded_def)
  next
    case (Some msg)
    then have "role m \<noteq> RoleSystem" by (auto simp: model_message_to_message_def Let_def)
    with Some Cons message_there_and_back [OF Some] show ?thesis
      by (simp add: List.map_filter_simps recorded_def)
  qed
qed (simp add: List.map_filter_simps)

lemma map_filter_snoc: "List.map_filter f (xs @ [x]) = List.map_filter f xs @ (case f x of Some y \<Rightarrow> [y] | None \<Rightarrow> [])"
  by (induction xs) (auto simp: List.map_filter_simps split: option.splits)

lemma drop_ConsD: "m # ms = drop p xs \<Longrightarrow> p < length xs \<and> xs ! p = m \<and> ms = drop (Suc p) xs"
  by (metis Cons_nth_drop_Suc drop_all leI list.inject list.simps(3))

section \<open>Runs of a session\<close>

datatype session_op =
    OpPush model_message
  | OpPushFrom model_message message_origin
  | OpReply model_message usage
  | OpTurn "string option"
  | OpPersist
  | OpCompact "model_message list" "64 word" "64 word"
  | OpClear

definition session_step ::
  "'st store_ops \<Rightarrow> (nat \<Rightarrow> stamp) \<Rightarrow> session_op \<Rightarrow> session \<Rightarrow> 'st option \<Rightarrow> session_error option \<times> session \<times> 'st option"
where
  "session_step ops stamps op s store =
     (case op of
        OpPush m \<Rightarrow> (None, push_message (st_now (stamps 0)) m s, store)
      | OpPushFrom m og \<Rightarrow> (None, push_message_from (st_now (stamps 0)) m og s, store)
      | OpReply m u \<Rightarrow> (None, push_reply (st_now (stamps 0)) m u s, store)
      | OpTurn t \<Rightarrow> (None, set_turn_id t s, store)
      | OpPersist \<Rightarrow> persist ops stamps s store
      | OpCompact ms b a \<Rightarrow> replace_messages_after_compact ops (stamps 0) ms b a s store
      | OpClear \<Rightarrow> session_clear ops (stamps 0) s store)"

text \<open>A run goes on after a persist that failed; it ends (\<open>None\<close>) at a boundary that could not be written.\<close>

fun session_run ::
  "'st store_ops \<Rightarrow> ((nat \<Rightarrow> stamp) \<times> session_op) list \<Rightarrow> session \<Rightarrow> 'st option \<Rightarrow> (session \<times> 'st option) option" where
  "session_run ops [] s store = Some (s, store)"
| "session_run ops ((stamps, op) # run) s store =
     (case session_step ops stamps op s store of
        (e, s', store') \<Rightarrow>
          (if e = None \<or> op = OpPersist then session_run ops run s' store' else None))"

section \<open>Any store that keeps the contract\<close>

definition conversational :: "log_entry \<Rightarrow> bool" where
  "conversational entry =
     (case entry of EUser _ \<Rightarrow> True | EAssistant _ _ _ _ \<Rightarrow> True | ECompact _ \<Rightarrow> True | _ \<Rightarrow> False)"

text \<open>What serialization owes a persist: every line it is about to write is writable when its turn comes.\<close>

type_synonym 'st line_check = "'st \<Rightarrow> stamp \<Rightarrow> string \<Rightarrow> log_entry \<Rightarrow> entry_tags \<Rightarrow> bool"

fun persist_writable ::
  "'st store_ops \<Rightarrow> 'st line_check \<Rightarrow> (nat \<Rightarrow> stamp) \<Rightarrow> string \<Rightarrow> model_message list \<Rightarrow> session \<Rightarrow> 'st \<Rightarrow> bool" where
  "persist_writable ops w stamps sid [] s st = True"
| "persist_writable ops w stamps sid (msg # msgs) s st =
     (let note = note_at s (ses_persisted s)
      in case model_message_to_log_entry msg of
           None \<Rightarrow> persist_writable ops w stamps sid msgs (advance s) st
         | Some entry \<Rightarrow>
             (let e = entry_with_usage entry (note_usage note); t = line_tags s msg note
              in w st (stamps (ses_persisted s)) sid e t \<and>
                 (case so_append ops st (stamps (ses_persisted s)) sid e t of
                    Inl _ \<Rightarrow> True
                  | Inr st' \<Rightarrow> persist_writable ops w stamps sid msgs (advance s) st')))"

definition step_writable ::
  "'st store_ops \<Rightarrow> 'st line_check \<Rightarrow> (nat \<Rightarrow> stamp) \<Rightarrow> string \<Rightarrow> session_op \<Rightarrow> session \<Rightarrow> 'st \<Rightarrow> bool" where
  "step_writable ops w stamps sid op s st =
     (let boundary = (\<lambda>ms b a. w st (stamps 0) sid
            (compact_boundary b a (List.map_filter model_message_to_message ms))
            \<lparr>tag_turn_id = ses_turn_id s, tag_origin = None\<rparr>)
      in case op of
           OpPersist \<Rightarrow> persist_writable ops w stamps sid (drop (ses_persisted s) (ses_messages s)) s st
         | OpCompact ms b a \<Rightarrow> boundary ms b a
         | OpClear \<Rightarrow> boundary [] 0 0
         | _ \<Rightarrow> True)"

fun run_writable ::
  "'st store_ops \<Rightarrow> 'st line_check \<Rightarrow> string \<Rightarrow> ((nat \<Rightarrow> stamp) \<times> session_op) list \<Rightarrow> session \<Rightarrow> 'st option \<Rightarrow> bool" where
  "run_writable ops w sid [] s store = True"
| "run_writable ops w sid ((stamps, op) # run) s store =
     ((case store of Some st \<Rightarrow> step_writable ops w stamps sid op s st | None \<Rightarrow> True) \<and>
      (case session_step ops stamps op s store of
         (e, s', store') \<Rightarrow> run_writable ops w sid run s' store'))"

locale session_log =
  history_log "so_append ops" "so_load ops" sound writable
  for ops :: "'st store_ops" and sound and writable +
  assumes speaks: "conversational entry \<Longrightarrow> pj_apply (so_projection ops) entry ms = apply_entry_to_messages entry ms"
begin

definition view :: "'st \<Rightarrow> string \<Rightarrow> model_message list" where
  "view st sid = List.map_filter (message_to_model_message (so_show_blocks ops))
     (project_messages_with (entries_or_none (so_load ops st sid)) (so_projection ops))"

definition in_step :: "string \<Rightarrow> session \<Rightarrow> 'st \<Rightarrow> bool" where
  "in_step sid s st \<longleftrightarrow>
     view st sid = recorded (take (ses_persisted s) (ses_messages s)) \<and>
     ses_persisted s \<le> length (ses_messages s) \<and> sound st sid"

lemma view_append:
  assumes "sound st sid" "writable st s sid e t" "so_append ops st s sid e t = Inr st'" "conversational e"
  shows "view st' sid = List.map_filter (message_to_model_message (so_show_blocks ops))
      (apply_entry_to_messages e (project_messages_with (entries_or_none (so_load ops st sid)) (so_projection ops)))"
    and "sound st' sid"
  using appended [OF assms(1-3)] assms(4)
  by (auto simp: view_def project_messages_with_def project_step_def enveloped_def with_tags_def
      entry_new_in_def speaks)

lemma view_message:
  assumes "sound st sid" "writable st s sid (entry_with_usage entry u) t"
    and "so_append ops st s sid (entry_with_usage entry u) t = Inr st'" "model_message_to_log_entry m = Some entry"
  shows "view st' sid = view st sid @ [normal_message m]" "sound st' sid" "role m \<noteq> RoleSystem"
proof -
  have conv: "conversational (entry_with_usage entry u)"
    using assms(4) by (auto simp: model_message_to_log_entry_def entry_with_usage_def conversational_def Let_def
        split: message_role.splits option.splits)
  show "view st' sid = view st sid @ [normal_message m]"
    using view_append(1) [OF assms(1-3) conv] assms(4) unfolding view_def
    by (cases m) (auto simp: model_message_to_log_entry_def entry_with_usage_def normal_message_def Let_def
        map_filter_snoc blocks_there_and_back split: message_role.splits option.splits)
  show "sound st' sid" by (rule view_append(2) [OF assms(1-3) conv])
  show "role m \<noteq> RoleSystem" using assms(4) by (auto simp: model_message_to_log_entry_def Let_def)
qed

lemma view_boundary:
  assumes "sound st sid" "writable st s sid (compact_boundary b a (List.map_filter model_message_to_message ms)) t"
    and "so_append ops st s sid (compact_boundary b a (List.map_filter model_message_to_message ms)) t = Inr st'"
  shows "view st' sid = recorded ms" "sound st' sid"
  using view_append [OF assms]
  by (simp_all add: conversational_def compact_boundary_def messages_there_and_back)

lemma persist_from_in_step:
  assumes "in_step sid s st" "msgs = drop (ses_persisted s) (ses_messages s)"
    and "persist_writable ops writable stamps sid msgs s st"
    and "persist_from ops stamps sid msgs s st = (e, s', st')"
  shows "in_step sid s' st' \<and> ses_messages s' = ses_messages s \<and> ses_id s' = ses_id s \<and>
    (e = None \<longrightarrow> ses_persisted s' = length (ses_messages s'))"
  using assms
proof (induction msgs arbitrary: s st)
  case Nil
  then show ?case by (auto simp: in_step_def)
next
  case (Cons m msgs)
  let ?p = "ses_persisted s"
  have lt: "?p < length (ses_messages s)" and m: "ses_messages s ! ?p = m"
    and rest: "msgs = drop (Suc ?p) (ses_messages s)"
    using drop_ConsD [OF Cons.prems(2)] by auto
  have grown: "take (Suc ?p) (ses_messages s) = take ?p (ses_messages s) @ [m]"
    using lt m by (simp add: take_Suc_conv_app_nth)
  have adv: "ses_messages (advance s) = ses_messages s" "ses_persisted (advance s) = Suc ?p" "ses_id (advance s) = ses_id s"
    by (simp_all add: advance_def)
  show ?case
  proof (cases "model_message_to_log_entry m")
    case None
    then have "role m = RoleSystem"
      by (auto simp: model_message_to_log_entry_def Let_def split: message_role.splits)
    then have "in_step sid (advance s) st"
      using Cons.prems(1) lt grown adv by (simp add: in_step_def recorded_def)
    then show ?thesis
      using Cons.IH [of "advance s" st] Cons.prems(3,4) None rest adv by (simp add: Let_def)
  next
    case (Some entry)
    let ?e = "entry_with_usage entry (note_usage (note_at s ?p))" and ?t = "line_tags s m (note_at s ?p)"
    have w: "writable st (stamps ?p) sid ?e ?t"
      using Cons.prems(3) Some by (simp add: Let_def)
    show ?thesis
    proof (cases "so_append ops st (stamps ?p) sid ?e ?t")
      case (Inl x)
      then show ?thesis using Cons.prems(1,4) Some by (auto simp: Let_def)
    next
      case (Inr st1)
      have snd: "sound st sid" using Cons.prems(1) by (simp add: in_step_def)
      have "in_step sid (advance s) st1"
        using view_message [OF snd w Inr Some] Cons.prems(1) lt grown adv
        by (auto simp: in_step_def recorded_def)
      then show ?thesis
        using Cons.IH [of "advance s" st1] Cons.prems(3,4) Some Inr rest adv by (simp add: Let_def)
    qed
  qed
qed

lemma persist_in_step:
  assumes "in_step sid s st" "so_parse_id ops (ses_id s) = Some sid"
    and "persist_writable ops writable stamps sid (drop (ses_persisted s) (ses_messages s)) s st"
    and "persist ops stamps s (Some st) = (e, s', store')"
  shows "\<exists>st'. store' = Some st' \<and> in_step sid s' st' \<and> ses_messages s' = ses_messages s \<and> ses_id s' = ses_id s \<and>
    (e = None \<longrightarrow> ses_persisted s' = length (ses_messages s'))"
proof -
  obtain st' where "persist_from ops stamps sid (drop (ses_persisted s) (ses_messages s)) s st = (e, s', st')"
    "store' = Some st'"
    using assms(2,4) by (auto simp: persist_def split: prod.splits)
  with persist_from_in_step [OF assms(1) refl assms(3)] show ?thesis by blast
qed

lemma compact_in_step:
  assumes "sound st sid" "so_parse_id ops (ses_id s) = Some sid"
    and "writable st stmp sid (compact_boundary b a (List.map_filter model_message_to_message ms))
      \<lparr>tag_turn_id = ses_turn_id s, tag_origin = None\<rparr>"
    and "replace_messages_after_compact ops stmp ms b a s (Some st) = (None, s', store')"
  shows "\<exists>st'. store' = Some st' \<and> in_step sid s' st' \<and> ses_id s' = ses_id s"
proof -
  obtain st' where st': "so_append ops st stmp sid (compact_boundary b a (List.map_filter model_message_to_message ms))
      \<lparr>tag_turn_id = ses_turn_id s, tag_origin = None\<rparr> = Inr st'" "store' = Some st'"
    "s' = s\<lparr>ses_messages := ms, ses_notes := Map.empty, ses_persisted := length ms\<rparr>"
    using assms(2,4) by (auto simp: replace_messages_after_compact_def Let_def split: sum.splits)
  show ?thesis
    using view_boundary [OF assms(1,3) st'(1)] st'(2,3) by (simp add: in_step_def)
qed

lemma step_in_step:
  assumes "in_step sid s st" "so_parse_id ops (ses_id s) = Some sid"
    and "step_writable ops writable stamps sid op s st"
    and "session_step ops stamps op s (Some st) = (e, s', store')" "e = None \<or> op = OpPersist"
  shows "\<exists>st'. store' = Some st' \<and> in_step sid s' st' \<and> ses_id s' = ses_id s"
proof -
  have push: "in_step sid (push_message n m s0) st" if "in_step sid s0 st" for n m s0
    using that by (auto simp: in_step_def push_message_def)
  have noted: "in_step sid (s\<lparr>ses_notes := n\<rparr>) st" for n
    using assms(1) by (simp add: in_step_def)
  have snd: "sound st sid" using assms(1) by (simp add: in_step_def)
  show ?thesis
  proof (cases op)
    case (OpPush m)
    then show ?thesis using assms(4) push [OF assms(1)]
      by (auto simp: session_step_def push_message_def)
  next
    case (OpPushFrom m og)
    then show ?thesis using assms(4) push [OF noted]
      by (auto simp: session_step_def push_message_from_def push_message_def)
  next
    case (OpReply m u)
    then show ?thesis using assms(4) push [OF noted]
      by (auto simp: session_step_def push_reply_def push_message_def)
  next
    case (OpTurn t)
    then show ?thesis using assms(1,4) by (auto simp: session_step_def set_turn_id_def in_step_def)
  next
    case OpPersist
    then show ?thesis
      using persist_in_step [OF assms(1,2), of stamps e s' store'] assms(3,4)
      by (auto simp: session_step_def step_writable_def)
  next
    case (OpCompact ms b a)
    then show ?thesis
      using compact_in_step [OF snd assms(2), of "stamps 0" b a ms s' store'] assms(3-5)
      by (auto simp: session_step_def step_writable_def)
  next
    case OpClear
    then show ?thesis
      using compact_in_step [OF snd, of "s\<lparr>ses_timestamps := [], ses_turn_count := 0\<rparr>" "stamps 0" 0 0 "[]" s' store'] assms(2-5)
      by (auto simp: session_step_def step_writable_def session_clear_def List.map_filter_simps)
  qed
qed

lemma run_in_step:
  assumes "in_step sid s st" "so_parse_id ops (ses_id s) = Some sid"
    and "run_writable ops writable sid run s (Some st)"
    and "session_run ops run s (Some st) = Some (s', store')"
  shows "\<exists>st'. store' = Some st' \<and> in_step sid s' st' \<and> ses_id s' = ses_id s"
  using assms
proof (induction run arbitrary: s st)
  case (Cons a run)
  obtain stamps op where a: "a = (stamps, op)" by fastforce
  obtain e s1 store1 where step: "session_step ops stamps op s (Some st) = (e, s1, store1)"
    using prod_cases3 by blast
  have fine: "e = None \<or> op = OpPersist" and run: "session_run ops run s1 store1 = Some (s', store')"
    using Cons.prems(4) a step by (auto split: if_splits)
  obtain st1 where one: "store1 = Some st1" "in_step sid s1 st1" "ses_id s1 = ses_id s"
    using step_in_step [OF Cons.prems(1,2) _ step fine] Cons.prems(3) a by auto
  show ?case
    using Cons.IH [OF one(2)] Cons.prems(2,3) a step one run by auto
next
  case Nil
  then have "store' = Some st" "s' = s" by auto
  with Nil.prems show ?case by auto
qed

lemma resume_view:
  assumes "so_parse_id ops i = Some sid" "in_step sid s st" "ses_persisted s = length (ses_messages s)"
  shows "case resume ops now i fresh (Some st) of
      Inr s2 \<Rightarrow> ses_messages s2 = recorded (ses_messages s) \<and> ses_persisted s2 = length (ses_messages s2)
    | Inl _ \<Rightarrow> recorded (ses_messages s) = []"
proof -
  have view: "view st sid = recorded (ses_messages s)"
    using assms(2,3) by (simp add: in_step_def)
  show ?thesis
  proof (cases "so_load ops st sid")
    case (Inl e)
    then show ?thesis
      using assms(1) view
      by (cases e) (simp_all add: resume_def view_def project_messages_with_def List.map_filter_simps)
  next
    case (Inr entries)
    then show ?thesis
      using assms(1) view
      by (auto simp: resume_def view_def project_messages_with_def List.map_filter_simps Let_def)
  qed
qed

end

section \<open>The shipped stores\<close>

definition shipped_projection :: "(json \<Rightarrow> string) \<Rightarrow> string list option \<Rightarrow> projection" where
  "shipped_projection sj surfaced =
     (case surfaced of None \<Rightarrow> default_projection | Some ns \<Rightarrow> extensions_are_visible sj ns)"

lemma shipped_speaks:
  "conversational e \<Longrightarrow> pj_apply (shipped_projection sj surfaced) e ms = apply_entry_to_messages e ms"
  by (auto simp: shipped_projection_def default_projection_def extensions_are_visible_def conversational_def
      split: option.splits log_entry.splits)

definition mem_store_ops ::
  "(json \<Rightarrow> string) \<Rightarrow> string list option \<Rightarrow> (string \<Rightarrow> string option) \<Rightarrow> (content_block list \<Rightarrow> string)
   \<Rightarrow> mem_store store_ops" where
  "mem_store_ops sj surfaced parse sb =
     \<lparr>so_append = mem_appended, so_load = mem_load, so_projection = shipped_projection sj surfaced,
      so_parse_id = parse, so_show_blocks = sb\<rparr>"

definition file_store_ops ::
  "jsonl_ops \<Rightarrow> string list option \<Rightarrow> (content_block list \<Rightarrow> string) \<Rightarrow> jsonl_store store_ops" where
  "file_store_ops ops surfaced sb =
     \<lparr>so_append = jsonl_append_tagged ops, so_load = jsonl_loaded ops,
      so_projection = shipped_projection (ro_json (jo_read ops)) surfaced,
      so_parse_id = jo_parse_id ops, so_show_blocks = sb\<rparr>"

lemma file_loads: "so_load (file_store_ops ops surfaced sb) = jsonl_loaded ops"
  by (simp add: file_store_ops_def)

interpretation mem_session: session_log "mem_store_ops sj surfaced parse sb" "\<lambda>st i. True" "\<lambda>st s i e t. True"
  for sj surfaced parse sb
  by unfold_locales (auto simp: mem_store_ops_def mem_appended_def mem_load_append shipped_speaks)

interpretation file_session: session_log "file_store_ops ops surfaced sb" "jsonl_sound ops" "jsonl_writable ops"
  for ops surfaced sb
  by unfold_locales (auto simp: file_store_ops_def shipped_speaks dest: jsonl.appended)

text \<open>C19. A resume restores the conversation.  Start a session on a disk without its log and run any pushes,
  persists, compactions and clears (with persists failing wherever they may); once everything is on
  record, resuming that id from the files, in a new process with its cache intact or not, gives back
  every message that is not a system message, in order, with only the default of a missing error flag
  filled in.\<close>
theorem resume_restores_conversation:
  assumes "read_file disk (fst (session_path_of disk sid)) = Absent" "jo_parse_id ops i = Some sid"
    and "session_run (file_store_ops ops surfaced sb) run (session_new i parent) (Some disk) = Some (s, store)"
    and "run_writable (file_store_ops ops surfaced sb) (jsonl_writable ops) sid run (session_new i parent) (Some disk)"
    and "ses_persisted s = length (ses_messages s)"
  shows "case resume (file_store_ops ops surfaced sb) now i fresh store of
      Inr s2 \<Rightarrow> ses_messages s2 = recorded (ses_messages s) \<and> ses_persisted s2 = length (ses_messages s2)
    | Inl _ \<Rightarrow> recorded (ses_messages s) = []"
proof -
  have parse: "so_parse_id (file_store_ops ops surfaced sb) (ses_id (session_new i parent)) = Some sid"
    "so_parse_id (file_store_ops ops surfaced sb) i = Some sid"
    using assms(2) by (simp_all add: file_store_ops_def session_new_def)
  have "file_session.in_step ops surfaced sb sid (session_new i parent) disk"
    using assms(1)
    by (simp add: file_session.in_step_def file_session.view_def file_loads loaded_at
        load_entries_from_path_def project_messages_with_def session_new_def jsonl_sound_def
        List.map_filter_simps)
  from file_session.run_in_step [OF this parse(1) assms(4,3)]
  obtain st where st: "store = Some st" "file_session.in_step ops surfaced sb sid s st" by blast
  from file_session.resume_view [OF parse(2) st(2) assms(5)] st(1) show ?thesis by simp
qed

definition one_turn :: "((nat \<Rightarrow> stamp) \<times> session_op) list" where
  "one_turn =
     [(\<lambda>_. \<lparr>st_id = ''e1'', st_now = 5, st_text = ''t''\<rparr>,
         OpPushFrom \<lparr>role = RoleUser, content = [MText ''hi'']\<rparr> OriginUser),
      (\<lambda>_. \<lparr>st_id = ''e1'', st_now = 5, st_text = ''t''\<rparr>, OpPersist)]"

definition user_line_ops :: jsonl_ops where
  "user_line_ops =
     (let e = enveloped \<lparr>st_id = ''e1'', st_now = 5, st_text = ''t''\<rparr> ''s'' (EUser [CbText ''hi'' None])
            \<lparr>tag_turn_id = None, tag_origin = Some OriginUser\<rparr>
      in disk_ops\<lparr>jo_codec := (jo_codec disk_ops)\<lparr>enc_env := (\<lambda>_. ''line''),
           dec_env := (\<lambda>l. if l = ''line'' then Some e else None)\<rparr>\<rparr>)"

lemma resume_restores_conversation_witness:
  "case session_run (file_store_ops user_line_ops None (\<lambda>_. [])) one_turn (session_new ''s'' None) (Some empty_disk) of
     None \<Rightarrow> False
   | Some (s, store) \<Rightarrow>
       (case resume (file_store_ops user_line_ops None (\<lambda>_. [])) 9 ''s'' (session_new ''x'' None) store of
          Inr s2 \<Rightarrow> ses_messages s2 = recorded (ses_messages s)
        | Inl _ \<Rightarrow> recorded (ses_messages s) = [])"
proof -
  let ?ops = "file_store_ops user_line_ops None (\<lambda>_. [])"
  have absent: "read_file empty_disk (fst (session_path_of empty_disk ''s'')) = Absent" by code_simp
  have parse: "jo_parse_id user_line_ops ''s'' = Some ''s''" by code_simp
  have writable: "run_writable ?ops (jsonl_writable user_line_ops) ''s'' one_turn (session_new ''s'' None) (Some empty_disk)"
    by code_simp
  have "case session_run ?ops one_turn (session_new ''s'' None) (Some empty_disk) of
     None \<Rightarrow> False | Some (s, store) \<Rightarrow> ses_persisted s = length (ses_messages s)"
    by code_simp
  then obtain s store where
    run: "session_run ?ops one_turn (session_new ''s'' None) (Some empty_disk) = Some (s, store)"
    "ses_persisted s = length (ses_messages s)"
    by (auto split: option.splits)
  from resume_restores_conversation [OF absent parse run(1) writable run(2), of 9 "session_new ''x'' None"] run(1)
  show ?thesis by (auto split: sum.splits)
qed

text \<open>A persist that reports success has put the whole conversation on record, for either store.\<close>

theorem persist_catches_up:
  assumes "persist ops stamps s (Some st) = (None, s', store')" "ses_persisted s \<le> length (ses_messages s)"
  shows "ses_persisted s' = length (ses_messages s') \<and> ses_messages s' = ses_messages s"
proof -
  have loop: "persist_from ops stamps sid msgs s st = (None, s', st') \<Longrightarrow>
      ses_persisted s' = ses_persisted s + length msgs \<and> ses_messages s' = ses_messages s" for sid msgs s st s' st'
    by (induction ops stamps sid msgs s st rule: persist_from.induct)
      (auto simp: Let_def advance_def split: option.splits sum.splits)
  obtain sid st' where "persist_from ops stamps sid (drop (ses_persisted s) (ses_messages s)) s st = (None, s', st')"
    using assms(1) by (auto simp: persist_def split: option.splits prod.splits)
  from loop [OF this] assms(2) show ?thesis by simp
qed

section \<open>Ages\<close>

text \<open>A compaction keeps the clock readings of the messages it replaced: a summary written just now is as old
  as the first message was, and the same holds for what is kept and for what is pushed afterwards.\<close>

theorem compacted_messages_keep_old_ages:
  assumes "replace_messages_after_compact ops stmp ms b a s store = (e, s', store')"
    and "length ms \<le> length (ses_timestamps s)"
  shows "message_ages now s' = map (\<lambda>i. (i, ses_timestamps s ! i)) [0..<length ms]"
proof -
  have "ses_messages s' = ms" "ses_timestamps s' = ses_timestamps s"
    using assms(1) by (auto simp: replace_messages_after_compact_def Let_def split: option.splits sum.splits)
  then show ?thesis using assms(2) by (simp add: message_ages_def)
qed

text \<open>A resume counts lines of the log as turns.\<close>

theorem resume_counts_lines:
  assumes "so_parse_id ops i = Some sid" "so_load ops st sid = Inr entries" "entries \<noteq> []"
  shows "\<exists>s'. resume ops now i s (Some st) = Inr s' \<and> ses_turn_count s' = of_nat (length entries)"
  using assms by (simp add: resume_def Let_def)

end
