(* ===== verification/StreamingProps.thy ===== *)
theory StreamingProps
  imports Streaming "HOL-Library.Multiset"
begin

text \<open>
  What a streamed reply leaves in the session, whatever the world does: every tool call is answered
  exactly once, in the order the model asked, on success, failure, cancellation and a broken stream; the
  text and the reasoning are what the model sent; and without engine failures the answers do not
  depend on which tool finishes first.
\<close>

section \<open>Calls in flight\<close>

fun use_of :: "model_block \<Rightarrow> (string \<times> string \<times> json) option" where
  "use_of (MToolUse i name input) = Some (i, name, input)"
| "use_of _ = None"

definition uses :: "model_block list \<Rightarrow> (string \<times> string \<times> json) list" where
  "uses bs = List.map_filter use_of bs"

fun result_id :: "model_block \<Rightarrow> string option" where
  "result_id (MToolResult i _ _) = Some i"
| "result_id _ = None"

definition key_of :: "stream_world \<Rightarrow> flight \<Rightarrow> string" where
  "key_of w f = dedup_key w (fl_name f) (fl_input f)"

definition call_of :: "flight \<Rightarrow> string \<times> string \<times> json" where
  "call_of f = (fl_id f, fl_name f, fl_input f)"

text \<open>What the answer to a call is when nothing fails outright.\<close>

definition answer_to :: "stream_world \<Rightarrow> flight list \<Rightarrow> nat \<Rightarrow> model_block" where
  "answer_to w q i =
     (let f = q ! i
      in if key_of w f \<in> key_of w ` set (take i q) then MToolResult (fl_id f) DUPLICATE (Some False)
         else (case read_outcome (w_run w i (fl_id f) (fl_name f) (fl_input f)) of
                 (text, _, failed) \<Rightarrow> MToolResult (fl_id f) text (Some failed)))"

definition accounted :: "nat \<Rightarrow> stream_state \<Rightarrow> bool" where
  "accounted m s \<longleftrightarrow>
     m \<le> length (str_queued s) \<and>
     (\<forall>i < length (str_queued s). fl_index (str_queued s ! i) = i) \<and>
     mset (map fst (str_results s)) + mset (map fl_index (str_batch s)) = mset [0..<m] \<and>
     (\<forall>(i, b) \<in> set (str_results s). result_id b = Some (fl_id (str_queued s ! i))) \<and>
     (\<forall>f \<in> set (str_batch s). str_queued s ! fl_index f = f)"

definition truthful :: "stream_world \<Rightarrow> stream_state \<Rightarrow> bool" where
  "truthful w s \<longleftrightarrow>
     \<not> str_aborted s \<and>
     (\<forall>(i, b) \<in> set (str_results s). b = answer_to w (str_queued s) i) \<and>
     (\<forall>f \<in> set (str_batch s). key_of w f \<notin> key_of w ` set (take (fl_index f) (str_queued s)))"

definition no_engine_failure :: "stream_world \<Rightarrow> bool" where
  "no_engine_failure w \<longleftrightarrow> (\<forall>i n name input. \<not> isl (w_run w i n name input))"

text \<open>What draining leaves alone.\<close>

definition same_frame :: "stream_state \<Rightarrow> stream_state \<Rightarrow> bool" where
  "same_frame s t \<longleftrightarrow>
     str_reply t = str_reply s \<and> str_text t = str_text s \<and> str_thinking t = str_thinking s \<and>
     str_queued t = str_queued s \<and> str_seen t = str_seen s \<and> str_stop t = str_stop s \<and>
     str_usage t = str_usage s \<and> str_has_tools t = str_has_tools s \<and> str_calls t = str_calls s"

lemma same_frame_refl [simp]: "same_frame s s"
  by (simp add: same_frame_def)

lemma same_frame_trans: "same_frame r s \<Longrightarrow> same_frame s t \<Longrightarrow> same_frame r t"
  by (simp add: same_frame_def)

lemma finish_flight_frame: "same_frame s (finish_flight w f s)"
  by (auto simp: same_frame_def finish_flight_def push_new_def buffer_result_def emit_def Let_def
      split: prod.splits option.splits)

lemma finish_flight_results:
  "str_results (finish_flight w f s) = str_results s @
     [(fl_index f, case read_outcome (flight_outcome w (str_aborted s) f) of
        (text, _, failed) \<Rightarrow> MToolResult (fl_id f) text (Some failed))]"
  by (auto simp: finish_flight_def push_new_def buffer_result_def emit_def Let_def
      split: prod.splits option.splits)

lemma finish_flight_aborted:
  "str_aborted (finish_flight w f s) \<longleftrightarrow> str_aborted s \<or> isl (flight_outcome w (str_aborted s) f)"
  by (auto simp: finish_flight_def push_new_def buffer_result_def emit_def Let_def
      split: prod.splits option.splits)

lemma take_flight_frame: "take_flight w s = (f, t) \<Longrightarrow> same_frame s t \<and> str_results t = str_results s \<and> str_aborted t = str_aborted s"
  by (auto simp: take_flight_def same_frame_def Let_def)

lemma take_flight_batch:
  assumes "take_flight w s = (f, t)" "str_batch s \<noteq> []"
  shows "mset (str_batch s) = add_mset f (mset (str_batch t))"
proof -
  let ?n = "pick w (str_batch s)"
  have "str_batch s = take ?n (str_batch s) @ f # drop (Suc ?n) (str_batch s)"
    using assms pick_less [of "str_batch s" w]
    by (auto simp: take_flight_def Let_def id_take_nth_drop)
  then have "mset (str_batch s) = mset (take ?n (str_batch s) @ f # drop (Suc ?n) (str_batch s))"
    by simp
  then show ?thesis using assms(1) by (auto simp: take_flight_def Let_def)
qed

lemma one_flight:
  assumes "take_flight w s = (f, t)" "str_batch s \<noteq> []" "accounted m s"
  shows "accounted m (finish_flight w f t)"
    and "no_engine_failure w \<Longrightarrow> truthful w s \<Longrightarrow> truthful w (finish_flight w f t)"
proof -
  note batch = take_flight_batch [OF assms(1,2)] and frame = take_flight_frame [OF assms(1)]
  have frame': "str_queued (finish_flight w f t) = str_queued s"
    using frame finish_flight_frame [of t w f] by (simp add: same_frame_def)
  have f: "f \<in> set (str_batch s)" and sub: "set (str_batch t) \<subseteq> set (str_batch s)"
    using batch by (metis mset_eq_setD set_mset_add_mset_insert set_mset_mset insertI1, metis batch set_mset_add_mset_insert set_mset_mset subset_insertI)
  show "accounted m (finish_flight w f t)"
    using assms(3) f sub frame frame' arg_cong [OF batch, of "image_mset fl_index"]
    by (auto simp: accounted_def finish_flight_results split: prod.splits)
  assume "no_engine_failure w" "truthful w s"
  then have clean: "\<not> str_aborted t" "flight_outcome w False f = w_run w (fl_index f) (fl_id f) (fl_name f) (fl_input f)"
    using frame by (simp_all add: truthful_def flight_outcome_def)
  have "str_queued s ! fl_index f = f" "key_of w f \<notin> key_of w ` set (take (fl_index f) (str_queued s))"
    using assms(3) f \<open>truthful w s\<close> by (auto simp: accounted_def truthful_def)
  then show "truthful w (finish_flight w f t)"
    using \<open>truthful w s\<close> \<open>no_engine_failure w\<close> clean sub frame frame'
    by (auto simp: truthful_def finish_flight_results finish_flight_aborted no_engine_failure_def answer_to_def Let_def)
qed

lemma drain_batch_spec:
  "accounted m s \<Longrightarrow>
   accounted m (drain_batch w s) \<and> str_batch (drain_batch w s) = [] \<and> same_frame s (drain_batch w s) \<and>
   (no_engine_failure w \<longrightarrow> truthful w s \<longrightarrow> truthful w (drain_batch w s))"
proof (induction w s rule: drain_batch.induct)
  case (1 w s)
  show ?case
  proof (cases "str_batch s = []")
    case True
    then show ?thesis using "1.prems" by (simp add: drain_batch.simps [of w s])
  next
    case False
    obtain f t where ft: "take_flight w s = (f, t)" by fastforce
    note one = one_flight [OF ft False "1.prems"]
    have frame: "same_frame s (finish_flight w f t)"
      using take_flight_frame [OF ft] finish_flight_frame same_frame_trans by blast
    have step: "drain_batch w s = drain_batch w (finish_flight w f t)"
      using False ft by (subst drain_batch.simps) simp
    show ?thesis
      using "1.IH" [OF False ft [symmetric] one(1)] one(2) frame same_frame_trans
      unfolding step by blast
  qed
qed

section \<open>The reply as it grows\<close>

fun solid :: "model_block \<Rightarrow> bool" where
  "solid (MText t) = (t \<noteq> [])"
| "solid (MThinking t _ _) = (t \<noteq> [])"
| "solid _ = True"

fun text_of :: "model_block \<Rightarrow> string" where
  "text_of (MText t) = t"
| "text_of _ = []"

fun thinking_of :: "model_block \<Rightarrow> string" where
  "thinking_of (MThinking t _ _) = t"
| "thinking_of _ = []"

definition all_text :: "stream_state \<Rightarrow> string" where
  "all_text s = concat (map text_of (str_reply s)) @ str_text s"

definition all_thinking :: "stream_state \<Rightarrow> string" where
  "all_thinking s = concat (map thinking_of (str_reply s)) @ str_thinking s"

lemma uses_snoc: "uses (bs @ [b]) = uses bs @ (case use_of b of Some u \<Rightarrow> [u] | None \<Rightarrow> [])"
  unfolding uses_def by (induction bs) (auto simp: List.map_filter_simps split: option.splits)

lemma uses_Nil [simp]: "uses [] = []"
  by (simp add: uses_def List.map_filter_simps)

lemma uses_iff: "uses bs \<noteq> [] \<longleftrightarrow> list_ex is_tool_use bs"
proof (induction bs rule: rev_induct)
  case (snoc b bs)
  then show ?case by (cases b) (auto simp: uses_snoc is_tool_use_def)
qed simp

text \<open>The parts of the state a block operation can touch.\<close>

definition same_calls :: "stream_state \<Rightarrow> stream_state \<Rightarrow> bool" where
  "same_calls s t \<longleftrightarrow>
     uses (str_reply t) = uses (str_reply s) \<and> str_queued t = str_queued s \<and> str_seen t = str_seen s \<and>
     str_batch t = str_batch s \<and> str_results t = str_results s \<and> str_aborted t = str_aborted s \<and>
     str_has_tools t = str_has_tools s \<and> str_calls t = str_calls s \<and>
     (list_all solid (str_reply s) \<longrightarrow> list_all solid (str_reply t))"

lemma close_thinking_calls [simp]: "same_calls s (close_thinking w g s)"
  by (simp add: same_calls_def close_thinking_def uses_snoc)

lemma close_text_calls [simp]: "same_calls s (close_text s)"
  by (simp add: same_calls_def close_text_def uses_snoc)

lemma same_calls_trans: "same_calls r s \<Longrightarrow> same_calls s t \<Longrightarrow> same_calls r t"
  by (simp add: same_calls_def)

lemma close_texts [simp]:
  "all_text (close_thinking w g s) = all_text s" "all_thinking (close_thinking w g s) = all_thinking s"
  "all_text (close_text s) = all_text s" "all_thinking (close_text s) = all_thinking s"
  "str_thinking (close_thinking w g s) = []" "str_text (close_text s) = []"
  "str_text (close_thinking w g s) = str_text s" "str_thinking (close_text s) = str_thinking s"
  by (simp_all add: all_text_def all_thinking_def close_thinking_def close_text_def)

definition stream_inv :: "stream_world \<Rightarrow> stream_state \<Rightarrow> bool" where
  "stream_inv w s \<longleftrightarrow>
     accounted (length (str_queued s)) s \<and>
     map call_of (str_queued s) = uses (str_reply s) \<and>
     set (str_seen s) = key_of w ` set (str_queued s) \<and>
     str_has_tools s = (uses (str_reply s) \<noteq> []) \<and>
     list_all solid (str_reply s)"

lemma stream_inv_same_calls: "same_calls s t \<Longrightarrow> stream_inv w s \<Longrightarrow> stream_inv w t"
  by (simp add: same_calls_def stream_inv_def accounted_def)

lemma truthful_same_calls: "same_calls s t \<Longrightarrow> truthful w s \<Longrightarrow> truthful w t"
  by (simp add: same_calls_def truthful_def)

lemma buffer_result_state:
  "str_results (buffer_result i u n t e s) = str_results s @ [(i, MToolResult u t (Some e))]"
  "str_batch (buffer_result i u n t e s) = str_batch s"
  "str_aborted (buffer_result i u n t e s) = str_aborted s"
  "same_frame s (buffer_result i u n t e s)"
  by (simp_all add: buffer_result_def emit_def same_frame_def)

text \<open>Giving the call that has just joined the queue its answer, or a place in the batch.\<close>

definition joined :: "stream_state \<Rightarrow> flight \<Rightarrow> bool" where
  "joined s f \<longleftrightarrow>
     str_queued s \<noteq> [] \<and> last (str_queued s) = f \<and> accounted (length (str_queued s) - 1) s"

lemma joined_index:
  assumes "joined s f"
  shows "fl_index f = length (str_queued s) - 1" "str_queued s ! fl_index f = f"
    "take (fl_index f) (str_queued s) = butlast (str_queued s)"
proof -
  have ne: "str_queued s \<noteq> []" and l: "f = str_queued s ! (length (str_queued s) - 1)"
    using assms by (auto simp: joined_def last_conv_nth)
  then show i: "fl_index f = length (str_queued s) - 1"
    using assms by (auto simp: joined_def accounted_def)
  show "str_queued s ! fl_index f = f" using i l by simp
  show "take (fl_index f) (str_queued s) = butlast (str_queued s)" by (simp add: i butlast_conv_take)
qed

lemma joined_upt:
  assumes "joined s f"
  shows "mset [0..<length (str_queued s)] = add_mset (fl_index f) (mset [0..<length (str_queued s) - 1])"
proof -
  obtain k where k: "length (str_queued s) = Suc k"
    using assms by (cases "length (str_queued s)") (auto simp: joined_def)
  show ?thesis using joined_index(1) [OF assms] by (simp add: k)
qed

lemma answer_joined:
  assumes "joined s f" "str_queued t = str_queued s" "str_batch t = str_batch s"
    and "str_results t = str_results s @ [(fl_index f, b)]" "result_id b = Some (fl_id f)"
  shows "accounted (length (str_queued t)) t"
    and "truthful w s \<Longrightarrow> \<not> str_aborted t \<Longrightarrow> b = answer_to w (str_queued s) (fl_index f) \<Longrightarrow> truthful w t"
proof -
  note i = joined_index [OF assms(1)]
  have "mset [0..<length (str_queued s)] = add_mset (fl_index f) (mset [0..<length (str_queued s) - 1])"
    by (rule joined_upt [OF assms(1)])
  then show "accounted (length (str_queued t)) t"
    using assms i by (auto simp: joined_def accounted_def)
  show "truthful w s \<Longrightarrow> \<not> str_aborted t \<Longrightarrow> b = answer_to w (str_queued s) (fl_index f) \<Longrightarrow> truthful w t"
    using assms by (auto simp: truthful_def)
qed

lemma launch_joined:
  assumes "joined s f" "str_queued t = str_queued s" "str_batch t = str_batch s @ [f]"
    and "str_results t = str_results s" "str_aborted t = str_aborted s"
  shows "accounted (length (str_queued t)) t"
    and "truthful w s \<Longrightarrow> key_of w f \<notin> key_of w ` set (butlast (str_queued s)) \<Longrightarrow> truthful w t"
proof -
  note i = joined_index [OF assms(1)]
  have "mset [0..<length (str_queued s)] = add_mset (fl_index f) (mset [0..<length (str_queued s) - 1])"
    by (rule joined_upt [OF assms(1)])
  then show "accounted (length (str_queued t)) t"
    using assms i by (auto simp: joined_def accounted_def)
  show "truthful w s \<Longrightarrow> key_of w f \<notin> key_of w ` set (butlast (str_queued s)) \<Longrightarrow> truthful w t"
    using assms i by (auto simp: truthful_def)
qed

lemma run_alone_spec:
  assumes "joined s f"
  shows "accounted (length (str_queued s)) (run_alone w f s)" "same_frame s (run_alone w f s)"
    and "no_engine_failure w \<Longrightarrow> truthful w s \<Longrightarrow> key_of w f \<notin> key_of w ` set (butlast (str_queued s))
      \<Longrightarrow> truthful w (run_alone w f s)"
proof -
  define d where "d = drain_batch w s"
  have drained: "accounted (length (str_queued s) - 1) d" "str_batch d = []" "same_frame s d"
    "no_engine_failure w \<Longrightarrow> truthful w s \<Longrightarrow> truthful w d"
    using drain_batch_spec [of "length (str_queued s) - 1" s w] assms by (auto simp: joined_def d_def)
  have j: "joined d f" using assms drained(1,3) by (simp add: joined_def same_frame_def)
  note i = joined_index [OF j]
  obtain answer new_msgs failed where outc:
    "read_outcome (w_run w (fl_index f) (fl_id f) (fl_name f) (fl_input f)) = (answer, new_msgs, failed)"
    using prod_cases3 by blast
  have after: "str_queued (run_alone w f s) = str_queued d" "str_batch (run_alone w f s) = str_batch d"
    "str_results (run_alone w f s) = str_results d @ [(fl_index f, MToolResult (fl_id f) answer (Some failed))]"
    "\<not> str_aborted (run_alone w f s)" "same_frame d (run_alone w f s)"
    using outc drained(2)
    by (auto simp: run_alone_def d_def push_new_def buffer_result_def emit_def same_frame_def Let_def
        split: option.splits)
  note answered = answer_joined [OF j after(1-3)]
  show "accounted (length (str_queued s)) (run_alone w f s)"
    using answered(1) after(1) drained(3) by (simp add: same_frame_def)
  show "same_frame s (run_alone w f s)" by (rule same_frame_trans [OF drained(3) after(5)])
  assume "no_engine_failure w" "truthful w s" "key_of w f \<notin> key_of w ` set (butlast (str_queued s))"
  then have same: "MToolResult (fl_id f) answer (Some failed) = answer_to w (str_queued d) (fl_index f)"
    using i outc drained(3) by (simp add: answer_to_def Let_def same_frame_def)
  have "truthful w d" using drained(4) \<open>no_engine_failure w\<close> \<open>truthful w s\<close> by blast
  then show "truthful w (run_alone w f s)"
    using answered(2) [OF _ _ after(4) same] by simp
qed

lemma start_tool_spec:
  assumes "joined s f" "set (str_seen s) = key_of w ` set (butlast (str_queued s))"
  defines "t \<equiv> start_tool w f s"
  shows "accounted (length (str_queued t)) t" "str_queued t = str_queued s" "str_reply t = str_reply s"
    "str_text t = str_text s" "str_thinking t = str_thinking s" "str_has_tools t = str_has_tools s"
    "set (str_seen t) = key_of w ` set (str_queued s)"
    "no_engine_failure w \<Longrightarrow> truthful w s \<Longrightarrow> truthful w t"
proof -
  let ?key = "dedup_key w (fl_name f) (fl_input f)"
  have key: "key_of w f = ?key" by (simp add: key_of_def)
  have last: "str_queued s = butlast (str_queued s) @ [f]"
    using assms(1) by (metis append_butlast_last_id joined_def)
  then have keys: "key_of w ` set (str_queued s) = insert ?key (set (str_seen s))"
    by (metis (no_types, lifting) Un_commute assms(2) image_Un image_insert image_empty insert_is_Un key list.simps(15) empty_set set_append)
  note i = joined_index [OF assms(1)]
  have all: "accounted (length (str_queued t)) t \<and> str_queued t = str_queued s \<and> str_reply t = str_reply s \<and>
    str_text t = str_text s \<and> str_thinking t = str_thinking s \<and> str_has_tools t = str_has_tools s \<and>
    set (str_seen t) = key_of w ` set (str_queued s) \<and>
    (no_engine_failure w \<longrightarrow> truthful w s \<longrightarrow> truthful w t)"
  proof (cases "?key \<in> set (str_seen s)")
    case True
    then have t: "t = buffer_result (fl_index f) (fl_id f) (fl_name f) DUPLICATE False s"
      by (simp add: t_def start_tool_def Let_def)
    note b = buffer_result_state(1-3) [of "fl_index f" "fl_id f" "fl_name f" DUPLICATE False s, folded t]
      buffer_result_state(4) [of s "fl_index f" "fl_id f" "fl_name f" DUPLICATE False, folded t]
    have frame: "str_queued t = str_queued s" "str_seen t = str_seen s" "str_reply t = str_reply s"
      "str_text t = str_text s" "str_thinking t = str_thinking s" "str_has_tools t = str_has_tools s"
      using b(4) by (simp_all add: same_frame_def)
    note answered = answer_joined [OF assms(1) frame(1) b(2,1)]
    have same: "MToolResult (fl_id f) DUPLICATE (Some False) = answer_to w (str_queued s) (fl_index f)"
      using True assms(2) i key by (simp add: answer_to_def Let_def)
    have "truthful w t" if "truthful w s"
    proof -
      have "\<not> str_aborted t" using that b(3) by (simp add: truthful_def)
      from answered(2) [OF _ that this same] show ?thesis by simp
    qed
    with answered(1) frame keys True show ?thesis by auto
  next
    case False
    define s1 where "s1 = s\<lparr>str_seen := ?key # str_seen s\<rparr>"
    have j1: "joined s1 f" and tr1: "truthful w s1 = truthful w s" and q1: "str_queued s1 = str_queued s"
      using assms(1) by (simp_all add: s1_def joined_def accounted_def truthful_def)
    have fresh: "key_of w f \<notin> key_of w ` set (butlast (str_queued s1))"
      using False assms(2) key q1 by simp
    show ?thesis
    proof (cases "w_safe w (fl_name f) (fl_input f)")
      case True
      define s2 where "s2 = s1\<lparr>str_batch := str_batch s1 @ [f]\<rparr>"
      have t: "t = s2\<lparr>str_calls := str_calls s2 + 1\<rparr>"
        using False True by (simp add: t_def start_tool_def s1_def s2_def Let_def)
      have "accounted (length (str_queued t)) t" "truthful w s1 \<longrightarrow> truthful w t"
        using launch_joined [OF j1, of t] fresh by (simp_all add: t s2_def)
      then show ?thesis using tr1 keys by (simp add: t s2_def s1_def)
    next
      case unsafe: False
      define s2 where "s2 = run_alone w f s1"
      have t: "t = s2\<lparr>str_calls := str_calls s2 + 1\<rparr>"
        using False unsafe by (simp add: t_def start_tool_def s1_def s2_def Let_def)
      note alone = run_alone_spec [OF j1, of w, folded s2_def]
      have frame: "str_queued s2 = str_queued s" "set (str_seen s2) = insert ?key (set (str_seen s))"
        "str_reply s2 = str_reply s" "str_text s2 = str_text s" "str_thinking s2 = str_thinking s"
        "str_has_tools s2 = str_has_tools s"
        using alone(2) by (simp_all add: same_frame_def s1_def)
      have "accounted (length (str_queued t)) t" using alone(1) frame(1) q1 by (simp add: t accounted_def)
      moreover have "no_engine_failure w \<longrightarrow> truthful w s \<longrightarrow> truthful w t"
        using alone(3) fresh tr1 by (simp add: t truthful_def)
      ultimately show ?thesis using frame keys by (simp add: t)
    qed
  qed
  then show "accounted (length (str_queued t)) t" "str_queued t = str_queued s" "str_reply t = str_reply s"
    "str_text t = str_text s" "str_thinking t = str_thinking s" "str_has_tools t = str_has_tools s"
    "set (str_seen t) = key_of w ` set (str_queued s)"
    "no_engine_failure w \<Longrightarrow> truthful w s \<Longrightarrow> truthful w t" by auto
qed


section \<open>The whole stream\<close>

lemma accounted_range:
  assumes "accounted m s"
  shows "(i, b) \<in> set (str_results s) \<Longrightarrow> i < m" and "f \<in> set (str_batch s) \<Longrightarrow> fl_index f < m"
proof -
  have "mset (map fst (str_results s)) + mset (map fl_index (str_batch s)) = mset [0..<m]"
    using assms by (simp add: accounted_def)
  then have "set_mset (mset (map fst (str_results s)) + mset (map fl_index (str_batch s))) = set_mset (mset [0..<m])"
    by (rule arg_cong)
  then have *: "fst ` set (str_results s) \<union> fl_index ` set (str_batch s) = {0..<m}" by simp
  show "(i, b) \<in> set (str_results s) \<Longrightarrow> i < m"
    using * by (metis UnI1 atLeastLessThan_iff fst_conv imageI)
  show "f \<in> set (str_batch s) \<Longrightarrow> fl_index f < m"
    using * by (metis UnI2 atLeastLessThan_iff imageI)
qed

lemma accounted_grow:
  assumes "accounted (length (str_queued s)) s" "str_queued t = str_queued s @ [f]"
    and "str_batch t = str_batch s" "str_results t = str_results s" "fl_index f = length (str_queued s)"
  shows "joined t f"
  using assms accounted_range [OF assms(1)]
  by (auto simp: joined_def accounted_def nth_append less_Suc_eq)

lemma answer_to_snoc: "i < length q \<Longrightarrow> answer_to w (q @ [f]) i = answer_to w q i"
  by (simp add: answer_to_def nth_append Let_def)

lemma truthful_grow:
  assumes "accounted (length (str_queued s)) s" "truthful w s" "str_queued t = str_queued s @ [f]"
    and "str_batch t = str_batch s" "str_results t = str_results s" "str_aborted t = str_aborted s"
  shows "truthful w t"
  unfolding truthful_def
proof (intro conjI ballI)
  show "\<not> str_aborted t" using assms(2,6) by (simp add: truthful_def)
next
  fix x assume x: "x \<in> set (str_results t)"
  obtain i b where ib: "x = (i, b)" by fastforce
  have "i < length (str_queued s)" "b = answer_to w (str_queued s) i"
    using x ib assms(2,5) accounted_range(1) [OF assms(1), of i b] by (auto simp: truthful_def)
  then show "case x of (i, b) \<Rightarrow> b = answer_to w (str_queued t) i"
    using ib assms(3) by (simp add: answer_to_snoc)
next
  fix g assume "g \<in> set (str_batch t)"
  then show "key_of w g \<notin> key_of w ` set (take (fl_index g) (str_queued t))"
    using assms(2-4) accounted_range(2) [OF assms(1), of g] by (simp add: truthful_def)
qed

lemma on_tool_use_spec:
  assumes "stream_inv w s"
  shows "stream_inv w (on_tool_use w i name input s)"
    and "no_engine_failure w \<Longrightarrow> truthful w s \<Longrightarrow> truthful w (on_tool_use w i name input s)"
    and "uses (str_reply (on_tool_use w i name input s)) = uses (str_reply s) @ [(i, name, input)]"
    and "all_text (on_tool_use w i name input s) = all_text s"
    and "all_thinking (on_tool_use w i name input s) = all_thinking s"
proof -
  define s1 where "s1 = close_text (close_thinking w None s)"
  have same: "same_calls s s1" unfolding s1_def
    by (rule same_calls_trans [OF close_thinking_calls close_text_calls])
  have inv1: "stream_inv w s1" by (rule stream_inv_same_calls [OF same assms])
  have closed: "all_text s1 = all_text s" "all_thinking s1 = all_thinking s" "str_text s1 = []" "str_thinking s1 = []"
    by (simp_all add: s1_def)
  define f where "f = \<lparr>fl_index = length (str_queued s1), fl_id = i, fl_name = name, fl_input = input\<rparr>"
  define s2 where "s2 = (emit (HostToolUse i name input)
      (s1\<lparr>str_has_tools := True, str_reply := str_reply s1 @ [MToolUse i name input]\<rparr>))\<lparr>str_queued := str_queued s1 @ [f]\<rparr>"
  have state: "str_queued s2 = str_queued s1 @ [f]" "str_batch s2 = str_batch s1" "str_results s2 = str_results s1"
    "str_aborted s2 = str_aborted s1" "str_seen s2 = str_seen s1" "str_reply s2 = str_reply s1 @ [MToolUse i name input]"
    "str_has_tools s2" "str_text s2 = []" "str_thinking s2 = []" "fl_index f = length (str_queued s1)"
    using closed by (simp_all add: s2_def emit_def f_def)
  have result: "on_tool_use w i name input s = start_tool w f s2"
    by (simp add: on_tool_use_def s1_def f_def s2_def emit_def Let_def)
  have acc1: "accounted (length (str_queued s1)) s1" using inv1 by (simp add: stream_inv_def)
  have j: "joined s2 f" by (rule accounted_grow [OF acc1 state(1,2,3,10)])
  have seen: "set (str_seen s2) = key_of w ` set (butlast (str_queued s2))"
    using inv1 state by (simp add: stream_inv_def)
  note started = start_tool_spec [OF j seen]
  show "stream_inv w (on_tool_use w i name input s)"
    using started inv1 state
    by (simp add: result stream_inv_def uses_snoc call_of_def f_def)
  show "uses (str_reply (on_tool_use w i name input s)) = uses (str_reply s) @ [(i, name, input)]"
    using started(3) state(6) same by (simp add: result uses_snoc same_calls_def)
  show "all_text (on_tool_use w i name input s) = all_text s"
    "all_thinking (on_tool_use w i name input s) = all_thinking s"
    using started state closed by (simp_all add: result all_text_def all_thinking_def flip: closed(1,2))
  assume "no_engine_failure w" "truthful w s"
  then have "truthful w s2"
    using truthful_grow [OF acc1 truthful_same_calls [OF same] state(1-4)] by blast
  with started(8) \<open>no_engine_failure w\<close> show "truthful w (on_tool_use w i name input s)" by (simp add: result)
qed

fun event_text :: "model_event \<Rightarrow> string" where
  "event_text (EvTextDelta t) = t"
| "event_text _ = []"

fun event_thinking :: "model_event \<Rightarrow> string" where
  "event_thinking (EvThinkingDelta t) = t"
| "event_thinking _ = []"

fun event_call :: "model_event \<Rightarrow> (string \<times> string \<times> json) list" where
  "event_call (EvToolUse i name input) = [(i, name, input)]"
| "event_call _ = []"

lemma emit_same_calls [simp]: "same_calls s (emit e s)"
  by (simp add: same_calls_def emit_def)

lemma on_event_spec:
  assumes "stream_inv w s"
  shows "stream_inv w (on_event w e s)"
    and "no_engine_failure w \<Longrightarrow> truthful w s \<Longrightarrow> truthful w (on_event w e s)"
    and "uses (str_reply (on_event w e s)) = uses (str_reply s) @ event_call e"
    and "all_text (on_event w e s) = all_text s @ event_text e"
    and "all_thinking (on_event w e s) = all_thinking s @ event_thinking e"
proof -
  have kinds: "(\<exists>i n p. e = EvToolUse i n p) \<or> same_calls s (on_event w e s) \<and> event_call e = []"
    using close_thinking_calls [of s w] close_text_calls [of s]
    by (cases e) (auto simp: same_calls_def emit_def Let_def uses_snoc close_thinking_def close_text_def)
  then have "stream_inv w (on_event w e s) \<and> (no_engine_failure w \<longrightarrow> truthful w s \<longrightarrow> truthful w (on_event w e s))"
    using on_tool_use_spec [OF assms] stream_inv_same_calls [OF _ assms] truthful_same_calls by auto
  then show "stream_inv w (on_event w e s)"
    "no_engine_failure w \<Longrightarrow> truthful w s \<Longrightarrow> truthful w (on_event w e s)" by auto
  show "uses (str_reply (on_event w e s)) = uses (str_reply s) @ event_call e"
    using kinds on_tool_use_spec(3) [OF assms] by (auto simp: same_calls_def)
  show "all_text (on_event w e s) = all_text s @ event_text e"
    "all_thinking (on_event w e s) = all_thinking s @ event_thinking e"
    using on_tool_use_spec(4,5) [OF assms]
    by (cases e; auto simp: Let_def all_text_def all_thinking_def emit_def close_thinking_def close_text_def)+
qed


text \<open>The events that are acted on: up to the first cancellation or stream error.\<close>

fun received :: "stream_world \<Rightarrow> nat \<Rightarrow> (string + model_event) list \<Rightarrow> model_event list" where
  "received w n [] = []"
| "received w n (ev # evs) =
     (if w_cancelled w n then [] else case ev of Inl _ \<Rightarrow> [] | Inr e \<Rightarrow> e # received w (Suc n) evs)"

lemma stream_inv_start: "stream_inv w stream_start" "truthful w stream_start"
  by (simp_all add: stream_inv_def truthful_def accounted_def stream_start_def)

lemma stream_inv_abort: "stream_inv w s \<Longrightarrow> stream_inv w (s\<lparr>str_aborted := b\<rparr>)"
  by (simp add: stream_inv_def accounted_def)

lemma consume_spec:
  assumes "stream_inv w s" "consume w n evs s = (t, err)"
  shows "stream_inv w t"
    and "no_engine_failure w \<Longrightarrow> truthful w s \<Longrightarrow> err = None \<Longrightarrow> truthful w t"
    and "uses (str_reply t) = uses (str_reply s) @ concat (map event_call (received w n evs))"
    and "all_text t = all_text s @ concat (map event_text (received w n evs))"
    and "all_thinking t = all_thinking s @ concat (map event_thinking (received w n evs))"
proof -
  have "stream_inv w t \<and> (no_engine_failure w \<longrightarrow> truthful w s \<longrightarrow> err = None \<longrightarrow> truthful w t) \<and>
    uses (str_reply t) = uses (str_reply s) @ concat (map event_call (received w n evs)) \<and>
    all_text t = all_text s @ concat (map event_text (received w n evs)) \<and>
    all_thinking t = all_thinking s @ concat (map event_thinking (received w n evs))"
    using assms
  proof (induction w n evs s rule: consume.induct)
    case (2 w n ev evs s)
    show ?case
    proof (cases "w_cancelled w n \<or> isl ev")
      case True
      then show ?thesis using "2.prems" stream_inv_abort
        by (auto simp: all_text_def all_thinking_def isl_def split: if_splits)
    next
      case False
      then obtain e where e: "ev = Inr e" "\<not> w_cancelled w n" by (cases ev) auto
      note step = on_event_spec [OF "2.prems"(1), of e]
      show ?thesis
        using "2.IH" [OF e(2) e(1) step(1)] "2.prems"(2) e step by auto
    qed
  qed auto
  then show "stream_inv w t"
    "no_engine_failure w \<Longrightarrow> truthful w s \<Longrightarrow> err = None \<Longrightarrow> truthful w t"
    "uses (str_reply t) = uses (str_reply s) @ concat (map event_call (received w n evs))"
    "all_text t = all_text s @ concat (map event_text (received w n evs))"
    "all_thinking t = all_thinking s @ concat (map event_thinking (received w n evs))" by auto
qed

definition streamed :: "stream_world \<Rightarrow> (string + model_event) list \<Rightarrow> stream_state" where
  "streamed w events = finish_stream w (fst (consume w 0 events stream_start))"

lemma streamed_spec:
  fixes w events
  defines "s \<equiv> streamed w events"
  shows "stream_inv w s" "str_batch s = []" "str_text s = []" "str_thinking s = []"
    and "no_engine_failure w \<Longrightarrow> snd (consume w 0 events stream_start) = None \<Longrightarrow> truthful w s"
    and "uses (str_reply s) = concat (map event_call (received w 0 events))"
    and "concat (map text_of (str_reply s)) = concat (map event_text (received w 0 events))"
    and "concat (map thinking_of (str_reply s)) = concat (map event_thinking (received w 0 events))"
proof -
  obtain t err where t: "consume w 0 events stream_start = (t, err)" by fastforce
  note c = consume_spec [OF stream_inv_start(1) t]
  define t1 where "t1 = close_text (close_thinking w None t)"
  have same: "same_calls t t1" unfolding t1_def
    by (rule same_calls_trans [OF close_thinking_calls close_text_calls])
  have inv: "stream_inv w t1" by (rule stream_inv_same_calls [OF same c(1)])
  have s: "s = drain_batch w t1" by (simp add: s_def streamed_def finish_stream_def t t1_def)
  have acc: "accounted (length (str_queued t1)) t1" using inv by (simp add: stream_inv_def)
  note d = drain_batch_spec [OF acc, of w, folded s]
  have frame: "same_frame t1 s" and batch: "str_batch s = []" and acc': "accounted (length (str_queued t1)) s"
    using d by auto
  show "stream_inv w s" using inv frame acc' by (simp add: stream_inv_def same_frame_def)
  show "str_batch s = []" by (rule batch)
  show closed: "str_text s = []" "str_thinking s = []" using frame by (auto simp: same_frame_def t1_def close_text_def)
  show "no_engine_failure w \<Longrightarrow> snd (consume w 0 events stream_start) = None \<Longrightarrow> truthful w s"
    using d c(2) stream_inv_start(2) truthful_same_calls [OF same] t by auto
  show "uses (str_reply s) = concat (map event_call (received w 0 events))"
    using c(3) same frame by (simp add: same_calls_def same_frame_def stream_start_def)
  have "all_text t1 = all_text t" "all_thinking t1 = all_thinking t" by (simp_all add: t1_def)
  moreover have "all_text s = all_text t1" "all_thinking s = all_thinking t1"
    using frame by (simp_all add: same_frame_def all_text_def all_thinking_def)
  ultimately show "concat (map text_of (str_reply s)) = concat (map event_text (received w 0 events))"
    "concat (map thinking_of (str_reply s)) = concat (map event_thinking (received w 0 events))"
    using c(4,5) closed by (simp_all add: all_text_def all_thinking_def stream_start_def)
qed


section \<open>What the session is left with\<close>

lemma foldl_push: "ses_messages (inject_new_messages now msgs s) = ses_messages s @ map injected msgs"
  unfolding inject_new_messages_def by (induction msgs arbitrary: s) (simp_all add: push_message_def)

lemma foldl_inject:
  "ses_messages (foldl (\<lambda>s msgs. inject_new_messages now msgs s) s batches) = ses_messages s @ map injected (concat batches)"
  by (induction batches arbitrary: s) (simp_all add: foldl_push)

definition answers :: "stream_state \<Rightarrow> model_block list" where
  "answers s = map snd (sort_key fst (str_results s))"

lemma execute_stream_messages:
  "ses_messages (fst (snd (execute_stream w now is events ses))) = ses_messages ses @
     (let s = streamed w events
      in if str_reply s = [] then []
         else [intercept_message is \<lparr>role = RoleAssistant, content = str_reply s\<rparr>] @
           (if uses (str_reply s) = [] then [] else [\<lparr>role = RoleUser, content = answers s\<rparr>]) @
           map injected (concat (str_new_msgs s)))"
  by (simp add: execute_stream_def streamed_def write_reply_def answers_def foldl_inject push_reply_def
      push_message_def Let_def flip: uses_iff split: prod.splits)

text \<open>The results sorted by submission are one answer per call, in the order of the calls.\<close>

lemma answers_in_order:
  assumes "stream_inv w s" "str_batch s = []"
  shows "map fst (sort_key fst (str_results s)) = [0..<length (str_queued s)]"
    and "map result_id (answers s) = map (\<lambda>f. Some (fl_id f)) (str_queued s)"
proof -
  let ?rs = "sort_key fst (str_results s)" and ?n = "length (str_queued s)"
  have acc: "accounted ?n s" using assms(1) by (simp add: stream_inv_def)
  then have "mset (map fst ?rs) = mset [0..<?n]"
    using assms(2) by (simp add: accounted_def)
  then have "sort (map fst ?rs) = [0..<?n]" by (intro properties_for_sort) simp_all
  moreover have "sort (map fst ?rs) = map fst ?rs" by (simp add: sorted_sort_id)
  ultimately show idx: "map fst ?rs = [0..<?n]" by simp
  then have len: "length ?rs = ?n" by (metis diff_zero length_map length_upt)
  show "map result_id (answers s) = map (\<lambda>f. Some (fl_id f)) (str_queued s)"
  proof (rule nth_equalityI)
    show "length (map result_id (answers s)) = length (map (\<lambda>f. Some (fl_id f)) (str_queued s))"
      using len by (simp add: answers_def)
    fix i assume i: "i < length (map result_id (answers s))"
    then have lt: "i < ?n" using len by (simp add: answers_def)
    have fst: "fst (?rs ! i) = i" using idx lt len by (metis add_0 nth_map nth_upt)
    have "?rs ! i \<in> set (str_results s)" using lt len by (metis nth_mem set_sort)
    then have "result_id (snd (?rs ! i)) = Some (fl_id (str_queued s ! i))"
      using acc fst by (auto simp: accounted_def split_beta)
    then show "map result_id (answers s) ! i = map (\<lambda>f. Some (fl_id f)) (str_queued s) ! i"
      using lt len by (simp add: answers_def)
  qed
qed

lemma queue_ids: "stream_inv w s \<Longrightarrow> map (\<lambda>f. Some (fl_id f)) (str_queued s) = map (\<lambda>(i, _, _). Some i) (uses (str_reply s))"
proof -
  assume "stream_inv w s"
  then have "uses (str_reply s) = map call_of (str_queued s)" by (simp add: stream_inv_def)
  then show ?thesis by (simp add: call_of_def o_def)
qed

text \<open>C20. Every tool call is answered.  Whatever finishes first, fails, is cancelled or breaks off: the session
  gains either nothing or one assistant message with the reply (no empty block, the text, the reasoning
  and the calls exactly as received), then, if there were calls, one user message whose results carry
  the ids of the calls, one each and in order, then the messages the tools injected.\<close>
theorem every_call_is_answered:
  "\<exists>reply results extra.
     ses_messages (fst (snd (execute_stream w now is events ses))) = ses_messages ses @
       (if reply = [] then []
        else [intercept_message is \<lparr>role = RoleAssistant, content = reply\<rparr>] @
          (if uses reply = [] then [] else [\<lparr>role = RoleUser, content = results\<rparr>]) @ map injected extra) \<and>
     list_all solid reply \<and>
     concat (map text_of reply) = concat (map event_text (received w 0 events)) \<and>
     concat (map thinking_of reply) = concat (map event_thinking (received w 0 events)) \<and>
     uses reply = concat (map event_call (received w 0 events)) \<and>
     map result_id results = map (\<lambda>(i, _, _). Some i) (uses reply)"
proof -
  let ?s = "streamed w events"
  note spec = streamed_spec [of w events]
  have "list_all solid (str_reply ?s)" using spec(1) by (simp add: stream_inv_def)
  moreover have "map result_id (answers ?s) = map (\<lambda>(i, _, _). Some i) (uses (str_reply ?s))"
    using answers_in_order(2) [OF spec(1,2)] queue_ids [OF spec(1)] by simp
  ultimately show ?thesis
    using spec(6-8) execute_stream_messages [of w now "is" events ses]
    by (intro exI [of _ "str_reply ?s"] exI [of _ "answers ?s"] exI [of _ "concat (str_new_msgs ?s)"])
      (simp add: Let_def)
qed

lemma truthful_answers:
  assumes "stream_inv w s" "str_batch s = []" "truthful w s"
  shows "answers s = map (answer_to w (str_queued s)) [0..<length (str_queued s)]"
proof (rule nth_equalityI)
  let ?rs = "sort_key fst (str_results s)"
  note order = answers_in_order(1) [OF assms(1,2)]
  then have len: "length ?rs = length (str_queued s)" by (metis diff_zero length_map length_upt)
  then show "length (answers s) = length (map (answer_to w (str_queued s)) [0..<length (str_queued s)])"
    by (simp add: answers_def)
  fix i assume "i < length (answers s)"
  then have lt: "i < length (str_queued s)" using len by (simp add: answers_def)
  have fst: "fst (?rs ! i) = i" using order lt len by (metis add_0 nth_map nth_upt)
  have "?rs ! i \<in> set (str_results s)" using lt len by (metis nth_mem set_sort)
  then have "snd (?rs ! i) = answer_to w (str_queued s) i"
    using assms(3) fst by (auto simp: truthful_def split_beta)
  then show "answers s ! i = map (answer_to w (str_queued s)) [0..<length (str_queued s)] ! i"
    using lt len by (simp add: answers_def)
qed


section \<open>Schedules\<close>

text \<open>Two worlds that differ only in which future finishes first and in what a cancelled one delivers.\<close>

definition same_but_schedule :: "stream_world \<Rightarrow> stream_world \<Rightarrow> bool" where
  "same_but_schedule w w' \<longleftrightarrow>
     w_run w' = w_run w \<and> w_safe w' = w_safe w \<and> w_cancelled w' = w_cancelled w \<and> w_show w' = w_show w \<and>
     w_provenance w' = w_provenance w"

definition in_phase :: "stream_state \<Rightarrow> stream_state \<Rightarrow> bool" where
  "in_phase s t \<longleftrightarrow>
     str_reply t = str_reply s \<and> str_text t = str_text s \<and> str_thinking t = str_thinking s \<and>
     str_queued t = str_queued s"

lemma on_tool_use_shape:
  assumes "stream_inv w s"
  defines "t \<equiv> close_text (close_thinking w None s)"
  shows "str_reply (on_tool_use w i name input s) = str_reply t @ [MToolUse i name input]"
    "str_queued (on_tool_use w i name input s) =
       str_queued s @ [\<lparr>fl_index = length (str_queued s), fl_id = i, fl_name = name, fl_input = input\<rparr>]"
    "str_text (on_tool_use w i name input s) = []" "str_thinking (on_tool_use w i name input s) = []"
proof -
  have same: "same_calls s t" unfolding t_def
    by (rule same_calls_trans [OF close_thinking_calls close_text_calls])
  have inv: "stream_inv w t" by (rule stream_inv_same_calls [OF same assms(1)])
  define f where "f = \<lparr>fl_index = length (str_queued t), fl_id = i, fl_name = name, fl_input = input\<rparr>"
  define t2 where "t2 = (emit (HostToolUse i name input)
      (t\<lparr>str_has_tools := True, str_reply := str_reply t @ [MToolUse i name input]\<rparr>))\<lparr>str_queued := str_queued t @ [f]\<rparr>"
  have result: "on_tool_use w i name input s = start_tool w f t2"
    by (simp add: on_tool_use_def t_def f_def t2_def emit_def Let_def)
  have acc: "accounted (length (str_queued t)) t" using inv by (simp add: stream_inv_def)
  have j: "joined t2 f"
    by (rule accounted_grow [OF acc]) (simp_all add: t2_def emit_def f_def)
  have seen: "set (str_seen t2) = key_of w ` set (butlast (str_queued t2))"
    using inv by (simp add: t2_def emit_def stream_inv_def)
  note started = start_tool_spec [OF j seen]
  show "str_reply (on_tool_use w i name input s) = str_reply t @ [MToolUse i name input]"
    "str_queued (on_tool_use w i name input s) =
       str_queued s @ [\<lparr>fl_index = length (str_queued s), fl_id = i, fl_name = name, fl_input = input\<rparr>]"
    using started same by (simp_all add: result t2_def emit_def f_def same_calls_def)
  have "str_text t = []" "str_thinking t = []" by (simp_all add: t_def close_text_def close_thinking_def)
  then show "str_text (on_tool_use w i name input s) = []" "str_thinking (on_tool_use w i name input s) = []"
    using started by (simp_all add: result t2_def emit_def)
qed

lemma on_event_in_phase:
  assumes "same_but_schedule w w'" "stream_inv w s" "stream_inv w' t" "in_phase s t"
  shows "in_phase (on_event w e s) (on_event w' e t)"
proof (cases e)
  case (EvToolUse i n p)
  then show ?thesis
    using assms on_tool_use_shape [OF assms(2)] on_tool_use_shape [OF assms(3)]
    by (simp add: in_phase_def same_but_schedule_def close_text_def close_thinking_def)
qed (use assms in \<open>auto simp: in_phase_def same_but_schedule_def emit_def close_text_def close_thinking_def Let_def\<close>)

lemma consume_in_phase:
  assumes "same_but_schedule w w'" "stream_inv w s" "stream_inv w' t" "in_phase s t"
  shows "in_phase (fst (consume w n evs s)) (fst (consume w' n evs t)) \<and>
    snd (consume w' n evs t) = snd (consume w n evs s)"
  using assms(2-4)
proof (induction evs arbitrary: n s t)
  case (Cons ev evs)
  have c: "w_cancelled w' = w_cancelled w" using assms(1) by (simp add: same_but_schedule_def)
  show ?case
  proof (cases "w_cancelled w n \<or> isl ev")
    case True
    then show ?thesis using Cons.prems(3) c by (auto simp: isl_def in_phase_def)
  next
    case False
    then obtain e where e: "ev = Inr e" "\<not> w_cancelled w n" by (cases ev) auto
    show ?thesis
      using Cons.IH [OF on_event_spec(1) [OF Cons.prems(1)] on_event_spec(1) [OF Cons.prems(2)]
          on_event_in_phase [OF assms(1) Cons.prems]] e c by simp
  qed
qed simp

lemma streamed_in_phase:
  assumes "same_but_schedule w w'"
  shows "in_phase (streamed w events) (streamed w' events)"
    "snd (consume w' 0 events stream_start) = snd (consume w 0 events stream_start)"
proof -
  have start: "in_phase stream_start stream_start" by (simp add: in_phase_def)
  note c = consume_in_phase [OF assms stream_inv_start(1) stream_inv_start(1) start, of 0 events]
  show "snd (consume w' 0 events stream_start) = snd (consume w 0 events stream_start)" using c by simp
  have frame: "same_frame (close_text (close_thinking v None (fst (consume v 0 events stream_start)))) (streamed v events)" for v
  proof -
    obtain t err where t: "consume v 0 events stream_start = (t, err)" by fastforce
    have "stream_inv v (close_text (close_thinking v None t))"
      using consume_spec(1) [OF stream_inv_start(1) t] stream_inv_same_calls same_calls_trans
        close_thinking_calls close_text_calls by blast
    then have acc: "accounted (length (str_queued (close_text (close_thinking v None t)))) (close_text (close_thinking v None t))"
      by (simp add: stream_inv_def)
    from drain_batch_spec [OF acc, of v] t show ?thesis by (simp add: streamed_def finish_stream_def)
  qed
  show "in_phase (streamed w events) (streamed w' events)"
    using c frame [of w] frame [of w'] assms
    by (simp add: in_phase_def same_frame_def same_but_schedule_def close_text_def close_thinking_def)
qed


text \<open>A world in which the last call of a batch finishes first, and one that goes in order.\<close>

definition calm_world :: stream_world where
  "calm_world =
     \<lparr>w_run = (\<lambda>i u n p. Inr \<lparr>ta_text = u, ta_new_messages = Some [JObject [(''content'', JString u)]], ta_reported_failure = False\<rparr>),
      w_safe = (\<lambda>n p. True), w_next = (\<lambda>_. 0), w_cut = (\<lambda>_. False), w_cancelled = (\<lambda>_. False),
      w_show = (\<lambda>p. case p of JString x \<Rightarrow> x | _ \<Rightarrow> []), w_provenance = None\<rparr>"

definition late_world :: stream_world where
  "late_world = calm_world\<lparr>w_next := (\<lambda>is. length is - 1)\<rparr>"

definition two_calls :: "(string + model_event) list" where
  "two_calls =
     [Inr (EvTextDelta ''ok''), Inr (EvToolUse ''a'' ''Glob'' (JString ''x'')),
      Inr (EvToolUse ''b'' ''Glob'' (JString ''y'')), Inr (EvEndTurn ''tool_use'' no_usage)]"


text \<open>The messages tools inject do follow the schedule: they are written in the order the tools finished.\<close>

theorem injected_messages_follow_schedule:
  "drop 2 (ses_messages (fst (snd (execute_stream calm_world 0 [] two_calls (session_new ''s'' None))))) =
     [\<lparr>role = RoleUser, content = [MText ''a'']\<rparr>, \<lparr>role = RoleUser, content = [MText ''b'']\<rparr>] \<and>
   drop 2 (ses_messages (fst (snd (execute_stream late_world 0 [] two_calls (session_new ''s'' None))))) =
     [\<lparr>role = RoleUser, content = [MText ''b'']\<rparr>, \<lparr>role = RoleUser, content = [MText ''a'']\<rparr>]"
  by code_simp

end
