(* ===== verification/Policies.thy ===== *)
theory Policies
  imports Session Json
begin

text \<open>
  The decisions of a turn that a deployment may replace: \<open>recovery_policy.rs\<close>, \<open>backoff.rs\<close>,
  \<open>budget_policy.rs\<close> and \<open>turn_policy.rs\<close> of \<open>crates/core/src/interface\<close>, with the request errors they
  judge (\<open>crates/model/src/error.rs\<close>, \<open>adapter.rs\<close>) and the retry loop of both clients.

  A trait is a record of its methods and a shipped implementation a value of it.  A duration is its number of
  milliseconds; the jitter (it reads the clock) and the product with the floating-point 0.9 are parameters.  A
  product of 64-bit integers wraps, as it does in a release build.
\<close>

section \<open>Recovery\<close>

datatype model_failure = MfOverloaded | MfContextTooLong string | MfOther string

datatype recovery = RecoverFail | RetryWith string | CompactAndRetry

datatype stop_recovery = StopAccept | RaiseOutputLimit "32 word" "string option"

record recovery_attempt =
  ra_escalations :: "32 word"
  ra_max_tokens :: "32 word"

record recovery_policy =
  on_failure :: "model_failure \<Rightarrow> recovery"
  on_early_stop :: "string \<Rightarrow> recovery_attempt \<Rightarrow> stop_recovery"

definition FIRST_ESCALATION :: "32 word" where
  "FIRST_ESCALATION = 64000"

definition LATER_ESCALATION :: "32 word" where
  "LATER_ESCALATION = 8000"

definition NUDGE :: string where
  "NUDGE = ''Output token limit hit. Resume directly '' @ em_dash
     @ '' no apology, no recap of what you were doing. Pick up mid-thought if that is where the cut happened. ''
     @ ''Break remaining work into smaller pieces.''"

definition default_on_failure :: "string option \<Rightarrow> model_failure \<Rightarrow> recovery" where
  "default_on_failure fallback failure =
     (case failure of
        MfOverloaded \<Rightarrow> (case fallback of Some model \<Rightarrow> RetryWith model | None \<Rightarrow> RecoverFail)
      | MfContextTooLong _ \<Rightarrow> CompactAndRetry
      | MfOther _ \<Rightarrow> RecoverFail)"

definition default_on_early_stop :: "32 word \<Rightarrow> string \<Rightarrow> recovery_attempt \<Rightarrow> stop_recovery" where
  "default_on_early_stop max_escalations reason attempt =
     (if reason \<noteq> ''max_tokens'' \<or> max_escalations \<le> ra_escalations attempt then StopAccept
      else if ra_escalations attempt = 0 \<and> ra_max_tokens attempt < FIRST_ESCALATION
      then RaiseOutputLimit FIRST_ESCALATION None
      else RaiseOutputLimit (max (ra_max_tokens attempt) LATER_ESCALATION) (Some NUDGE))"

definition default_recovery :: "string option \<Rightarrow> 32 word \<Rightarrow> recovery_policy" where
  "default_recovery fallback max_escalations =
     \<lparr>on_failure = default_on_failure fallback, on_early_stop = default_on_early_stop max_escalations\<rparr>"

definition default_recovery_new :: "string option \<Rightarrow> recovery_policy" where
  "default_recovery_new fallback = default_recovery fallback 3"

definition never_recover :: recovery_policy where
  "never_recover = \<lparr>on_failure = (\<lambda>_. RecoverFail), on_early_stop = (\<lambda>_ _. StopAccept)\<rparr>"

section \<open>Backoff\<close>

datatype request_failure = RfRateLimited | RfOverloaded | RfTransport | RfOther

record failed_attempt =
  fa_index :: "32 word"
  fa_failure :: request_failure
  fa_hint :: "64 word option"

datatype backoff = GiveUp | WaitThenRetry "64 word"

type_synonym backoff_policy = "failed_attempt \<Rightarrow> backoff"

definition DEFAULT_STEPS :: "64 word list" where
  "DEFAULT_STEPS = [1000, 2000, 4000, 8000, 16000, 32000]"

definition ladder_backoff :: "(failed_attempt \<Rightarrow> 64 word \<Rightarrow> 64 word) \<Rightarrow> 64 word list \<Rightarrow> backoff_policy" where
  "ladder_backoff jittered steps attempt =
     (if fa_failure attempt = RfOther then GiveUp
      else if length steps \<le> unat (fa_index attempt) then GiveUp
      else (let base = (case fa_hint attempt of Some hint \<Rightarrow> hint | None \<Rightarrow> steps ! unat (fa_index attempt))
            in WaitThenRetry (jittered attempt base)))"

definition no_backoff :: backoff_policy where
  "no_backoff attempt = GiveUp"

section \<open>Request errors\<close>

datatype anthropic_error =
    AeTransport string
  | AeRateLimited "64 word option" "(string \<times> string) list"
  | AeOverloaded nat
  | AeServer nat string
  | AeAuth string
  | AeStreamInterrupted
  | AeSse string
  | AeSchema string
  | AeRefused
  | AeCancelled
  | AeParse string
  | AeDenied string

datatype model_error =
    MeApi nat string
  | MeAuth string
  | MeRateLimited
  | MeOverloaded
  | MeNetwork string
  | MeCancelled
  | MeInternal string

text \<open>What \<open>send_one\<close> makes of a status outside 200..299, and \<open>send_once\<close> of the other protocol.\<close>

definition cap_body :: "string \<Rightarrow> string" where
  "cap_body body = (if 4096 < utf8_len body then take 4096 body else body)"

definition classify_response :: "nat \<Rightarrow> 64 word option \<Rightarrow> (string \<times> string) list \<Rightarrow> string \<Rightarrow> anthropic_error" where
  "classify_response code retry_after headers body =
     (if code = 401 \<or> code = 403 then AeAuth (cap_body body)
      else if code = 429 then AeRateLimited retry_after headers
      else if code = 503 \<or> code = 529 then AeOverloaded code
      else AeServer code (cap_body body))"

definition openai_status_error :: "nat \<Rightarrow> string \<Rightarrow> model_error" where
  "openai_status_error code body =
     (if code = 401 \<or> code = 403 then MeAuth (cap_body body)
      else if code = 429 then MeRateLimited
      else if code = 503 \<or> code = 529 then MeOverloaded
      else MeApi code (cap_body body))"

definition failure_kind :: "anthropic_error \<Rightarrow> request_failure" where
  "failure_kind e =
     (case e of
        AeTransport _ \<Rightarrow> RfTransport
      | AeRateLimited _ _ \<Rightarrow> RfRateLimited
      | AeOverloaded _ \<Rightarrow> RfOverloaded
      | _ \<Rightarrow> RfOther)"

definition openai_failure_kind :: "model_error \<Rightarrow> request_failure" where
  "openai_failure_kind e =
     (case e of
        MeNetwork _ \<Rightarrow> RfTransport
      | MeRateLimited \<Rightarrow> RfRateLimited
      | MeOverloaded \<Rightarrow> RfOverloaded
      | _ \<Rightarrow> RfOther)"

definition map_error :: "anthropic_error \<Rightarrow> model_error" where
  "map_error e =
     (case e of
        AeAuth msg \<Rightarrow> MeAuth msg
      | AeRateLimited _ _ \<Rightarrow> MeRateLimited
      | AeOverloaded _ \<Rightarrow> MeOverloaded
      | AeTransport m \<Rightarrow> MeNetwork m
      | AeServer status body \<Rightarrow> MeApi status body
      | AeCancelled \<Rightarrow> MeCancelled
      | AeStreamInterrupted \<Rightarrow> MeInternal ''stream interrupted''
      | AeSse m \<Rightarrow> MeInternal (''sse: '' @ m)
      | AeSchema m \<Rightarrow> MeInternal (''schema: '' @ m)
      | AeRefused \<Rightarrow> MeInternal ''refused by model''
      | AeParse m \<Rightarrow> MeInternal (''parse error: '' @ m)
      | AeDenied m \<Rightarrow> MeInternal (''refused by egress policy: '' @ m))"

definition show_model_error :: "model_error \<Rightarrow> string" where
  "show_model_error e =
     (case e of
        MeApi status message \<Rightarrow> ''API error '' @ show_nat status @ '': '' @ message
      | MeAuth m \<Rightarrow> ''auth error: '' @ m
      | MeRateLimited \<Rightarrow> ''rate limited''
      | MeOverloaded \<Rightarrow> ''overloaded''
      | MeNetwork m \<Rightarrow> ''network error: '' @ m
      | MeCancelled \<Rightarrow> ''cancelled''
      | MeInternal m \<Rightarrow> ''internal: '' @ m)"

definition to_model_failure :: "model_error \<Rightarrow> model_failure" where
  "to_model_failure e =
     (case e of
        MeOverloaded \<Rightarrow> MfOverloaded
      | MeInternal msg \<Rightarrow>
          (if contains_str msg ''prompt too long'' \<or> contains_str msg ''413'' then MfContextTooLong msg
           else MfOther (show_model_error e))
      | _ \<Rightarrow> MfOther (show_model_error e))"

definition classify_failure :: "recovery_policy \<Rightarrow> model_error \<Rightarrow> recovery" where
  "classify_failure policy e = on_failure policy (to_model_failure e)"

section \<open>The retry loop of a client\<close>

text \<open>\<open>send n\<close> is the answer to the n-th request, \<open>None\<close> when no response arrived within the idle window.  A policy may
  ask for ever, so the loop is partial.  It returns its result and the delays it slept.\<close>

partial_function (option) retry_loop ::
  "('e \<Rightarrow> request_failure) \<Rightarrow> ('e \<Rightarrow> 64 word option) \<Rightarrow> 'e \<Rightarrow> backoff_policy \<Rightarrow> (nat \<Rightarrow> ('e + 'r) option) \<Rightarrow> nat
   \<Rightarrow> 32 word \<Rightarrow> 64 word list \<Rightarrow> (('e + 'r) \<times> 64 word list) option" where
  "retry_loop kind hint elapsed policy send n attempt delays =
     (case (case send n of Some r \<Rightarrow> r | None \<Rightarrow> Inl elapsed) of
        Inr resp \<Rightarrow> Some (Inr resp, delays)
      | Inl e \<Rightarrow>
          (case policy \<lparr>fa_index = attempt, fa_failure = kind e, fa_hint = hint e\<rparr> of
             GiveUp \<Rightarrow> Some (Inl e, delays)
           | WaitThenRetry delay \<Rightarrow>
               retry_loop kind hint elapsed policy send (Suc n) (attempt + 1) (delays @ [delay])))"

definition anthropic_hint :: "anthropic_error \<Rightarrow> 64 word option" where
  "anthropic_hint e = (case e of AeRateLimited retry_after _ \<Rightarrow> retry_after | _ \<Rightarrow> None)"

definition send_with_retry ::
  "backoff_policy \<Rightarrow> (nat \<Rightarrow> (anthropic_error + 'r) option) \<Rightarrow> ((anthropic_error + 'r) \<times> 64 word list) option" where
  "send_with_retry policy send = retry_loop failure_kind anthropic_hint AeStreamInterrupted policy send 0 0 []"

definition openai_send_with_retry ::
  "backoff_policy \<Rightarrow> (nat \<Rightarrow> (model_error + 'r) option) \<Rightarrow> ((model_error + 'r) \<times> 64 word list) option" where
  "openai_send_with_retry policy send =
     retry_loop openai_failure_kind (\<lambda>_. None) (MeNetwork ''no response headers within the idle window'')
       policy send 0 0 []"

section \<open>Budgets\<close>

definition sat_add :: "'a::len word \<Rightarrow> 'a word \<Rightarrow> 'a word" where
  "sat_add a b = (if unat a + unat b < 2 ^ LENGTH('a) then a + b else - 1)"

definition sat_sub :: "'a::len word \<Rightarrow> 'a word \<Rightarrow> 'a word" where
  "sat_sub a b = (if b \<le> a then a - b else 0)"

definition usage_plus :: "usage \<Rightarrow> usage \<Rightarrow> usage" where
  "usage_plus a b =
     \<lparr>us_input = sat_add (us_input a) (us_input b), us_output = sat_add (us_output a) (us_output b),
      us_cache_creation = sat_add (us_cache_creation a) (us_cache_creation b),
      us_cache_read = sat_add (us_cache_read a) (us_cache_read b)\<rparr>"

record spend =
  sp_input :: "64 word"
  sp_output :: "64 word"
  sp_cache_creation :: "64 word"
  sp_cache_read :: "64 word"

definition total_tokens :: "spend \<Rightarrow> 64 word" where
  "total_tokens s = sat_add (sp_input s) (sp_output s)"

definition all_tokens :: "spend \<Rightarrow> 64 word" where
  "all_tokens s = sat_add (sat_add (total_tokens s) (sp_cache_creation s)) (sp_cache_read s)"

definition spend_of :: "usage \<Rightarrow> spend" where
  "spend_of u =
     \<lparr>sp_input = ucast (us_input u), sp_output = ucast (us_output u),
      sp_cache_creation = ucast (us_cache_creation u), sp_cache_read = ucast (us_cache_read u)\<rparr>"

datatype spending = WithinBudget | SpendWarn string "64 word" | SpendExhausted "64 word"

record output_progress =
  op_accumulated :: "64 word"
  op_target :: "64 word"
  op_continuations :: "32 word"
  op_this_delta :: "64 word"
  op_last_delta :: "64 word"

datatype output_target = TargetReached | KeepGoing string

record scene_budget =
  sb_compact_threshold :: nat
  sb_keep_recent :: nat

record context_budget =
  cb_compact_threshold :: nat
  cb_keep_recent :: nat
  cb_hard_cap :: "nat option"

record budget_policy =
  on_usage :: "spend \<Rightarrow> spending"
  on_output_target :: "output_progress \<Rightarrow> output_target"
  context_budget_for :: "scene_budget \<Rightarrow> context_budget"

definition default_context_budget :: "scene_budget \<Rightarrow> context_budget" where
  "default_context_budget scene =
     \<lparr>cb_compact_threshold = sb_compact_threshold scene, cb_keep_recent = sb_keep_recent scene,
      cb_hard_cap = None\<rparr>"

definition default_budget :: budget_policy where
  "default_budget =
     \<lparr>on_usage = (\<lambda>_. WithinBudget), on_output_target = (\<lambda>_. TargetReached),
      context_budget_for = default_context_budget\<rparr>"

definition BUDGET_REMINDER :: string where
  "BUDGET_REMINDER =
     ''<system-reminder>'' @ [CHR 0x0A]
     @ ''Output token budget nearly exhausted. Keep your response concise and wrap up.'' @ [CHR 0x0A]
     @ ''</system-reminder>''"

definition engine_on_usage :: "64 word option \<Rightarrow> spend \<Rightarrow> spending" where
  "engine_on_usage max_total_tokens s =
     (case max_total_tokens of
        None \<Rightarrow> WithinBudget
      | Some budget \<Rightarrow>
          (let spent = total_tokens s
           in if budget \<le> spent then SpendExhausted budget
              else if budget * 9 div 10 \<le> spent then SpendWarn BUDGET_REMINDER budget
              else WithinBudget))"

definition continue_nudge :: "output_progress \<Rightarrow> string" where
  "continue_nudge p =
     ''<system-reminder>'' @ [CHR 0x0A] @ ''Continue working. Used '' @ show_nat (unat (op_accumulated p)) @ ''/''
     @ show_nat (unat (op_target p)) @ '' output tokens (''
     @ show_nat (unat (sat_sub (op_target p) (op_accumulated p))) @ '' remaining).'' @ [CHR 0x0A]
     @ ''</system-reminder>''"

definition engine_on_output_target :: "(64 word \<Rightarrow> 64 word) \<Rightarrow> output_progress \<Rightarrow> output_target" where
  "engine_on_output_target nine_tenths p =
     (let met = nine_tenths (op_target p);
          diminishing = (3 \<le> op_continuations p \<and> op_this_delta p < 500 \<and> op_last_delta p < 500)
      in if diminishing \<or> met \<le> op_accumulated p then TargetReached else KeepGoing (continue_nudge p))"

definition engine_budget :: "(64 word \<Rightarrow> 64 word) \<Rightarrow> 64 word option \<Rightarrow> budget_policy" where
  "engine_budget nine_tenths max_total_tokens =
     \<lparr>on_usage = engine_on_usage max_total_tokens, on_output_target = engine_on_output_target nine_tenths,
      context_budget_for = default_context_budget\<rparr>"

definition capped_budget :: "budget_policy \<Rightarrow> nat \<Rightarrow> budget_policy" where
  "capped_budget inner context_hard_cap =
     \<lparr>on_usage = on_usage inner, on_output_target = on_output_target inner,
      context_budget_for = (\<lambda>scene. (context_budget_for inner scene)\<lparr>cb_hard_cap := Some context_hard_cap\<rparr>)\<rparr>"

section \<open>How long a turn may go on\<close>

record turn_progress =
  tp_api_calls :: "32 word"
  tp_tool_calls :: "32 word"
  tp_structured :: "32 word"
  tp_stop_reason :: string

datatype turn_verdict = TurnContinue | TurnStop string

definition is_stop :: "turn_verdict \<Rightarrow> bool" where
  "is_stop v = (case v of TurnStop _ \<Rightarrow> True | TurnContinue \<Rightarrow> False)"

record turn_policy =
  before_model_call :: "turn_progress \<Rightarrow> turn_verdict"
  after_model_call :: "turn_progress \<Rightarrow> turn_verdict"

definition limits_policy :: "32 word \<Rightarrow> 32 word \<Rightarrow> turn_policy" where
  "limits_policy max_api_calls max_retries =
     \<lparr>before_model_call = (\<lambda>p. if max_api_calls \<le> tp_api_calls p then TurnStop ''max_turns'' else TurnContinue),
      after_model_call = (\<lambda>p. if max_retries \<le> tp_structured p then TurnStop ''max_structured_output_retries''
                              else TurnContinue)\<rparr>"

definition limits_policy_new :: "32 word \<Rightarrow> 32 word \<Rightarrow> 32 word \<Rightarrow> turn_policy" where
  "limits_policy_new settings_max scene_max max_retries = limits_policy (min settings_max scene_max) max_retries"

fun first_stop :: "turn_verdict list \<Rightarrow> turn_verdict" where
  "first_stop [] = TurnContinue"
| "first_stop (v # vs) = (if is_stop v then v else first_stop vs)"

definition first_of :: "turn_policy list \<Rightarrow> turn_policy" where
  "first_of ps =
     \<lparr>before_model_call = (\<lambda>p. first_stop (map (\<lambda>q. before_model_call q p) ps)),
      after_model_call = (\<lambda>p. first_stop (map (\<lambda>q. after_model_call q p) ps))\<rparr>"

lemmas policies_defs [kernel_defs] =
  FIRST_ESCALATION_def LATER_ESCALATION_def default_on_failure_def default_on_early_stop_def
  default_recovery_def default_recovery_new_def never_recover_def DEFAULT_STEPS_def ladder_backoff_def
  no_backoff_def cap_body_def classify_response_def openai_status_error_def failure_kind_def
  openai_failure_kind_def map_error_def show_model_error_def to_model_failure_def
  classify_failure_def anthropic_hint_def send_with_retry_def openai_send_with_retry_def sat_add_def sat_sub_def
  usage_plus_def total_tokens_def all_tokens_def spend_of_def default_context_budget_def default_budget_def
  engine_on_usage_def continue_nudge_def engine_on_output_target_def engine_budget_def capped_budget_def
  is_stop_def limits_policy_def limits_policy_new_def first_of_def

end
