(* ===== verification/PolicyProps.thy ===== *)
theory PolicyProps
  imports Policies
begin

text \<open>
  What the policies guarantee: the retry loop of either client ends within the ladder, an HTTP failure reaches the
  turn as one of two decisions, the first policy that says stop decides, and the engine's budget is exact up
  to the width of its counters.
\<close>

section \<open>The retry loop\<close>

definition attempt_outcome :: "'e \<Rightarrow> (nat \<Rightarrow> ('e + 'r) option) \<Rightarrow> nat \<Rightarrow> 'e + 'r" where
  "attempt_outcome elapsed send n = (case send n of Some r \<Rightarrow> r | None \<Rightarrow> Inl elapsed)"

definition retriable :: "('e \<Rightarrow> request_failure) \<Rightarrow> 'e + 'r \<Rightarrow> bool" where
  "retriable kind r = (case r of Inl e \<Rightarrow> kind e \<noteq> RfOther | Inr _ \<Rightarrow> False)"

text \<open>The request a run over a ladder ends on.\<close>

definition last_request ::
  "('e \<Rightarrow> request_failure) \<Rightarrow> 'e \<Rightarrow> nat \<Rightarrow> (nat \<Rightarrow> ('e + 'r) option) \<Rightarrow> nat \<Rightarrow> bool" where
  "last_request kind elapsed rungs send k \<longleftrightarrow>
     k \<le> rungs \<and> (\<forall>i < k. retriable kind (attempt_outcome elapsed send i))
     \<and> (k = rungs \<or> \<not> retriable kind (attempt_outcome elapsed send k))"

lemma ladder_gives_up:
  "kind e = RfOther \<or> length steps \<le> unat i \<Longrightarrow>
   ladder_backoff j steps \<lparr>fa_index = i, fa_failure = kind e, fa_hint = h\<rparr> = GiveUp"
  by (auto simp: ladder_backoff_def)

lemma ladder_waits:
  assumes "kind e \<noteq> RfOther" "unat i < length steps"
  obtains d where "ladder_backoff j steps \<lparr>fa_index = i, fa_failure = kind e, fa_hint = h\<rparr> = WaitThenRetry d"
  using assms by (auto simp: ladder_backoff_def Let_def)

lemma retry_loop_stops:
  assumes "\<not> retriable kind (attempt_outcome elapsed send n) \<or> length steps \<le> unat i"
  shows "retry_loop kind hint elapsed (ladder_backoff j steps) send n i ds =
           Some (attempt_outcome elapsed send n, ds)"
proof (cases "attempt_outcome elapsed send n")
  case (Inl e)
  then have "kind e = RfOther \<or> length steps \<le> unat i" using assms by (auto simp: retriable_def)
  with Inl show ?thesis
    by (subst retry_loop.simps) (simp add: attempt_outcome_def ladder_gives_up)
next
  case (Inr r)
  then show ?thesis by (subst retry_loop.simps) (simp add: attempt_outcome_def)
qed

lemma retry_loop_waits:
  assumes "retriable kind (attempt_outcome elapsed send n)" "unat i < length steps"
  obtains d where "retry_loop kind hint elapsed (ladder_backoff j steps) send n i ds =
    retry_loop kind hint elapsed (ladder_backoff j steps) send (Suc n) (i + 1) (ds @ [d])"
proof -
  obtain e where e: "attempt_outcome elapsed send n = Inl e" "kind e \<noteq> RfOther"
    using assms(1) by (auto simp: retriable_def split: sum.splits)
  obtain d where "ladder_backoff j steps \<lparr>fa_index = i, fa_failure = kind e, fa_hint = hint e\<rparr> = WaitThenRetry d"
    by (rule ladder_waits [of kind e i steps j "hint e", OF e(2) assms(2)])
  with e(1) have "retry_loop kind hint elapsed (ladder_backoff j steps) send n i ds =
    retry_loop kind hint elapsed (ladder_backoff j steps) send (Suc n) (i + 1) (ds @ [d])"
    by (subst retry_loop.simps) (simp add: attempt_outcome_def)
  then show thesis by (rule that)
qed

lemma retry_loop_ends:
  assumes "length steps < 2 ^ 32" "n \<le> length steps"
    "\<forall>i < n. retriable kind (attempt_outcome elapsed send i)" "length ds = n"
  shows "\<exists>k es. retry_loop kind hint elapsed (ladder_backoff j steps) send n (of_nat n) ds =
                  Some (attempt_outcome elapsed send k, es)
            \<and> length es = k \<and> last_request kind elapsed (length steps) send k"
  using assms(2-4)
proof (induction "length steps - n" arbitrary: n ds)
  case 0
  then have n: "n = length steps" by simp
  have "unat (of_nat n :: 32 word) = n" using n assms(1) by (simp add: unat_of_nat)
  then show ?case
    using 0 n retry_loop_stops [of kind elapsed send n steps "of_nat n" hint j ds]
    by (auto simp: last_request_def)
next
  case (Suc m)
  have idx: "unat (of_nat n :: 32 word) = n" using Suc.prems(1) assms(1) by (simp add: unat_of_nat)
  show ?case
  proof (cases "retriable kind (attempt_outcome elapsed send n)")
    case False
    then show ?thesis
      using Suc retry_loop_stops [of kind elapsed send n steps "of_nat n" hint j ds]
      by (auto simp: last_request_def)
  next
    case True
    obtain d where d: "retry_loop kind hint elapsed (ladder_backoff j steps) send n (of_nat n) ds =
      retry_loop kind hint elapsed (ladder_backoff j steps) send (Suc n) (of_nat n + 1) (ds @ [d])"
      by (rule retry_loop_waits [of kind elapsed send n "of_nat n" steps hint j ds])
        (use True Suc.hyps(2) idx in auto)
    have "\<forall>i < Suc n. retriable kind (attempt_outcome elapsed send i)"
      using Suc.prems(2) True less_Suc_eq by auto
    with Suc.hyps(1) [of "Suc n" "ds @ [d]"] Suc.hyps(2) Suc.prems(3) show ?thesis
      by (simp add: d add.commute)
  qed
qed

text \<open>C29. 
  C97.  Both clients end: over a ladder of delays they make one request more than they wait, at most
  one more than the ladder has steps.  The answer is that of the first request that succeeded or failed for good, or
  of the last one the ladder allowed.
\<close>

theorem retries_end_within_ladder:
  assumes "length steps < 2 ^ 32"
  shows "(\<exists>k delays. send_with_retry (ladder_backoff j steps) send =
              Some (attempt_outcome AeStreamInterrupted send k, delays) \<and> length delays = k
              \<and> last_request failure_kind AeStreamInterrupted (length steps) send k)
       \<and> (\<exists>k delays. openai_send_with_retry (ladder_backoff j steps) send' =
              Some (attempt_outcome (MeNetwork ''no response headers within the idle window'') send' k, delays)
              \<and> length delays = k
              \<and> last_request openai_failure_kind (MeNetwork ''no response headers within the idle window'')
                    (length steps) send' k)"
  using retry_loop_ends [of steps 0 failure_kind AeStreamInterrupted send "[]" anthropic_hint j]
    retry_loop_ends [of steps 0 openai_failure_kind
      "MeNetwork ''no response headers within the idle window''" send' "[]" "\<lambda>_. None" j] assms
  by (simp add: send_with_retry_def openai_send_with_retry_def)

theorem retries_end_within_ladder_witness:
  "(\<exists>k delays. send_with_retry (ladder_backoff (\<lambda>_ b. b) DEFAULT_STEPS) (\<lambda>n. Some (Inl (AeOverloaded 529))) =
        Some (attempt_outcome AeStreamInterrupted (\<lambda>n. Some (Inl (AeOverloaded 529) :: anthropic_error + nat)) k, delays)
        \<and> length delays = k
        \<and> last_request failure_kind AeStreamInterrupted (length DEFAULT_STEPS)
            (\<lambda>n. Some (Inl (AeOverloaded 529) :: anthropic_error + nat)) k)
   \<and> length DEFAULT_STEPS = 6"
  using retries_end_within_ladder [of DEFAULT_STEPS "\<lambda>_ b. b"
      "\<lambda>n. Some (Inl (AeOverloaded 529) :: anthropic_error + nat)" "\<lambda>n. Some (Inr (0::nat))"]
  by (simp add: DEFAULT_STEPS_def)

text \<open>The same silence means different things to the two clients: one gives up, the other asks again.\<close>

theorem silence_is_retried_by_one_client:
  "send_with_retry (ladder_backoff (\<lambda>_ b. b) DEFAULT_STEPS) (\<lambda>n. if n = 0 then None else Some (Inr (7::nat)))
     = Some (Inl AeStreamInterrupted, [])"
  "openai_send_with_retry (ladder_backoff (\<lambda>_ b. b) DEFAULT_STEPS) (\<lambda>n. if n = 0 then None else Some (Inr (7::nat)))
     = Some (Inr 7, [1000])"
  by (simp_all add: send_with_retry_def openai_send_with_retry_def retry_loop.simps ladder_backoff_def
      failure_kind_def openai_failure_kind_def DEFAULT_STEPS_def)

section \<open>Failures\<close>

text \<open>
  C98.  What a refused request leads to under the shipped policy: an overload switches to the fallback model
  if there is one, and every other status fails the turn; a request refused for its size is not compacted,
  whatever the status and the text of the refusal, on either protocol.
\<close>

theorem http_failure_recovery:
  "classify_failure (default_recovery fallback n) (map_error (classify_response code retry_after headers body)) =
     (if code = 503 \<or> code = 529 then (case fallback of Some m \<Rightarrow> RetryWith m | None \<Rightarrow> RecoverFail)
      else RecoverFail)
   \<and> classify_failure (default_recovery fallback n) (openai_status_error code body) =
     (if code = 503 \<or> code = 529 then (case fallback of Some m \<Rightarrow> RetryWith m | None \<Rightarrow> RecoverFail)
      else RecoverFail)"
  by (simp add: classify_failure_def default_recovery_def default_on_failure_def to_model_failure_def
      map_error_def classify_response_def openai_status_error_def)

text \<open>The substring test takes a malformed response for a refused one when its message happens to hold the
  number.\<close>

theorem schema_error_compacts:
  "classify_failure (default_recovery_new None) (map_error (AeSchema ''EOF while parsing at line 1 column 413''))
     = CompactAndRetry"
  by code_simp

section \<open>Turn policies\<close>

lemma first_stop_append: "first_stop (xs @ ys) = (if is_stop (first_stop xs) then first_stop xs else first_stop ys)"
  by (induction xs) (auto simp: is_stop_def)

lemma first_stop_is_stop: "is_stop (first_stop vs) \<longleftrightarrow> (\<exists>v \<in> set vs. is_stop v)"
  by (induction vs) (auto simp: is_stop_def)

lemma is_stop_iff: "is_stop v \<longleftrightarrow> v \<noteq> TurnContinue"
  by (cases v) (auto simp: is_stop_def)

lemma first_stop_mem: "first_stop vs \<noteq> TurnContinue \<Longrightarrow> first_stop vs \<in> set vs"
  by (induction vs) (auto split: if_splits)

text \<open>A stop is never overridden by a policy added later, and adding one never removes a stop.\<close>

theorem stop_is_never_overridden:
  assumes "before_model_call (first_of ps) p \<noteq> TurnContinue"
  shows "before_model_call (first_of (ps @ qs)) p = before_model_call (first_of ps) p"
    "before_model_call (first_of (qs @ ps)) p \<noteq> TurnContinue"
  using assms by (auto simp: first_of_def first_stop_append is_stop_iff)

lemma limits_stop:
  "before_model_call (first_of (pre @ limits_policy m r # post)) p = TurnContinue \<Longrightarrow> tp_api_calls p < m"
  by (auto simp: first_of_def first_stop_append limits_policy_def is_stop_iff is_stop_def not_le [symmetric]
      split: if_splits)

section \<open>Budgets\<close>

lemma sat_add_no_overflow: "unat a + unat b < 2 ^ LENGTH('a) \<Longrightarrow> unat (sat_add a b) = unat a + unat (b :: 'a::len word)"
  by (simp add: sat_add_def unat_word_ariths)

lemma unat_ucast_32_64: "unat (ucast (x :: 32 word) :: 64 word) = unat x"
proof -
  have "unat x < 2 ^ LENGTH(32)" by (rule unsigned_less)
  then have "unat x < 2 ^ 64" by simp
  then show ?thesis by (simp add: unsigned_ucast_eq take_bit_nat_eq_self)
qed

lemma spend_of_total: "unat (total_tokens (spend_of u)) = unat (us_input u) + unat (us_output u)"
proof -
  have "unat (us_input u) < 2 ^ 32" "unat (us_output u) < 2 ^ 32"
    using unsigned_less [of "us_input u"] unsigned_less [of "us_output u"] by simp_all
  then show ?thesis
    by (simp add: total_tokens_def spend_of_def sat_add_no_overflow unat_ucast_32_64)
qed

text \<open>The turn's own counters saturate below a large ceiling, which can then never be reached.\<close>

theorem large_budget_is_no_budget:
  assumes "2 ^ 33 - 1 \<le> unat b"
  shows "engine_on_usage (Some b) (spend_of u) \<noteq> SpendExhausted b"
proof -
  have "unat (us_input u) < 2 ^ 32" "unat (us_output u) < 2 ^ 32"
    using unsigned_less [of "us_input u"] unsigned_less [of "us_output u"] by simp_all
  then have "unat (total_tokens (spend_of u)) < unat b" using assms by (simp add: spend_of_total)
  then show ?thesis by (auto simp: engine_on_usage_def Let_def word_le_nat_alt)
qed

text \<open>The 90 per cent mark is computed in 64 bits: a ceiling above a ninth of the range warns before anything was
  spent.\<close>

theorem budget_mark_wraps:
  "engine_on_usage (Some 2049638230412172402) \<lparr>sp_input = 0, sp_output = 0, sp_cache_creation = 0, sp_cache_read = 0\<rparr>
     = SpendWarn BUDGET_REMINDER 2049638230412172402"
  by (simp add: engine_on_usage_def total_tokens_def sat_add_def Let_def)

end
