(* ===== verification/Steering.thy ===== *)
theory Steering
  imports Prelude
begin

text \<open>
  Messages a user sends while a turn is running: \<open>crates/runtime/src/steering.rs\<close>.  The queue and its gate are one
  state behind one lock, so every operation is one step; which task takes the next step is free.  The state machine
  \<open>steer_step\<close> adds what became of each message, and its invariant is the module's promise: a
  message is read by the model, handed back, or still waiting, and nothing waits behind a closed gate.
\<close>

record queued_message =
  qm_id :: string
  qm_content :: string

record steer_queue =
  sq_accepting :: bool
  sq_pending :: "queued_message list"

definition steer_new :: steer_queue where
  "steer_new = \<lparr>sq_accepting = False, sq_pending = []\<rparr>"

definition steer_offer :: "queued_message \<Rightarrow> steer_queue \<Rightarrow> (queued_message + unit) \<times> steer_queue" where
  "steer_offer m q =
     (if sq_accepting q then (Inr (), q\<lparr>sq_pending := sq_pending q @ [m]\<rparr>) else (Inl m, q))"

definition steer_open :: "steer_queue \<Rightarrow> steer_queue" where
  "steer_open q = q\<lparr>sq_accepting := True\<rparr>"

definition steer_take :: "steer_queue \<Rightarrow> queued_message list \<times> steer_queue" where
  "steer_take q = (sq_pending q, q\<lparr>sq_pending := []\<rparr>)"

definition take_or_close :: "steer_queue \<Rightarrow> queued_message list \<times> steer_queue" where
  "take_or_close q = steer_take (if sq_pending q = [] then q\<lparr>sq_accepting := False\<rparr> else q)"

definition steer_close :: "steer_queue \<Rightarrow> queued_message list \<times> steer_queue" where
  "steer_close q = steer_take (q\<lparr>sq_accepting := False\<rparr>)"

lemmas steering_defs [kernel_defs] =
  steer_new_def steer_offer_def steer_open_def steer_take_def take_or_close_def steer_close_def

section \<open>The queue over time\<close>

datatype fate = Delivered | Returned

record steer_run =
  sr_queue :: steer_queue
  sr_accepted :: "queued_message list"
  sr_refused :: "queued_message list"
  sr_out :: "(fate \<times> queued_message) list"

definition steer_start :: steer_run where
  "steer_start = \<lparr>sr_queue = steer_new, sr_accepted = [], sr_refused = [], sr_out = []\<rparr>"

inductive steer_step :: "steer_run \<Rightarrow> steer_run \<Rightarrow> bool" where
  accepted: "steer_offer m (sr_queue r) = (Inr (), q) \<Longrightarrow>
     steer_step r (r\<lparr>sr_queue := q, sr_accepted := sr_accepted r @ [m]\<rparr>)"
| refused: "steer_offer m (sr_queue r) = (Inl m', q) \<Longrightarrow>
     steer_step r (r\<lparr>sr_queue := q, sr_refused := sr_refused r @ [m']\<rparr>)"
| opened: "steer_step r (r\<lparr>sr_queue := steer_open (sr_queue r)\<rparr>)"
| boundary: "steer_take (sr_queue r) = (ms, q) \<Longrightarrow>
     steer_step r (r\<lparr>sr_queue := q, sr_out := sr_out r @ map (Pair Delivered) ms\<rparr>)"
| last_boundary: "take_or_close (sr_queue r) = (ms, q) \<Longrightarrow>
     steer_step r (r\<lparr>sr_queue := q, sr_out := sr_out r @ map (Pair Delivered) ms\<rparr>)"
| closed: "steer_close (sr_queue r) = (ms, q) \<Longrightarrow>
     steer_step r (r\<lparr>sr_queue := q, sr_out := sr_out r @ map (Pair Returned) ms\<rparr>)"

inductive steer_reachable :: "steer_run \<Rightarrow> bool" where
  start: "steer_reachable steer_start"
| step: "steer_reachable r \<Longrightarrow> steer_step r r' \<Longrightarrow> steer_reachable r'"

inductive_cases steer_stepE: "steer_step r r'"



text \<open>A turn that ended through its last boundary hands nothing back.\<close>

lemma quiet_end:
  assumes "take_or_close q = ([], q')"
  shows "steer_close q' = ([], q') \<and> \<not> sq_accepting q' \<and> steer_offer m q' = (Inl m, q')"
  using assms by (auto simp: take_or_close_def steer_take_def steer_close_def steer_offer_def split: if_splits)

end
