(* ===== verification/Agent.thy ===== *)
theory Agent
  imports Streaming Policies Steering Reactive Recovery Summaries
begin

text \<open>
  The state a turn of the agent works on and its compaction: \<open>compact_if_needed\<close> and \<open>run_compaction\<close> of
  \<open>crates/runtime/src/turn.rs\<close>, composed of the compactor's own decisions (\<open>Compact\<close>, \<open>Reactive\<close>,
  \<open>Recovery\<close>), the LLM summary (\<open>Summaries\<close>) and the session (\<open>Session\<close>).

  \<open>engine\<close> is what is fixed for a session, \<open>agent\<close> what a turn changes, and \<open>pass_world\<close> what a compaction asks of the
  outside: the clock, the summarizer's model call, the \<open>PreCompact\<close> hook and the environment's stamp.
  Telemetry, log lines and notification hooks are left out.
\<close>

section \<open>State\<close>

datatype turn_event =
    TvHost host_event
  | TvStepStart "32 word"
  | TvStepEnd "32 word" string usage "32 word" nat
  | TvDelivered string string
  | TvReturned "queued_message list"
  | TvCompact compact_strategy nat nat nat nat
  | TvTurnComplete string "32 word" "32 word" usage "string option" usage nat

record 'st engine =
  e_store_ops :: "'st store_ops"
  e_compactor :: compactor
  e_callbacks :: callbacks
  e_tokenizer :: tokenizer
  e_count :: "model_message list \<Rightarrow> nat"
  e_overhead :: "string \<Rightarrow> nat"
  e_time_based :: time_based_config
  e_reactive_on :: bool
  e_recovery :: recovery_policy
  e_budget :: budget_policy
  e_limits :: turn_policy
  e_scene :: scene_budget
  e_interceptors :: "interceptor list"
  e_skill_records :: "string list \<Rightarrow> invoked_skill list"
  e_in_plan :: bool
  e_plan :: "string option"
  e_activated :: "string list"
  e_tasks :: "(string \<times> string) list"

record 'st agent =
  a_session :: session
  a_store :: "'st option"
  a_queue :: steer_queue
  a_cached :: cached_micro_compact
  a_ever_cleared :: bool
  a_breaker :: compaction_state
  a_warned :: bool
  a_overhead :: nat
  a_instructed :: bool
  a_surfaced :: "string list"
  a_skills :: "string list"
  a_had_tools :: bool
  a_last_usage :: "usage option"
  a_target :: "64 word option"
  a_accumulated :: "64 word"
  a_continuations :: "32 word"
  a_last_delta :: "64 word"
  a_events :: "turn_event list"
  a_sent :: "(string \<times> 32 word \<times> model_message list) list"

record pass_world =
  pw_now :: nat
  pw_clock :: int
  pw_ask :: "(string \<Rightarrow> string + string) option"
  pw_hook_allows :: bool
  pw_stamp :: stamp

abbreviation a_messages :: "'st agent \<Rightarrow> model_message list" where
  "a_messages a \<equiv> ses_messages (a_session a)"

definition announce :: "turn_event \<Rightarrow> 'st agent \<Rightarrow> 'st agent" where
  "announce ev a = a\<lparr>a_events := a_events a @ [ev]\<rparr>"

definition with_messages :: "model_message list \<Rightarrow> 'st agent \<Rightarrow> 'st agent" where
  "with_messages ms a = a\<lparr>a_session := (a_session a)\<lparr>ses_messages := ms\<rparr>\<rparr>"

definition push_user :: "int \<Rightarrow> string \<Rightarrow> 'st agent \<Rightarrow> 'st agent" where
  "push_user now body a = a\<lparr>a_session := push_message now (user_message body) (a_session a)\<rparr>"

definition truncate_timestamps :: "nat \<Rightarrow> 'st agent \<Rightarrow> 'st agent" where
  "truncate_timestamps n a =
     a\<lparr>a_session := (a_session a)\<lparr>ses_timestamps := take n (ses_timestamps (a_session a))\<rparr>\<rparr>"

definition context_tokens :: "'st engine \<Rightarrow> 'st agent \<Rightarrow> nat" where
  "context_tokens e a = e_count e (a_messages a) + a_overhead a"

definition context_budget_of :: "'st engine \<Rightarrow> context_budget" where
  "context_budget_of e = context_budget_for (e_budget e) (e_scene e)"

section \<open>One compaction\<close>

datatype compact_trigger = TriggerAuto | TriggerManual

definition llm_outcome ::
  "'st engine \<Rightarrow> pass_world \<Rightarrow> nat \<Rightarrow> nat \<Rightarrow> compact_trigger \<Rightarrow> model_message list
   \<Rightarrow> (model_message list \<times> compact_result) option" where
  "llm_outcome e pw limit keep trigger pre =
     (case pw_ask pw of
        Some ask \<Rightarrow>
          (if trigger = TriggerManual \<or> cmp_wants_llm_summary (e_compactor e) pre limit keep
           then (case full_compact (e_tokenizer e) ask pre limit keep of Inr ok \<Rightarrow> Some ok | Inl _ \<Rightarrow> None)
           else None)
      | None \<Rightarrow> None)"

definition compact_outcome ::
  "'st engine \<Rightarrow> pass_world \<Rightarrow> nat \<Rightarrow> nat \<Rightarrow> compact_trigger \<Rightarrow> model_message list
   \<Rightarrow> compact_error + (model_message list \<times> compact_result)" where
  "compact_outcome e pw limit keep trigger pre =
     (case llm_outcome e pw limit keep trigger pre of
        Some ok \<Rightarrow> Inr ok
      | None \<Rightarrow> cmp_compact (e_compactor e) pre limit keep)"

definition recovery_context :: "'st engine \<Rightarrow> 'st agent \<Rightarrow> model_message list \<Rightarrow> post_compact_context" where
  "recovery_context e a pre =
     \<lparr>recent_files = extract_recent_reads pre, invoked_skills = e_skill_records e (a_skills a),
      in_plan_mode = e_in_plan e, plan_content = e_plan e, activated_tools = e_activated e,
      running_tasks = e_tasks e\<rparr>"

definition recovery_messages :: "post_compact_context \<Rightarrow> model_message list" where
  "recovery_messages ctx =
     (if recent_files ctx = [] \<and> invoked_skills ctx = [] \<and> activated_tools ctx = [] \<and> \<not> in_plan_mode ctx then []
      else build_post_compact_recovery ctx)"

definition replace_after_compact ::
  "'st engine \<Rightarrow> stamp \<Rightarrow> model_message list \<Rightarrow> compact_result \<Rightarrow> 'st agent \<Rightarrow> 'st agent" where
  "replace_after_compact e stmp ms r a =
     (case replace_messages_after_compact (e_store_ops e) stmp ms (of_nat (tokens_before r)) (of_nat (tokens_after r))
             (a_session a) (a_store a) of
        (_, s, st) \<Rightarrow> a\<lparr>a_session := s, a_store := st\<rparr>)"

definition run_compaction ::
  "'st engine \<Rightarrow> pass_world \<Rightarrow> nat \<Rightarrow> nat \<Rightarrow> compact_trigger \<Rightarrow> 'st agent \<Rightarrow> bool \<times> 'st agent" where
  "run_compaction e pw limit keep trigger a =
     (if \<not> pw_hook_allows pw then (False, a)
      else
        (let pre = a_messages a
         in case compact_outcome e pw limit keep trigger pre of
              Inl _ \<Rightarrow> (False, a)
            | Inr (compacted, r) \<Rightarrow>
                (if trigger = TriggerManual \<and> cr_strategy r = NoOp then (False, a)
                 else
                   (let a1 = (if cr_strategy r = MicroCompact then a\<lparr>a_ever_cleared := True\<rparr> else a);
                        ms = recovery_messages (recovery_context e a1 pre) @ compacted;
                        a2 = truncate_timestamps (length ms) (replace_after_compact e (pw_stamp pw) ms r a1);
                        a3 = announce (TvCompact (cr_strategy r) (length pre) (length ms) (tokens_before r) (tokens_after r)) a2
                    in (True, a3\<lparr>a_warned := False, a_instructed := False, a_surfaced := []\<rparr>)))))"

section \<open>The passes before a request\<close>

definition age_pass :: "'st engine \<Rightarrow> pass_world \<Rightarrow> 'st agent \<Rightarrow> 'st agent" where
  "age_pass e pw a =
     (let ages = map (\<lambda>(i, t). (i, nat t)) (Session.message_ages (pw_clock pw) (a_session a))
      in case cmp_age (e_compactor e) (pw_now pw) (a_messages a)
                \<lparr>message_ages = ages, time_based = e_time_based e, cached_due = should_run (pw_now pw) (a_cached a),
                 cached_keep_recent = cc_keep_recent (config (a_cached a))\<rparr> of
           (ms, aging) \<Rightarrow>
             (let a1 = with_messages ms a;
                  a2 = (if 0 < cleared aging then a1\<lparr>a_ever_cleared := True\<rparr> else a1)
              in case cache_edits aging of
                   Some ids \<Rightarrow> a2\<lparr>a_cached := record_pass (pw_now pw) (a_cached a2) ids\<rparr>
                 | None \<Rightarrow> a2))"

definition trim_pass :: "'st engine \<Rightarrow> 'st agent \<Rightarrow> 'st agent" where
  "trim_pass e a =
     (case cmp_trim_tool_results (e_compactor e) (a_messages a) of
        (ms, n) \<Rightarrow> (if 0 < n then (with_messages ms a)\<lparr>a_ever_cleared := True\<rparr> else with_messages ms a))"

definition reactive_pass :: "'st engine \<Rightarrow> 'st agent \<Rightarrow> 'st agent" where
  "reactive_pass e a =
     (case cmp_reactive (e_compactor e) (e_callbacks e) (a_messages a)
             \<lparr>ri_context_tokens = context_tokens e a,
              ri_context_limit = cb_compact_threshold (context_budget_of e),
              ri_keep_recent = cb_keep_recent (context_budget_of e), ri_enabled = e_reactive_on e,
              ri_circuit_open = circuit_open (a_breaker a)\<rparr> of
        (outcome, ms, _) \<Rightarrow>
          (let a1 = with_messages ms a
           in case outcome of
                Compacted \<Rightarrow>
                  (truncate_timestamps (length ms) a1)
                    \<lparr>a_ever_cleared := True, a_breaker := record_compact_success (a_breaker a1)\<rparr>
              | NoEffect \<Rightarrow> a1\<lparr>a_breaker := record_compact_failure (a_breaker a1)\<rparr>
              | NotTriggered \<Rightarrow> a1))"

definition budget_state_of :: "'st engine \<Rightarrow> 'st agent \<Rightarrow> budget_state" where
  "budget_state_of e a =
     \<lparr>bs_context_tokens = context_tokens e a, threshold = cb_compact_threshold (context_budget_of e),
      warned_already = a_warned a\<rparr>"

definition warning_pass :: "'st engine \<Rightarrow> pass_world \<Rightarrow> 'st agent \<Rightarrow> 'st agent" where
  "warning_pass e pw a =
     (case cmp_context_warning (e_compactor e) (budget_state_of e a) of
        Some body \<Rightarrow> (push_user (pw_clock pw) body a)\<lparr>a_warned := True\<rparr>
      | None \<Rightarrow> a)"

definition compact_if_needed :: "'st engine \<Rightarrow> pass_world \<Rightarrow> 'st agent \<Rightarrow> 'st agent" where
  "compact_if_needed e pw a =
     (let a1 = warning_pass e pw (reactive_pass e (trim_pass e (age_pass e pw a)))
      in if cmp_should_compact (e_compactor e) (budget_state_of e a1)
         then snd (run_compaction e pw (cb_compact_threshold (context_budget_of e))
                     (cb_keep_recent (context_budget_of e)) TriggerAuto a1)
         else a1)"

lemmas agent_defs [kernel_defs] =
  announce_def with_messages_def push_user_def truncate_timestamps_def context_tokens_def context_budget_of_def
  llm_outcome_def compact_outcome_def recovery_context_def recovery_messages_def replace_after_compact_def
  run_compaction_def age_pass_def trim_pass_def reactive_pass_def budget_state_of_def warning_pass_def
  compact_if_needed_def

text \<open>A compaction re-attaches the tasks still running only beside something else.\<close>

theorem running_tasks_alone_are_forgotten:
  "recovery_messages \<lparr>recent_files = [], invoked_skills = [], in_plan_mode = False, plan_content = None,
      activated_tools = [], running_tasks = [(''t1'', ''running'')]\<rparr> = []"
  by (simp add: recovery_messages_def)

end
