(* ===== verification/Turn.thy ===== *)
theory Turn
  imports Agent Paths
begin

text \<open>
  The turn loop, \<open>run_user_turn_inner\<close> of \<open>crates/runtime/src/turn.rs\<close> from its first step on, with the wrapper
  \<open>run_user_turn\<close>: one step persists, compacts, asks the model, reads the reply (\<open>Streaming\<close>), and decides
  whether there is a next one.  \<open>turn_vars\<close> are the locals of the loop, \<open>step_world\<close> what the outside
  answers during one step.

  Left out: what a turn pushes before the loop (instructions, reminders, recalled memories, the user's message; they are
  in the session the loop starts from), telemetry, notification hooks, the refresh of the git snapshot and of the
  MCP tools, and the background memory extraction.
\<close>

section \<open>Requests and their repair\<close>

definition UNFINISHED :: string where
  "UNFINISHED = ''The tool call did not complete.''"

definition used_ids :: "model_message \<Rightarrow> string list" where
  "used_ids m = List.map_filter (\<lambda>b. case b of MToolUse i _ _ \<Rightarrow> Some i | _ \<Rightarrow> None) (content m)"

definition answered_ids :: "model_message \<Rightarrow> string list" where
  "answered_ids m = List.map_filter (\<lambda>b. case b of MToolResult i _ _ \<Rightarrow> Some i | _ \<Rightarrow> None) (content m)"

definition unfinished_results :: "string list \<Rightarrow> string list \<Rightarrow> model_block list" where
  "unfinished_results used got =
     map (\<lambda>i. MToolResult i UNFINISHED (Some True)) (filter (\<lambda>i. i \<notin> set got) used)"

fun pair_dangling_tool_uses :: "model_message list \<Rightarrow> model_message list" where
  "pair_dangling_tool_uses [] = []"
| "pair_dangling_tool_uses [m] =
     (if role m \<noteq> RoleAssistant \<or> used_ids m = [] then [m]
      else [m, \<lparr>role = RoleUser, content = unfinished_results (used_ids m) []\<rparr>])"
| "pair_dangling_tool_uses (m # n # ms) =
     (if role m \<noteq> RoleAssistant \<or> used_ids m = [] then m # pair_dangling_tool_uses (n # ms)
      else if role n = RoleUser
      then m # n\<lparr>content := unfinished_results (used_ids m) (answered_ids n) @ content n\<rparr>
             # pair_dangling_tool_uses ms
      else m # \<lparr>role = RoleUser, content = unfinished_results (used_ids m) []\<rparr> # pair_dangling_tool_uses (n # ms))"

definition count_structured_output_calls :: "model_message list \<Rightarrow> nat" where
  "count_structured_output_calls ms =
     length (filter (\<lambda>m. role m = RoleAssistant \<and>
        list_ex (\<lambda>b. case b of MToolUse _ name _ \<Rightarrow> name = ''StructuredOutput'' | _ \<Rightarrow> False) (content m)) ms)"

definition last_result_message :: "model_message list \<Rightarrow> nat option" where
  "last_result_message ms =
     List.find (\<lambda>i. role (ms ! i) = RoleUser \<and> list_ex answers_tool (content (ms ! i))) (rev [0..<length ms])"

definition attach_tool_result_images :: "(string \<times> string) list \<Rightarrow> model_message list \<Rightarrow> model_message list" where
  "attach_tool_result_images images ms =
     (case last_result_message ms of
        None \<Rightarrow> ms
      | Some i \<Rightarrow> ms[i := (ms ! i)\<lparr>content := content (ms ! i) @ map (\<lambda>(t, d). MImage t d) images\<rparr>])"

section \<open>File paths of tool calls\<close>

definition recent_half :: "model_message list \<Rightarrow> model_message list" where
  "recent_half ms = drop (if 40 < length ms then length ms div 2 else 0) ms"

definition file_path_of_call :: "model_block \<Rightarrow> string option" where
  "file_path_of_call b =
     (case b of
        MToolUse _ name input \<Rightarrow>
          (if name \<in> set [''Read'', ''Write'', ''Edit''] then get_str input ''file_path'' else None)
      | _ \<Rightarrow> None)"

fun distinct_paths :: "string list \<Rightarrow> string list \<Rightarrow> string list" where
  "distinct_paths seen [] = []"
| "distinct_paths seen (p # ps) =
     (if path_of p \<in> set (map path_of seen) then distinct_paths seen ps else p # distinct_paths (p # seen) ps)"

definition extract_tool_file_paths :: "model_message list \<Rightarrow> string list" where
  "extract_tool_file_paths ms =
     distinct_paths [] (concat (map (\<lambda>m. List.map_filter file_path_of_call (content m)) (recent_half ms)))"

section \<open>One step: the vocabulary\<close>

datatype turn_error = TuModel string | TuShutdown | TuInternal string

record turn_outcome =
  to_stop_reason :: string
  to_api_calls :: "32 word"
  to_tool_calls :: "32 word"
  to_usage :: usage
  to_total_usage :: usage
  to_message :: "string option"

record turn_vars =
  t_api_calls :: "32 word"
  t_tool_calls :: "32 word"
  t_structured :: "32 word"
  t_recovery :: "32 word"
  t_max_tokens :: "32 word"
  t_model :: string
  t_usage :: usage
  t_had_tools :: bool
  t_prefetch :: bool

definition turn_start :: "string \<Rightarrow> 32 word \<Rightarrow> bool \<Rightarrow> turn_vars" where
  "turn_start model max_tokens prefetch =
     \<lparr>t_api_calls = 0, t_tool_calls = 0, t_structured = 0, t_recovery = 0, t_max_tokens = max_tokens,
      t_model = model, t_usage = no_usage, t_had_tools = False, t_prefetch = prefetch\<rparr>"

record step_world =
  sw_stamps :: "nat \<Rightarrow> stamp"
  sw_cancelled :: bool
  sw_pass :: pass_world
  sw_send :: "bool \<Rightarrow> string \<Rightarrow> 32 word \<Rightarrow> model_message list \<Rightarrow> model_error + (string + model_event) list"
  sw_retry_stamp :: stamp
  sw_stream :: stream_world
  sw_now :: int
  sw_images :: "(string \<times> string) list"
  sw_stamps_after :: "nat \<Rightarrow> stamp"
  sw_discontinued :: bool
  sw_found_skills :: "string list option"
  sw_activated :: "string list \<Rightarrow> string list"
  sw_offers :: "queued_message list"
  sw_cancelled_after :: bool
  sw_stop_hook :: "string option option"
  sw_stale_note :: "string option"

definition turn_outcome_of :: "string \<Rightarrow> usage \<Rightarrow> string option \<Rightarrow> turn_vars \<Rightarrow> turn_outcome" where
  "turn_outcome_of reason u msg v =
     \<lparr>to_stop_reason = reason, to_api_calls = t_api_calls v, to_tool_calls = t_tool_calls v, to_usage = u,
      to_total_usage = t_usage v, to_message = msg\<rparr>"

definition progress :: "string \<Rightarrow> turn_vars \<Rightarrow> turn_progress" where
  "progress reason v =
     \<lparr>tp_api_calls = t_api_calls v, tp_tool_calls = t_tool_calls v, tp_structured = t_structured v,
      tp_stop_reason = reason\<rparr>"

definition save :: "'st engine \<Rightarrow> (nat \<Rightarrow> stamp) \<Rightarrow> 'st agent \<Rightarrow> 'st agent" where
  "save e stamps a =
     (case persist (e_store_ops e) stamps (a_session a) (a_store a) of
        (_, s, st) \<Rightarrow> a\<lparr>a_session := s, a_store := st\<rparr>)"

section \<open>Before the request\<close>

definition begin_step :: "'st engine \<Rightarrow> step_world \<Rightarrow> turn_vars \<Rightarrow> 'st agent \<Rightarrow> string option \<times> 'st agent" where
  "begin_step e w v a =
     (let a1 = save e (sw_stamps w) a
      in if sw_cancelled w then (Some ''cancelled'', a1)
         else case before_model_call (e_limits e) (progress [] v) of
                TurnStop reason \<Rightarrow> (Some reason, a1)
              | TurnContinue \<Rightarrow>
                  (let a2 = compact_if_needed e (sw_pass w) a1
                   in case cb_hard_cap (context_budget_of e) of
                        Some limit \<Rightarrow>
                          (if limit < context_tokens e a2 then (Some ''context_exceeded'', a2) else (None, a2))
                      | None \<Rightarrow> (None, a2)))"

section \<open>The request and its recoveries\<close>

text \<open>Every request goes through \<open>send_request\<close>, which also keeps the record of what was sent.\<close>

definition send_request ::
  "step_world \<Rightarrow> bool \<Rightarrow> turn_vars \<Rightarrow> model_message list \<Rightarrow> 'st agent
   \<Rightarrow> (model_error + (string + model_event) list) \<times> 'st agent" where
  "send_request w retry v ms a =
     (sw_send w retry (t_model v) (t_max_tokens v) ms,
      a\<lparr>a_sent := a_sent a @ [(t_model v, t_max_tokens v, ms)]\<rparr>)"

definition prepare_request :: "'st engine \<Rightarrow> turn_vars \<Rightarrow> 'st agent \<Rightarrow> model_message list \<times> 'st agent" where
  "prepare_request e v a =
     (pair_dangling_tool_uses (a_messages a),
      a\<lparr>a_overhead := e_overhead e (t_model v), a_cached := snd (consume_pending_edits (a_cached a))\<rparr>)"

definition stream_failed :: "model_error \<Rightarrow> turn_error" where
  "stream_failed err = TuModel (''failed to stream model response: '' @ show_model_error err)"

definition retry_with_model ::
  "step_world \<Rightarrow> string \<Rightarrow> model_message list \<Rightarrow> turn_vars \<Rightarrow> 'st agent
   \<Rightarrow> (turn_error + (string + model_event) list) \<times> turn_vars \<times> 'st agent" where
  "retry_with_model w model ms v a =
     (let v1 = v\<lparr>t_model := model\<rparr>
      in case send_request w True v1 ms a of
           (Inr stream, a1) \<Rightarrow> (Inr stream, v1, a1)
         | (Inl err, a1) \<Rightarrow> (Inl (stream_failed err), v1, a1))"

definition compact_and_retry ::
  "'st engine \<Rightarrow> step_world \<Rightarrow> model_error \<Rightarrow> model_message list \<Rightarrow> turn_vars \<Rightarrow> 'st agent
   \<Rightarrow> (turn_error + (string + model_event) list) \<times> 'st agent" where
  "compact_and_retry e w err ms v a =
     (let budget = context_budget_of e;
          before = length (a_messages a)
      in case cmp_compact (e_compactor e) ms (max (cb_compact_threshold budget) 50000) (min (cb_keep_recent budget) 5) of
           Inl _ \<Rightarrow> (Inl (TuModel (''prompt too long and compaction failed: '' @ show_model_error err)), a)
         | Inr (compacted, r) \<Rightarrow>
             (if length compacted < before
              then (let a1 = announce (TvCompact (cr_strategy r) before (length compacted) (tokens_before r) (tokens_after r)) a;
                        a2 = replace_after_compact e (sw_retry_stamp w) compacted r a1
                    in case send_request w True v (a_messages a2) a2 of
                         (Inr stream, a3) \<Rightarrow> (Inr stream, a3)
                       | (Inl err2, a3) \<Rightarrow> (Inl (stream_failed err2), a3))
              else (Inl (TuModel ''prompt too long and compaction could not reduce message count''), a)))"

definition ask_model ::
  "'st engine \<Rightarrow> step_world \<Rightarrow> turn_vars \<Rightarrow> 'st agent
   \<Rightarrow> (turn_error + (string + model_event) list) \<times> turn_vars \<times> 'st agent" where
  "ask_model e w v a =
     (let v1 = v\<lparr>t_api_calls := t_api_calls v + 1\<rparr>;
          a1 = announce (TvStepStart (t_api_calls v)) a
      in case prepare_request e v1 a1 of (ms, a2) \<Rightarrow>
           (case send_request w False v1 ms a2 of
              (Inr stream, a3) \<Rightarrow> (Inr stream, v1, a3)
            | (Inl err, a3) \<Rightarrow>
                (case classify_failure (e_recovery e) err of
                   RetryWith model \<Rightarrow> retry_with_model w model ms v1 a3
                 | CompactAndRetry \<Rightarrow>
                     (case compact_and_retry e w err ms v1 a3 of (r, a4) \<Rightarrow> (r, v1, a4))
                 | RecoverFail \<Rightarrow> (Inl (stream_failed err), v1, a3))))"

section \<open>The reply\<close>

definition read_reply ::
  "'st engine \<Rightarrow> step_world \<Rightarrow> (string + model_event) list \<Rightarrow> turn_vars \<Rightarrow> 'st agent
   \<Rightarrow> (turn_error + stream_result) \<times> turn_vars \<times> 'st agent" where
  "read_reply e w events v a =
     (case execute_stream (sw_stream w) (sw_now w) (e_interceptors e) events (a_session a) of
        (result, s, evs) \<Rightarrow>
          (let a1 = a\<lparr>a_session := s, a_events := a_events a @ map TvHost evs\<rparr>
           in case result of
                Inl err \<Rightarrow> (Inl (TuModel err), v, a1)
              | Inr sr \<Rightarrow>
                  (let a2 = (if sw_images w = [] then a1
                             else with_messages (attach_tool_result_images (sw_images w) (a_messages a1)) a1);
                       a3 = save e (sw_stamps_after w) (a2\<lparr>a_last_usage := Some (sr_usage sr)\<rparr>);
                       a4 = announce (TvStepEnd (t_api_calls v - 1) (sr_stop_reason sr) (sr_usage sr) (sr_tool_calls sr)
                              (length (a_messages a3))) a3;
                       v1 = v\<lparr>t_had_tools := t_had_tools v \<or> sr_has_tool_uses sr,
                              t_tool_calls := t_tool_calls v + sr_tool_calls sr,
                              t_usage := usage_plus (t_usage v) (sr_usage sr)\<rparr>
                   in (Inr sr, v1, a4))))"

text \<open>What may end the turn right after a reply: a hook, the turn policy, the budget.\<close>

definition judge_reply ::
  "'st engine \<Rightarrow> step_world \<Rightarrow> nat \<Rightarrow> stream_result \<Rightarrow> turn_vars \<Rightarrow> 'st agent
   \<Rightarrow> turn_outcome option \<times> turn_vars \<times> 'st agent" where
  "judge_reply e w before sr v a =
     (if sw_discontinued w then (Some (turn_outcome_of ''stopped_by_hook'' (sr_usage sr) None v), v, a)
      else
        (let v1 = v\<lparr>t_structured := t_structured v
                      + of_nat (count_structured_output_calls (drop before (a_messages a)))\<rparr>
         in case after_model_call (e_limits e) (progress (sr_stop_reason sr) v1) of
              TurnStop reason \<Rightarrow> (Some (turn_outcome_of reason no_usage None v1), v1, a)
            | TurnContinue \<Rightarrow>
                (case on_usage (e_budget e) (spend_of (t_usage v1)) of
                   WithinBudget \<Rightarrow> (None, v1, a)
                 | SpendWarn body _ \<Rightarrow> (None, v1, push_user (sw_now w) body a)
                 | SpendExhausted _ \<Rightarrow> (Some (turn_outcome_of ''budget_exceeded'' no_usage None v1), v1, a))))"

section \<open>Going on\<close>

definition offer_all :: "queued_message list \<Rightarrow> steer_queue \<Rightarrow> steer_queue" where
  "offer_all ms q = foldl (\<lambda>q m. snd (steer_offer m q)) q ms"

definition deliver_one :: "int \<Rightarrow> queued_message \<Rightarrow> 'st agent \<Rightarrow> 'st agent" where
  "deliver_one now m a =
     announce (TvDelivered (qm_id m) (qm_content m))
       (a\<lparr>a_session := push_message_from now \<lparr>role = RoleUser, content = [MText (qm_content m)]\<rparr> OriginSteer
            (a_session a)\<rparr>)"

definition deliver_queued :: "int \<Rightarrow> bool \<Rightarrow> 'st agent \<Rightarrow> bool \<times> 'st agent" where
  "deliver_queued now is_last a =
     (case (if is_last then take_or_close (a_queue a) else steer_take (a_queue a)) of
        (ms, q) \<Rightarrow> (ms \<noteq> [], foldl (\<lambda>a m. deliver_one now m a) (a\<lparr>a_queue := q\<rparr>) ms))"

definition note_skills :: "string list \<Rightarrow> string list \<Rightarrow> string list" where
  "note_skills known new = foldl (\<lambda>ks n. if n \<in> set ks then ks else ks @ [n]) known new"

definition discovered_note :: "string list \<Rightarrow> string" where
  "discovered_note names =
     ''<system-reminder>'' @ nl @ ''Skills discovered in workspace: '' @ join_with '', '' names
       @ ''. Use /<skill-name> to invoke.'' @ nl @ ''</system-reminder>''"

definition activated_note :: "string list \<Rightarrow> string" where
  "activated_note names =
     ''<system-reminder>'' @ nl @ ''Conditional skills activated for current context: '' @ join_with '', '' names
       @ ''. Use /<skill-name> to invoke.'' @ nl @ ''</system-reminder>''"

definition mention_skills :: "int \<Rightarrow> (string list \<Rightarrow> string) \<Rightarrow> string list \<Rightarrow> 'st agent \<Rightarrow> 'st agent" where
  "mention_skills now body names a =
     (if names = [] then a
      else (push_user now (body names) a)\<lparr>a_skills := note_skills (a_skills a) names\<rparr>)"

definition after_tools :: "step_world \<Rightarrow> turn_vars \<Rightarrow> 'st agent \<Rightarrow> turn_vars \<times> 'st agent" where
  "after_tools w v a =
     (let a1 = (if t_prefetch v
                then (case sw_found_skills w of
                        Some names \<Rightarrow> mention_skills (sw_now w) discovered_note names a
                      | None \<Rightarrow> a)
                else a);
          paths = extract_tool_file_paths (a_messages a1);
          a2 = (if paths = [] then a1 else mention_skills (sw_now w) activated_note (sw_activated w paths) a1);
          a3 = a2\<lparr>a_queue := offer_all (sw_offers w) (a_queue a2)\<rparr>;
          a4 = (if sw_cancelled_after w then a3 else snd (deliver_queued (sw_now w) False a3))
      in (v\<lparr>t_prefetch := False\<rparr>, a4))"

definition handle_max_tokens_recovery ::
  "'st engine \<Rightarrow> step_world \<Rightarrow> string \<Rightarrow> turn_vars \<Rightarrow> 'st agent \<Rightarrow> (turn_vars \<times> 'st agent) option" where
  "handle_max_tokens_recovery e w reason v a =
     (case on_early_stop (e_recovery e) reason
             \<lparr>ra_escalations = t_recovery v, ra_max_tokens = t_max_tokens v\<rparr> of
        StopAccept \<Rightarrow> None
      | RaiseOutputLimit limit nudge \<Rightarrow>
          Some (v\<lparr>t_recovery := t_recovery v + 1, t_max_tokens := limit\<rparr>,
                (case nudge of Some body \<Rightarrow> push_user (sw_now w) body a | None \<Rightarrow> a)))"

text \<open>The output target: keep going, or the target is done with.\<close>

definition output_target_step ::
  "'st engine \<Rightarrow> step_world \<Rightarrow> usage \<Rightarrow> 'st agent \<Rightarrow> bool \<times> 'st agent" where
  "output_target_step e w u a =
     (case a_target a of
        None \<Rightarrow> (False, a)
      | Some target \<Rightarrow>
          (let this_delta = ucast (us_output u);
               a1 = a\<lparr>a_accumulated := sat_add (a_accumulated a) this_delta\<rparr>
           in case on_output_target (e_budget e)
                     \<lparr>op_accumulated = a_accumulated a1, op_target = target, op_continuations = a_continuations a1,
                      op_this_delta = this_delta, op_last_delta = a_last_delta a1\<rparr> of
                KeepGoing nudge \<Rightarrow>
                  (True, push_user (sw_now w) nudge
                     (a1\<lparr>a_continuations := a_continuations a1 + 1, a_last_delta := this_delta\<rparr>))
              | TargetReached \<Rightarrow>
                  (False, a1\<lparr>a_target := None, a_accumulated := 0, a_continuations := 0, a_last_delta := 0\<rparr>)))"

definition finish_reply :: "step_world \<Rightarrow> 'st agent \<Rightarrow> 'st agent" where
  "finish_reply w a =
     (let a1 = a\<lparr>a_session := increment_turn (a_session a)\<rparr>
      in case sw_stale_note w of Some body \<Rightarrow> push_user (sw_now w) body a1 | None \<Rightarrow> a1)"

definition after_reply ::
  "'st engine \<Rightarrow> step_world \<Rightarrow> stream_result \<Rightarrow> turn_vars \<Rightarrow> 'st agent
   \<Rightarrow> turn_outcome option \<times> turn_vars \<times> 'st agent" where
  "after_reply e w sr v a =
     (case handle_max_tokens_recovery e w (sr_stop_reason sr) v a of
        Some (v1, a1) \<Rightarrow> (None, v1, a1)
      | None \<Rightarrow>
          (case sw_stop_hook w of
             Some msg \<Rightarrow> (Some (turn_outcome_of ''stopped_by_hook'' (sr_usage sr) msg v), v, a)
           | None \<Rightarrow>
               (case output_target_step e w (sr_usage sr) a of
                  (True, a1) \<Rightarrow> (None, v, a1)
                | (False, a1) \<Rightarrow>
                    (case deliver_queued (sw_now w) True (a1\<lparr>a_queue := offer_all (sw_offers w) (a_queue a1)\<rparr>) of
                       (True, a2) \<Rightarrow> (None, v, a2)
                     | (False, a2) \<Rightarrow>
                         (Some (turn_outcome_of (sr_stop_reason sr) (sr_usage sr) None v), v, finish_reply w a2)))))"

section \<open>The loop\<close>

definition turn_step ::
  "'st engine \<Rightarrow> step_world \<Rightarrow> turn_vars \<Rightarrow> 'st agent
   \<Rightarrow> (turn_error + turn_outcome) option \<times> turn_vars \<times> 'st agent" where
  "turn_step e w v a =
     (case begin_step e w v a of
        (Some reason, a1) \<Rightarrow> (Some (Inr (turn_outcome_of reason no_usage None v)), v, a1)
      | (None, a1) \<Rightarrow>
          (case ask_model e w v a1 of
             (Inl err, v2, a2) \<Rightarrow> (Some (Inl err), v2, a2)
           | (Inr events, v2, a2) \<Rightarrow>
               (case read_reply e w events v2 a2 of
                  (Inl err, v3, a3) \<Rightarrow> (Some (Inl err), v3, a3)
                | (Inr sr, v3, a3) \<Rightarrow>
                    (case judge_reply e w (length (a_messages a2)) sr v3 a3 of
                       (Some oc, v4, a4) \<Rightarrow> (Some (Inr oc), v4, a4)
                     | (None, v4, a4) \<Rightarrow>
                         (if sr_has_tool_uses sr
                          then (case after_tools w v4 a4 of (v5, a5) \<Rightarrow> (None, v5, a5))
                          else (case after_reply e w sr v4 a4 of
                                  (Some oc, v5, a5) \<Rightarrow> (Some (Inr oc), v5, a5)
                                | (None, v5, a5) \<Rightarrow> (None, v5, a5)))))))"

partial_function (option) turn_loop ::
  "'st engine \<Rightarrow> (nat \<Rightarrow> step_world) \<Rightarrow> nat \<Rightarrow> turn_vars \<Rightarrow> 'st agent
   \<Rightarrow> ((turn_error + turn_outcome) \<times> turn_vars \<times> 'st agent) option" where
  "turn_loop e w i v a =
     (case turn_step e (w i) v a of
        (Some r, v1, a1) \<Rightarrow> Some (r, v1, a1)
      | (None, v1, a1) \<Rightarrow> turn_loop e w (Suc i) v1 a1)"

definition finish_turn :: "'st engine \<Rightarrow> (nat \<Rightarrow> stamp) \<Rightarrow> turn_error + turn_outcome \<Rightarrow> 'st agent \<Rightarrow> 'st agent" where
  "finish_turn e stamps r a =
     (let a1 = save e stamps a
      in case r of
           Inl _ \<Rightarrow> a1
         | Inr oc \<Rightarrow>
             announce (TvTurnComplete (to_stop_reason oc) (to_api_calls oc) (to_tool_calls oc) (to_total_usage oc)
               (to_message oc) (case a_last_usage a1 of Some u \<Rightarrow> u | None \<Rightarrow> no_usage) (length (a_messages a1))) a1)"

definition run_user_turn ::
  "'st engine \<Rightarrow> (nat \<Rightarrow> step_world) \<Rightarrow> (nat \<Rightarrow> stamp) \<Rightarrow> turn_vars \<Rightarrow> 'st agent
   \<Rightarrow> ((turn_error + turn_outcome) \<times> 'st agent) option" where
  "run_user_turn e w stamps v a =
     (case turn_loop e w 0 v (a\<lparr>a_last_usage := None, a_queue := steer_open (a_queue a)\<rparr>) of
        None \<Rightarrow> None
      | Some (r, v1, a1) \<Rightarrow>
          (let a2 = a1\<lparr>a_had_tools := (case r of Inr _ \<Rightarrow> t_had_tools v1 | Inl _ \<Rightarrow> a_had_tools a1)\<rparr>
           in case steer_close (a_queue a2) of (undelivered, q) \<Rightarrow>
                (let a3 = a2\<lparr>a_queue := q\<rparr>;
                     a4 = (if undelivered = [] then a3 else announce (TvReturned undelivered) a3)
                 in Some (r, finish_turn e stamps r a4))))"

lemmas turn_defs [kernel_defs] =
  UNFINISHED_def used_ids_def answered_ids_def unfinished_results_def count_structured_output_calls_def
  last_result_message_def attach_tool_result_images_def recent_half_def file_path_of_call_def
  extract_tool_file_paths_def turn_start_def turn_outcome_of_def progress_def save_def begin_step_def
  send_request_def prepare_request_def stream_failed_def retry_with_model_def compact_and_retry_def ask_model_def
  read_reply_def judge_reply_def offer_all_def deliver_one_def deliver_queued_def note_skills_def
  discovered_note_def activated_note_def mention_skills_def after_tools_def handle_max_tokens_recovery_def
  output_target_step_def finish_reply_def after_reply_def turn_step_def finish_turn_def run_user_turn_def

end
