(* ===== verification/TurnProps.thy ===== *)
theory TurnProps
  imports Turn CompactProps PolicyProps SessionProps
begin

text \<open>
  What a turn guarantees about its requests: it ends, within the ceiling of the turn policy, and every request it
  sends answers every tool call in the message after it, whatever a dead process left in the transcript and whatever a
  compaction made of it.
\<close>

section \<open>Answered calls\<close>

definition answered_next :: "model_message \<Rightarrow> model_message list \<Rightarrow> bool" where
  "answered_next m ms \<longleftrightarrow>
     role m \<noteq> RoleAssistant \<or> used_ids m = []
     \<or> (case ms of [] \<Rightarrow> False | n # _ \<Rightarrow> role n = RoleUser \<and> set (used_ids m) \<subseteq> set (answered_ids n))"

fun paired :: "model_message list \<Rightarrow> bool" where
  "paired [] = True"
| "paired (m # ms) = (answered_next m ms \<and> paired ms)"

lemma paired_suffix: "paired (xs @ ys) \<Longrightarrow> paired ys"
  by (induction xs) auto

lemma paired_user: "role m = RoleUser \<Longrightarrow> paired (m # ms) = paired ms"
  by (simp add: answered_next_def)

lemma map_filter_append: "List.map_filter f (xs @ ys) = List.map_filter f xs @ List.map_filter f ys"
  by (induction xs) (auto simp: List.map_filter_simps split: option.splits)

lemma unfinished_ids:
  "set (List.map_filter (\<lambda>b. case b of MToolResult i _ _ \<Rightarrow> Some i | _ \<Rightarrow> None) (unfinished_results used got)) =
     set used - set got"
  by (auto simp: unfinished_results_def set_map_filter)

lemma repaired_answers:
  "set used \<subseteq> set (answered_ids (n\<lparr>content := unfinished_results used (answered_ids n) @ content n\<rparr>))"
  unfolding answered_ids_def by (auto simp: map_filter_append unfinished_ids)

lemma fresh_answers: "set used \<subseteq> set (answered_ids \<lparr>role = RoleUser, content = unfinished_results used []\<rparr>)"
  unfolding answered_ids_def by (simp add: unfinished_ids)

lemma pair_paired: "paired (pair_dangling_tool_uses ms)"
proof (induction ms rule: pair_dangling_tool_uses.induct)
  case (3 m n ms)
  have user: "answered_next (n\<lparr>content := c\<rparr>) xs" if "role n = RoleUser" for c xs
    using that by (simp add: answered_next_def)
  show ?case
  proof (cases "role m \<noteq> RoleAssistant \<or> used_ids m = []")
    case True
    then show ?thesis using 3 by (simp add: answered_next_def)
  next
    case False
    then show ?thesis
      using 3 repaired_answers [of "used_ids m" n] fresh_answers [of "used_ids m"] user
      by (auto simp: answered_next_def)
  qed
qed (use fresh_answers in \<open>auto simp: answered_next_def\<close>)

lemma nothing_unfinished: "set used \<subseteq> set got \<Longrightarrow> unfinished_results used got = []"
  by (auto simp: unfinished_results_def filter_empty_conv)

lemma pair_id: "paired ms \<Longrightarrow> pair_dangling_tool_uses ms = ms"
proof (induction ms rule: pair_dangling_tool_uses.induct)
  case (3 m n ms)
  then show ?case
    by (cases "role m \<noteq> RoleAssistant \<or> used_ids m = []") (auto simp: answered_next_def nothing_unfinished)
qed (auto simp: answered_next_def)

text \<open>What the repair added, taken out again.\<close>

fun without_unfinished :: "model_message list \<Rightarrow> model_block list" where
  "without_unfinished [] = []"
| "without_unfinished (m # ms) =
     filter (\<lambda>b. case b of MToolResult _ c _ \<Rightarrow> c \<noteq> UNFINISHED | _ \<Rightarrow> True) (content m) @ without_unfinished ms"

lemma filter_unfinished:
  "filter (\<lambda>b. case b of MToolResult _ c _ \<Rightarrow> c \<noteq> UNFINISHED | _ \<Rightarrow> True) (unfinished_results used got) = []"
  by (auto simp: unfinished_results_def filter_empty_conv)

lemma pair_adds_only: "without_unfinished (pair_dangling_tool_uses ms) = without_unfinished ms"
  by (induction ms rule: pair_dangling_tool_uses.induct) (auto simp: filter_unfinished)

text \<open>
  C100.  The repair of a request: every tool call of an assistant message is answered in the user message right after
  it, a conversation that was in order is sent as it is, so repairing twice changes nothing more, and nothing but
  the notice of an unfinished call is added.
\<close>

theorem repaired_request_is_paired:
  "paired (pair_dangling_tool_uses ms)
   \<and> (paired ms \<longrightarrow> pair_dangling_tool_uses ms = ms)
   \<and> without_unfinished (pair_dangling_tool_uses ms) = without_unfinished ms"
  using pair_paired pair_id pair_adds_only by blast

definition dead_step :: "model_message list" where
  "dead_step = [\<lparr>role = RoleUser, content = [MText ''go'']\<rparr>,
     \<lparr>role = RoleAssistant, content = [MToolUse ''t1'' ''Bash'' JNull]\<rparr>]"

lemma repaired_request_is_paired_witness:
  "\<not> paired dead_step \<and> paired (pair_dangling_tool_uses dead_step)
   \<and> pair_dangling_tool_uses (pair_dangling_tool_uses dead_step) = pair_dangling_tool_uses dead_step"
  using repaired_request_is_paired [of dead_step] repaired_request_is_paired [of "pair_dangling_tool_uses dead_step"]
  by (simp add: dead_step_def answered_next_def used_ids_def List.map_filter_simps)

text \<open>The cached aging pass takes the ids off the results it blanks, so the repair reports the calls as
  unfinished, beside the blanked results of the calls that did finish.\<close>

theorem aged_calls_are_reported_unfinished:
  "let ms = [\<lparr>role = RoleAssistant, content = [MToolUse ''t1'' ''Read'' JNull]\<rparr>,
             \<lparr>role = RoleUser, content = [MToolResult ''t1'' ''text of the file'' (Some False)]\<rparr>]
   in paired ms \<and>
      map content (pair_dangling_tool_uses (fst (clear_stale_tool_results ms 0))) =
        [[MToolUse ''t1'' ''Read'' JNull],
         [MToolResult ''t1'' UNFINISHED (Some True), MToolResult [] CLEARED (Some False)]]"
  by code_simp

section \<open>Compaction keeps calls answered\<close>

definition same_ids :: "model_message \<Rightarrow> model_message \<Rightarrow> bool" where
  "same_ids m n \<longleftrightarrow> role n = role m \<and> used_ids n = used_ids m \<and> answered_ids n = answered_ids m"

lemma paired_same_ids: "list_all2 same_ids ms ns \<Longrightarrow> paired ms \<Longrightarrow> paired ns"
proof (induction ms ns rule: list_all2_induct)
  case (Cons m ms n ns)
  have "answered_next m ms = answered_next n ns"
    using Cons.hyps by (cases ms; cases ns) (auto simp: answered_next_def same_ids_def)
  with Cons show ?case by simp
qed simp

lemma kept_same_ids:
  assumes "message_kept m n"
  shows "same_ids m n"
proof -
  have "List.map_filter (\<lambda>b. case b of MToolUse i _ _ \<Rightarrow> Some i | _ \<Rightarrow> None) cs =
      List.map_filter (\<lambda>b. case b of MToolUse i _ _ \<Rightarrow> Some i | _ \<Rightarrow> None) bs"
    "List.map_filter (\<lambda>b. case b of MToolResult i _ _ \<Rightarrow> Some i | _ \<Rightarrow> None) cs =
      List.map_filter (\<lambda>b. case b of MToolResult i _ _ \<Rightarrow> Some i | _ \<Rightarrow> None) bs"
    if "list_all2 block_kept bs cs" for bs cs
    using that
    by (induction rule: list_all2_induct)
      (auto simp: List.map_filter_simps block_kept_def split: model_block.splits)
  with assms show ?thesis
    by (auto simp: message_kept_def same_ids_def used_ids_def answered_ids_def)
qed

lemma newest_paired: "paired ms \<Longrightarrow> paired (newest tk ms k)"
proof -
  assume "paired ms"
  moreover have "ms = flatten (take (length (group_by_api_round tk ms) - k) (group_by_api_round tk ms)) @ newest tk ms k"
    using flatten_take_drop [of "length (group_by_api_round tk ms) - k" "group_by_api_round tk ms"]
      grouping.flatten_rounds [of tk ms] by (simp add: newest_def)
  ultimately show ?thesis using paired_suffix by metis
qed

lemma snip_paired: "paired ms \<Longrightarrow> paired (fst (snip tk ms max_tokens k))"
proof (cases "ms = []")
  case True
  then have "group_by_api_round tk ms = []" using grouping.rounds_empty_iff [of tk ms] by simp
  then show "paired ms \<Longrightarrow> paired (fst (snip tk ms max_tokens k))" by (simp add: snip_def)
next
  case False
  from snip_newest [OF this, of tk max_tokens k] show "paired ms \<Longrightarrow> paired (fst (snip tk ms max_tokens k))"
    using newest_paired by auto
qed

lemma micro_paired: "paired ms \<Longrightarrow> paired (fst (micro_compact tk ms k))"
proof -
  have "list_all2 same_ids ms (fst (micro_compact tk ms k))"
    using micro_kept [of ms tk k] by (rule list_all2_mono) (rule kept_same_ids)
  then show "paired ms \<Longrightarrow> paired (fst (micro_compact tk ms k))" by (rule paired_same_ids)
qed

lemma collapse_paired: "paired ms \<Longrightarrow> paired (fst (collapse_context tk ms k))"
  using newest_paired [of ms tk k]
  by (simp add: collapse_context_def newest_def Let_def user_message_def answered_next_def)

lemma compact_default_paired:
  assumes "compact_default tk ms max_tokens k = Inr (r, res)" "paired ms"
  shows "paired r"
  using assms(1)
  by (cases rule: cascade_cases) (use assms(2) snip_paired micro_paired collapse_paired in auto)

definition keeps_pairs :: "compactor \<Rightarrow> bool" where
  "keeps_pairs c \<longleftrightarrow> (\<forall>ms n k r res. paired ms \<longrightarrow> cmp_compact c ms n k = Inr (r, res) \<longrightarrow> paired r)"

lemma default_keeps_pairs: "keeps_pairs (default_compactor F sign tk)"
  using compact_default_paired
  by (auto simp: keeps_pairs_def default_compactor_def with_trait_defaults_def)

section \<open>Every request\<close>

lemma replace_messages: "a_messages (replace_after_compact e stmp ms r a) = ms"
  by (auto simp: replace_after_compact_def replace_messages_after_compact_def Let_def split: option.splits sum.splits)

lemma replace_sent: "a_sent (replace_after_compact e stmp ms r a) = a_sent a"
  by (auto simp: replace_after_compact_def split: prod.splits)

lemma announce_fields [simp]:
  "a_sent (announce ev a) = a_sent a" "a_session (announce ev a) = a_session a" "a_store (announce ev a) = a_store a"
  by (simp_all add: announce_def)

definition fine_requests :: "('st agent \<Rightarrow> 'st agent \<Rightarrow> bool)" where
  "fine_requests a b \<longleftrightarrow> (\<exists>reqs. a_sent b = a_sent a @ reqs \<and> length reqs \<le> 2 \<and> (\<forall>(_, _, ms) \<in> set reqs. paired ms))"

lemma quiet: "a_sent b = a_sent a \<Longrightarrow> fine_requests a b"
  by (simp add: fine_requests_def)

lemma send_sent: "snd (send_request w retry v ms a) = a\<lparr>a_sent := a_sent a @ [(t_model v, t_max_tokens v, ms)]\<rparr>"
  by (simp add: send_request_def)

lemma ask_model_requests:
  assumes "keeps_pairs (e_compactor e)"
  shows "fine_requests a (snd (snd (ask_model e w v a)))"
proof -
  let ?ms = "pair_dangling_tool_uses (a_messages a)"
  have ms: "paired ?ms" by (rule pair_paired)
  have shorter: "paired c" if "cmp_compact (e_compactor e) ?ms n k = Inr (c, r)" for n k c r
    using assms ms that unfolding keeps_pairs_def by blast
  show ?thesis
    using ms shorter
    by (auto simp: fine_requests_def ask_model_def prepare_request_def send_request_def retry_with_model_def
        compact_and_retry_def Let_def replace_sent replace_messages
        split: sum.splits recovery.splits prod.splits)
qed

lemma save_sent [simp]: "a_sent (save e stamps a) = a_sent a"
  by (simp add: save_def split: prod.splits)

lemma compact_sent [simp]: "a_sent (compact_if_needed e pw a) = a_sent a"
proof -
  have run: "a_sent (snd (run_compaction e pw n k t b)) = a_sent b" for n k t b
    by (auto simp: run_compaction_def Let_def replace_sent truncate_timestamps_def split: sum.splits prod.splits)
  have passes: "a_sent (age_pass e pw b) = a_sent b" "a_sent (trim_pass e b) = a_sent b"
    "a_sent (reactive_pass e b) = a_sent b" "a_sent (warning_pass e pw b) = a_sent b" for b
    by (auto simp: age_pass_def trim_pass_def reactive_pass_def warning_pass_def with_messages_def push_user_def
        truncate_timestamps_def Let_def split: prod.splits option.splits reactive_outcome.splits)
  show ?thesis by (simp add: compact_if_needed_def Let_def run passes)
qed

lemma begin_step_sent [simp]: "a_sent (snd (begin_step e w v a)) = a_sent a"
  by (auto simp: begin_step_def Let_def split: turn_verdict.splits option.splits)

lemma read_reply_sent [simp]: "a_sent (snd (snd (read_reply e w events v a))) = a_sent a"
  by (auto simp: read_reply_def with_messages_def Let_def split: prod.splits sum.splits)

lemma judge_reply_sent [simp]: "a_sent (snd (snd (judge_reply e w n sr v a))) = a_sent a"
  by (auto simp: judge_reply_def push_user_def Let_def split: turn_verdict.splits spending.splits)

lemma deliver_all_sent [simp]: "a_sent (foldl (\<lambda>a m. deliver_one now m a) b ms) = a_sent b"
  by (induction ms arbitrary: b) (simp_all add: deliver_one_def announce_def)

lemma deliver_sent [simp]: "a_sent (snd (deliver_queued now is_last a)) = a_sent a"
  by (auto simp: deliver_queued_def split: prod.splits)

lemma after_tools_sent [simp]: "a_sent (snd (after_tools w v a)) = a_sent a"
  by (auto simp: after_tools_def mention_skills_def push_user_def Let_def split: option.splits)

lemma target_sent: "output_target_step e w u a = (b, a') \<Longrightarrow> a_sent a' = a_sent a"
  by (auto simp: output_target_step_def push_user_def Let_def split: option.splits output_target.splits)

lemma after_reply_sent [simp]: "a_sent (snd (snd (after_reply e w sr v a))) = a_sent a"
proof -
  have last: "a_sent a2 = a_sent b" if "deliver_queued now True b = (x, a2)" for now b x a2
    using deliver_sent [of now True b] that by simp
  show ?thesis
    by (auto simp: after_reply_def handle_max_tokens_recovery_def finish_reply_def push_user_def Let_def
        dest!: target_sent last split: stop_recovery.splits option.splits prod.splits bool.splits)
qed

lemma turn_step_requests:
  assumes "keeps_pairs (e_compactor e)"
  shows "fine_requests a (snd (snd (turn_step e w v a)))"
proof -
  obtain stop a1 where b: "begin_step e w v a = (stop, a1)" by fastforce
  then have a1: "a_sent a1 = a_sent a" using begin_step_sent [of e w v a] by simp
  obtain asked v2 a2 where m: "ask_model e w v a1 = (asked, v2, a2)" using prod_cases3 by blast
  then have a2: "fine_requests a a2" using ask_model_requests [OF assms, of a1 w v] a1 by (simp add: fine_requests_def)
  have later: "fine_requests a a'" if "a_sent a' = a_sent a2" for a' using a2 that by (simp add: fine_requests_def)
  have reply: "a_sent a3 = a_sent a2" if "read_reply e w events v2 a2 = (x, y, a3)" for events x y a3
    using read_reply_sent [of e w events v2 a2] that by simp
  have judged: "a_sent a4 = a_sent a3" if "judge_reply e w n sr v3 a3 = (x, y, a4)" for n sr v3 a3 x y a4
    using judge_reply_sent [of e w n sr v3 a3] that by simp
  have tools: "a_sent a4 = a_sent a3" if "after_tools w v3 a3 = (y, a4)" for v3 a3 y a4
    using after_tools_sent [of w v3 a3] that by simp
  have replied: "a_sent a4 = a_sent a3" if "after_reply e w sr v3 a3 = (x, y, a4)" for sr v3 a3 x y a4
    using after_reply_sent [of e w sr v3 a3] that by simp
  show ?thesis
  proof (cases stop)
    case (Some reason)
    then show ?thesis using b a1 by (simp add: turn_step_def quiet)
  next
    case None
    show ?thesis
      using b m None a2
      by (auto simp: turn_step_def intro!: later dest!: reply judged tools replied
          split: sum.splits option.splits prod.splits)
  qed
qed

section \<open>The loop\<close>

text \<open>Counters of one step that goes on.\<close>

lemma ask_model_calls: "t_api_calls (fst (snd (ask_model e w v a))) = t_api_calls v + 1"
  by (auto simp: ask_model_def prepare_request_def retry_with_model_def Let_def
      split: sum.splits recovery.splits prod.splits)

lemma step_goes_on:
  assumes "turn_step e w v a = (None, v', a')"
  shows "before_model_call (e_limits e) (progress [] v) = TurnContinue" "t_api_calls v' = t_api_calls v + 1"
proof -
  obtain stop a1 where b: "begin_step e w v a = (stop, a1)" by fastforce
  obtain asked v2 a2 where m: "ask_model e w v a1 = (asked, v2, a2)" using prod_cases3 by blast
  have stop: "stop = None" using assms b by (cases stop) (simp_all add: turn_step_def)
  then show "before_model_call (e_limits e) (progress [] v) = TurnContinue"
    using b by (auto simp: begin_step_def Let_def split: turn_verdict.splits if_splits)
  have v2: "t_api_calls v2 = t_api_calls v + 1" using ask_model_calls [of e w v a1] m by simp
  have reply: "t_api_calls v3 = t_api_calls v2" if "read_reply e w events v2 a2 = (x, v3, a3)" for events x v3 a3
    using that by (auto simp: read_reply_def Let_def split: prod.splits sum.splits)
  have judged: "t_api_calls v4 = t_api_calls v3" if "judge_reply e w n sr v3 a3 = (x, v4, a4)" for n sr v3 a3 x v4 a4
    using that by (auto simp: judge_reply_def Let_def split: turn_verdict.splits spending.splits if_splits)
  have tools: "t_api_calls v5 = t_api_calls v4" if "after_tools w v4 a4 = (v5, a5)" for v4 a4 v5 a5
    using that by (auto simp: after_tools_def Let_def)
  have replied: "t_api_calls v5 = t_api_calls v4" if "after_reply e w sr v4 a4 = (x, v5, a5)" for sr v4 a4 x v5 a5
    using that by (auto simp: after_reply_def handle_max_tokens_recovery_def
        split: stop_recovery.splits option.splits prod.splits bool.splits)
  show "t_api_calls v' = t_api_calls v + 1"
    using assms b m stop v2
    by (auto simp: turn_step_def dest!: reply judged tools replied
        split: sum.splits option.splits prod.splits if_splits)
qed

lemma unat_inc: "(x :: 32 word) < m \<Longrightarrow> unat (x + 1) = unat x + 1"
proof -
  assume "x < m"
  then have "unat x + 1 \<le> unat m" by (simp add: word_less_nat_alt)
  also have "unat m < 2 ^ LENGTH(32)" by (rule unsigned_less)
  finally show ?thesis by (simp add: unat_word_ariths)
qed

lemma stopped_sends_nothing:
  "before_model_call (e_limits e) (progress [] v) \<noteq> TurnContinue \<Longrightarrow> a_sent (snd (snd (turn_step e w v a))) = a_sent a"
  by (auto simp: turn_step_def begin_step_def Let_def split: turn_verdict.splits)

lemma turn_loop_ends:
  assumes "keeps_pairs (e_compactor e)"
    and "\<And>p. before_model_call (e_limits e) p = TurnContinue \<Longrightarrow> tp_api_calls p < m"
    and "t_api_calls v \<le> m"
  shows "\<exists>r v' a' reqs. turn_loop e w i v a = Some (r, v', a') \<and> a_sent a' = a_sent a @ reqs
    \<and> length reqs \<le> 2 * unat (m - t_api_calls v) \<and> (\<forall>(_, _, ms) \<in> set reqs. paired ms)"
  using assms(3)
proof (induction "unat (m - t_api_calls v)" arbitrary: i v a rule: less_induct)
  case less
  obtain r v1 a1 where step: "turn_step e (w i) v a = (r, v1, a1)" using prod_cases3 by blast
  have fine: "fine_requests a a1" using turn_step_requests [OF assms(1), of a "w i" v] step by simp
  show ?case
  proof (cases r)
    case (Some x)
    have "turn_loop e w i v a = Some (x, v1, a1)" by (subst turn_loop.simps) (simp add: step Some)
    moreover have "\<exists>reqs. a_sent a1 = a_sent a @ reqs \<and> length reqs \<le> 2 * unat (m - t_api_calls v)
      \<and> (\<forall>(_, _, ms) \<in> set reqs. paired ms)"
    proof (cases "t_api_calls v < m")
      case True
      then have "0 < unat (m - t_api_calls v)" by (simp add: unat_gt_0)
      then show ?thesis using fine by (fastforce simp: fine_requests_def)
    next
      case False
      then have "before_model_call (e_limits e) (progress [] v) \<noteq> TurnContinue"
        using assms(2) [of "progress [] v"] by (auto simp: progress_def)
      then show ?thesis using stopped_sends_nothing [of e v "w i" a] step by simp
    qed
    ultimately show ?thesis by blast
  next
    case None
    have lt: "t_api_calls v < m"
      using assms(2) [OF step_goes_on(1) [of e "w i" v a v1 a1]] step None by (simp add: progress_def)
    have next_calls: "t_api_calls v1 = t_api_calls v + 1" using step_goes_on(2) step None by blast
    have le: "t_api_calls v1 \<le> m" unfolding next_calls using lt by (rule inc_le)
    have small: "unat (m - t_api_calls v1) + 1 = unat (m - t_api_calls v)"
      using unat_sub [OF less_imp_le [OF lt]] unat_sub [OF le] unat_inc [OF lt] lt next_calls
      by (simp add: word_less_nat_alt)
    obtain x v' a' reqs where loop: "turn_loop e w (Suc i) v1 a1 = Some (x, v', a')"
      and sent: "a_sent a' = a_sent a1 @ reqs" "length reqs \<le> 2 * unat (m - t_api_calls v1)"
        "\<forall>(_, _, ms) \<in> set reqs. paired ms"
      using less.hyps [OF _ le] small by force
    have here: "turn_loop e w i v a = Some (x, v', a')"
      by (subst turn_loop.simps) (simp add: step None loop)
    obtain ts where ts: "a_sent a1 = a_sent a @ ts" "length ts \<le> 2" "\<forall>(_, _, ms) \<in> set ts. paired ms"
      using fine by (auto simp: fine_requests_def)
    show ?thesis
      using here sent ts small by (intro exI [of _ x] exI [of _ v'] exI [of _ a'] exI [of _ "ts @ reqs"]) auto
  qed
qed

lemma run_of_loop:
  assumes "turn_loop e w 0 v (a\<lparr>a_last_usage := None, a_queue := steer_open (a_queue a)\<rparr>) = Some (r, v1, a1)"
  shows "\<exists>a'. run_user_turn e w stamps v a = Some (r, a') \<and> a_sent a' = a_sent a1"
  using assms by (auto simp: run_user_turn_def finish_turn_def Let_def split: sum.splits prod.splits)

text \<open>A small engine and a world in which the model calls one tool after another.\<close>

definition sample_engine :: "'st store_ops \<Rightarrow> 'st engine" where
  "sample_engine ops =
     \<lparr>e_store_ops = ops, e_compactor = default_compactor nat_ops ''!'' tok4, e_callbacks = [], e_tokenizer = tok4,
      e_count = (\<lambda>ms. length ms), e_overhead = (\<lambda>_. 0), e_time_based = \<lparr>max_age = None, min_messages = 0\<rparr>,
      e_reactive_on = False, e_recovery = default_recovery_new None, e_budget = default_budget,
      e_limits = first_of [limits_policy 25 5], e_scene = \<lparr>sb_compact_threshold = 100, sb_keep_recent = 5\<rparr>,
      e_interceptors = [], e_skill_records = (\<lambda>_. []), e_in_plan = False, e_plan = None, e_activated = [],
      e_tasks = []\<rparr>"

definition sample_stamp :: stamp where
  "sample_stamp = \<lparr>st_id = ''e1'', st_now = 5, st_text = ''t''\<rparr>"

definition sample_agent :: "'st \<Rightarrow> 'st agent" where
  "sample_agent st =
     \<lparr>a_session = push_message 0 (user_message ''go'') (session_new ''s'' None), a_store = Some st,
      a_queue = steer_new, a_cached = cached_new 0 \<lparr>cc_enabled = False, cc_interval = 1, cc_keep_recent = 5\<rparr>,
      a_ever_cleared = False, a_breaker = compaction_state_default, a_warned = False, a_overhead = 0,
      a_instructed = False, a_surfaced = [], a_skills = [], a_had_tools = False, a_last_usage = None,
      a_target = None, a_accumulated = 0, a_continuations = 0, a_last_delta = 0, a_events = [], a_sent = []\<rparr>"

definition sample_step :: "nat \<Rightarrow> step_world" where
  "sample_step i =
     \<lparr>sw_stamps = (\<lambda>_. sample_stamp), sw_cancelled = False,
      sw_pass = \<lparr>pw_now = 0, pw_clock = 0, pw_ask = None, pw_hook_allows = True, pw_stamp = sample_stamp\<rparr>,
      sw_send = (\<lambda>_ _ _ _. Inr [Inr (EvToolUse (replicate i CHR ''t'') ''Read'' JNull), Inr (EvEndTurn ''tool_use'' no_usage)]),
      sw_retry_stamp = sample_stamp,
      sw_stream = \<lparr>w_run = (\<lambda>_ _ _ _. Inr \<lparr>ta_text = ''done'', ta_new_messages = None, ta_reported_failure = False\<rparr>),
        w_safe = (\<lambda>_ _. True), w_next = (\<lambda>_. 0), w_cut = (\<lambda>_. False), w_cancelled = (\<lambda>_. False),
        w_show = (\<lambda>_. []), w_provenance = None\<rparr>,
      sw_now = 0, sw_images = [], sw_stamps_after = (\<lambda>_. sample_stamp), sw_discontinued = False,
      sw_found_skills = None, sw_activated = (\<lambda>_. []), sw_offers = [], sw_cancelled_after = False,
      sw_stop_hook = None, sw_stale_note = None\<rparr>"

lemma sample_limits: "e_limits (sample_engine ops) = first_of ([] @ limits_policy 25 5 # [])"
  by (simp add: sample_engine_def)

lemma sample_compactor: "e_compactor (sample_engine ops) = default_compactor nat_ops ''!'' tok4"
  by (simp add: sample_engine_def)

lemma sample_run:
  obtains r a' where
    "run_user_turn (sample_engine ops) sample_step (\<lambda>_. sample_stamp) (turn_start ''m'' 100 False) a = Some (r, a')"
proof -
  have keeps: "keeps_pairs (e_compactor (sample_engine ops))"
    unfolding sample_compactor by (rule default_keeps_pairs)
  have stops: "before_model_call (e_limits (sample_engine ops)) p = TurnContinue \<Longrightarrow> tp_api_calls p < 25" for p
    unfolding sample_limits by (rule limits_stop)
  have zero: "t_api_calls (turn_start ''m'' 100 False) \<le> 25" by (simp add: turn_start_def)
  from turn_loop_ends [OF keeps stops zero, of sample_step 0 "a\<lparr>a_last_usage := None, a_queue := steer_open (a_queue a)\<rparr>"]
  obtain r v1 a1 where "turn_loop (sample_engine ops) sample_step 0 (turn_start ''m'' 100 False)
      (a\<lparr>a_last_usage := None, a_queue := steer_open (a_queue a)\<rparr>) = Some (r, v1, a1)" by blast
  from run_of_loop [OF this, of "\<lambda>_. sample_stamp"] that show thesis by blast
qed

text \<open>C7. 
  C101.  A turn ends.  Under a turn policy that includes the engine's ceiling, whatever the model, the tools, the hooks
  and the user do, a turn returns an outcome or an error, and it has sent at most two requests per model call the
  ceiling allows (one and its recovery).
\<close>

theorem turn_ends:
  assumes "e_limits e = first_of (pre @ limits_policy m r # post)" "keeps_pairs (e_compactor e)"
  shows "\<exists>res a' reqs. run_user_turn e w stamps (turn_start model max_tokens prefetch) a = Some (res, a')
    \<and> a_sent a' = a_sent a @ reqs \<and> length reqs \<le> 2 * unat m"
proof -
  have stops: "before_model_call (e_limits e) p = TurnContinue \<Longrightarrow> tp_api_calls p < m" for p
    using limits_stop [of pre m r post p] assms(1) by simp
  have zero: "t_api_calls (turn_start model max_tokens prefetch) \<le> m" by (simp add: turn_start_def)
  let ?a = "a\<lparr>a_last_usage := None, a_queue := steer_open (a_queue a)\<rparr>"
  obtain res v1 a1 reqs where loop: "turn_loop e w 0 (turn_start model max_tokens prefetch) ?a = Some (res, v1, a1)"
    and sent: "a_sent a1 = a_sent ?a @ reqs" "length reqs \<le> 2 * unat (m - 0)"
    using turn_loop_ends [OF assms(2) stops zero, of w 0 ?a] by (auto simp: turn_start_def)
  from run_of_loop [OF loop, of stamps] sent show ?thesis by auto
qed

lemma turn_ends_witness:
  "\<exists>res a' reqs. run_user_turn (sample_engine (mem_store_ops (\<lambda>_. []) None Some (\<lambda>_. []))) sample_step
      (\<lambda>_. sample_stamp) (turn_start ''m'' 100 False) (sample_agent mem_new) = Some (res, a')
    \<and> a_sent a' = a_sent (sample_agent mem_new) @ reqs \<and> length reqs \<le> 2 * unat (25 :: 32 word)"
  by (rule turn_ends [OF sample_limits]) (unfold sample_compactor, rule default_keeps_pairs)



end
