(* ===== verification/Lossless.thy ===== *)
theory Lossless
  imports HistoryProps "HOL-Library.Countable"
begin

text \<open>
  A codec that loses nothing exists: log lines are countable, so numbering them is one.  It shows that what the theorems on
  files ask of serialization (a line of text per entry that reads back as the entry) can hold for every entry at once.
\<close>

section \<open>Log lines are countable\<close>

instance json :: countable by countable_datatype
instance stop_reason :: countable by countable_datatype
instance system_kind :: countable by countable_datatype
instance image_source :: countable by countable_datatype
instance cache_edit :: countable by countable_datatype
instance content_block :: countable by countable_datatype
instance tool_result_content :: countable by countable_datatype
instance message :: countable by countable_datatype
instance session_kind :: countable by countable_datatype
instance session_end_state :: countable by countable_datatype
instance system_subkind :: countable by countable_datatype
instance message_origin :: countable by countable_datatype
instance usage_record_ext :: (countable) countable
  by (rule countable_classI [of
      "\<lambda>r. to_nat (input_tokens r, output_tokens r, cache_creation_input_tokens r,
         cache_read_input_tokens r, usage_record.more r)"])
    (auto intro: usage_record.equality)
instance compact_line_ext :: (countable) countable
  by (rule countable_classI [of
      "\<lambda>r. to_nat (before_tokens r, after_tokens r, summary_block_id r, replacement_history r,
         summary r, snip_removed_uuids r, compact_line.more r)"])
    (auto intro: compact_line.equality)
instance blob_ref_ext :: (countable) countable
  by (rule countable_classI [of
      "\<lambda>r. to_nat (blob_store r, blob_id r, blob_describes r, blob_bytes r, blob_ref.more r)"])
    (auto intro: blob_ref.equality)
instance usage_totals_ext :: (countable) countable
  by (rule countable_classI [of
      "\<lambda>r. to_nat (total_input r, total_output r, total_cache_creation r, total_cache_read r,
         total_cost_usd_bits r, usage_totals.more r)"])
    (auto intro: usage_totals.equality)
instance meta_ext :: (countable) countable
  by (rule countable_classI [of
      "\<lambda>r. to_nat (meta_cwd r, meta_started_at r, meta_model r, meta_permission_mode r,
         meta_engine_version r, meta_attacode_version r, meta_parent_session_id r, meta_scene r,
         meta_project_root r, meta_session_kind r, meta_schema_version r, meta.more r)"])
    (auto intro: meta.equality)
instance log_entry :: countable by countable_datatype
instance enveloped_entry_ext :: (countable) countable
  by (rule countable_classI [of
      "\<lambda>r. to_nat (env_v r, env_id r, env_ts r, env_session_id r, env_parent_id r,
         env_is_sidechain r, env_turn_id r, env_origin r, env_entry r, enveloped_entry.more r)"])
    (auto intro: enveloped_entry.equality)
section \<open>Counting codec\<close>

definition lossless :: "codec \<Rightarrow> bool" where
  "lossless cd \<longleftrightarrow> (\<forall>env. line_ok cd env)"

definition tally_codec :: codec where
  "tally_codec =
     \<lparr>enc_env = (\<lambda>e. replicate (Suc (to_nat e)) CHR ''1''), dec_env = (\<lambda>l. Some (from_nat (length l - 1))),
      enc_entry = (\<lambda>_. []), dec_entry = (\<lambda>_. None), blocks_len = (\<lambda>_. 0), result_len = (\<lambda>_. 0)\<rparr>"
lemma trim_ones: "trim (replicate (Suc n) CHR ''1'') \<noteq> []"
proof -
  have "\<not> is_whitespace CHR ''1''" by code_simp
  then show ?thesis by (simp add: trim_def trim_start_def trim_end_def dropWhile_replicate del: replicate.simps)
qed

lemma tally_lossless: "lossless tally_codec"
  unfolding lossless_def
proof
  fix env
  show "line_ok tally_codec env"
    using trim_ones [of "to_nat env"] by (simp add: line_ok_def tally_codec_def drop_cr_def Let_def del: replicate.simps)
qed

end
