(* ===== verification/TurnRecord.thy ===== *)
theory TurnRecord
  imports TurnProps RecoveryProps Lossless
begin

text \<open>
  The turn and the log.  Everything a turn does to the session is a sequence of a few moves (\<open>session_move\<close>): push, rewrite
  the body of a tool result, attach images to a message of results, persist, replace by a compaction.  Over
  any store that accepts what it is given the moves keep the log in step with the conversation up to what an aging pass
  rewrites, so a turn that is over is on record, whatever ended it.
\<close>

section \<open>What aging may change\<close>

fun bare :: "model_block \<Rightarrow> model_block" where
  "bare (MToolResult _ _ _) = MToolResult [] [] None"
| "bare b = b"

definition bare_message :: "model_message \<Rightarrow> model_message" where
  "bare_message m = m\<lparr>content := map bare (content m)\<rparr>"

text \<open>The images of a message of tool results came with the results and are dropped with them.\<close>

definition without_images :: "model_message \<Rightarrow> model_message" where
  "without_images m =
     (if list_ex answers_tool (content m) then m\<lparr>content := filter (\<lambda>b. \<not> is_image b) (content m)\<rparr> else m)"

definition skeleton :: "model_message \<Rightarrow> model_message" where
  "skeleton m = without_images (bare_message m)"

lemma role_skeleton [simp]: "role (skeleton m) = role m"
  by (simp add: skeleton_def without_images_def bare_message_def)

lemma bare_normal [simp]: "bare (normal_block b) = bare b"
  by (cases b rule: normal_block.cases) simp_all

lemma skeleton_normal [simp]: "skeleton (normal_message m) = skeleton m"
  by (simp add: skeleton_def bare_message_def normal_message_def comp_def)

lemma skeletons_bare: "map skeleton ms = map without_images (map bare_message ms)"
  by (simp add: skeleton_def)

lemma bares_skeletons: "map bare_message ms = map bare_message ns \<Longrightarrow> map skeleton ms = map skeleton ns"
  unfolding skeletons_bare by simp

lemma recorded_skeleton: "map skeleton (recorded ms) = filter (\<lambda>m. role m \<noteq> RoleSystem) (map skeleton ms)"
  by (induction ms) (auto simp: recorded_def)

lemma recorded_same: "map skeleton ms = map skeleton ns \<Longrightarrow> map skeleton (recorded ms) = map skeleton (recorded ns)"
  by (simp add: recorded_skeleton)

section \<open>Moves\<close>

inductive session_move ::
  "'st store_ops \<Rightarrow> session \<times> 'st option \<Rightarrow> session \<times> 'st option \<Rightarrow> bool" for ops where
  mv_push: "session_move ops (s, st) (push_message now m s, st)"
| mv_push_from: "session_move ops (s, st) (push_message_from now m og s, st)"
| mv_push_reply: "session_move ops (s, st) (push_reply now m u s, st)"
| mv_rewrite: "map skeleton ms = map skeleton (ses_messages s) \<Longrightarrow>
     session_move ops (s, st) (s\<lparr>ses_messages := ms\<rparr>, st)"
| mv_frame: "ses_messages s' = ses_messages s \<Longrightarrow> ses_persisted s' = ses_persisted s \<Longrightarrow> ses_id s' = ses_id s \<Longrightarrow>
     session_move ops (s, st) (s', st)"
| mv_persist: "persist ops stamps s st = (err, s', st') \<Longrightarrow> session_move ops (s, st) (s', st')"
| mv_replace: "replace_messages_after_compact ops stmp ms b a s st = (err, s', st') \<Longrightarrow>
     session_move ops (s, st) (s', st')"

inductive_cases session_moveE: "session_move ops x y"

definition record_of :: "'st agent \<Rightarrow> session \<times> 'st option" where
  "record_of a = (a_session a, a_store a)"

abbreviation moves :: "'st engine \<Rightarrow> 'st agent \<Rightarrow> 'st agent \<Rightarrow> bool" where
  "moves e a b \<equiv> (session_move (e_store_ops e))\<^sup>*\<^sup>* (record_of a) (record_of b)"

lemma stays: "record_of b = record_of a \<Longrightarrow> moves e a b"
  by simp

lemma moved: "session_move (e_store_ops e) (record_of a) (record_of b) \<Longrightarrow> moves e a b"
  by blast

lemma moves_trans: "moves e a b \<Longrightarrow> moves e b c \<Longrightarrow> moves e a c"
  by (rule rtranclp_trans)

lemma frame_moves:
  "ses_messages (a_session b) = ses_messages (a_session a) \<Longrightarrow> ses_persisted (a_session b) = ses_persisted (a_session a)
   \<Longrightarrow> ses_id (a_session b) = ses_id (a_session a) \<Longrightarrow> a_store b = a_store a \<Longrightarrow> moves e a b"
  by (rule moved) (simp add: record_of_def mv_frame)

lemma push_user_moves: "moves e a (push_user now body a)"
  by (rule moved) (simp add: record_of_def push_user_def mv_push)

lemma save_moves: "moves e a (save e stamps a)"
proof -
  obtain err s st where p: "persist (e_store_ops e) stamps (a_session a) (a_store a) = (err, s, st)"
    using prod_cases3 by blast
  show ?thesis by (rule moved) (simp add: record_of_def save_def p mv_persist [OF p])
qed

lemma replace_moves: "moves e a (replace_after_compact e stmp ms r a)"
proof -
  obtain err s st where p: "replace_messages_after_compact (e_store_ops e) stmp ms (of_nat (tokens_before r))
      (of_nat (tokens_after r)) (a_session a) (a_store a) = (err, s, st)"
    using prod_cases3 by blast
  show ?thesis by (rule moved) (simp add: record_of_def replace_after_compact_def p mv_replace [OF p])
qed

lemma rewrite_moves: "map skeleton ms = map skeleton (a_messages a) \<Longrightarrow> moves e a (with_messages ms a)"
  by (rule moved) (simp add: record_of_def with_messages_def mv_rewrite)

lemma announce_moves [simp]: "record_of (announce ev a) = record_of a"
  by (simp add: record_of_def)

section \<open>The passes of the shipped compactor\<close>

definition keeps_shape :: "compactor \<Rightarrow> bool" where
  "keeps_shape c \<longleftrightarrow>
     (\<forall>now ms input. map skeleton (fst (cmp_age c now ms input)) = map skeleton ms) \<and>
     (\<forall>ms. map skeleton (fst (cmp_trim_tool_results c ms)) = map skeleton ms) \<and>
     (\<forall>cbs ms input. map skeleton (fst (snd (cmp_reactive c cbs ms input))) = map skeleton ms)"

lemma bares_nth:
  assumes "length ms' = length ms"
    and "\<And>i. i < length ms \<Longrightarrow> role (ms' ! i) = role (ms ! i) \<and> map bare (content (ms' ! i)) = map bare (content (ms ! i))"
  shows "map bare_message ms' = map bare_message ms"
proof (rule nth_equalityI)
  fix i assume "i < length (map bare_message ms')"
  with assms show "map bare_message ms' ! i = map bare_message ms ! i"
    by (auto simp: bare_message_def intro!: model_message.equality)
qed (simp add: assms(1))

lemma bares_all2: "list_all2 (\<lambda>b c. bare c = bare b) bs cs \<Longrightarrow> map bare cs = map bare bs"
  by (induction rule: list_all2_induct) simp_all

lemma time_bares: "map bare_message (fst (apply_time_based_mc now ms cfg ages)) = map bare_message ms"
proof (cases "max_age cfg = None \<or> length ms < min_messages cfg")
  case True
  then show ?thesis by (auto simp: apply_time_based_mc_def split: option.splits)
next
  case False
  then obtain lim where lim: "max_age cfg = Some lim" by auto
  obtain ms' res where t: "time_loop now ages lim None 0 ms time_default = (ms', res)" by fastforce
  have body: "list_all2 body_only bs cs \<Longrightarrow> map bare cs = map bare bs" for bs cs
    by (rule bares_all2, erule list_all2_mono) (auto simp: body_only_def split: model_block.splits)
  have "map bare_message ms' = map bare_message ms"
    using time_loop_spec [OF t] body by (intro bares_nth) auto
  then show ?thesis using False lim t by (simp add: apply_time_based_mc_def)
qed

lemma stale_bares: "map bare_message (fst (clear_stale_tool_results ms k)) = map bare_message ms"
proof -
  let ?ps = "drop (min k (length (stale_positions ms))) (stale_positions ms)"
  obtain ms' ids where f: "foldl stale_step (ms, []) ?ps = (ms', ids)" by fastforce
  have ps: "p \<in> set ?ps \<Longrightarrow> fst p < length ms \<and> snd p < length (content (ms ! fst p))
      \<and> is_result (content (ms ! fst p) ! snd p)" for p
    using stale_positions_valid(2) [of p ms] by (auto dest: in_set_dropD)
  have d: "distinct ?ps" using stale_positions_valid(1) [of ms] by simp
  have "map bare_message ms' = map bare_message ms"
  proof (rule bares_nth)
    show "length ms' = length ms" using stale_fold [OF f d] ps by blast
    fix i assume i: "i < length ms"
    have spec: "role (ms' ! i) = role (ms ! i)" "length (content (ms' ! i)) = length (content (ms ! i))"
      "\<forall>j<length (content (ms ! i)). content (ms' ! i) ! j = (if (i, j) \<in> set ?ps then blanked else content (ms ! i) ! j)"
      using stale_fold [OF f d] ps i by auto
    have "bare (content (ms' ! i) ! j) = bare (content (ms ! i) ! j)" if "j < length (content (ms ! i))" for j
      using spec(3) that ps [of "(i, j)"]
      by (auto simp: blanked_def is_result_def split: model_block.splits if_splits)
    with spec show "role (ms' ! i) = role (ms ! i) \<and> map bare (content (ms' ! i)) = map bare (content (ms ! i))"
      by (auto intro!: nth_equalityI)
  qed
  then show ?thesis by (simp add: clear_stale_tool_results_def Let_def f)
qed

lemma age_bares: "map bare_message (fst (age_default now ms input)) = map bare_message ms"
  using time_bares [of now ms "time_based input" "message_ages input"] stale_bares
  by (auto simp: age_default_def split: prod.splits) (metis fst_conv)+

lemma set_block_bares:
  assumes "mi < length ms \<Longrightarrow> bi < length (content (ms ! mi)) \<Longrightarrow> bare (content (ms ! mi) ! bi) = bare b"
  shows "map bare_message (set_block ms mi bi b) = map bare_message ms"
proof (rule bares_nth)
  fix i assume i: "i < length ms"
  have "map bare (content (set_block ms mi bi b ! i)) = map bare (content (ms ! i))"
    using i assms by (intro nth_equalityI) (auto simp: set_block_shape set_block_nth)
  with i show "role (set_block ms mi bi b ! i) = role (ms ! i)
      \<and> map bare (content (set_block ms mi bi b ! i)) = map bare (content (ms ! i))"
    by (simp add: set_block_shape)
qed (simp add: set_block_shape)

lemma budget_blocks_bares: "map bare (fst (budget_blocks limit bs st)) = map bare bs"
proof (induction bs arbitrary: st)
  case (Cons b bs)
  have "bare (fst (budget_block limit b st)) = bare b" by (cases b; cases st) (auto simp: Let_def)
  with Cons show ?case by (auto split: prod.splits) (metis fst_conv)+
qed simp

lemma budget_messages_bares: "map bare_message (fst (budget_messages limit ms st)) = map bare_message ms"
proof (induction ms arbitrary: st)
  case (Cons m ms)
  obtain bs st1 where b: "budget_blocks limit (content m) st = (bs, st1)" by (metis surj_pair)
  obtain ms2 st2 where m: "budget_messages limit ms st1 = (ms2, st2)" by (metis surj_pair)
  have "map bare bs = map bare (content m)" using budget_blocks_bares [of limit "content m" st] b by simp
  with Cons [of st1] b m show ?case by (simp add: bare_message_def)
qed simp

lemma budget_clear_bares: "map bare_message (fst (budget_clear limit ps ms total_size n)) = map bare_message ms"
proof (induction limit ps ms total_size n rule: budget_clear.induct)
  case (2 limit mi bi ps ms total_size n)
  show ?case
  proof (cases "content (ms ! mi) ! bi")
    case (MToolResult i c e)
    have "map bare_message (set_block ms mi bi (MToolResult i CLEARED e)) = map bare_message ms"
      by (rule set_block_bares) (simp add: MToolResult)
    with 2 MToolResult show ?thesis by simp
  qed (use 2 in auto)
qed simp

lemma trim_bares: "map bare_message (fst (enforce_tool_result_budget ms b)) = map bare_message ms"
proof -
  obtain ms1 n t where m: "budget_messages (max_per_result b) ms (0, 0) = (ms1, n, t)" using prod_cases3 by blast
  have "map bare_message ms1 = map bare_message ms" using budget_messages_bares [of "max_per_result b" ms "(0, 0)"] m by simp
  moreover have "map bare_message (fst (budget_clear (max_total b) (result_positions ms1) ms1 t n)) = map bare_message ms1"
    by (rule budget_clear_bares)
  ultimately show ?thesis by (auto simp: enforce_tool_result_budget_def m split: prod.splits)
qed

lemma micro_bares: "map bare_message (fst (micro_compact tk ms k)) = map bare_message ms"
proof -
  have kept: "message_kept m n \<Longrightarrow> bare_message n = bare_message m" for m n
  proof -
    assume k: "message_kept m n"
    then have "map bare (content n) = map bare (content m)"
      by (intro bares_all2) (auto simp: message_kept_def block_kept_def elim!: list_all2_mono split: model_block.splits)
    with k show ?thesis by (auto simp: bare_message_def message_kept_def intro!: model_message.equality)
  qed
  from micro_kept [of ms tk k] show ?thesis
    by (induction rule: list_all2_induct) (auto simp: kept)
qed

lemma default_keeps_shape: "keeps_shape (default_compactor F sign tk)"
  unfolding keeps_shape_def default_compactor_def with_trait_defaults_def
  using age_bares trim_bares micro_bares
  by (auto simp: reactive_default_def Let_def intro!: bares_skeletons)

section \<open>A turn is a sequence of moves\<close>

lemma with_messages_same: "a_session (with_messages ms a) = (a_session a)\<lparr>ses_messages := ms\<rparr>" "a_store (with_messages ms a) = a_store a"
  by (simp_all add: with_messages_def)

lemma truncate_moves: "moves e a (truncate_timestamps n a)"
  by (rule frame_moves) (simp_all add: truncate_timestamps_def)

lemma age_moves:
  assumes "keeps_shape (e_compactor e)"
  shows "moves e a (age_pass e pw a)"
proof -
  obtain ms aging where g: "cmp_age (e_compactor e) (pw_now pw) (a_messages a)
      \<lparr>message_ages = map (\<lambda>(i, t). (i, nat t)) (Session.message_ages (pw_clock pw) (a_session a)),
       time_based = e_time_based e, cached_due = should_run (pw_now pw) (a_cached a),
       cached_keep_recent = cc_keep_recent (config (a_cached a))\<rparr> = (ms, aging)" by fastforce
  then have "map skeleton ms = map skeleton (a_messages a)" using assms by (metis keeps_shape_def fst_conv)
  then have "moves e a (with_messages ms a)" by (rule rewrite_moves)
  moreover have "record_of (age_pass e pw a) = record_of (with_messages ms a)"
    using g by (auto simp: age_pass_def record_of_def Let_def split: option.splits)
  ultimately show ?thesis by simp
qed

lemma trim_moves:
  assumes "keeps_shape (e_compactor e)"
  shows "moves e a (trim_pass e a)"
proof -
  obtain ms n where g: "cmp_trim_tool_results (e_compactor e) (a_messages a) = (ms, n)" by fastforce
  then have "map skeleton ms = map skeleton (a_messages a)" using assms by (metis keeps_shape_def fst_conv)
  then have "moves e a (with_messages ms a)" by (rule rewrite_moves)
  moreover have "record_of (trim_pass e a) = record_of (with_messages ms a)"
    using g by (simp add: trim_pass_def record_of_def)
  ultimately show ?thesis by simp
qed

lemma reactive_moves:
  assumes "keeps_shape (e_compactor e)"
  shows "moves e a (reactive_pass e a)"
proof -
  obtain outcome ms cbs where g: "cmp_reactive (e_compactor e) (e_callbacks e) (a_messages a)
      \<lparr>ri_context_tokens = context_tokens e a, ri_context_limit = cb_compact_threshold (context_budget_of e),
       ri_keep_recent = cb_keep_recent (context_budget_of e), ri_enabled = e_reactive_on e,
       ri_circuit_open = circuit_open (a_breaker a)\<rparr> = (outcome, ms, cbs)" using prod_cases3 by blast
  then have "map skeleton ms = map skeleton (a_messages a)" using assms by (metis keeps_shape_def fst_conv snd_conv)
  then have w: "moves e a (with_messages ms a)" by (rule rewrite_moves)
  have "moves e (with_messages ms a) (reactive_pass e a)"
  proof (cases outcome)
    case Compacted
    have "record_of (reactive_pass e a) = record_of (truncate_timestamps (length ms) (with_messages ms a))"
      using g Compacted by (simp add: reactive_pass_def record_of_def Let_def)
    then show ?thesis using truncate_moves by metis
  qed (use g in \<open>simp_all add: reactive_pass_def record_of_def Let_def\<close>)
  with w show ?thesis by (rule moves_trans)
qed

lemma warning_moves: "moves e a (warning_pass e pw a)"
proof (cases "cmp_context_warning (e_compactor e) (budget_state_of e a)")
  case (Some body)
  have "record_of (warning_pass e pw a) = record_of (push_user (pw_clock pw) body a)"
    by (simp add: warning_pass_def Some record_of_def)
  then show ?thesis using push_user_moves by metis
qed (simp add: warning_pass_def)

lemma run_compaction_moves: "moves e a (snd (run_compaction e pw n k t a))"
proof (cases "pw_hook_allows pw")
  case True
  show ?thesis
  proof (cases "compact_outcome e pw n k t (a_messages a)")
    case (Inr x)
    obtain compacted r where x: "x = (compacted, r)" by fastforce
    show ?thesis
    proof (cases "t = TriggerManual \<and> cr_strategy r = NoOp")
      case False
      define a1 where "a1 = (if cr_strategy r = MicroCompact then a\<lparr>a_ever_cleared := True\<rparr> else a)"
      define ms where "ms = recovery_messages (recovery_context e a1 (a_messages a)) @ compacted"
      define a2 where "a2 = truncate_timestamps (length ms) (replace_after_compact e (pw_stamp pw) ms r a1)"
      have "record_of (snd (run_compaction e pw n k t a)) = record_of a2"
        using True Inr x False
        by (auto simp: run_compaction_def Let_def record_of_def a1_def ms_def a2_def announce_def)
      moreover have "record_of a1 = record_of a" by (simp add: a1_def record_of_def)
      moreover have "moves e a1 a2"
        unfolding a2_def by (rule moves_trans [OF replace_moves truncate_moves])
      ultimately show ?thesis by simp
    qed (use True Inr x in \<open>simp add: run_compaction_def Let_def\<close>)
  qed (simp add: run_compaction_def)
qed (simp add: run_compaction_def)

lemma compact_moves:
  assumes "keeps_shape (e_compactor e)"
  shows "moves e a (compact_if_needed e pw a)"
proof -
  let ?a1 = "warning_pass e pw (reactive_pass e (trim_pass e (age_pass e pw a)))"
  have "moves e a ?a1"
    by (rule moves_trans [OF moves_trans [OF moves_trans [OF age_moves trim_moves] reactive_moves] warning_moves])
      (rule assms)+
  then show ?thesis
    using moves_trans [OF _ run_compaction_moves] by (auto simp: compact_if_needed_def Let_def)
qed

lemma begin_moves:
  assumes "keeps_shape (e_compactor e)"
  shows "moves e a (snd (begin_step e w v a))"
  using save_moves [of e a "sw_stamps w"] moves_trans [OF save_moves compact_moves [OF assms]]
  by (auto simp: begin_step_def Let_def split: turn_verdict.splits option.splits)

lemma retry_moves: "moves e a (snd (snd (retry_with_model w model ms v a)))"
  by (auto simp: retry_with_model_def send_request_def Let_def record_of_def split: sum.splits)

lemma compact_retry_moves: "moves e a (snd (compact_and_retry e w err ms v a))"
proof (cases "cmp_compact (e_compactor e) ms (max (cb_compact_threshold (context_budget_of e)) 50000)
    (min (cb_keep_recent (context_budget_of e)) 5)")
  case (Inr x)
  obtain compacted r where x: "x = (compacted, r)" by fastforce
  show ?thesis
  proof (cases "length compacted < length (a_messages a)")
    case True
    define a1 where "a1 = announce (TvCompact (cr_strategy r) (length (a_messages a)) (length compacted)
      (tokens_before r) (tokens_after r)) a"
    have "record_of (snd (compact_and_retry e w err ms v a)) = record_of (replace_after_compact e (sw_retry_stamp w) compacted r a1)"
      using Inr x True unfolding a1_def compact_and_retry_def send_request_def Let_def
      by (simp add: record_of_def split: sum.splits)
    moreover have "record_of a1 = record_of a" by (simp add: a1_def)
    ultimately show ?thesis using replace_moves [of e a1 "sw_retry_stamp w" compacted r] by simp
  qed (use Inr x in \<open>simp add: compact_and_retry_def Let_def\<close>)
qed (simp add: compact_and_retry_def Let_def)

lemma ask_moves: "moves e a (snd (snd (ask_model e w v a)))"
proof -
  define v1 where "v1 = v\<lparr>t_api_calls := t_api_calls v + 1\<rparr>"
  obtain ms a2 where p: "prepare_request e v1 (announce (TvStepStart (t_api_calls v)) a) = (ms, a2)" by fastforce
  then have a2: "record_of a2 = record_of a" by (auto simp: prepare_request_def record_of_def)
  obtain r a3 where q: "send_request w False v1 ms a2 = (r, a3)" by fastforce
  with a2 have a3: "record_of a3 = record_of a" by (auto simp: send_request_def record_of_def)
  note step = p [unfolded v1_def] q [unfolded v1_def]
  show ?thesis
  proof (cases r)
    case (Inl err)
    show ?thesis
    proof (cases "classify_failure (e_recovery e) err")
      case (RetryWith model)
      then show ?thesis using step Inl a3 retry_moves [of e a3 w model ms]
        by (simp add: ask_model_def Let_def)
    next
      case CompactAndRetry
      then show ?thesis using step Inl a3 compact_retry_moves [of e a3 w err ms]
        by (simp add: ask_model_def Let_def split: prod.split) (metis snd_conv)
    qed (use step Inl a3 in \<open>simp add: ask_model_def Let_def\<close>)
  qed (use step a3 in \<open>simp add: ask_model_def Let_def\<close>)
qed

lemma push_list_moves:
  "(session_move ops)\<^sup>*\<^sup>* (s, st) (foldl (\<lambda>s msgs. inject_new_messages now msgs s) s groups, st)"
proof -
  have one: "(session_move ops)\<^sup>*\<^sup>* (s, st) (inject_new_messages now msgs s, st)" for s msgs
  proof (induction msgs arbitrary: s)
    case (Cons m msgs)
    have "(session_move ops)\<^sup>*\<^sup>* (s, st) (push_message now (injected m) s, st)"
      by (rule r_into_rtranclp) (rule mv_push)
    with Cons [of "push_message now (injected m) s"] show ?case
      by (simp add: inject_new_messages_def)
  qed (simp add: inject_new_messages_def)
  show ?thesis
  proof (induction groups arbitrary: s)
    case (Cons g groups)
    show ?case using rtranclp_trans [OF one [of s g] Cons [of "inject_new_messages now g s"]] by simp
  qed simp
qed

lemma write_reply_moves:
  "(session_move ops)\<^sup>*\<^sup>* (s, st) (write_reply now is reply u results groups s, st)"
proof (cases "reply = []")
  case False
  define m where "m = intercept_message is \<lparr>role = RoleAssistant, content = reply\<rparr>"
  define s1 where "s1 = push_reply now m u s"
  define s2 where "s2 = (if list_ex is_tool_use reply
      then push_message now \<lparr>role = RoleUser, content = map snd (sort_key fst results)\<rparr> s1 else s1)"
  have "(session_move ops)\<^sup>*\<^sup>* (s, st) (s1, st)"
    unfolding s1_def by (rule r_into_rtranclp) (rule mv_push_reply)
  moreover have "(session_move ops)\<^sup>*\<^sup>* (s1, st) (s2, st)"
    unfolding s2_def by (auto intro!: r_into_rtranclp mv_push)
  moreover have "write_reply now is reply u results groups s = foldl (\<lambda>s msgs. inject_new_messages now msgs s) s2 groups"
    using False by (simp add: write_reply_def m_def s1_def s2_def Let_def)
  ultimately show ?thesis using push_list_moves [of ops s2 st now groups] by (metis rtranclp_trans)
qed (simp add: write_reply_def)

lemma answers_bare: "answers_tool (bare b) = answers_tool b"
  by (cases b) (simp_all add: answers_tool_def)

lemma with_images_skeleton:
  assumes "list_ex answers_tool (content m)"
  shows "skeleton (m\<lparr>content := content m @ map (\<lambda>(t, d). MImage t d) images\<rparr>) = skeleton m"
proof -
  have none: "filter (\<lambda>b. \<not> is_image b) (map (bare \<circ> (\<lambda>(t, d). MImage t d)) images) = []"
    by (auto simp: filter_empty_conv is_image_def)
  have "list_ex answers_tool (map bare (content m))"
    using assms by (auto simp: list_ex_iff answers_bare)
  then show ?thesis using none by (simp add: skeleton_def without_images_def bare_message_def)
qed

lemma attached_skeletons: "map skeleton (attach_tool_result_images images ms) = map skeleton ms"
proof (cases "last_result_message ms")
  case (Some i)
  then have i: "i < length ms" "list_ex answers_tool (content (ms ! i))"
    by (auto simp: last_result_message_def find_Some_iff rev_nth)
  then show ?thesis
    using Some with_images_skeleton [OF i(2), of images]
    by (simp add: attach_tool_result_images_def map_update) (metis length_map list_update_id nth_map)
qed (simp add: attach_tool_result_images_def)

lemma read_reply_moves: "moves e a (snd (snd (read_reply e w events v a)))"
proof -
  obtain result s evs where x: "execute_stream (sw_stream w) (sw_now w) (e_interceptors e) events (a_session a) = (result, s, evs)"
    using prod_cases3 by blast
  define a1 where "a1 = a\<lparr>a_session := s, a_events := a_events a @ map TvHost evs\<rparr>"
  have a1: "moves e a a1"
    using x write_reply_moves by (auto simp: execute_stream_def a1_def record_of_def Let_def split: prod.splits)
  show ?thesis
  proof (cases result)
    case (Inr sr)
    define a2 where "a2 = (if sw_images w = [] then a1
        else with_messages (attach_tool_result_images (sw_images w) (a_messages a1)) a1)"
    have "moves e a1 a2"
      using rewrite_moves [where a = a1, OF attached_skeletons] by (auto simp: a2_def)
    moreover have "record_of (a2\<lparr>a_last_usage := Some (sr_usage sr)\<rparr>) = record_of a2" by (simp add: record_of_def)
    then have "moves e a2 (save e (sw_stamps_after w) (a2\<lparr>a_last_usage := Some (sr_usage sr)\<rparr>))"
      using save_moves by metis
    moreover have "record_of (snd (snd (read_reply e w events v a)))
        = record_of (save e (sw_stamps_after w) (a2\<lparr>a_last_usage := Some (sr_usage sr)\<rparr>))"
      using x Inr by (simp add: read_reply_def Let_def a2_def a1_def)
    ultimately show ?thesis using a1 by (metis moves_trans)
  qed (use x a1 in \<open>simp add: read_reply_def Let_def a1_def\<close>)
qed

lemma judge_moves: "moves e a (snd (snd (judge_reply e w n sr v a)))"
  using push_user_moves [of e a "sw_now w"]
  by (auto simp: judge_reply_def Let_def split: turn_verdict.splits spending.splits)

lemma deliver_one_moves: "moves e a (deliver_one now m a)"
  by (rule moved) (simp add: record_of_def deliver_one_def mv_push_from)

lemma deliver_all_moves: "moves e a (foldl (\<lambda>a m. deliver_one now m a) a ms)"
proof (induction ms arbitrary: a)
  case (Cons m ms)
  show ?case using moves_trans [OF deliver_one_moves Cons [of "deliver_one now m a"]] by simp
qed simp

lemma deliver_moves: "moves e a (snd (deliver_queued now is_last a))"
proof -
  obtain ms q where q: "(if is_last then take_or_close (a_queue a) else steer_take (a_queue a)) = (ms, q)" by fastforce
  have "record_of (a\<lparr>a_queue := q\<rparr>) = record_of a" by (simp add: record_of_def)
  then show ?thesis using deliver_all_moves [of e "a\<lparr>a_queue := q\<rparr>" now ms] q by (simp add: deliver_queued_def)
qed

lemma mention_moves: "moves e a (mention_skills now body names a)"
  using push_user_moves [of e a now "body names"] by (auto simp: mention_skills_def record_of_def)

lemma after_tools_moves: "moves e a (snd (after_tools w v a))"
proof -
  define a1 where "a1 = (if t_prefetch v
                then (case sw_found_skills w of
                        Some names \<Rightarrow> mention_skills (sw_now w) discovered_note names a
                      | None \<Rightarrow> a)
                else a)"
  define paths where "paths = extract_tool_file_paths (a_messages a1)"
  define a2 where "a2 = (if paths = [] then a1 else mention_skills (sw_now w) activated_note (sw_activated w paths) a1)"
  define a3 where "a3 = a2\<lparr>a_queue := offer_all (sw_offers w) (a_queue a2)\<rparr>"
  have "moves e a a1" "moves e a1 a2"
    using mention_moves by (auto simp: a1_def a2_def split: option.splits)
  moreover have "record_of a3 = record_of a2" by (simp add: a3_def record_of_def)
  moreover have "snd (after_tools w v a) = (if sw_cancelled_after w then a3 else snd (deliver_queued (sw_now w) False a3))"
    by (simp add: after_tools_def Let_def a1_def a2_def a3_def paths_def)
  ultimately show ?thesis using deliver_moves [of e a3 "sw_now w" False] by (auto intro: rtranclp_trans)
qed

lemma target_moves: "moves e a (snd (output_target_step e w u a))"
proof (cases "a_target a")
  case (Some target)
  have same: "record_of (a\<lparr>a_accumulated := x, a_continuations := c, a_last_delta := d\<rparr>) = record_of a"
    "record_of (a\<lparr>a_accumulated := x, a_target := t, a_continuations := c, a_last_delta := d\<rparr>) = record_of a" for x t c d
    by (simp_all add: record_of_def)
  show ?thesis
    using Some same push_user_moves [of e "a\<lparr>a_accumulated := x, a_continuations := c, a_last_delta := d\<rparr>" "sw_now w" n for x c d n]
    by (auto simp: output_target_step_def Let_def record_of_def split: output_target.splits)
qed (simp add: output_target_step_def)

lemma finish_reply_moves: "moves e a (finish_reply w a)"
proof -
  define a1 where "a1 = a\<lparr>a_session := increment_turn (a_session a)\<rparr>"
  have a1: "moves e a a1" by (rule frame_moves) (simp_all add: a1_def increment_turn_def)
  show ?thesis
    using a1 moves_trans [OF a1 push_user_moves] by (auto simp: finish_reply_def Let_def a1_def split: option.splits)
qed

lemma after_reply_moves: "moves e a (snd (snd (after_reply e w sr v a)))"
proof (cases "handle_max_tokens_recovery e w (sr_stop_reason sr) v a")
  case (Some x)
  obtain v1 a1 where x: "x = (v1, a1)" by fastforce
  have "moves e a a1"
    using Some x push_user_moves
    by (auto simp: handle_max_tokens_recovery_def split: stop_recovery.splits option.splits)
  then show ?thesis using Some x by (simp add: after_reply_def)
next
  case None
  show ?thesis
  proof (cases "sw_stop_hook w")
    case None
    obtain go a1 where t: "output_target_step e w (sr_usage sr) a = (go, a1)" by fastforce
    have a1: "moves e a a1" using target_moves [of e a w "sr_usage sr"] t by simp
    show ?thesis
    proof (cases go)
      case False
      define a2 where "a2 = a1\<lparr>a_queue := offer_all (sw_offers w) (a_queue a1)\<rparr>"
      obtain some a3 where d: "deliver_queued (sw_now w) True a2 = (some, a3)" by fastforce
      have "record_of a2 = record_of a1" by (simp add: a2_def record_of_def)
      then have a3: "moves e a a3"
        using moves_trans [OF a1] deliver_moves [of e a2 "sw_now w" True] d by simp
      show ?thesis
        using \<open>handle_max_tokens_recovery e w (sr_stop_reason sr) v a = None\<close> None t False d a3
          moves_trans [OF a3 finish_reply_moves]
        by (cases some) (simp_all add: after_reply_def a2_def)
    qed (use \<open>handle_max_tokens_recovery e w (sr_stop_reason sr) v a = None\<close> None t a1 in
        \<open>simp add: after_reply_def\<close>)
  qed (use None in \<open>simp add: after_reply_def\<close>)
qed

lemma turn_step_moves:
  assumes "keeps_shape (e_compactor e)"
  shows "moves e a (snd (snd (turn_step e w v a)))"
proof -
  obtain stop a1 where b: "begin_step e w v a = (stop, a1)" by fastforce
  have a1: "moves e a a1" using begin_moves [OF assms, of a w v] b by simp
  show ?thesis
  proof (cases stop)
    case None
    obtain asked v2 a2 where m: "ask_model e w v a1 = (asked, v2, a2)" using prod_cases3 by blast
    have a2: "moves e a a2" using moves_trans [OF a1 ask_moves [of e a1 w v]] m by simp
    show ?thesis
    proof (cases asked)
      case (Inr events)
      obtain read v3 a3 where r: "read_reply e w events v2 a2 = (read, v3, a3)" using prod_cases3 by blast
      have a3: "moves e a a3" using moves_trans [OF a2 read_reply_moves [of e a2 w events v2]] r by simp
      show ?thesis
      proof (cases read)
        case (Inr sr)
        obtain judged v4 a4 where j: "judge_reply e w (length (a_messages a2)) sr v3 a3 = (judged, v4, a4)"
          using prod_cases3 by blast
        have a4: "moves e a a4" using moves_trans [OF a3 judge_moves] j by (metis snd_conv)
        have "moves e a (snd (after_tools w v4 a4))" "moves e a (snd (snd (after_reply e w sr v4 a4)))"
          using moves_trans [OF a4 after_tools_moves] moves_trans [OF a4 after_reply_moves] by blast+
        then show ?thesis
          using b None m \<open>asked = Inr events\<close> r Inr j a4
          by (auto simp: turn_step_def split: option.splits prod.splits)
      qed (use b None m Inr r a3 in \<open>simp add: turn_step_def\<close>)
    qed (use b None m a2 in \<open>simp add: turn_step_def\<close>)
  qed (use b a1 in \<open>simp add: turn_step_def\<close>)
qed

lemma turn_loop_moves:
  assumes "turn_loop e w i v a = Some x" "keeps_shape (e_compactor e)"
  shows "moves e a (snd (snd x))"
proof -
  have "keeps_shape (e_compactor e) \<longrightarrow> moves e a (snd (snd x))"
  proof (rule turn_loop.raw_induct [where P = "\<lambda>e w i v a x. keeps_shape (e_compactor e) \<longrightarrow> moves e a (snd (snd x))",
        OF _ assms(1)], intro impI)
    fix tl :: "'a engine \<Rightarrow> (nat \<Rightarrow> step_world) \<Rightarrow> nat \<Rightarrow> turn_vars \<Rightarrow> 'a agent
        \<Rightarrow> ((turn_error + turn_outcome) \<times> turn_vars \<times> 'a agent) option"
    fix e :: "'a engine" and w i v and a :: "'a agent" and x
    assume IH: "\<And>e w i v a x. tl e w i v a = Some x \<Longrightarrow> keeps_shape (e_compactor e) \<longrightarrow> moves e a (snd (snd x))"
      and x: "(case turn_step e (w i) v a of (None, v1, a1) \<Rightarrow> tl e w (Suc i) v1 a1
        | (Some r, v1, a1) \<Rightarrow> Some (r, v1, a1)) = Some x"
      and keeps: "keeps_shape (e_compactor e)"
    obtain r v1 a1 where step: "turn_step e (w i) v a = (r, v1, a1)" using prod_cases3 by blast
    have a1: "moves e a a1" using turn_step_moves [OF keeps, of a "w i" v] step by simp
    show "moves e a (snd (snd x))"
    proof (cases r)
      case None
      then have "tl e w (Suc i) v1 a1 = Some x" using x step by simp
      with IH keeps have "moves e a1 (snd (snd x))" by blast
      with a1 show ?thesis by (rule moves_trans)
    qed (use x step a1 in auto)
  qed
  with assms(2) show ?thesis by blast
qed

lemma run_moves:
  assumes "keeps_shape (e_compactor e)" "run_user_turn e w stamps v a = Some (r, a')"
  obtains b where "moves e a b" "record_of a' = record_of (save e stamps b)"
proof -
  define a0 where "a0 = a\<lparr>a_last_usage := None, a_queue := steer_open (a_queue a)\<rparr>"
  obtain v1 a1 where loop: "turn_loop e w 0 v a0 = Some (r, v1, a1)"
    using assms(2) by (auto simp: run_user_turn_def a0_def Let_def split: option.splits prod.splits)
  have "record_of a0 = record_of a" by (simp add: a0_def record_of_def)
  with turn_loop_moves [OF loop assms(1)] have m: "moves e a a1" by simp
  define a2 where "a2 = a1\<lparr>a_had_tools := (case r of Inr _ \<Rightarrow> t_had_tools v1 | Inl _ \<Rightarrow> a_had_tools a1)\<rparr>"
  obtain undelivered q where q: "steer_close (a_queue a2) = (undelivered, q)" by fastforce
  define a3 where "a3 = (if undelivered = [] then a2\<lparr>a_queue := q\<rparr> else announce (TvReturned undelivered) (a2\<lparr>a_queue := q\<rparr>))"
  have same: "record_of a3 = record_of a1" by (simp add: a3_def a2_def record_of_def)
  have "a' = finish_turn e stamps r a3"
    using assms(2) loop q unfolding run_user_turn_def a0_def [symmetric] a3_def a2_def by (simp add: Let_def)
  then have "record_of a' = record_of (save e stamps a3)"
    by (simp add: finish_turn_def Let_def split: sum.splits)
  moreover have "moves e a a3" using m same by simp
  ultimately show thesis using that by blast
qed

section \<open>Stores that take what they are given\<close>

locale session_log_total = session_log ops sound writable
  for ops :: "'st store_ops" and sound and writable +
  fixes ready :: "'st \<Rightarrow> bool"
  assumes accepts: "ready st \<Longrightarrow> sound st sid \<Longrightarrow> conversational entry \<Longrightarrow>
    writable st s sid entry tags \<and> (\<exists>st'. so_append ops st s sid entry tags = Inr st' \<and> ready st')"
begin

definition tracked :: "string \<Rightarrow> session \<times> 'st option \<Rightarrow> bool" where
  "tracked sid x \<longleftrightarrow>
     (\<exists>st. snd x = Some st \<and> ready st \<and> sound st sid \<and> so_parse_id ops (ses_id (fst x)) = Some sid \<and>
        ses_persisted (fst x) \<le> length (ses_messages (fst x)) \<and>
        map skeleton (view st sid) = map skeleton (recorded (take (ses_persisted (fst x)) (ses_messages (fst x)))))"

lemma tracked_push:
  assumes "tracked sid (s, st)" "ses_messages s' = ses_messages s @ ms" "ses_persisted s' = ses_persisted s" "ses_id s' = ses_id s"
  shows "tracked sid (s', st)"
  using assms by (auto simp: tracked_def)

lemma persist_from_tracked:
  assumes "tracked sid (s, Some st)" "msgs = drop (ses_persisted s) (ses_messages s)"
  shows "\<exists>s' st'. persist_from ops stamps sid msgs s st = (None, s', st') \<and> tracked sid (s', Some st')
    \<and> ses_messages s' = ses_messages s \<and> ses_persisted s' = length (ses_messages s)"
  using assms
proof (induction msgs arbitrary: s st)
  case Nil
  then show ?case by (auto simp: tracked_def)
next
  case (Cons m msgs)
  let ?p = "ses_persisted s"
  have lt: "?p < length (ses_messages s)" and m: "ses_messages s ! ?p = m"
    and rest: "msgs = drop (Suc ?p) (ses_messages s)"
    using drop_ConsD [OF Cons.prems(2)] by auto
  have grown: "take (Suc ?p) (ses_messages s) = take ?p (ses_messages s) @ [m]"
    using lt m by (simp add: take_Suc_conv_app_nth)
  have adv: "ses_messages (advance s) = ses_messages s" "ses_persisted (advance s) = Suc ?p" "ses_id (advance s) = ses_id s"
    by (simp_all add: advance_def)
  show ?case
  proof (cases "model_message_to_log_entry m")
    case None
    then have "role m = RoleSystem"
      by (auto simp: model_message_to_log_entry_def Let_def split: message_role.splits)
    then have "tracked sid (advance s, Some st)"
      using Cons.prems(1) lt grown adv by (simp add: tracked_def recorded_def)
    then show ?thesis
      using Cons.IH [of "advance s" st] None rest adv by (simp add: Let_def)
  next
    case (Some entry)
    let ?e = "entry_with_usage entry (note_usage (note_at s ?p))" and ?t = "line_tags s m (note_at s ?p)"
    have ok: "ready st" "sound st sid" using Cons.prems(1) by (simp_all add: tracked_def)
    have "conversational ?e"
      using Some by (auto simp: model_message_to_log_entry_def entry_with_usage_def conversational_def Let_def
          split: message_role.splits option.splits)
    from accepts [OF ok this] obtain st1 where w: "writable st (stamps ?p) sid ?e ?t"
      and st1: "so_append ops st (stamps ?p) sid ?e ?t = Inr st1" "ready st1" by blast
    have "tracked sid (advance s, Some st1)"
      using view_message [OF ok(2) w st1(1) Some] Cons.prems(1) lt grown adv st1(2)
      by (simp add: tracked_def recorded_def)
    then show ?thesis
      using Cons.IH [of "advance s" st1] Some st1 rest adv by (simp add: Let_def)
  qed
qed

lemma persist_tracked:
  assumes "tracked sid (s, st)"
  shows "\<exists>s' st'. persist ops stamps s st = (None, s', st') \<and> tracked sid (s', st')
    \<and> ses_messages s' = ses_messages s \<and> ses_persisted s' = length (ses_messages s)"
proof -
  obtain st0 where st0: "st = Some st0" "so_parse_id ops (ses_id s) = Some sid"
    using assms by (auto simp: tracked_def)
  from persist_from_tracked [OF assms [unfolded st0(1)] refl, of stamps] st0 show ?thesis
    by (auto simp: persist_def)
qed

lemma replace_tracked:
  assumes "tracked sid (s, st)" "replace_messages_after_compact ops stmp ms b a s st = (e, s', st')"
  shows "tracked sid (s', st')"
proof -
  obtain st0 where st0: "st = Some st0" "so_parse_id ops (ses_id s) = Some sid" "ready st0" "sound st0 sid"
    using assms(1) by (auto simp: tracked_def)
  let ?e = "compact_boundary b a (List.map_filter model_message_to_message ms)"
    and ?t = "\<lparr>tag_turn_id = ses_turn_id s, tag_origin = None\<rparr>"
  have "conversational ?e" by (simp add: conversational_def compact_boundary_def)
  from accepts [OF st0(3,4) this] obtain st1 where w: "writable st0 stmp sid ?e ?t"
    and st1: "so_append ops st0 stmp sid ?e ?t = Inr st1" "ready st1" by blast
  from view_boundary [OF st0(4) w st1(1)] show ?thesis
    using assms(2) st0 st1 by (auto simp: replace_messages_after_compact_def tracked_def Let_def)
qed

lemma move_tracked: "session_move ops x y \<Longrightarrow> tracked sid x \<Longrightarrow> tracked sid y"
proof (induction rule: session_move.induct)
  case (mv_rewrite ms s st)
  have n: "length ms = length (ses_messages s)" using mv_rewrite(1) by (metis length_map)
  have "map skeleton (take (ses_persisted s) ms) = map skeleton (take (ses_persisted s) (ses_messages s))"
    using mv_rewrite(1) by (simp add: take_map [symmetric])
  then have "map skeleton (recorded (take (ses_persisted s) ms)) = map skeleton (recorded (take (ses_persisted s) (ses_messages s)))"
    by (rule recorded_same)
  with mv_rewrite(2) n show ?case by (simp add: tracked_def)
next
  case (mv_persist stamps s st err s' st')
  from persist_tracked [OF mv_persist(2), of stamps] mv_persist(1) show ?case by auto
next
  case (mv_replace stmp ms b a s st err s' st')
  then show ?case by (blast intro: replace_tracked)
next
  case (mv_push s st now m)
  then show ?case by (rule tracked_push [where ms = "[m]"]) (simp_all add: push_message_def)
next
  case (mv_push_from s st now m og)
  then show ?case by (rule tracked_push [where ms = "[m]"]) (simp_all add: push_message_def push_message_from_def)
next
  case (mv_push_reply s st now m u)
  then show ?case by (rule tracked_push [where ms = "[m]"]) (simp_all add: push_message_def push_reply_def)
next
  case (mv_frame s' s st)
  show ?case by (rule tracked_push [OF mv_frame(4), where ms = "[]"]) (simp_all add: mv_frame)
qed

lemma moves_tracked: "(session_move ops)\<^sup>*\<^sup>* x y \<Longrightarrow> tracked sid x \<Longrightarrow> tracked sid y"
  by (induction rule: rtranclp_induct) (auto intro: move_tracked)

lemma resume_tracked:
  assumes "tracked sid (s, Some st)" "so_parse_id ops i = Some sid" "ses_persisted s = length (ses_messages s)"
  shows "case resume ops now i fresh (Some st) of
      Inr s2 \<Rightarrow> map skeleton (ses_messages s2) = map skeleton (recorded (ses_messages s))
    | Inl _ \<Rightarrow> recorded (ses_messages s) = []"
proof -
  have view: "map skeleton (view st sid) = map skeleton (recorded (ses_messages s))"
    using assms(1,3) by (simp add: tracked_def)
  show ?thesis
  proof (cases "so_load ops st sid")
    case (Inl e)
    then show ?thesis
      using assms(2) view
      by (cases e) (simp_all add: resume_def view_def project_messages_with_def List.map_filter_simps)
  next
    case (Inr entries)
    then show ?thesis
      using assms(2) view
      by (auto simp: resume_def view_def project_messages_with_def List.map_filter_simps Let_def)
  qed
qed

lemma turn_tracked:
  assumes "tracked sid (a_session a, a_store a)" "e_store_ops e = ops" "keeps_shape (e_compactor e)"
    and "run_user_turn e w stamps v a = Some (r, a')" "so_parse_id ops i = Some sid"
  shows "tracked sid (a_session a', a_store a') \<and>
    (case resume ops now i fresh (a_store a') of
       Inr s2 \<Rightarrow> map skeleton (ses_messages s2) = map skeleton (recorded (a_messages a'))
     | Inl _ \<Rightarrow> recorded (a_messages a') = [])"
proof -
  from assms(3,4) obtain b where b: "moves e a b" "record_of a' = record_of (save e stamps b)"
    by (rule run_moves)
  have tb: "tracked sid (a_session b, a_store b)"
    using moves_tracked [of "record_of a" "record_of b" sid] b(1) assms(1,2) by (simp add: record_of_def)
  from persist_tracked [OF this, of stamps] obtain s' st' where
    p: "persist ops stamps (a_session b) (a_store b) = (None, s', st')" "tracked sid (s', st')"
      "ses_persisted s' = length (ses_messages s')" by auto
  then have a': "a_session a' = s'" "a_store a' = st'"
    using b(2) assms(2) by (simp_all add: record_of_def save_def)
  obtain st where "st' = Some st" using p(2) by (auto simp: tracked_def)
  with resume_tracked [of sid s' st i now fresh] p assms(5) a' show ?thesis by (simp split: sum.splits)
qed

end

section \<open>The shipped stores\<close>

interpretation mem_total: session_log_total "mem_store_ops sj surfaced parse sb" "\<lambda>st i. True" "\<lambda>st s i e t. True" "\<lambda>st. True"
  for sj surfaced parse sb
  by unfold_locales (auto simp: mem_store_ops_def mem_appended_def)

definition willing :: "jsonl_ops \<Rightarrow> jsonl_store \<Rightarrow> bool" where
  "willing ops st \<longleftrightarrow> lossless (jo_codec ops) \<and> js_blobs st = None \<and> js_refused st = (\<lambda>_. None)"

lemma home_of_kept: "js_blobs (snd (home_of st i)) = js_blobs st" "js_refused (snd (home_of st i)) = js_refused st"
  by (simp_all add: home_of_def Let_def split: option.splits)

lemma counters_kept:
  "add_counters_in st s cwd dir i d = Inr st' \<Longrightarrow> js_blobs st' = js_blobs st \<and> js_refused st' = js_refused st"
  by (auto simp: add_counters_in_def write_meta_def split: if_splits sum.splits option.splits)

lemma willing_accepts:
  assumes "willing ops st" "conversational entry"
  shows "jsonl_writable ops st s sid entry tags \<and>
    (\<exists>st'. jsonl_append_tagged ops st s sid entry tags = Inr st' \<and> willing ops st')"
proof -
  have w: "lossless (jo_codec ops)" "js_blobs st = None" "js_refused st = (\<lambda>_. None)"
    using assms(1) by (simp_all add: willing_def)
  obtain home st1 where h: "home_of st sid = (home, st1)" by fastforce
  then have st1: "js_blobs st1 = None" "js_refused st1 = (\<lambda>_. None)"
    using home_of_kept [of st sid] w by simp_all
  have settle: "settle_home ops st s sid entry = Inr (home, st1)"
    using assms(2) h by (cases entry) (simp_all add: settle_home_def home_from_meta_def conversational_def)
  have bulk: "put_bulk ops st1 s entry = (entry, st1)" "put_bulk ops st s entry = (entry, st)"
    using st1 w by (simp_all add: put_bulk_def)
  let ?dir = "project_dir_for (js_projects_root st1) home"
  obtain st3 where line: "write_line st1 (session_file ?dir sid) (st_now s)
      (enc_env (jo_codec ops) (enveloped s sid entry tags)) = Inr st3"
    "js_blobs st3 = None" "js_refused st3 = (\<lambda>_. None)"
    using st1 by (cases "map_of (js_files st1) (session_file ?dir sid)") (auto simp: write_line_def read_file_def)
  have "\<exists>st'. jsonl_append_tagged ops st s sid entry tags = Inr st' \<and> willing ops st'"
    using w line counters_kept [of st3 s "home_text home" ?dir sid "counter_delta entry"]
    by (auto simp: jsonl_append_tagged_def settle bulk willing_def Let_def split: sum.splits)
  moreover have "jsonl_writable ops st s sid entry tags"
    using w assms(2) h settle bulk
    by (auto simp: jsonl_writable_def bulk_ok_def is_reference_def conversational_def lossless_def
        split: log_entry.splits)
  ultimately show ?thesis by blast
qed

interpretation file_total: session_log_total "file_store_ops ops surfaced sb" "jsonl_sound ops" "jsonl_writable ops" "willing ops"
  for ops surfaced sb
  using willing_accepts by unfold_locales (auto simp: file_store_ops_def)


definition tally_ops :: jsonl_ops where
  "tally_ops = disk_ops\<lparr>jo_codec := tally_codec\<rparr>"

definition plain_disk :: jsonl_store where
  "plain_disk = empty_disk\<lparr>js_blobs := None\<rparr>"


end
