(* ===== verification/Serde.thy ===== *)
theory Serde
  imports Json
begin

text \<open>
  How a derived \<open>Deserialize\<close> reads a struct from a \<open>serde_json::Value\<close>: an object by field name and alias, an
  array by position.  A field is missing, found once, or found under several of its names, which is an error;
  names the struct does not have are ignored, extra positions are not.
\<close>

datatype fields = ByName "(string \<times> json) list" | ByPosition "json list"

definition fields_of :: "nat \<Rightarrow> json \<Rightarrow> fields option" where
  "fields_of n v =
     (case v of
        JObject kvs \<Rightarrow> Some (ByName kvs)
      | JArray xs \<Rightarrow> (if length xs \<le> n then Some (ByPosition xs) else None)
      | _ \<Rightarrow> None)"

fun found :: "nat \<Rightarrow> string list \<Rightarrow> fields \<Rightarrow> json list" where
  "found i names (ByName kvs) = List.map_filter (map_of kvs) names"
| "found i names (ByPosition xs) = (if i < length xs then [xs ! i] else [])"

text \<open>A required field, and one with \<open>#[serde(default)]\<close>.\<close>

definition required :: "nat \<Rightarrow> string list \<Rightarrow> (json \<Rightarrow> 'a option) \<Rightarrow> fields \<Rightarrow> 'a option" where
  "required i names d fs = (case found i names fs of [v] \<Rightarrow> d v | _ \<Rightarrow> None)"

definition defaulted :: "nat \<Rightarrow> string list \<Rightarrow> 'a \<Rightarrow> (json \<Rightarrow> 'a option) \<Rightarrow> fields \<Rightarrow> 'a option" where
  "defaulted i names dflt d fs = (case found i names fs of [] \<Rightarrow> Some dflt | [v] \<Rightarrow> d v | _ \<Rightarrow> None)"

fun de_option :: "(json \<Rightarrow> 'a option) \<Rightarrow> json \<Rightarrow> 'a option option" where
  "de_option d JNull = Some None"
| "de_option d v = map_option Some (d v)"

fun de_list :: "(json \<Rightarrow> 'a option) \<Rightarrow> json \<Rightarrow> 'a list option" where
  "de_list d (JArray vs) = those (map d vs)"
| "de_list d _ = None"

fun de_bool :: "json \<Rightarrow> bool option" where
  "de_bool (JBool b) = Some b"
| "de_bool _ = None"

definition de_u64 :: "json \<Rightarrow> nat option" where
  "de_u64 v = (case v of JNumber n \<Rightarrow> (if 0 \<le> n \<and> n < 2 ^ 64 then Some (nat n) else None) | _ \<Rightarrow> None)"

text \<open>A unit variant is its name, or an object that gives its name a null.\<close>

definition de_variant :: "(string \<Rightarrow> 'a option) \<Rightarrow> json \<Rightarrow> 'a option" where
  "de_variant of_name v =
     (case v of
        JString s \<Rightarrow> of_name s
      | JObject [(k, JNull)] \<Rightarrow> of_name k
      | _ \<Rightarrow> None)"

lemmas serde_defs [kernel_defs] =
  fields_of_def required_def defaulted_def de_u64_def de_variant_def map_filter_simps

lemma de_option_json_null [simp]: "de_option d v = Some None \<longleftrightarrow> v = JNull"
  by (cases v) auto

lemma de_option_twice: "de_option (de_option d) v \<noteq> Some (Some None)"
  by (cases v) auto

end
