(* ===== verification/Locks.thy ===== *)
theory Locks
  imports Prelude "HOL-Library.Word" "HOL-Library.Signed_Division"
begin

text \<open>
  The lock files: \<open>core/src/process_identity.rs\<close> (is the process that wrote this still there), \<open>team/src/lock.rs\<close>
  (the lock of a project's teams) and \<open>daemon/src/discovery.rs\<close> (the lock of a daemon).

  What \<open>kill\<close> and \<open>ps\<close> answer is the record \<open>os_probe\<close>; \<open>JSON\<close> and the file system's failures are
  not modelled, except that a file may not read as a lock.  The first part takes a call as one step, the last part
  takes it apart into the steps the file system sees.
\<close>

section \<open>Is it still the same process\<close>

record process_identity =
  pi_pid :: "32 word"
  pi_started_at :: int

record os_probe =
  os_kill :: "32 word \<Rightarrow> bool option"
  os_ps :: "32 word \<Rightarrow> string option"
  os_now :: int

datatype process_liveness = Alive | Reused | Dead | Unknown

datatype stale_lock_decision = KeepExisting | Reclaim

definition START_TIME_TOLERANCE_SECS :: int where
  "START_TIME_TOLERANCE_SECS = 2"

definition digit_of :: "char \<Rightarrow> int option" where
  "digit_of c = (if is_ascii_digit c then Some (int (char_code c) - 48) else None)"

fun digits_value :: "int \<Rightarrow> string \<Rightarrow> int option" where
  "digits_value acc [] = Some acc"
| "digits_value acc (c # cs) = (case digit_of c of Some d \<Rightarrow> digits_value (10 * acc + d) cs | None \<Rightarrow> None)"

text \<open>\<open>str::parse::<i64>\<close>.\<close>

definition parse_i64 :: "string \<Rightarrow> int option" where
  "parse_i64 s =
     (let (negative, ds) = (case s of
              c # cs \<Rightarrow> if c = CHR ''-'' then (True, cs) else if c = CHR ''+'' then (False, cs) else (False, s)
            | [] \<Rightarrow> (False, []))
      in if ds = [] then None
         else case digits_value 0 ds of
                None \<Rightarrow> None
              | Some n \<Rightarrow>
                  (let v = (if negative then - n else n)
                   in if - (2 ^ 63) \<le> v \<and> v < 2 ^ 63 then Some v else None))"

definition wrap_i64 :: "int \<Rightarrow> int" where
  "wrap_i64 v = sint (word_of_int v :: 64 word)"

text \<open>The arithmetic wraps in release builds.\<close>

definition parse_elapsed :: "string \<Rightarrow> int option" where
  "parse_elapsed s =
     (case (case split_once (CHR ''-'') s of
              Some (d, r) \<Rightarrow> (case parse_i64 d of Some days \<Rightarrow> Some (days, r) | None \<Rightarrow> None)
            | None \<Rightarrow> Some (0, s)) of
        None \<Rightarrow> None
      | Some (days, rest) \<Rightarrow>
          (case (case split_char (CHR '':'') rest of
                   [h, m, sec] \<Rightarrow>
                     (case (parse_i64 h, parse_i64 m, parse_i64 sec) of
                        (Some h', Some m', Some s') \<Rightarrow> Some (h', m', s')
                      | _ \<Rightarrow> None)
                 | [m, sec] \<Rightarrow>
                     (case (parse_i64 m, parse_i64 sec) of (Some m', Some s') \<Rightarrow> Some (0, m', s') | _ \<Rightarrow> None)
                 | _ \<Rightarrow> None) of
             None \<Rightarrow> None
           | Some (h, m, sec) \<Rightarrow> Some (wrap_i64 (days * 86400 + h * 3600 + m * 60 + sec))))"

definition FLOOR :: int where
  "FLOOR = 946684800"

definition plausible :: "int \<Rightarrow> int \<Rightarrow> int option" where
  "plausible now start = (if FLOOR \<le> start \<and> start \<le> now + 60 then Some start else None)"

definition process_start_time :: "os_probe \<Rightarrow> 32 word \<Rightarrow> int option" where
  "process_start_time os pid =
     (case os_ps os pid of
        None \<Rightarrow> None
      | Some out \<Rightarrow>
          (case parse_elapsed (trim out) of
             None \<Rightarrow> None
           | Some elapsed \<Rightarrow> plausible (os_now os) (wrap_i64 (os_now os - elapsed))))"

definition current_identity :: "os_probe \<Rightarrow> 32 word \<Rightarrow> process_identity" where
  "current_identity os pid =
     \<lparr>pi_pid = pid, pi_started_at = (case process_start_time os pid of Some t \<Rightarrow> t | None \<Rightarrow> 0)\<rparr>"

definition check_identity :: "os_probe \<Rightarrow> process_identity \<Rightarrow> process_liveness" where
  "check_identity os recorded =
     (case os_kill os (pi_pid recorded) of
        Some False \<Rightarrow> Dead
      | None \<Rightarrow> Unknown
      | Some True \<Rightarrow>
          (if pi_started_at recorded = 0 then Unknown
           else case process_start_time os (pi_pid recorded) of
                  Some current \<Rightarrow>
                    (if \<bar>current - pi_started_at recorded\<bar> \<le> START_TIME_TOLERANCE_SECS then Alive else Reused)
                | None \<Rightarrow> Unknown))"

definition decide_stale_lock :: "os_probe \<Rightarrow> process_identity \<Rightarrow> stale_lock_decision" where
  "decide_stale_lock os recorded =
     (case check_identity os recorded of
        Alive \<Rightarrow> KeepExisting
      | Unknown \<Rightarrow> KeepExisting
      | Reused \<Rightarrow> Reclaim
      | Dead \<Rightarrow> Reclaim)"

section \<open>The lock of the teams\<close>

record teams_dir_lock =
  tl_pid :: "32 word"
  tl_pid_start_time :: int
  tl_instance :: string
  tl_acquired_at :: string

datatype 'l lock_file = NoFile | Unreadable | Recorded 'l

datatype teams_lock_error = Locked "32 word" string string

definition write_teams_lock ::
  "os_probe \<Rightarrow> 32 word \<Rightarrow> string \<Rightarrow> string \<Rightarrow> teams_dir_lock lock_file
   \<Rightarrow> (teams_lock_error + teams_dir_lock) \<times> teams_dir_lock lock_file" where
  "write_teams_lock os my_pid inst now file =
     (let me = current_identity os my_pid;
          lock = \<lparr>tl_pid = pi_pid me, tl_pid_start_time = pi_started_at me, tl_instance = inst, tl_acquired_at = now\<rparr>
      in case file of
           NoFile \<Rightarrow> (Inr lock, Recorded lock)
         | Unreadable \<Rightarrow> (Inr lock, Recorded lock)
         | Recorded prev \<Rightarrow>
             (if tl_pid prev \<noteq> my_pid
              then (case decide_stale_lock os \<lparr>pi_pid = tl_pid prev, pi_started_at = tl_pid_start_time prev\<rparr> of
                      KeepExisting \<Rightarrow> (Inl (Locked (tl_pid prev) (tl_instance prev) (tl_acquired_at prev)), file)
                    | Reclaim \<Rightarrow> (Inr lock, Recorded lock))
              else (Inr lock, Recorded lock)))"

definition release_teams_lock :: "teams_dir_lock lock_file \<Rightarrow> teams_dir_lock lock_file" where
  "release_teams_lock file = NoFile"

section \<open>The lock of a daemon\<close>

record daemon_lock =
  dl_pid :: "32 word"
  dl_pid_start_time :: int
  dl_socket_path :: string
  dl_version :: string
  dl_started_at :: int
  dl_protocol_version :: string

datatype daemon_lock_error = AnotherDaemonRunning "32 word" string

definition write_daemon_lock ::
  "os_probe \<Rightarrow> 32 word \<Rightarrow> string \<Rightarrow> string \<Rightarrow> daemon_lock lock_file
   \<Rightarrow> (daemon_lock_error + daemon_lock) \<times> daemon_lock lock_file" where
  "write_daemon_lock os my_pid socket version file =
     (case (case file of
              Recorded prev \<Rightarrow>
                (if dl_pid prev \<noteq> my_pid
                 then (case decide_stale_lock os \<lparr>pi_pid = dl_pid prev, pi_started_at = dl_pid_start_time prev\<rparr> of
                         KeepExisting \<Rightarrow> Some (AnotherDaemonRunning (dl_pid prev) (dl_socket_path prev))
                       | Reclaim \<Rightarrow> None)
                 else None)
            | _ \<Rightarrow> None) of
        Some err \<Rightarrow> (Inl err, file)
      | None \<Rightarrow>
          (let me = current_identity os my_pid;
               lock = \<lparr>dl_pid = pi_pid me, dl_pid_start_time = pi_started_at me, dl_socket_path = socket,
                       dl_version = version, dl_started_at = os_now os, dl_protocol_version = ''1''\<rparr>
           in (Inr lock, Recorded lock)))"

lemmas lock_defs [kernel_defs] =
  START_TIME_TOLERANCE_SECS_def digit_of_def parse_i64_def wrap_i64_def parse_elapsed_def FLOOR_def plausible_def
  process_start_time_def current_identity_def check_identity_def decide_stale_lock_def write_teams_lock_def
  release_teams_lock_def write_daemon_lock_def

section \<open>One step per call\<close>

text \<open>What is asked of the system's answers about a process that runs: \<open>kill\<close> finds it, and \<open>ps\<close>, if it can be
  read at all, gives its start within the tolerance.\<close>

definition tells_of :: "os_probe \<Rightarrow> process_identity \<Rightarrow> bool" where
  "tells_of os p \<longleftrightarrow>
     os_kill os (pi_pid p) \<noteq> Some False \<and>
     (\<forall>t. process_start_time os (pi_pid p) = Some t \<longrightarrow>
        pi_started_at p = 0 \<or> \<bar>t - pi_started_at p\<bar> \<le> START_TIME_TOLERANCE_SECS)"

lemma running_is_kept: "tells_of os p \<Longrightarrow> decide_stale_lock os p = KeepExisting"
  by (auto simp: tells_of_def decide_stale_lock_def check_identity_def split: option.splits bool.splits)

text \<open>A lock is a way to record a process in a file and to take the record over, or not.\<close>

record 'l lock_ops =
  lo_write :: "os_probe \<Rightarrow> 32 word \<Rightarrow> string \<times> string \<Rightarrow> 'l lock_file \<Rightarrow> 'l option \<times> 'l lock_file"
  lo_identity :: "'l \<Rightarrow> process_identity"

record 'l lock_state =
  ls_file :: "'l lock_file"
  ls_holders :: "'l set"

inductive lock_run :: "'l lock_ops \<Rightarrow> 'l lock_state \<Rightarrow> bool" for ops where
  start: "lock_run ops \<lparr>ls_file = f, ls_holders = {}\<rparr>"
| acquire: "lock_run ops s \<Longrightarrow> \<forall>l\<in>ls_holders s. tells_of os (lo_identity ops l) \<Longrightarrow>
    lo_write ops os pid x (ls_file s) = (Some l, f) \<Longrightarrow>
    lock_run ops \<lparr>ls_file = f, ls_holders = insert l {k \<in> ls_holders s. pi_pid (lo_identity ops k) \<noteq> pid}\<rparr>"
| refused: "lock_run ops s \<Longrightarrow> lo_write ops os pid x (ls_file s) = (None, f) \<Longrightarrow> lock_run ops (s\<lparr>ls_file := f\<rparr>)"
| release: "lock_run ops s \<Longrightarrow> l \<in> ls_holders s \<Longrightarrow> lock_run ops \<lparr>ls_file = NoFile, ls_holders = ls_holders s - {l}\<rparr>"
| crash: "lock_run ops s \<Longrightarrow> lock_run ops (s\<lparr>ls_holders := ls_holders s - {l}\<rparr>)"

locale file_lock =
  fixes ops :: "'l lock_ops"
  assumes taken: "lo_write ops os pid x f = (Some l, f') \<Longrightarrow> f' = Recorded l \<and> pi_pid (lo_identity ops l) = pid"
    and kept: "lo_write ops os pid x f = (None, f') \<Longrightarrow> f' = f"
    and respects: "lo_write ops os pid x (Recorded k) = (Some l, f') \<Longrightarrow>
      pi_pid (lo_identity ops k) = pid \<or> decide_stale_lock os (lo_identity ops k) = Reclaim"
begin

lemma holder_is_recorded:
  "lock_run ops s \<Longrightarrow> ls_holders s = {} \<or> (\<exists>l. ls_holders s = {l} \<and> ls_file s = Recorded l)"
proof (induction rule: lock_run.induct)
  case (acquire s os pid x l f)
  have none: "{k \<in> ls_holders s. pi_pid (lo_identity ops k) \<noteq> pid} = {}"
  proof -
    consider "ls_holders s = {}" | k where "ls_holders s = {k}" "ls_file s = Recorded k" using acquire.IH by blast
    then show ?thesis
    proof cases
      case 2
      then show ?thesis
        using respects[of os pid x k l f] acquire.hyps(2,3) running_is_kept[of os "lo_identity ops k"] by auto
    qed simp
  qed
  show ?case using taken[OF acquire.hyps(3)] by (simp add: none del: Collect_empty_eq)
next
  case (refused s os pid x f)
  then show ?case using kept[of os pid x] by auto
next
  case (release s l)
  then show ?case by auto
next
  case (crash s l)
  then show ?case by auto
qed simp

lemma one_holder: "lock_run ops s \<Longrightarrow> l \<in> ls_holders s \<Longrightarrow> k \<in> ls_holders s \<Longrightarrow> l = k"
  using holder_is_recorded by fastforce

end

definition teams_ops :: "teams_dir_lock lock_ops" where
  "teams_ops =
     \<lparr>lo_write = (\<lambda>os pid (inst, now) f. case write_teams_lock os pid inst now f of (r, f') \<Rightarrow>
         (case r of Inr l \<Rightarrow> Some l | Inl _ \<Rightarrow> None, f')),
      lo_identity = (\<lambda>l. \<lparr>pi_pid = tl_pid l, pi_started_at = tl_pid_start_time l\<rparr>)\<rparr>"

definition daemon_ops :: "daemon_lock lock_ops" where
  "daemon_ops =
     \<lparr>lo_write = (\<lambda>os pid (socket, version) f. case write_daemon_lock os pid socket version f of (r, f') \<Rightarrow>
         (case r of Inr l \<Rightarrow> Some l | Inl _ \<Rightarrow> None, f')),
      lo_identity = (\<lambda>l. \<lparr>pi_pid = dl_pid l, pi_started_at = dl_pid_start_time l\<rparr>)\<rparr>"

interpretation teams_lock: file_lock teams_ops
  by unfold_locales
     (auto simp: teams_ops_def write_teams_lock_def current_identity_def Let_def
       split: lock_file.splits if_splits stale_lock_decision.splits)

interpretation daemon_lock: file_lock daemon_ops
  by unfold_locales
     (auto simp: daemon_ops_def write_daemon_lock_def current_identity_def Let_def
       split: lock_file.splits if_splits stale_lock_decision.splits option.splits)


theorem daemon_lock_has_one_holder:
  assumes "lock_run daemon_ops s" "l \<in> ls_holders s" "k \<in> ls_holders s"
  shows "l = k"
  using daemon_lock.one_holder assms by blast

definition sample_probe :: os_probe where
  "sample_probe =
     \<lparr>os_kill = (\<lambda>_. Some True), os_ps = (\<lambda>_. Some ''01:40''), os_now = 1000000000\<rparr>"

definition sample_lock :: "32 word \<Rightarrow> teams_dir_lock" where
  "sample_lock pid = \<lparr>tl_pid = pid, tl_pid_start_time = 999999900, tl_instance = ''cli'', tl_acquired_at = []\<rparr>"

lemma sample_elapsed: "parse_elapsed ''01:40'' = Some 100"
  by code_simp

lemma sample_identity: "current_identity sample_probe pid = \<lparr>pi_pid = pid, pi_started_at = 999999900\<rparr>"
proof -
  have "trim ''01:40'' = ''01:40''" by code_simp
  moreover have "wrap_i64 999999900 = 999999900" by (simp add: wrap_i64_def)
  ultimately show ?thesis
    by (simp add: current_identity_def process_start_time_def sample_probe_def sample_elapsed plausible_def FLOOR_def)
qed

lemma sample_take: "write_teams_lock sample_probe pid ''cli'' [] NoFile = (Inr (sample_lock pid), Recorded (sample_lock pid))"
  by (simp add: write_teams_lock_def sample_identity sample_lock_def Let_def)

definition sample_held :: "teams_dir_lock lock_state" where
  "sample_held = \<lparr>ls_file = Recorded (sample_lock 7), ls_holders = {sample_lock 7}\<rparr>"

lemma sample_held_run: "lock_run teams_ops sample_held"
proof -
  let ?none = "\<lparr>ls_file = NoFile, ls_holders = {}\<rparr>"
  have "lo_write teams_ops sample_probe 7 (''cli'', []) NoFile = (Some (sample_lock 7), Recorded (sample_lock 7))"
    by (simp add: teams_ops_def sample_take)
  moreover have "lock_run teams_ops ?none" by (rule lock_run.start)
  ultimately have "lock_run teams_ops \<lparr>ls_file = Recorded (sample_lock 7),
      ls_holders = insert (sample_lock 7)
        {k \<in> ls_holders ?none. pi_pid (lo_identity teams_ops k) \<noteq> 7}\<rparr>"
    by (intro lock_run.acquire) simp_all
  moreover have "{k \<in> ls_holders ?none. pi_pid (lo_identity teams_ops k) \<noteq> 7} = {}" by simp
  ultimately show ?thesis unfolding sample_held_def by (simp only:)
qed


section \<open>The steps the file system sees\<close>

text \<open>Creating the file and writing it are two steps, and so are reading it and replacing it.\<close>

datatype phase = AtStart | Opened nat | Found | Replacing | Holding | Refused

record race =
  rc_path :: "nat option"
  rc_inodes :: "nat \<Rightarrow> teams_dir_lock option"
  rc_next :: nat
  rc_phase :: "32 word \<Rightarrow> phase"

definition race_start :: race where
  "race_start = \<lparr>rc_path = None, rc_inodes = (\<lambda>_. None), rc_next = 0, rc_phase = (\<lambda>_. AtStart)\<rparr>"

definition to_phase :: "32 word \<Rightarrow> phase \<Rightarrow> race \<Rightarrow> race" where
  "to_phase p ph s = s\<lparr>rc_phase := (rc_phase s)(p := ph)\<rparr>"

definition race_turn :: "os_probe \<Rightarrow> (32 word \<Rightarrow> teams_dir_lock) \<Rightarrow> race \<Rightarrow> 32 word \<Rightarrow> race" where
  "race_turn os lock_of s p =
     (case rc_phase s p of
        AtStart \<Rightarrow>
          (case rc_path s of
             None \<Rightarrow>
               to_phase p (Opened (rc_next s))
                 (s\<lparr>rc_path := Some (rc_next s), rc_inodes := (rc_inodes s)(rc_next s := None), rc_next := rc_next s + 1\<rparr>)
           | Some _ \<Rightarrow> to_phase p Found s)
      | Opened i \<Rightarrow> to_phase p Holding (s\<lparr>rc_inodes := (rc_inodes s)(i \<mapsto> lock_of p)\<rparr>)
      | Found \<Rightarrow>
          (case rc_path s of
             None \<Rightarrow> to_phase p Replacing s
           | Some i \<Rightarrow>
               (case rc_inodes s i of
                  None \<Rightarrow> to_phase p Replacing s
                | Some prev \<Rightarrow>
                    (if tl_pid prev \<noteq> p
                        \<and> decide_stale_lock os \<lparr>pi_pid = tl_pid prev, pi_started_at = tl_pid_start_time prev\<rparr> = KeepExisting
                     then to_phase p Refused s
                     else to_phase p Replacing s)))
      | Replacing \<Rightarrow>
          to_phase p Holding
            (s\<lparr>rc_path := Some (rc_next s), rc_inodes := (rc_inodes s)(rc_next s \<mapsto> lock_of p), rc_next := rc_next s + 1\<rparr>)
      | Holding \<Rightarrow> s
      | Refused \<Rightarrow> s)"

text \<open>A process that finds the file created but not yet written takes it for a stale one: two running processes hold the
  lock, though \<open>create_new\<close> is there to prevent just that.\<close>

lemma unwritten_lock_is_stolen:
  "let s = foldl (race_turn os sample_lock) race_start [1, 2, 2, 2, 1]
   in rc_phase s 1 = Holding \<and> rc_phase s 2 = Holding"
  by (simp add: race_turn_def race_start_def to_phase_def Let_def)

text \<open>Two processes that both find a dead holder both take the lock over.\<close>

lemma stale_lock_is_taken_twice:
  assumes "decide_stale_lock os \<lparr>pi_pid = 9, pi_started_at = 999999900\<rparr> = Reclaim"
  shows "let s = foldl (race_turn os sample_lock)
             (race_start\<lparr>rc_path := Some 0, rc_inodes := [0 \<mapsto> sample_lock 9], rc_next := 1\<rparr>) [1, 2, 1, 2, 1, 2]
         in rc_phase s 1 = Holding \<and> rc_phase s 2 = Holding"
  using assms by (simp add: race_turn_def race_start_def to_phase_def sample_lock_def Let_def)

text \<open>Whoever releases removes the file, also when it records somebody else.\<close>

lemma release_ignores_owner: "release_teams_lock (Recorded (sample_lock 9)) = NoFile"
  by (simp add: release_teams_lock_def)

text \<open>A start four hundred million days ago is no reading, so the lock is kept.\<close>

lemma absurd_elapsed_is_no_reading:
  "process_start_time (sample_probe\<lparr>os_ps := (\<lambda>_. Some ''441056556-16:45:20'')\<rparr>) 7 = None"
  by code_simp

end
