(* ===== verification/TeamRegistry.thy ===== *)
theory TeamRegistry
  imports Permission Serde Locks Jsonl "HOL-Library.AList"
begin

text \<open>
  What a session remembers of its teams: \<open>team/src/registry.rs\<close>, the table in memory, \<open>team/src/persist.rs\<close>, the
  three files of a team, and the parts of \<open>team/src/tool.rs\<close> that read them.  The table is an association list,
  whose order stands for that of a hash map; the clock is an argument, the JSON forms of the files a parameter.
\<close>

section \<open>The table\<close>

datatype teammate_lifecycle = MemberIdle | MemberActive | MemberCompleted | MemberShutdown

record team_member_info =
  tm_label :: string
  tm_lifecycle :: teammate_lifecycle
  tm_idle_since :: "nat option"

record team_info =
  ti_team_id :: string
  ti_name :: string
  ti_created_at :: nat
  ti_team_dir :: string
  ti_members :: "team_member_info list"
  ti_permission_mode :: "settings_mode option"

type_synonym team_table = "(string \<times> team_info) list"

definition registry_upsert :: "team_info \<Rightarrow> team_table \<Rightarrow> team_table" where
  "registry_upsert info teams = AList.update (ti_name info) info teams"

text \<open>Strings compare by their bytes, which on this range is by characters.\<close>

fun str_le :: "string \<Rightarrow> string \<Rightarrow> bool" where
  "str_le [] _ = True"
| "str_le (_ # _) [] = False"
| "str_le (a # as) (b # bs) = (char_code a < char_code b \<or> a = b \<and> str_le as bs)"

definition registry_list :: "team_table \<Rightarrow> team_info list" where
  "registry_list teams = sort_by (\<lambda>a b. str_le (ti_name a) (ti_name b)) (map snd teams)"

definition registry_remove :: "string \<Rightarrow> team_table \<Rightarrow> team_info option \<times> team_table" where
  "registry_remove name teams = (map_of teams name, AList.delete name teams)"

definition set_member :: "string \<Rightarrow> teammate_lifecycle \<Rightarrow> nat option \<Rightarrow> team_member_info list \<Rightarrow> team_member_info list" where
  "set_member label lifecycle idle ms =
     (let before = takeWhile (\<lambda>m. tm_label m \<noteq> label) ms;
          rest = dropWhile (\<lambda>m. tm_label m \<noteq> label) ms
      in before @ (case rest of
                     m # ms' \<Rightarrow> m\<lparr>tm_lifecycle := lifecycle, tm_idle_since := idle\<rparr> # ms'
                   | [] \<Rightarrow> [\<lparr>tm_label = label, tm_lifecycle = lifecycle, tm_idle_since = idle\<rparr>]))"

definition minimal_team :: "string \<Rightarrow> nat \<Rightarrow> team_member_info list \<Rightarrow> settings_mode option \<Rightarrow> team_info" where
  "minimal_team name now ms mode =
     \<lparr>ti_team_id = name, ti_name = name, ti_created_at = now, ti_team_dir = [], ti_members = ms,
      ti_permission_mode = mode\<rparr>"

definition update_member_lifecycle ::
  "nat \<Rightarrow> string \<Rightarrow> string \<Rightarrow> teammate_lifecycle \<Rightarrow> nat option \<Rightarrow> team_table \<Rightarrow> team_table" where
  "update_member_lifecycle now team label lifecycle idle teams =
     (case map_of teams team of
        Some t \<Rightarrow> AList.update team (t\<lparr>ti_members := set_member label lifecycle idle (ti_members t)\<rparr>) teams
      | None \<Rightarrow>
          AList.update team
            (minimal_team team now [\<lparr>tm_label = label, tm_lifecycle = lifecycle, tm_idle_since = idle\<rparr>] None) teams)"

definition team_permission_mode :: "team_table \<Rightarrow> string \<Rightarrow> settings_mode option" where
  "team_permission_mode teams team = Option.bind (map_of teams team) ti_permission_mode"

definition set_team_permission_mode_if_absent :: "nat \<Rightarrow> string \<Rightarrow> settings_mode \<Rightarrow> team_table \<Rightarrow> team_table" where
  "set_team_permission_mode_if_absent now team mode teams =
     (case map_of teams team of
        Some t \<Rightarrow>
          (if ti_permission_mode t = None then AList.update team (t\<lparr>ti_permission_mode := Some mode\<rparr>) teams else teams)
      | None \<Rightarrow> AList.update team (minimal_team team now [] (Some mode)) teams)"

section \<open>The files\<close>

datatype team_mode = Batch | Persistent

record member_declaration =
  md_label :: string
  md_agent_type :: "string option"
  md_prompt :: string

record stage_declaration =
  sd_index :: nat
  sd_name :: string
  sd_aggregate :: "string option"
  sd_members :: "member_declaration list"

record team_declaration =
  td_schema_version :: nat
  td_team_id :: string
  td_name :: string
  td_scene :: string
  td_project_root :: string
  td_owner_session_id :: string
  td_created_at :: string
  td_mode :: team_mode
  td_permission_mode :: "string option"
  td_stages :: "stage_declaration list"

datatype team_status = TeamRunning | TeamCompletedStatus | TeamFailed | TeamCancelled | TeamInterrupted

record member_state =
  ms_label :: string
  ms_lifecycle :: teammate_lifecycle
  ms_agent_id :: "string option"
  ms_session_id :: "string option"
  ms_idle_since :: "string option"
  ms_last_error :: "string option"

record team_state_file =
  sf_schema_version :: nat
  sf_updated_at :: string
  sf_current_stage :: nat
  sf_status :: team_status
  sf_members :: "member_state list"

datatype team_event =
    TeamCreated string
  | StageStarted nat string "string list"
  | MemberSpawned string "string option" "string option"
  | MemberCompletedEvent string bool
  | StageCompleted nat "string list"
  | TeamCompleted team_status
  | Truncated nat string

record event_envelope =
  en_ts :: string
  en_event :: team_event

text \<open>The directory of one team: its three files, by name.\<close>

type_synonym team_files = "string \<Rightarrow> string option"

record 'a text_codec =
  tc_print :: "'a \<Rightarrow> string"
  tc_parse :: "string \<Rightarrow> 'a option"

text \<open>\<open>write_atomic\<close>: a reader sees the old text or the new one.\<close>

definition write_atomic :: "string \<Rightarrow> string \<Rightarrow> team_files \<Rightarrow> team_files" where
  "write_atomic filename body fs = fs(filename \<mapsto> body)"

definition read_json_if_exists :: "'a text_codec \<Rightarrow> string \<Rightarrow> team_files \<Rightarrow> string + 'a option" where
  "read_json_if_exists cd filename fs =
     (case fs filename of
        None \<Rightarrow> Inr None
      | Some body \<Rightarrow> (case tc_parse cd body of Some v \<Rightarrow> Inr (Some v) | None \<Rightarrow> Inl ''InvalidData''))"

definition write_team_declaration :: "team_declaration text_codec \<Rightarrow> team_declaration \<Rightarrow> team_files \<Rightarrow> team_files" where
  "write_team_declaration cd decl fs = write_atomic ''team.json'' (tc_print cd decl) fs"

definition read_team_declaration :: "team_declaration text_codec \<Rightarrow> team_files \<Rightarrow> string + team_declaration option" where
  "read_team_declaration cd fs = read_json_if_exists cd ''team.json'' fs"

definition write_team_state_atomic :: "team_state_file text_codec \<Rightarrow> team_state_file \<Rightarrow> team_files \<Rightarrow> team_files" where
  "write_team_state_atomic cd state fs = write_atomic ''state.json'' (tc_print cd state) fs"

definition read_team_state :: "team_state_file text_codec \<Rightarrow> team_files \<Rightarrow> string + team_state_file option" where
  "read_team_state cd fs = read_json_if_exists cd ''state.json'' fs"

definition default_max_entries :: nat where
  "default_max_entries = 5000"

definition TRUNCATE_TARGET_RATIO :: nat where
  "TRUNCATE_TARGET_RATIO = 80"

definition truncate_target :: "nat \<Rightarrow> nat" where
  "truncate_target max_entries = max (max_entries * TRUNCATE_TARGET_RATIO div 100) 1"

definition newline :: string where
  "newline = [CHR 0x0A]"

definition maybe_truncate_events :: "event_envelope text_codec \<Rightarrow> string \<Rightarrow> nat \<Rightarrow> string \<Rightarrow> string" where
  "maybe_truncate_events cd now max_entries content =
     (let lines = text_lines content in
      if length lines \<le> max_entries then content
      else
        (let dropped = length lines - truncate_target max_entries;
             kept = drop dropped lines;
             marker = \<lparr>en_ts = now, en_event = Truncated dropped ''max_entries''\<rparr>
         in tc_print cd marker @ newline @ concat (map (\<lambda>l. l @ newline) kept)))"

definition append_team_event ::
  "event_envelope text_codec \<Rightarrow> string \<Rightarrow> nat \<Rightarrow> team_event \<Rightarrow> team_files \<Rightarrow> team_files" where
  "append_team_event cd now max_entries event fs =
     (let old = (case fs ''events.jsonl'' of Some txt \<Rightarrow> txt | None \<Rightarrow> []);
          content = old @ tc_print cd \<lparr>en_ts = now, en_event = event\<rparr> @ newline
      in fs(''events.jsonl'' \<mapsto> maybe_truncate_events cd now max_entries content))"

definition read_events :: "event_envelope text_codec \<Rightarrow> team_files \<Rightarrow> event_envelope list" where
  "read_events cd fs =
     (case fs ''events.jsonl'' of
        None \<Rightarrow> []
      | Some content \<Rightarrow>
          List.map_filter (\<lambda>l. if trim l = [] then None else tc_parse cd l) (text_lines content))"

section \<open>Names, listing and durations\<close>

definition TEAM_NAME_MAX_LEN :: nat where
  "TEAM_NAME_MAX_LEN = 128"

definition team_name_char :: "char \<Rightarrow> bool" where
  "team_name_char c \<longleftrightarrow> is_ascii_alphanumeric c \<or> c = CHR ''-'' \<or> c = CHR ''_'' \<or> c = CHR ''.''"

datatype name_error = NameEmpty | NameTooLong nat | NameIsDots | NameHasOther

definition validate_team_name :: "string \<Rightarrow> name_error option" where
  "validate_team_name name =
     (if name = [] then Some NameEmpty
      else if utf8_len name > TEAM_NAME_MAX_LEN then Some (NameTooLong (utf8_len name))
      else if name = ''.'' \<or> name = ''..'' then Some NameIsDots
      else if \<not> list_all team_name_char name then Some NameHasOther
      else None)"

definition format_duration_secs :: "nat \<Rightarrow> string" where
  "format_duration_secs secs =
     (if secs < 60 then show_nat secs @ ''s''
      else if secs < 3600 then show_nat (secs div 60) @ ''m''
      else show_nat (secs div 3600) @ ''h'' @ show_nat ((secs mod 3600) div 60) @ ''m'')"

fun lifecycle_debug :: "teammate_lifecycle \<Rightarrow> string" where
  "lifecycle_debug MemberIdle = ''Idle''"
| "lifecycle_debug MemberActive = ''Active''"
| "lifecycle_debug MemberCompleted = ''Completed''"
| "lifecycle_debug MemberShutdown = ''Shutdown''"

definition team_list_text :: "nat \<Rightarrow> team_table \<Rightarrow> string" where
  "team_list_text now teams =
     (let ts = registry_list teams in
      if ts = [] then ''No active teams.''
      else concat (map (\<lambda>t.
             ''- \"'' @ ti_name t @ ''\" ('' @ show_nat (length (ti_members t)) @ '' members)'' @ newline
             @ concat (map (\<lambda>m.
                 ''  - '' @ tm_label m @ '' ['' @ lifecycle_debug (tm_lifecycle m) @ '']''
                 @ (case tm_idle_since m of
                      Some since \<Rightarrow> '' (idle '' @ format_duration_secs (now - since) @ '')''
                    | None \<Rightarrow> [])
                 @ newline) (ti_members t))) ts))"

lemmas team_defs [kernel_defs] =
  registry_upsert_def registry_list_def registry_remove_def set_member_def minimal_team_def
  update_member_lifecycle_def team_permission_mode_def set_team_permission_mode_if_absent_def
  write_atomic_def read_json_if_exists_def truncate_target_def TRUNCATE_TARGET_RATIO_def
  newline_def maybe_truncate_events_def append_team_event_def read_events_def

end
