(* ===== verification/Mailbox.thy ===== *)
theory Mailbox
  imports Jsonl Permission
begin

text \<open>
  Mail between the agents of a team: \<open>team/src/mailbox.rs\<close> (the store with its files and the three tools over it),
  \<open>protocol.rs\<close> (the messages of the team protocol) and \<open>polling.rs\<close> (the poller that reads them).

  Every operation holds the lock of the store, so it is one function of the store and the disk.  A disk maps paths to
  texts; two spellings of one path are two entries.  Whether an append or a rewrite succeeds is an argument;
  \<open>serde_json\<close> is the codec of a message.
\<close>

section \<open>The store\<close>

record mail =
  ml_from :: string
  ml_timestamp_ms :: int
  ml_content :: string

record mail_codec =
  mc_enc :: "mail \<Rightarrow> string"
  mc_dec :: "string \<Rightarrow> mail option"

record mail_store =
  ms_boxes :: "string \<Rightarrow> mail list option"
  ms_peers :: "string list"
  ms_dir :: "string option"

type_synonym mail_disk = "string \<Rightarrow> string option"

definition mailbox_new :: "string list \<Rightarrow> mail_store" where
  "mailbox_new peers = \<lparr>ms_boxes = (\<lambda>_. None), ms_peers = peers, ms_dir = None\<rparr>"

text \<open>\<open>Path::join\<close> on texts: an absolute name replaces the directory.\<close>

definition join_text :: "string \<Rightarrow> string \<Rightarrow> string" where
  "join_text dir name = (if prefix ''/'' name then name else path_under dir name)"

definition mail_file :: "string \<Rightarrow> string \<Rightarrow> string" where
  "mail_file dir peer = join_text dir (peer @ ''.jsonl'')"

definition read_mail_lines :: "mail_codec \<Rightarrow> string \<Rightarrow> mail list" where
  "read_mail_lines cd txt = List.map_filter (mc_dec cd) (text_lines txt)"

definition load_box :: "mail_codec \<Rightarrow> string \<Rightarrow> mail_disk \<Rightarrow> (string \<Rightarrow> mail list option) \<Rightarrow> string \<Rightarrow> string \<Rightarrow> mail list option" where
  "load_box cd dir disk boxes peer =
     (case disk (mail_file dir peer) of
        None \<Rightarrow> boxes
      | Some txt \<Rightarrow>
          (let msgs = read_mail_lines cd txt in if msgs = [] then boxes else boxes(peer \<mapsto> msgs)))"

definition with_persistence :: "mail_codec \<Rightarrow> string list \<Rightarrow> string \<Rightarrow> mail_disk \<Rightarrow> mail_store" where
  "with_persistence cd peers dir disk =
     \<lparr>ms_boxes = foldl (load_box cd dir disk) (\<lambda>_. None) peers, ms_peers = peers, ms_dir = Some dir\<rparr>"

definition append_line :: "string \<Rightarrow> string \<Rightarrow> mail_disk \<Rightarrow> mail_disk" where
  "append_line file l disk =
     disk(file \<mapsto> (case disk file of Some txt \<Rightarrow> txt | None \<Rightarrow> []) @ l @ [CHR 0x0A])"

definition box_of :: "mail_store \<Rightarrow> string \<Rightarrow> mail list" where
  "box_of m peer = (case ms_boxes m peer of Some ms \<Rightarrow> ms | None \<Rightarrow> [])"

definition send_mail ::
  "mail_codec \<Rightarrow> string \<Rightarrow> string \<Rightarrow> string \<Rightarrow> int \<Rightarrow> bool \<Rightarrow> mail_store \<times> mail_disk \<Rightarrow> mail_store \<times> mail_disk" where
  "send_mail cd from to content now written st =
     (case st of (m, disk) \<Rightarrow>
        (let msg = \<lparr>ml_from = from, ml_timestamp_ms = now, ml_content = content\<rparr>
         in (m\<lparr>ms_boxes := (ms_boxes m)(to \<mapsto> box_of m to @ [msg])\<rparr>,
             (case ms_dir m of
                Some dir \<Rightarrow> (if written then append_line (mail_file dir to) (mc_enc cd msg) disk else disk)
              | None \<Rightarrow> disk))))"

definition mail_text :: "mail_codec \<Rightarrow> mail list \<Rightarrow> string" where
  "mail_text cd ms = join_with [CHR 0x0A] (map (mc_enc cd) ms) @ [CHR 0x0A]"

definition drain_mail ::
  "mail_codec \<Rightarrow> string \<Rightarrow> nat \<Rightarrow> bool \<Rightarrow> mail_store \<times> mail_disk \<Rightarrow> mail list option \<times> mail_store \<times> mail_disk" where
  "drain_mail cd peer n written st =
     (case st of (m, disk) \<Rightarrow>
        (case ms_boxes m peer of
           None \<Rightarrow> (None, m, disk)
         | Some msgs \<Rightarrow>
             (let rest = drop (min n (length msgs)) msgs;
                  m' = m\<lparr>ms_boxes := (ms_boxes m)(peer := if rest = [] then None else Some rest)\<rparr>
              in (Some (take (min n (length msgs)) msgs), m',
                  (case ms_dir m of
                     Some dir \<Rightarrow>
                       (if \<not> written then disk
                        else if rest = [] then disk(mail_file dir peer := None)
                        else disk(mail_file dir peer \<mapsto> mail_text cd rest))
                   | None \<Rightarrow> disk)))))"

section \<open>The tools\<close>

record send_input =
  sm_peer :: string
  sm_message :: string

text \<open>Deserialization of the input structs: an object by field, an array by position.\<close>

definition send_input_of :: "json \<Rightarrow> send_input option" where
  "send_input_of v =
     (case v of
        JArray [JString p, JString t] \<Rightarrow> Some \<lparr>sm_peer = p, sm_message = t\<rparr>
      | JObject _ \<Rightarrow>
          (case (get_str v ''peer'', get_str v ''message'') of
             (Some p, Some t) \<Rightarrow> Some \<lparr>sm_peer = p, sm_message = t\<rparr>
           | _ \<Rightarrow> None)
      | _ \<Rightarrow> None)"

definition usize_of :: "json \<Rightarrow> nat option" where
  "usize_of v = (case v of JNumber n \<Rightarrow> (if 0 \<le> n \<and> n < 2 ^ 64 then Some (nat n) else None) | _ \<Rightarrow> None)"

definition default_read_max :: nat where
  "default_read_max = 10"

definition read_input_of :: "json \<Rightarrow> nat option" where
  "read_input_of v =
     (case v of
        JArray [] \<Rightarrow> Some default_read_max
      | JArray [x] \<Rightarrow> usize_of x
      | JObject _ \<Rightarrow> (case json_get v ''max'' of None \<Rightarrow> Some default_read_max | Some x \<Rightarrow> usize_of x)
      | _ \<Rightarrow> None)"

text \<open>The text of a deserialization error is an argument.\<close>

definition validate_send :: "string \<Rightarrow> json \<Rightarrow> validation_result" where
  "validate_send err v =
     (case send_input_of v of
        Some i \<Rightarrow>
          (if trim (sm_peer i) = [] then VErr ''peer must not be empty'' 1
           else if trim (sm_message i) = [] then VErr ''message must not be empty'' 2
           else VOk)
      | None \<Rightarrow> VErr (''invalid input: '' @ err) 3)"

definition call_send ::
  "mail_codec \<Rightarrow> string \<Rightarrow> string \<Rightarrow> int \<Rightarrow> bool \<Rightarrow> json \<Rightarrow> mail_store \<times> mail_disk
   \<Rightarrow> (string + string) \<times> mail_store \<times> mail_disk" where
  "call_send cd err me now written v st =
     (case send_input_of v of
        None \<Rightarrow> (Inl err, st)
      | Some i \<Rightarrow>
          (Inr (''Message sent to '' @ sm_peer i), send_mail cd me (sm_peer i) (sm_message i) now written st))"

definition validate_read :: "string \<Rightarrow> json \<Rightarrow> validation_result" where
  "validate_read err v =
     (case read_input_of v of
        Some n \<Rightarrow> (if n = 0 then VErr ''max must be >= 1'' 1 else VOk)
      | None \<Rightarrow> VErr (''invalid input: '' @ err) 2)"

definition show_i64 :: "int \<Rightarrow> string" where
  "show_i64 i = (if i < 0 then ''-'' @ show_nat (nat (- i)) else show_nat (nat i))"

definition show_mail :: "mail \<Rightarrow> string" where
  "show_mail msg =
     ''**From '' @ ml_from msg @ ''** (at '' @ show_i64 (ml_timestamp_ms msg) @ ''):'' @ [CHR 0x0A] @ ml_content msg
     @ [CHR 0x0A, CHR 0x0A]"

definition call_read ::
  "mail_codec \<Rightarrow> string \<Rightarrow> string \<Rightarrow> bool \<Rightarrow> json \<Rightarrow> mail_store \<times> mail_disk
   \<Rightarrow> (string + string \<times> mail list option) \<times> mail_store \<times> mail_disk" where
  "call_read cd err me written v st =
     (case read_input_of v of
        None \<Rightarrow> (Inl err, st)
      | Some n \<Rightarrow>
          (case drain_mail cd me n written st of
             (None, st') \<Rightarrow> (Inr (''(no new messages)'', None), st')
           | (Some msgs, st') \<Rightarrow> (Inr (concat (map show_mail msgs), Some msgs), st')))"

definition call_peers :: "mail_store \<Rightarrow> string \<times> string list option" where
  "call_peers m =
     (if ms_peers m = [] then (''(no peers in current team)'', None)
      else (join_with [CHR 0x0A] (ms_peers m), Some (ms_peers m)))"

section \<open>The protocol\<close>

datatype decision_permissiveness = Strict | Normal_permissive | Lenient

datatype protocol_decision =
    ProtoAllow
  | ProtoDeny string "decision_permissiveness option"
  | ProtoAsk string

datatype protocol_message =
    PmPermissionRequest string json "string option" "string option"
  | PmPermissionResponse protocol_decision "string option"
  | PmIdleNotification string int "string option"
  | PmShutdownRequest string bool "string option"
  | PmPlanApprovalRequest string "string list"
  | PmPlanApprovalResponse bool "string option" "string option"
  | PmHeartbeat string int "string option"

fun type_str :: "protocol_message \<Rightarrow> string" where
  "type_str (PmPermissionRequest _ _ _ _) = ''permission_request''"
| "type_str (PmPermissionResponse _ _) = ''permission_response''"
| "type_str (PmIdleNotification _ _ _) = ''idle_notification''"
| "type_str (PmShutdownRequest _ _ _) = ''shutdown_request''"
| "type_str (PmPlanApprovalRequest _ _) = ''plan_approval_request''"
| "type_str (PmPlanApprovalResponse _ _ _) = ''plan_approval_response''"
| "type_str (PmHeartbeat _ _ _) = ''heartbeat''"

fun protocol_decision_of :: "permission_decision \<Rightarrow> protocol_decision" where
  "protocol_decision_of (PAllow _ _) = ProtoAllow"
| "protocol_decision_of (PDeny message _) = ProtoDeny message None"
| "protocol_decision_of (PAsk message _) = ProtoAsk message"

definition message_type :: "(string \<Rightarrow> json option) \<Rightarrow> string \<Rightarrow> string option" where
  "message_type from_str s = (case from_str s of Some v \<Rightarrow> get_str v ''type'' | None \<Rightarrow> None)"

section \<open>The poller\<close>

definition DEFAULT_DRAIN_MAX :: nat where
  "DEFAULT_DRAIN_MAX = 100"

text \<open>One tick: what the handler is given, in order.\<close>

definition poll_tick ::
  "mail_codec \<Rightarrow> (string \<Rightarrow> protocol_message option) \<Rightarrow> string \<Rightarrow> nat \<Rightarrow> bool \<Rightarrow> mail_store \<times> mail_disk
   \<Rightarrow> (string \<times> protocol_message) list \<times> mail_store \<times> mail_disk" where
  "poll_tick cd parse me n written st =
     (case drain_mail cd me n written st of
        (None, st') \<Rightarrow> ([], st')
      | (Some msgs, st') \<Rightarrow>
          (List.map_filter (\<lambda>msg. map_option (Pair (ml_from msg)) (parse (ml_content msg))) msgs, st'))"

lemmas mailbox_defs [kernel_defs] =
  mailbox_new_def join_text_def mail_file_def read_mail_lines_def load_box_def with_persistence_def append_line_def
  box_of_def send_mail_def mail_text_def drain_mail_def send_input_of_def usize_of_def default_read_max_def
  read_input_of_def validate_send_def call_send_def validate_read_def show_i64_def show_mail_def call_read_def
  call_peers_def message_type_def DEFAULT_DRAIN_MAX_def poll_tick_def

end
