(* ===== verification/Coordinator.thy ===== *)
theory Coordinator
  imports TeamRegistry Mailbox
begin

text \<open>
  Teams that run in stages, \<open>team/src/coordinator.rs\<close>, with the prompts of \<open>team/src/prompt.rs\<close> and the input of
  \<open>TeamCreate\<close> from \<open>team/src/tool.rs\<close>.  What an agent answers, what the judging model streams, the clock, the printed
  id and the fixed text of the coordinator's prompt are parameters.  The agents of a stage run concurrently; their
  answers are joined in the order of the stage.
\<close>

section \<open>Permission requests to a parent\<close>

record permission_prompt =
  pp_tool_use_id :: string
  pp_tool_name :: string
  pp_message :: string
  pp_paths :: "string list"
  pp_turn_id :: string

datatype bridge_outcome = BridgePermit | BridgeDeny string

text \<open>
  The waiting calls are numbered; a channel leads from the id of a prompt to the call that waits on it.  Putting
  a channel where one is drops the old one, whose call is told that it closed.
\<close>

record bridge =
  br_me :: string
  br_parent :: string
  br_pending :: "string \<Rightarrow> permission_prompt option"
  br_channels :: "string \<Rightarrow> nat option"
  br_answers :: "(nat \<times> bridge_outcome) list"

definition bridge_new :: "string \<Rightarrow> string \<Rightarrow> bridge" where
  "bridge_new me parent =
     \<lparr>br_me = me, br_parent = parent, br_pending = (\<lambda>_. None), br_channels = (\<lambda>_. None), br_answers = []\<rparr>"

definition safe_tools :: "string list" where
  "safe_tools = [''Read'', ''Grep'', ''Glob'', ''WebSearch'', ''WebFetch'', ''ListPeers'', ''ReadMail'', ''SendMessage'', ''Agent'']"

definition bridge_message :: "permission_prompt \<Rightarrow> json" where
  "bridge_message p =
     JObject [(''message'', JString (pp_message p)), (''paths'', JArray (map JString (pp_paths p))),
              (''tool_name'', JString (pp_tool_name p)), (''tool_use_id'', JString (pp_tool_use_id p)),
              (''turn_id'', JString (pp_turn_id p)), (''type'', JString ''permission_request'')]"

definition forward_to_parent ::
  "mail_codec \<Rightarrow> (json \<Rightarrow> string) \<Rightarrow> int \<Rightarrow> bool \<Rightarrow> permission_prompt \<Rightarrow> bridge \<times> mail_store \<times> mail_disk
   \<Rightarrow> bridge \<times> mail_store \<times> mail_disk" where
  "forward_to_parent cd show_json now written p bst =
     (case bst of (b, st) \<Rightarrow>
        (b\<lparr>br_pending := (br_pending b)(pp_tool_use_id p \<mapsto> p)\<rparr>,
         send_mail cd (br_me b) (br_parent b) (show_json (bridge_message p)) now written st))"

definition answer_call :: "nat \<Rightarrow> bridge_outcome \<Rightarrow> bridge \<Rightarrow> bridge" where
  "answer_call k out b =
     (if k \<in> fst ` set (br_answers b) then b else b\<lparr>br_answers := br_answers b @ [(k, out)]\<rparr>)"

definition receive_decision :: "string \<Rightarrow> bool \<Rightarrow> bridge \<Rightarrow> bridge" where
  "receive_decision i allowed b =
     (let b1 = b\<lparr>br_pending := (br_pending b)(i := None)\<rparr> in
      case br_channels b i of
        None \<Rightarrow> b1
      | Some k \<Rightarrow>
          answer_call k (if allowed then BridgePermit else BridgeDeny ''Parent denied permission'')
            (b1\<lparr>br_channels := (br_channels b)(i := None)\<rparr>))"

text \<open>Call \<open>k\<close> asks for a tool, under the id its clock gives it.\<close>

definition bridge_prompt :: "string \<Rightarrow> string \<Rightarrow> string \<Rightarrow> permission_prompt" where
  "bridge_prompt me i tool =
     \<lparr>pp_tool_use_id = i, pp_tool_name = tool,
      pp_message = ''Sub-agent '' @ [CHR 0x27] @ me @ [CHR 0x27] @ '' requests permission to use tool '' @ [CHR 0x27] @ tool @ [CHR 0x27],
      pp_paths = [], pp_turn_id = []\<rparr>"

definition bridge_check ::
  "mail_codec \<Rightarrow> (json \<Rightarrow> string) \<Rightarrow> int \<Rightarrow> bool \<Rightarrow> nat \<Rightarrow> string \<Rightarrow> string \<Rightarrow> bridge \<times> mail_store \<times> mail_disk
   \<Rightarrow> bridge \<times> mail_store \<times> mail_disk" where
  "bridge_check cd show_json now written k i tool bst =
     (case bst of (b, st) \<Rightarrow>
        if tool \<in> set safe_tools then (answer_call k BridgePermit b, st)
        else
          (let b1 = (case br_channels b i of
                       Some k' \<Rightarrow> answer_call k' (BridgeDeny ''Permission response channel closed unexpectedly'') b
                     | None \<Rightarrow> b);
               b2 = b1\<lparr>br_channels := (br_channels b1)(i \<mapsto> k)\<rparr>
           in forward_to_parent cd show_json now written (bridge_prompt (br_me b) i tool) (b2, st)))"

definition bridge_timeout :: "nat \<Rightarrow> bridge \<Rightarrow> bridge" where
  "bridge_timeout k b = answer_call k (BridgeDeny ''Permission request timed out after 120s'') b"

section \<open>Stages\<close>

record team_agent_spec =
  ag_label :: string
  ag_prompt :: string
  ag_agent_type :: "string option"

datatype aggregate_mode = Concat | Best | Aggregate

fun aggregate_name :: "aggregate_mode \<Rightarrow> string" where
  "aggregate_name Concat = ''concat''"
| "aggregate_name Best = ''best''"
| "aggregate_name Aggregate = ''aggregate''"

record team_stage =
  sg_name :: string
  sg_agents :: "team_agent_spec list"
  sg_aggregate :: "aggregate_mode option"

definition create_permission_bridges :: "team_stage list \<Rightarrow> string \<Rightarrow> (string \<times> bridge) list" where
  "create_permission_bridges stages team =
     foldl (\<lambda>bs a. if map_of bs (ag_label a) \<noteq> None then bs else bs @ [(ag_label a, bridge_new (ag_label a) team)])
       [] (concat (map sg_agents stages))"

record worker_context =
  wc_team :: string
  wc_team_id :: string
  wc_label :: string
  wc_stage :: string
  wc_stage_index :: nat
  wc_stage_count :: nat
  wc_peers :: "string list"
  wc_later :: "string list"
  wc_scratchpad :: string

definition build_worker_prompt :: "worker_context \<Rightarrow> string \<Rightarrow> string" where
  "build_worker_prompt c task =
     ''<team-context>'' @ newline
     @ ''Team: '' @ wc_team c @ '' (id: '' @ wc_team_id c @ '')'' @ newline
     @ ''Stage '' @ show_nat (wc_stage_index c + 1) @ ''/'' @ show_nat (wc_stage_count c) @ '': '' @ wc_stage c @ newline
     @ ''You are: '' @ wc_label c @ newline
     @ (if wc_peers c = []
        then ''Running alongside: nobody '' @ em_dash @ '' you are the only worker in this stage.'' @ newline
        else ''Running alongside (in parallel, you cannot see their work): '' @ join_with '', '' (wc_peers c) @ newline)
     @ (if wc_later c = [] then [] else ''Your output feeds later stage(s): '' @ join_with '', '' (wc_later c) @ newline)
     @ ''Team scratchpad: '' @ wc_scratchpad c @ newline
     @ ''Report your result as your final message '' @ em_dash @ '' it is written into the scratchpad ''
     @ ''under your label and is the only thing the rest of the team will see.'' @ newline
     @ ''</team-context>'' @ newline @ newline @ task"

section \<open>The judge\<close>

type_synonym section_of = "string \<times> string \<times> bool"

datatype judge_event = TextDelta string | EndTurn | OtherEvent | StreamError

fun collect_text :: "string \<Rightarrow> judge_event list \<Rightarrow> string option" where
  "collect_text acc [] = Some acc"
| "collect_text acc (TextDelta t # evs) = collect_text (acc @ t) evs"
| "collect_text acc (EndTurn # evs) = Some acc"
| "collect_text acc (OtherEvent # evs) = collect_text acc evs"
| "collect_text acc (StreamError # evs) = None"

definition drain_judge :: "(string \<Rightarrow> nat \<Rightarrow> judge_event list option) \<Rightarrow> string \<Rightarrow> nat \<Rightarrow> string option" where
  "drain_judge model prompt max_tokens =
     Option.bind (model prompt max_tokens) (\<lambda>evs.
     Option.bind (collect_text [] evs) (\<lambda>t. if trim t = [] then None else Some t))"

definition quoted_section :: "section_of \<Rightarrow> string" where
  "quoted_section s =
     (case s of (l, b, e) \<Rightarrow>
        ''<agent label=\"'' @ l @ (if e then '' (ERROR)'' else []) @ ''\">'' @ newline @ b @ newline @ ''</agent>'')"

definition pick_best ::
  "(string \<Rightarrow> nat \<Rightarrow> judge_event list option) \<Rightarrow> string \<Rightarrow> section_of list \<Rightarrow> string option" where
  "pick_best model stage ss =
     (case drain_judge model
             (''You are evaluating results of a team of AI agents on stage \"'' @ stage @ ''\".'' @ newline @ newline
              @ ''Results:'' @ newline @ join_with (newline @ newline) (map quoted_section ss) @ newline @ newline
              @ ''Pick the single best result. Return ONLY the agent label, nothing else.'') 100 of
        None \<Rightarrow> None
      | Some t \<Rightarrow> (if trim t \<in> fst ` set ss then Some (trim t) else None))"

definition merge_sections ::
  "(string \<Rightarrow> nat \<Rightarrow> judge_event list option) \<Rightarrow> string \<Rightarrow> section_of list \<Rightarrow> string option" where
  "merge_sections model stage ss =
     drain_judge model
       (''Synthesize results of AI agents on stage \"'' @ stage @ ''\".'' @ newline @ newline
        @ ''Results:'' @ newline @ join_with (newline @ newline) (map quoted_section ss) @ newline @ newline
        @ ''Combine into one document. Capture best insights, remove redundancy, preserve facts.'') 4096"

definition aggregate_sections ::
  "(string \<Rightarrow> nat \<Rightarrow> judge_event list option) \<Rightarrow> aggregate_mode \<Rightarrow> string \<Rightarrow> section_of list \<Rightarrow> section_of list" where
  "aggregate_sections model mode stage ss =
     (case mode of
        Concat \<Rightarrow> ss
      | Best \<Rightarrow> (case pick_best model stage ss of Some l \<Rightarrow> filter (\<lambda>s. fst s = l) ss | None \<Rightarrow> ss)
      | Aggregate \<Rightarrow>
          [(''(aggregated)'',
            (case merge_sections model stage ss of
               Some t \<Rightarrow> t
             | None \<Rightarrow> concat (map (\<lambda>(l, b, _). ''### '' @ l @ newline @ b @ newline @ newline) ss)),
            False)])"

section \<open>A run of a team\<close>

datatype stage_status = Started | Finished

record team_progress =
  tp_stage :: string
  tp_stage_index :: nat
  tp_stage_count :: nat
  tp_status :: stage_status
  tp_members :: "string list"
  tp_failed :: "string list"

record spawn_request =
  sp_prompt :: string
  sp_agent_type :: "string option"
  sp_mode :: settings_mode

text \<open>
  The surroundings of a run.  \<open>oe_spawn\<close> is the spawner, if there is one: what it answers for the agent at a
  position of a stage, a text or an error.  \<open>oe_clock\<close> is the time of the n-th record.
\<close>

record orchestrate_env =
  oe_id :: string
  oe_cwd :: string
  oe_session_id :: string
  oe_scene :: "string option"
  oe_clock :: "nat \<Rightarrow> string"
  oe_spawn :: "(nat \<Rightarrow> nat \<Rightarrow> spawn_request \<Rightarrow> string + string) option"
  oe_judge :: "string \<Rightarrow> nat \<Rightarrow> judge_event list option"
  oe_fixed_prompt :: "string \<Rightarrow> string list \<Rightarrow> string"
  oe_mode_text :: "settings_mode \<Rightarrow> string"
  oe_events :: "event_envelope text_codec"
  oe_states :: "team_state_file text_codec"
  oe_decls :: "team_declaration text_codec"

text \<open>What a run has done so far.  \<open>ru_events\<close> and \<open>ru_states\<close> are the records it wrote, in order.\<close>

record team_run =
  ru_events :: "team_event list"
  ru_states :: "team_state_file list"
  ru_progress :: "team_progress list"
  ru_files :: team_files
  ru_lifecycles :: "(string \<times> teammate_lifecycle) list"
  ru_scratch :: string
  ru_any_err :: bool

definition note_event :: "orchestrate_env \<Rightarrow> team_event \<Rightarrow> team_run \<Rightarrow> team_run" where
  "note_event e ev r =
     r\<lparr>ru_events := ru_events r @ [ev],
       ru_files := append_team_event (oe_events e) (oe_clock e (length (ru_events r))) default_max_entries ev (ru_files r)\<rparr>"

definition build_state_snapshot ::
  "string \<Rightarrow> nat \<Rightarrow> team_status \<Rightarrow> (string \<times> teammate_lifecycle) list \<Rightarrow> team_state_file" where
  "build_state_snapshot now stage status lifecycles =
     \<lparr>sf_schema_version = 1, sf_updated_at = now, sf_current_stage = stage, sf_status = status,
      sf_members = map (\<lambda>(l, c). \<lparr>ms_label = l, ms_lifecycle = c, ms_agent_id = None, ms_session_id = None,
                                  ms_idle_since = None, ms_last_error = None\<rparr>) lifecycles\<rparr>"

definition note_state :: "orchestrate_env \<Rightarrow> nat \<Rightarrow> team_status \<Rightarrow> team_run \<Rightarrow> team_run" where
  "note_state e stage status r =
     (let s = build_state_snapshot (oe_clock e (length (ru_events r))) stage status (ru_lifecycles r)
      in r\<lparr>ru_states := ru_states r @ [s], ru_files := write_team_state_atomic (oe_states e) s (ru_files r)\<rparr>)"

definition emit_progress :: "team_progress \<Rightarrow> team_run \<Rightarrow> team_run" where
  "emit_progress p r = r\<lparr>ru_progress := ru_progress r @ [p]\<rparr>"

definition mark_members :: "teammate_lifecycle \<Rightarrow> team_agent_spec list \<Rightarrow> team_run \<Rightarrow> team_run" where
  "mark_members c agents r =
     r\<lparr>ru_lifecycles := foldl (\<lambda>ls a. AList.update (ag_label a) c ls) (ru_lifecycles r) agents\<rparr>"

definition stage_peers :: "team_stage \<Rightarrow> string \<Rightarrow> string list" where
  "stage_peers stage label = filter (\<lambda>l. l \<noteq> label) (map ag_label (sg_agents stage))"

definition worker_context_of :: "orchestrate_env \<Rightarrow> string \<Rightarrow> string \<Rightarrow> string list \<Rightarrow> nat \<Rightarrow> team_stage \<Rightarrow> string \<Rightarrow> worker_context" where
  "worker_context_of e name sp_path stage_names si stage label =
     \<lparr>wc_team = name, wc_team_id = oe_id e, wc_label = label, wc_stage = sg_name stage, wc_stage_index = si,
      wc_stage_count = length stage_names, wc_peers = stage_peers stage label, wc_later = drop (si + 1) stage_names,
      wc_scratchpad = sp_path\<rparr>"

text \<open>The answers of a stage's agents, in its order: label, text, whether it is an error.\<close>

definition member_results ::
  "orchestrate_env \<Rightarrow> settings_mode \<Rightarrow> string \<Rightarrow> string \<Rightarrow> string list \<Rightarrow> nat \<Rightarrow> team_stage
   \<Rightarrow> (nat \<Rightarrow> nat \<Rightarrow> spawn_request \<Rightarrow> string + string) \<Rightarrow> section_of list" where
  "member_results e mode name sp_path stage_names si stage spawn =
     map (\<lambda>(ai, a).
       case spawn si ai \<lparr>sp_prompt = build_worker_prompt (worker_context_of e name sp_path stage_names si stage (ag_label a)) (ag_prompt a),
                         sp_agent_type = ag_agent_type a, sp_mode = mode\<rparr> of
         Inr t \<Rightarrow> (ag_label a, t, False)
       | Inl err \<Rightarrow> (ag_label a, ''ERROR: '' @ err, True))
       (List.enumerate 0 (sg_agents stage))"

definition unavailable_text :: string where
  "unavailable_text = ''[AgentSpawner not available '' @ em_dash @ '' team coordination requires daemon wiring]''"

definition run_members ::
  "orchestrate_env \<Rightarrow> settings_mode \<Rightarrow> string \<Rightarrow> string \<Rightarrow> string list \<Rightarrow> nat \<Rightarrow> team_stage \<Rightarrow> team_run
   \<Rightarrow> section_of list \<times> team_run" where
  "run_members e mode name sp_path stage_names si stage r =
     (case oe_spawn e of
        Some spawn \<Rightarrow>
          (let r1 = foldl (\<lambda>r a. note_event e (MemberSpawned (ag_label a) None None) (mark_members MemberActive [a] r))
                      r (sg_agents stage);
               r2 = note_state e si TeamRunning r1;
               results = member_results e mode name sp_path stage_names si stage spawn;
               r3 = mark_members MemberCompleted (sg_agents stage) r2;
               r4 = foldl (\<lambda>r (l, t, err). note_event e (MemberCompletedEvent l err) (r\<lparr>ru_any_err := ru_any_err r \<or> err\<rparr>))
                      r3 results
           in (results, r4))
      | None \<Rightarrow>
          (map (\<lambda>a. (ag_label a, unavailable_text, True)) (sg_agents stage),
           r\<lparr>ru_any_err := ru_any_err r \<or> sg_agents stage \<noteq> []\<rparr>))"

definition stage_markdown :: "nat \<Rightarrow> string \<Rightarrow> section_of list \<Rightarrow> string" where
  "stage_markdown si stage ss =
     newline @ ''## '' @ show_nat (si + 1) @ ''_'' @ stage @ newline @ newline
     @ concat (map (\<lambda>(l, b, e). ''### '' @ l @ (if e then '' (ERROR)'' else []) @ newline @ b @ newline @ newline) ss)"

definition failed_labels :: "section_of list \<Rightarrow> string list" where
  "failed_labels ss = map fst (filter (\<lambda>(_, _, e). e) ss)"

definition run_stage ::
  "orchestrate_env \<Rightarrow> settings_mode \<Rightarrow> string \<Rightarrow> string \<Rightarrow> string list \<Rightarrow> nat \<times> team_stage \<Rightarrow> team_run \<Rightarrow> team_run" where
  "run_stage e mode name sp_path stage_names sis r =
     (case sis of (si, stage) \<Rightarrow>
        let n = length stage_names;
            labels = map ag_label (sg_agents stage);
            progress = (\<lambda>st failed. emit_progress \<lparr>tp_stage = sg_name stage, tp_stage_index = si, tp_stage_count = n,
                          tp_status = st, tp_members = labels, tp_failed = failed\<rparr>);
            r1 = note_event e (StageStarted si (sg_name stage) labels) (progress Started [] r);
            (ss, r2) = run_members e mode name sp_path stage_names si stage r1;
            ss' = (case sg_aggregate stage of
                     Some m \<Rightarrow> (if ss = [] then ss else aggregate_sections (oe_judge e) m (sg_name stage) ss)
                   | None \<Rightarrow> ss);
            r3 = r2\<lparr>ru_scratch := ru_scratch r2 @ stage_markdown si (sg_name stage) ss'\<rparr>;
            failed = failed_labels ss';
            r4 = note_event e (StageCompleted si failed) (progress Finished failed r3)
        in note_state e si TeamRunning r4)"

definition declaration_of ::
  "orchestrate_env \<Rightarrow> settings_mode \<Rightarrow> string \<Rightarrow> team_stage list \<Rightarrow> team_declaration" where
  "declaration_of e mode name stages =
     \<lparr>td_schema_version = 1, td_team_id = oe_id e, td_name = name,
      td_scene = (case oe_scene e of Some s \<Rightarrow> s | None \<Rightarrow> ''unknown''), td_project_root = oe_cwd e,
      td_owner_session_id = oe_session_id e, td_created_at = oe_clock e 0, td_mode = Batch,
      td_permission_mode = Some (oe_mode_text e mode),
      td_stages = map (\<lambda>(i, s). \<lparr>sd_index = i, sd_name = sg_name s,
                       sd_aggregate = map_option aggregate_name (sg_aggregate s),
                       sd_members = map (\<lambda>a. \<lparr>md_label = ag_label a, md_agent_type = ag_agent_type a,
                                              md_prompt = ag_prompt a\<rparr>) (sg_agents s)\<rparr>)
                    (List.enumerate 0 stages)\<rparr>"

definition opening_scratch :: "orchestrate_env \<Rightarrow> string \<Rightarrow> team_stage list \<Rightarrow> string option \<Rightarrow> string" where
  "opening_scratch e name stages scratchpad =
     ''# Team `'' @ name @ ''`'' @ newline @ newline @ ''Team id: `'' @ oe_id e @ ''`'' @ newline
     @ ''Stages: '' @ show_nat (length stages) @ newline @ newline
     @ oe_fixed_prompt e name (map sg_name stages) @ newline
     @ (case scratchpad of
          Some s \<Rightarrow> newline @ ''## 0_initial_context'' @ newline @ newline @ s @ newline
        | None \<Rightarrow> [])"

definition start_run :: "orchestrate_env \<Rightarrow> settings_mode \<Rightarrow> string \<Rightarrow> team_stage list \<Rightarrow> string option \<Rightarrow> team_run" where
  "start_run e mode name stages scratchpad =
     note_event e (TeamCreated (oe_id e))
       \<lparr>ru_events = [], ru_states = [], ru_progress = [],
        ru_files = write_team_declaration (oe_decls e) (declaration_of e mode name stages) (\<lambda>_. None),
        ru_lifecycles = foldl (\<lambda>ls a. AList.update (ag_label a) MemberIdle ls) [] (concat (map sg_agents stages)),
        ru_scratch = opening_scratch e name stages scratchpad, ru_any_err = False\<rparr>"

definition finish_run :: "orchestrate_env \<Rightarrow> nat \<Rightarrow> team_run \<Rightarrow> team_run" where
  "finish_run e n r =
     (let status = (if ru_any_err r then TeamFailed else TeamCompletedStatus)
      in note_event e (TeamCompleted status) (note_state e (n - 1) status r))"

text \<open>
  The whole run: nothing when the declaration cannot be written, else its record, its answer with the error flag,
  and the table of teams.
\<close>

definition orchestrate ::
  "orchestrate_env \<Rightarrow> bool \<Rightarrow> nat \<Rightarrow> settings_mode option \<Rightarrow> string \<Rightarrow> team_stage list \<Rightarrow> string option
   \<Rightarrow> team_table option \<Rightarrow> (string + team_run \<times> string \<times> bool) \<times> team_table option" where
  "orchestrate e declared now mode name stages scratchpad table =
     (let m = (case mode of Some x \<Rightarrow> x | None \<Rightarrow> SPlan);
          team_dir = path_under (path_under (oe_cwd e) ''.atta/teams'') (oe_id e);
          sp_path = path_under team_dir ''SCRATCHPAD.md'' in
      if \<not> declared
      then (Inl (''failed to create team '' @ [CHR 0x27] @ name @ [CHR 0x27] @ '': could not write team.json''), table)
      else
        (let r = foldl (\<lambda>r sis. run_stage e m name sp_path (map sg_name stages) sis r)
                   (start_run e m name stages scratchpad) (List.enumerate 0 stages);
             r' = finish_run e (length stages) r;
             info = \<lparr>ti_team_id = oe_id e, ti_name = name, ti_created_at = now, ti_team_dir = team_dir,
                     ti_members = map (\<lambda>(l, c). \<lparr>tm_label = l, tm_lifecycle = c, tm_idle_since = None\<rparr>) (ru_lifecycles r'),
                     ti_permission_mode = None\<rparr>
         in (Inr (r', ru_scratch r' @ newline @ newline @ ''_(scratchpad: '' @ sp_path @ '')_'', ru_any_err r'),
             map_option (registry_upsert info) table)))"

section \<open>After a run\<close>

text \<open>
  \<open>cleanup_team\<close>: the members told to stop, the directory removed, and the table without the team.
\<close>

definition cleanup_team ::
  "bool \<Rightarrow> string \<Rightarrow> team_table option \<Rightarrow> (string + string list \<times> string option) \<times> team_table option" where
  "cleanup_team has_spawner name table =
     (case table of
        None \<Rightarrow> (Inr ([], None), None)
      | Some ts \<Rightarrow>
          (case registry_remove name ts of
             (None, ts') \<Rightarrow> (Inl (''no such team: '' @ [CHR 0x27] @ name @ [CHR 0x27]), Some ts')
           | (Some info, ts') \<Rightarrow>
               (Inr (if has_spawner then map tm_label (ti_members info) else [],
                     if ti_team_dir info = [] then None else Some (ti_team_dir info)), Some ts')))"

text \<open>\<open>trim_start_matches\<close> takes the marker off as often as it is there.\<close>

function strip_all :: "string \<Rightarrow> string \<Rightarrow> string" where
  "strip_all p s = (if p \<noteq> [] \<and> prefix p s then strip_all p (drop (length p) s) else s)"
  by auto

termination
  by (relation "measure (\<lambda>(p, s). length s)") (auto simp: prefix_def)

declare strip_all.simps [simp del]

definition last_checkpoint :: "string \<Rightarrow> string" where
  "last_checkpoint scratchpad =
     (case filter (prefix ''## '') (text_lines scratchpad) of
        [] \<Rightarrow> ''(none)''
      | ls \<Rightarrow> trim (strip_all ''## '' (last ls)))"

definition resume_coordinator :: "string \<Rightarrow> string option \<Rightarrow> string + string" where
  "resume_coordinator task_id scratchpad =
     (case scratchpad of
        None \<Rightarrow> Inl (''team scratchpad not found for task_id: '' @ task_id)
      | Some s \<Rightarrow>
          Inr (''Resuming team coordinator for task `'' @ task_id @ ''`.'' @ newline
               @ ''Last checkpoint: '' @ last_checkpoint s @ newline @ newline
               @ ''Scratchpad:'' @ newline @ s @ newline @ newline
               @ ''Continue coordinating the remaining stages.''))"

section \<open>The tool\<close>

record team_create_input =
  ti_input_name :: string
  ti_stages :: "team_stage list option"
  ti_agents :: "team_agent_spec list"
  ti_scratchpad :: "string option"
  ti_mode :: "settings_mode option"

definition call_team_create ::
  "orchestrate_env \<Rightarrow> bool \<Rightarrow> nat \<Rightarrow> team_create_input \<Rightarrow> team_table option
   \<Rightarrow> (string + team_run \<times> string \<times> bool) \<times> team_table option" where
  "call_team_create e declared now inp table =
     (if validate_team_name (ti_input_name inp) \<noteq> None then (Inl ''name'', table)
      else if ti_mode inp \<in> {Some SAuto, Some SBubble} then (Inl ''permission_mode'', table)
      else orchestrate e declared now (ti_mode inp) (ti_input_name inp)
             (case ti_stages inp of
                Some ss \<Rightarrow> ss
              | None \<Rightarrow> [\<lparr>sg_name = ''main'', sg_agents = ti_agents inp, sg_aggregate = None\<rparr>])
             (ti_scratchpad inp) table)"

section \<open>The request as the protocol reads it\<close>

text \<open>The variant of a permission request: its two required fields, and two that may be missing.\<close>

definition permission_request_of :: "json \<Rightarrow> protocol_message option" where
  "permission_request_of v =
     (if get_str v ''type'' \<noteq> Some ''permission_request'' then None
      else
        Option.bind (fields_of 0 v) (\<lambda>fs.
        Option.bind (required 0 [''tool_name''] as_str fs) (\<lambda>tool_name.
        Option.bind (required 1 [''tool_input''] Some fs) (\<lambda>tool_input.
        Option.bind (defaulted 2 [''tool_use_id''] None (de_option as_str) fs) (\<lambda>i.
        Option.bind (defaulted 3 [''message''] None (de_option as_str) fs) (\<lambda>message.
        Some (PmPermissionRequest tool_name tool_input i message)))))))"

end
