(* ===== verification/MailboxProps.thy ===== *)
theory MailboxProps
  imports Mailbox Lossless Paths
begin

text \<open>
  What the mail of a team promises: each agent gets what was sent to it, once and in order; and a store opened on the files
  holds for the listed peers what the store that wrote them held.  The locale \<open>post_office\<close> is the contract of the
  former, interpreted for the store.
\<close>

section \<open>First in, first out\<close>

datatype ('p, 'a) mail_op = Post 'p 'a | Take 'p nat

fun office_run ::
  "('p \<Rightarrow> 'a \<Rightarrow> 's \<Rightarrow> 's) \<Rightarrow> ('p \<Rightarrow> nat \<Rightarrow> 's \<Rightarrow> 'a list \<times> 's) \<Rightarrow> ('p, 'a) mail_op list \<Rightarrow> 's
   \<Rightarrow> ('p \<times> 'a) list \<times> 's" where
  "office_run post take_up [] s = ([], s)"
| "office_run post take_up (Post p x # ops) s = office_run post take_up ops (post p x s)"
| "office_run post take_up (Take p n # ops) s =
     (case take_up p n s of (xs, s') \<Rightarrow>
        (case office_run post take_up ops s' of (got, s'') \<Rightarrow> (map (Pair p) xs @ got, s'')))"

definition sent_to :: "'p \<Rightarrow> ('p, 'a) mail_op list \<Rightarrow> 'a list" where
  "sent_to p ops = List.map_filter (\<lambda>op. case op of Post q x \<Rightarrow> (if q = p then Some x else None) | Take _ _ \<Rightarrow> None) ops"

definition got_by :: "'p \<Rightarrow> ('p \<times> 'a) list \<Rightarrow> 'a list" where
  "got_by p got = List.map_filter (\<lambda>(q, x). if q = p then Some x else None) got"

locale post_office =
  fixes post :: "'p \<Rightarrow> 'a \<Rightarrow> 's \<Rightarrow> 's"
    and take_up :: "'p \<Rightarrow> nat \<Rightarrow> 's \<Rightarrow> 'a list \<times> 's"
    and held :: "'s \<Rightarrow> 'p \<Rightarrow> 'a list"
  assumes held_post: "held (post p x s) q = (if q = p then held s q @ [x] else held s q)"
    and held_take: "take_up p n s = (xs, s') \<Longrightarrow> held s q = (if q = p then xs @ held s' q else held s' q)"
begin

lemma got_by_map: "got_by p (map (Pair q) xs @ got) = (if q = p then xs else []) @ got_by p got"
  by (induction xs) (auto simp: got_by_def List.map_filter_simps)

lemma nothing_lost:
  "office_run post take_up ops s = (got, s') \<Longrightarrow> got_by p got @ held s' p = held s p @ sent_to p ops"
proof (induction ops arbitrary: s got)
  case Nil
  then show ?case by (simp add: got_by_def sent_to_def List.map_filter_simps)
next
  case (Cons op ops)
  show ?case
  proof (cases op)
    case (Post q x)
    then have "got_by p got @ held s' p = held (post q x s) p @ sent_to p ops" using Cons by simp
    then show ?thesis by (cases "q = p") (simp_all add: Post held_post sent_to_def List.map_filter_simps)
  next
    case (Take q n)
    obtain xs s1 where take: "take_up q n s = (xs, s1)" by fastforce
    obtain got1 s2 where run: "office_run post take_up ops s1 = (got1, s2)" by fastforce
    have got: "got = map (Pair q) xs @ got1" "s2 = s'" using Cons.prems Take take run by simp_all
    have "got_by p got1 @ held s' p = held s1 p @ sent_to p ops" using Cons.IH run got by simp
    then show ?thesis
      using held_take[OF take, of p] by (simp add: Take got got_by_map sent_to_def List.map_filter_simps)
  qed
qed

end

definition post_to :: "mail_codec \<Rightarrow> bool \<Rightarrow> string \<Rightarrow> mail \<Rightarrow> mail_store \<times> mail_disk \<Rightarrow> mail_store \<times> mail_disk" where
  "post_to cd w p x = send_mail cd (ml_from x) p (ml_content x) (ml_timestamp_ms x) w"

definition take_from ::
  "mail_codec \<Rightarrow> bool \<Rightarrow> string \<Rightarrow> nat \<Rightarrow> mail_store \<times> mail_disk \<Rightarrow> mail list \<times> mail_store \<times> mail_disk" where
  "take_from cd w p n st =
     (case drain_mail cd p n w st of (r, st') \<Rightarrow> (case r of Some xs \<Rightarrow> xs | None \<Rightarrow> [], st'))"

definition held_in :: "mail_store \<times> mail_disk \<Rightarrow> string \<Rightarrow> mail list" where
  "held_in st p = box_of (fst st) p"

lemma mail_eta: "\<lparr>ml_from = ml_from x, ml_timestamp_ms = ml_timestamp_ms x, ml_content = ml_content x\<rparr> = x"
  by simp

interpretation mail_office: post_office "post_to cd w" "take_from cd w" held_in for cd w
proof
  show "held_in (post_to cd w p x st) q = (if q = p then held_in st q @ [x] else held_in st q)" for p x st q
    by (cases st) (simp add: post_to_def send_mail_def held_in_def box_of_def Let_def)
  show "held_in st q = (if q = p then xs @ held_in st' q else held_in st' q)"
    if take: "take_from cd w p n st = (xs, st')" for p n st xs st' q
  proof (cases "ms_boxes (fst st) p")
    case None
    then show ?thesis using take by (cases st) (auto simp: take_from_def drain_mail_def held_in_def)
  next
    case (Some ms)
    let ?k = "min n (length ms)"
    have xs: "xs = take ?k ms"
      and box: "ms_boxes (fst st') = (ms_boxes (fst st))(p := if drop ?k ms = [] then None else Some (drop ?k ms))"
      using take Some by (cases st; simp add: take_from_def drain_mail_def Let_def; fastforce)+
    have "held_in st' q = (if q = p then drop ?k ms else held_in st q)"
      by (auto simp: held_in_def box_of_def box simp del: drop_eq_Nil)
    moreover have "held_in st p = xs @ drop ?k ms"
      using Some xs append_take_drop_id[of ?k ms] by (simp add: held_in_def box_of_def)
    ultimately show ?thesis by (cases "q = p") simp_all
  qed
qed

text \<open>C36. Over any run of sends and drains, by whomever: what an agent received so far, followed by what lies in its mailbox,
  is what was sent to it, in order, each message once.\<close>

theorem mail_is_fifo:
  assumes "office_run (post_to cd w) (take_from cd w) ops (mailbox_new peers, disk) = (got, st')"
  shows "got_by p got @ held_in st' p = sent_to p ops"
proof -
  have "held_in (mailbox_new peers, disk) p = []" by (simp add: held_in_def box_of_def mailbox_new_def)
  then show ?thesis using mail_office.nothing_lost[OF assms, of p] by simp
qed

section \<open>Reopening the files\<close>

definition mail_codec_ok :: "mail_codec \<Rightarrow> bool" where
  "mail_codec_ok cd \<longleftrightarrow>
     (\<forall>msg. CHR 0x0A \<notin> set (mc_enc cd msg) \<and> drop_cr (mc_enc cd msg) = mc_enc cd msg \<and> mc_dec cd (mc_enc cd msg) = Some msg)"

definition relative_name :: "string \<Rightarrow> bool" where
  "relative_name p \<longleftrightarrow> \<not> prefix ''/'' p"

lemma mail_file_inj: "relative_name p \<Longrightarrow> relative_name q \<Longrightarrow> mail_file d p = mail_file d q \<longleftrightarrow> p = q"
  by (cases p; cases q) (auto simp: mail_file_def join_text_def path_under_def relative_name_def)

definition lines_text :: "mail_codec \<Rightarrow> mail list \<Rightarrow> string" where
  "lines_text cd ms = concat (map (\<lambda>m. mc_enc cd m @ [CHR 0x0A]) ms)"

lemma mail_text_lines: "ms \<noteq> [] \<Longrightarrow> mail_text cd ms = lines_text cd ms"
proof (induction ms)
  case (Cons m ms)
  then show ?case by (cases ms) (auto simp: mail_text_def lines_text_def)
qed simp

lemma lines_text_snoc: "lines_text cd (ms @ [m]) = lines_text cd ms @ mc_enc cd m @ [CHR 0x0A]"
  by (simp add: lines_text_def)

lemma complete_lines_text: "complete_log (lines_text cd ms)"
  by (induction ms rule: rev_induct) (simp_all add: complete_log_def lines_text_snoc, simp add: lines_text_def)

lemma read_lines_text:
  assumes "mail_codec_ok cd"
  shows "read_mail_lines cd (lines_text cd ms) = ms"
proof -
  have c: "CHR 0x0A \<notin> set (mc_enc cd m)" "drop_cr (mc_enc cd m) = mc_enc cd m" "mc_dec cd (mc_enc cd m) = Some m" for m
    using assms by (auto simp: mail_codec_ok_def)
  have "text_lines (lines_text cd ms) = map (mc_enc cd) ms"
  proof (induction ms rule: rev_induct)
    case (snoc m ms)
    then show ?case using text_lines_snoc[OF complete_lines_text c(1)] by (simp add: lines_text_snoc c(2))
  qed (simp add: lines_text_def text_lines_def)
  moreover have "List.map_filter (mc_dec cd) (map (mc_enc cd) ms) = ms"
    by (induction ms) (simp_all add: List.map_filter_simps c(3))
  ultimately show ?thesis by (simp add: read_mail_lines_def)
qed

text \<open>The file of an agent mirrors its mailbox.\<close>

definition in_step :: "mail_codec \<Rightarrow> mail list option \<Rightarrow> string option \<Rightarrow> bool" where
  "in_step cd box file \<longleftrightarrow>
     (case box of None \<Rightarrow> file = None | Some ms \<Rightarrow> ms \<noteq> [] \<and> file = Some (lines_text cd ms))"

definition mirrored :: "mail_codec \<Rightarrow> string \<Rightarrow> mail_store \<times> mail_disk \<Rightarrow> bool" where
  "mirrored cd dir st \<longleftrightarrow>
     ms_dir (fst st) = Some dir \<and>
     (\<forall>p. relative_name p \<longrightarrow> in_step cd (ms_boxes (fst st) p) (snd st (mail_file dir p)))"

lemma mirrored_post:
  assumes "mirrored cd dir st" "relative_name p"
  shows "mirrored cd dir (post_to cd True p x st)"
  unfolding mirrored_def
proof (intro conjI allI impI)
  obtain m disk where st: "st = (m, disk)" by fastforce
  have dir: "ms_dir m = Some dir" using assms(1) by (simp add: mirrored_def st)
  then show "ms_dir (fst (post_to cd True p x st)) = Some dir" by (simp add: st post_to_def send_mail_def Let_def)
  fix q :: string
  assume q: "relative_name q"
  have here: "in_step cd (ms_boxes m q) (disk (mail_file dir q))" using assms(1) q by (simp add: mirrored_def st)
  show "in_step cd (ms_boxes (fst (post_to cd True p x st)) q) (snd (post_to cd True p x st) (mail_file dir q))"
  proof (cases "q = p")
    case True
    then show ?thesis
      using here dir
      by (cases "ms_boxes m p")
         (simp_all add: in_step_def st post_to_def send_mail_def box_of_def Let_def append_line_def lines_text_snoc,
          simp add: lines_text_def)
  next
    case False
    then show ?thesis
      using here dir mail_file_inj[OF q assms(2)]
      by (simp add: st post_to_def send_mail_def Let_def append_line_def)
  qed
qed

lemma mirrored_take:
  assumes "mirrored cd dir st" "relative_name p" "take_from cd True p n st = (xs, st')"
  shows "mirrored cd dir st'"
proof -
  obtain m disk where st: "st = (m, disk)" by fastforce
  show ?thesis
  proof (cases "ms_boxes m p")
    case None
    then show ?thesis using assms(1,3) by (simp add: st take_from_def drain_mail_def)
  next
    case (Some ms)
    have dir: "ms_dir m = Some dir" using assms(1) by (simp add: mirrored_def st)
    have other: "mail_file dir q \<noteq> mail_file dir p" if "q \<noteq> p" "relative_name q" for q
      using that mail_file_inj[OF that(2) assms(2)] by simp
    have here: "in_step cd (ms_boxes m q) (disk (mail_file dir q))" if "relative_name q" for q
      using assms(1) that by (simp add: mirrored_def st)
    let ?rest = "drop (min n (length ms)) ms"
    have st': "st' = (m\<lparr>ms_boxes := (ms_boxes m)(p := if ?rest = [] then None else Some ?rest)\<rparr>,
        disk(mail_file dir p := if ?rest = [] then None else Some (lines_text cd ?rest)))"
      using assms(3) dir by (auto simp: st take_from_def drain_mail_def Some Let_def mail_text_lines)
    show ?thesis
      unfolding mirrored_def st' using dir other here by (auto simp: in_step_def)
  qed
qed

definition op_peer :: "('p, 'a) mail_op \<Rightarrow> 'p" where
  "op_peer op = (case op of Post p _ \<Rightarrow> p | Take p _ \<Rightarrow> p)"

lemma mirrored_run:
  assumes "\<forall>op\<in>set ops. relative_name (op_peer op)" "mirrored cd dir st"
    and "office_run (post_to cd True) (take_from cd True) ops st = (got, st')"
  shows "mirrored cd dir st'"
  using assms
proof (induction ops arbitrary: st got)
  case (Cons op ops)
  show ?case
  proof (cases op)
    case (Post p x)
    then show ?thesis using Cons mirrored_post[OF Cons.prems(2), of p x] by (simp add: op_peer_def)
  next
    case (Take p n)
    obtain xs s1 where take: "take_from cd True p n st = (xs, s1)" by (meson surj_pair)
    obtain got1 s2 where run: "office_run (post_to cd True) (take_from cd True) ops s1 = (got1, s2)" by (meson surj_pair)
    have "mirrored cd dir s1"
      by (rule mirrored_take[OF Cons.prems(2) _ take]) (use Cons.prems(1) Take in \<open>simp add: op_peer_def\<close>)
    then show ?thesis using Cons.IH[of s1 got1] Cons.prems Take take run by simp
  qed
qed simp

lemma loaded_boxes:
  "foldl (load_box cd dir disk) b peers p =
     (if p \<in> set peers
      then (case disk (mail_file dir p) of
              None \<Rightarrow> b p
            | Some txt \<Rightarrow> (if read_mail_lines cd txt = [] then b p else Some (read_mail_lines cd txt)))
      else b p)"
  by (induction peers arbitrary: b) (auto simp: load_box_def Let_def split: option.splits)


section \<open>Samples and gaps\<close>

definition sample_mail :: mail where
  "sample_mail = \<lparr>ml_from = ''a'', ml_timestamp_ms = 7, ml_content = ''hello''\<rparr>"

instance mail_ext :: (countable) countable
  by (rule countable_classI [of "\<lambda>r. to_nat (ml_from r, ml_timestamp_ms r, ml_content r, mail.more r)"])
    (auto intro: mail.equality)

definition tally_mail :: mail_codec where
  "tally_mail = \<lparr>mc_enc = (\<lambda>m. replicate (to_nat m) CHR ''1''), mc_dec = (\<lambda>l. Some (from_nat (length l)))\<rparr>"

lemma tally_mail_ok: "mail_codec_ok tally_mail"
proof -
  have "last (replicate (to_nat m) CHR ''1'') \<noteq> CHR 0x0D" if "0 < to_nat m" for m :: mail
    using last_in_set[of "replicate (to_nat m) CHR ''1''"] that by auto
  then show ?thesis by (auto simp: mail_codec_ok_def tally_mail_def drop_cr_def)
qed

lemma mail_is_fifo_witness:
  "got_by ''b'' [(''b'', sample_mail)] @ held_in (snd (office_run (post_to tally_mail True) (take_from tally_mail True)
      [Post ''b'' sample_mail, Post ''b'' sample_mail, Take ''b'' 1] (mailbox_new [], \<lambda>_. None))) ''b''
   = [sample_mail, sample_mail]"
proof -
  let ?ops = "[Post ''b'' sample_mail, Post ''b'' sample_mail, Take ''b'' 1]"
  let ?run = "office_run (post_to tally_mail True) (take_from tally_mail True) ?ops (mailbox_new [], \<lambda>_. None)"
  have "?run = (fst ?run, snd ?run)" by simp
  from mail_is_fifo[OF this, of "''b''"]
  have "got_by ''b'' (fst ?run) @ held_in (snd ?run) ''b'' = sent_to ''b'' ?ops" .
  moreover have "fst ?run = [(''b'', sample_mail)]"
    by (simp add: post_to_def take_from_def mailbox_new_def send_mail_def drain_mail_def box_of_def sample_mail_def Let_def)
  moreover have "sent_to ''b'' ?ops = [sample_mail, sample_mail]" by (simp add: sent_to_def List.map_filter_simps)
  ultimately show ?thesis by (simp only:)
qed


text \<open>Mail to an agent that is not listed is written and not read back.\<close>

lemma unlisted_mail_is_lost:
  "box_of (with_persistence cd [''a''] dir (\<lambda>_. Some txt)) ''b'' = []"
  using loaded_boxes[of cd dir "\<lambda>_. Some txt" "\<lambda>_. None" "[''a'']" "''b''"] by (simp add: box_of_def with_persistence_def)

text \<open>The call that the tool's own description gives as its example is refused, and \<open>*\<close> is an agent's name, not everybody.\<close>

lemma documented_send_is_refused:
  "validate_send err (JObject [(''to'', JString ''researcher''), (''summary'', JString ''s''), (''message'', JString ''m'')])
     = VErr (''invalid input: '' @ err) 3"
  by (simp add: validate_send_def send_input_of_def get_str_def)

lemma star_reaches_nobody:
  "box_of (fst (send_mail cd ''lead'' ''*'' ''hi'' 0 True (mailbox_new [''a'', ''b''], disk))) ''a'' = []"
  by (simp add: send_mail_def mailbox_new_def box_of_def)

text \<open>The name of the addressee chooses the file: it may lie anywhere.\<close>

lemma mail_escapes_directory:
  "mail_file ''/p/mailbox'' ''/etc/cron'' = ''/etc/cron.jsonl''"
  "normalize (path_of (mail_file ''/p/mailbox'' ''../../x'')) = [RootDir, Normal ''x.jsonl'']"
  by code_simp+

text \<open>The poller takes plain text from the mailbox and drops it.\<close>

lemma poller_drops_plain_mail:
  "let (handled, m, disk) = poll_tick cd (\<lambda>_. None) ''lead'' 100 True
         (fst (send_mail cd ''a'' ''lead'' ''done'' 0 True (mailbox_new [], \<lambda>_. None)), \<lambda>_. None)
   in handled = [] \<and> box_of m ''lead'' = []"
  by (simp add: poll_tick_def drain_mail_def send_mail_def mailbox_new_def box_of_def List.map_filter_simps Let_def)

end
