(* ===== verification/TeamProps.thy ===== *)
theory TeamProps
  imports Coordinator MailboxProps HistoryProps Lossless
begin

text \<open>
  Teams: the record of events is bounded and ends with the newest, a team's grant is the first one given, a run
  fails exactly when a member failed and writes its events in order, and a bridge permits only what was decided.
\<close>

section \<open>The record of events\<close>

definition event_codec_ok :: "event_envelope text_codec \<Rightarrow> bool" where
  "event_codec_ok cd \<longleftrightarrow>
     (\<forall>en. CHR 0x0A \<notin> set (tc_print cd en) \<and> drop_cr (tc_print cd en) = tc_print cd en
           \<and> trim (tc_print cd en) \<noteq> [] \<and> tc_parse cd (tc_print cd en) = Some en)"

definition log_text :: "event_envelope text_codec \<Rightarrow> event_envelope list \<Rightarrow> string" where
  "log_text cd ens = concat (map (\<lambda>en. tc_print cd en @ newline) ens)"

text \<open>What the file means: a list that a long one replaces by a marker and its newest entries.\<close>

definition log_append :: "string \<Rightarrow> nat \<Rightarrow> event_envelope \<Rightarrow> event_envelope list \<Rightarrow> event_envelope list" where
  "log_append now n en ens =
     (let all' = ens @ [en]; dropped = length all' - truncate_target n in
      if length all' \<le> n then all'
      else \<lparr>en_ts = now, en_event = Truncated dropped ''max_entries''\<rparr> # drop dropped all')"

lemma log_text_snoc: "log_text cd (ens @ [en]) = log_text cd ens @ tc_print cd en @ [CHR 0x0A]"
  by (simp add: log_text_def newline_def)

lemma log_text_complete: "complete_log (log_text cd ens)"
  by (induction ens rule: rev_induct) (simp_all add: complete_log_def log_text_snoc, simp add: log_text_def)

lemma log_text_lines:
  assumes "event_codec_ok cd"
  shows "text_lines (log_text cd ens) = map (tc_print cd) ens"
proof (induction ens rule: rev_induct)
  case (snoc en ens)
  have c: "CHR 0x0A \<notin> set (tc_print cd en)" "drop_cr (tc_print cd en) = tc_print cd en"
    using assms by (simp_all add: event_codec_ok_def)
  from snoc text_lines_snoc [OF log_text_complete c(1)] c(2) show ?case by (simp add: log_text_snoc)
qed (simp add: log_text_def text_lines_def)

lemma append_refines:
  assumes "event_codec_ok cd" "fs ''events.jsonl'' = Some (log_text cd ens) \<or> fs ''events.jsonl'' = None \<and> ens = []"
  shows "append_team_event cd now n ev fs ''events.jsonl''
    = Some (log_text cd (log_append now n \<lparr>en_ts = now, en_event = ev\<rparr> ens))"
proof -
  let ?en = "\<lparr>en_ts = now, en_event = ev\<rparr>"
  have old: "(case fs ''events.jsonl'' of Some txt \<Rightarrow> txt | None \<Rightarrow> []) @ tc_print cd ?en @ newline
      = log_text cd (ens @ [?en])"
    using assms(2) by (auto simp: log_text_snoc newline_def log_text_def)
  have lines: "text_lines (log_text cd (ens @ [?en])) = map (tc_print cd) (ens @ [?en])"
    by (rule log_text_lines [OF assms(1)])
  have concat: "concat (map (\<lambda>l. l @ newline) (map (tc_print cd) xs)) = log_text cd xs" for xs
    by (simp add: log_text_def comp_def)
  have cons: "log_text cd (x # xs) = tc_print cd x @ newline @ log_text cd xs" for x xs
    by (simp add: log_text_def)
  show ?thesis
    unfolding append_team_event_def Let_def old maybe_truncate_events_def lines log_append_def
    by (simp add: drop_map concat [unfolded map_map] cons del: drop_append map_append)
qed

lemma read_refines:
  assumes "event_codec_ok cd" "fs ''events.jsonl'' = Some (log_text cd ens)"
  shows "read_events cd fs = ens"
proof -
  have "List.map_filter (\<lambda>l. if trim l = [] then None else tc_parse cd l) (map (tc_print cd) xs) = xs" for xs
    using assms(1) by (induction xs) (simp_all add: List.map_filter_simps event_codec_ok_def)
  then show ?thesis by (simp add: read_events_def assms(2) log_text_lines [OF assms(1)])
qed

lemma envelope_eta [simp]: "\<lparr>en_ts = en_ts en, en_event = en_event en\<rparr> = en"
  by (cases en) simp

text \<open>A sequence of appends, each at its time, from a directory that has no record.\<close>

definition log_all ::
  "event_envelope text_codec \<Rightarrow> nat \<Rightarrow> event_envelope list \<Rightarrow> team_files" where
  "log_all cd n ens = foldl (\<lambda>fs en. append_team_event cd (en_ts en) n (en_event en) fs) (\<lambda>_. None) ens"

definition kept_log :: "nat \<Rightarrow> event_envelope list \<Rightarrow> event_envelope list" where
  "kept_log n ens = foldl (\<lambda>log en. log_append (en_ts en) n en log) [] ens"

lemma log_all_refines:
  assumes "event_codec_ok cd" "ens \<noteq> []"
  shows "log_all cd n ens ''events.jsonl'' = Some (log_text cd (kept_log n ens))"
  using assms(2)
proof (induction ens rule: rev_induct)
  case (snoc en ens)
  have "log_all cd n ens ''events.jsonl'' = Some (log_text cd (kept_log n ens))
      \<or> log_all cd n ens ''events.jsonl'' = None \<and> kept_log n ens = []"
    using snoc.IH by (cases "ens = []") (simp_all add: log_all_def kept_log_def)
  from append_refines [where fs = "log_all cd n ens" and ens = "kept_log n ens", OF assms(1) this, of "en_ts en" n "en_event en"]
  show ?case by (simp add: log_all_def kept_log_def)
qed simp

lemma target_le: "0 < n \<Longrightarrow> truncate_target n \<le> n" "truncate_target 0 = 1" "1 < n \<Longrightarrow> truncate_target n < n"
  by (auto simp: truncate_target_def TRUNCATE_TARGET_RATIO_def)

lemma log_append_bound: "length (log_append now n en ens) \<le> max n 2"
proof (cases "length (ens @ [en]) \<le> n")
  case False
  then have "length (log_append now n en ens) = Suc (length (ens @ [en]) - (length (ens @ [en]) - truncate_target n))"
    by (simp add: log_append_def Let_def)
  also have "\<dots> \<le> Suc (truncate_target n)" by simp
  also have "\<dots> \<le> max n 2" using target_le(3) [of n] by (cases "n \<le> 1") (auto simp: truncate_target_def TRUNCATE_TARGET_RATIO_def le_Suc_eq)
  finally show ?thesis .
qed (simp add: log_append_def Let_def)

lemma log_append_last: "last (log_append now n en ens) = en \<and> log_append now n en ens \<noteq> []"
proof -
  have "1 \<le> truncate_target n" by (simp add: truncate_target_def)
  then have "length (ens @ [en]) - truncate_target n < length (ens @ [en])" by simp
  then have "drop (length (ens @ [en]) - truncate_target n) (ens @ [en]) \<noteq> []
      \<and> last (drop (length (ens @ [en]) - truncate_target n) (ens @ [en])) = last (ens @ [en])"
    by (metis drop_eq_Nil last_drop leD)
  then show ?thesis by (auto simp: log_append_def Let_def)
qed

definition is_marker :: "event_envelope \<Rightarrow> bool" where
  "is_marker en = (case en_event en of Truncated _ _ \<Rightarrow> True | _ \<Rightarrow> False)"

lemma kept_log_shape:
  "kept_log n ens = ens \<and> length ens \<le> n \<or> (\<exists>m k. is_marker m \<and> kept_log n ens = m # drop k ens \<and> ens \<noteq> [])"
proof (induction ens rule: rev_induct)
  case (snoc en ens)
  let ?log = "kept_log n ens"
  have step: "kept_log n (ens @ [en]) = log_append (en_ts en) n en ?log" by (simp add: kept_log_def)
  show ?case
  proof (cases "length (?log @ [en]) \<le> n")
    case True
    then have eq: "kept_log n (ens @ [en]) = ?log @ [en]" by (simp add: step log_append_def)
    from snoc.IH show ?thesis
    proof
      assume "?log = ens \<and> length ens \<le> n"
      with True eq show ?thesis by simp
    next
      assume "\<exists>m k. is_marker m \<and> ?log = m # drop k ens \<and> ens \<noteq> []"
      then obtain m k where mk: "is_marker m" "?log = m # drop k ens" by blast
      have "drop (min k (length ens)) (ens @ [en]) = drop k ens @ [en]" by (cases "k \<le> length ens") simp_all
      with mk have "is_marker m \<and> kept_log n (ens @ [en]) = m # drop (min k (length ens)) (ens @ [en])"
        unfolding eq by simp
      then show ?thesis by blast
    qed
  next
    case False
    define d where "d = length (?log @ [en]) - truncate_target n"
    let ?m = "\<lparr>en_ts = en_ts en, en_event = Truncated d ''max_entries''\<rparr>"
    from False have eq: "kept_log n (ens @ [en]) = ?m # drop d (?log @ [en])"
      by (simp add: step log_append_def Let_def d_def)
    have m: "is_marker ?m" by (simp add: is_marker_def)
    from snoc.IH show ?thesis
    proof
      assume "?log = ens \<and> length ens \<le> n"
      with eq m show ?thesis by auto
    next
      assume "\<exists>m k. is_marker m \<and> ?log = m # drop k ens \<and> ens \<noteq> []"
      then obtain m k where mk: "?log = m # drop k ens" by blast
      have "1 \<le> d"
        using False target_le(1) [of n] target_le(2) mk by (cases "n = 0") (auto simp: d_def)
      then obtain d' where d': "d = Suc d'" by (cases d) auto
      have "drop d (?log @ [en]) = drop d' (drop (min k (length ens)) (ens @ [en]))"
        by (cases "k \<le> length ens") (simp_all add: mk d')
      then have "kept_log n (ens @ [en]) = ?m # drop (min k (length ens) + d') (ens @ [en])"
        unfolding eq by (simp add: add.commute)
      with m show ?thesis by blast
    qed
  qed
qed (simp add: kept_log_def)

text \<open>
  C1. After any number of appends the record reads back as all the events, while they fit, and otherwise as a
  marker and a run of the newest; it never has more entries than the limit, or than two, and ends with the newest.
\<close>

theorem event_record_is_bounded:
  assumes "event_codec_ok cd" "ens \<noteq> []"
  shows "(read_events cd (log_all cd n ens) = ens \<and> length ens \<le> n
       \<or> (\<exists>m k. is_marker m \<and> read_events cd (log_all cd n ens) = m # drop k ens))
    \<and> length (read_events cd (log_all cd n ens)) \<le> max n 2
    \<and> last (read_events cd (log_all cd n ens)) = last ens"
proof -
  have read: "read_events cd (log_all cd n ens) = kept_log n ens"
    using assms(1) log_all_refines [OF assms] by (rule read_refines)
  obtain front en where ens: "ens = front @ [en]" using assms(2) by (cases ens rule: rev_cases) auto
  have "kept_log n ens = log_append (en_ts en) n en (kept_log n front)" by (simp add: kept_log_def ens)
  then have "length (kept_log n ens) \<le> max n 2" "last (kept_log n ens) = last ens"
    using log_append_bound log_append_last by (simp_all add: ens)
  then show ?thesis unfolding read using kept_log_shape [of n ens] by blast
qed


instance team_status :: countable by countable_datatype
instance team_event :: countable by countable_datatype

instance event_envelope_ext :: (countable) countable
  by (rule countable_classI [of "\<lambda>en. to_nat (en_ts en, en_event en, event_envelope.more en)"])
     (auto intro: event_envelope.equality)

definition tally_events :: "event_envelope text_codec" where
  "tally_events = \<lparr>tc_print = (\<lambda>en. replicate (Suc (to_nat en)) CHR ''1''),
                   tc_parse = (\<lambda>l. Some (from_nat (length l - 1)))\<rparr>"

lemma tally_events_ok: "event_codec_ok tally_events"
proof -
  have one: "\<not> is_whitespace CHR ''1''" by (simp add: is_whitespace_def whitespace_chars_def char_code_def)
  have "trim (replicate (Suc k) CHR ''1'') = replicate (Suc k) CHR ''1''" for k
    using one by (intro trim_id) (simp del: replicate_Suc add: last_replicate)
  then have "trim (replicate (Suc k) CHR ''1'') \<noteq> []" for k by simp
  then show ?thesis
    by (simp add: event_codec_ok_def tally_events_def drop_cr_def del: replicate_Suc)
qed

definition sample_event :: "string \<Rightarrow> event_envelope" where
  "sample_event l = \<lparr>en_ts = [], en_event = MemberCompletedEvent l False\<rparr>"

lemma event_record_is_bounded_witness:
  "length (read_events tally_events (log_all tally_events 3 (map sample_event [''a'', ''b'', ''c'', ''d'', ''e'']))) \<le> 3
   \<and> last (read_events tally_events (log_all tally_events 3 (map sample_event [''a'', ''b'', ''c'', ''d'', ''e'']))) = sample_event ''e''"
  using event_record_is_bounded [OF tally_events_ok, of "map sample_event [''a'', ''b'', ''c'', ''d'', ''e'']" 3] by simp

text \<open>
  The count of a marker is that of one cut: what earlier cuts dropped, and the marker they left, are not in it.
  After five events and two cuts the record lacks three of them and says two.
\<close>

theorem dropped_counts_are_lost:
  "map en_event (kept_log 3 (map sample_event [''a'', ''b'', ''c'', ''d'', ''e'']))
   = [Truncated 2 ''max_entries'', MemberCompletedEvent ''d'' False, MemberCompletedEvent ''e'' False]"
  by code_simp

text \<open>A limit of one is exceeded for good: every append leaves two entries.\<close>

theorem limit_of_one_is_exceeded:
  "length (kept_log 1 (map sample_event [''a'', ''b'', ''c''])) = 2"
  by code_simp

section \<open>The table of teams\<close>

datatype registry_op =
    Upsert team_info
  | Remove string
  | Member string string teammate_lifecycle "nat option"
  | Grant string settings_mode

fun registry_step :: "nat \<Rightarrow> registry_op \<Rightarrow> team_table \<Rightarrow> team_table" where
  "registry_step now (Upsert i) ts = registry_upsert i ts"
| "registry_step now (Remove n) ts = snd (registry_remove n ts)"
| "registry_step now (Member t l c i) ts = update_member_lifecycle now t l c i ts"
| "registry_step now (Grant t m) ts = set_team_permission_mode_if_absent now t m ts"

definition replaces :: "string \<Rightarrow> registry_op \<Rightarrow> bool" where
  "replaces team op = (case op of Upsert i \<Rightarrow> ti_name i = team | Remove n \<Rightarrow> n = team | _ \<Rightarrow> False)"

lemma table_update [simp]: "map_of (AList.update k v ts) = (map_of ts)(k \<mapsto> v)" for ts :: team_table
  by (rule update_conv')

lemma table_delete [simp]: "map_of (AList.delete k ts) = (map_of ts)(k := None)" for ts :: team_table
  by (simp add: delete_conv')

lemma grant_kept:
  assumes "team_permission_mode ts team = Some m" "\<not> replaces team op"
  shows "team_permission_mode (registry_step now op ts) team = Some m"
  using assms
  by (cases op)
     (auto simp: team_permission_mode_def replaces_def registry_upsert_def registry_remove_def update_member_lifecycle_def
        set_team_permission_mode_if_absent_def minimal_team_def bind_eq_Some_conv split: option.splits)

lemma grant_given:
  assumes "team_permission_mode ts team = None"
  shows "team_permission_mode (set_team_permission_mode_if_absent now team m ts) team = Some m"
  using assms
  by (auto simp: team_permission_mode_def set_team_permission_mode_if_absent_def minimal_team_def split: option.splits)

text \<open>
  C1. One team, one authorization: the first grant given to a team is the one it has, whatever grants, members and
  other teams follow, until the team itself is replaced or removed.
\<close>

theorem first_grant_stays:
  assumes "team_permission_mode ts team = None" "\<forall>op\<in>set ops. \<not> replaces team (snd op)"
  shows "team_permission_mode
      (foldl (\<lambda>ts (now, op). registry_step now op ts) (set_team_permission_mode_if_absent now team m ts) ops) team = Some m"
proof -
  have "team_permission_mode ts' team = Some m \<Longrightarrow> \<forall>op\<in>set ops. \<not> replaces team (snd op) \<Longrightarrow>
      team_permission_mode (foldl (\<lambda>ts (now, op). registry_step now op ts) ts' ops) team = Some m" for ts' ops
    by (induction ops arbitrary: ts') (auto simp: grant_kept)
  then show ?thesis using grant_given [OF assms(1)] assms(2) by blast
qed

lemma first_grant_stays_witness:
  "team_permission_mode
     (foldl (\<lambda>ts (now, op). registry_step now op ts) (set_team_permission_mode_if_absent 0 ''t'' SPlan [])
       [(1, Grant ''t'' SBypassPermissions), (2, Member ''t'' ''w'' MemberActive None), (3, Remove ''u'')]) ''t'' = Some SPlan"
  using first_grant_stays [of "[]" "''t''" "[(1, Grant ''t'' SBypassPermissions), (2, Member ''t'' ''w'' MemberActive None), (3, Remove ''u'')]" 0 SPlan]
  by (simp add: team_permission_mode_def replaces_def)

text \<open>A batch run under the name of a team with a grant forgets the grant, and the members it had.\<close>

theorem batch_run_drops_grant:
  "case orchestrate e True now mode name stages scratchpad (Some ts) of
     (_, table) \<Rightarrow> map_option (\<lambda>ts'. team_permission_mode ts' name) table = Some None"
  by (simp add: orchestrate_def Let_def registry_upsert_def team_permission_mode_def)

lemma str_le_total: "str_le a b \<or> str_le b a"
  by (induction a b rule: str_le.induct) (auto simp: char_code_def)

lemma str_le_trans: "str_le a b \<Longrightarrow> str_le b c \<Longrightarrow> str_le a c"
proof (induction a b arbitrary: c rule: str_le.induct)
  case (3 a as b bs)
  then show ?case by (cases c) auto
qed auto

lemma registry_list_sorted:
  "sorted_wrt (\<lambda>a b. str_le (ti_name a) (ti_name b)) (registry_list ts) \<and> set (registry_list ts) = snd ` set ts"
proof
  show "sorted_wrt (\<lambda>a b. str_le (ti_name a) (ti_name b)) (registry_list ts)"
    unfolding registry_list_def by (rule sorted_sort_by) (use str_le_total str_le_trans in blast)+
qed (simp add: registry_list_def)


section \<open>Runs\<close>

lemma note_event_simps [simp]:
  "ru_events (note_event e ev r) = ru_events r @ [ev]"
  "ru_lifecycles (note_event e ev r) = ru_lifecycles r"
  "ru_any_err (note_event e ev r) = ru_any_err r"
  "ru_progress (note_event e ev r) = ru_progress r"
  by (simp_all add: note_event_def)

lemma note_state_simps [simp]:
  "ru_events (note_state e i s r) = ru_events r"
  "ru_lifecycles (note_state e i s r) = ru_lifecycles r"
  "ru_any_err (note_state e i s r) = ru_any_err r"
  "ru_progress (note_state e i s r) = ru_progress r"
  by (simp_all add: note_state_def Let_def)

lemma emit_progress_simps [simp]:
  "ru_events (emit_progress p r) = ru_events r"
  "ru_lifecycles (emit_progress p r) = ru_lifecycles r"
  "ru_any_err (emit_progress p r) = ru_any_err r"
  "ru_progress (emit_progress p r) = ru_progress r @ [p]"
  by (simp_all add: emit_progress_def)

lemma mark_members_simps [simp]:
  "ru_events (mark_members c as r) = ru_events r"
  "ru_any_err (mark_members c as r) = ru_any_err r"
  "ru_progress (mark_members c as r) = ru_progress r"
  by (simp_all add: mark_members_def)

definition lifecycle_of :: "team_run \<Rightarrow> string \<Rightarrow> teammate_lifecycle option" where
  "lifecycle_of r l = map_of (ru_lifecycles r) l"

lemma map_of_marks:
  "map_of (foldl (\<lambda>ls a. AList.update (ag_label a) c ls) ls as) l = (if l \<in> ag_label ` set as then Some c else map_of ls l)"
  by (induction as arbitrary: ls) (auto simp: update_conv')

lemma lifecycle_mark [simp]:
  "lifecycle_of (mark_members c as r) l = (if l \<in> ag_label ` set as then Some c else lifecycle_of r l)"
  by (simp add: lifecycle_of_def mark_members_def map_of_marks)

lemma lifecycle_other [simp]:
  "lifecycle_of (note_event e ev r) = lifecycle_of r" "lifecycle_of (note_state e i s r) = lifecycle_of r"
  "lifecycle_of (emit_progress p r) = lifecycle_of r" "lifecycle_of (r\<lparr>ru_any_err := b\<rparr>) = lifecycle_of r"
  "lifecycle_of (r\<lparr>ru_scratch := x\<rparr>) = lifecycle_of r"
  by (simp_all add: lifecycle_of_def fun_eq_iff)

lemma spawn_fold:
  fixes e r as
  defines "r' \<equiv> foldl (\<lambda>r a. note_event e (MemberSpawned (ag_label a) None None) (mark_members MemberActive [a] r)) r as"
  shows "ru_events r' = ru_events r @ map (\<lambda>a. MemberSpawned (ag_label a) None None) as"
    and "ru_any_err r' = ru_any_err r"
    and "lifecycle_of r' l = (if l \<in> ag_label ` set as then Some MemberActive else lifecycle_of r l)"
    and "ru_progress r' = ru_progress r"
  unfolding r'_def by (induction as arbitrary: r) auto

lemma complete_fold:
  fixes e r ss
  defines "r' \<equiv> foldl (\<lambda>r (l, t, err). note_event e (MemberCompletedEvent l err) (r\<lparr>ru_any_err := ru_any_err r \<or> err\<rparr>)) r ss"
  shows "ru_events r' = ru_events r @ map (\<lambda>(l, t, err). MemberCompletedEvent l err) ss"
    and "ru_any_err r' = (ru_any_err r \<or> (\<exists>s\<in>set ss. snd (snd s)))"
    and "lifecycle_of r' = lifecycle_of r"
    and "ru_progress r' = ru_progress r"
  unfolding r'_def by (induction ss arbitrary: r) auto

text \<open>The answers of a stage, which do not depend on what the run did before, and the events it writes.\<close>

definition stage_answers ::
  "orchestrate_env \<Rightarrow> settings_mode \<Rightarrow> string \<Rightarrow> string \<Rightarrow> string list \<Rightarrow> nat \<times> team_stage \<Rightarrow> section_of list" where
  "stage_answers e mode name sp names sis = fst (run_members e mode name sp names (fst sis) (snd sis) undefined)"

definition shown_answers ::
  "orchestrate_env \<Rightarrow> settings_mode \<Rightarrow> string \<Rightarrow> string \<Rightarrow> string list \<Rightarrow> nat \<times> team_stage \<Rightarrow> section_of list" where
  "shown_answers e mode name sp names sis =
     (let ss = stage_answers e mode name sp names sis in
      case sg_aggregate (snd sis) of
        Some m \<Rightarrow> (if ss = [] then ss else aggregate_sections (oe_judge e) m (sg_name (snd sis)) ss)
      | None \<Rightarrow> ss)"

definition stage_events ::
  "orchestrate_env \<Rightarrow> settings_mode \<Rightarrow> string \<Rightarrow> string \<Rightarrow> string list \<Rightarrow> nat \<times> team_stage \<Rightarrow> team_event list" where
  "stage_events e mode name sp names sis =
     (let labels = map ag_label (sg_agents (snd sis)) in
      [StageStarted (fst sis) (sg_name (snd sis)) labels]
      @ (if oe_spawn e = None then []
         else map (\<lambda>l. MemberSpawned l None None) labels
              @ map (\<lambda>(l, t, err). MemberCompletedEvent l err) (stage_answers e mode name sp names sis))
      @ [StageCompleted (fst sis) (failed_labels (shown_answers e mode name sp names sis))])"

lemma run_members_facts:
  assumes "run_members e mode name sp names si stage r = (ss, r')"
  shows "ss = stage_answers e mode name sp names (si, stage)"
    and "ru_events r' = ru_events r @
      (if oe_spawn e = None then []
       else map (\<lambda>l. MemberSpawned l None None) (map ag_label (sg_agents stage)) @ map (\<lambda>(l, t, err). MemberCompletedEvent l err) ss)"
    and "ru_any_err r' = (ru_any_err r \<or> (\<exists>s\<in>set ss. snd (snd s)))"
    and "lifecycle_of r' l =
      (if oe_spawn e \<noteq> None \<and> l \<in> ag_label ` set (sg_agents stage) then Some MemberCompleted else lifecycle_of r l)"
proof -
  have none: "ss = map (\<lambda>a. (ag_label a, unavailable_text, True)) (sg_agents stage)"
      "r' = r\<lparr>ru_any_err := ru_any_err r \<or> sg_agents stage \<noteq> []\<rparr>" if "oe_spawn e = None"
    using assms that by (simp_all add: run_members_def)
  let ?mid = "\<lambda>r. mark_members MemberCompleted (sg_agents stage) (note_state e si TeamRunning
      (foldl (\<lambda>r a. note_event e (MemberSpawned (ag_label a) None None) (mark_members MemberActive [a] r)) r (sg_agents stage)))"
  have some: "ss = member_results e mode name sp names si stage spawn"
      "r' = foldl (\<lambda>r (l, t, err). note_event e (MemberCompletedEvent l err) (r\<lparr>ru_any_err := ru_any_err r \<or> err\<rparr>)) (?mid r) ss"
    if "oe_spawn e = Some spawn" for spawn
    using assms that by (auto simp: run_members_def Let_def)
  have mid: "ru_events (?mid r) = ru_events r @ map (\<lambda>l. MemberSpawned l None None) (map ag_label (sg_agents stage))"
      "ru_any_err (?mid r) = ru_any_err r"
      "lifecycle_of (?mid r) l = (if l \<in> ag_label ` set (sg_agents stage) then Some MemberCompleted else lifecycle_of r l)"
    by (simp_all add: spawn_fold comp_def)
  show "ss = stage_answers e mode name sp names (si, stage)"
    using assms by (cases "oe_spawn e") (auto simp: run_members_def stage_answers_def Let_def)
  show "ru_events r' = ru_events r @
      (if oe_spawn e = None then []
       else map (\<lambda>l. MemberSpawned l None None) (map ag_label (sg_agents stage)) @ map (\<lambda>(l, t, err). MemberCompletedEvent l err) ss)"
  proof (cases "oe_spawn e")
    case None
    then show ?thesis using none by simp
  next
    case (Some spawn)
    show ?thesis unfolding some(2) [OF Some] complete_fold(1) mid(1) using Some by simp
  qed
  show "ru_any_err r' = (ru_any_err r \<or> (\<exists>s\<in>set ss. snd (snd s)))"
  proof (cases "oe_spawn e")
    case None
    then show ?thesis using none by (cases "sg_agents stage") auto
  next
    case (Some spawn)
    show ?thesis unfolding some(2) [OF Some] complete_fold(2) mid(2) ..
  qed
  show "lifecycle_of r' l =
      (if oe_spawn e \<noteq> None \<and> l \<in> ag_label ` set (sg_agents stage) then Some MemberCompleted else lifecycle_of r l)"
  proof (cases "oe_spawn e")
    case None
    then show ?thesis using none by simp
  next
    case (Some spawn)
    have "lifecycle_of r' l = lifecycle_of (?mid r) l" unfolding some(2) [OF Some] complete_fold(3) ..
    then show ?thesis unfolding mid(3) using Some by simp
  qed
qed

lemma run_stage_facts:
  assumes "r' = run_stage e mode name sp names sis r"
  shows "ru_events r' = ru_events r @ stage_events e mode name sp names sis"
    and "ru_any_err r' = (ru_any_err r \<or> (\<exists>s\<in>set (stage_answers e mode name sp names sis). snd (snd s)))"
    and "lifecycle_of r' l =
      (if oe_spawn e \<noteq> None \<and> l \<in> ag_label ` set (sg_agents (snd sis)) then Some MemberCompleted else lifecycle_of r l)"
proof -
  obtain si stage where sis: "sis = (si, stage)" by (cases sis)
  define p where "p = emit_progress \<lparr>tp_stage = sg_name stage, tp_stage_index = si, tp_stage_count = length names,
      tp_status = Started, tp_members = map ag_label (sg_agents stage), tp_failed = []\<rparr> r"
  define r1 where "r1 = note_event e (StageStarted si (sg_name stage) (map ag_label (sg_agents stage))) p"
  obtain ss r2 where rm: "run_members e mode name sp names si stage r1 = (ss, r2)" by fastforce
  note f = run_members_facts [OF rm]
  have shown: "(case sg_aggregate stage of
        Some m \<Rightarrow> (if ss = [] then ss else aggregate_sections (oe_judge e) m (sg_name stage) ss) | None \<Rightarrow> ss)
      = shown_answers e mode name sp names sis"
    unfolding shown_answers_def Let_def sis f(1) [symmetric] snd_conv ..
  have r': "r' = note_state e si TeamRunning (note_event e (StageCompleted si (failed_labels (shown_answers e mode name sp names sis)))
      (emit_progress \<lparr>tp_stage = sg_name stage, tp_stage_index = si, tp_stage_count = length names,
        tp_status = Finished, tp_members = map ag_label (sg_agents stage),
        tp_failed = failed_labels (shown_answers e mode name sp names sis)\<rparr>
      (r2\<lparr>ru_scratch := ru_scratch r2 @ stage_markdown si (sg_name stage) (shown_answers e mode name sp names sis)\<rparr>)))"
    unfolding assms run_stage_def sis Let_def prod.case r1_def [symmetric, unfolded p_def] rm shown [unfolded sis] by simp
  show "ru_events r' = ru_events r @ stage_events e mode name sp names sis"
    using f(1,2) by (simp add: r' r1_def p_def stage_events_def sis Let_def)
  show "ru_any_err r' = (ru_any_err r \<or> (\<exists>s\<in>set (stage_answers e mode name sp names sis). snd (snd s)))"
    using f(1,3) by (simp add: r' r1_def p_def sis)
  show "lifecycle_of r' l =
      (if oe_spawn e \<noteq> None \<and> l \<in> ag_label ` set (sg_agents (snd sis)) then Some MemberCompleted else lifecycle_of r l)"
    using f(4) [of l] by (simp add: r' r1_def p_def sis)
qed


lemma run_stages_facts:
  fixes e mode name sp names stages r
  defines "r' \<equiv> foldl (\<lambda>r sis. run_stage e mode name sp names sis r) r stages"
  shows "ru_events r' = ru_events r @ concat (map (stage_events e mode name sp names) stages)"
    and "ru_any_err r' = (ru_any_err r \<or> (\<exists>sis\<in>set stages. \<exists>s\<in>set (stage_answers e mode name sp names sis). snd (snd s)))"
    and "lifecycle_of r' l =
      (if oe_spawn e \<noteq> None \<and> l \<in> ag_label ` set (concat (map (sg_agents \<circ> snd) stages)) then Some MemberCompleted
       else lifecycle_of r l)"
proof -
  note f = run_stage_facts [OF refl]
  show "ru_events r' = ru_events r @ concat (map (stage_events e mode name sp names) stages)"
    unfolding r'_def by (induction stages arbitrary: r) (simp_all add: f(1))
  show "ru_any_err r' = (ru_any_err r \<or> (\<exists>sis\<in>set stages. \<exists>s\<in>set (stage_answers e mode name sp names sis). snd (snd s)))"
    unfolding r'_def by (induction stages arbitrary: r) (simp_all add: f(2) disj_assoc)
  show "lifecycle_of r' l =
      (if oe_spawn e \<noteq> None \<and> l \<in> ag_label ` set (concat (map (sg_agents \<circ> snd) stages)) then Some MemberCompleted
       else lifecycle_of r l)"
    unfolding r'_def by (induction stages arbitrary: r) (auto simp: f(3))
qed



definition sample_team :: orchestrate_env where
  "sample_team =
     \<lparr>oe_id = ''team-x-1'', oe_cwd = ''/p'', oe_session_id = ''s'', oe_scene = None, oe_clock = (\<lambda>_. []),
      oe_spawn = Some (\<lambda>si ai q. if ai = 0 then Inl ''boom'' else Inr ''done''), oe_judge = (\<lambda>_ _. None),
      oe_fixed_prompt = (\<lambda>_ _. ''## Your Role''), oe_mode_text = (\<lambda>_. ''plan''), oe_events = tally_events,
      oe_states = \<lparr>tc_print = (\<lambda>_. []), tc_parse = (\<lambda>_. None)\<rparr>, oe_decls = \<lparr>tc_print = (\<lambda>_. []), tc_parse = (\<lambda>_. None)\<rparr>\<rparr>"

definition sample_stage :: "aggregate_mode option \<Rightarrow> team_stage" where
  "sample_stage mode =
     \<lparr>sg_name = ''look'', sg_agents = [\<lparr>ag_label = ''a'', ag_prompt = [], ag_agent_type = None\<rparr>,
                                      \<lparr>ag_label = ''b'', ag_prompt = [], ag_agent_type = None\<rparr>], sg_aggregate = mode\<rparr>"

lemma sample_answers:
  "stage_answers sample_team m ''x'' sp names (i, sample_stage mode) = [(''a'', ''ERROR: boom'', True), (''b'', ''done'', False)]"
  by (simp add: stage_answers_def run_members_def sample_team_def sample_stage_def member_results_def Let_def)

lemma orchestrate_answers: "\<exists>r answer err. fst (orchestrate e True now mode name stages scratchpad table) = Inr (r, answer, err)"
  by (simp add: orchestrate_def Let_def)


text \<open>
  A stage whose results are merged reports no failure, whatever its members answered: the list of the failed is made
  from the merged section.  The flag of the whole run still says failed.
\<close>

theorem merged_failure_is_hidden:
  assumes "sg_aggregate stage = Some Aggregate"
  shows "last (ru_events (run_stage e m name sp names (si, stage) r)) = StageCompleted si []"
proof -
  have "failed_labels (shown_answers e m name sp names (si, stage)) = []"
  proof (cases "stage_answers e m name sp names (si, stage) = []")
    case True
    then show ?thesis by (simp add: shown_answers_def assms failed_labels_def)
  next
    case False
    then show ?thesis
      by (simp add: shown_answers_def assms Let_def aggregate_sections_def failed_labels_def cong del: if_weak_cong)
  qed
  then show ?thesis by (simp add: run_stage_facts(1) [OF refl] stage_events_def Let_def)
qed

text \<open>
  The last heading of a scratchpad need not be a stage: before the first stage it is a heading of the coordinator's
  own prompt, and after one it may be a heading of a member's answer.
\<close>

theorem checkpoint_is_any_heading:
  "last_checkpoint (''# Team'' @ newline @ ''## Example Session'' @ newline) = ''Example Session''
   \<and> last_checkpoint (''# Team'' @ newline @ stage_markdown 0 ''look'' [(''a'', ''## Notes'', False)]) = ''Notes''"
proof -
  have lines: "filter (prefix ''## '') (text_lines (''# Team'' @ newline @ ''## Example Session'' @ newline)) = [''## Example Session'']"
    "filter (prefix ''## '') (text_lines (''# Team'' @ newline @ stage_markdown 0 ''look'' [(''a'', ''## Notes'', False)]))
     = [''## 1_look'', ''## Notes'']"
    by code_simp+
  have strip: "strip_all ''## '' ''## Example Session'' = ''Example Session''" "strip_all ''## '' ''## Notes'' = ''Notes''"
    by (simp_all add: strip_all.simps)
  have "trim ''Example Session'' = ''Example Session''" "trim ''Notes'' = ''Notes''" by code_simp+
  then show ?thesis unfolding last_checkpoint_def lines by (simp add: strip)
qed

section \<open>Bridges\<close>

datatype bridge_op = AskPerm nat string string | Decide string bool | TimeOut nat

fun bridge_step ::
  "mail_codec \<Rightarrow> (json \<Rightarrow> string) \<Rightarrow> bridge_op \<Rightarrow> bridge \<times> mail_store \<times> mail_disk \<Rightarrow> bridge \<times> mail_store \<times> mail_disk" where
  "bridge_step cd show_json (AskPerm k i tool) bst = bridge_check cd show_json 0 True k i tool bst"
| "bridge_step cd show_json (Decide i allowed) (b, st) = (receive_decision i allowed b, st)"
| "bridge_step cd show_json (TimeOut k) (b, st) = (bridge_timeout k b, st)"

definition bridge_run ::
  "mail_codec \<Rightarrow> (json \<Rightarrow> string) \<Rightarrow> bridge_op list \<Rightarrow> bridge \<times> mail_store \<times> mail_disk \<Rightarrow> bridge \<times> mail_store \<times> mail_disk" where
  "bridge_run cd show_json ops bst = foldl (\<lambda>bst op. bridge_step cd show_json op bst) bst ops"

text \<open>Who waits on a channel has asked under its id; a permit was for a safe tool, or decided after the question.\<close>

definition bridge_ok :: "bridge_op list \<Rightarrow> bridge \<Rightarrow> bool" where
  "bridge_ok ops b \<longleftrightarrow>
     distinct (map fst (br_answers b))
     \<and> (\<forall>i k. br_channels b i = Some k \<longrightarrow> (\<exists>tool. AskPerm k i tool \<in> set ops))
     \<and> (\<forall>k. (k, BridgePermit) \<in> set (br_answers b) \<longrightarrow>
          (\<exists>i tool. AskPerm k i tool \<in> set ops \<and>
             (tool \<in> set safe_tools \<or> subseq [AskPerm k i tool, Decide i True] ops)))"

lemma answer_call_simps [simp]:
  "br_channels (answer_call k out b) = br_channels b" "br_pending (answer_call k out b) = br_pending b"
  "br_me (answer_call k out b) = br_me b" "br_parent (answer_call k out b) = br_parent b"
  by (simp_all add: answer_call_def)

lemma bridge_ok_more: "bridge_ok ops b \<Longrightarrow> bridge_ok (ops @ [op]) b"
  unfolding bridge_ok_def set_append by (blast intro: list_emb_prefix)

lemma bridge_ok_answer:
  assumes "bridge_ok ops b"
    and "out = BridgePermit \<Longrightarrow>
      \<exists>i tool. AskPerm k i tool \<in> set ops \<and> (tool \<in> set safe_tools \<or> subseq [AskPerm k i tool, Decide i True] ops)"
  shows "bridge_ok ops (answer_call k out b)"
  using assms by (auto simp: bridge_ok_def answer_call_def)

lemma bridge_ok_channels:
  assumes "bridge_ok ops b" "\<And>i k. ch i = Some k \<Longrightarrow> \<exists>tool. AskPerm k i tool \<in> set ops"
  shows "bridge_ok ops (b\<lparr>br_channels := ch\<rparr>)"
  using assms by (simp add: bridge_ok_def)

lemma bridge_ok_pending [simp]: "bridge_ok ops (b\<lparr>br_pending := p\<rparr>) = bridge_ok ops b"
  by (simp add: bridge_ok_def)

lemma bridge_step_ok:
  assumes "bridge_ok ops b"
  shows "bridge_ok (ops @ [op]) (fst (bridge_step cd show_json op (b, st)))"
proof (cases op)
  case (AskPerm k i tool)
  note more = bridge_ok_more [OF assms, of op]
  show ?thesis
  proof (cases "tool \<in> set safe_tools")
    case True
    with bridge_ok_answer [OF more, of BridgePermit k] show ?thesis
      by (auto simp: AskPerm bridge_check_def)
  next
    case False
    define b1 where "b1 = (case br_channels b i of
        Some k' \<Rightarrow> answer_call k' (BridgeDeny ''Permission response channel closed unexpectedly'') b | None \<Rightarrow> b)"
    have b1: "bridge_ok (ops @ [op]) b1"
      unfolding b1_def using more bridge_ok_answer by (auto split: option.splits)
    have asked: "\<exists>tool. AskPerm k' i' tool \<in> set (ops @ [op])" if "br_channels b1 i' = Some k'" for i' k'
      using b1 that unfolding bridge_ok_def by blast
    from b1 have "bridge_ok (ops @ [op]) (b1\<lparr>br_channels := (br_channels b1)(i \<mapsto> k)\<rparr>)"
    proof (rule bridge_ok_channels)
      fix i' k' assume "((br_channels b1)(i \<mapsto> k)) i' = Some k'"
      then show "\<exists>tool. AskPerm k' i' tool \<in> set (ops @ [op])"
        using asked AskPerm by (cases "i' = i") auto
    qed
    then show ?thesis using False by (simp add: AskPerm bridge_check_def b1_def [symmetric] forward_to_parent_def Let_def)
  qed
next
  case (Decide i allowed)
  note more = bridge_ok_more [OF assms, of op]
  let ?b1 = "b\<lparr>br_pending := (br_pending b)(i := None)\<rparr>"
  have b2: "bridge_ok (ops @ [op]) (?b1\<lparr>br_channels := (br_channels b)(i := None)\<rparr>)"
    by (rule bridge_ok_channels) (use more in \<open>auto simp: bridge_ok_def split: if_splits\<close>)
  have reason: "\<exists>i tool. AskPerm k i tool \<in> set (ops @ [op])
      \<and> (tool \<in> set safe_tools \<or> subseq [AskPerm k i tool, Decide i True] (ops @ [op]))"
    if "br_channels b i = Some k" "allowed" for k
  proof -
    from assms that(1) obtain tool where ask: "AskPerm k i tool \<in> set ops" unfolding bridge_ok_def by blast
    then have "subseq ([AskPerm k i tool] @ [Decide i True]) (ops @ [op])"
      using that(2) by (intro list_emb_append_mono) (simp_all add: Decide subseq_singleton_left)
    with ask show ?thesis by auto
  qed
  show ?thesis
  proof (cases "br_channels b i")
    case None
    then show ?thesis using more by (simp add: Decide receive_decision_def Let_def)
  next
    case (Some k)
    have "bridge_ok (ops @ [op])
        (answer_call k (if allowed then BridgePermit else BridgeDeny ''Parent denied permission'')
          (?b1\<lparr>br_channels := (br_channels b)(i := None)\<rparr>))"
      by (rule bridge_ok_answer [OF b2]) (use reason [OF Some] in \<open>simp split: if_splits\<close>)
    then show ?thesis by (simp add: Decide receive_decision_def Let_def Some)
  qed
next
  case (TimeOut k)
  have "bridge_ok (ops @ [op]) (bridge_timeout k b)"
    unfolding bridge_timeout_def by (rule bridge_ok_answer [OF bridge_ok_more [OF assms]]) simp
  then show ?thesis by (simp add: TimeOut)
qed

text \<open>
  C1. Whatever the order of questions, decisions and time-outs, a question is answered at most once, and it is
  permitted only for a tool that is always permitted, or by a decision that came after it and carries its id.
\<close>

theorem bridge_permits_only_decided:
  assumes "fst (bridge_run cd show_json ops (bridge_new me parent, st)) = b"
  shows "distinct (map fst (br_answers b))
    \<and> ((k, BridgePermit) \<in> set (br_answers b) \<longrightarrow>
         (\<exists>i tool. AskPerm k i tool \<in> set ops \<and>
            (tool \<in> set safe_tools \<or> subseq [AskPerm k i tool, Decide i True] ops)))"
proof -
  have "bridge_ok ops (fst (bridge_run cd show_json ops (bridge_new me parent, st)))"
  proof (induction ops rule: rev_induct)
    case Nil
    then show ?case by (simp add: bridge_run_def bridge_ok_def bridge_new_def)
  next
    case (snoc op ops)
    obtain b' st' where r: "bridge_run cd show_json ops (bridge_new me parent, st) = (b', st')" by (meson surj_pair)
    with snoc have "bridge_ok ops b'" by simp
    from bridge_step_ok [OF this, of op cd show_json st'] r show ?case by (simp add: bridge_run_def)
  qed
  then show ?thesis unfolding assms bridge_ok_def by blast
qed

lemma bridge_permits_only_decided_witness:
  "\<exists>i tool. AskPerm 0 i tool \<in> set [AskPerm 0 ''7'' ''Bash'', Decide ''7'' True]
     \<and> (tool \<in> set safe_tools \<or> subseq [AskPerm 0 i tool, Decide i True] [AskPerm 0 ''7'' ''Bash'', Decide ''7'' True])"
proof -
  let ?b = "fst (bridge_run tally_mail (\<lambda>_. []) [AskPerm 0 ''7'' ''Bash'', Decide ''7'' True] (bridge_new ''w'' ''lead'', (mailbox_new [], \<lambda>_. None)))"
  have "(0, BridgePermit) \<in> set (br_answers ?b)"
    by (simp add: bridge_run_def bridge_check_def safe_tools_def bridge_new_def forward_to_parent_def bridge_prompt_def
        receive_decision_def answer_call_def Let_def)
  with bridge_permits_only_decided [OF refl, of tally_mail "\<lambda>_. []" "[AskPerm 0 ''7'' ''Bash'', Decide ''7'' True]" "''w''" "''lead''"
      "(mailbox_new [], \<lambda>_. None)" 0]
  show ?thesis by blast
qed

text \<open>A question that timed out stays pending, and no poller can read one: it lacks a field the protocol requires.\<close>

theorem timed_out_question_stays_pending:
  "br_pending (bridge_timeout k b) = br_pending b \<and> br_channels (bridge_timeout k b) = br_channels b"
  by (simp add: bridge_timeout_def)

theorem bridge_request_is_unreadable:
  "permission_request_of (bridge_message p) = None"
  by (simp add: permission_request_of_def bridge_message_def get_str_def fields_of_def required_def map_filter_simps)

end
