(* ===== verification/TaskList.thy ===== *)
theory TaskList
  imports Dispatch Serde
begin

text \<open>
  The tasks of a session, \<open>tools/src/tasks.rs\<close>, and the two tools on background tasks,
  \<open>tools/src/task_output.rs\<close> and \<open>tools/src/task_stop.rs\<close>.  The process-wide store is a map from sessions to lists,
  the counter behind new ids a 64-bit word; the clock is an argument, as are the pretty printer of an entry
  and the text of a deserialization error.
\<close>

section \<open>Entries and the store\<close>

datatype task_status = TaskPending | TaskInProgress | TaskCompleted | TaskCancelled | TaskDeleted

fun is_terminal_status :: "task_status \<Rightarrow> bool" where
  "is_terminal_status TaskCompleted = True"
| "is_terminal_status TaskCancelled = True"
| "is_terminal_status TaskDeleted = True"
| "is_terminal_status _ = False"

fun status_name :: "task_status \<Rightarrow> string" where
  "status_name TaskPending = ''pending''"
| "status_name TaskInProgress = ''in_progress''"
| "status_name TaskCompleted = ''completed''"
| "status_name TaskCancelled = ''cancelled''"
| "status_name TaskDeleted = ''deleted''"

fun status_debug :: "task_status \<Rightarrow> string" where
  "status_debug TaskPending = ''Pending''"
| "status_debug TaskInProgress = ''InProgress''"
| "status_debug TaskCompleted = ''Completed''"
| "status_debug TaskCancelled = ''Cancelled''"
| "status_debug TaskDeleted = ''Deleted''"

definition status_of_name :: "string \<Rightarrow> task_status option" where
  "status_of_name s =
     find (\<lambda>st. status_name st = s) [TaskPending, TaskInProgress, TaskCompleted, TaskCancelled, TaskDeleted]"

record task_entry =
  te_id :: string
  te_subject :: string
  te_description :: string
  te_active_form :: "string option"
  te_status :: task_status
  te_owner :: "string option"
  te_blocks :: "string list"
  te_blocked_by :: "string list"
  te_metadata :: "(string \<times> json) list option"
  te_created_at :: int
  te_updated_at :: int

type_synonym task_lists = "string \<Rightarrow> task_entry list option"

definition session_tasks :: "task_lists \<Rightarrow> string \<Rightarrow> task_entry list" where
  "session_tasks st sid = (case st sid of Some ts \<Rightarrow> ts | None \<Rightarrow> [])"

text \<open>Any look at a list creates it.\<close>

definition with_session_tasks ::
  "string \<Rightarrow> (task_entry list \<Rightarrow> 'r \<times> task_entry list) \<Rightarrow> task_lists \<Rightarrow> 'r \<times> task_lists" where
  "with_session_tasks sid f st = (let (r, ts) = f (session_tasks st sid) in (r, st(sid \<mapsto> ts)))"

text \<open>The first entry with an id, removed or updated in place.\<close>

fun drop_first :: "string \<Rightarrow> task_entry list \<Rightarrow> bool \<times> task_entry list" where
  "drop_first i [] = (False, [])"
| "drop_first i (t # ts) =
     (if te_id t = i then (True, ts) else (let (b, ts') = drop_first i ts in (b, t # ts')))"

fun change_first :: "string \<Rightarrow> (task_entry \<Rightarrow> task_entry) \<Rightarrow> task_entry list \<Rightarrow> task_entry option \<times> task_entry list" where
  "change_first i f [] = (None, [])"
| "change_first i f (t # ts) =
     (if te_id t = i then (Some (f t), f t # ts) else (let (r, ts') = change_first i f ts in (r, t # ts')))"

definition remove_task_from_store :: "string \<Rightarrow> string \<Rightarrow> task_lists \<Rightarrow> bool \<times> task_lists" where
  "remove_task_from_store sid i = with_session_tasks sid (drop_first i)"

definition update_task_in_store ::
  "string \<Rightarrow> string \<Rightarrow> (task_entry \<Rightarrow> task_entry) \<Rightarrow> task_lists \<Rightarrow> task_entry option \<times> task_lists" where
  "update_task_in_store sid i f = with_session_tasks sid (change_first i f)"

text \<open>Base 36, most significant digit first; the seconds and the counter make an id.\<close>

definition b36_digit :: "nat \<Rightarrow> char" where
  "b36_digit d = (if d < 10 then char_of (48 + d) else char_of (87 + d))"

fun b36_loop :: "nat \<Rightarrow> string" where
  "b36_loop x = (if x = 0 then [] else b36_loop (x div 36) @ [b36_digit (x mod 36)])"

declare b36_loop.simps [simp del]

definition b36 :: "nat \<Rightarrow> string" where
  "b36 x = (if x = 0 then ''0'' else b36_loop x)"

definition task_id_of :: "nat \<Rightarrow> nat \<Rightarrow> string" where
  "task_id_of secs n = ''task_'' @ b36 secs @ ''-'' @ b36 n"

definition new_task_id :: "nat \<Rightarrow> 64 word \<Rightarrow> string \<times> 64 word" where
  "new_task_id secs counter = (task_id_of secs (unat counter), counter + 1)"

section \<open>Inputs\<close>

record task_create_input =
  tc_subject :: string
  tc_description :: string
  tc_active_form :: "string option"
  tc_owner :: "string option"
  tc_blocks :: "string list"
  tc_blocked_by :: "string list"

definition task_create_input_of :: "json \<Rightarrow> task_create_input option" where
  "task_create_input_of v =
     Option.bind (fields_of 6 v) (\<lambda>fs.
     Option.bind (required 0 [''subject'', ''name''] as_str fs) (\<lambda>subject.
     Option.bind (required 1 [''description''] as_str fs) (\<lambda>description.
     Option.bind (defaulted 2 [''active_form''] None (de_option as_str) fs) (\<lambda>active_form.
     Option.bind (defaulted 3 [''owner''] None (de_option as_str) fs) (\<lambda>owner.
     Option.bind (defaulted 4 [''blocks''] [] (de_list as_str) fs) (\<lambda>blocks.
     Option.bind (defaulted 5 [''blocked_by''] [] (de_list as_str) fs) (\<lambda>blocked_by.
     Some \<lparr>tc_subject = subject, tc_description = description, tc_active_form = active_form, tc_owner = owner,
           tc_blocks = blocks, tc_blocked_by = blocked_by\<rparr>)))))))"

definition task_id_input_of :: "json \<Rightarrow> string option" where
  "task_id_input_of v = Option.bind (fields_of 1 v) (required 0 [''task_id''] as_str)"

definition task_list_input_of :: "json \<Rightarrow> task_status option option" where
  "task_list_input_of v =
     Option.bind (fields_of 1 v) (defaulted 0 [''status''] None (de_option (de_variant status_of_name)))"

record task_update_input =
  tu_task_id :: string
  tu_status :: "task_status option"
  tu_subject :: "string option"
  tu_description :: "string option"
  tu_active_form :: "string option"
  tu_owner :: "string option option"
  tu_blocks :: "string list option"
  tu_blocked_by :: "string list option"

definition task_update_input_of :: "json \<Rightarrow> task_update_input option" where
  "task_update_input_of v =
     Option.bind (fields_of 8 v) (\<lambda>fs.
     Option.bind (required 0 [''task_id''] as_str fs) (\<lambda>i.
     Option.bind (defaulted 1 [''status''] None (de_option (de_variant status_of_name)) fs) (\<lambda>status.
     Option.bind (defaulted 2 [''subject'', ''name''] None (de_option as_str) fs) (\<lambda>subject.
     Option.bind (defaulted 3 [''description''] None (de_option as_str) fs) (\<lambda>description.
     Option.bind (defaulted 4 [''active_form'', ''activeForm''] None (de_option as_str) fs) (\<lambda>active_form.
     Option.bind (defaulted 5 [''owner''] None (de_option (de_option as_str)) fs) (\<lambda>owner.
     Option.bind (defaulted 6 [''blocks''] None (de_option (de_list as_str)) fs) (\<lambda>blocks.
     Option.bind (defaulted 7 [''blocked_by'', ''blockedBy''] None (de_option (de_list as_str)) fs) (\<lambda>blocked_by.
     Some \<lparr>tu_task_id = i, tu_status = status, tu_subject = subject, tu_description = description,
           tu_active_form = active_form, tu_owner = owner, tu_blocks = blocks, tu_blocked_by = blocked_by\<rparr>)))))))))"

section \<open>The tools\<close>

definition text_result :: "bool \<Rightarrow> json list option \<Rightarrow> string \<Rightarrow> tool_result" where
  "text_result err msgs t = \<lparr>tr_content = ContentText t, tr_is_error = err, tr_new_messages = msgs\<rparr>"

definition no_task_with :: "string \<Rightarrow> tool_result" where
  "no_task_with i = text_result True (Some []) (''no task with id='' @ i)"

record task_env =
  tn_now :: nat
  tn_session :: string
  tn_error :: string
  tn_show :: "task_entry \<Rightarrow> string"

record task_state =
  ts_lists :: task_lists
  ts_counter :: "64 word"

definition validate_create :: "string \<Rightarrow> json \<Rightarrow> validation_result" where
  "validate_create err v =
     (case task_create_input_of v of
        Some p \<Rightarrow>
          (if trim (tc_subject p) = [] then VErr ''subject must not be empty'' 1
           else if trim (tc_description p) = [] then VErr ''description must not be empty'' 2
           else VOk)
      | None \<Rightarrow> VErr (''invalid input: '' @ err) 3)"

definition validate_task_get :: "string \<Rightarrow> json \<Rightarrow> validation_result" where
  "validate_task_get err v =
     (case task_id_input_of v of
        Some i \<Rightarrow> (if trim i = [] then VErr ''task_id must not be empty'' 1 else VOk)
      | None \<Rightarrow> VErr (''invalid input: '' @ err) 2)"

definition validate_task_update :: "string \<Rightarrow> json \<Rightarrow> validation_result" where
  "validate_task_update err v =
     (case task_update_input_of v of
        Some p \<Rightarrow> (if trim (tu_task_id p) = [] then VErr ''task_id must not be empty'' 1 else VOk)
      | None \<Rightarrow> VErr (''invalid input: '' @ err) 2)"

definition new_entry :: "string \<Rightarrow> nat \<Rightarrow> task_create_input \<Rightarrow> task_entry" where
  "new_entry i now p =
     \<lparr>te_id = i, te_subject = tc_subject p, te_description = tc_description p, te_active_form = tc_active_form p,
      te_status = TaskPending, te_owner = tc_owner p, te_blocks = tc_blocks p, te_blocked_by = tc_blocked_by p,
      te_metadata = None, te_created_at = int now, te_updated_at = int now\<rparr>"

definition task_create :: "task_env \<Rightarrow> json \<Rightarrow> task_state \<Rightarrow> (string + tool_result) \<times> task_state" where
  "task_create e v s =
     (case task_create_input_of v of
        None \<Rightarrow> (Inl (tn_error e), s)
      | Some p \<Rightarrow>
          (let (i, counter) = new_task_id (tn_now e) (ts_counter s);
               entry = new_entry i (tn_now e) p;
               (_, lists) = with_session_tasks (tn_session e) (\<lambda>ts. ((), ts @ [entry])) (ts_lists s)
           in (Inr (text_result False (Some []) (''Task created: id='' @ te_id entry @ '' subject='' @ te_subject entry)),
               s\<lparr>ts_lists := lists, ts_counter := counter\<rparr>)))"

definition task_get :: "task_env \<Rightarrow> json \<Rightarrow> task_state \<Rightarrow> (string + tool_result) \<times> task_state" where
  "task_get e v s =
     (case task_id_input_of v of
        None \<Rightarrow> (Inl (tn_error e), s)
      | Some i \<Rightarrow>
          (let (task, lists) = with_session_tasks (tn_session e) (\<lambda>ts. (find (\<lambda>t. te_id t = i) ts, ts)) (ts_lists s)
           in (Inr (case task of
                      Some t \<Rightarrow> text_result False (Some []) (tn_show e t)
                    | None \<Rightarrow> no_task_with i),
               s\<lparr>ts_lists := lists\<rparr>)))"

definition task_line :: "task_entry \<Rightarrow> string" where
  "task_line t =
     ''  '' @ [CHR 0xB7] @ '' ['' @ status_debug (te_status t) @ '']''
     @ (case te_owner t of Some o' \<Rightarrow> '' @'' @ o' | None \<Rightarrow> [])
     @ (if te_blocked_by t = [] then [] else '' [blocked by '' @ join_with '','' (te_blocked_by t) @ '']'')
     @ '' '' @ te_id t @ '' '' @ em_dash @ '' '' @ te_subject t"

definition task_list_text :: "task_entry list \<Rightarrow> string" where
  "task_list_text ts =
     (if ts = [] then ''(no tasks)''
      else show_nat (length ts) @ '' task(s):'' @ [CHR 0x0A] @ join_with [CHR 0x0A] (map task_line ts))"

definition task_list :: "task_env \<Rightarrow> json \<Rightarrow> task_state \<Rightarrow> (string + tool_result) \<times> task_state" where
  "task_list e v s =
     (let status = (case task_list_input_of v of Some st \<Rightarrow> st | None \<Rightarrow> None);
          (ts, lists) = with_session_tasks (tn_session e) (\<lambda>ts. (ts, ts)) (ts_lists s);
          filtered = (case status of Some st \<Rightarrow> filter (\<lambda>t. te_status t = st) ts | None \<Rightarrow> ts)
      in (Inr (text_result False (Some []) (task_list_text filtered)), s\<lparr>ts_lists := lists\<rparr>))"

definition unresolved_in :: "task_entry list \<Rightarrow> string list \<Rightarrow> string list" where
  "unresolved_in ts blockers =
     filter (\<lambda>b. list_ex (\<lambda>t. te_id t = b \<and> te_status t \<noteq> TaskCompleted) ts) blockers"

text \<open>The blockers that keep a task from being started: looked at only when the call asks to start it.\<close>

definition start_blockers :: "task_entry list \<Rightarrow> task_update_input \<Rightarrow> string list" where
  "start_blockers ts p =
     (if tu_status p = Some TaskInProgress then
        (case find (\<lambda>t. te_id t = tu_task_id p) ts of
           Some t \<Rightarrow> unresolved_in ts (te_blocked_by t)
         | None \<Rightarrow> [])
      else [])"

definition apply_update :: "nat \<Rightarrow> task_update_input \<Rightarrow> task_entry \<Rightarrow> task_entry" where
  "apply_update now p t =
     t\<lparr>te_status := (case tu_status p of Some x \<Rightarrow> x | None \<Rightarrow> te_status t),
       te_subject := (case tu_subject p of Some x \<Rightarrow> x | None \<Rightarrow> te_subject t),
       te_description := (case tu_description p of Some x \<Rightarrow> x | None \<Rightarrow> te_description t),
       te_active_form := (case tu_active_form p of Some x \<Rightarrow> Some x | None \<Rightarrow> te_active_form t),
       te_owner := (case tu_owner p of Some x \<Rightarrow> x | None \<Rightarrow> te_owner t),
       te_blocks := (case tu_blocks p of Some x \<Rightarrow> x | None \<Rightarrow> te_blocks t),
       te_blocked_by := (case tu_blocked_by p of Some x \<Rightarrow> x | None \<Rightarrow> te_blocked_by t),
       te_updated_at := int now\<rparr>"

definition task_update :: "task_env \<Rightarrow> json \<Rightarrow> task_state \<Rightarrow> (string + tool_result) \<times> task_state" where
  "task_update e v s =
     (case task_update_input_of v of
        None \<Rightarrow> (Inl (tn_error e), s)
      | Some p \<Rightarrow>
          (let i = tu_task_id p;
               sid = tn_session e;
               touched = snd (with_session_tasks sid (\<lambda>ts. ((), ts)) (ts_lists s));
               lists = (if tu_status p = Some TaskInProgress then touched else ts_lists s);
               unresolved = start_blockers (session_tasks lists sid) p
           in if unresolved \<noteq> [] then
                (Inr (text_result True (Some [])
                   (''Cannot start task '' @ i @ '': blocked by unresolved task(s): '' @ join_with '', '' unresolved)),
                 s\<lparr>ts_lists := lists\<rparr>)
              else if tu_status p = Some TaskDeleted then
                (let (removed, lists') = remove_task_from_store sid i lists
                 in (Inr (if removed then text_result False (Some []) (''Deleted task '' @ i) else no_task_with i),
                     s\<lparr>ts_lists := lists'\<rparr>))
              else
                (let (updated, lists') = update_task_in_store sid i (apply_update (tn_now e) p) lists
                 in (Inr (case updated of
                            Some t \<Rightarrow>
                              text_result False (Some [])
                                (''Updated task '' @ te_id t @ '': status='' @ status_debug (te_status t)
                                 @ '', subject='' @ te_subject t)
                          | None \<Rightarrow> no_task_with i),
                     s\<lparr>ts_lists := lists'\<rparr>))))"

section \<open>Background tasks\<close>

datatype running_status = RRunning | RCompleted | RCancelled | RFailed string

fun running_status_str :: "running_status \<Rightarrow> string" where
  "running_status_str RRunning = ''running''"
| "running_status_str RCompleted = ''completed''"
| "running_status_str RCancelled = ''cancelled''"
| "running_status_str (RFailed _) = ''failed''"

fun running_status_debug :: "(string \<Rightarrow> string) \<Rightarrow> running_status \<Rightarrow> string" where
  "running_status_debug quote RRunning = ''Running''"
| "running_status_debug quote RCompleted = ''Completed''"
| "running_status_debug quote RCancelled = ''Cancelled''"
| "running_status_debug quote (RFailed m) = ''Failed('' @ quote m @ '')''"

text \<open>\<open>RunningTasksCallback\<close>: the output, the events and the status of a task, and its cancellation.\<close>

record running_tasks =
  rt_find :: "string \<Rightarrow> (string \<times> string list \<times> running_status) option"
  rt_cancel :: "string \<Rightarrow> bool"

text \<open>\<open>TaskStopTool\<close> of \<open>tasks.rs\<close>: a background task first, else the entry of the list.\<close>

definition task_cancel :: "running_tasks option \<Rightarrow> task_env \<Rightarrow> json \<Rightarrow> task_state \<Rightarrow> (string + tool_result) \<times> task_state" where
  "task_cancel rt e v s =
     (case task_id_input_of v of
        None \<Rightarrow> (Inl (tn_error e), s)
      | Some i \<Rightarrow>
          (if (case rt of Some r \<Rightarrow> rt_cancel r i | None \<Rightarrow> False) then
             (Inr (text_result False (Some []) (''Cancel signal sent to background task '' @ i)), s)
           else
             (let (updated, lists) =
                    update_task_in_store (tn_session e) i
                      (\<lambda>t. t\<lparr>te_status := TaskCancelled, te_updated_at := int (tn_now e)\<rparr>) (ts_lists s)
              in (Inr (case updated of
                         Some t \<Rightarrow> text_result False (Some []) (''Cancelled task '' @ te_id t @ '': '' @ te_subject t)
                       | None \<Rightarrow> no_task_with i),
                  s\<lparr>ts_lists := lists\<rparr>))))"

record task_output_input =
  to_task_id :: string
  to_block :: bool
  to_timeout :: nat

definition default_timeout :: nat where
  "default_timeout = 30000"

definition task_output_input_of :: "json \<Rightarrow> task_output_input option" where
  "task_output_input_of v =
     Option.bind (fields_of 3 v) (\<lambda>fs.
     Option.bind (required 0 [''task_id''] as_str fs) (\<lambda>i.
     Option.bind (defaulted 1 [''block''] True de_bool fs) (\<lambda>block.
     Option.bind (defaulted 2 [''timeout''] default_timeout de_u64 fs) (\<lambda>timeout.
     Some \<lparr>to_task_id = i, to_block = block, to_timeout = timeout\<rparr>))))"

definition validate_task_output :: "string \<Rightarrow> json \<Rightarrow> validation_result" where
  "validate_task_output err v =
     (case task_output_input_of v of
        Some p \<Rightarrow>
          (if trim (to_task_id p) = [] then VErr ''Missing required parameter: task_id'' 1
           else if int (to_timeout p) > 600000 then VErr ''timeout must not exceed 600000 ms'' 2
           else VOk)
      | None \<Rightarrow> VErr (''invalid input: '' @ err) 3)"

datatype retrieval = NotFound | Success string | NotReady | Gone

text \<open>
  The wait: \<open>polls\<close> are the answers of the look-ups made before the deadline, half a second apart.  The
  result carries the text, the error flag and the retrieval status of the structured content.
\<close>

fun await_output :: "string \<Rightarrow> (string \<times> running_status) option list \<Rightarrow> string \<times> bool \<times> retrieval" where
  "await_output current [] = (current, False, NotReady)"
| "await_output current (None # polls) = (''task disappeared during wait'', True, Gone)"
| "await_output current (Some (output, st) # polls) =
     (if st \<noteq> RRunning then (output, False, Success (running_status_str st)) else await_output output polls)"

definition task_output ::
  "running_tasks option \<Rightarrow> string \<Rightarrow> (string \<times> running_status) option list \<Rightarrow> json
   \<Rightarrow> string + (string \<times> bool \<times> retrieval)" where
  "task_output rt err polls v =
     (case task_output_input_of v of
        None \<Rightarrow> Inl err
      | Some p \<Rightarrow>
          Inr (case Option.bind rt (\<lambda>r. rt_find r (to_task_id p)) of
                 None \<Rightarrow> (''task not found'', True, NotFound)
               | Some (output, _, st) \<Rightarrow>
                   (if st = RRunning \<and> to_block p then await_output output polls
                    else (output, False, Success (running_status_str st)))))"

definition task_stop_input_of :: "json \<Rightarrow> (string option \<times> string option) option" where
  "task_stop_input_of v =
     Option.bind (fields_of 2 v) (\<lambda>fs.
     Option.bind (defaulted 0 [''task_id''] None (de_option as_str) fs) (\<lambda>a.
     Option.bind (defaulted 1 [''shell_id''] None (de_option as_str) fs) (\<lambda>b. Some (a, b))))"

definition either_id :: "string option \<times> string option \<Rightarrow> string option" where
  "either_id ab = (case fst ab of Some i \<Rightarrow> Some i | None \<Rightarrow> snd ab)"

definition validate_task_stop :: "string \<Rightarrow> json \<Rightarrow> validation_result" where
  "validate_task_stop err v =
     (case task_stop_input_of v of
        Some ab \<Rightarrow>
          (case either_id ab of
             Some i \<Rightarrow> (if trim i = [] then VErr ''Missing required parameter: task_id'' 1 else VOk)
           | None \<Rightarrow> VErr ''Missing required parameter: task_id'' 1)
      | None \<Rightarrow> VErr (''invalid input: '' @ err) 2)"

definition task_stop :: "(string \<Rightarrow> string) \<Rightarrow> running_tasks option \<Rightarrow> string \<Rightarrow> json \<Rightarrow> string + tool_result" where
  "task_stop quote rt err v =
     (case task_stop_input_of v of
        None \<Rightarrow> Inl err
      | Some ab \<Rightarrow>
          (let i = (case either_id ab of Some i \<Rightarrow> i | None \<Rightarrow> []) in
           Inr (case Option.bind rt (\<lambda>r. rt_find r i) of
                  Some (_, _, st) \<Rightarrow>
                    (if st = RRunning then
                       (if (case rt of Some r \<Rightarrow> rt_cancel r i | None \<Rightarrow> False)
                        then text_result False None (''Successfully stopped task: '' @ i)
                        else text_result True None (''Failed to stop task: '' @ i))
                     else
                       text_result True None
                         (''Task '' @ i @ '' is not running (status: '' @ running_status_debug quote st @ '')''))
                | None \<Rightarrow> text_result True None (''No task found with ID: '' @ i))))"

lemmas task_defs [kernel_defs] =
  status_of_name_def session_tasks_def with_session_tasks_def remove_task_from_store_def update_task_in_store_def
  task_create_input_of_def task_id_input_of_def task_list_input_of_def task_update_input_of_def
  text_result_def no_task_with_def new_entry_def unresolved_in_def start_blockers_def apply_update_def

end
