(* ===== verification/TaskListProps.thy ===== *)
theory TaskListProps
  imports TaskList
begin

text \<open>
  What the task tools keep: ids are unique over all sessions, a session never sees or touches the tasks of
  another, and a task is started exactly when no task it names as a blocker is open.
\<close>

section \<open>Ids\<close>

lemma b36_code: "d < 36 \<Longrightarrow> of_char (b36_digit d) = (if d < 10 then 48 + d else 87 + d)" for d :: nat
proof -
  assume "d < 36"
  then have m: "(48 + d) mod 256 = 48 + d" "(87 + d) mod 256 = 87 + d" by (intro mod_less; linarith)+
  show ?thesis unfolding b36_digit_def by (simp only: if_distrib [of of_char] of_char_of m)
qed

lemma b36_digit_inj: "\<lbrakk>b36_digit d = b36_digit d'; d < 36; d' < 36\<rbrakk> \<Longrightarrow> d = d'"
proof -
  assume a: "b36_digit d = b36_digit d'" "d < 36" "d' < 36"
  from a(1) have "(if d < 10 then 48 + d else 87 + d) = (if d' < 10 then 48 + d' else 87 + d')"
    by (simp only: b36_code [OF a(2), symmetric] b36_code [OF a(3), symmetric])
  then show ?thesis by presburger
qed

lemma b36_digit_not_dash: "d < 36 \<Longrightarrow> b36_digit d \<noteq> CHR ''-''"
proof
  assume a: "d < 36" "b36_digit d = CHR ''-''"
  have "(of_char CHR ''-'' :: nat) = 45" by simp
  with b36_code [OF a(1)] a(2) have "(if d < 10 then 48 + d else 87 + d) = 45" by (simp only:)
  then show False by presburger
qed

lemma b36_loop_inj: "b36_loop x = b36_loop y \<Longrightarrow> x = y"
proof (induction x arbitrary: y rule: less_induct)
  case (less x)
  show ?case
  proof (cases "x = 0 \<or> y = 0")
    case True
    with less.prems show ?thesis
      by (auto simp: b36_loop.simps [of x] b36_loop.simps [of y] split: if_splits)
  next
    case False
    with less.prems have eq: "b36_loop (x div 36) = b36_loop (y div 36)" "b36_digit (x mod 36) = b36_digit (y mod 36)"
      by (simp_all add: b36_loop.simps [of x] b36_loop.simps [of y])
    from eq(1) have "x div 36 = y div 36" using False less.IH [of "x div 36" "y div 36"] by simp
    moreover from eq(2) have "x mod 36 = y mod 36" by (rule b36_digit_inj) simp_all
    ultimately show ?thesis by (metis div_mult_mod_eq)
  qed
qed

lemma b36_loop_no_dash: "CHR ''-'' \<notin> set (b36_loop x)"
proof (induction x rule: less_induct)
  case (less x)
  then show ?case
    using b36_digit_not_dash [of "x mod 36"] less.IH [of "x div 36"]
    by (cases "x = 0") (simp_all add: b36_loop.simps [of x] b36_loop.simps [of 0] eq_commute [of "CHR ''-''"] del: b36_digit_not_dash)
qed

lemma b36_zero: "b36_loop x \<noteq> ''0''"
proof
  assume a: "b36_loop x = ''0''"
  then have "x \<noteq> 0" by (intro notI) (simp add: b36_loop.simps [of 0])
  with a have "b36_loop (x div 36) = []" "b36_digit (x mod 36) = CHR ''0''"
    by (simp_all add: b36_loop.simps [of x] append_eq_Cons_conv)
  moreover have "CHR ''0'' = b36_digit 0" by (simp only: b36_digit_def) code_simp
  ultimately have "b36_loop (x div 36) = b36_loop 0" "x mod 36 = 0"
    using b36_digit_inj [of "x mod 36" 0] by (simp_all add: b36_loop.simps [of 0])
  then have "x div 36 = 0" "x mod 36 = 0" using b36_loop_inj by blast+
  then show False using \<open>x \<noteq> 0\<close> by (metis div_mult_mod_eq mult_0 add_0)
qed

lemma b36_inj [simp]: "b36 x = b36 y \<longleftrightarrow> x = y"
  using b36_zero [of x] b36_zero [of y] b36_loop_inj [of x y] by (auto simp: b36_def split: if_splits)

lemma b36_no_dash: "CHR ''-'' \<notin> set (b36 x)"
  using b36_loop_no_dash [of x] by (simp add: b36_def)

text \<open>An id determines the second and the count it was made from.\<close>

lemma task_id_inj [simp]: "task_id_of secs n = task_id_of secs' n' \<longleftrightarrow> secs = secs' \<and> n = n'"
proof
  assume "task_id_of secs n = task_id_of secs' n'"
  then have eq: "b36 secs @ CHR ''-'' # b36 n = b36 secs' @ CHR ''-'' # b36 n'" by (simp add: task_id_of_def)
  have "takeWhile (\<lambda>c. c \<noteq> CHR ''-'') (b36 k @ CHR ''-'' # r) = b36 k" for k r
    using b36_no_dash [of k] by (subst takeWhile_append2) auto
  from this [of secs] this [of secs'] eq have "b36 secs = b36 secs'" by metis
  with eq show "secs = secs' \<and> n = n'" by simp
qed simp

section \<open>Steps\<close>

datatype task_op =
    CreateTask json
  | GetTask json
  | ListTasks json
  | UpdateTask json
  | CancelTask "running_tasks option" json

fun task_step :: "task_env \<Rightarrow> task_op \<Rightarrow> task_state \<Rightarrow> (string + tool_result) \<times> task_state" where
  "task_step e (CreateTask v) = task_create e v"
| "task_step e (GetTask v) = task_get e v"
| "task_step e (ListTasks v) = task_list e v"
| "task_step e (UpdateTask v) = task_update e v"
| "task_step e (CancelTask rt v) = task_cancel rt e v"

definition run_tasks :: "(task_env \<times> task_op) list \<Rightarrow> task_state" where
  "run_tasks ops = foldl (\<lambda>s (e, op). snd (task_step e op s)) \<lparr>ts_lists = (\<lambda>_. None), ts_counter = 0\<rparr> ops"

lemma session_tasks_upd [simp]:
  "session_tasks (L(sid \<mapsto> ts)) sid' = (if sid' = sid then ts else session_tasks L sid')"
  by (simp add: session_tasks_def)

lemma drop_first_ids: "subseq (map te_id (snd (drop_first i ts))) (map te_id ts)"
  by (induction i ts rule: drop_first.induct) (auto split: prod.splits)

lemma change_first_ids:
  "(\<And>t. te_id (f t) = te_id t) \<Longrightarrow> map te_id (snd (change_first i f ts)) = map te_id ts"
  by (induction i f ts rule: change_first.induct) (auto split: prod.splits)

lemma apply_update_id [simp]: "te_id (apply_update now p t) = te_id t"
  by (simp add: apply_update_def)

lemma cancelled_id [simp]: "te_id (t\<lparr>te_status := x, te_updated_at := y\<rparr>) = te_id t"
  by simp

text \<open>What an operation does to the list of its own session, and to the counter.\<close>

definition shrinks :: "string \<Rightarrow> task_state \<Rightarrow> task_state \<Rightarrow> bool" where
  "shrinks sid s s' \<longleftrightarrow>
     ts_counter s' = ts_counter s
     \<and> (\<forall>sid'. sid' \<noteq> sid \<longrightarrow> session_tasks (ts_lists s') sid' = session_tasks (ts_lists s) sid')
     \<and> subseq (map te_id (session_tasks (ts_lists s') sid)) (map te_id (session_tasks (ts_lists s) sid))"

lemma shrinks_refl [simp]: "shrinks sid s s"
  by (simp add: shrinks_def)

lemma shrinks_with:
  assumes "L = snd (with_session_tasks sid f (ts_lists s))"
    and "\<And>ts. subseq (map te_id (snd (f ts))) (map te_id ts)"
  shows "shrinks sid s (s\<lparr>ts_lists := L\<rparr>)"
  using assms(2) [of "session_tasks (ts_lists s) sid"]
  by (simp add: shrinks_def assms(1) with_session_tasks_def case_prod_beta)

lemma task_get_shrinks: "shrinks (tn_session e) s (snd (task_get e v s))"
  by (auto simp: task_get_def shrinks_def with_session_tasks_def split: option.splits)

lemma task_list_shrinks: "shrinks (tn_session e) s (snd (task_list e v s))"
  by (auto simp: task_list_def shrinks_def with_session_tasks_def Let_def)

lemma change_first_shrinks:
  assumes "\<And>t. te_id (f t) = te_id t"
  shows "shrinks sid s (s\<lparr>ts_lists := snd (update_task_in_store sid i f (ts_lists s))\<rparr>)"
  by (rule shrinks_with [where f = "change_first i f"])
     (simp_all add: update_task_in_store_def change_first_ids [OF assms])

lemma drop_first_shrinks:
  "shrinks sid s (s\<lparr>ts_lists := snd (remove_task_from_store sid i (ts_lists s))\<rparr>)"
  by (rule shrinks_with [where f = "drop_first i"]) (simp_all add: remove_task_from_store_def drop_first_ids)

lemma task_cancel_shrinks: "shrinks (tn_session e) s (snd (task_cancel rt e v s))"
  using change_first_shrinks [of "\<lambda>t. t\<lparr>te_status := TaskCancelled, te_updated_at := int (tn_now e)\<rparr>" "tn_session e" s]
  by (auto simp: task_cancel_def Let_def split: option.splits prod.splits) (metis snd_conv)+

lemma touch_shrinks [simp]: "shrinks sid s (s\<lparr>ts_lists := snd (with_session_tasks sid (\<lambda>ts. ((), ts)) (ts_lists s))\<rparr>)"
  by (rule shrinks_with [where f = "\<lambda>ts. ((), ts)"]) simp_all

lemma touched_tasks [simp]:
  "session_tasks (snd (with_session_tasks sid (\<lambda>ts. ((), ts)) L)) sid' = session_tasks L sid'"
  by (simp add: with_session_tasks_def session_tasks_def)

lemma shrinks_trans: "shrinks sid s s' \<Longrightarrow> shrinks sid s' s'' \<Longrightarrow> shrinks sid s s''"
  unfolding shrinks_def by (auto intro: subseq_order.order_trans)

text \<open>The lists an update works on: those of before, with a list made for the session when it starts a task.\<close>

definition update_base :: "task_env \<Rightarrow> task_update_input \<Rightarrow> task_state \<Rightarrow> task_lists" where
  "update_base e p s =
     (if tu_status p = Some TaskInProgress
      then snd (with_session_tasks (tn_session e) (\<lambda>ts. ((), ts)) (ts_lists s)) else ts_lists s)"

lemma update_base_tasks [simp]: "session_tasks (update_base e p s) sid = session_tasks (ts_lists s) sid"
  by (simp add: update_base_def)

lemma update_base_shrinks: "shrinks sid s (s\<lparr>ts_lists := update_base e p s\<rparr>)"
  by (simp add: shrinks_def)

lemma task_update_cases:
  assumes "task_update_input_of v = Some p"
  shows "task_update e v s =
    (let i = tu_task_id p; sid = tn_session e; L = update_base e p s;
         unresolved = start_blockers (session_tasks (ts_lists s) sid) p
     in if unresolved \<noteq> [] then
          (Inr (text_result True (Some [])
             (''Cannot start task '' @ i @ '': blocked by unresolved task(s): '' @ join_with '', '' unresolved)),
           s\<lparr>ts_lists := L\<rparr>)
        else if tu_status p = Some TaskDeleted then
          (Inr (if fst (remove_task_from_store sid i L) then text_result False (Some []) (''Deleted task '' @ i)
                else no_task_with i),
           s\<lparr>ts_lists := snd (remove_task_from_store sid i L)\<rparr>)
        else
          (Inr (case fst (update_task_in_store sid i (apply_update (tn_now e) p) L) of
                  Some t \<Rightarrow>
                    text_result False (Some [])
                      (''Updated task '' @ te_id t @ '': status='' @ status_debug (te_status t)
                       @ '', subject='' @ te_subject t)
                | None \<Rightarrow> no_task_with i),
           s\<lparr>ts_lists := snd (update_task_in_store sid i (apply_update (tn_now e) p) L)\<rparr>))"
proof -
  have base: "session_tasks (if tu_status p = Some TaskInProgress
      then snd (with_session_tasks (tn_session e) (\<lambda>ts. ((), ts)) (ts_lists s)) else ts_lists s) (tn_session e)
    = session_tasks (ts_lists s) (tn_session e)" by simp
  show ?thesis
    by (simp only: task_update_def assms option.case Let_def base update_base_def case_prod_beta')
qed

lemma task_update_shrinks: "shrinks (tn_session e) s (snd (task_update e v s))"
proof (cases "task_update_input_of v")
  case None
  then show ?thesis by (simp add: task_update_def)
next
  case (Some p)
  let ?b = "s\<lparr>ts_lists := update_base e p s\<rparr>"
  note b = update_base_shrinks [of "tn_session e" s e p]
  have d: "shrinks (tn_session e) s (s\<lparr>ts_lists := snd (remove_task_from_store (tn_session e) i (update_base e p s))\<rparr>)" for i
    using shrinks_trans [OF b drop_first_shrinks [of "tn_session e" ?b i]] by simp
  have u: "shrinks (tn_session e) s
      (s\<lparr>ts_lists := snd (update_task_in_store (tn_session e) i (apply_update n p) (update_base e p s))\<rparr>)" for i n
    using shrinks_trans [OF b change_first_shrinks [of "apply_update n p" "tn_session e" ?b i]] by simp
  show ?thesis using b d u by (simp add: task_update_cases [OF Some] Let_def)
qed

text \<open>Ids: made from a count below the counter, and no two alike, within a list or across lists.\<close>

definition ids_below :: "nat \<Rightarrow> task_lists \<Rightarrow> bool" where
  "ids_below k L \<longleftrightarrow>
     (\<forall>sid. \<forall>t\<in>set (session_tasks L sid). \<exists>secs n. n < k \<and> te_id t = task_id_of secs n)
     \<and> (\<forall>sid. distinct (map te_id (session_tasks L sid)))
     \<and> (\<forall>sid sid'. sid \<noteq> sid' \<longrightarrow> te_id ` set (session_tasks L sid) \<inter> te_id ` set (session_tasks L sid') = {})"

lemma distinct_if_subseq: "subseq xs ys \<Longrightarrow> distinct ys \<Longrightarrow> distinct xs"
  by (induction rule: list_emb.induct) (auto dest: list_emb_set)

lemma subseq_ids:
  assumes "subseq (map te_id ts') (map te_id ts)"
  shows "te_id ` set ts' \<subseteq> te_id ` set ts" and "distinct (map te_id ts) \<Longrightarrow> distinct (map te_id ts')"
proof -
  show "te_id ` set ts' \<subseteq> te_id ` set ts"
    using list_emb_set [OF assms] by (metis list.set_map subsetI)
  show "distinct (map te_id ts) \<Longrightarrow> distinct (map te_id ts')" using assms by (rule distinct_if_subseq)
qed

lemma ids_below_shrinks:
  assumes "shrinks sid s s'" "ids_below k (ts_lists s)"
  shows "ids_below k (ts_lists s')"
proof -
  have below: "\<forall>t\<in>set (session_tasks (ts_lists s) x). \<exists>secs n. n < k \<and> te_id t = task_id_of secs n" for x
    using assms(2) unfolding ids_below_def by (elim conjE allE)
  have apart: "te_id ` set (session_tasks (ts_lists s) x) \<inter> te_id ` set (session_tasks (ts_lists s) y) = {}"
    if "x \<noteq> y" for x y
    using assms(2) that unfolding ids_below_def by (elim conjE) blast
  have sub: "te_id ` set (session_tasks (ts_lists s') x) \<subseteq> te_id ` set (session_tasks (ts_lists s) x)" for x
    using assms(1) by (cases "x = sid") (simp_all add: shrinks_def subseq_ids(1))
  have dist: "distinct (map te_id (session_tasks (ts_lists s') x))" for x
  proof (cases "x = sid")
    case True
    have "distinct (map te_id (session_tasks (ts_lists s) sid))" using assms(2) by (simp add: ids_below_def)
    moreover have "subseq (map te_id (session_tasks (ts_lists s') sid)) (map te_id (session_tasks (ts_lists s) sid))"
      using assms(1) by (simp add: shrinks_def)
    ultimately show ?thesis unfolding True by (rule subseq_ids(2) [rotated])
  next
    case False
    then show ?thesis using assms by (simp add: shrinks_def ids_below_def)
  qed
  have "\<exists>secs n. n < k \<and> te_id t = task_id_of secs n" if "t \<in> set (session_tasks (ts_lists s') x)" for x t
  proof -
    from sub that have "te_id t \<in> te_id ` set (session_tasks (ts_lists s) x)" by blast
    then obtain u where u: "u \<in> set (session_tasks (ts_lists s) x)" "te_id t = te_id u" by blast
    from below u(1) show ?thesis unfolding u(2) by blast
  qed
  moreover have "te_id ` set (session_tasks (ts_lists s') x) \<inter> te_id ` set (session_tasks (ts_lists s') y) = {}"
    if "x \<noteq> y" for x y
    using sub [of x] sub [of y] apart [OF that] by blast
  ultimately show ?thesis using dist unfolding ids_below_def by blast
qed

lemma ids_below_create:
  assumes "ids_below k (ts_lists s)" "ts_counter s = word_of_nat k" "k < 2 ^ 64"
    and "task_create_input_of v = Some p"
  shows "ids_below (Suc k) (ts_lists (snd (task_create e v s))) \<and> ts_counter (snd (task_create e v s)) = word_of_nat (Suc k)"
proof -
  let ?i = "task_id_of (tn_now e) k" and ?L = "ts_lists s" and ?sid = "tn_session e"
  let ?new = "new_entry ?i (tn_now e) p"
  have k: "unat (word_of_nat k :: 64 word) = k" using assms(3) by (simp add: unat_of_nat take_bit_nat_eq_self)
  have s': "snd (task_create e v s) =
    s\<lparr>ts_lists := ?L(?sid \<mapsto> session_tasks ?L ?sid @ [?new]), ts_counter := word_of_nat (Suc k)\<rparr>"
    using assms(2,4) k by (simp add: task_create_def new_task_id_def with_session_tasks_def Let_def)
  have id: "te_id ?new = ?i" by (simp add: new_entry_def)
  have below: "\<exists>secs n. n < k \<and> te_id t = task_id_of secs n" if "t \<in> set (session_tasks ?L x)" for t x
    using assms(1) that by (simp add: ids_below_def)
  have fresh: "?i \<notin> te_id ` set (session_tasks ?L x)" for x
  proof
    assume "?i \<in> te_id ` set (session_tasks ?L x)"
    then obtain t where "t \<in> set (session_tasks ?L x)" "te_id t = ?i" by force
    with below show False by fastforce
  qed
  have "ids_below (Suc k) (?L(?sid \<mapsto> session_tasks ?L ?sid @ [?new]))"
    unfolding ids_below_def
  proof (intro conjI allI ballI impI)
    fix x t assume "t \<in> set (session_tasks (?L(?sid \<mapsto> session_tasks ?L ?sid @ [?new])) x)"
    then have "t = ?new \<or> t \<in> set (session_tasks ?L x)" by (auto split: if_splits)
    then show "\<exists>secs n. n < Suc k \<and> te_id t = task_id_of secs n" using below id by (metis less_Suc_eq)
  next
    fix x show "distinct (map te_id (session_tasks (?L(?sid \<mapsto> session_tasks ?L ?sid @ [?new])) x))"
      using assms(1) fresh [of ?sid] id by (simp add: ids_below_def)
  next
    fix x y :: string assume "x \<noteq> y"
    with assms(1) fresh id
    show "te_id ` set (session_tasks (?L(?sid \<mapsto> session_tasks ?L ?sid @ [?new])) x)
        \<inter> te_id ` set (session_tasks (?L(?sid \<mapsto> session_tasks ?L ?sid @ [?new])) y) = {}"
      by (auto simp: ids_below_def)
  qed
  then show ?thesis by (simp add: s')
qed

lemma step_ids:
  assumes "ids_below k (ts_lists s)" "ts_counter s = word_of_nat k" "k < 2 ^ 64"
  shows "\<exists>k' \<le> Suc k. ids_below k' (ts_lists (snd (task_step e op s))) \<and> ts_counter (snd (task_step e op s)) = word_of_nat k'"
proof -
  have shrink: ?thesis if "shrinks (tn_session e) s (snd (task_step e op s))"
    using ids_below_shrinks [OF that assms(1)] that assms(2) by (intro exI [of _ k]) (simp add: shrinks_def)
  show ?thesis
  proof (cases op)
    case (CreateTask v)
    show ?thesis
    proof (cases "task_create_input_of v")
      case None
      then show ?thesis using assms by (intro exI [of _ k]) (simp add: CreateTask task_create_def)
    next
      case (Some p)
      then show ?thesis using ids_below_create [OF assms] by (intro exI [of _ "Suc k"]) (simp add: CreateTask)
    qed
  qed (use shrink task_get_shrinks task_list_shrinks task_update_shrinks task_cancel_shrinks in simp_all)
qed

text \<open>C38. 
  C1. However the tools are called, by whichever sessions and under whatever clock, no two tasks of the process
  ever carry the same id, for the first \<open>2 ^ 64\<close> calls.
\<close>

theorem task_ids_are_unique:
  assumes "length ops < 2 ^ 64"
  shows "distinct (map te_id (session_tasks (ts_lists (run_tasks ops)) sid))
    \<and> (sid \<noteq> sid' \<longrightarrow>
         te_id ` set (session_tasks (ts_lists (run_tasks ops)) sid)
         \<inter> te_id ` set (session_tasks (ts_lists (run_tasks ops)) sid') = {})"
proof -
  have "\<exists>k \<le> length ops. ids_below k (ts_lists (run_tasks ops)) \<and> ts_counter (run_tasks ops) = word_of_nat k"
    using assms
  proof (induction ops rule: rev_induct)
    case Nil
    then show ?case by (simp add: run_tasks_def ids_below_def session_tasks_def)
  next
    case (snoc x ops)
    obtain e op where x: "x = (e, op)" by (cases x)
    from snoc obtain k where k: "k \<le> length ops" "ids_below k (ts_lists (run_tasks ops))"
      "ts_counter (run_tasks ops) = word_of_nat k" by auto
    have run: "run_tasks (ops @ [x]) = snd (task_step e op (run_tasks ops))" by (simp add: run_tasks_def x)
    from k(1) snoc.prems have "k < 2 ^ 64" by simp
    from step_ids [OF k(2,3) this, of e op] obtain k' where k': "k' \<le> Suc k"
      "ids_below k' (ts_lists (snd (task_step e op (run_tasks ops))))"
      "ts_counter (snd (task_step e op (run_tasks ops))) = word_of_nat k'" by blast
    from k'(1) k(1) have "k' \<le> length (ops @ [x])" by simp
    with k'(2,3) show ?case unfolding run by blast
  qed
  then show ?thesis unfolding ids_below_def by blast
qed

definition task_env_of :: "string \<Rightarrow> nat \<Rightarrow> task_env" where
  "task_env_of sid now = \<lparr>tn_now = now, tn_session = sid, tn_error = ''bad'', tn_show = te_subject\<rparr>"

definition create_json :: "string \<Rightarrow> json" where
  "create_json t = JObject [(''subject'', JString t), (''description'', JString t)]"

lemma task_ids_are_unique_witness:
  "(let s = run_tasks [(task_env_of ''a'' 0, CreateTask (create_json ''x'')), (task_env_of ''b'' 0, CreateTask (create_json ''x''))]
    in te_id ` set (session_tasks (ts_lists s) ''a'') \<inter> te_id ` set (session_tasks (ts_lists s) ''b'') = {})"
  using task_ids_are_unique [of
      "[(task_env_of ''a'' 0, CreateTask (create_json ''x'')), (task_env_of ''b'' 0, CreateTask (create_json ''x''))]" "''a''" "''b''"]
  by (simp add: Let_def)

section \<open>Sessions\<close>

text \<open>C39. 
  C1. Sessions are separate: what a call answers and what it does to its session's tasks depends on nothing but
  those tasks and the id counter, and the tasks of every other session stay as they were.
\<close>

theorem sessions_are_separate:
  assumes "session_tasks (ts_lists s) (tn_session e) = session_tasks (ts_lists s2) (tn_session e)"
    and "ts_counter s = ts_counter s2"
  shows "fst (task_step e op s) = fst (task_step e op s2)
    \<and> session_tasks (ts_lists (snd (task_step e op s))) (tn_session e)
       = session_tasks (ts_lists (snd (task_step e op s2))) (tn_session e)
    \<and> (\<forall>sid. sid \<noteq> tn_session e \<longrightarrow>
         session_tasks (ts_lists (snd (task_step e op s))) sid = session_tasks (ts_lists s) sid)"
proof (cases op)
  case (CreateTask v)
  then show ?thesis using assms
    by (simp add: task_create_def new_task_id_def with_session_tasks_def Let_def split: option.splits)
next
  case (GetTask v)
  then show ?thesis using assms by (simp add: task_get_def with_session_tasks_def split: option.splits)
next
  case (ListTasks v)
  then show ?thesis using assms by (simp add: task_list_def with_session_tasks_def Let_def)
next
  case (CancelTask rt v)
  then show ?thesis using assms
    by (simp add: task_cancel_def update_task_in_store_def with_session_tasks_def case_prod_beta Let_def split: option.splits)
next
  case (UpdateTask v)
  show ?thesis
  proof (cases "task_update_input_of v")
    case None
    then show ?thesis using assms by (simp add: UpdateTask task_update_def)
  next
    case (Some p)
    then show ?thesis using assms
      by (simp add: UpdateTask task_update_cases [OF Some] remove_task_from_store_def update_task_in_store_def
          with_session_tasks_def case_prod_beta Let_def)
  qed
qed

lemma sessions_are_separate_witness:
  "session_tasks (ts_lists (snd (task_step (task_env_of ''a'' 0) (CreateTask (create_json ''x''))
      \<lparr>ts_lists = (\<lambda>_. None), ts_counter = 0\<rparr>))) ''b'' = []"
  using sessions_are_separate [of "\<lparr>ts_lists = (\<lambda>_. None), ts_counter = 0\<rparr>" "task_env_of ''a'' 0"
      "\<lparr>ts_lists = (\<lambda>_. None), ts_counter = 0\<rparr>" "CreateTask (create_json ''x'')"]
  by (simp add: task_env_of_def session_tasks_def)

section \<open>Entries\<close>

text \<open>What every stored entry is: not deleted, without metadata, and never updated before it was made.\<close>

definition well_formed_entry :: "task_entry \<Rightarrow> bool" where
  "well_formed_entry t \<longleftrightarrow> te_status t \<noteq> TaskDeleted \<and> te_metadata t = None \<and> 0 \<le> te_created_at t"

definition well_formed_lists :: "task_lists \<Rightarrow> bool" where
  "well_formed_lists L \<longleftrightarrow> (\<forall>sid. list_all well_formed_entry (session_tasks L sid))"

lemma change_first_all:
  "(\<And>t. P t \<Longrightarrow> P (f t)) \<Longrightarrow> list_all P ts \<Longrightarrow> list_all P (snd (change_first i f ts))"
  by (induction i f ts rule: change_first.induct) (auto split: prod.splits)

lemma drop_first_all: "list_all P ts \<Longrightarrow> list_all P (snd (drop_first i ts))"
  by (induction i ts rule: drop_first.induct) (auto split: prod.splits)

lemma well_formed_change:
  assumes "\<And>t. well_formed_entry t \<Longrightarrow> well_formed_entry (f t)" "well_formed_lists L"
  shows "well_formed_lists (snd (update_task_in_store sid i f L))"
  using assms(2) change_first_all [of well_formed_entry f, OF assms(1)]
  by (simp add: update_task_in_store_def with_session_tasks_def well_formed_lists_def case_prod_beta)

lemma well_formed_update_base: "well_formed_lists (ts_lists s) \<Longrightarrow> well_formed_lists (update_base e p s)"
  by (simp add: well_formed_lists_def)

lemma well_formed_step:
  assumes "well_formed_lists (ts_lists s)"
  shows "well_formed_lists (ts_lists (snd (task_step e op s)))"
proof (cases op)
  case (CreateTask v)
  then show ?thesis using assms
    by (auto simp: task_create_def new_task_id_def with_session_tasks_def well_formed_lists_def well_formed_entry_def
        new_entry_def Let_def split: option.splits)
next
  case (GetTask v)
  then show ?thesis using assms
    by (auto simp: task_get_def with_session_tasks_def well_formed_lists_def split: option.splits)
next
  case (ListTasks v)
  then show ?thesis using assms by (auto simp: task_list_def with_session_tasks_def well_formed_lists_def Let_def)
next
  case (CancelTask rt v)
  have "well_formed_lists (snd (update_task_in_store (tn_session e) i
      (\<lambda>t. t\<lparr>te_status := TaskCancelled, te_updated_at := int (tn_now e)\<rparr>) (ts_lists s)))" for i
    by (rule well_formed_change [OF _ assms]) (simp add: well_formed_entry_def)
  then show ?thesis using assms by (simp add: CancelTask task_cancel_def case_prod_beta Let_def split: option.splits)
next
  case (UpdateTask v)
  show ?thesis
  proof (cases "task_update_input_of v")
    case None
    then show ?thesis using assms by (simp add: UpdateTask task_update_def)
  next
    case (Some p)
    note base = well_formed_update_base [OF assms, of e p]
    have change: "well_formed_lists (snd (update_task_in_store (tn_session e) i (apply_update n p) (update_base e p s)))"
      if "tu_status p \<noteq> Some TaskDeleted" for i n
      by (rule well_formed_change [OF _ base])
         (use that in \<open>auto simp: well_formed_entry_def apply_update_def split: option.splits\<close>)
    have drop: "well_formed_lists (snd (remove_task_from_store (tn_session e) i (update_base e p s)))" for i
      using base drop_first_all [of well_formed_entry]
      by (simp add: remove_task_from_store_def with_session_tasks_def well_formed_lists_def case_prod_beta)
    show ?thesis using base change drop by (simp add: UpdateTask task_update_cases [OF Some] Let_def)
  qed
qed


section \<open>Starting a task\<close>

lemma some_text [simp]: "\<exists>txt. text_result b m x = text_result b m txt"
  by blast

lemma change_first_find: "fst (change_first i f ts) = map_option f (find (\<lambda>t. te_id t = i) ts)"
  by (induction i f ts rule: change_first.induct) (auto split: prod.splits)

text \<open>
  C1. An update that asks to start a task of the list is refused exactly when a task it names as a blocker is in
  the list and not completed; a refusal leaves every task as it was, and otherwise the task is in progress.
\<close>

theorem task_starts_iff_unblocked:
  assumes "task_update_input_of v = Some p" "tu_status p = Some TaskInProgress"
    and "find (\<lambda>t. te_id t = tu_task_id p) (session_tasks (ts_lists s) (tn_session e)) = Some t"
  shows "if \<exists>b\<in>set (te_blocked_by t). \<exists>u\<in>set (session_tasks (ts_lists s) (tn_session e)).
              te_id u = b \<and> te_status u \<noteq> TaskCompleted
    then (\<exists>txt. fst (task_update e v s) = Inr (text_result True (Some []) txt))
      \<and> session_tasks (ts_lists (snd (task_update e v s))) = session_tasks (ts_lists s)
    else (\<exists>txt. fst (task_update e v s) = Inr (text_result False (Some []) txt))
      \<and> session_tasks (ts_lists (snd (task_update e v s))) (tn_session e)
         = snd (change_first (tu_task_id p) (apply_update (tn_now e) p) (session_tasks (ts_lists s) (tn_session e)))
      \<and> te_status (apply_update (tn_now e) p t) = TaskInProgress"
proof -
  let ?ts = "session_tasks (ts_lists s) (tn_session e)"
  have open_iff: "start_blockers ?ts p \<noteq> [] \<longleftrightarrow>
      (\<exists>b\<in>set (te_blocked_by t). \<exists>u\<in>set ?ts. te_id u = b \<and> te_status u \<noteq> TaskCompleted)"
    using assms(2,3) by (simp add: start_blockers_def unresolved_in_def filter_empty_conv list_ex_iff)
  show ?thesis
  proof (cases "start_blockers ?ts p = []")
    case False
    then have "session_tasks (ts_lists (snd (task_update e v s))) = session_tasks (ts_lists s)"
      by (auto simp: task_update_cases [OF assms(1)] Let_def)
    with False show ?thesis
      unfolding open_iff [symmetric] by (simp add: task_update_cases [OF assms(1)] Let_def)
  next
    case True
    then show ?thesis
      using assms(2,3) unfolding open_iff [symmetric]
      by (simp add: task_update_cases [OF assms(1)] Let_def update_task_in_store_def with_session_tasks_def
          case_prod_beta change_first_find apply_update_def)
  qed
qed

definition two_tasks :: task_state where
  "two_tasks =
     (let entry = (\<lambda>i bs by'. \<lparr>te_id = i, te_subject = i, te_description = i, te_active_form = None,
                   te_status = TaskPending, te_owner = Some ''me'', te_blocks = bs, te_blocked_by = by',
                   te_metadata = None, te_created_at = 0, te_updated_at = 0\<rparr>)
      in \<lparr>ts_lists = [''s'' \<mapsto> [entry ''1'' [] [], entry ''2'' [''3''] [''1''], entry ''3'' [] []]], ts_counter = 4\<rparr>)"

definition start_json :: "string \<Rightarrow> json" where
  "start_json i = JObject [(''task_id'', JString i), (''status'', JString ''in_progress'')]"

lemma task_starts_iff_unblocked_witness:
  "\<exists>txt. fst (task_update (task_env_of ''s'' 9) (start_json ''2'') two_tasks) = Inr (text_result True (Some []) txt)"
proof -
  define p where "p = \<lparr>tu_task_id = ''2'', tu_status = Some TaskInProgress, tu_subject = None, tu_description = None,
      tu_active_form = None, tu_owner = None, tu_blocks = None, tu_blocked_by = None\<rparr>"
  have v: "task_update_input_of (start_json ''2'') = Some p"
    unfolding p_def by code_simp
  have "find (\<lambda>t. te_id t = ''2'') (session_tasks (ts_lists two_tasks) ''s'') = Some (session_tasks (ts_lists two_tasks) ''s'' ! 1)"
    by (simp add: two_tasks_def session_tasks_def)
  moreover have "\<exists>b\<in>set (te_blocked_by (session_tasks (ts_lists two_tasks) ''s'' ! 1)).
      \<exists>u\<in>set (session_tasks (ts_lists two_tasks) ''s''). te_id u = b \<and> te_status u \<noteq> TaskCompleted"
    by (simp add: two_tasks_def session_tasks_def)
  ultimately show ?thesis
    using task_starts_iff_unblocked [OF v, of two_tasks "task_env_of ''s'' 9"] by (simp add: p_def task_env_of_def)
qed

section \<open>What the tools do not do\<close>

text \<open>
  An owner is never taken off a task: the input reads a null owner as no owner given, although its type has
  a value for clearing it.
\<close>

lemma bound_some: "Option.bind x f = Some y \<Longrightarrow> \<exists>z. x = Some z \<and> f z = Some y"
  by (cases x) auto

theorem update_never_clears_owner:
  assumes "task_update_input_of v = Some p" "te_owner t \<noteq> None"
  shows "te_owner (apply_update now p t) \<noteq> None"
proof -
  have "\<exists>fs. defaulted 5 [''owner''] None (de_option (de_option as_str)) fs = Some (tu_owner p)"
    using assms(1) unfolding task_update_input_of_def by (auto dest!: bound_some)
  then obtain fs where "defaulted 5 [''owner''] None (de_option (de_option as_str)) fs = Some (tu_owner p)" ..
  then have "tu_owner p \<noteq> Some None"
    using de_option_twice [of as_str] by (auto simp: defaulted_def split: list.splits)
  with assms(2) show ?thesis by (cases "tu_owner p") (auto simp: apply_update_def)
qed

text \<open>The task ''2'' says that it blocks ''3'', which starts all the same.\<close>

theorem blocks_are_not_enforced:
  "(let (r, s) = task_update (task_env_of ''s'' 9) (start_json ''3'') two_tasks
    in te_blocks (session_tasks (ts_lists s) ''s'' ! 1) = [''3''] \<and> te_status (session_tasks (ts_lists s) ''s'' ! 1) = TaskPending
       \<and> te_status (session_tasks (ts_lists s) ''s'' ! 2) = TaskInProgress)"
  by code_simp

text \<open>A call that starts a task and names its blockers is judged by the blockers of before.\<close>

theorem new_blockers_are_not_checked:
  "(let (r, s) = task_update (task_env_of ''s'' 9)
        (JObject [(''task_id'', JString ''1''), (''status'', JString ''in_progress''), (''blocked_by'', JArray [JString ''3''])])
        two_tasks
    in te_status (session_tasks (ts_lists s) ''s'' ! 0) = TaskInProgress
       \<and> unresolved_in (session_tasks (ts_lists s) ''s'') (te_blocked_by (session_tasks (ts_lists s) ''s'' ! 0)) = [''3''])"
  by code_simp

text \<open>The calls the prompt of the tool shows: the first is refused, the fields of the second change nothing.\<close>

theorem documented_update_is_refused:
  "task_update_input_of (JObject [(''taskId'', JString ''1''), (''status'', JString ''in_progress'')]) = None
   \<and> map_option tu_blocked_by
       (task_update_input_of (JObject [(''task_id'', JString ''2''), (''addBlockedBy'', JArray [JString ''1''])])) = Some None"
  by code_simp

theorem create_drops_active_form:
  "map_option tc_active_form
     (task_create_input_of (JObject [(''subject'', JString ''a''), (''description'', JString ''b''), (''activeForm'', JString ''c'')]))
   = Some None"
  by code_simp

text \<open>
  With no callback, which is what the dispatch of a turn hands every tool, the two tools on background tasks
  know of none.
\<close>

theorem background_tasks_are_unreachable:
  assumes "task_output_input_of v = Some p" "task_stop_input_of w = Some ab"
  shows "task_output None err polls v = Inr (''task not found'', True, NotFound)
    \<and> (\<exists>txt. task_stop quote None err w = Inr (text_result True None txt))"
  using assms by (simp add: task_output_def task_stop_def Let_def)

end
