(* ===== verification/TaskStore.thy ===== *)
theory TaskStore
  imports Serde Locks "HOL-Library.AList"
begin

text \<open>
  The files behind tasks: \<open>task/src/store.rs\<close>, a directory of task lists with claims, and \<open>task/src/running.rs\<close>,
  the snapshots of background tasks.  A directory is an association list from file names to texts, in the order
  its entries are read; a write replaces a text or adds an entry.  The JSON printer and parser are a parameter.
  Reading and writing a file that is there succeeds; the mutex of a store makes each operation one step.
\<close>

section \<open>Names\<close>

text \<open>\<open>char::is_alphanumeric\<close> on U+0000..U+00FF: ASCII letters and digits, and the letters and numbers above.\<close>

definition is_alphanumeric :: "char \<Rightarrow> bool" where
  "is_alphanumeric c \<longleftrightarrow> is_ascii_alphanumeric c
     \<or> (let n = char_code c in n \<in> {170, 178, 179, 181, 185, 186, 188, 189, 190} \<or> 192 \<le> n \<and> n \<noteq> 215 \<and> n \<noteq> 247)"

definition sanitise_char :: "char \<Rightarrow> char" where
  "sanitise_char c = (if is_alphanumeric c \<or> c = CHR ''-'' \<or> c = CHR ''_'' then c else CHR ''_'')"

definition sanitise_path :: "string \<Rightarrow> string" where
  "sanitise_path s = map sanitise_char s"

definition task_file :: "string \<Rightarrow> string" where
  "task_file i = sanitise_path i @ ''.json''"

text \<open>\<open>Path::extension\<close> and \<open>file_stem\<close> of a file name.\<close>

definition name_parts :: "string \<Rightarrow> string \<times> string option" where
  "name_parts name =
     (let r = takeWhile (\<lambda>c. c \<noteq> CHR ''.'') (rev name) in
      if length r = length name \<or> Suc (length r) = length name \<or> name = ''..'' then (name, None)
      else (take (length name - Suc (length r)) name, Some (rev r)))"

type_synonym files = "(string \<times> string) list"

record json_codec =
  jc_print :: "json \<Rightarrow> string"
  jc_parse :: "string \<Rightarrow> json option"

datatype 'a io = Ok 'a | InvalidData | Panicked

section \<open>The store\<close>

datatype claim_result = ClaimOk json | ClaimNotFound | AlreadyClaimed string | AlreadyDone | ClaimBlocked "string list"

definition list_id_from_env :: "string option \<Rightarrow> string \<Rightarrow> string" where
  "list_id_from_env var fallback = (case var of Some v \<Rightarrow> v | None \<Rightarrow> fallback)"

definition store_create :: "json_codec \<Rightarrow> json \<Rightarrow> files \<Rightarrow> string \<times> files" where
  "store_create cd task fs =
     (let i = (case get_str task ''id'' of Some s \<Rightarrow> s | None \<Rightarrow> ''<no-id>'')
      in (i, AList.update (task_file i) (jc_print cd task) fs))"

definition store_get :: "json_codec \<Rightarrow> string \<Rightarrow> files \<Rightarrow> json option io" where
  "store_get cd i fs =
     (case map_of fs (task_file i) of
        None \<Rightarrow> Ok None
      | Some txt \<Rightarrow> (case jc_parse cd txt of Some v \<Rightarrow> Ok (Some v) | None \<Rightarrow> InvalidData))"

definition store_update :: "json_codec \<Rightarrow> string \<Rightarrow> (json \<Rightarrow> json) \<Rightarrow> files \<Rightarrow> json option io \<times> files" where
  "store_update cd i mutate fs =
     (case map_of fs (task_file i) of
        None \<Rightarrow> (Ok None, fs)
      | Some txt \<Rightarrow>
          (case jc_parse cd txt of
             None \<Rightarrow> (InvalidData, fs)
           | Some v \<Rightarrow> (Ok (Some (mutate v)), AList.update (task_file i) (jc_print cd (mutate v)) fs)))"

definition store_delete :: "string \<Rightarrow> files \<Rightarrow> bool \<times> files" where
  "store_delete i fs = (map_of fs (task_file i) \<noteq> None, AList.delete (task_file i) fs)"

definition is_task_file :: "string \<Rightarrow> bool" where
  "is_task_file name = (snd (name_parts name) = Some ''json'' \<and> \<not> prefix ''.'' (fst (name_parts name)))"

definition store_list :: "json_codec \<Rightarrow> files \<Rightarrow> json list" where
  "store_list cd fs = List.map_filter (\<lambda>(n, txt). if is_task_file n then jc_parse cd txt else None) fs"

text \<open>\<open>task["owner"] = v\<close>: a null becomes an object, anything else that is not an object panics.\<close>

fun set_field :: "string \<Rightarrow> json \<Rightarrow> json \<Rightarrow> json option" where
  "set_field k x JNull = Some (JObject [(k, x)])"
| "set_field k x (JObject kvs) = Some (JObject (obj_insert kvs k x))"
| "set_field k x _ = None"

definition task_blockers :: "json \<Rightarrow> string list" where
  "task_blockers task =
     (case Option.bind (json_get task ''blocked_by'') (de_list as_str) of Some bs \<Rightarrow> bs | None \<Rightarrow> [])"

definition open_blockers :: "json list \<Rightarrow> string list \<Rightarrow> string list" where
  "open_blockers tasks bs =
     filter (\<lambda>b. list_ex (\<lambda>t. get_str t ''id'' = Some b \<and> get_str t ''status'' \<noteq> Some ''completed'') tasks) bs"

definition is_done :: "json \<Rightarrow> bool" where
  "is_done task = (get_str task ''status'' \<in> {Some ''completed'', Some ''cancelled'', Some ''deleted''})"

definition other_owner :: "string \<Rightarrow> json \<Rightarrow> string option" where
  "other_owner claimant task =
     (case get_str task ''owner'' of Some o' \<Rightarrow> (if o' \<noteq> claimant then Some o' else None) | None \<Rightarrow> None)"

definition claim_task :: "json_codec \<Rightarrow> string \<Rightarrow> string \<Rightarrow> files \<Rightarrow> claim_result io \<times> files" where
  "claim_task cd i claimant fs =
     (case map_of fs (task_file i) of
        None \<Rightarrow> (Ok ClaimNotFound, fs)
      | Some txt \<Rightarrow>
          (case jc_parse cd txt of
             None \<Rightarrow> (InvalidData, fs)
           | Some task \<Rightarrow>
               (case other_owner claimant task of
                  Some o' \<Rightarrow> (Ok (AlreadyClaimed o'), fs)
                | None \<Rightarrow>
                    (if is_done task then (Ok AlreadyDone, fs)
                     else
                       (let unresolved = open_blockers (store_list cd fs) (task_blockers task) in
                        if unresolved \<noteq> [] then (Ok (ClaimBlocked unresolved), fs)
                        else
                          (case set_field ''owner'' (JString claimant) task of
                             None \<Rightarrow> (Panicked, fs)
                           | Some task' \<Rightarrow>
                               (Ok (ClaimOk task'), AList.update (task_file i) (jc_print cd task') fs)))))))"

definition release_task :: "json_codec \<Rightarrow> string \<Rightarrow> files \<Rightarrow> bool io \<times> files" where
  "release_task cd i fs =
     (case map_of fs (task_file i) of
        None \<Rightarrow> (Ok False, fs)
      | Some txt \<Rightarrow>
          (case jc_parse cd txt of
             None \<Rightarrow> (InvalidData, fs)
           | Some task \<Rightarrow>
               (case Option.bind (set_field ''owner'' JNull task) (set_field ''status'' (JString ''pending'')) of
                  None \<Rightarrow> (Panicked, fs)
                | Some task' \<Rightarrow> (Ok True, AList.update (task_file i) (jc_print cd task') fs))))"

text \<open>\<open>u64\<close> from text: an optional plus sign and digits, within the width.\<close>

definition parse_u64 :: "string \<Rightarrow> nat option" where
  "parse_u64 s =
     (let ds = (case s of c # cs \<Rightarrow> if c = CHR ''+'' then cs else s | [] \<Rightarrow> s) in
      if ds = [] then None
      else case digits_value 0 ds of Some n \<Rightarrow> (if n < 2 ^ 64 then Some (nat n) else None) | None \<Rightarrow> None)"

definition highwatermark :: string where
  "highwatermark = ''.highwatermark''"

definition read_mark :: "files \<Rightarrow> nat" where
  "read_mark fs =
     (case map_of fs highwatermark of
        Some txt \<Rightarrow> (case parse_u64 (trim txt) of Some n \<Rightarrow> n | None \<Rightarrow> 0)
      | None \<Rightarrow> 0)"

text \<open>The sum is taken in 64 bits; an overflow panics where arithmetic is checked, and is a panic here.\<close>

definition next_id :: "files \<Rightarrow> string io \<times> files" where
  "next_id fs =
     (let next' = read_mark fs + 1 in
      if next' < 2 ^ 64 then (Ok (show_nat next'), AList.update highwatermark (show_nat next') fs)
      else (Panicked, fs))"

section \<open>Snapshots of background tasks\<close>

datatype snapshot_status = SnapRunning | SnapCompleted | SnapCancelled | SnapFailed string

record running_task_data =
  rd_task_id :: string
  rd_output :: string
  rd_events_log :: "string list"
  rd_status :: snapshot_status
  rd_created_at :: int
  rd_updated_at :: int
  rd_is_backgrounded :: bool

record snapshot_codec =
  sc_print :: "running_task_data \<Rightarrow> string"
  sc_parse :: "string \<Rightarrow> running_task_data option"

definition save_running ::
  "snapshot_codec \<Rightarrow> int \<Rightarrow> string \<Rightarrow> string \<Rightarrow> string list \<Rightarrow> snapshot_status \<Rightarrow> files \<Rightarrow> files" where
  "save_running cd now i output events status fs =
     AList.update (task_file i)
       (sc_print cd \<lparr>rd_task_id = i, rd_output = output, rd_events_log = events, rd_status = status,
                     rd_created_at = now, rd_updated_at = now, rd_is_backgrounded = True\<rparr>) fs"

definition remove_running :: "string \<Rightarrow> files \<Rightarrow> bool \<times> files" where
  "remove_running i fs = (map_of fs (task_file i) \<noteq> None, AList.delete (task_file i) fs)"

definition load_running :: "snapshot_codec \<Rightarrow> string \<Rightarrow> files \<Rightarrow> running_task_data option" where
  "load_running cd i fs = Option.bind (map_of fs (task_file i)) (sc_parse cd)"

definition mark_stale :: "running_task_data \<Rightarrow> running_task_data" where
  "mark_stale d = d\<lparr>rd_status := SnapFailed ''process restarted'', rd_is_backgrounded := True\<rparr>"

definition scan_and_mark_stale :: "snapshot_codec \<Rightarrow> files \<Rightarrow> running_task_data list" where
  "scan_and_mark_stale cd fs =
     List.map_filter
       (\<lambda>(n, txt). if snd (name_parts n) = Some ''json'' then map_option mark_stale (sc_parse cd txt) else None) fs"

end
