(* ===== verification/TaskStoreProps.thy ===== *)
theory TaskStoreProps
  imports TaskStore Lossless
begin

text \<open>
  The store of task files: names stay inside its directory, a claim is exclusive and respects blockers, ids are
  handed out in order; and what is lost when the mark is.
\<close>

section \<open>Names\<close>

lemma not_alphanumeric [simp]: "\<not> is_alphanumeric CHR ''/''" "\<not> is_alphanumeric CHR ''.''" "\<not> is_alphanumeric (CHR 0x00)"
  by (simp_all add: is_alphanumeric_def is_ascii_alphanumeric_def is_ascii_alphabetic_def is_ascii_upper_def
      is_ascii_lower_def is_ascii_digit_def char_code_def)

lemma sanitise_char_safe: "sanitise_char c \<notin> {CHR ''/'', CHR ''.'', CHR 0x00}"
  using not_alphanumeric by (auto simp: sanitise_char_def)

lemma sanitise_char_idem [simp]: "sanitise_char (sanitise_char c) = sanitise_char c"
  by (simp add: sanitise_char_def)

lemma sanitise_idem [simp]: "sanitise_path (sanitise_path s) = sanitise_path s"
  by (simp add: sanitise_path_def)

lemma set_sanitise: "set (sanitise_path s) \<inter> {CHR ''/'', CHR ''.'', CHR 0x00} = {}"
  unfolding sanitise_path_def set_map using sanitise_char_safe by blast

text \<open>Whatever an id contains, its file is one entry of the store's own directory, and never the id mark.\<close>

theorem task_file_stays_inside:
  "CHR ''/'' \<notin> set (task_file i) \<and> CHR 0x00 \<notin> set (task_file i) \<and> task_file i \<notin> {''.'', ''..'', [], highwatermark}"
proof -
  have "CHR ''/'' \<notin> set (task_file i) \<and> CHR 0x00 \<notin> set (task_file i)"
    using set_sanitise [of i] by (auto simp: task_file_def)
  moreover have "task_file i \<noteq> highwatermark"
  proof
    assume "task_file i = highwatermark"
    then have "last (task_file i) = last highwatermark" by simp
    then show False by (simp add: task_file_def highwatermark_def)
  qed
  moreover have "length (task_file i) \<ge> 5" by (simp add: task_file_def)
  ultimately show ?thesis by auto
qed

section \<open>Files\<close>

lemma map_of_update [simp]: "map_of (AList.update k v fs) = (map_of fs)(k \<mapsto> v)"
  by (rule update_conv')

lemma map_of_delete [simp]: "map_of (AList.delete k fs) = (map_of fs)(k := None)"
  by (simp add: delete_conv')

lemma task_file_not_mark [simp]: "task_file i \<noteq> highwatermark" "highwatermark \<noteq> task_file i"
  using task_file_stays_inside [of i] by auto

definition json_codec_ok :: "json_codec \<Rightarrow> bool" where
  "json_codec_ok cd \<longleftrightarrow> (\<forall>v. jc_parse cd (jc_print cd v) = Some v)"

definition tally_json :: json_codec where
  "tally_json = \<lparr>jc_print = (\<lambda>v. replicate (to_nat v) CHR ''1''), jc_parse = (\<lambda>s. Some (from_nat (length s)))\<rparr>"

lemma tally_json_ok [simp]: "json_codec_ok tally_json"
  by (simp add: json_codec_ok_def tally_json_def)

section \<open>Claims\<close>

lemma get_str_obj_insert [simp]:
  "get_str (JObject (obj_insert kvs k v)) k' = (if k' = k then as_str v else get_str (JObject kvs) k')"
  by (simp add: get_str_def)

lemma set_field_get: "set_field k x t = Some t' \<Longrightarrow> get_str t' k' = (if k' = k then as_str x else get_str t k')"
  by (cases t) (auto simp: get_str_def)

lemma claim_cases:
  assumes "claim_task cd i w fs = (r, fs')"
  obtains (unchanged) "fs' = fs" "\<And>t. r \<noteq> Ok (ClaimOk t)"
  | (claimed) c t t' where "map_of fs (task_file i) = Some c" "jc_parse cd c = Some t" "other_owner w t = None"
      "\<not> is_done t" "open_blockers (store_list cd fs) (task_blockers t) = []"
      "set_field ''owner'' (JString w) t = Some t'" "r = Ok (ClaimOk t')"
      "fs' = AList.update (task_file i) (jc_print cd t') fs"
proof (cases "map_of fs (task_file i)")
  case None
  then show thesis using assms by (intro unchanged) (auto simp: claim_task_def)
next
  case c: (Some c)
  show thesis
  proof (cases "jc_parse cd c")
    case None
    then show thesis using assms c by (intro unchanged) (auto simp: claim_task_def)
  next
    case t: (Some t)
    let ?open = "open_blockers (store_list cd fs) (task_blockers t)"
    show thesis
    proof (cases "other_owner w t \<noteq> None \<or> is_done t \<or> ?open \<noteq> [] \<or> set_field ''owner'' (JString w) t = None")
      case True
      then show thesis using assms c t by (intro unchanged) (auto simp: claim_task_def Let_def split: if_splits option.splits)
    next
      case False
      then obtain t' where "set_field ''owner'' (JString w) t = Some t'" by blast
      with False show thesis using assms c t by (intro claimed [OF c t]) (auto simp: claim_task_def Let_def)
    qed
  qed
qed

text \<open>
  C1. A claim succeeds only on a task that nobody else owns, that is not done, and each of whose blockers is
  completed or not in the store; it records the claimant and changes nothing else.
\<close>

theorem claim_needs_free_open_task:
  assumes "claim_task cd i w fs = (Ok (ClaimOk t'), fs')"
  shows "\<exists>c t. map_of fs (task_file i) = Some c \<and> jc_parse cd c = Some t
    \<and> get_str t ''owner'' \<in> {None, Some w} \<and> \<not> is_done t
    \<and> (\<forall>b\<in>set (task_blockers t). \<forall>u\<in>set (store_list cd fs).
         get_str u ''id'' = Some b \<longrightarrow> get_str u ''status'' = Some ''completed'')
    \<and> get_str t' ''owner'' = Some w \<and> (\<forall>k. k \<noteq> ''owner'' \<longrightarrow> get_str t' k = get_str t k)
    \<and> map_of fs' = (map_of fs)(task_file i \<mapsto> jc_print cd t')"
  using assms
proof (cases rule: claim_cases)
  case (claimed c t t2)
  then have "get_str t ''owner'' \<in> {None, Some w}"
    by (auto simp: other_owner_def split: option.splits if_splits)
  moreover have "\<forall>b\<in>set (task_blockers t). \<forall>u\<in>set (store_list cd fs).
      get_str u ''id'' = Some b \<longrightarrow> get_str u ''status'' = Some ''completed''"
    using claimed(5) by (auto simp: open_blockers_def filter_empty_conv list_ex_iff)
  ultimately show ?thesis using claimed set_field_get [OF claimed(6)] by auto
qed blast

text \<open>Who holds a task, as its file has it.\<close>

definition holder :: "json_codec \<Rightarrow> files \<Rightarrow> string \<Rightarrow> string option" where
  "holder cd fs i = Option.bind (Option.bind (map_of fs (task_file i)) (jc_parse cd)) (\<lambda>t. get_str t ''owner'')"

lemma claim_holder:
  assumes "json_codec_ok cd"
  shows "fst (claim_task cd i w fs) = Ok (ClaimOk t) \<Longrightarrow> holder cd (snd (claim_task cd i w fs)) i = Some w"
    and "holder cd fs j = Some o' \<Longrightarrow> holder cd (snd (claim_task cd i w fs)) j = Some o'"
    and "holder cd fs i = Some o' \<Longrightarrow> o' \<noteq> w \<Longrightarrow> fst (claim_task cd i w fs) = Ok (AlreadyClaimed o')"
proof -
  note law = assms [unfolded json_codec_ok_def, rule_format]
  obtain r fs' where eq: "claim_task cd i w fs = (r, fs')" by fastforce
  show "fst (claim_task cd i w fs) = Ok (ClaimOk t) \<Longrightarrow> holder cd (snd (claim_task cd i w fs)) i = Some w"
    using eq law by (cases rule: claim_cases) (auto simp: holder_def eq set_field_get)
  show "holder cd fs j = Some o' \<Longrightarrow> holder cd (snd (claim_task cd i w fs)) j = Some o'"
    using eq
  proof (cases rule: claim_cases)
    case (claimed c t t')
    assume h: "holder cd fs j = Some o'"
    show ?thesis
    proof (cases "task_file j = task_file i")
      case True
      with h claimed have "get_str t ''owner'' = Some o'" by (simp add: holder_def)
      with claimed(3) have "o' = w" by (simp add: other_owner_def split: if_splits)
      with True claimed law show ?thesis by (simp add: holder_def eq set_field_get)
    qed (use h claimed in \<open>simp add: holder_def eq\<close>)
  qed (simp add: eq)
  show "holder cd fs i = Some o' \<Longrightarrow> o' \<noteq> w \<Longrightarrow> fst (claim_task cd i w fs) = Ok (AlreadyClaimed o')"
    by (auto simp: holder_def claim_task_def other_owner_def bind_eq_Some_conv)
qed

definition claims :: "json_codec \<Rightarrow> (string \<times> string) list \<Rightarrow> files \<Rightarrow> files" where
  "claims cd cs fs = foldl (\<lambda>fs (i, w). snd (claim_task cd i w fs)) fs cs"

lemma claims_holder:
  assumes "json_codec_ok cd" "holder cd fs i = Some o'"
  shows "holder cd (claims cd cs fs) i = Some o'"
  using assms(2)
  by (induction cs arbitrary: fs) (auto simp: claims_def intro: claim_holder(2) [OF assms(1)])

text \<open>C32. 
  C1. A claim is exclusive: once it succeeded, and however many claims on whatever tasks follow, anyone else who
  asks for the task is told who has it.
\<close>

theorem claim_is_exclusive:
  assumes "json_codec_ok cd" "claim_task cd i w fs = (Ok (ClaimOk t), fs')" "w' \<noteq> w"
  shows "fst (claim_task cd i w' (claims cd cs fs')) = Ok (AlreadyClaimed w)"
proof -
  have "holder cd fs' i = Some w" using claim_holder(1) [OF assms(1), of i w fs t] assms(2) by simp
  then have "holder cd (claims cd cs fs') i = Some w" by (rule claims_holder [OF assms(1)])
  then show ?thesis using claim_holder(3) [OF assms(1)] assms(3) by metis
qed


definition open_task :: json where
  "open_task = JObject [(''id'', JString ''7''), (''status'', JString ''pending'')]"

definition one_task :: files where
  "one_task = [(''7.json'', jc_print tally_json open_task)]"

lemma task_file_7 [simp]: "task_file ''7'' = ''7.json''"
  by code_simp

lemma claim_one_task:
  "\<exists>t fs'. claim_task tally_json ''7'' ''ann'' one_task = (Ok (ClaimOk t), fs')"
proof -
  have p: "jc_parse tally_json (jc_print tally_json v) = Some v" for v
    using tally_json_ok by (simp add: json_codec_ok_def)
  have "get_str open_task ''owner'' = None" "\<not> is_done open_task" "task_blockers open_task = []"
    by (simp_all add: open_task_def get_str_def is_done_def task_blockers_def)
  moreover obtain t' where "set_field ''owner'' (JString ''ann'') open_task = Some t'"
    by (simp add: open_task_def)
  ultimately show ?thesis
    by (simp add: claim_task_def one_task_def p other_owner_def open_blockers_def)
qed

lemma claim_needs_free_open_task_witness:
  "\<exists>t' fs'. claim_task tally_json ''7'' ''ann'' one_task = (Ok (ClaimOk t'), fs') \<and> get_str t' ''owner'' = Some ''ann''"
  using claim_one_task claim_needs_free_open_task [of tally_json "''7''" "''ann''" one_task] by blast

lemma claim_is_exclusive_witness:
  "\<exists>fs'. fst (claim_task tally_json ''7'' ''bob'' (claims tally_json [(''7'', ''bob''), (''7'', ''eve'')] fs')) = Ok (AlreadyClaimed ''ann'')"
  using claim_one_task claim_is_exclusive [OF tally_json_ok, of "''7''" "''ann''" one_task _ _ "''bob''" "[(''7'', ''bob''), (''7'', ''eve'')]"]
  by fastforce

section \<open>Ids\<close>

lemma digits_value_append:
  "digits_value a (xs @ ys) = Option.bind (digits_value a xs) (\<lambda>b. digits_value b ys)"
  by (induction a xs rule: digits_value.induct) (auto split: option.splits)

lemma decimal_digit:
  assumes "d < 10"
  shows "digit_of (char_of (48 + d)) = Some (int d)" "is_ascii_digit (char_of (48 + d))"
proof -
  have code: "char_code (char_of (48 + d)) = 48 + d"
    using assms unfolding char_code_def of_char_of by (intro mod_less) linarith
  show digit: "is_ascii_digit (char_of (48 + d))" using assms by (simp only: is_ascii_digit_def code) simp
  show "digit_of (char_of (48 + d)) = Some (int d)" using digit by (simp only: digit_of_def code) simp
qed

lemma show_nat_value: "digits_value 0 (show_nat n) = Some (int n)"
proof (induction n rule: less_induct)
  case (less n)
  show ?case
  proof (cases "n < 10")
    case True
    then show ?thesis using decimal_digit(1) [of n] by (simp add: show_nat.simps [of n])
  next
    case False
    then have "digits_value 0 (show_nat (n div 10)) = Some (int (n div 10))" using less by simp
    moreover have "10 * int (n div 10) + int (n mod 10) = int n" by presburger
    ultimately show ?thesis
      using False decimal_digit(1) [of "n mod 10"] by (simp add: show_nat.simps [of n] digits_value_append)
  qed
qed

lemma show_nat_all_digits: "list_all is_ascii_digit (show_nat n) \<and> show_nat n \<noteq> []"
proof (induction n rule: less_induct)
  case (less n)
  then show ?case
    using decimal_digit(2) [of n] decimal_digit(2) [of "n mod 10"]
    by (cases "n < 10") (simp_all add: show_nat.simps [of n])
qed

lemma digit_is_no_blank: "is_ascii_digit c \<Longrightarrow> \<not> is_whitespace c \<and> c \<noteq> CHR ''+''"
  by (auto simp: is_ascii_digit_def is_whitespace_def whitespace_chars_def char_code_def)

lemma trim_show_nat [simp]: "trim (show_nat n) = show_nat n"
proof (rule trim_id)
  have "hd (show_nat n) \<in> set (show_nat n)" "last (show_nat n) \<in> set (show_nat n)"
    using show_nat_all_digits [of n] by simp_all
  then show "show_nat n = [] \<or> \<not> is_whitespace (hd (show_nat n)) \<and> \<not> is_whitespace (last (show_nat n))"
    using show_nat_all_digits [of n] digit_is_no_blank by (auto simp: list_all_iff)
qed

lemma parse_show_u64: "n < 2 ^ 64 \<Longrightarrow> parse_u64 (show_nat n) = Some n"
proof -
  assume n: "n < 2 ^ 64"
  obtain c cs where c: "show_nat n = c # cs" using show_nat_all_digits [of n] by (cases "show_nat n") auto
  then have "c \<noteq> CHR ''+''" using show_nat_all_digits [of n] digit_is_no_blank by simp
  moreover have "int n < 2 ^ 64" using n by (metis of_nat_less_iff of_nat_numeral of_nat_power)
  ultimately show ?thesis using show_nat_value [of n] by (simp add: parse_u64_def c Let_def)
qed


text \<open>The operations that write, as a run of the store; \<open>issued\<close> are the ids it handed out.\<close>

datatype store_op =
    StCreate json
  | StUpdate string "json \<Rightarrow> json"
  | StDelete string
  | StClaim string string
  | StRelease string
  | StNext

fun store_step :: "json_codec \<Rightarrow> store_op \<Rightarrow> files \<Rightarrow> string list \<times> files" where
  "store_step cd (StCreate v) fs = ([], snd (store_create cd v fs))"
| "store_step cd (StUpdate i f) fs = ([], snd (store_update cd i f fs))"
| "store_step cd (StDelete i) fs = ([], snd (store_delete i fs))"
| "store_step cd (StClaim i w) fs = ([], snd (claim_task cd i w fs))"
| "store_step cd (StRelease i) fs = ([], snd (release_task cd i fs))"
| "store_step cd StNext fs = ((case fst (next_id fs) of Ok i \<Rightarrow> [i] | _ \<Rightarrow> []), snd (next_id fs))"

fun issued :: "json_codec \<Rightarrow> store_op list \<Rightarrow> files \<Rightarrow> string list" where
  "issued cd [] fs = []"
| "issued cd (op # ops) fs = fst (store_step cd op fs) @ issued cd ops (snd (store_step cd op fs))"

lemma read_mark_update [simp]: "read_mark (AList.update (task_file i) v fs) = read_mark fs"
  by (simp add: read_mark_def)

lemma read_mark_delete [simp]: "read_mark (AList.delete (task_file i) fs) = read_mark fs"
  by (simp add: read_mark_def)

lemma read_mark_step: "op \<noteq> StNext \<Longrightarrow> read_mark (snd (store_step cd op fs)) = read_mark fs \<and> fst (store_step cd op fs) = []"
proof (cases op)
  case (StClaim i w)
  obtain r fs' where c: "claim_task cd i w fs = (r, fs')" by fastforce
  then have "read_mark fs' = read_mark fs" by (cases rule: claim_cases) simp_all
  then show ?thesis by (simp add: StClaim c)
qed (auto simp: store_create_def store_update_def store_delete_def release_task_def Let_def split: option.splits)

lemma next_id_step:
  assumes "read_mark fs + 1 < 2 ^ 64"
  shows "next_id fs = (Ok (show_nat (read_mark fs + 1)), AList.update highwatermark (show_nat (read_mark fs + 1)) fs)"
    and "read_mark (snd (next_id fs)) = read_mark fs + 1"
proof -
  show n: "next_id fs = (Ok (show_nat (read_mark fs + 1)), AList.update highwatermark (show_nat (read_mark fs + 1)) fs)"
    using assms by (simp only: next_id_def Let_def if_True)
  show "read_mark (snd (next_id fs)) = read_mark fs + 1"
  proof -
    have "read_mark (AList.update highwatermark (show_nat m) fs) = m" if "m < 2 ^ 64" for m
      using parse_show_u64 [OF that] by (simp only: read_mark_def map_of_update fun_upd_same option.case trim_show_nat)
    from this [OF assms] show ?thesis unfolding n snd_conv .
  qed
qed

text \<open>
  C1. The store hands out consecutive ids after its mark, whatever else is done to the tasks in between: no
  operation on a task touches the mark, and no id comes twice.
\<close>

theorem ids_are_issued_in_order:
  assumes "read_mark fs + length (filter ((=) StNext) ops) < 2 ^ 64"
  shows "issued cd ops fs = map show_nat [read_mark fs + 1 ..< read_mark fs + 1 + length (filter ((=) StNext) ops)]
    \<and> distinct (issued cd ops fs)"
proof -
  have order: "issued cd ops fs = map show_nat [read_mark fs + 1 ..< read_mark fs + 1 + length (filter ((=) StNext) ops)]"
    using assms
  proof (induction ops arbitrary: fs)
    case (Cons op ops)
    show ?case
    proof (cases "op = StNext")
      case True
      with Cons.prems have m: "read_mark fs + 1 < 2 ^ 64" by simp
      from Cons.prems True have "read_mark (snd (next_id fs)) + length (filter ((=) StNext) ops) < 2 ^ 64"
        unfolding next_id_step(2) [OF m] by simp
      from Cons.IH [OF this] show ?thesis
        unfolding next_id_step(2) [OF m] using True
        by (simp add: next_id_step(1) [OF m, simplified] upt_conv_Cons del: upt_Suc)
    next
      case False
      with Cons.prems read_mark_step [OF False, of cd fs] Cons.IH [of "snd (store_step cd op fs)"] show ?thesis
        by simp
    qed
  qed simp
  have inj: "inj show_nat"
  proof (rule injI)
    fix x y assume "show_nat x = show_nat y"
    then have "digits_value 0 (show_nat x) = digits_value 0 (show_nat y)" by simp
    then show "x = y" by (simp add: show_nat_value)
  qed
  show ?thesis unfolding order by (simp add: distinct_map inj_on_subset [OF inj])
qed

lemma ids_are_issued_in_order_witness:
  "issued tally_json [StNext, StCreate open_task, StClaim ''7'' ''ann'', StNext] one_task = [''1'', ''2'']"
proof -
  have m: "read_mark one_task = 0" by (simp add: read_mark_def one_task_def highwatermark_def)
  have s: "show_nat (Suc 0) = ''1''" "show_nat (Suc (Suc 0)) = ''2''" by code_simp+
  have n: "[read_mark one_task + 1 ..< read_mark one_task + 1 + 2] = [Suc 0, Suc (Suc 0)]" by (simp add: m upt_rec)
  have c: "length (filter ((=) StNext) [StNext, StCreate open_task, StClaim ''7'' ''ann'', StNext]) = 2" by simp
  have b: "read_mark one_task + 2 < 2 ^ 64" by (simp add: m)
  show ?thesis
    using ids_are_issued_in_order [of one_task "[StNext, StCreate open_task, StClaim ''7'' ''ann'', StNext]" tally_json]
    unfolding c n list.map s using b by (simp only: simp_thms)
qed

section \<open>What the store does not promise\<close>

text \<open>An unreadable mark counts as zero: ids start over, and creating a task under one of them replaces a task.\<close>

theorem lost_mark_reissues_ids:
  assumes "map_of fs highwatermark = Some []"
  shows "fst (next_id fs) = Ok (show_nat 1)
    \<and> map_of (snd (store_create cd (JObject [(''id'', JString (show_nat 1)), (''status'', JString ''pending'')]) fs))
        (task_file (show_nat 1))
      = Some (jc_print cd (JObject [(''id'', JString (show_nat 1)), (''status'', JString ''pending'')]))"
proof -
  have "read_mark fs = 0" using assms by (simp add: read_mark_def parse_u64_def)
  then have "fst (next_id fs) = Ok (show_nat 1)" using next_id_step(1) [of fs] by simp
  then show ?thesis by (simp add: store_create_def get_str_def Let_def)
qed

text \<open>Ids that differ only in characters no file name may have share a file: the second task replaces the first.\<close>

theorem alike_ids_share_a_file:
  "task_file ''a/b'' = task_file ''a_b'' \<and> task_file ''a.b'' = task_file ''a b''"
  by code_simp

text \<open>
  A cancelled task blocks for ever what names it as a blocker, while one whose file is gone blocks nothing.
\<close>

theorem cancelled_blocks_deleted_does_not:
  "open_blockers [JObject [(''id'', JString ''1''), (''status'', JString ''cancelled'')]] [''1''] = [''1'']
   \<and> open_blockers [] [''1''] = []"
  by code_simp

text \<open>A claim leaves the status alone: a claimed task still reads as pending.\<close>

theorem claim_keeps_status:
  assumes "claim_task cd i w fs = (Ok (ClaimOk t'), fs')" "map_of fs (task_file i) = Some c" "jc_parse cd c = Some t"
  shows "get_str t' ''status'' = get_str t ''status''"
  using assms(1)
proof (cases rule: claim_cases)
  case (claimed c2 t2 t3)
  with assms(2,3) have "set_field ''owner'' (JString w) t = Some t'" by simp
  from set_field_get [OF this, of "''status''"] show ?thesis by simp
qed blast

text \<open>Saving a snapshot again replaces the time of its creation, so the two times it records never differ.\<close>

theorem snapshot_forgets_creation:
  assumes "\<forall>d. sc_parse cd (sc_print cd d) = Some d"
  shows "map_option (\<lambda>d. (rd_created_at d, rd_updated_at d))
     (load_running cd i (save_running cd t2 i o2 e2 s2 (save_running cd t1 i o1 e1 s1 fs))) = Some (t2, t2)"
  using assms by (simp add: load_running_def save_running_def)

text \<open>After a restart every snapshot counts as failed, also that of a task that had completed.\<close>

lemma stale_all_failed:
  "d \<in> set (scan_and_mark_stale cd fs) \<Longrightarrow> rd_status d = SnapFailed ''process restarted'' \<and> rd_is_backgrounded d"
  unfolding scan_and_mark_stale_def
  by (induction fs) (auto simp: List.map_filter_simps mark_stale_def split: option.splits if_splits)

end
