(* ===== verification/Disk.thy ===== *)
theory Disk
  imports Paths "HOL-Library.Word"
begin

text \<open>
  The files the tools work on: \<open>FileSystem\<close> and \<open>Metadata\<close> of \<open>core/src/interface/exec/filesystem.rs\<close>, its
  local provider \<open>exec/local/filesystem.rs\<close>, and the calls of \<open>std::fs\<close> beneath it.

  A disk maps where a path leads (\<open>dk_real\<close>: links and \<open>..\<close> resolved, as the operating system resolves them) to a
  directory or a file with its time of change.  A file is the text its bytes decode to, or bytes that are not UTF-8.
  \<open>dk_refuses\<close> are the calls the operating system refuses for a reason of its own, a refused call leaves the disk as
  it was; \<open>dk_words\<close> and \<open>dk_utf8_words\<close> are how an error is put.  Nothing modelled makes or removes a link, so \<open>dk_real\<close> and the
  refusals stay.
\<close>

section \<open>The disk\<close>

datatype content = Utf8 string | Raw "8 word list"

fun content_len :: "content \<Rightarrow> nat" where
  "content_len (Utf8 s) = utf8_len s"
| "content_len (Raw bs) = length bs"

text \<open>\<open>String::from_utf8\<close>.\<close>

fun from_utf8 :: "content \<Rightarrow> string option" where
  "from_utf8 (Utf8 s) = Some s"
| "from_utf8 (Raw bs) = None"

datatype node = Dir | File content nat

datatype io_kind = NotFound | PermissionDenied | OtherKind

datatype fs_op = OpStat | OpRead | OpWrite | OpMkdir | OpRemove

record disk =
  dk_node :: "path \<Rightarrow> node option"
  dk_real :: "path \<Rightarrow> path"
  dk_refuses :: "fs_op \<Rightarrow> path \<Rightarrow> io_kind option"
  dk_words :: "io_kind \<Rightarrow> string"
  dk_utf8_words :: "8 word list \<Rightarrow> string"

definition node_at :: "disk \<Rightarrow> path \<Rightarrow> node option" where
  "node_at d p = dk_node d (dk_real d p)"

definition content_at :: "disk \<Rightarrow> path \<Rightarrow> content option" where
  "content_at d p = (case node_at d p of Some (File c _) \<Rightarrow> Some c | _ \<Rightarrow> None)"

definition put_node :: "path \<Rightarrow> node option \<Rightarrow> disk \<Rightarrow> disk" where
  "put_node p n d = d\<lparr>dk_node := (dk_node d)(p := n)\<rparr>"

text \<open>\<open>std::fs::metadata\<close>, \<open>read\<close>, \<open>write\<close>, \<open>create_dir_all\<close> and \<open>remove_file\<close>.\<close>

definition std_stat :: "path \<Rightarrow> disk \<Rightarrow> io_kind + node" where
  "std_stat p d =
     (case dk_refuses d OpStat p of
        Some k \<Rightarrow> Inl k
      | None \<Rightarrow> (case node_at d p of None \<Rightarrow> Inl NotFound | Some n \<Rightarrow> Inr n))"

definition std_read :: "path \<Rightarrow> disk \<Rightarrow> io_kind + content" where
  "std_read p d =
     (case dk_refuses d OpRead p of
        Some k \<Rightarrow> Inl k
      | None \<Rightarrow>
          (case node_at d p of
             None \<Rightarrow> Inl NotFound
           | Some Dir \<Rightarrow> Inl OtherKind
           | Some (File c t) \<Rightarrow> Inr c))"

definition parent_fault :: "path \<Rightarrow> disk \<Rightarrow> io_kind option" where
  "parent_fault r d =
     (case path_parent r of
        None \<Rightarrow> None
      | Some q \<Rightarrow>
          (case dk_node d q of None \<Rightarrow> Some NotFound | Some Dir \<Rightarrow> None | Some (File _ _) \<Rightarrow> Some OtherKind))"

definition std_write :: "nat \<Rightarrow> path \<Rightarrow> content \<Rightarrow> disk \<Rightarrow> io_kind + disk" where
  "std_write now p c d =
     (case dk_refuses d OpWrite p of
        Some k \<Rightarrow> Inl k
      | None \<Rightarrow>
          (case parent_fault (dk_real d p) d of
             Some k \<Rightarrow> Inl k
           | None \<Rightarrow>
               (if node_at d p = Some Dir then Inl OtherKind
                else Inr (put_node (dk_real d p) (Some (File c now)) d))))"

definition std_create_dir_all :: "path \<Rightarrow> disk \<Rightarrow> io_kind + disk" where
  "std_create_dir_all p d =
     (case dk_refuses d OpMkdir p of
        Some k \<Rightarrow> Inl k
      | None \<Rightarrow>
          (let qs = ancestors (dk_real d p) in
           if list_ex (\<lambda>q. case dk_node d q of Some (File _ _) \<Rightarrow> True | _ \<Rightarrow> False) qs then Inl OtherKind
           else Inr (foldl (\<lambda>d' q. if dk_node d' q = None then put_node q (Some Dir) d' else d') d qs)))"

definition std_remove_file :: "path \<Rightarrow> disk \<Rightarrow> io_kind + disk" where
  "std_remove_file p d =
     (case dk_refuses d OpRemove p of
        Some k \<Rightarrow> Inl k
      | None \<Rightarrow>
          (case node_at d p of
             None \<Rightarrow> Inl NotFound
           | Some Dir \<Rightarrow> Inl OtherKind
           | Some (File _ _) \<Rightarrow> Inr (put_node (dk_real d p) None d)))"

section \<open>The local provider\<close>

datatype exec_error = ExecUnavailable string | ExecDenied string | ExecFailed string

record file_metadata =
  md_is_dir :: bool
  md_is_file :: bool
  md_is_symlink :: bool
  md_len :: nat

definition exec_failed :: "disk \<Rightarrow> path \<Rightarrow> io_kind \<Rightarrow> exec_error" where
  "exec_failed d p k =
     (let words = path_str p @ '': '' @ dk_words d k
      in if k = PermissionDenied then ExecDenied words else ExecFailed words)"

definition node_metadata :: "node \<Rightarrow> file_metadata" where
  "node_metadata n =
     (case n of
        Dir \<Rightarrow> \<lparr>md_is_dir = True, md_is_file = False, md_is_symlink = False, md_len = 0\<rparr>
      | File c _ \<Rightarrow> \<lparr>md_is_dir = False, md_is_file = True, md_is_symlink = False, md_len = content_len c\<rparr>)"

definition fs_canonicalize :: "path \<Rightarrow> disk \<Rightarrow> exec_error + path" where
  "fs_canonicalize p d =
     (case std_stat p d of Inl k \<Rightarrow> Inl (exec_failed d p k) | Inr _ \<Rightarrow> Inr (dk_real d p))"

definition fs_metadata :: "path \<Rightarrow> disk \<Rightarrow> exec_error + file_metadata" where
  "fs_metadata p d =
     (case dk_refuses d OpStat p of
        Some k \<Rightarrow> Inl (exec_failed d p k)
      | None \<Rightarrow>
          (case dk_node d p of
             None \<Rightarrow> Inl (exec_failed d p NotFound)
           | Some n \<Rightarrow> Inr (node_metadata n)))"

definition fs_read :: "path \<Rightarrow> disk \<Rightarrow> exec_error + content" where
  "fs_read p d = (case std_read p d of Inl k \<Rightarrow> Inl (exec_failed d p k) | Inr c \<Rightarrow> Inr c)"

definition fs_write :: "nat \<Rightarrow> path \<Rightarrow> content \<Rightarrow> disk \<Rightarrow> exec_error + disk" where
  "fs_write now p c d = (case std_write now p c d of Inl k \<Rightarrow> Inl (exec_failed d p k) | Inr d' \<Rightarrow> Inr d')"

definition fs_create_dir_all :: "path \<Rightarrow> disk \<Rightarrow> exec_error + disk" where
  "fs_create_dir_all p d =
     (case std_create_dir_all p d of Inl k \<Rightarrow> Inl (exec_failed d p k) | Inr d' \<Rightarrow> Inr d')"

text \<open>The methods the contract provides itself.\<close>

definition fs_read_to_string :: "path \<Rightarrow> disk \<Rightarrow> exec_error + string" where
  "fs_read_to_string p d =
     (case fs_read p d of
        Inl e \<Rightarrow> Inl e
      | Inr c \<Rightarrow>
          (case c of
             Utf8 s \<Rightarrow> Inr s
           | Raw bs \<Rightarrow> Inl (ExecFailed (path_str p @ '' is not valid UTF-8: '' @ dk_utf8_words d bs))))"

definition fs_write_str :: "nat \<Rightarrow> path \<Rightarrow> string \<Rightarrow> disk \<Rightarrow> exec_error + disk" where
  "fs_write_str now p s d = fs_write now p (Utf8 s) d"

definition metadata_following_symlinks :: "path \<Rightarrow> disk \<Rightarrow> exec_error + file_metadata" where
  "metadata_following_symlinks p d =
     (case fs_canonicalize p d of Inl e \<Rightarrow> Inl e | Inr r \<Rightarrow> fs_metadata r d)"

text \<open>The walk up to the deepest ancestor that exists; the names passed on the way are put back.\<close>

function canonicalize_from :: "disk \<Rightarrow> path \<Rightarrow> path \<Rightarrow> string list \<Rightarrow> path" where
  "canonicalize_from d p cursor unresolved =
     (case fs_canonicalize cursor d of
        Inr r \<Rightarrow> foldl path_push r (map Normal unresolved)
      | Inl _ \<Rightarrow>
          (case file_name cursor of
             None \<Rightarrow> p
           | Some n \<Rightarrow>
               (case path_parent cursor of
                  None \<Rightarrow> p
                | Some q \<Rightarrow> (if q = [] then p else canonicalize_from d p q (n # unresolved)))))"
  by pat_completeness auto
termination
  by (relation "measure (\<lambda>(d, p, c, u). length c)") (auto simp: path_parent_def split: if_splits)

declare canonicalize_from.simps [simp del]

definition canonicalize_best_effort :: "disk \<Rightarrow> path \<Rightarrow> path" where
  "canonicalize_best_effort d p = canonicalize_from d p p []"

lemmas disk_defs [kernel_defs] =
  node_at_def content_at_def put_node_def std_stat_def std_read_def parent_fault_def std_write_def
  std_create_dir_all_def std_remove_file_def exec_failed_def node_metadata_def fs_canonicalize_def
  fs_metadata_def fs_read_def fs_write_def fs_create_dir_all_def fs_read_to_string_def fs_write_str_def
  metadata_following_symlinks_def canonicalize_best_effort_def

section \<open>Laws\<close>

text \<open>What is the same on two disks that differ in their nodes only.\<close>

definition same_ground :: "disk \<Rightarrow> disk \<Rightarrow> bool" where
  "same_ground d d' \<longleftrightarrow> dk_real d' = dk_real d \<and> dk_refuses d' = dk_refuses d
     \<and> dk_words d' = dk_words d \<and> dk_utf8_words d' = dk_utf8_words d"

lemma same_ground_refl [simp]: "same_ground d d"
  by (simp add: same_ground_def)

lemma same_ground_trans [trans]: "same_ground a b \<Longrightarrow> same_ground b c \<Longrightarrow> same_ground a c"
  by (simp add: same_ground_def)

lemma same_ground_put [simp]: "same_ground d (put_node p n d)"
  by (simp add: same_ground_def put_node_def)

lemma same_ground_real: "same_ground d d' \<Longrightarrow> dk_real d' = dk_real d"
  by (simp add: same_ground_def)

lemma dk_node_put [simp]: "dk_node (put_node p n d) q = (if q = p then n else dk_node d q)"
  by (simp add: put_node_def)

lemma dk_put_frame [simp]:
  "dk_real (put_node p n d) = dk_real d" "dk_refuses (put_node p n d) = dk_refuses d"
  "dk_words (put_node p n d) = dk_words d" "dk_utf8_words (put_node p n d) = dk_utf8_words d"
  by (simp_all add: put_node_def)

lemma node_at_put [simp]:
  "node_at (put_node (dk_real d p) n d) q = (if dk_real d q = dk_real d p then n else node_at d q)"
  by (simp add: node_at_def)

lemma std_write_InrD:
  assumes "std_write now p c d = Inr d'"
  shows "d' = put_node (dk_real d p) (Some (File c now)) d"
  using assms by (auto simp: std_write_def split: option.splits if_splits)

lemma fs_write_InrD:
  assumes "fs_write now p c d = Inr d'"
  shows "d' = put_node (dk_real d p) (Some (File c now)) d"
  using assms by (auto simp: fs_write_def split: sum.splits dest: std_write_InrD)

lemma std_remove_InrD:
  assumes "std_remove_file p d = Inr d'"
  shows "d' = put_node (dk_real d p) None d"
  using assms by (auto simp: std_remove_file_def split: option.splits node.splits)

text \<open>Making directories changes no node that is there.\<close>

lemma mkdirs_fold:
  "same_ground d (foldl (\<lambda>d' q. if dk_node d' q = None then put_node q (Some Dir) d' else d') d qs)
   \<and> dk_node (foldl (\<lambda>d' q. if dk_node d' q = None then put_node q (Some Dir) d' else d') d qs) r
      = (if dk_node d r = None \<and> r \<in> set qs then Some Dir else dk_node d r)"
proof (induction qs arbitrary: d)
  case Nil
  show ?case by simp
next
  case (Cons q qs)
  let ?d = "if dk_node d q = None then put_node q (Some Dir) d else d"
  have f: "same_ground d ?d" by simp
  show ?case using Cons.IH [of ?d] same_ground_trans [OF f, of "foldl _ ?d qs"]
    by (auto simp del: dk_put_frame)
qed

lemma std_create_dir_all_InrD:
  assumes "std_create_dir_all p d = Inr d'"
  shows "same_ground d d'" and "dk_node d' r = (if dk_node d r = None \<and> r \<in> set (ancestors (dk_real d p)) then Some Dir else dk_node d r)"
  using assms mkdirs_fold [of d "ancestors (dk_real d p)"]
  by (auto simp: std_create_dir_all_def Let_def split: option.splits if_splits)

lemma fs_create_dir_all_InrD:
  assumes "fs_create_dir_all p d = Inr d'"
  shows "same_ground d d'" and "dk_node d' r = (if dk_node d r = None \<and> r \<in> set (ancestors (dk_real d p)) then Some Dir else dk_node d r)"
  using assms std_create_dir_all_InrD [of p d d']
  by (auto simp: fs_create_dir_all_def split: sum.splits)

end
