(* ===== verification/SessionState.thy ===== *)
theory SessionState
  imports Disk Permission Serde
begin

text \<open>
  The mutable state one session's tools share: \<open>core/src/context/session.rs\<close>, without the task lists, which
  \<open>TaskList\<close> holds.  Every field sits behind a lock of its own and every operation is one step.  The clocks and the
  counters are numbers that never reach their width.  A snapshot's time of record is left out, nothing reads it.
\<close>

section \<open>The state\<close>

datatype todo_status = TodoPending | TodoInProgress | TodoCompleted

record todo_item =
  ti_content :: string
  ti_status :: todo_status
  ti_active_form :: string

record file_snapshot =
  sn_id :: nat
  sn_turn :: nat
  sn_path :: path
  sn_before :: "content option"
  sn_tool :: string

record file_snapshot_registry =
  sr_next_id :: nat
  sr_entries :: "file_snapshot list"
  sr_seen :: "(nat \<times> path) set"

record file_read_entry =
  fe_mtime :: nat
  fe_offset :: "nat option"
  fe_limit :: "nat option"

record permission_denial =
  pd_tool_name :: string
  pd_tool_use_id :: string
  pd_reason :: string

record session_state =
  ss_permission_mode :: permission_mode
  ss_todos :: "todo_item list"
  ss_activated_tools :: "string set"
  ss_denials :: "permission_denial list"
  ss_snapshots :: file_snapshot_registry
  ss_turn :: nat
  ss_last_todo_write :: "nat option"
  ss_last_nudge :: nat
  ss_plan_text :: "string option"
  ss_plan_slug :: "string option"
  ss_sandbox_allow_writes :: "path list"
  ss_read_cache :: "path \<Rightarrow> file_read_entry option"
  ss_last_read :: "path option"
  ss_structured :: "json option"

definition session_state_new :: session_state where
  "session_state_new =
     \<lparr>ss_permission_mode = Default, ss_todos = [], ss_activated_tools = {}, ss_denials = [],
       ss_snapshots = \<lparr>sr_next_id = 0, sr_entries = [], sr_seen = {}\<rparr>, ss_turn = 0, ss_last_todo_write = None,
       ss_last_nudge = 0, ss_plan_text = None, ss_plan_slug = None, ss_sandbox_allow_writes = [],
       ss_read_cache = (\<lambda>_. None), ss_last_read = None, ss_structured = None\<rparr>"

section \<open>File snapshots\<close>

definition registry_record :: "nat \<Rightarrow> path \<Rightarrow> content option \<Rightarrow> string \<Rightarrow> file_snapshot_registry \<Rightarrow> file_snapshot_registry" where
  "registry_record turn p before tool reg =
     (if (turn, p) \<in> sr_seen reg then reg
      else reg\<lparr>sr_seen := insert (turn, p) (sr_seen reg), sr_next_id := sr_next_id reg + 1,
             sr_entries := sr_entries reg
               @ [\<lparr>sn_id = sr_next_id reg + 1, sn_turn = turn, sn_path = p, sn_before = before, sn_tool = tool\<rparr>]\<rparr>)"

definition entries_after :: "nat \<Rightarrow> file_snapshot_registry \<Rightarrow> file_snapshot list" where
  "entries_after target reg = filter (\<lambda>s. target < sn_turn s) (sr_entries reg)"

definition entry_by_id :: "nat \<Rightarrow> file_snapshot_registry \<Rightarrow> file_snapshot option" where
  "entry_by_id i reg = List.find (\<lambda>s. sn_id s = i) (sr_entries reg)"

definition turns_with_snapshots :: "file_snapshot_registry \<Rightarrow> nat list" where
  "turns_with_snapshots reg = remdups_adj (sort (map sn_turn (sr_entries reg)))"

definition bump_turn :: "session_state \<Rightarrow> nat \<times> session_state" where
  "bump_turn s = (ss_turn s + 1, s\<lparr>ss_turn := ss_turn s + 1\<rparr>)"

definition snapshot_file :: "disk \<Rightarrow> path \<Rightarrow> string \<Rightarrow> session_state \<Rightarrow> session_state" where
  "snapshot_file d p tool s =
     (case std_read p d of
        Inr c \<Rightarrow> s\<lparr>ss_snapshots := registry_record (ss_turn s) p (Some c) tool (ss_snapshots s)\<rparr>
      | Inl NotFound \<Rightarrow> s\<lparr>ss_snapshots := registry_record (ss_turn s) p None tool (ss_snapshots s)\<rparr>
      | Inl _ \<Rightarrow> s)"

text \<open>Putting one snapshot back: its bytes, or no file.\<close>

definition put_back :: "nat \<Rightarrow> file_snapshot \<Rightarrow> disk \<Rightarrow> io_kind + disk" where
  "put_back now sn d =
     (case sn_before sn of
        Some c \<Rightarrow> std_write now (sn_path sn) c d
      | None \<Rightarrow>
          (case std_remove_file (sn_path sn) d of
             Inl NotFound \<Rightarrow> Inr d
           | r \<Rightarrow> r))"

definition restore_snapshot :: "nat \<Rightarrow> nat \<Rightarrow> session_state \<Rightarrow> disk \<Rightarrow> (io_kind + path) \<times> disk" where
  "restore_snapshot now i s d =
     (case entry_by_id i (ss_snapshots s) of
        None \<Rightarrow> (Inl NotFound, d)
      | Some sn \<Rightarrow>
          (case put_back now sn d of
             Inl k \<Rightarrow> (Inl k, d)
           | Inr d' \<Rightarrow> (Inr (sn_path sn), d')))"

text \<open>The loop of \<open>restore_to_turn\<close>, newest snapshot first; an error ends it with what it has done so far done.\<close>

fun restore_loop :: "nat \<Rightarrow> file_snapshot list \<Rightarrow> path list \<Rightarrow> disk \<Rightarrow> (io_kind + path list) \<times> disk" where
  "restore_loop now [] restored d = (Inr restored, d)"
| "restore_loop now (sn # sns) restored d =
     (case put_back now sn d of
        Inl k \<Rightarrow> (Inl k, d)
      | Inr d' \<Rightarrow>
          restore_loop now sns (if sn_path sn \<in> set restored then restored else restored @ [sn_path sn]) d')"

definition restore_to_turn :: "nat \<Rightarrow> nat \<Rightarrow> session_state \<Rightarrow> disk \<Rightarrow> (io_kind + path list) \<times> disk" where
  "restore_to_turn now target s d = restore_loop now (rev (entries_after target (ss_snapshots s))) [] d"

section \<open>What was read\<close>

text \<open>The time of change of a file or directory, when there is one.\<close>

definition mtime_at :: "path \<Rightarrow> disk \<Rightarrow> nat option" where
  "mtime_at p d =
     (case std_stat p d of Inr (File _ t) \<Rightarrow> Some t | Inr Dir \<Rightarrow> Some 0 | Inl _ \<Rightarrow> None)"

definition record_read_with_range ::
  "disk \<Rightarrow> path \<Rightarrow> nat option \<Rightarrow> nat option \<Rightarrow> session_state \<Rightarrow> session_state" where
  "record_read_with_range d p offset limit s =
     (case mtime_at p d of
        None \<Rightarrow> s
      | Some t \<Rightarrow>
          s\<lparr>ss_read_cache := (ss_read_cache s)(p \<mapsto> \<lparr>fe_mtime = t, fe_offset = offset, fe_limit = limit\<rparr>),
            ss_last_read := Some p\<rparr>)"

definition record_read :: "disk \<Rightarrow> path \<Rightarrow> session_state \<Rightarrow> session_state" where
  "record_read d p s = record_read_with_range d p None None s"

definition check_read_staleness :: "disk \<Rightarrow> path \<Rightarrow> session_state \<Rightarrow> string option" where
  "check_read_staleness d p s =
     (case mtime_at p d of
        None \<Rightarrow> None
      | Some t \<Rightarrow>
          (case ss_read_cache s p of
             None \<Rightarrow> Some ''File must be read before editing. Use the Read tool first.''
           | Some e \<Rightarrow>
               (if fe_mtime e \<noteq> t then Some ''File has been modified since it was read. Re-read it first.''
                else None)))"

definition check_read_dedup_with_range ::
  "disk \<Rightarrow> path \<Rightarrow> nat option \<Rightarrow> nat option \<Rightarrow> session_state \<Rightarrow> bool" where
  "check_read_dedup_with_range d p offset limit s =
     (case mtime_at p d of
        None \<Rightarrow> False
      | Some t \<Rightarrow>
          (case ss_read_cache s p of
             None \<Rightarrow> False
           | Some e \<Rightarrow> fe_mtime e = t \<and> fe_offset e = offset \<and> fe_limit e = limit))"

definition check_read_dedup :: "disk \<Rightarrow> path \<Rightarrow> session_state \<Rightarrow> bool" where
  "check_read_dedup d p s = check_read_dedup_with_range d p None None s"

definition is_consecutive_read :: "path \<Rightarrow> session_state \<Rightarrow> bool" where
  "is_consecutive_read p s \<longleftrightarrow> ss_last_read s = Some p"

section \<open>Denials, todos, plan, tools\<close>

definition session_record_denial :: "string \<Rightarrow> string \<Rightarrow> string \<Rightarrow> session_state \<Rightarrow> session_state" where
  "session_record_denial name i reason s =
     s\<lparr>ss_denials := ss_denials s @ [\<lparr>pd_tool_name = name, pd_tool_use_id = i, pd_reason = reason\<rparr>]\<rparr>"

definition drain_denials :: "session_state \<Rightarrow> permission_denial list \<times> session_state" where
  "drain_denials s = (ss_denials s, s\<lparr>ss_denials := []\<rparr>)"

text \<open>The counts sit in a hash map; \<open>order\<close> is the order in which it hands out its names.\<close>

definition check_denial_escalation :: "(string list \<Rightarrow> string list) \<Rightarrow> session_state \<Rightarrow> (string \<times> nat) option" where
  "check_denial_escalation order s =
     (let names = map pd_tool_name (ss_denials s);
          counts = map (\<lambda>n. (n, length (filter (\<lambda>m. m = n) names))) (order (remdups names))
      in List.find (\<lambda>(_, c). 3 \<le> c) counts)"

definition set_todos :: "todo_item list \<Rightarrow> session_state \<Rightarrow> session_state" where
  "set_todos items s =
     (if (\<forall>t \<in> set items. ti_status t = TodoCompleted) \<and> items \<noteq> [] then s\<lparr>ss_todos := []\<rparr>
      else s\<lparr>ss_todos := items\<rparr>)"

definition count_status :: "todo_status \<Rightarrow> todo_item list \<Rightarrow> nat" where
  "count_status st items = length (filter (\<lambda>t. ti_status t = st) items)"

definition todos_summary :: "session_state \<Rightarrow> nat \<times> nat \<times> nat \<times> nat" where
  "todos_summary s =
     (let v = ss_todos s
      in (length v, count_status TodoPending v, count_status TodoInProgress v, count_status TodoCompleted v))"

definition record_todo_write_turn :: "nat \<Rightarrow> session_state \<Rightarrow> session_state" where
  "record_todo_write_turn turn s = s\<lparr>ss_last_todo_write := Some turn\<rparr>"

definition turns_since_todo_write :: "session_state \<Rightarrow> nat option" where
  "turns_since_todo_write s = map_option (\<lambda>t. ss_turn s - t) (ss_last_todo_write s)"

definition check_verification_nudge :: "nat \<Rightarrow> session_state \<Rightarrow> nat \<times> session_state" where
  "check_verification_nudge completed s =
     (let delta = completed - ss_last_nudge s
      in (delta, if 3 \<le> delta then s\<lparr>ss_last_nudge := completed\<rparr> else s))"

definition set_permission_mode :: "permission_mode \<Rightarrow> session_state \<Rightarrow> session_state" where
  "set_permission_mode m s = s\<lparr>ss_permission_mode := m\<rparr>"

definition set_plan_text :: "string \<Rightarrow> session_state \<Rightarrow> session_state" where
  "set_plan_text t s = s\<lparr>ss_plan_text := Some t\<rparr>"

definition clear_plan_text :: "session_state \<Rightarrow> session_state" where
  "clear_plan_text s = s\<lparr>ss_plan_text := None\<rparr>"

definition set_plan_slug :: "string \<Rightarrow> session_state \<Rightarrow> session_state" where
  "set_plan_slug t s = s\<lparr>ss_plan_slug := Some t\<rparr>"

definition clear_plan_slug :: "session_state \<Rightarrow> session_state" where
  "clear_plan_slug s = s\<lparr>ss_plan_slug := None\<rparr>"

definition add_sandbox_allow_write :: "path \<Rightarrow> session_state \<Rightarrow> session_state" where
  "add_sandbox_allow_write p s = s\<lparr>ss_sandbox_allow_writes := ss_sandbox_allow_writes s @ [p]\<rparr>"

definition set_structured_output :: "json \<Rightarrow> session_state \<Rightarrow> session_state" where
  "set_structured_output v s = s\<lparr>ss_structured := Some v\<rparr>"

definition take_structured_output :: "session_state \<Rightarrow> json option \<times> session_state" where
  "take_structured_output s = (ss_structured s, s\<lparr>ss_structured := None\<rparr>)"

definition activate_tools :: "string list \<Rightarrow> session_state \<Rightarrow> session_state" where
  "activate_tools names s = s\<lparr>ss_activated_tools := ss_activated_tools s \<union> set names\<rparr>"

text \<open>The generic accessors of the task list, with the reader and the printer of the task type.\<close>

definition has_id :: "string \<Rightarrow> json \<Rightarrow> bool" where
  "has_id i v \<longleftrightarrow> get_str v ''id'' = Some i"

fun remove_task_value :: "string \<Rightarrow> json list \<Rightarrow> bool \<times> json list" where
  "remove_task_value i [] = (False, [])"
| "remove_task_value i (v # vs) =
     (if has_id i v then (True, vs) else (let (b, vs') = remove_task_value i vs in (b, v # vs')))"

definition find_task_value :: "(json \<Rightarrow> 'a option) \<Rightarrow> string \<Rightarrow> json list \<Rightarrow> 'a option" where
  "find_task_value de i vs = Option.bind (List.find (has_id i) vs) de"

fun update_task_value ::
  "(json \<Rightarrow> 'a option) \<Rightarrow> ('a \<Rightarrow> json option) \<Rightarrow> string \<Rightarrow> ('a \<Rightarrow> 'a) \<Rightarrow> json list \<Rightarrow> 'a option \<times> json list" where
  "update_task_value de ser i f [] = (None, [])"
| "update_task_value de ser i f (v # vs) =
     (if has_id i v then
        (case de v of
           None \<Rightarrow> (None, v # vs)
         | Some t \<Rightarrow> (case ser (f t) of None \<Rightarrow> (None, v # vs) | Some v' \<Rightarrow> (Some (f t), v' # vs)))
      else (let (r, vs') = update_task_value de ser i f vs in (r, v # vs')))"

lemmas session_state_defs [kernel_defs] =
  session_state_new_def registry_record_def entries_after_def entry_by_id_def turns_with_snapshots_def
  bump_turn_def snapshot_file_def put_back_def restore_snapshot_def restore_to_turn_def mtime_at_def
  record_read_with_range_def record_read_def check_read_staleness_def check_read_dedup_with_range_def
  check_read_dedup_def is_consecutive_read_def session_record_denial_def drain_denials_def
  check_denial_escalation_def set_todos_def count_status_def todos_summary_def record_todo_write_turn_def
  turns_since_todo_write_def check_verification_nudge_def set_permission_mode_def set_plan_text_def
  clear_plan_text_def set_plan_slug_def clear_plan_slug_def add_sandbox_allow_write_def
  set_structured_output_def take_structured_output_def activate_tools_def has_id_def find_task_value_def

end
