(* ===== verification/FileTools.thy ===== *)
theory FileTools
  imports SessionState PathSafety Dispatch TaskStore
begin

text \<open>
  The tools that touch files: \<open>tools/src/file_edit.rs\<close>, \<open>file_write.rs\<close> and \<open>file_read.rs\<close>, with the helpers of
  \<open>tools/src/security.rs\<close> and \<open>tools/src/cancel.rs\<close>.  A call works on a \<open>file_world\<close>: this machine's disk, the disk
  of the execution provider when it is another one, and the session.  The checks of what was read ask this machine's
  disk, the reads and writes go to the provider.  The line diff (\<open>similar\<close>), base64, \<open>pdftotext\<close>, the JSON reader and
  its error messages are parameters, in \<open>file_lib\<close>.  Paths are printed from their components.
\<close>

section \<open>Strings\<close>

text \<open>\<open>str::matches(p).count()\<close>, \<open>str::replace\<close> and \<open>str::replacen(_, _, 1)\<close>, the empty pattern included.\<close>

function count_matches :: "string \<Rightarrow> string \<Rightarrow> nat" where
  "count_matches pat s =
     (if pat = [] then Suc (length s)
      else if s = [] then 0
      else if prefix pat s then Suc (count_matches pat (drop (length pat) s))
      else count_matches pat (tl s))"
  by pat_completeness auto
termination
  by (relation "measure (\<lambda>(p, s). length s)") auto

declare count_matches.simps [simp del]

definition str_replace :: "string \<Rightarrow> string \<Rightarrow> string \<Rightarrow> string" where
  "str_replace pat rep s = (if pat = [] then rep @ concat (map (\<lambda>c. c # rep) s) else replace_all pat rep s)"

definition str_replace_first :: "string \<Rightarrow> string \<Rightarrow> string \<Rightarrow> string" where
  "str_replace_first pat rep s =
     (case find_str pat s of
        None \<Rightarrow> s
      | Some i \<Rightarrow> take i s @ rep @ drop (i + length pat) s)"

definition plural :: "nat \<Rightarrow> string" where
  "plural n = (if n = 1 then [] else ''s'')"

section \<open>The world of a call\<close>

datatype tool_error =
    TeDenied string
  | TeNotFound string
  | TeValidation string
  | TeExecution string
  | TeCancelled
  | TeSchema string

record file_world =
  fw_local :: disk
  fw_remote :: "disk option"
  fw_session :: session_state

definition tool_disk :: "file_world \<Rightarrow> disk" where
  "tool_disk w = (case fw_remote w of None \<Rightarrow> fw_local w | Some d \<Rightarrow> d)"

definition set_tool_disk :: "disk \<Rightarrow> file_world \<Rightarrow> file_world" where
  "set_tool_disk d w = (case fw_remote w of None \<Rightarrow> w\<lparr>fw_local := d\<rparr> | Some _ \<Rightarrow> w\<lparr>fw_remote := Some d\<rparr>)"

record file_ctx =
  fx_cwd :: path
  fx_cancelled :: bool
  fx_snapshots :: bool
  fx_max_read :: int
  fx_writable :: "path list"
  fx_sandbox :: sandbox_settings

datatype change_tag = ChangeEqual | ChangeDelete | ChangeInsert

record file_lib =
  fl_env :: env
  fl_nfc :: "string \<Rightarrow> string"
  fl_de_error :: "json \<Rightarrow> string"
  fl_hunks :: "string \<Rightarrow> string \<Rightarrow> (string \<times> (change_tag \<times> string) list) list"
  fl_base64 :: "content \<Rightarrow> string"
  fl_pdftotext :: "string \<Rightarrow> string \<Rightarrow> path \<Rightarrow> string option"
  fl_from_str :: "string \<Rightarrow> string + json"
  fl_debug :: "path_safety_error \<Rightarrow> string"

text \<open>\<open>From<ExecError> for ToolError\<close>.\<close>

definition tool_error_of :: "exec_error \<Rightarrow> tool_error" where
  "tool_error_of e =
     (case e of
        ExecUnavailable m \<Rightarrow> TeExecution (''execution environment unavailable: '' @ m)
      | ExecDenied m \<Rightarrow> TeDenied m
      | ExecFailed m \<Rightarrow> TeExecution m)"

text \<open>\<open>run_with_cancel\<close>: a call whose token has fired when it starts does nothing.\<close>

definition run_with_cancel :: "bool \<Rightarrow> ((tool_error + 'a) \<times> 'w) \<Rightarrow> 'w \<Rightarrow> (tool_error + 'a) \<times> 'w" where
  "run_with_cancel cancelled r w = (if cancelled then (Inl TeCancelled, w) else r)"

definition resolve_path :: "string \<Rightarrow> path \<Rightarrow> path" where
  "resolve_path s cwd = (let p = path_of s in if is_absolute p then p else path_join cwd p)"

definition plain_result :: "string \<Rightarrow> tool_result" where
  "plain_result s = \<lparr>tr_content = ContentText s, tr_is_error = False, tr_new_messages = None\<rparr>"

definition snapshot_before :: "file_ctx \<Rightarrow> path \<Rightarrow> string \<Rightarrow> file_world \<Rightarrow> file_world" where
  "snapshot_before cx p tool w =
     (if fx_snapshots cx then w\<lparr>fw_session := snapshot_file (fw_local w) p tool (fw_session w)\<rparr> else w)"

section \<open>Where a write may go\<close>

definition write_policy_of :: "file_ctx \<Rightarrow> disk \<Rightarrow> write_policy" where
  "write_policy_of cx d =
     \<lparr>primary_root = canonicalize_best_effort d (fx_cwd cx),
       additional_roots = map (canonicalize_best_effort d) (fx_writable cx),
       extra_blacklist = sb_deny_write (fx_sandbox cx),
       allow_paths = map (canonicalize_best_effort d) (sb_allow_write (fx_sandbox cx))\<rparr>"

definition check_write_permission :: "file_lib \<Rightarrow> string \<Rightarrow> file_ctx \<Rightarrow> file_world \<Rightarrow> string \<Rightarrow> tool_decision option" where
  "check_write_permission lib what cx w file_path =
     (let p = canonicalize_best_effort (tool_disk w) (normalize_path_lexically (resolve_path file_path (fx_cwd cx)))
      in case check_write_for (fl_env lib) (fl_nfc lib) file_path p (write_policy_of cx (tool_disk w)) of
           SafeOk \<Rightarrow> Some (TAllow (Some ''project_write''))
         | SafeErr (OutsideAllowedRoots _ _ _) \<Rightarrow> Some (TAsk (what @ '' outside the project requires confirmation'') None)
         | SafeErr err \<Rightarrow> Some (TDeny (Some (fl_debug lib err)) (Some ''path_safety''))
         | SafePanic \<Rightarrow> None)"

section \<open>Edit\<close>

record single_edit =
  se_old :: string
  se_new :: string
  se_replace_all :: "bool option"

record file_edit_input =
  ei_file_path :: string
  ei_edits :: "single_edit list option"
  ei_old :: "string option"
  ei_new :: "string option"
  ei_replace_all :: "bool option"

definition single_edit_of :: "json \<Rightarrow> single_edit option" where
  "single_edit_of v =
     Option.bind (fields_of 3 v) (\<lambda>fs.
     Option.bind (required 0 [''old_string''] as_str fs) (\<lambda>old.
     Option.bind (required 1 [''new_string''] as_str fs) (\<lambda>new.
     Option.bind (defaulted 2 [''replace_all''] None (de_option de_bool) fs) (\<lambda>all.
     Some \<lparr>se_old = old, se_new = new, se_replace_all = all\<rparr>))))"

definition file_edit_input_of :: "json \<Rightarrow> file_edit_input option" where
  "file_edit_input_of v =
     Option.bind (fields_of 5 v) (\<lambda>fs.
     Option.bind (required 0 [''file_path''] as_str fs) (\<lambda>path.
     Option.bind (defaulted 1 [''edits''] None (de_option (de_list single_edit_of)) fs) (\<lambda>edits.
     Option.bind (defaulted 2 [''old_string''] None (de_option as_str) fs) (\<lambda>old.
     Option.bind (defaulted 3 [''new_string''] None (de_option as_str) fs) (\<lambda>new.
     Option.bind (defaulted 4 [''replace_all''] None (de_option de_bool) fs) (\<lambda>all.
     Some \<lparr>ei_file_path = path, ei_edits = edits, ei_old = old, ei_new = new, ei_replace_all = all\<rparr>))))))"

definition into_edits :: "file_edit_input \<Rightarrow> tool_error + string \<times> single_edit list" where
  "into_edits i =
     (case ei_edits i of
        Some es \<Rightarrow>
          (if es = [] then Inl (TeValidation ''edits[] must contain at least one edit'')
           else Inr (ei_file_path i, es))
      | None \<Rightarrow>
          (case ei_old i of
             None \<Rightarrow> Inl (TeValidation ''either `edits` array or `old_string`/`new_string` must be provided'')
           | Some old \<Rightarrow>
               (case ei_new i of
                  None \<Rightarrow> Inl (TeValidation ''new_string required when edits[] absent'')
                | Some new \<Rightarrow>
                    Inr (ei_file_path i, [\<lparr>se_old = old, se_new = new, se_replace_all = ei_replace_all i\<rparr>]))))"

fun check_edits :: "nat \<Rightarrow> single_edit list \<Rightarrow> validation_result" where
  "check_edits i [] = VOk"
| "check_edits i (e # es) =
     (if se_old e = [] then VErr (''edits['' @ show_nat i @ ''].old_string must not be empty'') 3
      else if se_old e = se_new e then
        VErr (''edits['' @ show_nat i @ ''].old_string == new_string '' @ em_dash @ '' nothing to change'') 4
      else check_edits (Suc i) es)"

definition edit_validate :: "file_lib \<Rightarrow> json \<Rightarrow> file_ctx \<Rightarrow> file_world \<Rightarrow> validation_result" where
  "edit_validate lib v cx w =
     (case file_edit_input_of v of
        None \<Rightarrow> VErr (''invalid input: '' @ fl_de_error lib v) 7
      | Some p \<Rightarrow>
          (if ei_file_path p = [] then VErr ''file_path must not be empty'' 1
           else (case check_read_staleness (fw_local w)
                        (normalize_path_lexically (resolve_path (ei_file_path p) (fx_cwd cx))) (fw_session w) of
                   Some msg \<Rightarrow> VErr msg 8
                 | None \<Rightarrow>
                     (case ei_edits p of
                        Some es \<Rightarrow> (if es = [] then VErr ''edits[] must not be empty'' 2 else check_edits 0 es)
                      | None \<Rightarrow>
                          (let old = (case ei_old p of Some s \<Rightarrow> s | None \<Rightarrow> []);
                               new = (case ei_new p of Some s \<Rightarrow> s | None \<Rightarrow> [])
                           in if old = [] then VErr ''either `edits` array or `old_string` must be provided'' 5
                              else if old = new then
                                VErr (''old_string and new_string are identical '' @ em_dash @ '' nothing to change'') 6
                              else VOk)))))"

definition edit_check_permissions :: "file_lib \<Rightarrow> json \<Rightarrow> file_ctx \<Rightarrow> file_world \<Rightarrow> tool_decision option" where
  "edit_check_permissions lib v cx w =
     (case file_edit_input_of v of
        Some p \<Rightarrow> check_write_permission lib ''Edit'' cx w (ei_file_path p)
      | None \<Rightarrow> Some (TAsk ''File edit requires confirmation'' None))"

text \<open>The loop over the edits; it runs on the text in memory.\<close>

definition apply_edit :: "path \<Rightarrow> nat \<Rightarrow> single_edit \<Rightarrow> string \<Rightarrow> tool_error + string \<times> nat" where
  "apply_edit p i e current =
     (let count = count_matches (se_old e) current;
          all = (se_replace_all e = Some True);
          at = ''edit['' @ show_nat i @ '']: old_string ''
      in if count = 0 then
           Inl (TeValidation (at @ ''not found in '' @ path_str p @ '' (after applying previous edits) '' @ em_dash
             @ '' make sure it matches exactly, including whitespace''))
         else if 1 < count \<and> \<not> all then
           Inl (TeValidation (at @ ''appears '' @ show_nat count @ '' times in '' @ path_str p
             @ '' (after previous edits); pass replace_all=true or include more context to make it unique''))
         else if all then Inr (str_replace (se_old e) (se_new e) current, count)
         else Inr (str_replace_first (se_old e) (se_new e) current, 1))"

fun apply_edits :: "path \<Rightarrow> nat \<Rightarrow> single_edit list \<Rightarrow> string \<Rightarrow> nat \<Rightarrow> tool_error + string \<times> nat" where
  "apply_edits p i [] current repl = Inr (current, repl)"
| "apply_edits p i (e # es) current repl =
     (case apply_edit p i e current of
        Inl err \<Rightarrow> Inl err
      | Inr (current', n) \<Rightarrow> apply_edits p (Suc i) es current' (repl + n))"

definition MAX_EDIT_BYTES :: int where
  "MAX_EDIT_BYTES = 1024 * 1024 * 1024"

text \<open>The structured form of the difference, and its text.\<close>

datatype diff_line = DiffContext string | DiffDelete string | DiffInsert string

record diff_hunk =
  dh_before_start :: nat
  dh_before_count :: nat
  dh_after_start :: nat
  dh_after_count :: nat
  dh_lines :: "diff_line list"

record diff_payload =
  dp_file_path :: string
  dp_before_bytes :: nat
  dp_after_bytes :: nat
  dp_hunks :: "diff_hunk list"
  dp_truncated :: bool

definition parse_usize :: "string \<Rightarrow> nat option" where
  "parse_usize = parse_u64"

definition parse_pair :: "string \<Rightarrow> (nat \<times> nat) option" where
  "parse_pair s =
     (case split_once (CHR '','') s of
        Some (a, b) \<Rightarrow> Option.bind (parse_usize a) (\<lambda>x. Option.bind (parse_usize b) (\<lambda>y. Some (x, y)))
      | None \<Rightarrow> map_option (\<lambda>x. (x, 1)) (parse_usize s))"

definition split_whitespace :: "string \<Rightarrow> string list" where
  "split_whitespace s =
     filter (\<lambda>p. p \<noteq> []) (split_char (CHR '' '') (map (\<lambda>c. if is_whitespace c then CHR '' '' else c) s))"

definition parse_hunk_header :: "string \<Rightarrow> (nat \<times> nat \<times> nat \<times> nat) option" where
  "parse_hunk_header s =
     (let ats = (\<lambda>c. c = CHR ''@'');
          trimmed = trim (rev (dropWhile ats (rev (dropWhile ats s))))
      in case split_whitespace trimmed of
           b # a # _ \<Rightarrow>
             Option.bind (parse_pair (dropWhile (\<lambda>c. c = CHR ''-'') b)) (\<lambda>(bs, bc).
             Option.bind (parse_pair (dropWhile (\<lambda>c. c = CHR ''+'') a)) (\<lambda>(as, ac). Some (bs, bc, as, ac)))
         | _ \<Rightarrow> None)"

definition change_line :: "change_tag \<Rightarrow> string \<Rightarrow> string \<times> diff_line" where
  "change_line tag s =
     (let s' = (case strip_suffix [CHR 0x0A] s of Some r \<Rightarrow> r | None \<Rightarrow> s)
      in case tag of
           ChangeDelete \<Rightarrow> (''-'' @ s' @ [CHR 0x0A], DiffDelete s')
         | ChangeInsert \<Rightarrow> (''+'' @ s' @ [CHR 0x0A], DiffInsert s')
         | ChangeEqual \<Rightarrow> ('' '' @ s' @ [CHR 0x0A], DiffContext s'))"

text \<open>Both loops end when the lines so far reach the most there may be; only the outer one leaves a mark in the text.\<close>

definition MAX_DIFF_LINES :: nat where
  "MAX_DIFF_LINES = 100"

fun render_hunks ::
  "(string \<times> (change_tag \<times> string) list) list \<Rightarrow> nat \<Rightarrow> bool \<Rightarrow> string \<times> diff_hunk list \<times> bool" where
  "render_hunks [] seen truncated = ([], [], truncated)"
| "render_hunks ((header, changes) # hs) seen truncated =
     (if MAX_DIFF_LINES \<le> seen then
        ([CHR 0x0A] @ ''[diff truncated '' @ em_dash @ '' too many changes]'' @ [CHR 0x0A], [], True)
      else (let kept = map (\<lambda>(t, s). change_line t s) (take (MAX_DIFF_LINES - seen) changes);
                (bs, bc, as, ac) = (case parse_hunk_header header of Some q \<Rightarrow> q | None \<Rightarrow> (0, 0, 0, 0));
                hunk = \<lparr>dh_before_start = bs, dh_before_count = bc, dh_after_start = as, dh_after_count = ac,
                         dh_lines = map snd kept\<rparr>;
                (txt, hunks, tr) =
                  render_hunks hs (seen + length kept) (truncated \<or> MAX_DIFF_LINES - seen < length changes)
            in (header @ [CHR 0x0A] @ concat (map fst kept) @ txt, hunk # hunks, tr)))"

definition render_diff :: "file_lib \<Rightarrow> string \<Rightarrow> string \<Rightarrow> string \<Rightarrow> string \<times> diff_payload" where
  "render_diff lib before after path =
     (let hs = fl_hunks lib before after;
          (body, hunks, truncated) = render_hunks hs 0 False;
          head_lines = ''--- '' @ path @ '' (before)'' @ [CHR 0x0A] @ ''+++ '' @ path @ '' (after)'' @ [CHR 0x0A];
          none = (if hunks = [] then
                    ''(no textual difference detected '' @ em_dash
                      @ '' strings may differ only in trailing whitespace)'' @ [CHR 0x0A] else [])
      in (head_lines @ body @ none,
          \<lparr>dp_file_path = path, dp_before_bytes = utf8_len before, dp_after_bytes = utf8_len after,
            dp_hunks = hunks, dp_truncated = truncated\<rparr>))"

definition edit_summary :: "file_lib \<Rightarrow> path \<Rightarrow> nat \<Rightarrow> nat \<Rightarrow> string \<Rightarrow> string \<Rightarrow> string \<times> diff_payload" where
  "edit_summary lib p edits repl before after =
     (let (diff_text, payload) = render_diff lib before after (path_str p)
      in (''Applied '' @ show_nat edits @ '' edit'' @ plural edits @ '' ('' @ show_nat repl @ '' replacement''
            @ plural repl @ '') to '' @ path_str p @ '' ('' @ show_nat (utf8_len before) @ '' ''
            @ [CHR 0xE2, CHR 0x86, CHR 0x92] @ '' '' @ show_nat (utf8_len after) @ '' bytes)''
            @ [CHR 0x0A, CHR 0x0A] @ diff_text, payload))"

definition stat_target :: "path \<Rightarrow> disk \<Rightarrow> (string \<Rightarrow> tool_error) \<Rightarrow> tool_error + file_metadata" where
  "stat_target p d missing =
     (case metadata_following_symlinks p d of
        Inl (ExecFailed _) \<Rightarrow> Inl (missing (''file not found: '' @ path_str p))
      | Inl e \<Rightarrow> Inl (tool_error_of e)
      | Inr m \<Rightarrow>
          (if md_is_dir m then Inl (TeValidation (''path is a directory, not a file: '' @ path_str p)) else Inr m))"

definition perform_edits :: "file_lib \<Rightarrow> nat \<Rightarrow> path \<Rightarrow> single_edit list \<Rightarrow> disk \<Rightarrow> (tool_error + string \<times> diff_payload) \<times> disk" where
  "perform_edits lib now p edits d =
     (case stat_target p d TeValidation of
        Inl err \<Rightarrow> (Inl err, d)
      | Inr m \<Rightarrow>
     (if MAX_EDIT_BYTES < int (md_len m) then
        (Inl (TeValidation (''file is '' @ show_nat (md_len m) @ '' bytes; max edit size is ''
           @ show_nat (nat MAX_EDIT_BYTES) @ '' bytes'')), d)
      else (case fs_read p d of
        Inl e \<Rightarrow> (Inl (tool_error_of e), d)
      | Inr c \<Rightarrow>
     (case from_utf8 c of
        None \<Rightarrow> (Inl (TeValidation (''file is not valid UTF-8: '' @ path_str p)), d)
      | Some original \<Rightarrow>
     (case apply_edits p 0 edits original 0 of
        Inl err \<Rightarrow> (Inl err, d)
      | Inr (current, repl) \<Rightarrow>
     (case fs_write_str now p current d of
        Inl e \<Rightarrow> (Inl (tool_error_of e), d)
      | Inr d' \<Rightarrow> (Inr (edit_summary lib p (length edits) repl original current), d')))))))"

definition edit_call :: "file_lib \<Rightarrow> nat \<Rightarrow> json \<Rightarrow> file_ctx \<Rightarrow> file_world \<Rightarrow> (tool_error + tool_result \<times> diff_payload) \<times> file_world" where
  "edit_call lib now v cx w =
     (case file_edit_input_of v of
        None \<Rightarrow> (Inl (TeSchema (fl_de_error lib v)), w)
      | Some input \<Rightarrow>
     (case into_edits input of
        Inl err \<Rightarrow> (Inl err, w)
      | Inr (file_path, edits) \<Rightarrow>
          (let p = resolve_path file_path (fx_cwd cx);
               w1 = snapshot_before cx p ''Edit'' w
           in run_with_cancel (fx_cancelled cx)
                (case perform_edits lib now p edits (tool_disk w1) of
                   (Inl err, d) \<Rightarrow> (Inl err, set_tool_disk d w1)
                 | (Inr (said, payload), d) \<Rightarrow> (Inr (plain_result said, payload), set_tool_disk d w1))
                w1)))"

section \<open>Write\<close>

definition MAX_WRITE_BYTES :: int where
  "MAX_WRITE_BYTES = 100 * 1024 * 1024"

record file_write_input =
  wi_file_path :: string
  wi_content :: string

definition file_write_input_of :: "json \<Rightarrow> file_write_input option" where
  "file_write_input_of v =
     Option.bind (fields_of 2 v) (\<lambda>fs.
     Option.bind (required 0 [''file_path''] as_str fs) (\<lambda>path.
     Option.bind (required 1 [''content''] as_str fs) (\<lambda>body.
     Some \<lparr>wi_file_path = path, wi_content = body\<rparr>)))"

definition write_validate :: "file_lib \<Rightarrow> json \<Rightarrow> file_ctx \<Rightarrow> file_world \<Rightarrow> validation_result" where
  "write_validate lib v cx w =
     (case file_write_input_of v of
        None \<Rightarrow> VErr (''invalid input: '' @ fl_de_error lib v) 2
      | Some p \<Rightarrow>
          (if wi_file_path p = [] then VErr ''file_path must not be empty'' 1
           else if MAX_WRITE_BYTES < int (utf8_len (wi_content p)) then
             VErr (''content too large ('' @ show_nat (utf8_len (wi_content p)) @ '' bytes); cap is ''
               @ show_nat (nat MAX_WRITE_BYTES) @ '' bytes'') 3
           else (case check_read_staleness (fw_local w)
                        (normalize_path_lexically (resolve_path (wi_file_path p) (fx_cwd cx))) (fw_session w) of
                   Some msg \<Rightarrow> VErr msg 4
                 | None \<Rightarrow> VOk)))"

definition write_check_permissions :: "file_lib \<Rightarrow> json \<Rightarrow> file_ctx \<Rightarrow> file_world \<Rightarrow> tool_decision option" where
  "write_check_permissions lib v cx w =
     (case file_write_input_of v of
        Some p \<Rightarrow> check_write_permission lib ''Write'' cx w (wi_file_path p)
      | None \<Rightarrow> Some (TAsk ''Write requires confirmation'' None))"

definition write_file :: "nat \<Rightarrow> path \<Rightarrow> string \<Rightarrow> disk \<Rightarrow> (tool_error + nat) \<times> disk" where
  "write_file now p body d =
     (let made = (case path_parent p of
                    Some q \<Rightarrow>
                      (if q \<noteq> [] \<and> (case metadata_following_symlinks q d of Inl _ \<Rightarrow> True | Inr _ \<Rightarrow> False) then
                         (case fs_create_dir_all q d of
                            Inl e \<Rightarrow>
                              Inl (TeValidation (''cannot create parent dir: ''
                                @ (case e of ExecUnavailable m \<Rightarrow> ''execution environment unavailable: '' @ m
                                           | ExecDenied m \<Rightarrow> ''refused by policy: '' @ m
                                           | ExecFailed m \<Rightarrow> m)))
                          | Inr d' \<Rightarrow> Inr d')
                       else Inr d)
                  | None \<Rightarrow> Inr d)
      in case made of
           Inl err \<Rightarrow> (Inl err, d)
         | Inr d1 \<Rightarrow>
             (case fs_write_str now p body d1 of
                Inl e \<Rightarrow> (Inl (tool_error_of e), d1)
              | Inr d2 \<Rightarrow> (Inr (utf8_len body), d2)))"

definition write_call :: "file_lib \<Rightarrow> nat \<Rightarrow> json \<Rightarrow> file_ctx \<Rightarrow> file_world \<Rightarrow> (tool_error + tool_result) \<times> file_world" where
  "write_call lib now v cx w =
     (case file_write_input_of v of
        None \<Rightarrow> (Inl (TeSchema (fl_de_error lib v)), w)
      | Some input \<Rightarrow>
          (let p = resolve_path (wi_file_path input) (fx_cwd cx);
               w1 = snapshot_before cx p ''Write'' w
           in run_with_cancel (fx_cancelled cx)
                (case write_file now p (wi_content input) (tool_disk w1) of
                   (Inl err, d) \<Rightarrow> (Inl err, set_tool_disk d w1)
                 | (Inr n, d) \<Rightarrow>
                     (Inr (plain_result (''Wrote '' @ show_nat n @ '' byte'' @ plural n @ '' to '' @ path_str p)),
                      set_tool_disk d w1))
                w1))"

lemmas file_tool_defs [kernel_defs] =
  str_replace_def str_replace_first_def plural_def tool_disk_def set_tool_disk_def tool_error_of_def
  run_with_cancel_def resolve_path_def plain_result_def snapshot_before_def write_policy_of_def
  check_write_permission_def single_edit_of_def file_edit_input_of_def into_edits_def edit_validate_def
  edit_check_permissions_def apply_edit_def MAX_EDIT_BYTES_def parse_usize_def parse_pair_def
  split_whitespace_def parse_hunk_header_def change_line_def MAX_DIFF_LINES_def render_diff_def
  edit_summary_def stat_target_def perform_edits_def edit_call_def MAX_WRITE_BYTES_def
  file_write_input_of_def write_validate_def write_check_permissions_def write_file_def write_call_def

end
