(* ===== verification/FileRead.thy ===== *)
theory FileRead
  imports FileTools Jsonl
begin

text \<open>
  \<open>tools/src/file_read.rs\<close>: reading a file as numbered lines, as an image, as the text of a PDF or as the cells of a
  notebook, and the note that nothing has changed since the last reading.
\<close>

section \<open>Numbered lines\<close>

definition pad_left :: "nat \<Rightarrow> string \<Rightarrow> string" where
  "pad_left n s = replicate (n - length s) (CHR '' '') @ s"

definition shown_line :: "nat \<Rightarrow> string \<Rightarrow> string" where
  "shown_line max_line_chars l =
     (if max_line_chars < length l
      then take max_line_chars l @ [CHR 0xE2, CHR 0x80, CHR 0xA6] @ ''[truncated]''
      else l)"

definition numbered_line :: "nat \<Rightarrow> nat \<times> string \<Rightarrow> string" where
  "numbered_line max_line_chars il =
     pad_left 6 (show_nat (fst il + 1)) @ [CHR 0x09] @ shown_line max_line_chars (snd il) @ [CHR 0x0A]"

definition format_with_line_numbers :: "string \<Rightarrow> nat \<Rightarrow> nat \<Rightarrow> nat \<Rightarrow> string" where
  "format_with_line_numbers body offset limit max_line_chars =
     (let ls = text_lines body;
          skip = offset - 1;
          actually_read = min (length ls - skip) limit
      in concat (map (numbered_line max_line_chars) (take limit (drop skip (List.enumerate 0 ls))))
         @ (if actually_read = 0 \<and> 0 < length ls \<and> length ls \<le> skip then
              ''[no lines: file has '' @ show_nat (length ls) @ '' lines; offset='' @ show_nat offset
                @ '' skipped past end]'' @ [CHR 0x0A]
            else []))"

section \<open>Images\<close>

fun utf8_octets :: "string \<Rightarrow> 8 word list" where
  "utf8_octets [] = []"
| "utf8_octets (c # cs) =
     (let n = char_code c in
      (if n < 128 then [of_nat n] else [of_nat (192 + n div 64), of_nat (128 + n mod 64)]) @ utf8_octets cs)"

fun content_bytes :: "content \<Rightarrow> 8 word list" where
  "content_bytes (Utf8 s) = utf8_octets s"
| "content_bytes (Raw bs) = bs"

definition be_bytes :: "8 word list \<Rightarrow> nat" where
  "be_bytes bs = foldl (\<lambda>n b. 256 * n + unat b) 0 bs"

definition le_bytes :: "8 word list \<Rightarrow> nat" where
  "le_bytes bs = be_bytes (rev bs)"

definition clamp_dims :: "nat \<Rightarrow> nat \<Rightarrow> nat \<times> nat" where
  "clamp_dims w h = (min w 10000, min h 10000)"

text \<open>The search for the frame header of a JPEG: every segment names its length, so the position grows.\<close>

function jpeg_scan :: "8 word list \<Rightarrow> nat \<Rightarrow> (nat \<times> nat) option" where
  "jpeg_scan bs i =
     (if i + 9 < length bs then
        (if bs ! i = 0xFF then
           (if bs ! (i + 1) = 0xC0 \<or> bs ! (i + 1) = 0xC2 then
              Some (clamp_dims (be_bytes [bs ! (i + 7), bs ! (i + 8)]) (be_bytes [bs ! (i + 5), bs ! (i + 6)]))
            else jpeg_scan bs (i + 2 + be_bytes [bs ! (i + 2), bs ! (i + 3)]))
         else jpeg_scan bs (i + 1))
      else None)"
  by pat_completeness auto
termination
  by (relation "measure (\<lambda>(bs, i). length bs - i)") auto

declare jpeg_scan.simps [simp del]

definition estimate_image_dimensions :: "8 word list \<Rightarrow> (nat \<times> nat) option" where
  "estimate_image_dimensions bs =
     (if length bs < 24 then None
      else if take 3 (drop 1 bs) = [0x50, 0x4E, 0x47] then
        Some (clamp_dims (be_bytes (take 4 (drop 16 bs))) (be_bytes (take 4 (drop 20 bs))))
      else (case (if bs ! 0 = 0xFF \<and> bs ! 1 = 0xD8 then jpeg_scan bs 2 else None) of
              Some d \<Rightarrow> Some d
            | None \<Rightarrow>
                (if take 3 bs = [0x47, 0x49, 0x46] \<or> take 4 bs = [0x47, 0x49, 0x46, 0x38] then
                   Some (clamp_dims (le_bytes [bs ! 6, bs ! 7]) (le_bytes [bs ! 8, bs ! 9]))
                 else None)))"

definition path_extension :: "path \<Rightarrow> string" where
  "path_extension p =
     (case Option.bind (file_name p) (\<lambda>n. snd (name_parts n)) of None \<Rightarrow> [] | Some x \<Rightarrow> to_lowercase x)"

definition mime_from_ext :: "path \<Rightarrow> string" where
  "mime_from_ext p =
     (let x = path_extension p in
      if x = ''png'' then ''image/png''
      else if x = ''jpg'' \<or> x = ''jpeg'' then ''image/jpeg''
      else if x = ''gif'' then ''image/gif''
      else if x = ''webp'' then ''image/webp''
      else if x = ''bmp'' then ''image/bmp''
      else ''application/octet-stream'')"

definition name_or_empty :: "path \<Rightarrow> string" where
  "name_or_empty p = (case file_name p of Some n \<Rightarrow> n | None \<Rightarrow> [])"

definition text_block :: "string \<Rightarrow> tool_result_block" where
  "text_block s = \<lparr>rb_type = ''text'', rb_text = Some s, rb_source = None\<rparr>"

definition image_block :: "string \<Rightarrow> string \<Rightarrow> tool_result_block" where
  "image_block mime b64 =
     \<lparr>rb_type = ''image'', rb_text = None,
       rb_source = Some (JObject [(''type'', JString ''base64''), (''media_type'', JString mime), (''data'', JString b64)])\<rparr>"

definition read_image :: "file_lib \<Rightarrow> path \<Rightarrow> file_metadata \<Rightarrow> int \<Rightarrow> disk \<Rightarrow> tool_error + tool_result" where
  "read_image lib p m max_bytes d =
     (if max_bytes < int (md_len m) then
        Inl (TeValidation (''image too large ('' @ show_nat (md_len m) @ '' bytes); cap is '' @ show_nat (nat max_bytes)
          @ '' bytes''))
      else (case fs_read p d of
        Inl e \<Rightarrow> Inl (tool_error_of e)
      | Inr c \<Rightarrow>
          (let mime = mime_from_ext p;
               bs = content_bytes c;
               dims = (case estimate_image_dimensions bs of
                         Some (w, h) \<Rightarrow> show_nat w @ ''x'' @ show_nat h
                       | None \<Rightarrow> ''unknown'');
               header = ''[Image: '' @ name_or_empty p @ '' '' @ em_dash @ '' '' @ mime @ '' '' @ em_dash @ '' ''
                 @ show_nat (length bs) @ '' bytes, '' @ dims @ '' pixels. Rendered below.]''
           in Inr \<lparr>tr_content = ContentBlocks [text_block header, image_block mime (fl_base64 lib c)],
                   tr_is_error = False, tr_new_messages = None\<rparr>)))"

section \<open>PDF files\<close>

definition pdf_cap :: "int \<Rightarrow> int" where
  "pdf_cap max_bytes = max max_bytes (50 * 1024 * 1024)"

definition pdf_pages :: "string option \<Rightarrow> string \<times> string" where
  "pdf_pages pages =
     (let parts = split_char (CHR ''-'') (case pages of Some s \<Rightarrow> s | None \<Rightarrow> ''1-20'')
      in (hd parts, (if 1 < length parts then parts ! 1 else ''20'')))"

definition read_pdf_text :: "file_lib \<Rightarrow> path \<Rightarrow> file_metadata \<Rightarrow> int \<Rightarrow> string option \<Rightarrow> tool_error + string" where
  "read_pdf_text lib p m max_bytes pages =
     (if pdf_cap max_bytes < int (md_len m) then
        Inl (TeValidation (''PDF too large ('' @ show_nat (md_len m) @ '' bytes); cap is ''
          @ show_nat (nat (pdf_cap max_bytes)) @ '' bytes''))
      else (let page_range = (case pages of Some s \<Rightarrow> s | None \<Rightarrow> ''1-20'');
                (first, upto_page) = pdf_pages pages;
                about = ''[PDF: '' @ name_or_empty p @ '' '' @ em_dash @ '' '' @ show_nat (md_len m) @ '' bytes''
            in case fl_pdftotext lib first upto_page p of
                 Some out \<Rightarrow>
                   Inr (about @ '', pages '' @ page_range @ '']'' @ [CHR 0x0A, CHR 0x0A]
                     @ (if max_bytes < int (utf8_len out) then
                          truncate_at_char_boundary out (nat max_bytes) @ ''...'' @ [CHR 0x0A] @ ''[text truncated at ''
                            @ show_nat (nat max_bytes) @ '' bytes]''
                        else out))
               | None \<Rightarrow> Inr (about @ ''. Install pdftotext (poppler-utils) for text extraction.]'')))"

section \<open>Notebooks\<close>

definition array_strings :: "json list \<Rightarrow> string" where
  "array_strings vs = concat (List.map_filter as_str vs)"

definition field_array :: "json \<Rightarrow> string \<Rightarrow> json list option" where
  "field_array v k = Option.bind (json_get v k) as_array"

definition cell_source :: "json \<Rightarrow> string" where
  "cell_source cell =
     (case field_array cell ''source'' of
        Some vs \<Rightarrow> array_strings vs
      | None \<Rightarrow> (case get_str cell ''source'' of Some s \<Rightarrow> s | None \<Rightarrow> []))"

definition output_text :: "json \<Rightarrow> string" where
  "output_text v =
     (case field_array v ''text'' of
        Some vs \<Rightarrow>
          (let joined = array_strings vs
           in ''Output:'' @ [CHR 0x0A] @ (if CHR 0x0A \<in> set joined then [CHR 0x0A] else []) @ joined @ [CHR 0x0A])
      | None \<Rightarrow>
          (case get_str v ''text/plain'' of
             Some s \<Rightarrow> ''Output:'' @ [CHR 0x0A] @ s @ [CHR 0x0A]
           | None \<Rightarrow> []))"

definition eight_spaces :: string where
  "eight_spaces = replicate 8 (CHR '' '')"

definition cell_text :: "nat \<times> json \<Rightarrow> string" where
  "cell_text ic =
     (let (i, cell) = ic;
          cell_type = (case get_str cell ''cell_type'' of Some t \<Rightarrow> t | None \<Rightarrow> ''unknown'');
          source = cell_source cell;
          body = (if cell_type = ''code'' then
                    concat (map (\<lambda>l. eight_spaces @ l @ [CHR 0x0A]) (text_lines source))
                    @ (case field_array cell ''outputs'' of
                         Some outs \<Rightarrow> concat (map output_text outs)
                       | None \<Rightarrow> [])
                  else eight_spaces @ (case text_lines source of l # _ \<Rightarrow> l | [] \<Rightarrow> []) @ [CHR 0x0A])
      in ''<cell id='' @ [dquote] @ show_nat i @ [dquote] @ '' type='' @ [dquote] @ cell_type @ [dquote] @ ''>'' @ [CHR 0x0A]
         @ body @ ''</cell id='' @ [dquote] @ show_nat i @ [dquote] @ ''>'' @ [CHR 0x0A, CHR 0x0A])"

definition read_notebook :: "file_lib \<Rightarrow> path \<Rightarrow> nat option \<Rightarrow> nat option \<Rightarrow> nat \<Rightarrow> nat \<Rightarrow> disk \<Rightarrow> tool_error + string" where
  "read_notebook lib p offset limit default_lines max_line_chars d =
     (case fs_read_to_string p d of
        Inl e \<Rightarrow> Inl (tool_error_of e)
      | Inr body \<Rightarrow>
     (case fl_from_str lib body of
        Inl err \<Rightarrow> Inl (TeValidation (''invalid notebook JSON: '' @ err))
      | Inr notebook \<Rightarrow>
     (case field_array notebook ''cells'' of
        None \<Rightarrow> Inl (TeValidation ''notebook has no cells array'')
      | Some cells \<Rightarrow>
          (let out = ''[Notebook: '' @ name_or_empty p @ '' '' @ em_dash @ '' '' @ show_nat (length cells) @ '' cells]''
                 @ [CHR 0x0A, CHR 0x0A] @ concat (map cell_text (List.enumerate 0 cells))
           in if offset \<noteq> None \<or> limit \<noteq> None then
                Inr (format_with_line_numbers out (max (case offset of Some n \<Rightarrow> n | None \<Rightarrow> 1) 1)
                  (case limit of Some n \<Rightarrow> n | None \<Rightarrow> default_lines) max_line_chars)
              else Inr out))))"

section \<open>The tool\<close>

record file_read_input =
  ri_file_path :: string
  ri_offset :: "nat option"
  ri_limit :: "nat option"
  ri_pages :: "string option"

definition file_read_input_of :: "json \<Rightarrow> file_read_input option" where
  "file_read_input_of v =
     Option.bind (fields_of 4 v) (\<lambda>fs.
     Option.bind (required 0 [''file_path''] as_str fs) (\<lambda>path.
     Option.bind (defaulted 1 [''offset''] None (de_option de_u64) fs) (\<lambda>offset.
     Option.bind (defaulted 2 [''limit''] None (de_option de_u64) fs) (\<lambda>limit.
     Option.bind (defaulted 3 [''pages'', ''pageRange''] None (de_option as_str) fs) (\<lambda>pages.
     Some \<lparr>ri_file_path = path, ri_offset = offset, ri_limit = limit, ri_pages = pages\<rparr>)))))"

definition binary_extensions :: "string list" where
  "binary_extensions =
     [''.exe'', ''.dll'', ''.so'', ''.dylib'', ''.class'', ''.o'', ''.a'', ''.bin'', ''.wasm'']"

definition read_validate :: "file_lib \<Rightarrow> json \<Rightarrow> validation_result" where
  "read_validate lib v =
     (case file_read_input_of v of
        None \<Rightarrow> VErr (''invalid input: '' @ fl_de_error lib v) 2
      | Some p \<Rightarrow>
          (let lowered = to_lowercase (ri_file_path p) in
           if ri_file_path p = [] then VErr ''file_path must not be empty'' 1
           else if prefix ''/dev/'' lowered then VErr ''cannot read from /dev/ paths'' 5
           else (case List.find (\<lambda>x. suffix x lowered) binary_extensions of
                   Some x \<Rightarrow> VErr (''cannot read binary files ('' @ x @ ''); use Bash to inspect if needed'') 6
                 | None \<Rightarrow> VOk)))"

text \<open>\<open>security.rs\<close> resolves on this machine: the whole path, or its parent.\<close>

definition std_canonicalize :: "path \<Rightarrow> disk \<Rightarrow> path option" where
  "std_canonicalize p d = (case std_stat p d of Inr _ \<Rightarrow> Some (dk_real d p) | Inl _ \<Rightarrow> None)"

definition security_canonicalize :: "disk \<Rightarrow> path \<Rightarrow> path" where
  "security_canonicalize d p =
     (case std_canonicalize p d of
        Some r \<Rightarrow> r
      | None \<Rightarrow>
          (case path_parent p of
             None \<Rightarrow> p
           | Some q \<Rightarrow>
               path_join (case std_canonicalize q d of Some r \<Rightarrow> r | None \<Rightarrow> q)
                 (case file_name p of Some n \<Rightarrow> [Normal n] | None \<Rightarrow> [])))"

definition read_check_permissions :: "json \<Rightarrow> file_ctx \<Rightarrow> file_world \<Rightarrow> tool_decision" where
  "read_check_permissions v cx w =
     (case file_read_input_of v of
        Some i \<Rightarrow>
          (let p = normalize_path_lexically (resolve_path (ri_file_path i) (fx_cwd cx));
               root = normalize_path_lexically (fx_cwd cx)
           in if path_starts_with (security_canonicalize (fw_local w) p) (security_canonicalize (fw_local w) root)
              then TAllow None
              else TAsk ''Read outside the project requires confirmation'' None)
      | None \<Rightarrow> TAsk ''Read outside the project requires confirmation'' None)"

definition empty_file_note :: string where
  "empty_file_note = ''<system-reminder>Warning: the file exists but the contents are empty.</system-reminder>''"

definition read_file_to_text :: "file_lib \<Rightarrow> path \<Rightarrow> file_read_input \<Rightarrow> int \<Rightarrow> nat \<Rightarrow> nat \<Rightarrow> disk \<Rightarrow> tool_error + tool_result" where
  "read_file_to_text lib p i max_bytes default_lines max_line_chars d =
     (case stat_target p d TeExecution of
        Inl err \<Rightarrow> Inl err
      | Inr m \<Rightarrow>
     (let ext = path_extension p in
      if ext \<in> {''png'', ''jpg'', ''jpeg'', ''gif'', ''webp'', ''bmp''} then read_image lib p m max_bytes d
      else if ext = ''pdf'' then map_sum id plain_result (read_pdf_text lib p m max_bytes (ri_pages i))
      else if ext = ''ipynb'' then
        map_sum id plain_result (read_notebook lib p (ri_offset i) (ri_limit i) default_lines max_line_chars d)
      else if max_bytes < int (md_len m) then
        Inl (TeValidation (''file too large ('' @ show_nat (md_len m) @ '' bytes); cap is '' @ show_nat (nat max_bytes)
          @ '' bytes. Use Grep / Glob or pass a smaller window.''))
      else (case fs_read p d of
        Inl e \<Rightarrow> Inl (tool_error_of e)
      | Inr c \<Rightarrow>
     (case from_utf8 c of
        None \<Rightarrow> Inl (TeValidation (''file is not valid UTF-8 (possible binary file): '' @ path_str p
          @ ''. Use Bash with `file '' @ path_str p @ ''` to inspect the type.''))
      | Some body \<Rightarrow>
          (if trim body = [] then Inr (plain_result empty_file_note)
           else Inr (plain_result (format_with_line_numbers body (max (case ri_offset i of Some n \<Rightarrow> n | None \<Rightarrow> 1) 1)
                  (case ri_limit i of Some n \<Rightarrow> n | None \<Rightarrow> default_lines) max_line_chars)))))))"

definition unchanged_note :: "bool \<Rightarrow> string" where
  "unchanged_note consecutive =
     (if consecutive then ''[file unchanged] Use the previous content.''
      else ''[file unchanged] File unchanged since last read. Use the previous content.'')"

definition file_read_call :: "file_lib \<Rightarrow> json \<Rightarrow> file_ctx \<Rightarrow> file_world \<Rightarrow> (tool_error + tool_result) \<times> file_world" where
  "file_read_call lib v cx w =
     (case file_read_input_of v of
        None \<Rightarrow> (Inl (TeSchema (fl_de_error lib v)), w)
      | Some i \<Rightarrow>
          (let p = resolve_path (ri_file_path i) (fx_cwd cx) in
           if check_read_dedup_with_range (fw_local w) p (ri_offset i) (ri_limit i) (fw_session w) then
             (Inr (plain_result (unchanged_note (is_consecutive_read p (fw_session w)))), w)
           else if fx_cancelled cx then (Inl TeCancelled, w)
           else (case read_file_to_text lib p i (max (fx_max_read cx) (1024 * 1024)) 2000 2000 (tool_disk w) of
                   Inr r \<Rightarrow>
                     (Inr r, w\<lparr>fw_session :=
                        record_read_with_range (fw_local w) p (ri_offset i) (ri_limit i) (fw_session w)\<rparr>)
                 | Inl (TeExecution e) \<Rightarrow>
                     (if contains_str e ''not found'' then (Inr (plain_result (''(no such file) '' @ path_str p)), w)
                      else (Inl (TeExecution e), w))
                 | Inl err \<Rightarrow> (Inl err, w))))"

lemmas file_read_defs [kernel_defs] =
  pad_left_def shown_line_def numbered_line_def format_with_line_numbers_def be_bytes_def le_bytes_def
  clamp_dims_def estimate_image_dimensions_def path_extension_def mime_from_ext_def name_or_empty_def
  text_block_def image_block_def read_image_def pdf_cap_def pdf_pages_def read_pdf_text_def array_strings_def
  field_array_def cell_source_def output_text_def eight_spaces_def cell_text_def read_notebook_def
  file_read_input_of_def binary_extensions_def read_validate_def std_canonicalize_def
  security_canonicalize_def read_check_permissions_def empty_file_note_def read_file_to_text_def
  unchanged_note_def file_read_call_def

end
