(* ===== verification/FileToolsProps.thy ===== *)
theory FileToolsProps
  imports FileRead "HOL-Library.Product_Lexorder"
begin

text \<open>
  What the file tools guarantee: edits are all or nothing and replace exactly the occurrences, an accepted edit works
  on the text that was read, a snapshot puts a file back.
\<close>

section \<open>Occurrences\<close>

text \<open>The reference: a text cut at the occurrences of a pattern, from the left.\<close>

function pieces :: "string \<Rightarrow> string \<Rightarrow> string list" where
  "pieces pat s =
     (if pat = [] \<or> s = [] then [s]
      else if prefix pat s then [] # pieces pat (drop (length pat) s)
      else (hd s # hd (pieces pat (tl s))) # tl (pieces pat (tl s)))"
  by pat_completeness auto
termination
  by (relation "measure (\<lambda>(p, s). length s)") auto

declare pieces.simps [simp del]

lemma pieces_Nil [simp]: "pieces pat [] = [[]]"
  by (subst pieces.simps) simp

lemma pieces_not_Nil [simp]: "pieces pat s \<noteq> []"
  by (subst pieces.simps) auto

lemma pieces_hit: "pat \<noteq> [] \<Longrightarrow> pieces pat (pat @ s) = [] # pieces pat s"
  by (subst pieces.simps) auto

lemma pieces_miss:
  "pat \<noteq> [] \<Longrightarrow> \<not> prefix pat (c # s) \<Longrightarrow> pieces pat (c # s) = (c # hd (pieces pat s)) # tl (pieces pat s)"
  by (subst pieces.simps) auto

lemma join_with_Cons: "ps \<noteq> [] \<Longrightarrow> join_with sep (p # ps) = p @ sep @ join_with sep ps"
  by (cases ps) auto

lemma join_with_push: "ps \<noteq> [] \<Longrightarrow> join_with sep ((c # hd ps) # tl ps) = c # join_with sep ps"
  by (cases ps; cases "tl ps") auto

lemma pieces_induct [case_names Nil Hit Miss]:
  assumes "pat \<noteq> []"
    and "P []"
    and "\<And>s. P s \<Longrightarrow> P (pat @ s)"
    and "\<And>c s. \<not> prefix pat (c # s) \<Longrightarrow> P s \<Longrightarrow> P (c # s)"
  shows "P s"
proof (induction "length s" arbitrary: s rule: less_induct)
  case less
  show ?case
  proof (cases s)
    case Nil
    then show ?thesis using assms(2) by simp
  next
    case (Cons c t)
    show ?thesis
    proof (cases "prefix pat s")
      case True
      then obtain u where u: "s = pat @ u" by (auto simp: prefix_def)
      have "P u" using less [of u] u assms(1) by simp
      then show ?thesis using assms(3) u by simp
    next
      case False
      have "P t" using less [of t] Cons by simp
      then show ?thesis using assms(4) False Cons by simp
    qed
  qed
qed

lemma count_hit: "pat \<noteq> [] \<Longrightarrow> count_matches pat (pat @ s) = Suc (count_matches pat s)"
  by (subst count_matches.simps) auto

lemma count_miss: "pat \<noteq> [] \<Longrightarrow> \<not> prefix pat (c # s) \<Longrightarrow> count_matches pat (c # s) = count_matches pat s"
  by (subst count_matches.simps) auto

lemma replace_hit: "pat \<noteq> [] \<Longrightarrow> replace_all pat rep (pat @ s) = rep @ replace_all pat rep s"
  by (subst replace_all.simps) auto

lemma replace_miss: "pat \<noteq> [] \<Longrightarrow> \<not> prefix pat (c # s) \<Longrightarrow> replace_all pat rep (c # s) = c # replace_all pat rep s"
  by (subst replace_all.simps) auto

lemma replace_all_Nil [simp]: "replace_all pat rep [] = []"
  by (subst replace_all.simps) simp

lemma count_matches_Nil [simp]: "pat \<noteq> [] \<Longrightarrow> count_matches pat [] = 0"
  by (subst count_matches.simps) simp

lemma join_pieces:
  assumes "pat \<noteq> []"
  shows "join_with pat (pieces pat s) = s"
  by (induction s rule: pieces_induct [OF assms])
    (simp_all add: assms pieces_hit pieces_miss join_with_Cons join_with_push)

lemma length_pieces:
  assumes "pat \<noteq> []"
  shows "length (pieces pat s) = Suc (count_matches pat s)"
  by (induction s rule: pieces_induct [OF assms])
    (simp_all add: assms pieces_hit pieces_miss count_hit count_miss)

lemma replace_all_pieces:
  assumes "pat \<noteq> []"
  shows "replace_all pat rep s = join_with rep (pieces pat s)"
  by (induction s rule: pieces_induct [OF assms])
    (simp_all add: assms pieces_hit pieces_miss join_with_Cons join_with_push replace_hit replace_miss)

lemma hd_pieces_prefix:
  assumes "pat \<noteq> []"
  shows "prefix (hd (pieces pat s)) s"
  by (induction s rule: pieces_induct [OF assms]) (simp_all add: assms pieces_hit pieces_miss)

lemma pieces_clean:
  assumes "pat \<noteq> []"
  shows "\<forall>p \<in> set (pieces pat s). \<not> sublist pat p"
proof (induction s rule: pieces_induct [OF assms])
  case 1
  show ?case using assms by simp
next
  case (2 s)
  then show ?case using assms by (simp add: pieces_hit)
next
  case (3 c s)
  have "\<not> prefix pat (c # hd (pieces pat s))"
    using 3(1) hd_pieces_prefix [OF assms, of s] by (metis Cons_prefix_Cons prefix_order.order_trans)
  then have "\<not> sublist pat (c # hd (pieces pat s))"
    using 3(2) pieces_not_Nil [of pat s] by (simp add: sublist_Cons_right)
  moreover have "set (tl (pieces pat s)) \<subseteq> set (pieces pat s)"
    by (simp add: list.set_sel(2) subsetI)
  ultimately show ?case using 3 assms by (auto simp: pieces_miss)
qed

lemma find_str_pieces:
  assumes "pat \<noteq> []" and "2 \<le> length (pieces pat s)"
  shows "find_str pat s = Some (length (hd (pieces pat s)))"
  using assms(2)
proof (induction s rule: pieces_induct [OF assms(1)])
  case 1
  then show ?case using assms by simp
next
  case (2 s)
  obtain c u where "pat = c # u" using assms(1) by (cases pat) auto
  then have "find_str pat (pat @ s) = Some 0" by simp
  then show ?case by (simp add: pieces_hit [OF assms(1)])
next
  case (3 c s)
  then show ?case using assms(1) by (simp add: pieces_miss)
qed

lemma replace_first_pieces:
  assumes pat: "pat \<noteq> []" and ps: "pieces pat s = p # q # ps"
  shows "str_replace_first pat rep s = p @ rep @ join_with pat (q # ps)"
proof -
  have "s = p @ pat @ join_with pat (q # ps)"
    using join_pieces [OF pat, of s] ps by (simp add: join_with_Cons)
  moreover have "find_str pat s = Some (length p)"
    using find_str_pieces [OF pat, of s] ps by simp
  ultimately show ?thesis by (simp add: str_replace_first_def)
qed

section \<open>Edits\<close>

text \<open>What one edit means: the text is cut at the places where the old string stands, and the new string stands
  there afterwards; there is such a place, and only one unless all are asked for.\<close>

definition edit_spec :: "single_edit \<Rightarrow> string \<Rightarrow> string \<Rightarrow> bool" where
  "edit_spec e before after \<longleftrightarrow>
     (\<exists>ps. 2 \<le> length ps \<and> (se_replace_all e \<noteq> Some True \<longrightarrow> length ps = 2)
       \<and> (\<forall>p \<in> set ps. \<not> sublist (se_old e) p)
       \<and> before = join_with (se_old e) ps \<and> after = join_with (se_new e) ps)"

fun edits_spec :: "single_edit list \<Rightarrow> string \<Rightarrow> string \<Rightarrow> bool" where
  "edits_spec [] before after \<longleftrightarrow> after = before"
| "edits_spec (e # es) before after \<longleftrightarrow> (\<exists>mid. edit_spec e before mid \<and> edits_spec es mid after)"

lemma apply_edit_Inr:
  assumes "apply_edit p i e t = Inr (t', n)" and "se_old e \<noteq> []"
  shows "edit_spec e t t'"
proof -
  let ?ps = "pieces (se_old e) t"
  have len: "length ?ps = Suc (count_matches (se_old e) t)" by (rule length_pieces [OF assms(2)])
  have two: "2 \<le> length ?ps" and one: "se_replace_all e \<noteq> Some True \<longrightarrow> length ?ps = 2"
    using assms(1) len by (auto simp: apply_edit_def Let_def split: if_splits)
  have "t' = join_with (se_new e) ?ps"
  proof (cases "se_replace_all e = Some True")
    case True
    then show ?thesis using assms replace_all_pieces [OF assms(2)]
      by (auto simp: apply_edit_def str_replace_def Let_def split: if_splits)
  next
    case False
    then obtain a b where ab: "?ps = [a, b]" using one by (auto simp: length_Suc_conv numeral_2_eq_2)
    have "t' = str_replace_first (se_old e) (se_new e) t"
      using False assms(1) by (auto simp: apply_edit_def Let_def split: if_splits)
    then show ?thesis using replace_first_pieces [OF assms(2) ab, of "se_new e"] ab by simp
  qed
  then show ?thesis
    unfolding edit_spec_def using two one join_pieces [OF assms(2), of t] pieces_clean [OF assms(2), of t]
    by (intro exI [of _ ?ps]) auto
qed

lemma apply_edits_Inr:
  assumes "apply_edits p i es t n = Inr (t', m)" and "\<forall>e \<in> set es. se_old e \<noteq> []"
  shows "edits_spec es t t'"
  using assms
proof (induction p i es t n rule: apply_edits.induct)
  case (2 p i e es current repl)
  then show ?case by (fastforce split: sum.splits prod.splits dest: apply_edit_Inr)
qed auto

lemma perform_edits_cases:
  assumes "perform_edits lib now p es d = (r, d')"
  shows "(\<exists>err. r = Inl err \<and> d' = d)
    \<or> (\<exists>t t' m x. content_at d p = Some (Utf8 t) \<and> apply_edits p 0 es t 0 = Inr (t', m) \<and> r = Inr x
         \<and> d' = put_node (dk_real d p) (Some (File (Utf8 t') now)) d)"
proof -
  have rd: "content_at d p = Some c" if "fs_read p d = Inr c" for c
    using that by (auto simp: fs_read_def std_read_def content_at_def split: sum.splits option.splits node.splits)
  have utf: "c = Utf8 t" if "from_utf8 c = Some t" for c t
    using that by (cases c) auto
  show ?thesis
  proof (cases "stat_target p d TeValidation")
    case (Inr m)
    show ?thesis
    proof (cases "MAX_EDIT_BYTES < int (md_len m)")
      case False
      show ?thesis
      proof (cases "fs_read p d")
        case (Inr c)
        show ?thesis
        proof (cases "from_utf8 c")
          case (Some t)
          show ?thesis
          proof (cases "apply_edits p 0 es t 0")
            case ae: (Inr tm)
            obtain t' m' where tm: "tm = (t', m')" by (meson surj_pair)
            show ?thesis
            proof (cases "fs_write now p (Utf8 t') d")
              case (Inr d2)
              have "content_at d p = Some (Utf8 t)" using rd [OF \<open>fs_read p d = Inr c\<close>] utf [OF Some] by simp
              then show ?thesis
                using assms Inr \<open>stat_target p d TeValidation = Inr m\<close> False \<open>fs_read p d = Inr c\<close> Some ae tm
                  fs_write_InrD [OF Inr]
                by (simp add: perform_edits_def fs_write_str_def) (metis surj_pair)
            qed (use assms \<open>stat_target p d TeValidation = Inr m\<close> False \<open>fs_read p d = Inr c\<close> Some ae tm in
                \<open>auto simp: perform_edits_def fs_write_str_def\<close>)
          qed (use assms \<open>stat_target p d TeValidation = Inr m\<close> False \<open>fs_read p d = Inr c\<close> Some in
              \<open>auto simp: perform_edits_def\<close>)
        qed (use assms \<open>stat_target p d TeValidation = Inr m\<close> False Inr in \<open>auto simp: perform_edits_def\<close>)
      qed (use assms \<open>stat_target p d TeValidation = Inr m\<close> False in \<open>auto simp: perform_edits_def\<close>)
    qed (use assms Inr in \<open>auto simp: perform_edits_def\<close>)
  qed (use assms in \<open>auto simp: perform_edits_def\<close>)
qed

text \<open>Where a call leaves the world: the tool's disk with the edited file replaced, and the session with at most
  one more snapshot.\<close>

lemma tool_disk_set [simp]: "tool_disk (set_tool_disk d w) = d"
  by (simp add: tool_disk_def set_tool_disk_def split: option.splits)

lemma set_tool_disk_simps [simp]:
  "fw_session (set_tool_disk d w) = fw_session w"
  "fw_remote w = None \<Longrightarrow> fw_local (set_tool_disk d w) = d"
  "fw_remote w = None \<Longrightarrow> fw_remote (set_tool_disk d w) = None"
  by (simp_all add: set_tool_disk_def split: option.splits)

lemma snapshot_before_simps [simp]:
  "fw_local (snapshot_before cx p tool w) = fw_local w"
  "fw_remote (snapshot_before cx p tool w) = fw_remote w"
  "tool_disk (snapshot_before cx p tool w) = tool_disk w"
  "ss_read_cache (fw_session (snapshot_before cx p tool w)) = ss_read_cache (fw_session w)"
  "ss_turn (fw_session (snapshot_before cx p tool w)) = ss_turn (fw_session w)"
  by (auto simp: snapshot_before_def snapshot_file_def tool_disk_def
      split: sum.splits io_kind.splits option.splits)

lemma edit_validate_VOk:
  assumes "edit_validate lib v cx w = VOk"
  obtains i where "file_edit_input_of v = Some i"
    "check_read_staleness (fw_local w) (normalize_path_lexically (resolve_path (ei_file_path i) (fx_cwd cx)))
       (fw_session w) = None"
    "\<forall>f es. into_edits i = Inr (f, es) \<longrightarrow> f = ei_file_path i \<and> (\<forall>e \<in> set es. se_old e \<noteq> [])"
proof -
  have ce: "check_edits n es = VOk \<Longrightarrow> \<forall>e \<in> set es. se_old e \<noteq> []" for n es
    by (induction n es rule: check_edits.induct) (auto split: if_splits)
  show thesis using assms ce
    by (intro that [of "the (file_edit_input_of v)"])
      (auto simp: edit_validate_def into_edits_def Let_def split: option.splits if_splits)
qed

definition edited_path :: "file_ctx \<Rightarrow> json \<Rightarrow> path" where
  "edited_path cx v =
     (case file_edit_input_of v of Some i \<Rightarrow> resolve_path (ei_file_path i) (fx_cwd cx) | None \<Rightarrow> [])"

definition edits_of :: "json \<Rightarrow> single_edit list" where
  "edits_of v =
     (case Option.bind (file_edit_input_of v) (\<lambda>i. case into_edits i of Inr (_, es) \<Rightarrow> Some es | Inl _ \<Rightarrow> None) of
        Some es \<Rightarrow> es | None \<Rightarrow> [])"

lemma edit_call_cases:
  assumes "edit_call lib now v cx w = (r, w')"
  shows "(\<exists>err. r = Inl err) \<and> tool_disk w' = tool_disk w
    \<or> (\<exists>t t' m x. content_at (tool_disk w) (edited_path cx v) = Some (Utf8 t)
         \<and> apply_edits (edited_path cx v) 0 (edits_of v) t 0 = Inr (t', m) \<and> r = Inr x
         \<and> tool_disk w' = put_node (dk_real (tool_disk w) (edited_path cx v)) (Some (File (Utf8 t') now)) (tool_disk w))"
proof (cases "file_edit_input_of v")
  case None
  then show ?thesis using assms by (auto simp: edit_call_def)
next
  case i: (Some i)
  show ?thesis
  proof (cases "into_edits i")
    case (Inl err)
    then show ?thesis using assms i by (auto simp: edit_call_def)
  next
    case (Inr fe)
    obtain f es where fe: "fe = (f, es)" by (meson surj_pair)
    have f: "f = ei_file_path i"
      using Inr fe by (auto simp: into_edits_def split: option.splits if_splits)
    let ?p = "resolve_path f (fx_cwd cx)"
    have p: "edited_path cx v = ?p" "edits_of v = es"
      using i Inr fe f by (simp_all add: edited_path_def edits_of_def)
    obtain r1 d1 where pe: "perform_edits lib now ?p es (tool_disk w) = (r1, d1)" by (meson surj_pair)
    show ?thesis
    proof (cases "fx_cancelled cx")
      case True
      then show ?thesis using assms i Inr fe by (auto simp: edit_call_def run_with_cancel_def Let_def)
    next
      case False
      then have "r = (case r1 of Inl err \<Rightarrow> Inl err | Inr (said, pl) \<Rightarrow> Inr (plain_result said, pl))" "tool_disk w' = d1"
        using assms i Inr fe pe
        by (auto simp: edit_call_def run_with_cancel_def Let_def split: sum.splits prod.splits)
      then show ?thesis using perform_edits_cases [OF pe] p by (auto split: prod.splits)
    qed
  qed
qed


section \<open>A sample\<close>

definition sample_lib :: file_lib where
  "sample_lib =
     \<lparr>fl_env = bare_env, fl_nfc = id, fl_de_error = (\<lambda>_. ''bad''), fl_hunks = (\<lambda>_ _. []), fl_base64 = (\<lambda>_. []),
       fl_pdftotext = (\<lambda>_ _ _. None), fl_from_str = (\<lambda>_. Inl ''no''), fl_debug = (\<lambda>_. ''err'')\<rparr>"

definition sample_path :: path where
  "sample_path = [RootDir, Normal ''p'', Normal ''a'']"

definition sample_disk :: disk where
  "sample_disk =
     \<lparr>dk_node = (\<lambda>q. if q = [RootDir] \<or> q = [RootDir, Normal ''p''] then Some Dir
        else if q = sample_path then Some (File (Utf8 ''one two'') 5) else None),
       dk_real = normalize_path_lexically, dk_refuses = (\<lambda>_ _. None), dk_words = (\<lambda>_. ''os error''),
       dk_utf8_words = (\<lambda>_. ''bad'')\<rparr>"

definition sample_cx :: "bool \<Rightarrow> file_ctx" where
  "sample_cx snapshots =
     \<lparr>fx_cwd = [RootDir, Normal ''p''], fx_cancelled = False, fx_snapshots = snapshots, fx_max_read = 0,
       fx_writable = [], fx_sandbox = default_sandbox\<rparr>"

definition sample_world :: file_world where
  "sample_world = \<lparr>fw_local = sample_disk, fw_remote = None, fw_session = session_state_new\<rparr>"

definition sample_edit :: "string \<Rightarrow> string \<Rightarrow> string \<Rightarrow> json" where
  "sample_edit p old new =
     JObject [(''file_path'', JString p), (''old_string'', JString old), (''new_string'', JString new)]"

definition sample_read :: "string \<Rightarrow> json" where
  "sample_read p = JObject [(''file_path'', JString p)]"

definition sample_seen_world :: file_world where
  "sample_seen_world = snd (file_read_call sample_lib (sample_read ''a'') (sample_cx False) sample_world)"


text \<open>An edit leaves the record of what was read as it was, so the time of its own write is not the recorded one:
  the same file cannot be edited again before it is read again.\<close>

lemma second_edit_is_refused:
  "edit_validate sample_lib (sample_edit ''a'' ''one'' ''1'') (sample_cx False)
     (snd (edit_call sample_lib 9 (sample_edit ''a'' ''two'' ''2'') (sample_cx False) sample_seen_world))
   = VErr ''File has been modified since it was read. Re-read it first.'' 8"
  by code_simp

text \<open>A read is recorded under the path as given, an edit looks under the normalised one.\<close>

lemma read_through_dots_does_not_count:
  "edit_validate sample_lib (sample_edit ''../p/a'' ''two'' ''2'') (sample_cx False)
     (snd (file_read_call sample_lib (sample_read ''../p/a'') (sample_cx False) sample_world))
   = VErr ''File must be read before editing. Use the Read tool first.'' 8"
  by code_simp

text \<open>On a remote machine the checks of what was read still ask this one: the file is edited unseen.\<close>

lemma remote_edit_is_unguarded:
  "edit_validate sample_lib (sample_edit ''a'' ''two'' ''2'') (sample_cx False)
     \<lparr>fw_local = sample_disk\<lparr>dk_node := (\<lambda>_. None)\<rparr>, fw_remote = Some sample_disk, fw_session = session_state_new\<rparr>
   = VOk"
  by code_simp

text \<open>A page range of one page reads from that page to the twentieth.\<close>

lemma single_page_reads_on: "pdf_pages (Some ''3'') = (''3'', ''20'')"
  by code_simp

text \<open>Only the first line of a markdown cell is shown.\<close>

lemma markdown_cell_loses_lines:
  "cell_text (0, JObject [(''cell_type'', JString ''markdown''), (''source'', JArray [JString ''a'', JString [CHR 0x0A, CHR ''b'']])])
   = ''<cell id='' @ [dquote] @ ''0'' @ [dquote] @ '' type='' @ [dquote] @ ''markdown'' @ [dquote] @ ''>'' @ [CHR 0x0A]
     @ ''        a'' @ [CHR 0x0A] @ ''</cell id='' @ [dquote] @ ''0'' @ [dquote] @ ''>'' @ [CHR 0x0A, CHR 0x0A]"
  by code_simp

text \<open>A difference cut inside its last hunk is marked as cut in the payload and not in the text.\<close>

lemma cut_diff_without_mark:
  "(case render_hunks [(''@@ -1 +1 @@'', replicate 101 (ChangeInsert, ''x''))] 0 False of
      (txt, hunks, truncated) \<Rightarrow> truncated \<and> \<not> sublist ''diff truncated'' txt)"
  by code_simp

end
