(* ===== verification/FileRuns.thy ===== *)
theory FileRuns
  imports FileToolsProps
begin

text \<open>
  Runs of file calls: what the tools of a session and other programs do to the files of a machine, one call after the
  other at later and later times.  An accepted edit works on the text that was read, and a rewind puts back what the
  turns after its target changed.
\<close>

section \<open>Runs\<close>

datatype file_action =
    ActTurn
  | ActRead json
  | ActEdit json
  | ActWrite json
  | ActOther path "content option"

definition read_path :: "file_ctx \<Rightarrow> json \<Rightarrow> path" where
  "read_path cx v =
     (case file_read_input_of v of Some i \<Rightarrow> resolve_path (ri_file_path i) (fx_cwd cx) | None \<Rightarrow> [])"

definition on_local :: "(disk \<Rightarrow> io_kind + disk) \<Rightarrow> file_world \<Rightarrow> file_world" where
  "on_local f w = (case f (fw_local w) of Inr d \<Rightarrow> w\<lparr>fw_local := d\<rparr> | Inl _ \<Rightarrow> w)"

text \<open>A call is made when its input passes the tool's validation.\<close>

fun file_step :: "file_lib \<Rightarrow> nat \<times> file_ctx \<times> file_action \<Rightarrow> file_world \<Rightarrow> file_world" where
  "file_step lib (now, cx, ActTurn) w = w\<lparr>fw_session := snd (bump_turn (fw_session w))\<rparr>"
| "file_step lib (now, cx, ActRead v) w = (if read_validate lib v = VOk then snd (file_read_call lib v cx w) else w)"
| "file_step lib (now, cx, ActEdit v) w = (if edit_validate lib v cx w = VOk then snd (edit_call lib now v cx w) else w)"
| "file_step lib (now, cx, ActWrite v) w =
     (if write_validate lib v cx w = VOk then snd (write_call lib now v cx w) else w)"
| "file_step lib (now, cx, ActOther p (Some c)) w = on_local (std_write now p c) w"
| "file_step lib (now, cx, ActOther p None) w = on_local (std_remove_file p) w"

definition file_run :: "file_lib \<Rightarrow> (nat \<times> file_ctx \<times> file_action) list \<Rightarrow> file_world \<Rightarrow> file_world" where
  "file_run lib evs w = foldl (\<lambda>w e. file_step lib e w) w evs"

lemma file_run_simps [simp]:
  "file_run lib [] w = w" "file_run lib (evs @ [e]) w = file_step lib e (file_run lib evs w)"
  by (simp_all add: file_run_def)

section \<open>One step\<close>

text \<open>What a step may do to the disk: every node stays, goes, or is new: a directory, or a file of this moment.\<close>

definition evolves :: "nat \<Rightarrow> disk \<Rightarrow> disk \<Rightarrow> bool" where
  "evolves now d d' \<longleftrightarrow> same_ground d d'
     \<and> (\<forall>q. dk_node d' q = dk_node d q \<or> dk_node d' q = None \<or> dk_node d' q = Some Dir \<and> dk_node d q = None
          \<or> (\<exists>c. dk_node d' q = Some (File c now)))"

lemma evolves_refl [simp]: "evolves now d d"
  by (simp add: evolves_def)

lemma evolves_put [simp]: "evolves now d (put_node p (Some (File c now)) d)" "evolves now d (put_node p None d)"
  by (auto simp: evolves_def)

lemma evolves_file:
  assumes "evolves now d d'" and "dk_node d' q = Some (File c m)"
  shows "m = now \<or> dk_node d q = Some (File c m)"
proof -
  have "dk_node d' q = dk_node d q \<or> dk_node d' q = None \<or> dk_node d' q = Some Dir \<and> dk_node d q = None
      \<or> (\<exists>c. dk_node d' q = Some (File c now))"
    using assms(1) unfolding evolves_def by blast
  then show ?thesis using assms(2) by auto
qed

lemma evolves_real: "evolves now d d' \<Longrightarrow> dk_real d' = dk_real d"
  by (simp add: evolves_def same_ground_def)

lemma write_call_cases:
  assumes "write_call lib now v cx w = (r, w')"
  shows "tool_disk w' = tool_disk w
    \<or> (\<exists>q. fs_create_dir_all q (tool_disk w) = Inr (tool_disk w'))
    \<or> (\<exists>p c d1. (d1 = tool_disk w \<or> (\<exists>q. fs_create_dir_all q (tool_disk w) = Inr d1))
         \<and> fs_write now p c d1 = Inr (tool_disk w'))"
proof -
  have wf: "d' = d \<or> (\<exists>q. fs_create_dir_all q d = Inr d')
    \<or> (\<exists>c d1. (d1 = d \<or> (\<exists>q. fs_create_dir_all q d = Inr d1)) \<and> fs_write now p c d1 = Inr d')"
    if "write_file now p b d = (x, d')" for p b d x d'
    using that by (auto simp: write_file_def fs_write_str_def Let_def split: option.splits sum.splits if_splits)
  show ?thesis
  proof (cases "file_write_input_of v")
    case None
    then show ?thesis using assms by (simp add: write_call_def)
  next
    case (Some i)
    let ?p = "resolve_path (wi_file_path i) (fx_cwd cx)"
    obtain x d' where wr: "write_file now ?p (wi_content i) (tool_disk w) = (x, d')" by (meson surj_pair)
    have "tool_disk w' = (if fx_cancelled cx then tool_disk w else d')"
      using assms Some wr
      by (auto simp: write_call_def run_with_cancel_def Let_def split: sum.splits prod.splits if_splits)
    then show ?thesis using wf [OF wr] by (cases "fx_cancelled cx") (simp, metis)
  qed
qed

lemma evolves_create: "fs_create_dir_all q d = Inr d' \<Longrightarrow> evolves now d d'"
  using fs_create_dir_all_InrD [of q d d'] by (auto simp: evolves_def)

lemma evolves_create_write:
  assumes "d1 = d \<or> (\<exists>q. fs_create_dir_all q d = Inr d1)" and "fs_write now p c d1 = Inr d'"
  shows "evolves now d d'"
proof -
  have "evolves now d d1" using assms(1) evolves_create by auto
  moreover have "d' = put_node (dk_real d1 p) (Some (File c now)) d1" by (rule fs_write_InrD [OF assms(2)])
  ultimately show ?thesis by (auto simp: evolves_def same_ground_def)
qed

lemma call_frames:
  assumes "fw_remote w = None"
  shows "fw_remote (snd (edit_call lib now v cx w)) = None"
    "ss_read_cache (fw_session (snd (edit_call lib now v cx w))) = ss_read_cache (fw_session w)"
    "fw_remote (snd (write_call lib now v cx w)) = None"
    "ss_read_cache (fw_session (snd (write_call lib now v cx w))) = ss_read_cache (fw_session w)"
  using assms
  by (auto simp: edit_call_def write_call_def run_with_cancel_def Let_def split: sum.splits prod.splits option.splits)

text \<open>A read of this machine's files leaves the disk; it records the file it showed.\<close>

definition shows_file :: "file_lib \<Rightarrow> json \<Rightarrow> file_ctx \<Rightarrow> file_world \<Rightarrow> bool" where
  "shows_file lib v cx w =
     (case file_read_input_of v of
        None \<Rightarrow> False
      | Some i \<Rightarrow>
          (let p = resolve_path (ri_file_path i) (fx_cwd cx) in
           \<not> check_read_dedup_with_range (fw_local w) p (ri_offset i) (ri_limit i) (fw_session w)
           \<and> \<not> fx_cancelled cx
           \<and> (case read_file_to_text lib p i (max (fx_max_read cx) (1024 * 1024)) 2000 2000 (tool_disk w) of
                Inr _ \<Rightarrow> True | Inl _ \<Rightarrow> False)))"

lemma stat_target_Inr:
  assumes "stat_target p d missing = Inr m"
  obtains c t where "node_at d p = Some (File c t)"
  using assms that
  by (auto simp: stat_target_def metadata_following_symlinks_def fs_canonicalize_def fs_metadata_def node_at_def
      node_metadata_def std_stat_def split: sum.splits option.splits exec_error.splits if_splits node.splits)

lemma read_file_to_text_Inr:
  assumes "read_file_to_text lib p i mb dl ml d = Inr r"
  obtains c t where "node_at d p = Some (File c t)"
proof -
  obtain m where "stat_target p d TeExecution = Inr m"
    using assms by (cases "stat_target p d TeExecution") (auto simp: read_file_to_text_def)
  then show thesis using that by (rule stat_target_Inr)
qed

lemma file_read_call_cases:
  assumes "fw_remote w = None"
  shows "snd (file_read_call lib v cx w) = w
    \<or> (shows_file lib v cx w \<and> (\<exists>c t. node_at (fw_local w) (read_path cx v) = Some (File c t))
        \<and> (\<exists>offset limit. snd (file_read_call lib v cx w) = w\<lparr>fw_session :=
             record_read_with_range (fw_local w) (read_path cx v) offset limit (fw_session w)\<rparr>))"
proof (cases "file_read_input_of v")
  case None
  then show ?thesis by (simp add: file_read_call_def)
next
  case (Some i)
  let ?p = "resolve_path (ri_file_path i) (fx_cwd cx)"
  let ?r = "read_file_to_text lib ?p i (max (fx_max_read cx) (1024 * 1024)) 2000 2000 (tool_disk w)"
  have td: "tool_disk w = fw_local w" using assms by (simp add: tool_disk_def)
  show ?thesis
  proof (cases "check_read_dedup_with_range (fw_local w) ?p (ri_offset i) (ri_limit i) (fw_session w) \<or> fx_cancelled cx")
    case True
    then show ?thesis using Some by (auto simp: file_read_call_def Let_def)
  next
    case False
    show ?thesis
    proof (cases ?r)
      case (Inl e)
      then show ?thesis using Some False by (cases e) (auto simp: file_read_call_def Let_def)
    next
      case (Inr x)
      then obtain c t where "node_at (fw_local w) ?p = Some (File c t)" using td by (metis read_file_to_text_Inr)
      moreover have "read_path cx v = ?p" "shows_file lib v cx w"
        "snd (file_read_call lib v cx w) = w\<lparr>fw_session :=
           record_read_with_range (fw_local w) ?p (ri_offset i) (ri_limit i) (fw_session w)\<rparr>"
        using Some False Inr by (simp_all add: file_read_call_def shows_file_def read_path_def Let_def)
      ultimately show ?thesis by metis
    qed
  qed
qed

lemma file_step_other:
  assumes "fw_remote w = None" and "\<And>v. a \<noteq> ActRead v"
  shows "fw_remote (file_step lib (now, cx, a) w) = None
    \<and> ss_read_cache (fw_session (file_step lib (now, cx, a) w)) = ss_read_cache (fw_session w)
    \<and> evolves now (fw_local w) (fw_local (file_step lib (now, cx, a) w))"
proof -
  have td: "tool_disk w' = fw_local w'" if "fw_remote w' = None" for w' using that by (simp add: tool_disk_def)
  show ?thesis
  proof (cases a)
    case ActTurn
    then show ?thesis using assms by (simp add: bump_turn_def)
  next
    case (ActRead v)
    then show ?thesis using assms by simp
  next
    case (ActEdit v)
    obtain r w' where e: "edit_call lib now v cx w = (r, w')" by (meson surj_pair)
    have f: "fw_remote w' = None" "ss_read_cache (fw_session w') = ss_read_cache (fw_session w)"
      using call_frames(1,2) [OF assms(1), of lib now v cx] e by simp_all
    have "evolves now (fw_local w) (fw_local w')"
      using edit_call_cases [OF e] td [OF f(1)] td [OF assms(1)] by auto
    then show ?thesis using assms ActEdit e f by simp
  next
    case (ActWrite v)
    obtain r w' where e: "write_call lib now v cx w = (r, w')" by (meson surj_pair)
    have f: "fw_remote w' = None" "ss_read_cache (fw_session w') = ss_read_cache (fw_session w)"
      using call_frames(3,4) [OF assms(1), of lib now v cx] e by simp_all
    have "evolves now (fw_local w) (fw_local w')"
      using write_call_cases [OF e] unfolding td [OF f(1)] td [OF assms(1)]
      by (elim disjE exE conjE) (auto intro: evolves_create evolves_create_write)
    then show ?thesis using assms ActWrite e f by simp
  next
    case (ActOther p c)
    then show ?thesis using assms
      by (cases c) (auto simp: on_local_def split: sum.splits dest!: std_write_InrD std_remove_InrD)
  qed
qed

section \<open>An edit works on what was read\<close>

text \<open>At some point of the run a read showed the file under this path, and its content was \<open>c\<close>.\<close>

definition was_shown :: "file_lib \<Rightarrow> (nat \<times> file_ctx \<times> file_action) list \<Rightarrow> file_world \<Rightarrow> path \<Rightarrow> content \<Rightarrow> bool" where
  "was_shown lib evs w p c \<longleftrightarrow>
     (\<exists>pre now cx v post. evs = pre @ (now, cx, ActRead v) # post \<and> shows_file lib v cx (file_run lib pre w)
        \<and> read_path cx v = p \<and> content_at (fw_local (file_run lib pre w)) p = Some c)"

lemma was_shown_snoc: "was_shown lib evs w p c \<Longrightarrow> was_shown lib (evs @ [e]) w p c"
  unfolding was_shown_def by (metis append.assoc append_Cons)

definition reads_known :: "file_lib \<Rightarrow> file_world \<Rightarrow> (nat \<times> file_ctx \<times> file_action) list \<Rightarrow> nat \<Rightarrow> file_world \<Rightarrow> bool" where
  "reads_known lib w0 evs now w \<longleftrightarrow>
     fw_remote w = None
     \<and> (\<forall>q c m. dk_node (fw_local w) q = Some (File c m) \<longrightarrow> m \<le> now)
     \<and> (\<forall>p e. ss_read_cache (fw_session w) p = Some e \<longrightarrow> fe_mtime e \<le> now
          \<and> (\<forall>c. node_at (fw_local w) p = Some (File c (fe_mtime e)) \<longrightarrow> was_shown lib evs w0 p c))"

lemma reads_known_step:
  assumes inv: "reads_known lib w0 evs before (file_run lib evs w0)" and "before < now"
  shows "reads_known lib w0 (evs @ [(now, cx, a)]) now (file_run lib (evs @ [(now, cx, a)]) w0)"
proof -
  let ?w = "file_run lib evs w0" and ?w' = "file_step lib (now, cx, a) (file_run lib evs w0)"
  have loc: "fw_remote ?w = None"
    and old: "\<And>q c m. dk_node (fw_local ?w) q = Some (File c m) \<Longrightarrow> m \<le> before"
    and cached: "\<And>p e. ss_read_cache (fw_session ?w) p = Some e \<Longrightarrow> fe_mtime e \<le> before"
    and shown: "\<And>p e c. ss_read_cache (fw_session ?w) p = Some e \<Longrightarrow>
       node_at (fw_local ?w) p = Some (File c (fe_mtime e)) \<Longrightarrow> was_shown lib evs w0 p c"
    using inv unfolding reads_known_def by blast+
  show ?thesis
  proof (cases "\<exists>v. a = ActRead v")
    case False
    then have st: "fw_remote ?w' = None" "ss_read_cache (fw_session ?w') = ss_read_cache (fw_session ?w)"
      "evolves now (fw_local ?w) (fw_local ?w')"
      using file_step_other [OF loc, of a lib now cx] by auto
    have kept: "node_at (fw_local ?w) p = Some (File c m)"
      if "node_at (fw_local ?w') p = Some (File c m)" "m \<le> before" for p c m
      using evolves_file [OF st(3), of "dk_real (fw_local ?w) p" c m] that evolves_real [OF st(3)] \<open>before < now\<close>
      by (simp add: node_at_def del: file_step.simps)
    have "m \<le> now" if "dk_node (fw_local ?w') q = Some (File c m)" for q c m
      using evolves_file [OF st(3) that] old [of q c m] \<open>before < now\<close> by fastforce
    moreover have "fe_mtime e \<le> now" if "ss_read_cache (fw_session ?w') p = Some e" for p e
      using cached [of p e] that st(2) \<open>before < now\<close> by simp
    moreover have "was_shown lib (evs @ [(now, cx, a)]) w0 p c"
      if "ss_read_cache (fw_session ?w') p = Some e" "node_at (fw_local ?w') p = Some (File c (fe_mtime e))" for p e c
      using shown [of p e c] kept [OF that(2)] cached [of p e] that(1) st(2) was_shown_snoc by simp
    ultimately show ?thesis using st(1) unfolding reads_known_def by (simp del: file_step.simps)
  next
    case True
    then obtain v where a: "a = ActRead v" by blast
    have le: "before \<le> now" using \<open>before < now\<close> by simp
    from file_read_call_cases [OF loc, of lib v cx]
    consider (same) "?w' = ?w"
      | (rec) c t offset limit where "shows_file lib v cx ?w" "node_at (fw_local ?w) (read_path cx v) = Some (File c t)"
          "?w' = ?w\<lparr>fw_session := record_read_with_range (fw_local ?w) (read_path cx v) offset limit (fw_session ?w)\<rparr>"
      using a by (cases "read_validate lib v = VOk") auto
    then show ?thesis
    proof cases
      case same
      have "m \<le> now" if "dk_node (fw_local ?w) q = Some (File c m)" for q c m
        using old [OF that] le by simp
      moreover have "fe_mtime e \<le> now" if "ss_read_cache (fw_session ?w) p = Some e" for p e
        using cached [OF that] le by simp
      ultimately show ?thesis using loc shown was_shown_snoc
        unfolding reads_known_def file_run_simps same by blast
    next
      case rec
      let ?p = "read_path cx v"
      have d: "fw_local ?w' = fw_local ?w" "fw_remote ?w' = None" using rec(3) loc by simp_all
      have t: "t \<le> before" using old [of "dk_real (fw_local ?w) ?p" c t] rec(2) by (simp add: node_at_def)
      have here: "was_shown lib (evs @ [(now, cx, a)]) w0 ?p c"
        unfolding was_shown_def using rec(1,2) a
        by (intro exI [of _ evs] exI [of _ now] exI [of _ cx] exI [of _ v] exI [of _ "[]"]) (simp add: content_at_def)
      have cache: "ss_read_cache (fw_session ?w') q = Some e \<Longrightarrow>
          ss_read_cache (fw_session ?w) q = Some e \<or> q = ?p \<and> fe_mtime e = t" for q e
        using rec(2,3)
        by (auto simp: record_read_with_range_def mtime_at_def std_stat_def split: option.splits if_splits)
      have "m \<le> now" if "dk_node (fw_local ?w') q = Some (File c m)" for q c m
        using old [of q c m] that d le by simp
      moreover have "fe_mtime e \<le> now" if "ss_read_cache (fw_session ?w') q = Some e" for q e
        using cache [OF that] cached [of q e] t le by auto
      moreover have "was_shown lib (evs @ [(now, cx, a)]) w0 q c'"
        if "ss_read_cache (fw_session ?w') q = Some e" "node_at (fw_local ?w') q = Some (File c' (fe_mtime e))" for q e c'
        using cache [OF that(1)]
      proof
        assume "ss_read_cache (fw_session ?w) q = Some e"
        then show ?thesis using shown [of q e c'] that(2) d was_shown_snoc by simp
      next
        assume "q = ?p \<and> fe_mtime e = t"
        then show ?thesis using that(2) d rec(2) here by simp
      qed
      ultimately show ?thesis using d(2) unfolding reads_known_def by (simp del: file_step.simps)
    qed
  qed
qed

lemma reads_known_run:
  assumes "fw_remote w = None" and "ss_read_cache (fw_session w) = (\<lambda>_. None)"
    and "\<And>q c m. dk_node (fw_local w) q = Some (File c m) \<Longrightarrow> m \<le> start"
    and "sorted_wrt (<) (start # map fst evs)"
  shows "\<exists>now. reads_known lib w evs now (file_run lib evs w) \<and> now = last (start # map fst evs)"
  using assms(4)
proof (induction evs rule: rev_induct)
  case Nil
  then show ?case using assms(1-3) by (auto simp: reads_known_def)
next
  case (snoc e evs)
  obtain now cx a where e: "e = (now, cx, a)" by (cases e) auto
  have sorted: "sorted_wrt (<) (start # map fst evs)" and lt: "last (start # map fst evs) < now"
    using snoc.prems e by (cases evs rule: rev_cases; auto simp: sorted_wrt_append)+
  show ?case using reads_known_step [OF _ lt] snoc.IH [OF sorted] e by auto
qed


lemma sample_times: "dk_node sample_disk q = Some (File c m) \<Longrightarrow> m \<le> 5"
  by (auto simp: sample_disk_def split: if_splits)


end
