(* ===== verification/Rewind.thy ===== *)
theory Rewind
  imports FileRuns
begin

text \<open>
  Taking back what turns did to files: \<open>FileSnapshotRegistry\<close>, \<open>snapshot_file\<close> and \<open>restore_to_turn\<close> of
  \<open>core/src/context/session.rs\<close> under the file tools, for calls whose context carries a snapshot callback.
\<close>

section \<open>What a call changes\<close>

definition file_at :: "disk \<Rightarrow> path \<Rightarrow> content option" where
  "file_at d r = (case dk_node d r of Some (File c _) \<Rightarrow> Some c | _ \<Rightarrow> None)"

lemma content_at_file: "content_at d p = file_at d (dk_real d p)"
  by (simp add: content_at_def file_at_def node_at_def)

definition rooted :: "disk \<Rightarrow> bool" where
  "rooted d \<longleftrightarrow> (\<forall>r. file_at d r \<noteq> None \<longrightarrow> parent_fault r d = None)"

definition dirs_stay :: "disk \<Rightarrow> disk \<Rightarrow> bool" where
  "dirs_stay d d' \<longleftrightarrow> (\<forall>q. dk_node d q = Some Dir \<longrightarrow> dk_node d' q = Some Dir)"

definition touch :: "path \<Rightarrow> disk \<Rightarrow> disk \<Rightarrow> bool" where
  "touch p d d' \<longleftrightarrow> same_ground d d' \<and> dirs_stay d d' \<and> (rooted d \<longrightarrow> rooted d')
     \<and> (\<forall>r. r \<noteq> dk_real d p \<longrightarrow> file_at d' r = file_at d r)"

lemma parent_fault_stays: "dirs_stay d d' \<Longrightarrow> parent_fault r d = None \<Longrightarrow> parent_fault r d' = None"
  by (auto simp: parent_fault_def dirs_stay_def split: option.splits node.splits)

lemma file_at_put [simp]:
  "file_at (put_node p n d) r = (if r = p then (case n of Some (File c _) \<Rightarrow> Some c | _ \<Rightarrow> None) else file_at d r)"
  by (simp add: file_at_def)

lemma touch_refl [simp]: "touch p d d"
  by (simp add: touch_def dirs_stay_def)

lemma touch_mkdirs:
  assumes "fs_create_dir_all q d = Inr d'"
  shows "touch p d d'" and "\<And>r. file_at d' r = file_at d r"
proof -
  note c = fs_create_dir_all_InrD [OF assms]
  show f: "file_at d' r = file_at d r" for r by (simp add: file_at_def c(2))
  have "dirs_stay d d'" by (simp add: dirs_stay_def c(2))
  then show "touch p d d'" using c(1) f parent_fault_stays by (auto simp: touch_def rooted_def)
qed

lemma touch_write:
  assumes "fs_write now p c d = Inr d'"
  shows "touch p d d'"
proof -
  have d': "d' = put_node (dk_real d p) (Some (File c now)) d" by (rule fs_write_InrD [OF assms])
  have par: "parent_fault (dk_real d p) d = None" and nd: "node_at d p \<noteq> Some Dir"
    using assms by (auto simp: fs_write_def std_write_def split: sum.splits option.splits if_splits)
  have stay: "dirs_stay d d'" using nd d' by (auto simp: dirs_stay_def node_at_def)
  then show ?thesis
    using d' par parent_fault_stays [OF stay] by (auto simp: touch_def rooted_def)
qed

lemma touch_same_trans:
  assumes "touch p d d1" and "touch p d1 d2"
  shows "touch p d d2"
  using assms unfolding touch_def same_ground_def dirs_stay_def by simp

lemma edit_call_touch:
  assumes "fw_remote w = None" and "fx_snapshots cx"
  shows "snd (edit_call lib now v cx w) = w
    \<or> (\<exists>p. fw_session (snd (edit_call lib now v cx w)) = snapshot_file (fw_local w) p ''Edit'' (fw_session w)
         \<and> fw_remote (snd (edit_call lib now v cx w)) = None
         \<and> touch p (fw_local w) (fw_local (snd (edit_call lib now v cx w))))"
proof (cases "file_edit_input_of v")
  case None
  then show ?thesis by (simp add: edit_call_def)
next
  case i: (Some i)
  show ?thesis
  proof (cases "into_edits i")
    case (Inl err)
    then show ?thesis using i by (simp add: edit_call_def)
  next
    case (Inr fe)
    obtain f es where fe: "fe = (f, es)" by (meson surj_pair)
    let ?p = "resolve_path f (fx_cwd cx)"
    obtain r d' where pe: "perform_edits lib now ?p es (fw_local w) = (r, d')" by (meson surj_pair)
    have t: "touch ?p (fw_local w) d'"
    proof -
      obtain c where "d' = fw_local w \<or> fs_write now ?p c (fw_local w) = Inr d'"
        using pe unfolding perform_edits_def fs_write_str_def
        by (cases "stat_target ?p (fw_local w) TeValidation"; simp split: if_splits sum.splits option.splits prod.splits)
          blast+
      then show ?thesis using touch_write by auto
    qed
    have td: "tool_disk w = fw_local w" using assms(1) by (simp add: tool_disk_def)
    show ?thesis
    proof (rule disjI2, rule exI [of _ ?p], intro conjI)
      show "fw_session (snd (edit_call lib now v cx w)) = snapshot_file (fw_local w) ?p ''Edit'' (fw_session w)"
        using i Inr fe assms
        by (auto simp: edit_call_def run_with_cancel_def snapshot_before_def Let_def split: sum.splits prod.splits)
      show "fw_remote (snd (edit_call lib now v cx w)) = None" using call_frames(1) [OF assms(1)] .
      show "touch ?p (fw_local w) (fw_local (snd (edit_call lib now v cx w)))"
        using i Inr fe assms t pe td
        by (cases r) (auto simp: edit_call_def run_with_cancel_def Let_def split: prod.splits)
    qed
  qed
qed

lemma write_call_touch:
  assumes "fw_remote w = None" and "fx_snapshots cx"
  shows "snd (write_call lib now v cx w) = w
    \<or> (\<exists>p. fw_session (snd (write_call lib now v cx w)) = snapshot_file (fw_local w) p ''Write'' (fw_session w)
         \<and> fw_remote (snd (write_call lib now v cx w)) = None
         \<and> touch p (fw_local w) (fw_local (snd (write_call lib now v cx w))))"
proof (cases "file_write_input_of v")
  case None
  then show ?thesis by (simp add: write_call_def)
next
  case i: (Some i)
  let ?p = "resolve_path (wi_file_path i) (fx_cwd cx)"
  obtain r d' where wf: "write_file now ?p (wi_content i) (fw_local w) = (r, d')" by (meson surj_pair)
  have t: "touch ?p (fw_local w) d'"
  proof -
    obtain d1 where d1: "d1 = fw_local w \<or> (\<exists>q. fs_create_dir_all q (fw_local w) = Inr d1)"
      and d2: "d' = fw_local w \<or> d' = d1 \<or> (\<exists>c. fs_write now ?p c d1 = Inr d')"
      using wf by (auto simp: write_file_def fs_write_str_def Let_def split: option.splits sum.splits if_splits)
    have "touch ?p (fw_local w) d1" using d1 touch_mkdirs(1) by auto
    then show ?thesis using d2 touch_write touch_same_trans by auto
  qed
  have td: "tool_disk w = fw_local w" using assms(1) by (simp add: tool_disk_def)
  show ?thesis
  proof (rule disjI2, rule exI [of _ ?p], intro conjI)
    show "fw_session (snd (write_call lib now v cx w)) = snapshot_file (fw_local w) ?p ''Write'' (fw_session w)"
      using i assms
      by (auto simp: write_call_def run_with_cancel_def snapshot_before_def Let_def split: sum.splits prod.splits)
    show "fw_remote (snd (write_call lib now v cx w)) = None" using call_frames(3) [OF assms(1)] .
    show "touch ?p (fw_local w) (fw_local (snd (write_call lib now v cx w)))"
      using i assms t wf td
      by (cases r) (auto simp: write_call_def run_with_cancel_def Let_def split: prod.splits)
  qed
qed

section \<open>Putting snapshots back\<close>

text \<open>A snapshot that can be put back: its path is no directory, and what held a file still has its directory.\<close>

definition restorable :: "disk \<Rightarrow> file_snapshot \<Rightarrow> bool" where
  "restorable d sn \<longleftrightarrow> node_at d (sn_path sn) \<noteq> Some Dir
     \<and> (sn_before sn \<noteq> None \<longrightarrow> parent_fault (dk_real d (sn_path sn)) d = None)"

lemma put_back_ok:
  assumes "\<And>op q. dk_refuses d op q = None" and "restorable d sn"
  obtains d' where "put_back now sn d = Inr d'" "same_ground d d'" "dirs_stay d d'"
    "\<And>r. file_at d' r = (if r = dk_real d (sn_path sn) then sn_before sn else file_at d r)"
    "\<And>q. dk_node d' q = Some Dir \<Longrightarrow> dk_node d q = Some Dir"
proof (cases "sn_before sn")
  case (Some c)
  let ?d = "put_node (dk_real d (sn_path sn)) (Some (File c now)) d"
  have "put_back now sn d = Inr ?d"
    using assms Some by (simp add: put_back_def std_write_def restorable_def)
  moreover have "dirs_stay d ?d"
    using assms(2) by (auto simp: dirs_stay_def restorable_def node_at_def)
  ultimately show thesis using Some by (intro that [of ?d]) (auto split: if_splits)
next
  case None
  let ?d = "put_node (dk_real d (sn_path sn)) None d"
  consider "node_at d (sn_path sn) = None" | c t where "node_at d (sn_path sn) = Some (File c t)"
    using assms(2) unfolding restorable_def by (metis node.exhaust option.exhaust)
  then show thesis
  proof cases
    case 1
    then have "put_back now sn d = Inr d"
      using assms(1) None by (simp add: put_back_def std_remove_file_def)
    then show thesis using None 1 by (intro that [of d]) (auto simp: dirs_stay_def file_at_def node_at_def)
  next
    case 2
    then have "put_back now sn d = Inr ?d"
      using assms(1) None by (simp add: put_back_def std_remove_file_def)
    moreover have "dirs_stay d ?d" using 2 by (auto simp: dirs_stay_def node_at_def)
    ultimately show thesis using None by (intro that [of ?d]) (auto split: if_splits)
  qed
qed

definition oldest_for :: "disk \<Rightarrow> path \<Rightarrow> file_snapshot list \<Rightarrow> file_snapshot option" where
  "oldest_for d r sns = List.find (\<lambda>sn. dk_real d (sn_path sn) = r) sns"

lemma find_app: "List.find P (xs @ ys) = (case List.find P xs of Some x \<Rightarrow> Some x | None \<Rightarrow> List.find P ys)"
  by (induction xs) auto

lemma restore_loop_ok:
  assumes "\<And>op q. dk_refuses d op q = None" and "\<forall>sn \<in> set sns. restorable d sn"
  shows "\<exists>ps d'. restore_loop now sns acc d = (Inr ps, d') \<and> same_ground d d'
    \<and> set ps = set acc \<union> sn_path ` set sns
    \<and> (\<forall>r. file_at d' r = (case oldest_for d r (rev sns) of Some sn \<Rightarrow> sn_before sn | None \<Rightarrow> file_at d r))"
  using assms
proof (induction sns arbitrary: acc d)
  case Nil
  show ?case by (simp add: oldest_for_def)
next
  case (Cons sn sns)
  obtain d1 where d1: "put_back now sn d = Inr d1" "same_ground d d1" "dirs_stay d d1"
    "\<And>r. file_at d1 r = (if r = dk_real d (sn_path sn) then sn_before sn else file_at d r)"
    "\<And>q. dk_node d1 q = Some Dir \<Longrightarrow> dk_node d q = Some Dir"
    using put_back_ok [of d sn now] Cons.prems by auto
  have fr: "dk_real d1 = dk_real d" "dk_refuses d1 = dk_refuses d" using d1(2) by (simp_all add: same_ground_def)
  have "\<forall>s \<in> set sns. restorable d1 s"
    using Cons.prems(2) d1(5) fr parent_fault_stays [OF d1(3)] by (auto simp: restorable_def node_at_def)
  with Cons.IH [of d1 "if sn_path sn \<in> set acc then acc else acc @ [sn_path sn]"] Cons.prems(1) fr
  obtain ps d' where d': "restore_loop now sns (if sn_path sn \<in> set acc then acc else acc @ [sn_path sn]) d1 = (Inr ps, d')"
    "same_ground d1 d'" "set ps = set (if sn_path sn \<in> set acc then acc else acc @ [sn_path sn]) \<union> sn_path ` set sns"
    "\<And>r. file_at d' r = (case oldest_for d1 r (rev sns) of Some s \<Rightarrow> sn_before s | None \<Rightarrow> file_at d1 r)"
    by auto
  have old: "oldest_for d1 r xs = oldest_for d r xs" for r xs by (simp add: oldest_for_def fr)
  have "file_at d' r = (case oldest_for d r (rev (sn # sns)) of Some s \<Rightarrow> sn_before s | None \<Rightarrow> file_at d r)" for r
    using d'(4) [of r] d1(4) [of r] unfolding old by (auto simp: oldest_for_def find_app split: option.splits)
  moreover have "set ps = set acc \<union> sn_path ` set (sn # sns)" using d'(3) by auto
  moreover have "restore_loop now (sn # sns) acc d = (Inr ps, d')" using d1(1) d'(1) by simp
  ultimately show ?case using same_ground_trans [OF d1(2) d'(2)] by blast
qed

section \<open>Runs of a session that takes snapshots\<close>

definition snapshots_since :: "nat \<Rightarrow> session_state \<Rightarrow> file_snapshot list" where
  "snapshots_since target s = entries_after target (ss_snapshots s)"

text \<open>Every file that differs from the end of the target turn has a snapshot since, and its oldest holds what the
  file was then.\<close>

definition covered :: "nat \<Rightarrow> disk \<Rightarrow> session_state \<Rightarrow> disk \<Rightarrow> bool" where
  "covered target d0 s d \<longleftrightarrow>
     same_ground d0 d \<and> rooted d
     \<and> (\<forall>t q. target < t \<longrightarrow> (t, q) \<in> sr_seen (ss_snapshots s) \<longrightarrow>
          (\<exists>sn \<in> set (snapshots_since target s). sn_path sn = q))
     \<and> (\<forall>sn \<in> set (snapshots_since target s). sn_before sn \<noteq> None \<longrightarrow> parent_fault (dk_real d (sn_path sn)) d = None)
     \<and> (\<forall>r. case oldest_for d r (snapshots_since target s) of
              Some sn \<Rightarrow> sn_before sn = file_at d0 r
            | None \<Rightarrow> file_at d r = file_at d0 r)"

lemma covered_file:
  assumes "covered target d0 s d"
  shows "case oldest_for d r (snapshots_since target s) of
      Some sn \<Rightarrow> sn_before sn = file_at d0 r | None \<Rightarrow> file_at d r = file_at d0 r"
  using assms unfolding covered_def by blast

lemma covered_start:
  assumes "rooted d" and "\<forall>sn \<in> set (sr_entries (ss_snapshots s)). sn_turn sn \<le> target"
    and "\<forall>(t, q) \<in> sr_seen (ss_snapshots s). t \<le> target"
  shows "covered target d s d"
proof -
  have "snapshots_since target s = []"
    using assms(2) by (force simp: snapshots_since_def entries_after_def filter_empty_conv)
  then show ?thesis using assms(1,3) by (force simp: covered_def oldest_for_def)
qed

lemma covered_cong:
  "covered target d0 s d \<Longrightarrow> ss_snapshots s' = ss_snapshots s \<Longrightarrow> covered target d0 s' d"
  by (simp add: covered_def snapshots_since_def)

lemma covered_touch:
  assumes cov: "covered target d0 s d" and t: "touch p d d'"
    and same: "oldest_for d (dk_real d p) (snapshots_since target s) = None \<Longrightarrow>
      file_at d' (dk_real d p) = file_at d (dk_real d p)"
  shows "covered target d0 s d'"
proof -
  let ?new = "snapshots_since target s"
  have fr: "dk_real d' = dk_real d" "same_ground d0 d'" "dirs_stay d d'" "rooted d'"
    using t cov same_ground_trans [of d0 d d'] by (auto simp: touch_def covered_def same_ground_def)
  have f: "file_at d' r = file_at d r" if "oldest_for d r ?new = None" for r
    using that same t by (cases "r = dk_real d p") (auto simp: touch_def)
  have old: "oldest_for d' r ?new = oldest_for d r ?new" for r by (simp add: oldest_for_def fr(1))
  have "\<forall>r. case oldest_for d' r ?new of Some sn \<Rightarrow> sn_before sn = file_at d0 r | None \<Rightarrow> file_at d' r = file_at d0 r"
  proof
    fix r
    show "case oldest_for d' r ?new of Some sn \<Rightarrow> sn_before sn = file_at d0 r | None \<Rightarrow> file_at d' r = file_at d0 r"
      using covered_file [OF cov, of r] f [of r] unfolding old by (cases "oldest_for d r ?new") simp_all
  qed
  then show ?thesis using cov fr parent_fault_stays [OF fr(3)] unfolding covered_def by simp
qed

lemma std_read_no_refusal:
  assumes "\<And>op q. dk_refuses d op q = None"
  shows "std_read p d = (case node_at d p of None \<Rightarrow> Inl NotFound | Some Dir \<Rightarrow> Inl OtherKind | Some (File c _) \<Rightarrow> Inr c)"
  using assms by (simp add: std_read_def split: option.splits node.splits)

lemma covered_snapshot:
  assumes cov: "covered target d0 s d" and turn: "target < ss_turn s"
    and ok: "\<And>op q. dk_refuses d op q = None" and nodir: "node_at d p \<noteq> Some Dir"
  shows "covered target d0 (snapshot_file d p tool s) d
    \<and> oldest_for d (dk_real d p) (snapshots_since target (snapshot_file d p tool s)) \<noteq> None"
proof -
  let ?reg = "registry_record (ss_turn s) p (file_at d (dk_real d p)) tool (ss_snapshots s)"
  have s': "snapshot_file d p tool s = s\<lparr>ss_snapshots := ?reg\<rparr>"
    using nodir by (auto simp: snapshot_file_def std_read_no_refusal [OF ok] file_at_def node_at_def
        split: option.splits node.splits)
  have find: "oldest_for d r sns = None \<longleftrightarrow> (\<forall>sn \<in> set sns. dk_real d (sn_path sn) \<noteq> r)" for r sns
    by (auto simp: oldest_for_def find_None_iff)
  show ?thesis
  proof (cases "(ss_turn s, p) \<in> sr_seen (ss_snapshots s)")
    case True
    then have reg: "?reg = ss_snapshots s" by (simp add: registry_record_def)
    obtain sn where "sn \<in> set (snapshots_since target s)" "sn_path sn = p"
      using cov True turn unfolding covered_def by blast
    then have "oldest_for d (dk_real d p) (snapshots_since target s) \<noteq> None" using find by blast
    then show ?thesis using cov by (simp add: s' reg covered_def snapshots_since_def)
  next
    case False
    let ?sn = "\<lparr>sn_id = sr_next_id (ss_snapshots s) + 1, sn_turn = ss_turn s, sn_path = p,
       sn_before = file_at d (dk_real d p), sn_tool = tool\<rparr>"
    have new: "snapshots_since target (s\<lparr>ss_snapshots := ?reg\<rparr>) = snapshots_since target s @ [?sn]"
      and seen: "sr_seen ?reg = insert (ss_turn s, p) (sr_seen (ss_snapshots s))"
      using False turn by (simp_all add: snapshots_since_def entries_after_def registry_record_def)
    have "\<forall>r. case oldest_for d r (snapshots_since target s @ [?sn]) of
        Some sn \<Rightarrow> sn_before sn = file_at d0 r | None \<Rightarrow> file_at d r = file_at d0 r"
    proof
      fix r
      show "case oldest_for d r (snapshots_since target s @ [?sn]) of
          Some sn \<Rightarrow> sn_before sn = file_at d0 r | None \<Rightarrow> file_at d r = file_at d0 r"
        using covered_file [OF cov, of r]
        by (cases "oldest_for d r (snapshots_since target s)") (auto simp: oldest_for_def find_app)
    qed
    moreover have "sn_before ?sn \<noteq> None \<longrightarrow> parent_fault (dk_real d (sn_path ?sn)) d = None"
      using cov by (auto simp: covered_def rooted_def)
    moreover have "\<forall>t q. target < t \<longrightarrow> (t, q) \<in> sr_seen ?reg \<longrightarrow>
        (\<exists>sn \<in> set (snapshots_since target s @ [?sn]). sn_path sn = q)"
      using cov unfolding seen covered_def by auto
    ultimately have "covered target d0 (s\<lparr>ss_snapshots := ?reg\<rparr>) d"
      using cov unfolding covered_def new by auto
    moreover have "oldest_for d (dk_real d p) (snapshots_since target s @ [?sn]) \<noteq> None"
      by (simp add: find)
    ultimately show ?thesis by (simp only: s' new simp_thms)
  qed
qed

lemma covered_call:
  assumes cov: "covered target d0 (fw_session w) (fw_local w)" and turn: "target < ss_turn (fw_session w)"
    and ok: "\<And>op q. dk_refuses (fw_local w) op q = None"
    and s': "fw_session w' = snapshot_file (fw_local w) p tool (fw_session w)"
    and t: "touch p (fw_local w) (fw_local w')"
  shows "covered target d0 (fw_session w') (fw_local w') \<and> ss_turn (fw_session w') = ss_turn (fw_session w)"
proof
  show "ss_turn (fw_session w') = ss_turn (fw_session w)"
    by (auto simp: s' snapshot_file_def split: sum.splits io_kind.splits)
  show "covered target d0 (fw_session w') (fw_local w')"
  proof (cases "node_at (fw_local w) p = Some Dir")
    case True
    then have "fw_session w' = fw_session w" using s' by (simp add: snapshot_file_def std_read_no_refusal [OF ok])
    moreover have "file_at (fw_local w') (dk_real (fw_local w) p) = file_at (fw_local w) (dk_real (fw_local w) p)"
      using t True by (auto simp: touch_def dirs_stay_def file_at_def node_at_def)
    ultimately show ?thesis using covered_touch [OF cov t] by simp
  next
    case False
    note c = covered_snapshot [OF cov turn ok False, of tool]
    show ?thesis unfolding s' by (rule covered_touch [OF conjunct1 [OF c] t]) (use c in simp)
  qed
qed

definition own_action :: "nat \<times> file_ctx \<times> file_action \<Rightarrow> bool" where
  "own_action e = (case e of (_, cx, a) \<Rightarrow> fx_snapshots cx \<and> (case a of ActOther _ _ \<Rightarrow> False | _ \<Rightarrow> True))"

lemma covered_step:
  assumes "fw_remote w = None" and "own_action e"
    and cov: "covered target d0 (fw_session w) (fw_local w)" and turn: "target < ss_turn (fw_session w)"
    and ok: "\<And>op q. dk_refuses d0 op q = None"
  shows "fw_remote (file_step lib e w) = None
    \<and> covered target d0 (fw_session (file_step lib e w)) (fw_local (file_step lib e w))
    \<and> target < ss_turn (fw_session (file_step lib e w))"
proof -
  obtain now cx a where e: "e = (now, cx, a)" by (cases e) auto
  have snap: "fx_snapshots cx" using assms(2) e by (simp add: own_action_def)
  have ok': "\<And>op q. dk_refuses (fw_local w) op q = None"
    using ok cov by (simp add: covered_def same_ground_def)
  show ?thesis
  proof (cases a)
    case ActTurn
    then show ?thesis using assms e by (auto simp: bump_turn_def intro: covered_cong)
  next
    case (ActRead v)
    have "snd (file_read_call lib v cx w) = w \<or> (\<exists>p offset limit. snd (file_read_call lib v cx w) = w\<lparr>fw_session :=
        record_read_with_range (fw_local w) p offset limit (fw_session w)\<rparr>)"
      using file_read_call_cases [OF assms(1), of lib v cx] by auto
    moreover have "ss_snapshots (record_read_with_range d p offset limit s) = ss_snapshots s"
      "ss_turn (record_read_with_range d p offset limit s) = ss_turn s" for d p offset limit s
      by (simp_all add: record_read_with_range_def split: option.splits)
    ultimately show ?thesis using assms(1) turn ActRead e covered_cong [OF cov] by auto
  next
    case (ActEdit v)
    then show ?thesis
      using edit_call_touch [OF assms(1) snap, of lib now v] covered_call [OF cov turn ok'] assms(1) cov turn e
      by auto
  next
    case (ActWrite v)
    then show ?thesis
      using write_call_touch [OF assms(1) snap, of lib now v] covered_call [OF cov turn ok'] assms(1) cov turn e
      by auto
  next
    case (ActOther p c)
    then show ?thesis using assms(2) e by (simp add: own_action_def)
  qed
qed

lemma covered_run:
  assumes "fw_remote w = None" and "list_all own_action evs"
    and "covered target d0 (fw_session w) (fw_local w)" and "target < ss_turn (fw_session w)"
    and "\<And>op q. dk_refuses d0 op q = None"
  shows "fw_remote (file_run lib evs w) = None
    \<and> covered target d0 (fw_session (file_run lib evs w)) (fw_local (file_run lib evs w))
    \<and> target < ss_turn (fw_session (file_run lib evs w))"
  using assms(2)
proof (induction evs rule: rev_induct)
  case Nil
  then show ?case using assms(1,3,4) by simp
next
  case (snoc e evs)
  then show ?case using covered_step [of "file_run lib evs w" e target d0 lib] assms(5) by simp
qed


definition sample_write :: "string \<Rightarrow> string \<Rightarrow> json" where
  "sample_write p body = JObject [(''file_path'', JString p), (''content'', JString body)]"

definition sample_events :: "(nat \<times> file_ctx \<times> file_action) list" where
  "sample_events =
     [(6, sample_cx True, ActRead (sample_read ''a'')), (7, sample_cx True, ActEdit (sample_edit ''a'' ''two'' ''2'')),
      (8, sample_cx True, ActWrite (sample_write ''b'' ''new''))]"


end
