(* ===== verification/ToolSearch.thy ===== *)
theory ToolSearch
  imports FileRead TeamRegistry
begin

text \<open>
  The list of tools a session has and how a model finds what is not in it: \<open>InMemoryToolRegistry\<close> of
  \<open>core/src/interface/tool.rs\<close>, \<open>tools/src/deferred.rs\<close> and \<open>tools/src/tool_search.rs\<close>.  Names, descriptions and
  queries are texts; the JSON printer is a parameter.
\<close>

section \<open>Tools and their registry\<close>

record listed_tool = tool +
  lt_description :: string
  lt_short_description :: "string option"
  lt_prompt_fragment :: string
  lt_deferred :: bool
  lt_input_schema :: json
  lt_full_input_schema :: json

definition detailed_prompt :: "listed_tool \<Rightarrow> string option" where
  "detailed_prompt t =
     (let trimmed = trim (t_prompt t) in
      if trimmed = [] \<or> trimmed = trim (lt_description t) \<or> trimmed = trim (lt_prompt_fragment t) then None
      else Some (t_prompt t))"

text \<open>Registrations carry a number that is never given twice; a disposer knows the number of its own.\<close>

record tool_registry =
  rg_next :: nat
  rg_entries :: "(nat \<times> listed_tool) list"

definition registry_new :: tool_registry where
  "registry_new = \<lparr>rg_next = 0, rg_entries = []\<rparr>"

definition registry_register :: "listed_tool \<Rightarrow> tool_registry \<Rightarrow> nat \<times> tool_registry" where
  "registry_register t r = (rg_next r, \<lparr>rg_next = rg_next r + 1, rg_entries = rg_entries r @ [(rg_next r, t)]\<rparr>)"

fun swap_entry :: "nat \<times> listed_tool \<Rightarrow> (nat \<times> listed_tool) list \<Rightarrow> (nat \<times> listed_tool) list" where
  "swap_entry e [] = [e]"
| "swap_entry e (x # xs) = (if t_name (snd x) = t_name (snd e) then e # xs else x # swap_entry e xs)"

definition registry_replace :: "listed_tool \<Rightarrow> tool_registry \<Rightarrow> nat \<times> tool_registry" where
  "registry_replace t r =
     (rg_next r, \<lparr>rg_next = rg_next r + 1, rg_entries = swap_entry (rg_next r, t) (rg_entries r)\<rparr>)"

definition registry_dispose :: "nat \<Rightarrow> tool_registry \<Rightarrow> tool_registry" where
  "registry_dispose i r = r\<lparr>rg_entries := filter (\<lambda>e. fst e \<noteq> i) (rg_entries r)\<rparr>"

definition tool_remove :: "string \<Rightarrow> tool_registry \<Rightarrow> nat \<times> tool_registry" where
  "tool_remove name r =
     (let kept = filter (\<lambda>e. t_name (snd e) \<noteq> name) (rg_entries r)
      in (length (rg_entries r) - length kept, r\<lparr>rg_entries := kept\<rparr>))"

definition registry_get :: "string \<Rightarrow> tool_registry \<Rightarrow> listed_tool option" where
  "registry_get name r = map_option snd (List.find (\<lambda>e. t_name (snd e) = name) (rg_entries r))"

definition tool_list :: "tool_registry \<Rightarrow> listed_tool list" where
  "tool_list r = map snd (rg_entries r)"

definition registry_names :: "tool_registry \<Rightarrow> string list" where
  "registry_names r = map (\<lambda>e. t_name (snd e)) (rg_entries r)"

section \<open>Deferred tools\<close>

definition deferred_stub :: "string \<Rightarrow> json" where
  "deferred_stub name =
     JObject [(''type'', JString ''object''), (''properties'', JObject []), (''additionalProperties'', JBool True),
       (''description'', JString (''Schema deferred. Call ToolSearch with query '' @ [dquote] @ ''select:'' @ name
          @ [dquote] @ '' to load this tool'' @ [squote] @ ''s full input schema before invoking it.''))]"

text \<open>The wrapper passes every method on but those it defines: the schema, the flag and the short description; and
  \<open>self_allow_overrides_mode\<close>, which it leaves to the trait's default.\<close>

definition deferred_tool :: "listed_tool \<Rightarrow> listed_tool" where
  "deferred_tool t =
     t\<lparr>lt_input_schema := deferred_stub (t_name t), lt_deferred := True,
       lt_short_description :=
         (case (case lt_short_description t of Some s \<Rightarrow> s | None \<Rightarrow> lt_description t) of [] \<Rightarrow> None | s \<Rightarrow> Some s),
       t_self_allow_overrides_mode := False\<rparr>"

definition apply_deferred_policy :: "listed_tool list \<Rightarrow> string list \<Rightarrow> listed_tool list" where
  "apply_deferred_policy tools deferred =
     (if deferred = [] then tools
      else map (\<lambda>t. if t_name t \<in> set deferred then deferred_tool t else t) tools)"

section \<open>Queries\<close>

definition DEFAULT_MAX_RESULTS :: nat where
  "DEFAULT_MAX_RESULTS = 5"

definition MAX_GUIDE_BYTES :: int where
  "MAX_GUIDE_BYTES = 24000"

definition MAX_SUGGESTIONS :: nat where
  "MAX_SUGGESTIONS = 3"

record tool_match =
  mt_name :: string
  mt_description :: string
  mt_guide :: "string option"
  mt_deferred_schema :: "json option"

record tool_search_input =
  ts_query :: string
  ts_max_results :: "nat option"

definition tool_search_input_of :: "json \<Rightarrow> tool_search_input option" where
  "tool_search_input_of v =
     Option.bind (fields_of 2 v) (\<lambda>fs.
     Option.bind (required 0 [''query''] as_str fs) (\<lambda>q.
     Option.bind (defaulted 1 [''max_results''] None (de_option de_u64) fs) (\<lambda>m.
     Some \<lparr>ts_query = q, ts_max_results = m\<rparr>)))"

datatype search_query = QSelect "string list" | QKeywords "string list" "string list"

definition ascii_lower :: "string \<Rightarrow> string" where
  "ascii_lower s = map (\<lambda>c. if is_ascii_upper c then char_of (char_code c + 32) else c) s"

definition add_name :: "string list \<Rightarrow> string \<Rightarrow> string list" where
  "add_name names n = (if n \<in> set names then names else names @ [n])"

text \<open>The first seven bytes are cut off only where a character ends there, which is the case when they spell
  the word.\<close>

definition parse_query :: "string \<Rightarrow> search_query" where
  "parse_query q =
     (if ascii_lower (take 7 q) = ''select:'' then
        QSelect (foldl add_name []
          (List.map_filter (\<lambda>seg. case split_whitespace seg of n # _ \<Rightarrow> Some n | [] \<Rightarrow> None)
             (split_char (CHR '','') (drop 7 q))))
      else (let terms = map to_lowercase (split_whitespace q)
            in QKeywords
                 (List.map_filter (\<lambda>t. case strip_prefix ''+'' t of Some (c # r) \<Rightarrow> Some (c # r) | _ \<Rightarrow> None) terms)
                 (filter (\<lambda>t. \<not> prefix ''+'' t) terms)))"

definition term_score :: "string \<Rightarrow> string \<Rightarrow> string \<Rightarrow> nat" where
  "term_score name description t =
     (if name = t then 100 else if contains_str name t then 50 else 0)
     + (if contains_str description t then 10 else 0)"

definition keyword_score :: "string \<Rightarrow> string \<Rightarrow> string list \<Rightarrow> string list \<Rightarrow> nat" where
  "keyword_score name description required_terms optional_terms =
     (let n = to_lowercase name; d = to_lowercase description;
          score = sum_list (map (term_score n d) (required_terms @ optional_terms))
      in if \<not> list_all (contains_str n) required_terms then 0
         else if score = 0 \<and> optional_terms = [] \<and> required_terms \<noteq> [] then 1
         else score)"

text \<open>One row of the table from the one before: \<open>left\<close> is the entry just written.\<close>

fun next_row :: "char \<Rightarrow> nat \<Rightarrow> string \<Rightarrow> nat list \<Rightarrow> nat list" where
  "next_row ca left (cb # bs) (p0 # p1 # ps) =
     left # next_row ca (min (min (p0 + (if ca \<noteq> cb then 1 else 0)) (p1 + 1)) (left + 1)) bs (p1 # ps)"
| "next_row ca left _ _ = [left]"

fun distance_rows :: "nat \<Rightarrow> string \<Rightarrow> string \<Rightarrow> nat list \<Rightarrow> nat list" where
  "distance_rows i [] b prev = prev"
| "distance_rows i (ca # a) b prev = distance_rows (Suc i) a b (next_row ca (i + 1) b prev)"

definition edit_distance :: "string \<Rightarrow> string \<Rightarrow> nat" where
  "edit_distance a b = distance_rows 0 a b [0..<Suc (length b)] ! length b"

definition name_distance :: "string \<Rightarrow> string \<Rightarrow> nat" where
  "name_distance wanted lower =
     (if contains_str lower wanted \<or> contains_str wanted lower then 0 else edit_distance wanted lower)"

definition distance_le :: "nat \<times> string \<Rightarrow> nat \<times> string \<Rightarrow> bool" where
  "distance_le x y \<longleftrightarrow> fst x < fst y \<or> fst x = fst y \<and> str_le (snd x) (snd y)"

definition closest_names :: "string \<Rightarrow> string list \<Rightarrow> string list" where
  "closest_names wanted names =
     (let w = to_lowercase wanted;
          threshold = max (length w div 3) 2;
          scored = List.map_filter
            (\<lambda>n. let d = name_distance w (to_lowercase n) in if d \<le> threshold then Some (d, n) else None) names
      in map snd (take MAX_SUGGESTIONS (sort_by distance_le scored)))"

section \<open>The search\<close>

definition describe_tool :: "listed_tool \<Rightarrow> string" where
  "describe_tool t = (case lt_short_description t of Some s \<Rightarrow> s | None \<Rightarrow> lt_description t)"

definition to_match :: "listed_tool \<Rightarrow> tool_match" where
  "to_match t =
     \<lparr>mt_name = t_name t, mt_description = describe_tool t, mt_guide = detailed_prompt t,
       mt_deferred_schema = (if lt_deferred t then Some (lt_full_input_schema t) else None)\<rparr>"

definition fetchable :: "listed_tool \<Rightarrow> bool" where
  "fetchable t \<longleftrightarrow> lt_deferred t \<or> detailed_prompt t \<noteq> None"

record search_hits =
  sh_matches :: "tool_match list"
  sh_already_loaded :: "string list"
  sh_unmatched :: "(string \<times> string list) list"
  sh_total_deferred :: nat
  sh_total_documented :: nat

definition find_named :: "listed_tool list \<Rightarrow> string \<Rightarrow> listed_tool option" where
  "find_named tools wanted =
     (case List.find (\<lambda>t. t_name t = wanted) tools of
        Some t \<Rightarrow> Some t
      | None \<Rightarrow> List.find (\<lambda>t. ascii_lower (t_name t) = ascii_lower wanted) tools)"

definition select_step :: "listed_tool list \<Rightarrow> search_hits \<Rightarrow> string \<Rightarrow> search_hits" where
  "select_step tools h wanted =
     (case find_named tools wanted of
        None \<Rightarrow> h\<lparr>sh_unmatched := sh_unmatched h @ [(wanted, closest_names wanted (map t_name tools))]\<rparr>
      | Some t \<Rightarrow>
          (if \<not> fetchable t then h\<lparr>sh_already_loaded := sh_already_loaded h @ [t_name t]\<rparr>
           else if list_ex (\<lambda>m. mt_name m = t_name t) (sh_matches h) then h
           else h\<lparr>sh_matches := sh_matches h @ [to_match t]\<rparr>))"

definition search_tools :: "listed_tool list \<Rightarrow> search_query \<Rightarrow> search_hits" where
  "search_tools tools q =
     (let none = \<lparr>sh_matches = [], sh_already_loaded = [], sh_unmatched = [], sh_total_deferred = 0,
                  sh_total_documented = 0\<rparr>
      in case q of
           QSelect names \<Rightarrow> foldl (select_step tools) none names
         | QKeywords req opt \<Rightarrow>
             (let score = (\<lambda>t. keyword_score (t_name t) (describe_tool t) req opt);
                  scored = filter (\<lambda>(s, _). 0 < s) (map (\<lambda>t. (score t, to_match t)) (filter fetchable tools))
              in none\<lparr>sh_matches := map snd (sort_by (\<lambda>x y. fst y \<le> fst x) scored),
                      sh_total_deferred := length (filter lt_deferred tools),
                      sh_total_documented := length (filter (\<lambda>t. detailed_prompt t \<noteq> None) tools)\<rparr>))"

text \<open>Guides are added while they fit what is left of the budget.\<close>

fun render_guides :: "tool_match list \<Rightarrow> int \<Rightarrow> string \<times> string list" where
  "render_guides [] budget = ([], [])"
| "render_guides (m # ms) budget =
     (case mt_guide m of
        None \<Rightarrow> render_guides ms budget
      | Some g \<Rightarrow>
          (let guide = trim g in
           if budget < int (utf8_len guide) then
             (let (s, over) = render_guides ms budget in (s, mt_name m # over))
           else (let (s, over) = render_guides ms (budget - int (utf8_len guide)) in
                 ([CHR 0x0A] @ ''## '' @ mt_name m @ '' '' @ em_dash @ '' usage guide'' @ [CHR 0x0A, CHR 0x0A]
                    @ guide @ [CHR 0x0A] @ s, over))))"

definition function_line :: "(json \<Rightarrow> string) \<Rightarrow> tool_match \<Rightarrow> string option" where
  "function_line print m =
     map_option (\<lambda>schema. ''<function>''
         @ print (JObject [(''description'', JString (mt_description m)), (''name'', JString (mt_name m)),
             (''parameters'', schema)]) @ ''</function>'' @ [CHR 0x0A]) (mt_deferred_schema m)"

definition unmatched_line :: "string \<times> string list \<Rightarrow> string" where
  "unmatched_line u =
     (case u of (name, suggestions) \<Rightarrow>
        ''No tool named '' @ [squote] @ name @ [squote] @ ''.''
        @ (if suggestions = [] then [] else '' Did you mean: '' @ join_with '', '' suggestions @ ''?'') @ [CHR 0x0A])"

definition match_line :: "tool_match \<Rightarrow> string" where
  "match_line m =
     ''  '' @ [CHR 0xC2, CHR 0xB7] @ '' '' @ mt_name m
     @ (if mt_description m = [] then [] else '' '' @ em_dash @ '' '' @ mt_description m) @ [CHR 0x0A]"

definition render_hits :: "(json \<Rightarrow> string) \<Rightarrow> string \<Rightarrow> search_hits \<Rightarrow> string" where
  "render_hits print query h =
     (let ms = sh_matches h;
          functions = List.map_filter (function_line print) ms;
          s = (if functions = [] then []
               else ''<functions>'' @ [CHR 0x0A] @ concat functions @ ''</functions>'' @ [CHR 0x0A, CHR 0x0A]
                 @ ''The tools above are now callable with exactly these parameters; call them directly, there is no need to search for them again.''
                 @ [CHR 0x0A, CHR 0x0A])
            @ (if sh_already_loaded h = [] then []
               else ''Already in your tool list with their full schema (call directly): ''
                 @ join_with '', '' (sh_already_loaded h) @ [CHR 0x0A])
            @ concat (map unmatched_line (sh_unmatched h))
      in if ms = [] then
           s @ (if sh_already_loaded h = [] \<and> sh_unmatched h = [] then
                  ''No matches for query '' @ [squote] @ query @ [squote] @ ''. '' @ show_nat (sh_total_deferred h)
                  @ '' tool(s) have a deferred schema, '' @ show_nat (sh_total_documented h)
                  @ '' have a detailed usage guide.''
                else [])
         else (let (guides, over) = render_guides ms MAX_GUIDE_BYTES
               in s @ ''Found '' @ show_nat (length ms) @ '' tool(s):'' @ [CHR 0x0A] @ concat (map match_line ms) @ guides
                  @ (if over = [] then []
                     else [CHR 0x0A] @ ''(Usage guides for '' @ join_with '', '' over
                       @ '' were omitted to stay within this result'' @ [squote]
                       @ ''s size budget '' @ em_dash @ '' request them one at a time with ToolSearch{'' @ [dquote] @ ''query''
                       @ [dquote] @ '': '' @ [dquote] @ ''select:<name>'' @ [dquote] @ ''}.)'' @ [CHR 0x0A])))"

definition tool_search_call ::
  "(json \<Rightarrow> string) \<Rightarrow> tool_search_input \<Rightarrow> listed_tool list \<Rightarrow> session_state \<Rightarrow> tool_result \<times> session_state" where
  "tool_search_call print i tools s =
     (let q = trim (ts_query i);
          found = search_tools tools (parse_query q);
          h = found\<lparr>sh_matches := take (case ts_max_results i of Some n \<Rightarrow> n | None \<Rightarrow> DEFAULT_MAX_RESULTS) (sh_matches found)\<rparr>;
          activated = map mt_name (filter (\<lambda>m. mt_deferred_schema m \<noteq> None) (sh_matches h))
      in (\<lparr>tr_content = ContentText (render_hits print q h),
            tr_is_error = (sh_matches h = [] \<and> sh_already_loaded h = []), tr_new_messages = Some []\<rparr>,
          activate_tools activated s))"

lemmas tool_search_defs [kernel_defs] =
  detailed_prompt_def registry_new_def registry_register_def registry_replace_def registry_dispose_def
  tool_remove_def registry_get_def tool_list_def registry_names_def deferred_stub_def deferred_tool_def
  apply_deferred_policy_def tool_search_input_of_def ascii_lower_def add_name_def parse_query_def term_score_def
  keyword_score_def edit_distance_def name_distance_def distance_le_def closest_names_def describe_tool_def
  to_match_def fetchable_def find_named_def select_step_def search_tools_def function_line_def unmatched_line_def
  match_line_def render_hits_def tool_search_call_def

section \<open>The distance is the edit distance\<close>

text \<open>An alignment of two texts and its cost: characters side by side, left out, or put in.\<close>

inductive aligned :: "nat \<Rightarrow> string \<Rightarrow> string \<Rightarrow> bool" where
  "aligned 0 [] []"
| "aligned n a b \<Longrightarrow> aligned (n + (if x \<noteq> y then 1 else 0)) (x # a) (y # b)"
| "aligned n a b \<Longrightarrow> aligned (Suc n) (x # a) b"
| "aligned n a b \<Longrightarrow> aligned (Suc n) a (y # b)"

fun lev :: "string \<Rightarrow> string \<Rightarrow> nat" where
  "lev [] b = length b"
| "lev a [] = length a"
| "lev (x # a) (y # b) = min (min (lev a b + (if x \<noteq> y then 1 else 0)) (lev a (y # b) + 1)) (lev (x # a) b + 1)"

lemma lev_Nil [simp]: "lev a [] = length a"
  by (cases a) auto

lemma aligned_lev: "aligned (lev a b) a b"
proof (induction a b rule: lev.induct)
  case (1 b)
  then show ?case by (induction b) (auto intro: aligned.intros)
next
  case (2 x a)
  have "aligned (length a) a []" for a by (induction a) (auto intro: aligned.intros)
  then show ?case by (simp only: lev.simps)
next
  case (3 x a y b)
  then show ?case by (auto simp: min_def intro: aligned.intros dest: aligned.intros(2) [of _ _ _ x y] aligned.intros(3) [of _ _ _ x] aligned.intros(4) [of _ _ _ y])
qed

lemma lev_least: "aligned n a b \<Longrightarrow> lev a b \<le> n"
proof (induction rule: aligned.induct)
  case (3 n a b x)
  then show ?case by (cases b) auto
next
  case (4 n a b y)
  then show ?case by (cases a) auto
qed auto

lemma aligned_append: "aligned n a b \<Longrightarrow> aligned m c d \<Longrightarrow> aligned (n + m) (a @ c) (b @ d)"
proof (induction rule: aligned.induct)
  case (2 n a b x y)
  then have "aligned (n + m) (a @ c) (b @ d)" by simp
  from aligned.intros(2) [OF this, of x y] show ?case by (simp add: ac_simps)
qed (auto intro: aligned.intros)

lemma aligned_rev: "aligned n a b \<Longrightarrow> aligned n (rev a) (rev b)"
proof (induction rule: aligned.induct)
  case (2 n a b x y)
  have "aligned (if x \<noteq> y then 1 else 0) [x] [y]"
    using aligned.intros(2) [OF aligned.intros(1), of x y] by simp
  from aligned_append [OF 2(2) this] show ?case by simp
next
  case (3 n a b x)
  have "aligned 1 [x] []" using aligned.intros(3) [OF aligned.intros(1), of x] by simp
  from aligned_append [OF 3(2) this] show ?case by simp
next
  case (4 n a b y)
  have "aligned 1 [] [y]" using aligned.intros(4) [OF aligned.intros(1), of y] by simp
  from aligned_append [OF 4(2) this] show ?case by simp
qed (auto intro: aligned.intros)

lemma lev_rev: "lev (rev a) (rev b) = lev a b"
  using lev_least [OF aligned_rev [OF aligned_lev, of a b]] lev_least [OF aligned_rev [OF aligned_lev, of "rev a" "rev b"]]
  by simp

definition lev_row :: "string \<Rightarrow> string \<Rightarrow> string \<Rightarrow> nat list" where
  "lev_row ra rb bs = map (\<lambda>k. lev ra (rev (take k bs) @ rb)) [0..<Suc (length bs)]"

lemma lev_row_Nil: "lev_row ra rb [] = [lev ra rb]"
  by (simp add: lev_row_def)

lemma lev_row_Cons: "lev_row ra rb (c # bs) = lev ra rb # lev_row ra (c # rb) bs"
proof -
  have "[0..<Suc (length (c # bs))] = 0 # map Suc [0..<Suc (length bs)]"
    using upt_conv_Cons [of 0 "Suc (length (c # bs))"] map_Suc_upt [of 0 "Suc (length bs)"] by (simp del: upt_Suc)
  then show ?thesis by (simp add: lev_row_def del: upt_Suc)
qed

lemma lev_row_hd: "\<exists>ps. lev_row ra rb bs = lev ra rb # ps"
  by (cases bs) (simp_all add: lev_row_Nil lev_row_Cons)

lemma next_row_lev: "next_row ca (lev (ca # ra) rb) bs (lev_row ra rb bs) = lev_row (ca # ra) rb bs"
proof (induction bs arbitrary: rb)
  case Nil
  show ?case by (simp add: lev_row_Nil)
next
  case (Cons cb bs)
  obtain ps where ps: "lev_row ra (cb # rb) bs = lev ra (cb # rb) # ps" using lev_row_hd by blast
  show ?case using Cons.IH [of "cb # rb"] by (simp add: lev_row_Cons ps)
qed

lemma distance_rows_lev:
  "i = length ra \<Longrightarrow> distance_rows i a b (lev_row ra [] b) = lev_row (rev a @ ra) [] b"
proof (induction a arbitrary: i ra)
  case (Cons ca a)
  have "next_row ca (i + 1) b (lev_row ra [] b) = lev_row (ca # ra) [] b"
    using next_row_lev [of ca ra "[]" b] Cons.prems by simp
  then show ?case using Cons.IH [of "Suc i" "ca # ra"] Cons.prems by simp
qed simp

lemma edit_distance_lev: "edit_distance a b = lev a b"
proof -
  have "[0..<Suc (length b)] = lev_row [] [] b"
    by (rule nth_equalityI) (auto simp: lev_row_def simp del: upt_Suc)
  then have "edit_distance a b = lev_row (rev a) [] b ! length b"
    using distance_rows_lev [of 0 "[]" a b] by (simp add: edit_distance_def)
  also have "\<dots> = lev (rev a) (rev b)"
    unfolding lev_row_def by (subst nth_map) (simp_all del: upt_Suc)
  finally show ?thesis by (simp add: lev_rev)
qed

text \<open>Changing a text by one character.\<close>

inductive one_edit :: "string \<Rightarrow> string \<Rightarrow> bool" where
  "one_edit (u @ v) (u @ c # v)"
| "one_edit (u @ c # v) (u @ v)"
| "one_edit (u @ c # v) (u @ d # v)"

lemma one_edit_Cons: "one_edit a b \<Longrightarrow> one_edit (x # a) (x # b)"
proof (induction rule: one_edit.induct)
  case (1 u v c)
  show ?case using one_edit.intros(1) [of "x # u" v c] by simp
next
  case (2 u c v)
  show ?case using one_edit.intros(2) [of "x # u" c v] by simp
next
  case (3 u c v d)
  show ?case using one_edit.intros(3) [of "x # u" c v d] by simp
qed

lemma edits_Cons: "(one_edit ^^ n) a b \<Longrightarrow> (one_edit ^^ n) (x # a) (x # b)"
  by (induction n arbitrary: b) (auto intro: one_edit_Cons relcomppI)

lemma aligned_edits: "aligned n a b \<Longrightarrow> (one_edit ^^ n) a b"
proof (induction rule: aligned.induct)
  case (2 n a b x y)
  have "one_edit (x # b) (y # b)" using one_edit.intros(3) [of "[]" x b y] by simp
  then show ?case using edits_Cons [OF 2(2), of x] by (auto intro: relcomppI)
next
  case (3 n a b x)
  have "one_edit (x # b) b" using one_edit.intros(2) [of "[]" x b] by simp
  then show ?case using edits_Cons [OF 3(2), of x] by (auto intro: relcomppI)
next
  case (4 n a b y)
  have "one_edit b (y # b)" using one_edit.intros(1) [of "[]" b y] by simp
  then show ?case using 4(2) by (auto intro: relcomppI)
qed simp

lemma aligned_refl: "aligned 0 a a"
proof (induction a)
  case (Cons x a)
  then show ?case using aligned.intros(2) [of 0 a a x x] by simp
qed (rule aligned.intros)

inductive_cases aligned_ConsE: "aligned n (y # b) c"

lemma aligned_trans:
  "aligned n a b \<Longrightarrow> aligned m b c \<Longrightarrow> \<exists>k \<le> n + m. aligned k a c"
proof (induction n a b arbitrary: m c rule: aligned.induct)
  case 1
  then show ?case by auto
next
  case (2 n a b x y)
  from 2(3) show ?case
  proof (induction m "y # b" c rule: aligned.induct)
    case (2 m c z)
    obtain k where k: "k \<le> n + m" "aligned k a c" using "2.prems" "2.hyps" \<open>\<And>m c. aligned m b c \<Longrightarrow> \<exists>k\<le>n + m. aligned k a c\<close> by blast
    have "k + (if x \<noteq> z then 1 else 0) \<le> n + (if x \<noteq> y then 1 else 0) + (m + (if y \<noteq> z then 1 else 0))"
      using k(1) by auto
    then show ?case using aligned.intros(2) [OF k(2), of x z] by blast
  next
    case (3 m c)
    obtain k where k: "k \<le> n + m" "aligned k a c" using 3 \<open>\<And>m c. aligned m b c \<Longrightarrow> \<exists>k\<le>n + m. aligned k a c\<close> by blast
    then show ?case using aligned.intros(3) [OF k(2), of x] by (intro exI [of _ "Suc k"]) auto
  next
    case (4 m c z)
    then obtain k where k: "k \<le> n + (if x \<noteq> y then 1 else 0) + m" "aligned k (x # a) c" by auto
    then show ?case using aligned.intros(4) [OF k(2), of z] by (intro exI [of _ "Suc k"]) auto
  qed
next
  case (3 n a b x)
  then obtain k where k: "k \<le> n + m" "aligned k a c" by blast
  then show ?case using aligned.intros(3) [OF k(2), of x] by (intro exI [of _ "Suc k"]) auto
next
  case (4 n a b y)
  from 4(3) show ?case
  proof (induction m "y # b" c rule: aligned.induct)
    case (2 m c z)
    obtain k where k: "k \<le> n + m" "aligned k a c" using 2 \<open>\<And>m c. aligned m b c \<Longrightarrow> \<exists>k\<le>n + m. aligned k a c\<close> by blast
    then show ?case using aligned.intros(4) [OF k(2), of z] by (intro exI [of _ "Suc k"]) auto
  next
    case (3 m c)
    obtain k where k: "k \<le> n + m" "aligned k a c" using 3 \<open>\<And>m c. aligned m b c \<Longrightarrow> \<exists>k\<le>n + m. aligned k a c\<close> by blast
    then show ?case by (intro exI [of _ k]) auto
  next
    case (4 m c z)
    then obtain k where k: "k \<le> Suc n + m" "aligned k a c" by auto
    then show ?case using aligned.intros(4) [OF k(2), of z] by (intro exI [of _ "Suc k"]) auto
  qed
qed

lemma one_edit_aligned: "one_edit a b \<Longrightarrow> \<exists>k \<le> 1. aligned k a b"
proof (induction rule: one_edit.induct)
  case (1 u v c)
  show ?case using aligned_append [OF aligned_refl [of u] aligned.intros(4) [OF aligned_refl [of v], of c]]
    by (intro exI [of _ 1]) simp
next
  case (2 u c v)
  show ?case using aligned_append [OF aligned_refl [of u] aligned.intros(3) [OF aligned_refl [of v], of c]]
    by (intro exI [of _ 1]) simp
next
  case (3 u c v d)
  show ?case using aligned_append [OF aligned_refl [of u] aligned.intros(2) [OF aligned_refl [of v], of c d]]
    by (intro exI [of _ "if c \<noteq> d then 1 else 0"]) simp
qed

lemma edits_aligned: "(one_edit ^^ n) a b \<Longrightarrow> \<exists>k \<le> n. aligned k a b"
proof (induction n arbitrary: b)
  case 0
  then show ?case using aligned_refl by auto
next
  case (Suc n)
  then obtain c where "(one_edit ^^ n) a c" "one_edit c b" by auto
  then obtain k l where "k \<le> n" "aligned k a c" "l \<le> 1" "aligned l c b"
    using Suc.IH one_edit_aligned by blast
  then obtain j where "j \<le> k + l" "aligned j a b" using aligned_trans by blast
  then show ?case using \<open>k \<le> n\<close> \<open>l \<le> 1\<close> by (intro exI [of _ j]) auto
qed

text \<open>C22. The distance that picks the names to suggest is the least number of characters to put in, take out or
  change that turns the one name into the other.\<close>
theorem edit_distance_is_least:
  "(one_edit ^^ edit_distance a b) a b \<and> \<not> (\<exists>n. n < edit_distance a b \<and> (one_edit ^^ n) a b)"
proof
  show "(one_edit ^^ edit_distance a b) a b" using aligned_edits [OF aligned_lev] by (simp add: edit_distance_lev)
  show "\<not> (\<exists>n. n < edit_distance a b \<and> (one_edit ^^ n) a b)"
    using edits_aligned lev_least unfolding edit_distance_lev by (metis leD le_trans)
qed

end
