(* ===== verification/SessionTools.thy ===== *)
theory SessionTools
  imports ToolSearch GateProps
begin

text \<open>
  Tools that change the session or a notebook: \<open>tools/src/plan_mode.rs\<close>, \<open>todo_write.rs\<close> and \<open>notebook_edit.rs\<close>.
  The todo list of the process is one list that every session writes.
\<close>

section \<open>Plan mode\<close>

definition plan_mode_active :: "session_state \<Rightarrow> bool" where
  "plan_mode_active s \<longleftrightarrow> ss_permission_mode s = Plan"

definition enter_plan_validate :: "(json \<Rightarrow> string) \<Rightarrow> json \<Rightarrow> validation_result" where
  "enter_plan_validate err v = (case fields_of 0 v of Some _ \<Rightarrow> VOk | None \<Rightarrow> VErr (''invalid input: '' @ err v) 2)"

definition entered_plan_note :: string where
  "entered_plan_note =
     ''Entered plan mode. You should now focus on exploring the codebase and designing an implementation approach.''
     @ [CHR 0x0A, CHR 0x0A] @ ''In plan mode, you should:'' @ [CHR 0x0A]
     @ ''1. Thoroughly explore the codebase to understand existing patterns'' @ [CHR 0x0A]
     @ ''2. Identify similar features and architectural approaches'' @ [CHR 0x0A]
     @ ''3. Consider multiple approaches and their trade-offs'' @ [CHR 0x0A]
     @ ''4. Use AskUserQuestion if you need to clarify the approach'' @ [CHR 0x0A]
     @ ''5. Design a concrete implementation strategy'' @ [CHR 0x0A]
     @ ''6. When ready, use ExitPlanMode to present your plan for approval'' @ [CHR 0x0A, CHR 0x0A]
     @ ''Remember: DO NOT write or edit any files yet. This is a read-only exploration and planning phase.''"

definition enter_plan_call :: "(json \<Rightarrow> string) \<Rightarrow> bool \<Rightarrow> json \<Rightarrow> session_state \<Rightarrow> (tool_error + tool_result) \<times> session_state" where
  "enter_plan_call err in_agent v s =
     (if in_agent then (Inl (TeExecution ''EnterPlanMode tool cannot be used in agent contexts''), s)
      else (case fields_of 0 v of
              None \<Rightarrow> (Inl (TeSchema (err v)), s)
            | Some _ \<Rightarrow>
                (Inr (plain_result entered_plan_note), clear_plan_slug (clear_plan_text (set_permission_mode Plan s)))))"

record exit_plan_input =
  xp_allowed_prompts :: "(string \<times> string) list"
  xp_note :: "string option"

definition allowed_prompt_of :: "json \<Rightarrow> (string \<times> string) option" where
  "allowed_prompt_of v =
     Option.bind (fields_of 2 v) (\<lambda>fs.
     Option.bind (required 0 [''tool''] as_str fs) (\<lambda>t.
     Option.bind (required 1 [''prompt''] as_str fs) (\<lambda>p. Some (t, p))))"

definition exit_plan_input_of :: "json \<Rightarrow> exit_plan_input option" where
  "exit_plan_input_of v =
     Option.bind (fields_of 2 v) (\<lambda>fs.
     Option.bind (defaulted 0 [''allowed_prompts''] [] (de_list allowed_prompt_of) fs) (\<lambda>ps.
     Option.bind (defaulted 1 [''note''] None (de_option as_str) fs) (\<lambda>n.
     Some \<lparr>xp_allowed_prompts = ps, xp_note = n\<rparr>)))"

definition not_in_plan_note :: string where
  "not_in_plan_note =
     ''You are not in plan mode. This tool is only for exiting plan mode after writing a plan. If your plan was already approved, continue with implementation.''"

definition exit_plan_validate :: "session_state \<Rightarrow> validation_result" where
  "exit_plan_validate s = (if plan_mode_active s then VOk else VErr not_in_plan_note 1)"

definition exit_plan_check :: tool_decision where
  "exit_plan_check = TAsk ''Exit plan mode?'' None"

definition exit_plan_call :: "(json \<Rightarrow> string) \<Rightarrow> json \<Rightarrow> session_state \<Rightarrow> (tool_error + tool_result) \<times> session_state" where
  "exit_plan_call err v s =
     (case exit_plan_input_of v of
        None \<Rightarrow> (Inl (TeSchema (err v)), s)
      | Some i \<Rightarrow>
          (if plan_mode_active s then
             (let granted = map (\<lambda>(t, p). t @ ''('' @ p @ '')'') (xp_allowed_prompts i);
                  why = (case xp_note i of Some n \<Rightarrow> n | None \<Rightarrow> []);
                  msg = ''Exited plan mode (now: Default).'' @ (if why = [] then [] else '' note: '') @ why
                    @ (if granted = [] then []
                       else [CHR 0x0A] @ ''Approved alongside the plan: '' @ join_with '', '' granted
                         @ ''. Calls outside this list still require confirmation.'')
              in (Inr (plain_result msg), clear_plan_slug (clear_plan_text (set_permission_mode Default s))))
           else (Inr (plain_result ''Already not in plan mode; no change.''), s)))"

text \<open>The two tools as the permission layer sees them.\<close>

definition enter_plan_tool :: "(json \<Rightarrow> string) \<Rightarrow> string \<Rightarrow> tool" where
  "enter_plan_tool err prompt =
     \<lparr>t_name = ''EnterPlanMode'', t_prompt = prompt, t_validate_input = (\<lambda>v _. enter_plan_validate err v),
       t_check_permissions = (\<lambda>_ _. TAllow None), t_permission_match_content = (\<lambda>_. None),
       t_permission_content_kind = Opaque, t_is_read_only = (\<lambda>_. True), t_self_allow_overrides_mode = False\<rparr>"

definition exit_plan_tool :: "session_state \<Rightarrow> string \<Rightarrow> tool" where
  "exit_plan_tool s prompt =
     \<lparr>t_name = ''ExitPlanMode'', t_prompt = prompt, t_validate_input = (\<lambda>_ _. exit_plan_validate s),
       t_check_permissions = (\<lambda>_ _. exit_plan_check), t_permission_match_content = (\<lambda>_. None),
       t_permission_content_kind = Opaque, t_is_read_only = (\<lambda>_. False), t_self_allow_overrides_mode = False\<rparr>"

section \<open>Todos\<close>

definition todo_status_of_name :: "string \<Rightarrow> todo_status option" where
  "todo_status_of_name n =
     (if n = ''pending'' then Some TodoPending
      else if n = ''in_progress'' then Some TodoInProgress
      else if n = ''completed'' then Some TodoCompleted
      else None)"

definition todo_item_of :: "json \<Rightarrow> todo_item option" where
  "todo_item_of v =
     Option.bind (fields_of 3 v) (\<lambda>fs.
     Option.bind (required 0 [''content''] as_str fs) (\<lambda>c.
     Option.bind (required 1 [''status''] (de_variant todo_status_of_name) fs) (\<lambda>st.
     Option.bind (defaulted 2 [''active_form''] [] as_str fs) (\<lambda>a.
     Some \<lparr>ti_content = c, ti_status = st, ti_active_form = a\<rparr>))))"

definition todo_write_input_of :: "json \<Rightarrow> todo_item list option" where
  "todo_write_input_of v = Option.bind (fields_of 1 v) (required 0 [''todos''] (de_list todo_item_of))"

fun empty_todo :: "nat \<Rightarrow> todo_item list \<Rightarrow> nat option" where
  "empty_todo i [] = None"
| "empty_todo i (t # ts) = (if trim (ti_content t) = [] then Some i else empty_todo (Suc i) ts)"

definition todo_write_validate :: "(json \<Rightarrow> string) \<Rightarrow> json \<Rightarrow> validation_result" where
  "todo_write_validate err v =
     (case todo_write_input_of v of
        None \<Rightarrow> VErr (''invalid input: '' @ err v) 3
      | Some todos \<Rightarrow>
          (let n = count_status TodoInProgress todos in
           if 1 < n then
             VErr (''at most one todo may be in_progress at a time; you have '' @ show_nat n) 1
           else (case empty_todo 0 todos of
                   Some i \<Rightarrow> VErr (''todo['' @ show_nat i @ ''].content is empty'') 2
                 | None \<Rightarrow> VOk)))"

definition todo_write_call :: "(json \<Rightarrow> string) \<Rightarrow> json \<Rightarrow> todo_item list \<Rightarrow> (tool_error + tool_result) \<times> todo_item list" where
  "todo_write_call err v store =
     (case todo_write_input_of v of
        None \<Rightarrow> (Inl (TeSchema (err v)), store)
      | Some todos \<Rightarrow>
          (Inr (plain_result (show_nat (length todos) @ '' todos: '' @ show_nat (count_status TodoCompleted todos)
              @ '' completed, '' @ show_nat (count_status TodoInProgress todos) @ '' in_progress, ''
              @ show_nat (count_status TodoPending todos) @ '' pending'')), todos))"

section \<open>Notebooks\<close>

datatype notebook_edit_mode = NbInsert | NbEdit | NbDelete

datatype notebook_cell_type = NbCode | NbMarkdown | NbRaw

record notebook_edit_input =
  ni_file_path :: string
  ni_mode :: notebook_edit_mode
  ni_cell_index :: nat
  ni_new_source :: "string option"
  ni_cell_type :: "notebook_cell_type option"

definition nb_mode_of_name :: "string \<Rightarrow> notebook_edit_mode option" where
  "nb_mode_of_name n =
     (if n = ''insert'' then Some NbInsert else if n = ''edit'' then Some NbEdit
      else if n = ''delete'' then Some NbDelete else None)"

definition nb_cell_of_name :: "string \<Rightarrow> notebook_cell_type option" where
  "nb_cell_of_name n =
     (if n = ''code'' then Some NbCode else if n = ''markdown'' then Some NbMarkdown
      else if n = ''raw'' then Some NbRaw else None)"

definition notebook_edit_input_of :: "json \<Rightarrow> notebook_edit_input option" where
  "notebook_edit_input_of v =
     Option.bind (fields_of 5 v) (\<lambda>fs.
     Option.bind (required 0 [''file_path''] as_str fs) (\<lambda>p.
     Option.bind (required 1 [''mode''] (de_variant nb_mode_of_name) fs) (\<lambda>m.
     Option.bind (required 2 [''cell_index''] de_u64 fs) (\<lambda>i.
     Option.bind (defaulted 3 [''new_source''] None (de_option as_str) fs) (\<lambda>s.
     Option.bind (defaulted 4 [''cell_type''] None (de_option (de_variant nb_cell_of_name)) fs) (\<lambda>c.
     Some \<lparr>ni_file_path = p, ni_mode = m, ni_cell_index = i, ni_new_source = s, ni_cell_type = c\<rparr>))))))"

definition notebook_validate :: "(json \<Rightarrow> string) \<Rightarrow> json \<Rightarrow> validation_result" where
  "notebook_validate err v =
     (case notebook_edit_input_of v of
        None \<Rightarrow> VErr (''invalid input: '' @ err v) 3
      | Some p \<Rightarrow>
          (if \<not> suffix ''.ipynb'' (ni_file_path p) then VErr ''file_path must end with .ipynb'' 1
           else if ni_mode p \<noteq> NbDelete \<and> ni_new_source p = None then
             VErr ''new_source is required for insert/edit modes'' 2
           else VOk))"

definition notebook_check_permissions :: "file_lib \<Rightarrow> json \<Rightarrow> file_ctx \<Rightarrow> file_world \<Rightarrow> tool_decision option" where
  "notebook_check_permissions lib v cx w =
     (case notebook_edit_input_of v of
        None \<Rightarrow> Some (TAllow None)
      | Some i \<Rightarrow>
          (let p = canonicalize_best_effort (tool_disk w)
                 (normalize_path_lexically (resolve_path (ni_file_path i) (fx_cwd cx)))
           in case check_write_for (fl_env lib) (fl_nfc lib) (ni_file_path i) p (write_policy_of cx (tool_disk w)) of
                SafeOk \<Rightarrow> Some (TAllow None)
              | SafeErr (OutsideAllowedRoots _ _ _) \<Rightarrow>
                  Some (TAsk ''NotebookEdit outside the project requires confirmation'' None)
              | SafeErr err \<Rightarrow>
                  Some (TDeny (Some (''path safety: '' @ fl_debug lib err)) (Some ''notebook path outside cwd''))
              | SafePanic \<Rightarrow> None))"

text \<open>\<open>split_inclusive\<close>: every line keeps its end.\<close>

fun lines_inclusive :: "string \<Rightarrow> string list" where
  "lines_inclusive [] = []"
| "lines_inclusive (c # s) =
     (if c = CHR 0x0A then [c] # lines_inclusive s
      else (case lines_inclusive s of [] \<Rightarrow> [[c]] | l # ls \<Rightarrow> (c # l) # ls))"

definition source_to_lines :: "string \<Rightarrow> json" where
  "source_to_lines s = JArray (map JString (lines_inclusive s))"

definition nb_cell_name :: "notebook_cell_type \<Rightarrow> string" where
  "nb_cell_name c = (case c of NbCode \<Rightarrow> ''code'' | NbMarkdown \<Rightarrow> ''markdown'' | NbRaw \<Rightarrow> ''raw'')"

definition fresh_outputs :: "(string \<times> json) list" where
  "fresh_outputs = [(''outputs'', JArray []), (''execution_count'', JNull)]"

definition build_cell :: "notebook_cell_type \<Rightarrow> string \<Rightarrow> json" where
  "build_cell c source =
     JObject ([(''cell_type'', JString (nb_cell_name c)), (''source'', source_to_lines source), (''metadata'', JObject [])]
       @ (if c = NbCode then fresh_outputs else []))"

definition edit_cell :: "string \<Rightarrow> json \<Rightarrow> json" where
  "edit_cell source cell =
     (case cell of
        JObject kvs \<Rightarrow>
          (let kvs1 = obj_insert kvs ''source'' (source_to_lines source)
           in JObject (if map_of kvs1 ''cell_type'' = Some (JString ''code'')
                       then foldl (\<lambda>o' (k, x). obj_insert o' k x) kvs1 fresh_outputs else kvs1))
      | other \<Rightarrow> other)"

definition out_of_range :: "nat \<Rightarrow> nat \<Rightarrow> tool_error" where
  "out_of_range i n =
     TeExecution (''cell_index '' @ show_nat i @ '' out of range (cells.len='' @ show_nat n @ '')'')"

definition change_cells :: "notebook_edit_input \<Rightarrow> json list \<Rightarrow> tool_error + json list" where
  "change_cells i cells =
     (let k = ni_cell_index i;
          source = (case ni_new_source i of Some s \<Rightarrow> s | None \<Rightarrow> []);
          n = length cells
      in case ni_mode i of
           NbInsert \<Rightarrow>
             (if n < k then Inl (out_of_range k n)
              else Inr (take k cells
                @ build_cell (case ni_cell_type i of Some c \<Rightarrow> c | None \<Rightarrow> NbCode) source # drop k cells))
         | NbEdit \<Rightarrow> (if n \<le> k then Inl (out_of_range k n) else Inr (cells[k := edit_cell source (cells ! k)]))
         | NbDelete \<Rightarrow> (if n \<le> k then Inl (out_of_range k n) else Inr (take k cells @ drop (Suc k) cells)))"

definition exec_error_words :: "exec_error \<Rightarrow> string" where
  "exec_error_words e =
     (case e of
        ExecUnavailable m \<Rightarrow> ''execution environment unavailable: '' @ m
      | ExecDenied m \<Rightarrow> ''refused by policy: '' @ m
      | ExecFailed m \<Rightarrow> m)"

definition nb_mode_debug :: "notebook_edit_mode \<Rightarrow> string" where
  "nb_mode_debug m = (case m of NbInsert \<Rightarrow> ''Insert'' | NbEdit \<Rightarrow> ''Edit'' | NbDelete \<Rightarrow> ''Delete'')"

text \<open>The call works on the path as given: a relative one leads from the working directory of the process,
  \<open>process_cwd\<close>, while the permission was for the directory of the session.
  Messages name the path so resolved.\<close>

definition notebook_target :: "path \<Rightarrow> notebook_edit_input \<Rightarrow> path" where
  "notebook_target process_cwd i = resolve_path (ni_file_path i) process_cwd"

definition notebook_call ::
  "file_lib \<Rightarrow> (json \<Rightarrow> string) \<Rightarrow> nat \<Rightarrow> path \<Rightarrow> json \<Rightarrow> file_ctx \<Rightarrow> file_world \<Rightarrow> (tool_error + tool_result) \<times> file_world" where
  "notebook_call lib pretty now process_cwd v cx w =
     (case notebook_edit_input_of v of
        None \<Rightarrow> (Inl (TeSchema (fl_de_error lib v)), w)
      | Some i \<Rightarrow>
          (let p = notebook_target process_cwd i;
               w1 = snapshot_before cx p ''NotebookEdit'' w
           in case fs_read_to_string p (tool_disk w1) of
                Inl e \<Rightarrow> (Inl (TeExecution (''read '' @ ni_file_path i @ '': '' @ exec_error_words e)), w1)
              | Inr body \<Rightarrow>
           (case fl_from_str lib body of
                Inl err \<Rightarrow> (Inl (TeExecution (''parse ipynb JSON: '' @ err)), w1)
              | Inr nb \<Rightarrow>
           (case (nb, field_array nb ''cells'') of
                (JObject kvs, Some cells) \<Rightarrow>
           (case change_cells i cells of
                Inl err \<Rightarrow> (Inl err, w1)
              | Inr cells' \<Rightarrow>
           (case fs_write_str now p (pretty (JObject (obj_insert kvs ''cells'' (JArray cells')))) (tool_disk w1) of
                Inl e \<Rightarrow> (Inl (TeExecution (''write: '' @ exec_error_words e)), w1)
              | Inr d \<Rightarrow>
                  (Inr (plain_result (nb_mode_debug (ni_mode i) @ '' cell at index '' @ show_nat (ni_cell_index i)
                      @ '' in '' @ ni_file_path i @ ''; notebook now has '' @ show_nat (length cells') @ '' cells.'')
                      \<lparr>tr_new_messages := Some []\<rparr>),
                   set_tool_disk d w1)))
              | _ \<Rightarrow> (Inl (TeExecution (''ipynb missing '' @ [squote] @ ''cells'' @ [squote] @ '' array'')), w1)))))"

end
