(* ===== verification/SessionToolsProps.thy ===== *)
theory SessionToolsProps
  imports SessionTools FileToolsProps Lossless
begin

text \<open>
  What the registry, the deferral, plan mode and the notebook tool guarantee, and where they fall short of what their
  documentation says.
\<close>

section \<open>The registry\<close>

datatype tool_registry_op = RRegister listed_tool | RReplace listed_tool | RRemove string | RDispose nat

fun tool_registry_step :: "tool_registry_op \<Rightarrow> tool_registry \<Rightarrow> tool_registry" where
  "tool_registry_step (RRegister t) r = snd (registry_register t r)"
| "tool_registry_step (RReplace t) r = snd (registry_replace t r)"
| "tool_registry_step (RRemove n) r = snd (tool_remove n r)"
| "tool_registry_step (RDispose i) r = registry_dispose i r"

definition registry_run :: "tool_registry_op list \<Rightarrow> tool_registry \<Rightarrow> tool_registry" where
  "registry_run ops r = foldl (\<lambda>r op. tool_registry_step op r) r ops"

definition registry_inv :: "tool_registry \<Rightarrow> bool" where
  "registry_inv r \<longleftrightarrow> distinct (map fst (rg_entries r)) \<and> (\<forall>e \<in> set (rg_entries r). fst e < rg_next r)"

lemma swap_entry_ids: "set (map fst (swap_entry e xs)) \<subseteq> insert (fst e) (set (map fst xs))"
  by (induction xs) auto

lemma swap_entry_distinct:
  "distinct (map fst xs) \<Longrightarrow> fst e \<notin> fst ` set xs \<Longrightarrow> distinct (map fst (swap_entry e xs))"
proof (induction xs)
  case (Cons x xs)
  then show ?case using swap_entry_ids [of e xs] by auto
qed simp

lemma swap_entry_mem: "y \<in> set (swap_entry e xs) \<Longrightarrow> y = e \<or> y \<in> set xs"
  by (induction xs) (auto split: if_splits)

lemma tool_registry_step_inv: "registry_inv r \<Longrightarrow> registry_inv (tool_registry_step op r)"
proof (cases op)
  case (RReplace t)
  assume "registry_inv r"
  moreover from this have "rg_next r \<notin> fst ` set (rg_entries r)" by (auto simp: registry_inv_def)
  ultimately show ?thesis using RReplace swap_entry_distinct [of "rg_entries r" "(rg_next r, t)"]
    by (fastforce simp: registry_inv_def registry_replace_def dest: swap_entry_mem)
qed (auto simp: registry_inv_def registry_register_def tool_remove_def registry_dispose_def distinct_map_filter Let_def)

text \<open>What carries a number handed out later than \<open>i\<close>, or was there under \<open>i\<close>.\<close>

lemma tool_registry_step_keeps:
  assumes "i < rg_next r" and "\<forall>e \<in> set (rg_entries r). fst e = i \<longrightarrow> snd e = t"
  shows "i < rg_next (tool_registry_step op r) \<and> (\<forall>e \<in> set (rg_entries (tool_registry_step op r)). fst e = i \<longrightarrow> snd e = t)"
  using assms
  by (cases op) (auto simp: registry_register_def registry_replace_def tool_remove_def registry_dispose_def Let_def
      dest!: swap_entry_mem)

lemma registry_run_Cons: "registry_run (op # ops) r = registry_run ops (tool_registry_step op r)"
  by (simp add: registry_run_def)

lemma registry_run_keeps:
  "i < rg_next r \<and> (\<forall>e \<in> set (rg_entries r). fst e = i \<longrightarrow> snd e = t) \<Longrightarrow>
   \<forall>e \<in> set (rg_entries (registry_run ops r)). fst e = i \<longrightarrow> snd e = t"
proof (induction ops arbitrary: r)
  case Nil
  then show ?case by (simp add: registry_run_def)
next
  case (Cons op ops)
  show ?case unfolding registry_run_Cons
    by (rule Cons.IH) (rule tool_registry_step_keeps; use Cons.prems in blast)
qed

lemma registry_run_inv: "registry_inv r \<Longrightarrow> registry_inv (registry_run ops r)"
  by (induction ops arbitrary: r) (auto simp: registry_run_def intro: tool_registry_step_inv)

text \<open>A disposer withdraws its own registration and nothing else, whatever was registered, replaced and withdrawn
  since.\<close>

lemma disposer_withdraws_its_own:
  assumes "registry_inv r" and "registry_register t r = (i, r1)"
  shows "rg_entries (registry_dispose i (registry_run ops r1)) = filter (\<lambda>e. e \<noteq> (i, t)) (rg_entries (registry_run ops r1))
    \<and> distinct (map fst (rg_entries (registry_run ops r1)))"
proof
  have r1: "r1 = tool_registry_step (RRegister t) r" "i < rg_next r1" and one: "\<forall>e \<in> set (rg_entries r1). fst e = i \<longrightarrow> snd e = t"
    using assms by (auto simp: registry_register_def registry_inv_def; force)+
  have "registry_inv (registry_run ops r1)"
    unfolding r1(1) by (rule registry_run_inv [OF tool_registry_step_inv [OF assms(1)]])
  then show "distinct (map fst (rg_entries (registry_run ops r1)))" by (simp add: registry_inv_def)
  show "rg_entries (registry_dispose i (registry_run ops r1)) = filter (\<lambda>e. e \<noteq> (i, t)) (rg_entries (registry_run ops r1))"
    using registry_run_keeps [OF conjI [OF r1(2) one], of ops]
    by (auto simp: registry_dispose_def intro!: filter_cong)
qed

section \<open>Deferral\<close>

lemma deferred_same_permissions:
  "\<not> t_self_allow_overrides_mode t \<Longrightarrow> tool.truncate (deferred_tool t) = tool.truncate t"
  by (simp add: deferred_tool_def tool.defs)

text \<open>A tool that must be heard in plan mode is not, once it is deferred.\<close>

definition sample_channel_tool :: listed_tool where
  "sample_channel_tool =
     \<lparr>t_name = ''SendMessage'', t_prompt = [], t_validate_input = (\<lambda>_ _. VOk), t_check_permissions = (\<lambda>_ _. TAllow None),
       t_permission_match_content = (\<lambda>_. None), t_permission_content_kind = Opaque, t_is_read_only = (\<lambda>_. False),
       t_self_allow_overrides_mode = True, lt_description = ''Send'', lt_short_description = None,
       lt_prompt_fragment = [], lt_deferred = False, lt_input_schema = JNull, lt_full_input_schema = JNull\<rparr>"

definition plan_context :: tool_context where
  "plan_context = \<lparr>ctx_cwd = [RootDir], ctx_mode = Plan, ctx_session_id = [], ctx_sandbox = default_sandbox\<rparr>"

lemma deferred_tool_loses_override:
  "gate_check bare_env (gate_new []) (tool.truncate sample_channel_tool) JNull plan_context
     = Inr (PAllow None (Some (ReasonOther ''tool allowed'')))
   \<and> gate_check bare_env (gate_new []) (tool.truncate (deferred_tool sample_channel_tool)) JNull plan_context
     = Inr (PDeny ''plan mode forbids non-readonly tools'' (ReasonMode Plan))"
  by code_simp

section \<open>Plan mode\<close>

text \<open>Leaving plan mode is itself a call that plan mode forbids.\<close>

lemma plan_mode_is_not_left:
  assumes "ss_permission_mode s = Plan" and "ctx_mode ctx = Plan"
  shows "\<exists>msg r. gate_check e g (exit_plan_tool s prompt) v ctx = Inr (PDeny msg r)"
  using assms
  by (auto simp: gate_check_def exit_plan_tool_def exit_plan_validate_def plan_mode_active_def exit_plan_check_def
      Let_def split: rule_hit.splits option.splits)

section \<open>Notebooks\<close>

lemma concat_lines_inclusive: "concat (lines_inclusive s) = s"
  by (induction s) (auto split: list.splits)

lemma map_filter_strings: "List.map_filter as_str (map JString ls) = ls"
  by (induction ls) (simp_all add: List.map_filter_def)

lemma cell_source_lines:
  "json_get cell ''source'' = Some (source_to_lines s) \<Longrightarrow> cell_source cell = s"
  by (simp add: cell_source_def field_array_def source_to_lines_def array_strings_def map_filter_strings
      concat_lines_inclusive)

lemma cell_source_build: "cell_source (build_cell c s) = s"
  by (rule cell_source_lines) (simp add: build_cell_def)

lemma map_of_obj_fold:
  "k \<notin> fst ` set us \<Longrightarrow> map_of (foldl (\<lambda>o' (k, x). obj_insert o' k x) kvs us) k = map_of kvs k"
  by (induction us arbitrary: kvs) auto

lemma cell_source_edit: "cell_source (edit_cell s (JObject kvs)) = s"
  by (rule cell_source_lines)
    (auto simp: edit_cell_def Let_def map_of_obj_fold fresh_outputs_def)

lemma edit_cell_keeps:
  assumes "k \<notin> {''source'', ''outputs'', ''execution_count''}"
  shows "json_get (edit_cell s (JObject kvs)) k = map_of kvs k"
  using assms by (auto simp: edit_cell_def Let_def map_of_obj_fold fresh_outputs_def)

text \<open>Where the cells of a notebook are after a change, and which one is new.\<close>

definition cells_changed :: "notebook_edit_input \<Rightarrow> json list \<Rightarrow> json list \<Rightarrow> bool" where
  "cells_changed i before after \<longleftrightarrow>
     (let k = ni_cell_index i; s = (case ni_new_source i of Some s \<Rightarrow> s | None \<Rightarrow> [])
      in take k after = take k before
         \<and> (case ni_mode i of
              NbInsert \<Rightarrow> k \<le> length before \<and> drop (Suc k) after = drop k before \<and> cell_source (after ! k) = s
            | NbEdit \<Rightarrow> k < length before \<and> drop (Suc k) after = drop (Suc k) before
                \<and> (as_object (before ! k) \<noteq> None \<longrightarrow> cell_source (after ! k) = s)
            | NbDelete \<Rightarrow> k < length before \<and> drop k after = drop (Suc k) before))"

lemma change_cells_ok:
  assumes "change_cells i cells = Inr cells'"
  shows "cells_changed i cells cells'"
proof (cases "ni_mode i")
  case NbInsert
  then show ?thesis using assms
    by (auto simp: change_cells_def cells_changed_def Let_def nth_append cell_source_build split: if_splits)
next
  case NbEdit
  then have k: "ni_cell_index i < length cells"
    and c: "cells' = cells[ni_cell_index i := edit_cell (case ni_new_source i of Some s \<Rightarrow> s | None \<Rightarrow> []) (cells ! ni_cell_index i)]"
    using assms by (auto simp: change_cells_def Let_def split: if_splits)
  have "as_object (cells ! ni_cell_index i) \<noteq> None \<Longrightarrow>
      cell_source (cells' ! ni_cell_index i) = (case ni_new_source i of Some s \<Rightarrow> s | None \<Rightarrow> [])"
    using k c by (cases "cells ! ni_cell_index i") (auto simp: cell_source_edit)
  then show ?thesis using NbEdit k c by (simp add: cells_changed_def Let_def)
next
  case NbDelete
  then show ?thesis using assms
    by (auto simp: change_cells_def cells_changed_def Let_def split: if_splits)
qed


definition counting_print :: "json \<Rightarrow> string" where
  "counting_print j = replicate (to_nat j) (CHR ''x'')"

definition counting_lib :: file_lib where
  "counting_lib = sample_lib\<lparr>fl_from_str := (\<lambda>s. Inr (from_nat (length s)))\<rparr>"

lemma counting_lossless: "fl_from_str counting_lib (counting_print j) = Inr j"
  by (simp add: counting_lib_def counting_print_def)

definition sample_cells :: "json list" where
  "sample_cells = [build_cell NbMarkdown ''title'', build_cell NbCode ''1 + 1'']"

definition sample_kvs :: "(string \<times> json) list" where
  "sample_kvs = [(''cells'', JArray sample_cells), (''nbformat'', JNumber 4)]"

definition notebook_world :: file_world where
  "notebook_world =
     sample_world\<lparr>fw_local := put_node [RootDir, Normal ''p'', Normal ''n.ipynb'']
       (Some (File (Utf8 (counting_print (JObject sample_kvs))) 5)) sample_disk\<rparr>"

definition sample_cell_edit :: notebook_edit_input where
  "sample_cell_edit =
     \<lparr>ni_file_path = ''n.ipynb'', ni_mode = NbEdit, ni_cell_index = 1, ni_new_source = Some ''2 + 2'', ni_cell_type = None\<rparr>"


text \<open>The permission is for the path under the session's directory, the change happens under the process's.\<close>

lemma notebook_path_escapes:
  "(let v = JObject [(''file_path'', JString ''n.ipynb''), (''mode'', JString ''delete''), (''cell_index'', JNumber 0)]
    in notebook_check_permissions sample_lib v (sample_cx False) sample_world = Some (TAllow None)
       \<and> map_option (notebook_target [RootDir, Normal ''etc'']) (notebook_edit_input_of v)
         = Some [RootDir, Normal ''etc'', Normal ''n.ipynb''])"
  by code_simp

end
