(* ===== verification/PluginManifest.thy ===== *)
theory PluginManifest
  imports Disk Json
begin

text \<open>
  What a plugin package declares: \<open>plugin/src/manifest.rs\<close>, the disclosure an installer shows (\<open>disclosure.rs\<close>), and the
  MCP servers a package starts (\<open>mcp.rs\<close>, \<open>locate.rs\<close>).

  The TOML reader is a parameter, in \<open>plugin_lib\<close>: it gives the manifest and the keys of the top-level table.  The environment, the
  directory of the executable and the JSON reader stand there too.
\<close>

section \<open>The manifest\<close>

definition SUPPORTED_API_VERSIONS :: "string list" where
  "SUPPORTED_API_VERSIONS = [''0.1'']"

definition SUBSCRIBABLE_EVENTS :: "string list" where
  "SUBSCRIBABLE_EVENTS =
     [''PreToolUse'', ''PostToolUse'', ''PostToolUseFailure'', ''PermissionRequested'', ''SessionStart'',
      ''SessionEnd'']"

definition KNOWN_SECTIONS :: "string list" where
  "KNOWN_SECTIONS = [''plugin'', ''wasm'', ''mcp'', ''script'', ''scene'', ''agent'']"

definition HOST_SECTION_PREFIX :: string where
  "HOST_SECTION_PREFIX = ''x-''"

record plugin_meta =
  pm_name :: string
  pm_version :: string
  pm_api_version :: string
  pm_description :: string
  pm_author :: string
  pm_homepage :: string
  pm_config_schema :: "path option"

record capabilities =
  cap_fs_read :: "string list"
  cap_fs_write :: "string list"
  cap_net :: "string list"
  cap_env :: "string list"
  cap_max_memory_mb :: "32 word"
  cap_timeout_ms :: "64 word"

definition default_capabilities :: capabilities where
  "default_capabilities =
     \<lparr>cap_fs_read = [], cap_fs_write = [], cap_net = [], cap_env = [], cap_max_memory_mb = 64,
      cap_timeout_ms = 30000\<rparr>"

definition reaches_outside :: "capabilities \<Rightarrow> bool" where
  "reaches_outside c \<longleftrightarrow> cap_fs_read c \<noteq> [] \<or> cap_fs_write c \<noteq> [] \<or> cap_net c \<noteq> [] \<or> cap_env c \<noteq> []"

record wasm_payload =
  wp_component :: path
  wp_tools :: "string list"
  wp_events :: "string list"
  wp_capabilities :: capabilities

record script_payload =
  scp_point :: string
  scp_entry :: string
  scp_timeout_ms :: "64 word option"
  scp_calls_per_turn :: "32 word option"

text \<open>\<open>str::rsplit_once\<close> at a character.\<close>

definition rsplit_once :: "char \<Rightarrow> string \<Rightarrow> (string \<times> string) option" where
  "rsplit_once c s = map_option (\<lambda>(a, b). (rev b, rev a)) (split_once c (rev s))"

definition script_file :: "script_payload \<Rightarrow> string" where
  "script_file s = (case rsplit_once (CHR '':'') (scp_entry s) of None \<Rightarrow> '''' | Some (f, _) \<Rightarrow> f)"

definition script_function :: "script_payload \<Rightarrow> string" where
  "script_function s = (case rsplit_once (CHR '':'') (scp_entry s) of None \<Rightarrow> '''' | Some (_, f) \<Rightarrow> f)"

datatype mcp_kind = McpNative | McpDsh

record mcp_payload =
  mp_name :: string
  mp_kind :: mcp_kind
  mp_config :: "path option"
  mp_entry :: "path option"
  mp_env :: "string list"

record plugin_scene_budget =
  sb_compact_threshold :: "nat option"
  sb_compact_keep_recent :: "nat option"
  sb_max_api_calls_per_turn :: "32 word option"

record own_scene =
  os_name :: string
  os_description :: string
  os_prompt :: path
  os_reminder :: "path option"
  os_tools :: "string list"
  os_disallowed_tools :: "string list"
  os_deferred_tools :: "string list"
  os_budget :: plugin_scene_budget

record scene_section =
  ss_visible_in :: "string list"
  ss_own :: "own_scene option"

record plugin_agent_def =
  pa_name :: string
  pa_description :: string
  pa_prompt :: path
  pa_allowed_tools :: "string list"
  pa_disallowed_tools :: "string list"
  pa_model :: "string option"
  pa_permission_mode :: "string option"
  pa_effort :: "string option"
  pa_max_turns :: "32 word option"
  pa_scene :: "string option"

record plugin_manifest =
  man_plugin :: plugin_meta
  man_wasm :: "wasm_payload list"
  man_mcp :: "mcp_payload list"
  man_script :: "script_payload list"
  man_scene :: scene_section
  man_agent :: "plugin_agent_def list"

datatype plugin_error =
  PluginIo string
| PluginToml string
| PluginSchema string
| PluginHomograph string
| PluginChecksum string
| PluginApiVersion string string

record plugin =
  pl_root :: path
  pl_manifest :: plugin_manifest

record plugin_lib =
  toml_manifest :: "string \<Rightarrow> string + plugin_manifest"
  toml_keys :: "string \<Rightarrow> string list option"
  json_parse :: "string \<Rightarrow> json option"
  env_var :: "string \<Rightarrow> string option"
  current_exe :: "path option"

section \<open>Validation\<close>

definition script_fault :: "script_payload \<Rightarrow> plugin_error option" where
  "script_fault s =
     (if trim (scp_point s) = [] then Some (PluginSchema ''a `[[script]]` declares no `point`'')
      else
        (let malformed = PluginSchema (''script entry `'' @ scp_entry s @ ''` is not `<file>:<function>`'') in
         case rsplit_once (CHR '':'') (scp_entry s) of
           None \<Rightarrow> Some malformed
         | Some (f, fn) \<Rightarrow>
             (if f = [] \<or> fn = [] then Some malformed
              else if is_absolute (path_of f) \<or> list_ex (\<lambda>c. c = ParentDir) (path_of f) then
                Some (PluginSchema (''script entry `'' @ scp_entry s @ ''` must name a file inside the package''))
              else None)))"

definition mcp_fault :: "mcp_payload \<Rightarrow> plugin_error option" where
  "mcp_fault s =
     (case mp_kind s of
        McpNative \<Rightarrow>
          (if mp_config s = None then
             Some (PluginSchema (''mcp `'' @ mp_name s @ ''` is native but declares no `config`''))
           else None)
      | McpDsh \<Rightarrow>
          (if mp_entry s = None then
             Some (PluginSchema (''mcp `'' @ mp_name s @ ''` is dsh but declares no `entry`''))
           else None))"

definition event_fault :: "string \<Rightarrow> plugin_error option" where
  "event_fault e =
     (if e \<in> set SUBSCRIBABLE_EVENTS then None
      else Some (PluginSchema
        (''event `'' @ e @ ''` is not one a plugin may subscribe to (allowed: ''
          @ join_with '', '' SUBSCRIBABLE_EVENTS @ '')'')))"

text \<open>The first fault a loop runs into.\<close>

fun first_fault :: "('a \<Rightarrow> 'e option) \<Rightarrow> 'a list \<Rightarrow> 'e option" where
  "first_fault f [] = None"
| "first_fault f (x # xs) = (case f x of Some e \<Rightarrow> Some e | None \<Rightarrow> first_fault f xs)"

definition subscribers :: "plugin_manifest \<Rightarrow> wasm_payload list" where
  "subscribers m = filter (\<lambda>w. wp_events w \<noteq> []) (man_wasm m)"

definition validate_manifest :: "plugin_manifest \<Rightarrow> plugin_error + unit" where
  "validate_manifest m =
     (if trim (pm_name (man_plugin m)) = [] then Inl (PluginSchema ''plugin.name must not be empty'')
      else if pm_api_version (man_plugin m) \<notin> set SUPPORTED_API_VERSIONS then
        Inl (PluginApiVersion (pm_api_version (man_plugin m)) (join_with '', '' SUPPORTED_API_VERSIONS))
      else if 1 < length (subscribers m) then
        Inl (PluginSchema (show_nat (length (subscribers m))
          @ '' components declare `events`; at most one may, because the host dispatches an event to a plugin by name''))
      else
        (case first_fault (\<lambda>w. first_fault event_fault (wp_events w)) (man_wasm m) of
           Some e \<Rightarrow> Inl e
         | None \<Rightarrow>
             (case first_fault script_fault (man_script m) of
                Some e \<Rightarrow> Inl e
              | None \<Rightarrow> (case first_fault mcp_fault (man_mcp m) of Some e \<Rightarrow> Inl e | None \<Rightarrow> Inr ()))))"

definition unknown_sections :: "plugin_lib \<Rightarrow> string \<Rightarrow> string list" where
  "unknown_sections lib raw =
     (case toml_keys lib raw of
        None \<Rightarrow> []
      | Some ks \<Rightarrow>
          filter (\<lambda>k. k \<notin> set KNOWN_SECTIONS) (filter (\<lambda>k. \<not> prefix HOST_SECTION_PREFIX k) ks))"

text \<open>\<open>std::fs::read_to_string\<close>.\<close>

definition std_read_to_string :: "path \<Rightarrow> disk \<Rightarrow> string + string" where
  "std_read_to_string p d =
     (case std_read p d of
        Inl k \<Rightarrow> Inl (dk_words d k)
      | Inr (Utf8 s) \<Rightarrow> Inr s
      | Inr (Raw bs) \<Rightarrow> Inl (dk_utf8_words d bs))"

definition plugin_load :: "plugin_lib \<Rightarrow> path \<Rightarrow> path \<Rightarrow> disk \<Rightarrow> plugin_error + plugin" where
  "plugin_load lib root manifest_path d =
     (case std_read_to_string manifest_path d of
        Inl e \<Rightarrow> Inl (PluginIo e)
      | Inr raw \<Rightarrow>
          (case toml_manifest lib raw of
             Inl e \<Rightarrow> Inl (PluginToml e)
           | Inr m \<Rightarrow>
               (case validate_manifest m of
                  Inl e \<Rightarrow> Inl e
                | Inr _ \<Rightarrow> Inr \<lparr>pl_root = root, pl_manifest = m\<rparr>)))"

definition plugin_name :: "plugin \<Rightarrow> string" where
  "plugin_name p = pm_name (man_plugin (pl_manifest p))"

definition scene_id :: "plugin \<Rightarrow> string option" where
  "scene_id p = map_option (\<lambda>_. ''plugin:'' @ plugin_name p) (ss_own (man_scene (pl_manifest p)))"

definition plugin_path :: "plugin \<Rightarrow> path \<Rightarrow> path" where
  "plugin_path p rel = path_join (pl_root p) rel"

section \<open>The disclosure\<close>

definition MAX_DESCRIPTION_CHARS :: int where
  "MAX_DESCRIPTION_CHARS = 500"

definition MAX_PROMPT_CHARS :: int where
  "MAX_PROMPT_CHARS = 40000"

record visible_text =
  vt_origin :: string
  vt_text :: string

record disclosure =
  di_plugin :: string
  di_version :: string
  di_model_visible :: "visible_text list"
  di_capabilities :: "string list"
  di_events :: "string list"
  di_scene :: "string option"
  di_mcp_servers :: "string list"

definition push_text :: "string \<Rightarrow> string \<Rightarrow> int \<Rightarrow> disclosure \<Rightarrow> plugin_error + disclosure" where
  "push_text origin body limit d =
     (if limit < int (length body) then
        Inl (PluginSchema (origin @ '' is '' @ show_nat (length body) @ '' characters, over the ''
          @ show_nat (nat limit) @ '' allowed for text that reaches the model''))
      else Inr (d\<lparr>di_model_visible := di_model_visible d @ [\<lparr>vt_origin = origin, vt_text = body\<rparr>]\<rparr>))"

definition describe_capabilities :: "capabilities \<Rightarrow> string list" where
  "describe_capabilities c =
     map (\<lambda>x. ''read files under '' @ x) (cap_fs_read c)
     @ map (\<lambda>x. ''write files under '' @ x) (cap_fs_write c)
     @ map (\<lambda>x. ''make network requests to '' @ x) (cap_net c)
     @ map (\<lambda>x. ''read the environment variable '' @ x) (cap_env c)"

definition script_line :: "script_payload \<Rightarrow> string" where
  "script_line s = ''run its own JavaScript at the `'' @ scp_point s @ ''` extension point''"

definition server_line :: "mcp_payload \<Rightarrow> string" where
  "server_line s =
     mp_name s @ '' ('' @ (case mp_kind s of McpNative \<Rightarrow> ''native'' | McpDsh \<Rightarrow> ''dsh'') @ '')''"

text \<open>A prompt that cannot be read is passed over.\<close>

definition push_prompt :: "string \<Rightarrow> path \<Rightarrow> disk \<Rightarrow> disclosure \<Rightarrow> plugin_error + disclosure" where
  "push_prompt origin p d di =
     (case std_read_to_string p d of
        Inl _ \<Rightarrow> Inr di
      | Inr body \<Rightarrow> push_text origin body MAX_PROMPT_CHARS di)"

definition push_described :: "string \<Rightarrow> string \<Rightarrow> disclosure \<Rightarrow> plugin_error + disclosure" where
  "push_described origin body di =
     (if body = [] then Inr di else push_text origin body MAX_DESCRIPTION_CHARS di)"

definition disclose_agent :: "plugin \<Rightarrow> disk \<Rightarrow> plugin_agent_def \<Rightarrow> disclosure \<Rightarrow> plugin_error + disclosure" where
  "disclose_agent p d a di =
     (case push_text (''agent `'' @ pa_name a @ ''` description'') (pa_description a) MAX_DESCRIPTION_CHARS di of
        Inl e \<Rightarrow> Inl e
      | Inr di \<Rightarrow>
          push_prompt (''agent `'' @ pa_name a @ ''` system prompt'') (plugin_path p (pa_prompt a)) d di)"

fun disclose_agents :: "plugin \<Rightarrow> disk \<Rightarrow> plugin_agent_def list \<Rightarrow> disclosure \<Rightarrow> plugin_error + disclosure" where
  "disclose_agents p d [] di = Inr di"
| "disclose_agents p d (a # as) di =
     (case disclose_agent p d a di of Inl e \<Rightarrow> Inl e | Inr di \<Rightarrow> disclose_agents p d as di)"

definition disclose_scene :: "plugin \<Rightarrow> disk \<Rightarrow> disclosure \<Rightarrow> plugin_error + disclosure" where
  "disclose_scene p d di =
     (case ss_own (man_scene (pl_manifest p)) of
        None \<Rightarrow> Inr di
      | Some own \<Rightarrow>
          (case push_described ''scene description'' (os_description own) di of
             Inl e \<Rightarrow> Inl e
           | Inr di \<Rightarrow>
               (case push_prompt ''scene system prompt'' (plugin_path p (os_prompt own)) d di of
                  Inl e \<Rightarrow> Inl e
                | Inr di \<Rightarrow>
                    (case os_reminder own of
                       None \<Rightarrow> Inr di
                     | Some rel \<Rightarrow> push_prompt ''scene per-turn reminder'' (plugin_path p rel) d di))))"

definition from_plugin :: "plugin \<Rightarrow> disk \<Rightarrow> plugin_error + disclosure" where
  "from_plugin p d =
     (let m = pl_manifest p;
          di = \<lparr>di_plugin = pm_name (man_plugin m), di_version = pm_version (man_plugin m), di_model_visible = [],
                di_capabilities = [], di_events = [], di_scene = scene_id p, di_mcp_servers = []\<rparr>
      in case push_described ''plugin description'' (pm_description (man_plugin m)) di of
           Inl e \<Rightarrow> Inl e
         | Inr di \<Rightarrow>
             (let di = di\<lparr>di_capabilities := concat (map (\<lambda>w. describe_capabilities (wp_capabilities w)) (man_wasm m))
                            @ map script_line (man_script m),
                          di_events := concat (map wp_events (man_wasm m)),
                          di_mcp_servers := map server_line (man_mcp m)\<rparr>
              in case disclose_agents p d (man_agent m) di of
                   Inl e \<Rightarrow> Inl e
                 | Inr di \<Rightarrow> disclose_scene p d di))"

definition add_tool :: "string \<Rightarrow> string \<Rightarrow> string option \<Rightarrow> disclosure \<Rightarrow> disclosure \<times> plugin_error option" where
  "add_tool tool description doc di =
     (case push_text (''tool `'' @ tool @ ''` description'') description MAX_DESCRIPTION_CHARS di of
        Inl e \<Rightarrow> (di, Some e)
      | Inr di \<Rightarrow>
          (case doc of
             None \<Rightarrow> (di, None)
           | Some body \<Rightarrow>
               (case push_text (''tool `'' @ tool @ ''` guide'') body MAX_PROMPT_CHARS di of
                  Inl e \<Rightarrow> (di, Some e)
                | Inr di \<Rightarrow> (di, None))))"

definition is_inert :: "disclosure \<Rightarrow> bool" where
  "is_inert di \<longleftrightarrow> di_model_visible di = [] \<and> di_capabilities di = [] \<and> di_events di = []
     \<and> di_scene di = None \<and> di_mcp_servers di = []"

section \<open>The servers a package starts\<close>

definition is_file_at :: "path \<Rightarrow> disk \<Rightarrow> bool" where
  "is_file_at p d = (case std_stat p d of Inr (File _ _) \<Rightarrow> True | _ \<Rightarrow> False)"

definition exists_at :: "path \<Rightarrow> disk \<Rightarrow> bool" where
  "exists_at p d = (case std_stat p d of Inr _ \<Rightarrow> True | Inl _ \<Rightarrow> False)"

text \<open>Four directories, from that of the executable upwards; the last step of the walk may find no parent.\<close>

fun search_up :: "nat \<Rightarrow> path \<Rightarrow> path list \<Rightarrow> disk \<Rightarrow> path option" where
  "search_up 0 dir rels d = None"
| "search_up (Suc n) dir rels d =
     (case List.find (\<lambda>c. is_file_at c d) (map (path_join dir) rels) of
        Some c \<Rightarrow> Some c
      | None \<Rightarrow> (case path_parent dir of None \<Rightarrow> None | Some up \<Rightarrow> search_up n up rels d))"

definition search_near_executable :: "plugin_lib \<Rightarrow> path list \<Rightarrow> disk \<Rightarrow> path option" where
  "search_near_executable lib rels d =
     (case current_exe lib of
        None \<Rightarrow> None
      | Some exe \<Rightarrow> (case path_parent exe of None \<Rightarrow> None | Some dir \<Rightarrow> search_up 4 dir rels d))"

definition locate_tool :: "plugin_lib \<Rightarrow> string \<Rightarrow> string \<Rightarrow> disk \<Rightarrow> path option" where
  "locate_tool lib name var d =
     (case env_var lib var of
        Some s \<Rightarrow> (if is_file_at (path_of s) d then Some (path_of s) else search_near_executable lib [path_of name] d)
      | None \<Rightarrow> search_near_executable lib [path_of name] d)"

definition BRIDGE_REL :: string where
  "BRIDGE_REL = ''bridges/atta-dsh-bridge/src/main.js''"

definition locate_bridge :: "plugin_lib \<Rightarrow> path option \<Rightarrow> disk \<Rightarrow> path option" where
  "locate_bridge lib override_path d =
     (let search = search_near_executable lib [path_of BRIDGE_REL, path_of ''atta-dsh-bridge/src/main.js''] d
      in case override_path of
           Some p \<Rightarrow> (if is_file_at p d then Some p else search)
         | None \<Rightarrow> search)"

definition bridge_entry_path :: "plugin_lib \<Rightarrow> disk \<Rightarrow> path option" where
  "bridge_entry_path lib d = locate_bridge lib (map_option path_of (env_var lib ''ATTA_DSH_BRIDGE'')) d"

definition native_config :: "plugin_lib \<Rightarrow> disk \<Rightarrow> plugin \<Rightarrow> mcp_payload \<Rightarrow> json option" where
  "native_config lib d p s =
     (case mp_config s of
        None \<Rightarrow> None
      | Some rel \<Rightarrow>
          (case std_read_to_string (plugin_path p rel) d of Inl _ \<Rightarrow> None | Inr raw \<Rightarrow> json_parse lib raw))"

definition dsh_bridge_config :: "plugin_lib \<Rightarrow> disk \<Rightarrow> plugin \<Rightarrow> mcp_payload \<Rightarrow> json option" where
  "dsh_bridge_config lib d p s =
     (case mp_entry s of
        None \<Rightarrow> None
      | Some rel \<Rightarrow>
          (let entry = plugin_path p rel in
           if \<not> exists_at entry d then None
           else
             (case bridge_entry_path lib d of
                None \<Rightarrow> None
              | Some bridge \<Rightarrow>
                  Some (JObject
                    [(''type'', JString ''stdio''), (''command'', JString ''node''),
                     (''args'', JArray [JString (path_str bridge), JString (path_str entry)]),
                     (''env'', JObject (foldl (\<lambda>kvs (k, v). obj_insert kvs k v) []
                        (List.map_filter (\<lambda>k. map_option (\<lambda>v. (k, JString v)) (env_var lib k)) (mp_env s))))]))))"

definition servers_for :: "plugin_lib \<Rightarrow> disk \<Rightarrow> plugin \<Rightarrow> (string \<times> json) list" where
  "servers_for lib d p =
     List.map_filter (\<lambda>s.
       map_option (\<lambda>config. (plugin_name p @ ''-mcp-'' @ mp_name s, config))
         (case mp_kind s of McpNative \<Rightarrow> native_config lib d p s | McpDsh \<Rightarrow> dsh_bridge_config lib d p s))
       (man_mcp (pl_manifest p))"

end
