(* ===== verification/PluginResolver.thy ===== *)
theory PluginResolver
  imports Prelude "HOL-Library.AList" "HOL-Library.Multiset"
begin

text \<open>
  The order in which plugins are installed: \<open>plugin/src/resolver.rs\<close>.

  The graph and its two working tables are hash maps: association lists whose order of iteration is a
  parameter, a function \<open>ho\<close> that orders the keys.  The queue of \<open>resolve\<close> ends because every name is expanded once; what is left
  to expand is the measure.
\<close>

section \<open>The graph\<close>

record dependency_constraint =
  dc_name :: string
  dc_version_req :: "string option"

definition constraint_new :: "string \<Rightarrow> dependency_constraint" where
  "constraint_new n = \<lparr>dc_name = n, dc_version_req = None\<rparr>"

definition constraint_with_version :: "string \<Rightarrow> string \<Rightarrow> dependency_constraint" where
  "constraint_with_version n v = \<lparr>dc_name = n, dc_version_req = Some v\<rparr>"

record dependency_node =
  dn_constraint :: dependency_constraint
  dn_resolved_version :: "string option"
  dn_deps :: "dependency_constraint list"

record resolved_plugin =
  rp_name :: string
  rp_version :: string

record resolved_graph =
  install_order :: "resolved_plugin list"
  cycles :: "string list list"

type_synonym dependency_graph = "(string \<times> dependency_node) list"

definition add_root :: "string \<Rightarrow> string \<Rightarrow> dependency_constraint list \<Rightarrow> dependency_graph \<Rightarrow> dependency_graph" where
  "add_root n v ds g =
     AList.update n \<lparr>dn_constraint = constraint_new n, dn_resolved_version = Some v, dn_deps = ds\<rparr> g"

definition add_dependency ::
  "dependency_constraint \<Rightarrow> string \<Rightarrow> dependency_constraint list \<Rightarrow> dependency_graph \<Rightarrow> dependency_graph" where
  "add_dependency c v ds g =
     AList.update (dc_name c) \<lparr>dn_constraint = c, dn_resolved_version = Some v, dn_deps = ds\<rparr> g"

section \<open>Kahn's algorithm\<close>

text \<open>A hash map in the order \<open>ho\<close> gives its keys.\<close>

definition hash_iter :: "('k list \<Rightarrow> 'k list) \<Rightarrow> ('k \<times> 'v) list \<Rightarrow> ('k \<times> 'v) list" where
  "hash_iter ho m = map (\<lambda>k. (k, the (map_of m k))) (ho (map fst m))"

type_synonym degrees = "(string \<times> nat) list"
type_synonym adjacency = "(string \<times> string list) list"

definition entry_or :: "string \<Rightarrow> 'v \<Rightarrow> (string \<times> 'v) list \<Rightarrow> (string \<times> 'v) list" where
  "entry_or k v m = (if map_of m k = None then AList.update k v m else m)"

definition count_dep :: "string \<Rightarrow> dependency_constraint \<Rightarrow> degrees \<times> adjacency \<Rightarrow> degrees \<times> adjacency" where
  "count_dep n d t =
     (let deg = entry_or n 0 (fst t); adj = entry_or (dc_name d) [] (snd t)
      in (AList.update n (the (map_of deg n) + 1) deg,
          AList.update (dc_name d) (the (map_of adj (dc_name d)) @ [n]) adj))"

definition count_node :: "string \<times> dependency_node \<Rightarrow> degrees \<times> adjacency \<Rightarrow> degrees \<times> adjacency" where
  "count_node e t = fold (count_dep (fst e)) (dn_deps (snd e)) (entry_or (fst e) 0 (fst t), snd t)"

definition count_edges :: "(string list \<Rightarrow> string list) \<Rightarrow> dependency_graph \<Rightarrow> degrees \<times> adjacency" where
  "count_edges ho g = fold count_node (hash_iter ho g) ([], [])"

text \<open>The neighbours of an installed name each lose a dependency; those with none left are queued.\<close>

fun relax :: "string list \<Rightarrow> degrees \<times> string list \<Rightarrow> degrees \<times> string list" where
  "relax [] s = s"
| "relax (m # ms) (deg, queue) =
     (case map_of deg m of
        None \<Rightarrow> relax ms (deg, queue)
      | Some k \<Rightarrow>
          relax ms (AList.update m (k - 1) deg, if k - 1 = 0 then queue @ [m] else queue))"

definition resolved_of :: "dependency_graph \<Rightarrow> string \<Rightarrow> resolved_plugin list" where
  "resolved_of g n =
     (case map_of g n of
        None \<Rightarrow> []
      | Some node \<Rightarrow>
          [\<lparr>rp_name = n, rp_version = (case dn_resolved_version node of Some v \<Rightarrow> v | None \<Rightarrow> ''latest'')\<rparr>])"

definition neighbours :: "adjacency \<Rightarrow> string \<Rightarrow> string list" where
  "neighbours adj n = (case map_of adj n of Some ms \<Rightarrow> ms | None \<Rightarrow> [])"

definition still_to_expand :: "adjacency \<Rightarrow> string list \<Rightarrow> nat" where
  "still_to_expand adj done_names =
     sum_list (map (\<lambda>e. if fst e \<in> set done_names then 0 else length (snd e)) adj)"

lemma relax_queue_length: "length (snd (relax ms s)) \<le> length (snd s) + length ms"
proof (induction ms s rule: relax.induct)
  case (2 m ms deg queue)
  show ?case
  proof (cases "map_of deg m")
    case None
    then show ?thesis
      using 2(1) by simp
  next
    case (Some k)
    have "length (snd (relax ms (AList.update m (k - 1) deg, if k - 1 = 0 then queue @ [m] else queue)))
          \<le> length (if k - 1 = 0 then queue @ [m] else queue) + length ms"
      using 2(2)[OF Some] by simp
    then show ?thesis
      using Some by (auto split: if_splits)
  qed
qed simp

lemma expand_name:
  assumes "n \<notin> set P"
  shows "still_to_expand adj (n # P) + length (neighbours adj n) \<le> still_to_expand adj P"
  using assms
proof (induction adj)
  case (Cons e adj)
  have mono: "still_to_expand adj (n # P) \<le> still_to_expand adj P"
    unfolding still_to_expand_def by (rule sum_list_mono) auto
  show ?case
  proof (cases "fst e = n")
    case True
    then show ?thesis
      using mono Cons.prems by (cases e) (simp add: still_to_expand_def neighbours_def)
  next
    case False
    then show ?thesis
      using Cons.IH[OF Cons.prems] by (cases e) (auto simp: still_to_expand_def neighbours_def)
  qed
qed (simp add: still_to_expand_def neighbours_def)

function kahn ::
  "dependency_graph \<Rightarrow> adjacency \<Rightarrow> degrees \<Rightarrow> string list \<Rightarrow> string list \<Rightarrow> resolved_plugin list
   \<Rightarrow> degrees \<times> resolved_plugin list" where
  "kahn g adj deg [] processed order = (deg, order)"
| "kahn g adj deg (n # queue) processed order =
     (if n \<in> set processed then kahn g adj deg queue processed order
      else
        (let s = relax (neighbours adj n) (deg, queue)
         in kahn g adj (fst s) (snd s) (n # processed) (order @ resolved_of g n)))"
  by pat_completeness auto

termination
proof (relation "measure (\<lambda>(g, adj, deg, queue, P, order). length queue + still_to_expand adj P)", goal_cases)
  case (3 g adj deg n queue P order s)
  have "length (snd s) \<le> length queue + length (neighbours adj n)"
    using relax_queue_length[of "neighbours adj n" "(deg, queue)"] 3 by simp
  moreover have "still_to_expand adj (n # P) + length (neighbours adj n) \<le> still_to_expand adj P"
    using 3 by (intro expand_name)
  ultimately show ?case
    by simp
qed auto

definition resolve_plugins ::
  "(string list \<Rightarrow> string list) \<Rightarrow> (string list \<Rightarrow> string list) \<Rightarrow> dependency_graph \<Rightarrow> resolved_graph" where
  "resolve_plugins ho ho' g =
     (let tables = count_edges ho g;
          queue = map fst (filter (\<lambda>e. snd e = 0) (hash_iter ho' (fst tables)));
          s = kahn g (snd tables) (fst tables) queue [] []
      in \<lparr>install_order = snd s,
          cycles = map (\<lambda>e. [fst e]) (filter (\<lambda>e. 0 < snd e) (hash_iter ho' (fst s)))\<rparr>)"

end
