(* ===== verification/PluginStore.thy ===== *)
theory PluginStore
  imports PluginManifest PluginResolver TeamRegistry
begin

text \<open>
  Installed plugins: names that imitate others (\<open>plugin/src/homograph.rs\<close>), the cache (\<open>cache.rs\<close>), what is enabled
  (\<open>state.rs\<close>), discovery (\<open>discovery.rs\<close>), registries (\<open>marketplace.rs\<close>), fetching an archive (\<open>fetch.rs\<close>) and the commands
  over them (\<open>cli.rs\<close>).

  Names are lists of code points here, since the check of a name is about characters beyond Latin-1; \<open>utf8_text\<close> is what
  they are in a path or a message.  Directory listings, the reader of versions, the hash, the archive reader, the network and the
  reader of an index are parameters, in \<open>store_lib\<close>.
\<close>

section \<open>Names\<close>

type_synonym ustring = "nat list"

definition utf8_char :: "nat \<Rightarrow> string" where
  "utf8_char n =
     (if n < 0x80 then [char_of n]
      else if n < 0x800 then [char_of (0xC0 + n div 64), char_of (0x80 + n mod 64)]
      else if n < 0x10000 then
        [char_of (0xE0 + n div 4096), char_of (0x80 + n div 64 mod 64), char_of (0x80 + n mod 64)]
      else
        [char_of (0xF0 + n div 262144), char_of (0x80 + n div 4096 mod 64), char_of (0x80 + n div 64 mod 64),
         char_of (0x80 + n mod 64)])"

definition utf8_text :: "ustring \<Rightarrow> string" where
  "utf8_text s = concat (map utf8_char s)"

definition quoted :: "ustring \<Rightarrow> string" where
  "quoted s = [CHR 0x27] @ utf8_text s @ [CHR 0x27]"

definition ascii :: "string \<Rightarrow> ustring" where
  "ascii s = map of_char s"

definition CONFUSABLE_MAP :: "(nat \<times> nat list) list" where
  "CONFUSABLE_MAP =
     [(of_char CHR ''a'', [0x0430, 0x0251, 0x03B1]), (of_char CHR ''c'', [0x0441, 0x03F2, 0x03C2]),
      (of_char CHR ''e'', [0x0435, 0x0451]), (of_char CHR ''i'', [0x0456, 0x026A, 0x0438]),
      (of_char CHR ''j'', [0x0458]), (of_char CHR ''k'', [0x043A]), (of_char CHR ''m'', [0x043C]),
      (of_char CHR ''n'', [0x03B7]), (of_char CHR ''o'', [0x043E, 0x03BF, 0x0585]),
      (of_char CHR ''p'', [0x0440]), (of_char CHR ''s'', [0x0455]), (of_char CHR ''t'', [0x0442]),
      (of_char CHR ''u'', [0x03BD]), (of_char CHR ''x'', [0x0445]), (of_char CHR ''y'', [0x0443]),
      (of_char CHR ''A'', [0x0410, 0x0391]), (of_char CHR ''B'', [0x0412]), (of_char CHR ''C'', [0x0421]),
      (of_char CHR ''E'', [0x0415, 0x0395]), (of_char CHR ''H'', [0x041D, 0x0397]),
      (of_char CHR ''I'', [0x0406, 0x0399]), (of_char CHR ''K'', [0x041A]), (of_char CHR ''M'', [0x041C]),
      (of_char CHR ''O'', [0x041E, 0x039F]), (of_char CHR ''P'', [0x0420]), (of_char CHR ''T'', [0x0422]),
      (of_char CHR ''X'', [0x0425]), (of_char CHR ''Y'', [0x0423])]"

definition BLOCKLIST :: "string list" where
  "BLOCKLIST =
     [''evil-plugin'', ''malware'', ''ransomware'', ''keylogger'', ''password-stealer'', ''crypto-miner'',
      ''trojan'', ''spyware'', ''backdoor'', ''rootkit'', ''credential-harvester'', ''data-exfiltrator'',
      ''injector'', ''shell-reverse'']"

definition normalize_char :: "(nat list \<Rightarrow> nat list) \<Rightarrow> nat \<Rightarrow> nat" where
  "normalize_char ho c =
     (case List.find (\<lambda>e. c \<in> set (snd e)) (hash_iter ho CONFUSABLE_MAP) of Some e \<Rightarrow> fst e | None \<Rightarrow> c)"

definition normalize_name :: "(nat list \<Rightarrow> nat list) \<Rightarrow> ustring \<Rightarrow> ustring" where
  "normalize_name ho name = map (normalize_char ho) name"

definition check_homograph_name :: "(nat list \<Rightarrow> nat list) \<Rightarrow> ustring \<Rightarrow> ustring list \<Rightarrow> string option" where
  "check_homograph_name ho name officials =
     (let normalized = normalize_name ho name in
      map_option (\<lambda>official. ''name '' @ quoted name @ '' is a homograph of official '' @ quoted official)
        (List.find (\<lambda>official. normalized = official \<and> name \<noteq> official) officials))"

definition check_blocklist :: "(nat list \<Rightarrow> nat list) \<Rightarrow> ustring \<Rightarrow> string option" where
  "check_blocklist ho name = List.find (\<lambda>blocked. normalize_name ho name = ascii blocked) BLOCKLIST"

section \<open>The cache\<close>

record zip_entry =
  ze_enclosed_name :: "path option"
  ze_is_dir :: bool
  ze_body :: content
  ze_fault :: "string option"

record registry_entry =
  re_name :: ustring
  re_version :: string
  re_description :: string
  re_download_url :: string
  re_checksum :: "string option"
  re_dependencies :: "ustring list"

record 'v store_lib =
  sl_order :: "nat list \<Rightarrow> nat list"
  sl_list_dir :: "path \<Rightarrow> disk \<Rightarrow> string list option"
  sl_semver :: "string \<Rightarrow> 'v option"
  sl_sha256_hex :: "content \<Rightarrow> string"
  sl_unzip :: "content \<Rightarrow> string + (string + zip_entry) list"
  sl_get :: "string \<Rightarrow> string + (nat \<times> content)"
  sl_entries :: "content \<Rightarrow> string + registry_entry list"
  sl_now :: nat

definition is_dir_at :: "path \<Rightarrow> disk \<Rightarrow> bool" where
  "is_dir_at p d = (case std_stat p d of Inr Dir \<Rightarrow> True | _ \<Rightarrow> False)"

text \<open>\<open>remove_dir_all\<close> and \<open>remove_dir\<close>.\<close>

definition std_remove_dir_all :: "path \<Rightarrow> disk \<Rightarrow> io_kind + disk" where
  "std_remove_dir_all p d =
     (case dk_refuses d OpRemove p of
        Some k \<Rightarrow> Inl k
      | None \<Rightarrow>
          (case node_at d p of
             None \<Rightarrow> Inl NotFound
           | Some (File _ _) \<Rightarrow> Inl OtherKind
           | Some Dir \<Rightarrow>
               Inr (d\<lparr>dk_node := (\<lambda>q. if prefix (dk_real d p) q then None else dk_node d q)\<rparr>)))"

definition std_remove_dir :: "'v store_lib \<Rightarrow> path \<Rightarrow> disk \<Rightarrow> io_kind + disk" where
  "std_remove_dir lib p d =
     (case dk_refuses d OpRemove p of
        Some k \<Rightarrow> Inl k
      | None \<Rightarrow>
          (if node_at d p = Some Dir \<and> sl_list_dir lib p d = Some [] then Inr (put_node (dk_real d p) None d)
           else Inl OtherKind))"

definition version_dir :: "path \<Rightarrow> string \<Rightarrow> string \<Rightarrow> path" where
  "version_dir root name version = path_join (path_join root (path_of name)) (path_of version)"

definition cached_manifest :: "path \<Rightarrow> string \<Rightarrow> string \<Rightarrow> disk \<Rightarrow> path option" where
  "cached_manifest root name version d =
     (let p = path_join (version_dir root name version) (path_of ''plugin.toml'')
      in if is_file_at p d then Some p else None)"

definition is_cached :: "path \<Rightarrow> string \<Rightarrow> string \<Rightarrow> disk \<Rightarrow> bool" where
  "is_cached root name version d = is_file_at (path_join (version_dir root name version) (path_of ''plugin.toml'')) d"

definition ensure_dirs :: "path \<Rightarrow> disk \<Rightarrow> plugin_error + disk" where
  "ensure_dirs root d =
     (case std_create_dir_all root d of
        Inl k \<Rightarrow> Inl (PluginIo (''failed to create cache dir: '' @ dk_words d k))
      | Inr d' \<Rightarrow> Inr d')"

definition version_before :: "('v::linorder) store_lib \<Rightarrow> string \<Rightarrow> string \<Rightarrow> bool" where
  "version_before lib a b =
     (case (sl_semver lib a, sl_semver lib b) of
        (Some x, Some y) \<Rightarrow> y \<le> x
      | (Some _, None) \<Rightarrow> True
      | (None, Some _) \<Rightarrow> False
      | (None, None) \<Rightarrow> str_le a b)"

definition list_versions :: "('v::linorder) store_lib \<Rightarrow> path \<Rightarrow> string \<Rightarrow> disk \<Rightarrow> string list" where
  "list_versions lib root name d =
     (let dir = path_join root (path_of name) in
      if \<not> is_dir_at dir d then []
      else
        (case sl_list_dir lib dir d of
           None \<Rightarrow> []
         | Some es \<Rightarrow>
             sort_by (version_before lib)
               (filter (\<lambda>v. is_dir_at (path_push dir (Normal v)) d \<and> v \<noteq> ''latest'') es)))"

definition remove_version :: "'v store_lib \<Rightarrow> path \<Rightarrow> string \<Rightarrow> string \<Rightarrow> disk \<Rightarrow> plugin_error + disk" where
  "remove_version lib root name version d =
     (let dir = version_dir root name version;
          plugin_dir = path_join root (path_of name)
      in case (if is_dir_at dir d then std_remove_dir_all dir d else Inr d) of
           Inl k \<Rightarrow> Inl (PluginIo (''failed to remove cached plugin: '' @ dk_words d k))
         | Inr d' \<Rightarrow>
             Inr (if is_dir_at plugin_dir d' \<and> sl_list_dir lib plugin_dir d' = Some [] then
                    (case std_remove_dir lib plugin_dir d' of Inl _ \<Rightarrow> d' | Inr d'' \<Rightarrow> d'')
                  else d'))"

definition cache_registry_index :: "'v store_lib \<Rightarrow> path \<Rightarrow> string \<Rightarrow> disk \<Rightarrow> plugin_error + disk" where
  "cache_registry_index lib root index_json d =
     (case std_write (sl_now lib) (path_join root (path_of ''registry.json'')) (Utf8 index_json) d of
        Inl k \<Rightarrow> Inl (PluginIo (''failed to cache registry index: '' @ dk_words d k))
      | Inr d' \<Rightarrow> Inr d')"

definition load_registry_index :: "path \<Rightarrow> disk \<Rightarrow> string option" where
  "load_registry_index root d =
     (case std_read_to_string (path_join root (path_of ''registry.json'')) d of Inl _ \<Rightarrow> None | Inr s \<Rightarrow> Some s)"

definition total_cached :: "'v store_lib \<Rightarrow> path \<Rightarrow> disk \<Rightarrow> nat" where
  "total_cached lib root d =
     (case sl_list_dir lib root d of
        None \<Rightarrow> 0
      | Some es \<Rightarrow>
          sum_list (map (\<lambda>e.
            (let p = path_push root (Normal e) in
             if is_dir_at p d \<and> e \<noteq> ''registry.json'' then
               (case sl_list_dir lib p d of
                  None \<Rightarrow> 0
                | Some vs \<Rightarrow> length (filter (\<lambda>v. is_dir_at (path_push p (Normal v)) d \<and> v \<noteq> ''latest'') vs))
             else 0)) es))"

section \<open>Enabled or not\<close>

text \<open>A tier's file as the map \<open>load\<close> reads it; \<open>parse\<close> and \<open>print\<close> are \<open>serde_json\<close> on such maps.\<close>

definition enable_path :: "path \<Rightarrow> path" where
  "enable_path tier_root = path_join tier_root (path_of ''enabled.json'')"

definition enable_load :: "(string \<Rightarrow> (string \<times> bool) list option) \<Rightarrow> path \<Rightarrow> disk \<Rightarrow> (string \<times> bool) list" where
  "enable_load parse tier d =
     (case std_read_to_string (enable_path tier) d of
        Inl _ \<Rightarrow> []
      | Inr raw \<Rightarrow> (case parse raw of None \<Rightarrow> [] | Some m \<Rightarrow> m))"

definition enable_save ::
  "((string \<times> bool) list \<Rightarrow> string + string) \<Rightarrow> nat \<Rightarrow> path \<Rightarrow> (string \<times> bool) list \<Rightarrow> disk
   \<Rightarrow> (plugin_error + unit) \<times> disk" where
  "enable_save print now tier m d =
     (case (case path_parent (enable_path tier) of None \<Rightarrow> Inr d | Some q \<Rightarrow> std_create_dir_all q d) of
        Inl k \<Rightarrow> (Inl (PluginIo (dk_words d k)), d)
      | Inr d1 \<Rightarrow>
          (case print m of
             Inl e \<Rightarrow> (Inl (PluginSchema (''failed to serialize plugin enable state: '' @ e)), d1)
           | Inr s \<Rightarrow>
               (case std_write now (enable_path tier) (Utf8 s) d1 of
                  Inl k \<Rightarrow> (Inl (PluginIo (dk_words d1 k)), d1)
                | Inr d2 \<Rightarrow> (Inr (), d2))))"

definition enable_get :: "(string \<Rightarrow> (string \<times> bool) list option) \<Rightarrow> path \<Rightarrow> string \<Rightarrow> disk \<Rightarrow> bool option" where
  "enable_get parse tier name d = map_of (enable_load parse tier d) name"

definition set_enabled ::
  "(string \<Rightarrow> (string \<times> bool) list option) \<Rightarrow> ((string \<times> bool) list \<Rightarrow> string + string) \<Rightarrow> nat \<Rightarrow> path \<Rightarrow> string
   \<Rightarrow> bool \<Rightarrow> disk \<Rightarrow> (plugin_error + unit) \<times> disk" where
  "set_enabled parse print now tier name enabled d =
     enable_save print now tier (AList.update name enabled (enable_load parse tier d)) d"

definition resolve_enabled :: "(string \<Rightarrow> (string \<times> bool) list option) \<Rightarrow> path \<Rightarrow> path \<Rightarrow> string \<Rightarrow> disk \<Rightarrow> bool" where
  "resolve_enabled parse global scene name d =
     (case enable_get parse scene name d of
        Some b \<Rightarrow> b
      | None \<Rightarrow> (case enable_get parse global name d of Some b \<Rightarrow> b | None \<Rightarrow> True))"

section \<open>Discovery\<close>

definition load_installed :: "('v::linorder) store_lib \<Rightarrow> plugin_lib \<Rightarrow> path \<Rightarrow> disk \<Rightarrow> string \<Rightarrow> plugin option" where
  "load_installed lib plib root d name =
     (let dir = path_push root (Normal name) in
      if \<not> is_dir_at dir d \<or> name = ''registry.json'' then None
      else
        (case list_versions lib root name d of
           [] \<Rightarrow> None
         | version # _ \<Rightarrow>
             (case cached_manifest root name version d of
                None \<Rightarrow> None
              | Some m \<Rightarrow>
                  (case plugin_load plib (path_join dir (path_of version)) m d of Inl _ \<Rightarrow> None | Inr p \<Rightarrow> Some p))))"

definition load_installed_tier :: "('v::linorder) store_lib \<Rightarrow> plugin_lib \<Rightarrow> path \<Rightarrow> disk \<Rightarrow> plugin list" where
  "load_installed_tier lib plib tier d =
     (let root = path_join tier (path_of ''cache'') in
      case sl_list_dir lib root d of
        None \<Rightarrow> []
      | Some es \<Rightarrow> List.map_filter (load_installed lib plib root d) es)"

definition discover_plugins ::
  "(string list \<Rightarrow> string list) \<Rightarrow> ('v::linorder) store_lib \<Rightarrow> plugin_lib \<Rightarrow> path \<Rightarrow> path \<Rightarrow> disk \<Rightarrow> plugin list" where
  "discover_plugins ho lib plib global scene d =
     (let by_name = fold (\<lambda>p. AList.update (plugin_name p) p)
            (load_installed_tier lib plib global d @ load_installed_tier lib plib scene d) []
      in sort_by (\<lambda>a b. str_le (plugin_name a) (plugin_name b)) (map snd (hash_iter ho by_name)))"

section \<open>Registries\<close>

record plugin_source =
  so_download_url :: string
  so_checksum :: "string option"
  so_version :: string

datatype plugin_registry = Registry string | Noop

definition marketplace_new :: "string \<Rightarrow> plugin_registry" where
  "marketplace_new url = Registry (rev (dropWhile (\<lambda>c. c = CHR ''/'') (rev url)))"

definition source_of_entry :: "registry_entry \<Rightarrow> plugin_source" where
  "source_of_entry e = \<lparr>so_download_url = re_download_url e, so_checksum = re_checksum e, so_version = re_version e\<rparr>"

definition fetch_index :: "'v store_lib \<Rightarrow> plugin_registry \<Rightarrow> plugin_error + registry_entry list" where
  "fetch_index lib r =
     (case r of
        Noop \<Rightarrow> Inr []
      | Registry url \<Rightarrow>
          (case sl_get lib (url @ ''/index.json'') of
             Inl e \<Rightarrow> Inl (PluginIo e)
           | Inr (status, body) \<Rightarrow>
               (case sl_entries lib body of
                  Inl e \<Rightarrow> Inl (PluginSchema (''invalid index: '' @ e))
                | Inr es \<Rightarrow> Inr es)))"

definition resolve_source :: "'v store_lib \<Rightarrow> plugin_registry \<Rightarrow> ustring \<Rightarrow> string \<Rightarrow> plugin_error + plugin_source" where
  "resolve_source lib r name version =
     (case r of
        Noop \<Rightarrow>
          Inl (PluginSchema (''no marketplace configured '' @ em_dash @ '' cannot resolve plugin '' @ quoted name))
      | Registry _ \<Rightarrow>
          (case fetch_index lib r of
             Inl e \<Rightarrow> Inl e
           | Inr es \<Rightarrow>
               (case List.find (\<lambda>e. re_name e = name \<and> re_version e = version) es of
                  None \<Rightarrow> Inl (PluginSchema (''plugin '' @ utf8_text name @ ''@'' @ version @ '' not found in registry''))
                | Some e \<Rightarrow> Inr (source_of_entry e))))"

section \<open>Fetching\<close>

definition fetch_bytes :: "'v store_lib \<Rightarrow> string \<Rightarrow> disk \<Rightarrow> plugin_error + content" where
  "fetch_bytes lib url d =
     (case strip_prefix ''file://'' url of
        Some p \<Rightarrow> (case std_read (path_of p) d of Inl k \<Rightarrow> Inl (PluginIo (dk_words d k)) | Inr c \<Rightarrow> Inr c)
      | None \<Rightarrow>
          (case sl_get lib url of
             Inl e \<Rightarrow> Inl (PluginIo (''download failed: '' @ e))
           | Inr (status, body) \<Rightarrow>
               (if 200 \<le> status \<and> status < 300 then Inr body
                else Inl (PluginSchema (''download failed: HTTP '' @ show_nat status @ '' from '' @ url)))))"

definition ascii_lowercase :: "string \<Rightarrow> string" where
  "ascii_lowercase s = map (\<lambda>c. if is_ascii_upper c then lower_char c else c) s"

definition verify_checksum :: "'v store_lib \<Rightarrow> content \<Rightarrow> string \<Rightarrow> plugin_error option" where
  "verify_checksum lib bytes expected_hex =
     (let actual = sl_sha256_hex lib bytes in
      if ascii_lowercase actual \<noteq> ascii_lowercase expected_hex then
        Some (PluginChecksum (''checksum mismatch '' @ em_dash @ '' expected '' @ expected_hex @ '', got '' @ actual))
      else None)"

text \<open>An entry holds what can be read of it and the fault that ends the copy, if any.\<close>

definition extract_entry :: "nat \<Rightarrow> path \<Rightarrow> zip_entry \<Rightarrow> disk \<Rightarrow> plugin_error option \<times> disk" where
  "extract_entry now dest e d =
     (case ze_enclosed_name e of
        None \<Rightarrow> (None, d)
      | Some relative \<Rightarrow>
          (let out = path_join dest relative in
           if ze_is_dir e then
             (case std_create_dir_all out d of Inl k \<Rightarrow> (Some (PluginIo (dk_words d k)), d) | Inr d' \<Rightarrow> (None, d'))
           else
             (case (case path_parent out of None \<Rightarrow> Inr d | Some q \<Rightarrow> std_create_dir_all q d) of
                Inl k \<Rightarrow> (Some (PluginIo (dk_words d k)), d)
              | Inr d1 \<Rightarrow>
                  (case std_write now out (ze_body e) d1 of
                     Inl k \<Rightarrow> (Some (PluginIo (dk_words d1 k)), d1)
                   | Inr d2 \<Rightarrow> (map_option PluginIo (ze_fault e), d2)))))"

fun extract_entries :: "nat \<Rightarrow> path \<Rightarrow> (string + zip_entry) list \<Rightarrow> disk \<Rightarrow> plugin_error option \<times> disk" where
  "extract_entries now dest [] d = (None, d)"
| "extract_entries now dest (Inl m # es) d = (Some (PluginSchema (''invalid plugin archive entry: '' @ m)), d)"
| "extract_entries now dest (Inr e # es) d =
     (case extract_entry now dest e d of
        (Some err, d') \<Rightarrow> (Some err, d')
      | (None, d') \<Rightarrow> extract_entries now dest es d')"

definition extract_zip :: "'v store_lib \<Rightarrow> content \<Rightarrow> path \<Rightarrow> disk \<Rightarrow> plugin_error option \<times> disk" where
  "extract_zip lib bytes dest d =
     (case sl_unzip lib bytes of
        Inl m \<Rightarrow> (Some (PluginSchema (''invalid plugin archive: '' @ m)), d)
      | Inr es \<Rightarrow>
          (case std_create_dir_all dest d of
             Inl k \<Rightarrow> (Some (PluginIo (dk_words d k)), d)
           | Inr d' \<Rightarrow> extract_entries (sl_now lib) dest es d'))"

definition install_from_source ::
  "'v store_lib \<Rightarrow> path \<Rightarrow> ustring \<Rightarrow> plugin_source \<Rightarrow> disk \<Rightarrow> (plugin_error + path) \<times> disk" where
  "install_from_source lib root name source d =
     (if so_checksum source = None \<and> \<not> prefix ''file://'' (so_download_url source) then
        (Inl (PluginChecksum (''plugin '' @ quoted name @ '' has no checksum '' @ em_dash
           @ '' refusing to install from a network source ('' @ so_download_url source @ '') without one'')), d)
      else
        (case fetch_bytes lib (so_download_url source) d of
           Inl e \<Rightarrow> (Inl e, d)
         | Inr bytes \<Rightarrow>
             (case Option.bind (so_checksum source) (verify_checksum lib bytes) of
                Some e \<Rightarrow> (Inl e, d)
              | None \<Rightarrow>
                  (case ensure_dirs root d of
                     Inl e \<Rightarrow> (Inl e, d)
                   | Inr d1 \<Rightarrow>
                       (let dest = version_dir root (utf8_text name) (so_version source) in
                        case extract_zip lib bytes dest d1 of
                          (Some e, d2) \<Rightarrow> (Inl e, d2)
                        | (None, d2) \<Rightarrow> (Inr dest, d2))))))"

end
