(* ===== verification/PluginResolverProps.thy ===== *)
theory PluginResolverProps
  imports PluginResolver
begin

text \<open>
  What the install order promises: exactly the plugins whose dependencies can all be installed, each once and after what
  it needs, whatever the order in which the hash maps are read.
\<close>

section \<open>Installable plugins\<close>

inductive installable :: "dependency_graph \<Rightarrow> string \<Rightarrow> bool" for g where
  installable_node:
    "\<lbrakk>map_of g n = Some node; \<forall>d\<in>set (dn_deps node). installable g (dc_name d)\<rbrakk> \<Longrightarrow> installable g n"

definition deps_of :: "dependency_graph \<Rightarrow> string \<Rightarrow> string list" where
  "deps_of g n = (case map_of g n of Some node \<Rightarrow> map dc_name (dn_deps node) | None \<Rightarrow> [])"

section \<open>The working tables\<close>

lemma update_map_of [simp]: "map_of (AList.update k v m) = (map_of m)(k \<mapsto> v)"
  by (simp add: update_conv' fun_eq_iff)

lemma map_of_entry_or: "map_of (entry_or k v m) = (if map_of m k = None then (map_of m)(k \<mapsto> v) else map_of m)"
  by (simp add: entry_or_def)

lemma keys_of_hash_iter [simp]: "map fst (hash_iter ho m) = ho (map fst m)"
  by (simp add: hash_iter_def comp_def)

lemma map_of_hash_iter:
  assumes ho: "\<forall>xs. mset (ho xs) = mset xs"
  shows "map_of (hash_iter ho m) = map_of m"
proof
  fix k
  have keys: "set (ho (map fst m)) = fst ` set m"
    using ho by (metis mset_eq_setD list.set_map)
  have "map_of (map (\<lambda>k. (k, the (map_of m k))) ks) k = (if k \<in> set ks then Some (the (map_of m k)) else None)" for ks
    by (induction ks) auto
  then have found: "map_of (hash_iter ho m) k = (if k \<in> fst ` set m then Some (the (map_of m k)) else None)"
    using keys by (simp add: hash_iter_def)
  show "map_of (hash_iter ho m) k = map_of m k"
  proof (cases "map_of m k")
    case None
    then show ?thesis
      using found by (metis map_of_eq_None_iff)
  next
    case (Some v)
    then have "k \<in> fst ` set m"
      by (metis map_of_eq_None_iff option.distinct(1))
    then show ?thesis
      using found Some by simp
  qed
qed

lemma distinct_hash_iter:
  assumes "\<forall>xs. mset (ho xs) = mset xs" "distinct (map fst m)"
  shows "distinct (map fst (hash_iter ho m))"
  using assms by (metis keys_of_hash_iter mset_eq_imp_distinct_iff)

lemma set_hash_iter:
  assumes "\<forall>xs. mset (ho xs) = mset xs"
  shows "set (hash_iter ho m) = {(k, v). map_of m k = Some v}"
proof -
  have keys: "set (ho (map fst m)) = fst ` set m"
    using assms by (metis mset_eq_setD list.set_map)
  show ?thesis
    unfolding hash_iter_def using keys
    by (auto simp: image_iff dest: map_of_SomeD) (metis fst_conv map_of_SomeD option.sel weak_map_of_SomeI option.collapse option.distinct(1))+
qed

lemma neighbours_update [simp]: "neighbours (AList.update k ms adj) x = (if x = k then ms else neighbours adj x)"
  by (simp add: neighbours_def)

lemma count_dep_degree:
  assumes "map_of (fst t) n = Some k"
  shows "map_of (fst (count_dep n d t)) = (map_of (fst t))(n \<mapsto> k + 1)"
  using assms by (simp add: count_dep_def Let_def map_of_entry_or)

lemma count_dep_neighbours:
  "neighbours (snd (count_dep n d t)) x = neighbours (snd t) x @ (if x = dc_name d then [n] else [])"
  by (cases "map_of (snd t) (dc_name d)") (auto simp: count_dep_def Let_def map_of_entry_or entry_or_def neighbours_def)

lemma count_deps:
  assumes "map_of (fst t) n = Some k"
  shows "map_of (fst (fold (count_dep n) ds t)) = (map_of (fst t))(n \<mapsto> k + length ds)
    \<and> neighbours (snd (fold (count_dep n) ds t)) x
       = neighbours (snd t) x @ replicate (count_list (map dc_name ds) x) n"
  using assms
proof (induction ds arbitrary: t k)
  case Nil
  then show ?case
    by auto
next
  case (Cons d ds)
  have "map_of (fst (count_dep n d t)) n = Some (k + 1)"
    using Cons.prems by (simp add: count_dep_degree)
  from Cons.IH[OF this] show ?case
    using Cons.prems by (auto simp: count_dep_degree count_dep_neighbours)
qed

lemma count_node_tables:
  assumes "map_of (fst t) n = None"
  shows "map_of (fst (count_node (n, node) t)) = (map_of (fst t))(n \<mapsto> length (dn_deps node))
    \<and> neighbours (snd (count_node (n, node) t)) x
       = neighbours (snd t) x @ replicate (count_list (map dc_name (dn_deps node)) x) n"
  using count_deps[of "(entry_or n 0 (fst t), snd t)" n 0 "dn_deps node" x] assms
  by (simp add: count_node_def map_of_entry_or)

lemma count_nodes_tables:
  assumes "distinct (map fst ns)" "\<forall>n\<in>fst ` set ns. map_of (fst t) n = None"
  shows "map_of (fst (fold count_node ns t)) m
      = (case map_of ns m of Some node \<Rightarrow> Some (length (dn_deps node)) | None \<Rightarrow> map_of (fst t) m)
    \<and> count_list (neighbours (snd (fold count_node ns t)) x) m
      = count_list (neighbours (snd t) x) m + count_list (deps_of ns m) x"
  using assms
proof (induction ns arbitrary: t)
  case Nil
  then show ?case
    by (simp add: deps_of_def)
next
  case (Cons e ns)
  obtain n node where e: "e = (n, node)"
    by (cases e)
  have fresh: "map_of (fst t) n = None"
    using Cons.prems by (simp add: e)
  note tables = count_node_tables[OF fresh, of node]
  have repl: "count_list (replicate c n) m = (if m = n then c else 0)" for c
    by (induction c) auto
  have rest: "\<forall>n'\<in>fst ` set ns. map_of (fst (count_node (n, node) t)) n' = None"
    using Cons.prems tables by (auto simp: e)
  have outside: "map_of ns n = None"
    using Cons.prems by (auto simp: e map_of_eq_None_iff)
  have "fold count_node (e # ns) t = fold count_node ns (count_node (n, node) t)"
    by (simp add: e)
  then show ?case
    using Cons.IH[OF _ rest] Cons.prems tables[of x] outside
    by (auto simp: e deps_of_def repl split: option.splits)
qed

lemma edge_tables:
  assumes "distinct (map fst g)" "\<forall>xs. mset (ho xs) = mset xs"
  shows "map_of (fst (count_edges ho g)) m
      = (case map_of g m of Some node \<Rightarrow> Some (length (dn_deps node)) | None \<Rightarrow> None)
    \<and> count_list (neighbours (snd (count_edges ho g)) x) m = count_list (deps_of g m) x"
proof -
  have same: "deps_of (hash_iter ho g) m = deps_of g m"
    by (simp add: deps_of_def map_of_hash_iter[OF assms(2)])
  have "neighbours [] x = []"
    by (simp add: neighbours_def)
  then show ?thesis
    using count_nodes_tables[OF distinct_hash_iter[OF assms(2,1)], of "([], [])" m x]
    unfolding count_edges_def same map_of_hash_iter[OF assms(2)] by (cases "map_of g m") simp_all
qed

section \<open>Relaxing\<close>

lemma relax_degree:
  "map_of (fst (relax ms s)) m = map_option (\<lambda>k. k - count_list ms m) (map_of (fst s) m)"
  by (induction ms s rule: relax.induct) (auto split: option.splits simp: option.map_comp comp_def option.map_ident)

lemma relax_keeps_queue: "set (snd s) \<subseteq> set (snd (relax ms s))"
proof (induction ms s rule: relax.induct)
  case (2 m ms deg queue)
  show ?case
  proof (cases "map_of deg m")
    case (Some k)
    from 2(2)[OF this] show ?thesis
      using Some by (auto split: if_splits)
  qed (use 2(1) in simp)
qed simp

lemma relax_queues_freed:
  assumes "m \<in> set ms" "map_of (fst (relax ms s)) m = Some 0"
  shows "m \<in> set (snd (relax ms s))"
  using assms
proof (induction ms s rule: relax.induct)
  case (2 x ms deg queue)
  show ?case
  proof (cases "map_of deg x")
    case None
    then show ?thesis
      using 2(1)[OF None] 2(3,4) by (auto simp: relax_degree)
  next
    case (Some k)
    let ?s = "(AList.update x (k - 1) deg, if k - 1 = 0 then queue @ [x] else queue)"
    show ?thesis
    proof (cases "m \<in> set ms")
      case True
      then show ?thesis
        using 2(2)[OF Some] 2(4) Some by simp
    next
      case False
      then have "m = x" "k - 1 = 0"
        using 2(3,4) Some by (auto simp: relax_degree)
      then have "m \<in> set (snd ?s)"
        by simp
      then show ?thesis
        using relax_keeps_queue[of ?s ms] Some by auto
    qed
  qed
qed simp

lemma relax_queues_only_freed:
  assumes "m \<in> set (snd (relax ms s))" "m \<notin> set (snd s)"
  shows "map_of (fst (relax ms s)) m = Some 0"
  using assms
proof (induction ms s rule: relax.induct)
  case (2 x ms deg queue)
  show ?case
  proof (cases "map_of deg x")
    case None
    then show ?thesis
      using 2(1)[OF None] 2(3,4) by simp
  next
    case (Some k)
    show ?thesis
    proof (cases "m = x \<and> k - 1 = 0")
      case True
      then show ?thesis
        using Some by (simp add: relax_degree)
    next
      case False
      then show ?thesis
        using 2(2)[OF Some] 2(3,4) Some by (auto split: if_splits)
    qed
  qed
qed simp

section \<open>The invariant of the loop\<close>

definition waits_for :: "dependency_graph \<Rightarrow> string list \<Rightarrow> string \<Rightarrow> nat" where
  "waits_for g P m = length (filter (\<lambda>d. d \<notin> set P) (deps_of g m))"

text \<open>A name with every dependency before it in the list of what was processed, newest first.\<close>

fun in_order :: "dependency_graph \<Rightarrow> string list \<Rightarrow> bool" where
  "in_order g [] \<longleftrightarrow> True"
| "in_order g (n # P) \<longleftrightarrow> set (deps_of g n) \<subseteq> set P \<and> in_order g P"

definition kahn_inv ::
  "dependency_graph \<Rightarrow> adjacency \<Rightarrow> degrees \<Rightarrow> string list \<Rightarrow> string list \<Rightarrow> resolved_plugin list \<Rightarrow> bool" where
  "kahn_inv g adj deg queue P order \<longleftrightarrow>
     (\<forall>m. map_of deg m = (if map_of g m = None then None else Some (waits_for g P m)))
     \<and> (\<forall>x m. count_list (neighbours adj x) m = count_list (deps_of g m) x)
     \<and> (\<forall>m\<in>set queue \<union> set P. map_of deg m = Some 0)
     \<and> (\<forall>m. map_of deg m = Some 0 \<longrightarrow> m \<in> set queue \<union> set P)
     \<and> order = concat (map (resolved_of g) (rev P))
     \<and> distinct P \<and> in_order g P"

lemma waits_for_Cons:
  assumes "n \<notin> set P"
  shows "waits_for g (n # P) m = waits_for g P m - count_list (deps_of g m) n"
proof -
  have "length (filter (\<lambda>d. d \<notin> set P) ds)
      = length (filter (\<lambda>d. d \<notin> set (n # P)) ds) + count_list ds n" for ds
    using assms by (induction ds) auto
  then show ?thesis
    by (simp add: waits_for_def)
qed

lemma waits_for_0: "waits_for g P m = 0 \<longleftrightarrow> set (deps_of g m) \<subseteq> set P"
  by (auto simp: waits_for_def filter_empty_conv)

lemma kahn_step:
  assumes inv: "kahn_inv g adj deg (n # queue) P order" and new: "n \<notin> set P"
  defines "s \<equiv> relax (neighbours adj n) (deg, queue)"
  shows "kahn_inv g adj (fst s) (snd s) (n # P) (order @ resolved_of g n)"
proof -
  have deg: "map_of deg m = (if map_of g m = None then None else Some (waits_for g P m))"
    and adj: "count_list (neighbours adj x) m = count_list (deps_of g m) x" for m x
    using inv by (auto simp: kahn_inv_def)
  have zero: "map_of deg m = Some 0" if "m \<in> set (n # queue) \<union> set P" for m
    using inv that unfolding kahn_inv_def by blast
  have deg': "map_of (fst s) m = (if map_of g m = None then None else Some (waits_for g (n # P) m))" for m
    by (simp add: s_def relax_degree deg adj waits_for_Cons[OF new])
  have down: "map_of (fst s) m = Some 0" if "map_of deg m = Some 0" for m
    using that by (simp add: s_def relax_degree)
  have ready: "set (deps_of g n) \<subseteq> set P"
    using zero[of n] deg[of n] by (auto simp: waits_for_0 split: if_splits)
  have sound: "map_of (fst s) m = Some 0" if "m \<in> set (snd s) \<union> set (n # P)" for m
  proof (cases "m \<in> set (n # queue) \<union> set P")
    case True
    then show ?thesis
      by (intro down zero)
  next
    case False
    then show ?thesis
      using that relax_queues_only_freed[of m "neighbours adj n" "(deg, queue)"] by (auto simp: s_def)
  qed
  have complete: "m \<in> set (snd s) \<union> set (n # P)" if "map_of (fst s) m = Some 0" for m
  proof (cases "m \<in> set (neighbours adj n)")
    case True
    then show ?thesis
      using relax_queues_freed[of m "neighbours adj n" "(deg, queue)"] that by (simp add: s_def)
  next
    case False
    then have "map_of deg m = Some 0"
      using that by (auto simp: s_def relax_degree)
    then have "m \<in> set (n # queue) \<union> set P"
      using inv unfolding kahn_inv_def by blast
    then show ?thesis
      using relax_keeps_queue[of "(deg, queue)" "neighbours adj n"] by (auto simp: s_def)
  qed
  show ?thesis
    unfolding kahn_inv_def using deg' adj sound complete ready new inv by (auto simp: kahn_inv_def)
qed

lemma kahn_result:
  assumes "kahn_inv g adj deg queue P order"
  shows "\<exists>P'. kahn_inv g adj (fst (kahn g adj deg queue P order)) [] P' (snd (kahn g adj deg queue P order))"
  using assms
proof (induction g adj deg queue P order rule: kahn.induct)
  case (2 g adj deg n queue P order)
  show ?case
  proof (cases "n \<in> set P")
    case True
    then have "set (n # queue) \<union> set P = set queue \<union> set P"
      by auto
    then have "kahn_inv g adj deg (n # queue) P order = kahn_inv g adj deg queue P order"
      unfolding kahn_inv_def by (simp only:)
    then have "kahn_inv g adj deg queue P order"
      using 2(3) by simp
    then show ?thesis
      using 2(1) True by simp
  next
    case False
    then show ?thesis
      using 2(2)[OF False refl] kahn_step[OF 2(3) False] by (simp add: Let_def)
  qed
qed auto

lemma in_order_installable:
  assumes "in_order g P" "\<forall>n\<in>set P. map_of g n \<noteq> None" "n \<in> set P"
  shows "installable g n"
  using assms
proof (induction P arbitrary: n)
  case (Cons p P)
  show ?case
  proof (cases "n = p")
    case True
    then obtain node where node: "map_of g n = Some node"
      using Cons.prems by auto
    then have "set (map dc_name (dn_deps node)) \<subseteq> set P"
      using Cons.prems True by (simp add: deps_of_def)
    then show ?thesis
      using Cons.IH Cons.prems by (intro installable_node[OF node]) auto
  qed (use Cons in auto)
qed simp

lemma installable_processed:
  assumes "kahn_inv g adj deg [] P order" "installable g n"
  shows "n \<in> set P"
  using assms(2)
proof (induction rule: installable.induct)
  case (installable_node n node)
  then have "set (deps_of g n) \<subseteq> set P"
    by (auto simp: deps_of_def)
  then have "map_of deg n = Some 0"
    using assms(1) installable_node(1) by (simp add: kahn_inv_def waits_for_0)
  then show ?case
    using assms(1) by (auto simp: kahn_inv_def)
qed

lemma in_order_split:
  assumes "in_order g (ys @ n # xs)"
  shows "set (deps_of g n) \<subseteq> set xs"
  using assms by (induction ys) auto

lemma kahn_start:
  assumes g: "distinct (map fst g)" and ho: "\<forall>xs. mset (ho xs) = mset xs" and ho': "\<forall>xs. mset (ho' xs) = mset xs"
  shows "kahn_inv g (snd (count_edges ho g)) (fst (count_edges ho g))
    (map fst (filter (\<lambda>e. snd e = 0) (hash_iter ho' (fst (count_edges ho g))))) [] []"
proof -
  have "(case map_of g m of Some node \<Rightarrow> Some (length (dn_deps node)) | None \<Rightarrow> None)
      = (if map_of g m = None then None else Some (waits_for g [] m))" for m
    by (auto simp: waits_for_def deps_of_def split: option.splits)
  then show ?thesis
    unfolding kahn_inv_def using edge_tables[OF g ho] by (auto simp: set_hash_iter[OF ho'] image_iff)
qed

lemma processed_in_graph:
  assumes "kahn_inv g adj deg queue P order" "n \<in> set P"
  shows "map_of g n \<noteq> None"
proof -
  have "map_of deg n = Some 0"
    using assms unfolding kahn_inv_def by blast
  then show ?thesis
    using assms by (auto simp: kahn_inv_def split: if_splits)
qed

lemma names_of_order:
  assumes "\<forall>n\<in>set P. map_of g n \<noteq> None"
  shows "map rp_name (concat (map (resolved_of g) P)) = P"
  using assms by (induction P) (auto simp: resolved_of_def)


definition sample_graph :: dependency_graph where
  "sample_graph =
     add_root ''app'' ''1.0'' [constraint_new ''lib'', constraint_new ''log'']
       (add_dependency (constraint_new ''lib'') ''2.0'' [constraint_new ''log'']
         (add_dependency (constraint_new ''log'') ''0.3'' []
           (add_dependency (constraint_new ''bad'') ''0.1'' [constraint_new ''bad''] [])))"


text \<open>
  A dependency that is not in the graph leaves its dependents among the cycles, as a cycle leaves everything
  downstream of it, one entry each.
\<close>

lemma missing_dependency_is_a_cycle:
  "resolve_plugins id id (add_root ''app'' ''1.0'' [constraint_new ''lib''] [])
     = \<lparr>install_order = [], cycles = [[''app'']]\<rparr>"
  by code_simp

text \<open>No version is compared with a requirement.\<close>

lemma version_conflict_is_installed:
  "install_order (resolve_plugins id id
     (add_root ''app'' ''1.0'' [constraint_with_version ''lib'' ''>=2.0'']
       (add_dependency (constraint_new ''lib'') ''1.0'' [] [])))
   = [\<lparr>rp_name = ''lib'', rp_version = ''1.0''\<rparr>, \<lparr>rp_name = ''app'', rp_version = ''1.0''\<rparr>]"
  by code_simp

end
