(* ===== verification/PluginManifestProps.thy ===== *)
theory PluginManifestProps
  imports PluginManifest
begin

text \<open>
  What a manifest that validates guarantees, that a bound script stays in its package, and that the disclosure shows
  whatever the package adds.
\<close>

section \<open>Validation\<close>

lemma first_fault_None: "first_fault f xs = None \<longleftrightarrow> (\<forall>x\<in>set xs. f x = None)"
  by (induction xs) (auto split: option.splits)

definition script_ok :: "script_payload \<Rightarrow> bool" where
  "script_ok s \<longleftrightarrow> trim (scp_point s) \<noteq> [] \<and> script_file s \<noteq> [] \<and> script_function s \<noteq> []
     \<and> \<not> is_absolute (path_of (script_file s)) \<and> ParentDir \<notin> set (path_of (script_file s))"

lemma script_fault_None: "script_fault s = None \<longleftrightarrow> script_ok s"
  by (auto simp: script_fault_def script_ok_def script_file_def script_function_def Let_def list_ex_iff
      split: option.splits prod.splits)

text \<open>
  A manifest is accepted exactly when its name is not blank, its API version is supported, at
  most one component subscribes, every event is subscribable, every script names a point, a function and a file inside the package, and every
  server has the file its kind needs.
\<close>

theorem manifest_accepted_iff:
  "validate_manifest m = Inr () \<longleftrightarrow>
     trim (pm_name (man_plugin m)) \<noteq> []
     \<and> pm_api_version (man_plugin m) \<in> set SUPPORTED_API_VERSIONS
     \<and> length (filter (\<lambda>w. wp_events w \<noteq> []) (man_wasm m)) \<le> 1
     \<and> (\<forall>w\<in>set (man_wasm m). set (wp_events w) \<subseteq> set SUBSCRIBABLE_EVENTS)
     \<and> (\<forall>s\<in>set (man_script m). script_ok s)
     \<and> (\<forall>s\<in>set (man_mcp m).
          case mp_kind s of McpNative \<Rightarrow> mp_config s \<noteq> None | McpDsh \<Rightarrow> mp_entry s \<noteq> None)"
proof -
  have events: "first_fault (\<lambda>w. first_fault event_fault (wp_events w)) (man_wasm m) = None
      \<longleftrightarrow> (\<forall>w\<in>set (man_wasm m). set (wp_events w) \<subseteq> set SUBSCRIBABLE_EVENTS)"
    by (auto simp: first_fault_None event_fault_def split: if_splits)
  have scripts: "first_fault script_fault (man_script m) = None \<longleftrightarrow> (\<forall>s\<in>set (man_script m). script_ok s)"
    by (simp add: first_fault_None script_fault_None)
  have "mcp_fault s = None
      \<longleftrightarrow> (case mp_kind s of McpNative \<Rightarrow> mp_config s \<noteq> None | McpDsh \<Rightarrow> mp_entry s \<noteq> None)" for s
    by (cases "mp_kind s") (simp_all add: mcp_fault_def)
  then have servers: "first_fault mcp_fault (man_mcp m) = None
      \<longleftrightarrow> (\<forall>s\<in>set (man_mcp m). case mp_kind s of McpNative \<Rightarrow> mp_config s \<noteq> None | McpDsh \<Rightarrow> mp_entry s \<noteq> None)"
    by (simp add: first_fault_None)
  show ?thesis
    unfolding events[symmetric] scripts[symmetric] servers[symmetric]
    by (auto simp: validate_manifest_def subscribers_def split: option.splits)
qed

section \<open>Scripts stay in the package\<close>

lemma relative_path_names:
  assumes "\<not> is_absolute (path_of s)" "ParentDir \<notin> set (path_of s)"
  shows "names_only (filter (\<lambda>c. c \<noteq> CurDir) (path_of s))"
proof -
  have "RootDir \<notin> set (path_of s)"
    using wf_path_of[of s] assms(1) by (cases "path_of s") (auto simp: wf_path_def is_absolute_def)
  then show ?thesis
    using assms(2) wf_path_of[of s]
    by (auto simp: names_only_def list_all_iff wf_path_def split: component.splits) (metis component.exhaust)
qed

text \<open>
  The file of every script of a plugin that loaded lies, once normalised, beneath the plugin's directory.
\<close>

theorem bound_script_stays_in_package:
  assumes "plugin_load lib root manifest_path d = Inr p" "normal_path root" "is_absolute root"
    and "s \<in> set (man_script (pl_manifest p))"
  shows "starts_within (normalize (plugin_path p (path_of (script_file s)))) root"
proof -
  have p: "pl_root p = root" "validate_manifest (pl_manifest p) = Inr ()"
    using assms(1) by (auto simp: plugin_load_def split: sum.splits)
  then have ok: "script_ok s"
    using assms(4) by (simp add: manifest_accepted_iff)
  let ?f = "path_of (script_file s)"
  have names: "names_only (filter (\<lambda>c. c \<noteq> CurDir) ?f)"
    using ok by (intro relative_path_names) (auto simp: script_ok_def)
  have "root \<noteq> []"
    using assms(3) by (auto simp: is_absolute_def)
  then have "plugin_path p ?f = root @ filter (\<lambda>c. c \<noteq> CurDir) ?f"
    using ok p by (simp add: plugin_path_def path_join_def script_ok_def)
  then have "normalize (plugin_path p ?f) = normalize root @ filter (\<lambda>c. c \<noteq> CurDir) ?f"
    by (simp add: normalize_def normalize_fold_names[OF names])
  then show ?thesis
    using assms(2) by (simp add: starts_within_prefix)
qed

section \<open>The disclosure\<close>

definition discloses :: "disclosure \<Rightarrow> string \<Rightarrow> bool" where
  "discloses di body \<longleftrightarrow> (\<exists>v\<in>set (di_model_visible di). vt_text v = body)"

definition within_limits :: "disclosure \<Rightarrow> bool" where
  "within_limits di \<longleftrightarrow> (\<forall>v\<in>set (di_model_visible di). int (length (vt_text v)) \<le> MAX_PROMPT_CHARS)"

definition grows_to :: "disclosure \<Rightarrow> disclosure \<Rightarrow> bool" where
  "grows_to di di' \<longleftrightarrow>
     (\<exists>vs. di' = di\<lparr>di_model_visible := di_model_visible di @ vs\<rparr>
       \<and> (\<forall>v\<in>set vs. int (length (vt_text v)) \<le> MAX_PROMPT_CHARS))"

lemma grows_refl [simp]: "grows_to di di"
  by (auto simp: grows_to_def intro: exI[of _ "[]"])

lemma grows_trans [trans]:
  assumes "grows_to a b" "grows_to b c"
  shows "grows_to a c"
proof -
  from assms(1) obtain vs where vs: "b = a\<lparr>di_model_visible := di_model_visible a @ vs\<rparr>"
    "\<forall>v\<in>set vs. int (length (vt_text v)) \<le> MAX_PROMPT_CHARS"
    unfolding grows_to_def by blast
  from assms(2) obtain ws where ws: "c = b\<lparr>di_model_visible := di_model_visible b @ ws\<rparr>"
    "\<forall>v\<in>set ws. int (length (vt_text v)) \<le> MAX_PROMPT_CHARS"
    unfolding grows_to_def by blast
  show ?thesis
    unfolding grows_to_def using vs ws by (intro exI[of _ "vs @ ws"]) auto
qed

lemma grows_discloses: "grows_to di di' \<Longrightarrow> discloses di body \<Longrightarrow> discloses di' body"
  by (auto simp: grows_to_def discloses_def)

lemma grows_limits: "grows_to di di' \<Longrightarrow> within_limits di \<Longrightarrow> within_limits di'"
  by (auto simp: grows_to_def within_limits_def)

lemma grows_same:
  assumes "grows_to di di'"
  shows "di_capabilities di' = di_capabilities di" "di_events di' = di_events di" "di_scene di' = di_scene di"
    "di_mcp_servers di' = di_mcp_servers di"
  using assms by (auto simp: grows_to_def)

lemma push_text_InrD:
  assumes "push_text origin body limit di = Inr di'" "limit \<le> MAX_PROMPT_CHARS"
  shows "grows_to di di' \<and> discloses di' body"
  using assms by (auto simp: push_text_def grows_to_def discloses_def split: if_splits)

lemma push_described_InrD:
  assumes "push_described origin body di = Inr di'"
  shows "grows_to di di' \<and> (body \<noteq> [] \<longrightarrow> discloses di' body)"
  using assms push_text_InrD[of origin body MAX_DESCRIPTION_CHARS di di']
  by (auto simp: push_described_def MAX_DESCRIPTION_CHARS_def MAX_PROMPT_CHARS_def split: if_splits)

lemma push_prompt_InrD:
  assumes "push_prompt origin p d di = Inr di'"
  shows "grows_to di di' \<and> (\<forall>body. std_read_to_string p d = Inr body \<longrightarrow> discloses di' body)"
  using assms push_text_InrD[of origin _ MAX_PROMPT_CHARS di di'] by (auto simp: push_prompt_def split: sum.splits)

definition agent_disclosed :: "plugin \<Rightarrow> disk \<Rightarrow> disclosure \<Rightarrow> plugin_agent_def \<Rightarrow> bool" where
  "agent_disclosed p d di a \<longleftrightarrow> discloses di (pa_description a)
     \<and> (\<forall>body. std_read_to_string (plugin_path p (pa_prompt a)) d = Inr body \<longrightarrow> discloses di body)"

lemma disclose_agent_InrD:
  assumes "disclose_agent p d a di = Inr di'"
  shows "grows_to di di' \<and> agent_disclosed p d di' a"
proof -
  obtain di1 where 1: "push_text (''agent `'' @ pa_name a @ ''` description'') (pa_description a) MAX_DESCRIPTION_CHARS di = Inr di1"
    and 2: "push_prompt (''agent `'' @ pa_name a @ ''` system prompt'') (plugin_path p (pa_prompt a)) d di1 = Inr di'"
    using assms by (auto simp: disclose_agent_def split: sum.splits)
  have a: "grows_to di di1" "discloses di1 (pa_description a)"
    using push_text_InrD[OF 1] by (simp_all add: MAX_DESCRIPTION_CHARS_def MAX_PROMPT_CHARS_def)
  note b = push_prompt_InrD[OF 2]
  show ?thesis
    unfolding agent_disclosed_def using a b grows_trans grows_discloses by blast
qed

lemma agent_disclosed_grows: "grows_to di di' \<Longrightarrow> agent_disclosed p d di a \<Longrightarrow> agent_disclosed p d di' a"
  by (auto simp: agent_disclosed_def intro: grows_discloses)

lemma disclose_agents_InrD:
  assumes "disclose_agents p d as di = Inr di'"
  shows "grows_to di di' \<and> (\<forall>a\<in>set as. agent_disclosed p d di' a)"
  using assms
proof (induction as arbitrary: di)
  case (Cons a as)
  then obtain di1 where 1: "disclose_agent p d a di = Inr di1" and 2: "disclose_agents p d as di1 = Inr di'"
    by (auto split: sum.splits)
  note step = disclose_agent_InrD[OF 1] and rest = Cons.IH[OF 2]
  have "grows_to di di'"
    using step rest grows_trans by blast
  moreover have "agent_disclosed p d di' a"
    using step rest agent_disclosed_grows by blast
  ultimately show ?case
    using rest by simp
qed simp

definition scene_disclosed :: "plugin \<Rightarrow> disk \<Rightarrow> disclosure \<Rightarrow> own_scene \<Rightarrow> bool" where
  "scene_disclosed p d di own \<longleftrightarrow>
     (os_description own \<noteq> [] \<longrightarrow> discloses di (os_description own))
     \<and> (\<forall>f body. f = os_prompt own \<or> os_reminder own = Some f \<longrightarrow>
          std_read_to_string (plugin_path p f) d = Inr body \<longrightarrow> discloses di body)"

lemma disclose_scene_InrD:
  assumes "disclose_scene p d di = Inr di'"
  shows "grows_to di di' \<and> (\<forall>own. ss_own (man_scene (pl_manifest p)) = Some own \<longrightarrow> scene_disclosed p d di' own)"
proof (cases "ss_own (man_scene (pl_manifest p))")
  case None
  then show ?thesis
    using assms by (simp add: disclose_scene_def)
next
  case (Some own)
  obtain di1 di2 where 1: "push_described ''scene description'' (os_description own) di = Inr di1"
    and 2: "push_prompt ''scene system prompt'' (plugin_path p (os_prompt own)) d di1 = Inr di2"
    and 3: "(case os_reminder own of None \<Rightarrow> Inr di2
        | Some rel \<Rightarrow> push_prompt ''scene per-turn reminder'' (plugin_path p rel) d di2) = Inr di'"
    using assms Some by (auto simp: disclose_scene_def split: sum.splits)
  note a = push_described_InrD[OF 1] and b = push_prompt_InrD[OF 2]
  have c: "grows_to di2 di'"
    "\<forall>f body. os_reminder own = Some f \<longrightarrow> std_read_to_string (plugin_path p f) d = Inr body \<longrightarrow> discloses di' body"
    using 3 push_prompt_InrD[of _ _ d di2 di'] by (auto split: option.splits)
  have "grows_to di di'"
    using a b c grows_trans by blast
  moreover have "scene_disclosed p d di' own"
    unfolding scene_disclosed_def using a b c grows_discloses by blast
  ultimately show ?thesis
    using Some by simp
qed



section \<open>A package\<close>

definition sample_meta :: plugin_meta where
  "sample_meta = \<lparr>pm_name = ''demo'', pm_version = ''1.0.0'', pm_api_version = ''0.1'', pm_description = '''', pm_author = '''',
     pm_homepage = '''', pm_config_schema = None\<rparr>"

definition sample_plugin_agent :: plugin_agent_def where
  "sample_plugin_agent = \<lparr>pa_name = ''reviewer'', pa_description = ''reviews'', pa_prompt = path_of ''../../secret'', pa_allowed_tools = [],
     pa_disallowed_tools = [], pa_model = None, pa_permission_mode = None, pa_effort = None, pa_max_turns = None, pa_scene = None\<rparr>"

definition sample_script :: script_payload where
  "sample_script = \<lparr>scp_point = ''tool.result'', scp_entry = ''js/annotate.js:onResult'', scp_timeout_ms = None, scp_calls_per_turn = None\<rparr>"

definition sample_server :: "string list \<Rightarrow> mcp_payload" where
  "sample_server env = \<lparr>mp_name = ''helper'', mp_kind = McpDsh, mp_config = None, mp_entry = Some (path_of ''index.js''), mp_env = env\<rparr>"

definition sample_manifest :: "plugin_agent_def list \<Rightarrow> string list \<Rightarrow> plugin_manifest" where
  "sample_manifest as env = \<lparr>man_plugin = sample_meta, man_wasm = [], man_mcp = [sample_server env], man_script = [sample_script],
     man_scene = \<lparr>ss_visible_in = [], ss_own = None\<rparr>, man_agent = as\<rparr>"

definition sample_root :: path where
  "sample_root = [RootDir, Normal ''p'', Normal ''demo'']"

definition sample_plugin :: "plugin_agent_def list \<Rightarrow> string list \<Rightarrow> plugin" where
  "sample_plugin as env = \<lparr>pl_root = sample_root, pl_manifest = sample_manifest as env\<rparr>"

definition sample_plugin_lib :: "plugin_manifest \<Rightarrow> plugin_lib" where
  "sample_plugin_lib m = \<lparr>toml_manifest = (\<lambda>_. Inr m), toml_keys = (\<lambda>_. Some [''plugin'', ''x-ui'', ''scripts'']),
     json_parse = (\<lambda>_. None), env_var = (\<lambda>_. None), current_exe = None\<rparr>"

definition text_disk :: "string \<Rightarrow> disk" where
  "text_disk body = \<lparr>dk_node = (\<lambda>_. Some (File (Utf8 body) 0)), dk_real = id, dk_refuses = (\<lambda>_ _. None),
     dk_words = (\<lambda>_. ''no''), dk_utf8_words = (\<lambda>_. ''bad'')\<rparr>"

lemma sample_loads:
  "plugin_load (sample_plugin_lib (sample_manifest as env)) sample_root r (text_disk body) = Inr (sample_plugin as env)"
proof -
  have "validate_manifest (sample_manifest as env) = Inr ()"
    unfolding sample_manifest_def validate_manifest_def by code_simp
  then show ?thesis
    by (simp add: plugin_load_def std_read_to_string_def std_read_def text_disk_def node_at_def sample_plugin_lib_def
        sample_plugin_def)
qed

lemma bound_script_stays_in_package_witness:
  "starts_within (normalize (plugin_path (sample_plugin [] []) (path_of (script_file sample_script)))) sample_root"
proof -
  have "normal_path sample_root"
    by (simp add: normal_path_def sample_root_def names_only_def wf_name_def)
  moreover have "is_absolute sample_root"
    by code_simp
  moreover have "sample_script \<in> set (man_script (pl_manifest (sample_plugin [] [])))"
    by (simp add: sample_plugin_def sample_manifest_def)
  ultimately show ?thesis
    using bound_script_stays_in_package[OF sample_loads] by blast
qed


text \<open>
  Only the file of a script is kept in the package: the prompt of an agent may lie anywhere, and what stands there is
  taken for the prompt.
\<close>

lemma prompt_leaves_package:
  "\<exists>p. plugin_load (sample_plugin_lib (sample_manifest [sample_plugin_agent] [])) sample_root r (text_disk body) = Inr p
     \<and> \<not> starts_within (normalize (plugin_path p (pa_prompt sample_plugin_agent))) sample_root"
proof -
  have "\<not> starts_within (normalize (path_join sample_root (pa_prompt sample_plugin_agent))) sample_root"
    by code_simp
  then show ?thesis
    using sample_loads[of "[sample_plugin_agent]" "[]" r body] by (auto simp: plugin_path_def sample_plugin_def)
qed

text \<open>The variables of the environment a server is handed are not disclosed.\<close>

lemma server_env_is_not_disclosed: "from_plugin (sample_plugin as env) d = from_plugin (sample_plugin as []) d"
proof -
  have agents: "disclose_agents (sample_plugin as env) d xs di = disclose_agents (sample_plugin as []) d xs di" for xs di
    by (induction xs arbitrary: di) (auto simp: disclose_agent_def plugin_path_def sample_plugin_def split: sum.splits)
  show ?thesis
    by (simp add: from_plugin_def Let_def agents sample_plugin_def sample_manifest_def scene_id_def plugin_name_def
        server_line_def sample_server_def disclose_scene_def agents[unfolded sample_plugin_def sample_manifest_def sample_server_def] cong: sum.case_cong)
qed

text \<open>Only a misspelt section is reported.\<close>

lemma sections_of_hosts_are_known: "unknown_sections (sample_plugin_lib m) raw = [''scripts'']"
  by (simp add: unknown_sections_def sample_plugin_lib_def KNOWN_SECTIONS_def HOST_SECTION_PREFIX_def)

end
