(* ===== verification/PluginCommands.thy ===== *)
theory PluginCommands
  imports PluginStore PluginResolverProps PluginManifestProps FileRuns TeamProps
begin

text \<open>
  The commands over installed plugins (\<open>plugin/src/cli.rs\<close>) and what they promise: nothing unverified is
  unpacked, a name that imitates another is refused whatever the order of the table, a scene's plugin wins.
\<close>

section \<open>Commands\<close>

record plugin_command_result =
  pc_success :: bool
  pc_message :: string
  pc_installed_count :: nat
  pc_removed_count :: nat
  pc_updated_count :: nat

definition command_result :: "string \<Rightarrow> nat \<Rightarrow> nat \<Rightarrow> nat \<Rightarrow> plugin_command_result" where
  "command_result msg i r u =
     \<lparr>pc_success = True, pc_message = msg, pc_installed_count = i, pc_removed_count = r, pc_updated_count = u\<rparr>"

definition check_name :: "'v store_lib \<Rightarrow> ustring \<Rightarrow> plugin_error option" where
  "check_name lib name =
     (case check_blocklist (sl_order lib) name of
        Some bad \<Rightarrow>
          Some (PluginHomograph (''plugin name '' @ quoted name @ '' is blocked (matches blocklist entry '' @ quoted (ascii bad) @ '')''))
      | None \<Rightarrow> None)"

definition install_source ::
  "'v store_lib \<Rightarrow> path \<Rightarrow> ustring \<Rightarrow> plugin_source \<Rightarrow> disk \<Rightarrow> (plugin_error + plugin_command_result) \<times> disk" where
  "install_source lib root name source d =
     (case check_name lib name of
        Some e \<Rightarrow> (Inl e, d)
      | None \<Rightarrow>
          (if is_cached root (utf8_text name) (so_version source) d then
             (Inr (command_result (''plugin '' @ quoted name @ '' v'' @ so_version source @ '' is already installed'') 0 0 0), d)
           else
             (case install_from_source lib root name source d of
                (Inl e, d') \<Rightarrow> (Inl e, d')
              | (Inr _, d') \<Rightarrow>
                  (Inr (command_result (''installed plugin '' @ quoted name @ '' v'' @ so_version source @ '' from '' @ so_download_url source) 1 0 0), d'))))"

definition install_plugin ::
  "'v store_lib \<Rightarrow> plugin_registry option \<Rightarrow> path \<Rightarrow> ustring \<Rightarrow> string option \<Rightarrow> disk
   \<Rightarrow> (plugin_error + plugin_command_result) \<times> disk" where
  "install_plugin lib registry root name version d =
     (case check_name lib name of
        Some e \<Rightarrow> (Inl e, d)
      | None \<Rightarrow>
          (case registry of
             None \<Rightarrow>
               (Inl (PluginSchema (''no marketplace configured '' @ em_dash
                  @ '' cannot install plugins by name; use install_source with an explicit download_url instead'')), d)
           | Some r \<Rightarrow>
               (case fetch_index lib r of
                  Inl e \<Rightarrow> (Inl e, d)
                | Inr index \<Rightarrow>
                    (case check_homograph_name (sl_order lib) name (map re_name index) of
                       Some msg \<Rightarrow> (Inl (PluginHomograph msg), d)
                     | None \<Rightarrow>
                         (let v = (case version of Some v \<Rightarrow> v | None \<Rightarrow> ''latest'') in
                          case List.find (\<lambda>e. re_name e = name \<and> (v = ''latest'' \<or> v = ''any'' \<or> re_version e = v)) index of
                            None \<Rightarrow> (Inl (PluginSchema (''plugin '' @ utf8_text name @ ''@'' @ v @ '' not found in registry'')), d)
                          | Some entry \<Rightarrow> install_source lib root name (source_of_entry entry) d)))))"

fun remove_versions :: "'v store_lib \<Rightarrow> path \<Rightarrow> string \<Rightarrow> string list \<Rightarrow> nat \<Rightarrow> disk \<Rightarrow> (plugin_error + nat) \<times> disk" where
  "remove_versions lib root name [] n d = (Inr n, d)"
| "remove_versions lib root name (v # vs) n d =
     (case remove_version lib root name v d of
        Inl e \<Rightarrow> (Inl e, d)
      | Inr d' \<Rightarrow> remove_versions lib root name vs (n + 1) d')"

definition uninstall_plugin ::
  "('v::linorder) store_lib \<Rightarrow> path \<Rightarrow> ustring \<Rightarrow> string option \<Rightarrow> disk \<Rightarrow> (plugin_error + plugin_command_result) \<times> disk" where
  "uninstall_plugin lib root name version d =
     (case version of
        Some v \<Rightarrow>
          (case remove_version lib root (utf8_text name) v d of
             Inl e \<Rightarrow> (Inl e, d)
           | Inr d' \<Rightarrow> (Inr (command_result (''removed plugin '' @ quoted name @ '' v'' @ v) 0 1 0), d'))
      | None \<Rightarrow>
          (case remove_versions lib root (utf8_text name) (list_versions lib root (utf8_text name) d) 0 d of
             (Inl e, d') \<Rightarrow> (Inl e, d')
           | (Inr n, d') \<Rightarrow>
               (Inr (command_result (''removed plugin '' @ quoted name @ '' ('' @ show_nat n @ '' versions)'') 0 n 0), d')))"

definition list_plugins :: "('v::linorder) store_lib \<Rightarrow> path \<Rightarrow> disk \<Rightarrow> string list" where
  "list_plugins lib root d =
     (case sl_list_dir lib root d of
        None \<Rightarrow> []
      | Some es \<Rightarrow>
          List.map_filter (\<lambda>name.
            if is_dir_at (path_push root (Normal name)) d \<and> name \<noteq> ''registry.json'' then
              (case list_versions lib root name d of
                 [] \<Rightarrow> Some (name @ '' (no versions)'')
               | vs \<Rightarrow> Some (name @ '' ('' @ join_with '', '' vs @ '')''))
            else None) es)"

definition update_plugin ::
  "('v::linorder) store_lib \<Rightarrow> plugin_registry option \<Rightarrow> path \<Rightarrow> ustring \<Rightarrow> disk
   \<Rightarrow> (plugin_error + plugin_command_result) \<times> disk" where
  "update_plugin lib registry root name d =
     (let current = (case list_versions lib root (utf8_text name) d of [] \<Rightarrow> None | v # _ \<Rightarrow> Some v) in
      case registry of
        None \<Rightarrow> (Inl (PluginSchema (''no marketplace configured '' @ em_dash @ '' cannot update plugins'')), d)
      | Some r \<Rightarrow>
          (case resolve_source lib r name ''latest'' of
             Inl e \<Rightarrow> (Inl e, d)
           | Inr source \<Rightarrow>
               (if current = Some (so_version source) then
                  (Inr (command_result (''plugin '' @ quoted name @ '' is already at latest v'' @ so_version source) 0 0 0), d)
                else
                  (case install_from_source lib root name source d of
                     (Inl e, d') \<Rightarrow> (Inl e, d')
                   | (Inr _, d') \<Rightarrow>
                       (Inr (command_result (''updated plugin '' @ quoted name @ '' from ''
                          @ (case current of Some v \<Rightarrow> v | None \<Rightarrow> ''not installed'') @ '' to v'' @ so_version source) 0 0 1), d')))))"

section \<open>Names that imitate others\<close>

lemma distinct_concat_disjoint:
  assumes "distinct (concat (map snd m))" "e \<in> set m" "f \<in> set m" "set (snd e) \<inter> set (snd f) \<noteq> {}"
  shows "e = f"
  using assms
proof (induction m)
  case (Cons a m)
  have apart: "set (snd a) \<inter> set (snd x) = {}" if "x \<in> set m" for x
    using Cons.prems(1) that by auto
  show ?case
    using Cons apart[of e] apart[of f] by (cases "e = a"; cases "f = a") auto
qed simp

lemma confusables_disjoint:
  "\<forall>e\<in>set CONFUSABLE_MAP. \<forall>f\<in>set CONFUSABLE_MAP. set (snd e) \<inter> set (snd f) \<noteq> {} \<longrightarrow> e = f"
proof -
  have "distinct (concat (map snd CONFUSABLE_MAP))"
    by (simp add: CONFUSABLE_MAP_def)
  then show ?thesis
    by (blast intro: distinct_concat_disjoint)
qed

lemma confusables_distinct: "distinct (map fst CONFUSABLE_MAP)"
  by code_simp

lemma confusables_not_ascii: "\<forall>e\<in>set CONFUSABLE_MAP. fst e < 128 \<and> (\<forall>c\<in>set (snd e). 128 \<le> c)"
  by code_simp

text \<open>Every character has at most one letter it imitates, so the order of the table does not matter.\<close>

lemma normalize_char_eq:
  assumes "\<forall>xs. mset (ho xs) = mset xs"
  shows "normalize_char ho c = (case List.find (\<lambda>e. c \<in> set (snd e)) CONFUSABLE_MAP of Some e \<Rightarrow> fst e | None \<Rightarrow> c)"
proof -
  have same: "set (hash_iter ho CONFUSABLE_MAP) = set CONFUSABLE_MAP"
    unfolding set_hash_iter[OF assms] by (auto simp: map_of_eq_Some_iff[OF confusables_distinct])
  show ?thesis
  proof (cases "List.find (\<lambda>e. c \<in> set (snd e)) (hash_iter ho CONFUSABLE_MAP)")
    case None
    then have "List.find (\<lambda>e. c \<in> set (snd e)) CONFUSABLE_MAP = None"
      using same by (simp add: find_None_iff)
    then show ?thesis
      using None by (simp add: normalize_char_def)
  next
    case (Some e)
    then have e: "e \<in> set CONFUSABLE_MAP" "c \<in> set (snd e)"
      using same find_SomeD[OF Some] by auto
    then obtain f where f: "List.find (\<lambda>e. c \<in> set (snd e)) CONFUSABLE_MAP = Some f"
      by (metis find_None_iff option.exhaust)
    have "set (snd f) \<inter> set (snd e) \<noteq> {}"
      using find_SomeD[OF f] e by auto
    then have "f = e"
      using bspec[OF bspec[OF confusables_disjoint, of f], of e] find_SomeD[OF f] e by simp
    then show ?thesis
      using Some f by (simp add: normalize_char_def)
  qed
qed

definition imitates :: "nat \<Rightarrow> nat \<Rightarrow> bool" where
  "imitates c a \<longleftrightarrow> (\<exists>cs. (a, cs) \<in> set CONFUSABLE_MAP \<and> c \<in> set cs)"

lemma normalize_char_iff:
  assumes "\<forall>xs. mset (ho xs) = mset xs"
  shows "normalize_char ho c = a \<longleftrightarrow> imitates c a \<or> c = a \<and> (\<forall>b. \<not> imitates c b)"
proof (cases "List.find (\<lambda>e. c \<in> set (snd e)) CONFUSABLE_MAP")
  case None
  then have "\<not> imitates c b" for b
    by (auto simp: imitates_def find_None_iff)
  then show ?thesis
    using None by (auto simp: normalize_char_eq[OF assms])
next
  case (Some e)
  then have e: "e \<in> set CONFUSABLE_MAP" "c \<in> set (snd e)"
    using find_SomeD[OF Some] by auto
  have "imitates c b \<longleftrightarrow> b = fst e" for b
  proof
    assume "imitates c b"
    then obtain cs where cs: "(b, cs) \<in> set CONFUSABLE_MAP" "c \<in> set cs"
      by (auto simp: imitates_def)
    then have "set (snd (b, cs)) \<inter> set (snd e) \<noteq> {}"
      using e by auto
    then show "b = fst e"
      using bspec[OF bspec[OF confusables_disjoint cs(1)] e(1)] by auto
  next
    assume "b = fst e"
    then show "imitates c b"
      using e by (cases e) (auto simp: imitates_def)
  qed
  then show ?thesis
    using Some by (auto simp: normalize_char_eq[OF assms])
qed

text \<open>
  A name is refused as a homograph exactly when it differs from an official name and each of its characters is
  the official one or imitates it, whatever the order in which the table of confusable characters is read.
\<close>

theorem homograph_check_is_exact:
  assumes "\<forall>xs. mset (ho xs) = mset xs"
  shows "check_homograph_name ho name officials \<noteq> None \<longleftrightarrow>
    (\<exists>official\<in>set officials. name \<noteq> official
       \<and> list_all2 (\<lambda>c a. imitates c a \<or> c = a \<and> (\<forall>b. \<not> imitates c b)) name official)"
proof -
  have "normalize_name ho name = official
      \<longleftrightarrow> list_all2 (\<lambda>c a. imitates c a \<or> c = a \<and> (\<forall>b. \<not> imitates c b)) name official" for official
  proof (induction name arbitrary: official)
    case Nil
    then show ?case
      by (auto simp: normalize_name_def)
  next
    case (Cons c cs)
    then show ?case
      by (cases official) (simp_all add: normalize_name_def normalize_char_iff[OF assms])
  qed
  then show ?thesis
    by (auto simp: check_homograph_name_def Let_def find_None_iff)
qed

lemma homograph_check_is_exact_witness:
  "check_homograph_name id (ascii ''att'' @ [0x0430] @ ascii ''plugin'') [ascii ''attaplugin''] \<noteq> None
   \<and> check_homograph_name rev (ascii ''attaplugin'') [ascii ''attaplugin''] = None"
proof -
  have "imitates 0x0430 (of_char CHR ''a'')"
    by (auto simp: imitates_def CONFUSABLE_MAP_def)
  moreover have "\<not> imitates n b" if "n < 256" for n b
  proof
    assume "imitates n b"
    then obtain cs where "(b, cs) \<in> set CONFUSABLE_MAP" "n \<in> set cs"
      by (auto simp: imitates_def)
    moreover have "\<forall>e\<in>set CONFUSABLE_MAP. \<forall>n\<in>set (snd e). 256 \<le> n"
      by code_simp
    ultimately have "256 \<le> n"
      by (metis snd_conv)
    then show False
      using that by simp
  qed
  ultimately show ?thesis
    using homograph_check_is_exact[of id "ascii ''att'' @ [0x0430] @ ascii ''plugin''" "[ascii ''attaplugin'']"]
      homograph_check_is_exact[of rev "ascii ''attaplugin''" "[ascii ''attaplugin'']"]
    by (simp add: ascii_def)
qed

section \<open>What is unpacked\<close>

definition source_verified :: "'v store_lib \<Rightarrow> plugin_source \<Rightarrow> content \<Rightarrow> bool" where
  "source_verified lib source bytes \<longleftrightarrow>
     (case so_checksum source of
        None \<Rightarrow> prefix ''file://'' (so_download_url source)
      | Some c \<Rightarrow> ascii_lowercase (sl_sha256_hex lib bytes) = ascii_lowercase c)"

lemma install_stages:
  assumes "install_from_source lib root name source d = (r, d')"
  shows "d' = d \<and> (\<exists>e. r = Inl e)
    \<or> (\<exists>bytes d1 err. fetch_bytes lib (so_download_url source) d = Inr bytes \<and> source_verified lib source bytes
        \<and> std_create_dir_all root d = Inr d1
        \<and> extract_zip lib bytes (version_dir root (utf8_text name) (so_version source)) d1 = (err, d')
        \<and> (r = Inr (version_dir root (utf8_text name) (so_version source)) \<longleftrightarrow> err = None))"
proof (cases "so_checksum source = None \<and> \<not> prefix ''file://'' (so_download_url source)")
  case True
  then show ?thesis
    using assms by (auto simp: install_from_source_def)
next
  case open_source: False
  show ?thesis
  proof (cases "fetch_bytes lib (so_download_url source) d")
    case (Inl e)
    then show ?thesis
      using assms open_source by (auto simp: install_from_source_def)
  next
    case (Inr bytes)
    show ?thesis
    proof (cases "Option.bind (so_checksum source) (verify_checksum lib bytes)")
      case (Some e)
      then show ?thesis
        using assms open_source Inr by (auto simp: install_from_source_def)
    next
      case None
      then have ok: "source_verified lib source bytes"
        using open_source
        by (cases "so_checksum source") (auto simp: source_verified_def verify_checksum_def Let_def split: if_splits)
      show ?thesis
      proof (cases "std_create_dir_all root d")
        case (Inl k)
        then show ?thesis
          using assms open_source Inr None by (auto simp: install_from_source_def ensure_dirs_def)
      next
        case dirs: (Inr d1)
        obtain err d2 where x: "extract_zip lib bytes (version_dir root (utf8_text name) (so_version source)) d1 = (err, d2)"
          by (cases "extract_zip lib bytes (version_dir root (utf8_text name) (so_version source)) d1")
        then have "d2 = d'" "r = Inr (version_dir root (utf8_text name) (so_version source)) \<longleftrightarrow> err = None"
          using assms open_source Inr None dirs
          by (auto simp: install_from_source_def ensure_dirs_def Let_def split: option.splits if_splits)
        then show ?thesis
          using Inr ok dirs x by blast
      qed
    qed
  qed
qed

text \<open>What changed lies in the directory \<open>dest\<close>, or is a directory made on the way to it.\<close>

definition only_below :: "path \<Rightarrow> path set \<Rightarrow> disk \<Rightarrow> disk \<Rightarrow> bool" where
  "only_below dest way d d' \<longleftrightarrow> dk_real d' = dk_real d
     \<and> (\<forall>q. dk_node d' q \<noteq> dk_node d q \<longrightarrow>
          prefix dest q \<or> q \<in> way \<and> dk_node d q = None \<and> dk_node d' q = Some Dir)"

lemma only_below_refl [simp]: "only_below dest way d d"
  by (simp add: only_below_def)

lemma only_below_trans:
  assumes "only_below dest way a b" "only_below dest way b c"
  shows "only_below dest way a c"
  using assms unfolding only_below_def by metis

lemma ancestor_is_prefix: "q \<in> set (ancestors p) \<Longrightarrow> prefix q p"
proof (induction p rule: ancestors.induct)
  case (1 p)
  show ?case
  proof (cases "path_parent p")
    case None
    then show ?thesis
      using 1(2) by (subst (asm) ancestors.simps) simp
  next
    case (Some r)
    then have "q = p \<or> prefix q r"
      using 1 by (subst (asm) (2) ancestors.simps) auto
    moreover have "prefix r p"
      using Some by (auto simp: path_parent_def prefixeq_butlast split: if_splits)
    ultimately show ?thesis
      by (auto intro: prefix_order.trans)
  qed
qed

lemma mkdir_only_below:
  assumes "std_create_dir_all p d = Inr d'" "dk_real d = id" "\<And>q. prefix q p \<Longrightarrow> prefix dest q \<or> q \<in> way"
  shows "only_below dest way d d'"
proof -
  have "dk_real d' = dk_real d"
    using std_create_dir_all_InrD(1)[OF assms(1)] by (rule same_ground_real)
  moreover have "prefix dest q \<or> q \<in> way \<and> dk_node d q = None \<and> dk_node d' q = Some Dir"
    if "dk_node d' q \<noteq> dk_node d q" for q
    using that std_create_dir_all_InrD(2)[OF assms(1), of q] assms(3)[OF ancestor_is_prefix[of q p]]
    by (auto simp: assms(2) split: if_splits)
  ultimately show ?thesis
    by (simp add: only_below_def)
qed

definition enclosed :: "zip_entry \<Rightarrow> bool" where
  "enclosed e \<longleftrightarrow> (\<forall>p. ze_enclosed_name e = Some p \<longrightarrow> p \<noteq> [] \<and> names_only p)"

lemma enclosed_join:
  assumes "names_only p" "dest \<noteq> []"
  shows "path_join dest p = dest @ p"
proof -
  have "\<forall>c\<in>set p. c \<noteq> CurDir \<and> c \<noteq> RootDir"
    using assms(1) by (auto simp: names_only_def list_all_iff)
  then have "\<not> is_absolute p" "filter (\<lambda>c. c \<noteq> CurDir) p = p"
    by (cases p; auto simp: is_absolute_def filter_id_conv)+
  then show ?thesis
    using assms(2) by (simp add: path_join_def)
qed

lemma extract_entry_contained:
  assumes "extract_entry now dest e d = (err, d')" "dk_real d = id" "enclosed e" "dest \<noteq> []"
    and "\<And>q. prefix q dest \<Longrightarrow> q \<in> way"
  shows "only_below dest way d d'"
proof (cases "ze_enclosed_name e")
  case None
  then show ?thesis
    using assms(1) by (simp add: extract_entry_def)
next
  case (Some rel)
  then have rel: "rel \<noteq> []" "names_only rel"
    using assms(3) by (auto simp: enclosed_def)
  let ?out = "dest @ rel"
  have out: "path_join dest rel = ?out"
    using rel assms(4) by (intro enclosed_join)
  have way: "prefix dest q \<or> q \<in> way" if "prefix q ?out" for q
    using prefix_same_cases[OF that, of dest] assms(5) by auto
  show ?thesis
  proof (cases "ze_is_dir e")
    case True
    then show ?thesis
      using assms(1) Some mkdir_only_below[of ?out d d' dest way] way assms(2)
      by (auto simp: extract_entry_def out Let_def split: sum.splits)
  next
    case False
    have parent: "path_parent ?out = Some (butlast ?out)"
      using rel by (auto simp: path_parent_def names_only_def list_all_iff dest!: last_in_set)
    show ?thesis
    proof (cases "std_create_dir_all (butlast ?out) d")
      case (Inl k)
      then show ?thesis
        using assms(1) Some False parent by (simp add: extract_entry_def out)
    next
      case (Inr d1)
      have 1: "only_below dest way d d1"
        using mkdir_only_below[OF Inr assms(2)] way by (meson prefix_order.trans prefixeq_butlast)
      then have real: "dk_real d1 = id"
        using assms(2) by (simp add: only_below_def)
      show ?thesis
      proof (cases "std_write now ?out (ze_body e) d1")
        case (Inl k)
        then show ?thesis
          using assms(1) Some False parent Inr 1 by (simp add: extract_entry_def out)
      next
        case w: (Inr d2)
        then have "d' = put_node ?out (Some (File (ze_body e) now)) d1"
          using assms(1) Some False parent Inr std_write_InrD[OF w] real by (simp add: extract_entry_def out)
        then have "only_below dest way d1 d'"
          by (simp add: only_below_def)
        then show ?thesis
          using 1 only_below_trans by blast
      qed
    qed
  qed
qed

lemma extract_entries_contained:
  assumes "extract_entries now dest es d = (err, d')" "dk_real d = id" "\<forall>e. Inr e \<in> set es \<longrightarrow> enclosed e" "dest \<noteq> []"
    and way: "\<And>q. prefix q dest \<Longrightarrow> q \<in> way"
  shows "only_below dest way d d'"
  using assms(1-3)
proof (induction es arbitrary: d)
  case (Cons x es)
  show ?case
  proof (cases x)
    case (Inl m)
    then show ?thesis
      using Cons.prems(1) by simp
  next
    case (Inr e)
    obtain fault d1 where e: "extract_entry now dest e d = (fault, d1)"
      by (cases "extract_entry now dest e d")
    have "enclosed e"
      using Cons.prems(3) Inr by simp
    then have 1: "only_below dest way d d1"
      using extract_entry_contained[OF e Cons.prems(2) _ assms(4)] way by blast
    show ?thesis
    proof (cases fault)
      case None
      then have "extract_entries now dest es d1 = (err, d')"
        using Cons.prems(1) Inr e by simp
      moreover have "dk_real d1 = id"
        using 1 Cons.prems(2) unfolding only_below_def by metis
      ultimately have "only_below dest way d1 d'"
        using Cons.IH Cons.prems(3) by simp
      then show ?thesis
        using 1 only_below_trans by blast
    next
      case (Some f)
      then show ?thesis
        using Cons.prems(1) Inr e 1 by simp
    qed
  qed
qed simp


section \<open>Newest first\<close>

lemma versions_newest_first:
  "sorted_wrt (version_before lib) (list_versions lib root name d)"
proof -
  have sorted: "sorted_wrt (version_before lib) (sort_by (version_before lib) vs)" for vs
  proof (rule sorted_sort_by)
    show "version_before lib a b \<or> version_before lib b a" for a b
      using str_le_total[of a b] by (auto simp: version_before_def split: option.splits)
    show "version_before lib a c" if "version_before lib a b" "version_before lib b c" for a b c
      using that str_le_trans[of a b c] by (auto simp: version_before_def split: option.splits)
  qed
  then show ?thesis
    by (auto simp: list_versions_def Let_def split: option.splits)
qed

section \<open>A scene's plugin wins\<close>

lemma fold_update_lookup:
  "map_of (fold (\<lambda>p. AList.update (plugin_name p) p) ps m) n
     = (case List.find (\<lambda>p. plugin_name p = n) (rev ps) of Some p \<Rightarrow> Some p | None \<Rightarrow> map_of m n)"
proof (induction ps arbitrary: m)
  case (Cons p ps)
  have "List.find Q (xs @ [p]) = (case List.find Q xs of Some x \<Rightarrow> Some x | None \<Rightarrow> if Q p then Some p else None)" for Q and xs :: "plugin list"
    by (induction xs) auto
  then show ?case
    by (simp add: Cons.IH split: option.splits)
qed simp

lemma fold_update_distinct:
  "distinct (map fst m) \<Longrightarrow> distinct (map fst (fold (\<lambda>p. AList.update (plugin_name p) p) ps m))"
  by (induction ps arbitrary: m) (auto simp: distinct_update)

text \<open>
  Discovery gives each name once, in order: the plugin the scene has under it, else the one installed for all, whatever the
  order of the hash map.
\<close>

theorem discovery_prefers_scene:
  assumes "\<forall>xs. mset (ho xs) = mset xs"
  shows "sorted_wrt (\<lambda>a b. str_le (plugin_name a) (plugin_name b)) (discover_plugins ho lib plib global scene d)
    \<and> (\<forall>p. p \<in> set (discover_plugins ho lib plib global scene d) \<longleftrightarrow>
         List.find (\<lambda>q. plugin_name q = plugin_name p)
           (rev (load_installed_tier lib plib scene d) @ rev (load_installed_tier lib plib global d)) = Some p)"
proof -
  define ps where "ps = load_installed_tier lib plib global d @ load_installed_tier lib plib scene d"
  define m where "m = fold (\<lambda>p. AList.update (plugin_name p) p) ps []"
  have r: "discover_plugins ho lib plib global scene d
      = sort_by (\<lambda>a b. str_le (plugin_name a) (plugin_name b)) (map snd (hash_iter ho m))"
    by (simp add: discover_plugins_def m_def ps_def)
  have sorted: "sorted_wrt (\<lambda>a b. str_le (plugin_name a) (plugin_name b)) (discover_plugins ho lib plib global scene d)"
    unfolding r by (rule sorted_sort_by) (auto simp: str_le_total intro: str_le_trans)
  have found: "map_of m n = List.find (\<lambda>p. plugin_name p = n) (rev ps)" for n
    by (simp add: m_def fold_update_lookup split: option.splits)
  have "p \<in> set (discover_plugins ho lib plib global scene d)
      \<longleftrightarrow> List.find (\<lambda>q. plugin_name q = plugin_name p) (rev ps) = Some p" for p
  proof -
    have "p \<in> set (discover_plugins ho lib plib global scene d) \<longleftrightarrow> (\<exists>n. map_of m n = Some p)"
      unfolding r using set_hash_iter[OF assms, of m] by force
    also have "\<dots> \<longleftrightarrow> map_of m (plugin_name p) = Some p"
      unfolding found using find_SomeD by fastforce
    finally show ?thesis
      by (simp add: found)
  qed
  then show ?thesis
    using sorted by (simp add: ps_def)
qed

section \<open>On concrete stores\<close>

definition bare_disk :: "path list \<Rightarrow> disk" where
  "bare_disk dirs = \<lparr>dk_node = (\<lambda>q. if q \<in> set dirs then Some Dir else None), dk_real = id, dk_refuses = (\<lambda>_ _. None),
     dk_words = (\<lambda>_. ''no''), dk_utf8_words = (\<lambda>_. ''bad'')\<rparr>"

definition sample_zip :: "(string + zip_entry) list" where
  "sample_zip =
     [Inr \<lparr>ze_enclosed_name = Some [Normal ''plugin.toml''], ze_is_dir = False, ze_body = Utf8 ''toml'', ze_fault = None\<rparr>,
      Inr \<lparr>ze_enclosed_name = None, ze_is_dir = False, ze_body = Utf8 ''pwned'', ze_fault = None\<rparr>]"

definition sample_store_lib :: "nat store_lib" where
  "sample_store_lib =
     \<lparr>sl_order = id, sl_list_dir = (\<lambda>_ _. Some [''0.9.0'', ''latest'', ''0.10.0'']),
      sl_semver = (\<lambda>v. if v = ''0.10.0'' then Some 10 else Some 9), sl_sha256_hex = (\<lambda>_. ''ab''),
      sl_unzip = (\<lambda>_. Inr sample_zip), sl_get = (\<lambda>_. Inr (200, Utf8 ''zip'')),
      sl_entries = (\<lambda>_. Inr [\<lparr>re_name = ascii ''demo'', re_version = ''1.0.0'', re_description = [],
        re_download_url = ''https://x'', re_checksum = Some ''AB'', re_dependencies = []\<rparr>]), sl_now = 7\<rparr>"

definition sample_source :: "string option \<Rightarrow> plugin_source" where
  "sample_source c = \<lparr>so_download_url = ''https://x'', so_checksum = c, so_version = ''1.0.0''\<rparr>"


text \<open>The registry looks for a version named latest, so an update of a plugin with numbered versions finds none.\<close>

lemma update_never_finds_latest:
  "update_plugin sample_store_lib (Some (marketplace_new ''https://r/'')) root (ascii ''demo'') d
     = (Inl (PluginSchema ''plugin demo@latest not found in registry''), d)"
proof -
  have "resolve_source sample_store_lib (marketplace_new ''https://r/'') (ascii ''demo'') ''latest''
      = Inl (PluginSchema ''plugin demo@latest not found in registry'')"
    by code_simp
  then show ?thesis
    by (simp add: update_plugin_def Let_def)
qed

text \<open>Removing what is not there counts as one removal.\<close>

lemma absent_version_is_removed:
  "uninstall_plugin sample_store_lib [RootDir, Normal ''c''] (ascii ''demo'') (Some ''9'') (bare_disk [])
     = (Inr (command_result ''removed plugin 'demo' v9'' 0 1 0), bare_disk [])"
proof -
  have gone: "\<not> is_dir_at p (bare_disk [])" for p
    by (simp add: is_dir_at_def std_stat_def node_at_def bare_disk_def)
  have "''removed plugin '' @ quoted (ascii ''demo'') @ '' v9'' = ''removed plugin 'demo' v9''"
    by code_simp
  then show ?thesis
    by (simp add: uninstall_plugin_def remove_version_def gone)
qed

text \<open>A name with path parts reaches out of the cache: what stands beside it is removed.\<close>

definition link_free_disk :: "path list \<Rightarrow> disk" where
  "link_free_disk dirs = (bare_disk dirs)\<lparr>dk_real := normalize\<rparr>"

lemma uninstall_leaves_cache:
  "node_at (link_free_disk [path_of ''/p'', path_of ''/p/cache'', path_of ''/p/other'']) (path_of ''/p/other'') = Some Dir
   \<and> node_at (snd (uninstall_plugin sample_store_lib (path_of ''/p/cache'') (ascii ''..'') (Some ''other'')
        (link_free_disk [path_of ''/p'', path_of ''/p/cache'', path_of ''/p/other'']))) (path_of ''/p/other'') = None"
  by code_simp

text \<open>The newest version comes first, by version and not by text.\<close>

lemma versions_by_number:
  "list_versions sample_store_lib [RootDir] ''demo''
     (bare_disk [path_of ''/demo'', path_of ''/demo/0.9.0'', path_of ''/demo/0.10.0'', path_of ''/demo/latest''])
   = [''0.10.0'', ''0.9.0'']"
  by code_simp

end
