(* ===== verification/Spec2Isabelle.thy ===== *)
theory Spec2Isabelle
  imports Redaction Handler PathSafety TranscriptProps RecoveryProps Summaries HistoryProps SessionProps StreamingProps PolicyProps
    TurnProps TurnRecord TeamProps TaskListProps TaskStoreProps Rewind SessionToolsProps PluginCommands
begin

text \<open>
  A verification development for AttaCore, a library that runs agent sessions: it assembles prompts,
  calls a model, runs the tools the model asks for, and manages context and history.  Modelled here are the parts whose
  mistakes cost most: what decides whether a tool call may run, and how it is run; what decides which part of a conversation the model
  still sees; how a conversation is kept on disk; the turn that drives them all; and how agents share work: teams,
  their mail and locks, and lists of tasks.  All source names are
  below \<open>crates/\<close>.

  \<^bold>\<open>The parts and how they meet.\<close>  A tool call reaches \<open>RuleSetPermission::check\<close> (theory \<open>Handler\<close>),
  which looks the tool up, adds the session's own grants and asks the gate (\<open>Gate\<close>).  The gate asks the
  tool, then the rule engine (\<open>RuleSet\<close>), then the protected-path tests, then the permission mode and its
  classifier (\<open>Handler\<close>).  The rule engine reads rules (\<open>Rule\<close>), splits shell lines (\<open>Shell\<close>) and
  resolves paths (\<open>Paths\<close>, \<open>PathRule\<close>); file tools check their target once more (\<open>PathSafety\<close>).  Around the
  handler stands the dispatch of a call (\<open>Dispatch\<close>): hooks (\<open>Hooks\<close>) may block it or rewrite its input, then the
  handler is asked, then a person if need be, then the tool runs, all inside a ring of wrappers, and transformers
  have the last word on its result.
  A conversation is an append-only log of lines (\<open>Message\<close>) from which a projection rebuilds the messages
  (\<open>Transcript\<close>); before each call of the model the aging passes, the budget on tool results and the
  compaction strategies rewrite them (\<open>Tokens\<close>, \<open>Grouping\<close>, \<open>Compact\<close>, \<open>Recovery\<close>, \<open>Reactive\<close>,
  \<open>Summaries\<close>); what a compaction leaves is written back to the log as a line the projection treats as a
  boundary.  The log lives in a store (\<open>History\<close>, \<open>Jsonl\<close>) that a session writes to and resumes from
  (\<open>Session\<close>).  A turn (\<open>Agent\<close>, \<open>Turn\<close>) is a loop of steps: persist, compact, repair and send the request,
  recover from a refusal (\<open>Policies\<close>), consume the streamed reply and run its tools (\<open>Streaming\<close>), and stop or
  go on, taking in what the user sent meanwhile (\<open>Steering\<close>).
  Tools reach the rest: \<open>TeamCreate\<close> runs agents in stages (\<open>Coordinator\<close>) and records them (\<open>TeamRegistry\<close>), the
  agents of a team write each other through mailboxes (\<open>Mailbox\<close>), a directory of teams has one holder (\<open>Locks\<close>), and
  the task tools keep a list for each session (\<open>TaskList\<close>) and, in files, for several processes (\<open>TaskStore\<close>).

  \<^bold>\<open>Theories and sources.\<close>
  \<^item> \<open>Prelude\<close>, \<open>Json\<close>: Rust text (bytes, trimming, splitting, searching, decimal numbers) and
    \<open>serde_json\<close> values.
  \<^item> \<open>Permission\<close>: the vocabulary of \<open>core/src/permission.rs\<close>, \<open>core/src/settings.rs\<close> and the traits of
    \<open>core/src/interface\<close>: modes, behaviours, sources, decisions, clamping.
  \<^item> \<open>Rule\<close>: \<open>permissions/src/rule.rs\<close>, parsing, printing and loading of rules.
  \<^item> \<open>Shell\<close>, \<open>ShellProps\<close>: \<open>permissions/src/shell.rs\<close>, the word scanner and the splitter of a line into
    simple commands, and their specification on structured lines.
  \<^item> \<open>Paths\<close>, \<open>PathRule\<close>: \<open>std::path\<close> as the source uses it and \<open>permissions/src/path_rule.rs\<close>.
  \<^item> \<open>RuleSet\<close>, \<open>RuleSetProps\<close>: \<open>permissions/src/ruleset.rs\<close>, verdicts on texts, paths and shell lines.
  \<^item> \<open>RuleAudit\<close>: \<open>shadow.rs\<close>, \<open>dangerous.rs\<close> and \<open>settings_patch.rs\<close> of \<open>permissions/src\<close>.
  \<^item> \<open>Gate\<close>, \<open>GateProps\<close>: \<open>permissions/src/gate.rs\<close>, the whole check, the denial counters, the explainer.
  \<^item> \<open>Handler\<close>: \<open>rule_set_permission.rs\<close>, \<open>yolo.rs\<close> and \<open>llm_classifier.rs\<close> of \<open>permissions/src\<close>.
  \<^item> \<open>PathSafety\<close>: \<open>permissions/src/path_safety.rs\<close>, the check of a write with its walk over links.
  \<^item> \<open>Message\<close>, \<open>Transcript\<close>, \<open>TranscriptProps\<close>: \<open>core/src/message.rs\<close>, \<open>history/src/entry.rs\<close> and
    \<open>history/src/transcript.rs\<close>.
  \<^item> \<open>Tokens\<close>: the model's messages (\<open>core/src/interface/model.rs\<close>), \<open>core/src/text.rs\<close>, the token
    counters (\<open>core/src/interface/token_counter.rs\<close>, \<open>model/src/tokens.rs\<close>) with their memo table.
  \<^item> \<open>Grouping\<close>, \<open>Compact\<close>, \<open>CompactProps\<close>: rounds (\<open>compaction/src/grouping.rs\<close>), the strategies of
    \<open>compact.rs\<close> and the aging passes of \<open>time_based_mc.rs\<close> and \<open>cached.rs\<close>.
  \<^item> \<open>Recovery\<close>, \<open>RecoveryProps\<close>: the rest of \<open>compact.rs\<close>: the budget on results, what is given back after
    a compaction, the breakdown of a context.
  \<^item> \<open>Reactive\<close>: \<open>reactive.rs\<close>, \<open>cleanup.rs\<close> and the trait \<open>Compactor\<close> with its defaults and wrapper.
  \<^item> \<open>Summaries\<close>: \<open>session_memory.rs\<close> and \<open>llm_summary.rs\<close>.
  \<^item> \<open>Roots\<close>, \<open>History\<close>, \<open>Jsonl\<close>, \<open>Listing\<close>, \<open>HistoryProps\<close>: \<open>history/src\<close> without the transcript: where
    logs live (\<open>core/src/path.rs\<close>, \<open>path.rs\<close>), the store trait with its default methods and the in-memory backend, the
    file backend with blobs and sidecars, its listings and searches, and the observers.
  \<^item> \<open>Lossless\<close>: log lines are countable, so a codec that loses nothing exists.
  \<^item> \<open>Session\<close>, \<open>SessionProps\<close>: \<open>session/src/session.rs\<close>, the conversation and its log kept in step.
  \<^item> \<open>Streaming\<close>, \<open>StreamingProps\<close>: \<open>runtime/src/streaming.rs\<close>, one reply with its concurrent tool calls.
  \<^item> \<open>Policies\<close>, \<open>PolicyProps\<close>: the budget, recovery, backoff and turn policies of \<open>core/src/interface\<close> and the
    errors and retry loops of \<open>model/src/client.rs\<close> and \<open>model/src/openai/mod.rs\<close>.
  \<^item> \<open>Steering\<close>: \<open>runtime/src/steering.rs\<close>, messages sent while a turn runs.
  \<^item> \<open>Agent\<close>, \<open>Turn\<close>, \<open>TurnProps\<close>, \<open>TurnRecord\<close>: \<open>runtime/src/turn.rs\<close>: compaction inside a turn, the turn loop, its
    requests, and the turn against the log.
  \<^item> \<open>Ssrf\<close>, \<open>Hooks\<close>, \<open>HooksProps\<close>: \<open>hooks/src\<close> without its file watcher: configuration, matching, executors with the
    check of HTTP addresses, the runner with hooks that run once and hooks that are woken again.
  \<^item> \<open>Dispatch\<close>, \<open>DispatchProps\<close>, \<open>Redaction\<close>: the dispatch of a tool call in \<open>runtime/src/turn.rs\<close> with
    \<open>core/src/interface/tool_middleware.rs\<close>, \<open>tool_result.rs\<close>, \<open>elicitation.rs\<close> and \<open>runtime/src/elicitation.rs\<close>.
  \<^item> \<open>Serde\<close>: how a derived \<open>Deserialize\<close> reads the input of a tool.
  \<^item> \<open>TaskList\<close>, \<open>TaskListProps\<close>: \<open>tools/src/tasks.rs\<close>, \<open>task_output.rs\<close> and \<open>task_stop.rs\<close>.
  \<^item> \<open>TaskStore\<close>, \<open>TaskStoreProps\<close>: \<open>task/src/store.rs\<close> and \<open>running.rs\<close>.
  \<^item> \<open>Mailbox\<close>, \<open>MailboxProps\<close>: \<open>team/src/mailbox.rs\<close>, \<open>protocol.rs\<close> and \<open>polling.rs\<close>.
  \<^item> \<open>Locks\<close>: \<open>core/src/process_identity.rs\<close>, \<open>team/src/lock.rs\<close> and the lock of \<open>daemon/src/discovery.rs\<close>.
  \<^item> \<open>TeamRegistry\<close>, \<open>Coordinator\<close>, \<open>TeamProps\<close>: \<open>team/src/registry.rs\<close>, \<open>persist.rs\<close>, \<open>tool.rs\<close>, \<open>coordinator.rs\<close> and the
    worker's prompt of \<open>prompt.rs\<close>.

  \<^bold>\<open>How state and operations correspond.\<close>  A Rust struct is a record, an enum a datatype with the source's
  constructors, a method a function from the old state to the result and the new state.  Errors and panics
  are constructors of a result type.  Counters that could wrap are words of their width; sizes and indices
  of data in memory are natural numbers, whose subtraction is \<open>saturating_sub\<close>.  A hash map is an
  association list or a map, a lock is the sequence of the operations done under it.

  \<^bold>\<open>Parameters.\<close>  What the source only calls is an argument: the glob compiler, the home directory, the
  environment and \<open>canonicalize\<close> are fields of \<open>env\<close>; Unicode normalisation, the hash of a cache, the
  JSON printer and parser, the tokenizer, floating-point operations (record \<open>f64_ops\<close>), clocks and model
  calls are arguments of the functions that use them; a tool is the record \<open>tool\<close> of its methods.  No law is
  assumed of any of them, except where a property names it as a hypothesis.

  \<^bold>\<open>Interfaces.\<close>  \<open>rule_matcher\<close> (in \<open>RuleSetProps\<close>) is what the verdict loop needs of a matcher, interpreted
  for texts and for paths; \<open>allow_grants\<close> (in \<open>Handler\<close>) is the life of grants, interpreted for the handler;
  \<open>transcript_projection\<close> (in \<open>TranscriptProps\<close>) is the contract of a projection, interpreted for both of
  the source; \<open>round_grouping\<close> (in \<open>Grouping\<close>) is what the compaction strategies need of rounds, interpreted
  for \<open>group_by_api_round\<close>; \<open>history_log\<close> (in \<open>HistoryProps\<close>) is the contract of a store, interpreted for both
  backends; \<open>session_log\<close> extends it with what a session needs (in \<open>SessionProps\<close>) and \<open>session_log_total\<close>
  with a store that takes what it is given (in \<open>TurnRecord\<close>), both interpreted for both backends; \<open>permission_contract\<close> (in
  \<open>DispatchProps\<close>) is what dispatch needs of a permission checker, interpreted for the one the source ships; \<open>post_office\<close> (in \<open>MailboxProps\<close>) is
  what sending and draining promise, interpreted for the mailboxes; \<open>file_lock\<close> (in \<open>Locks\<close>) is what a lock file needs to
  have one holder, interpreted for the lock of a teams directory and that of a daemon.

  \<^bold>\<open>What is shown.\<close>  For permissions: which calls pass the gate, that a deny rule and a protected path are
  final, that verdicts refine deny over ask over allow, that a deny reaches every command of a shell line
  and every spelling of a path, that a checked write stays within its roots, that the handler fails closed,
  that rules survive printing and parsing.  For dispatch: a tool runs only on an input the checker permitted or a
  person approved, whatever hooks and wrappers do; a forbidden call never runs; a hook marked once starts once;
  redaction leaves no secret.  For the transcript: one-pass functions agree with re-projecting
  prefixes, messages keep their source line, a compaction is a boundary.  For compaction: rounds partition
  the conversation and never separate a result from its call, every strategy keeps the newest round, snip
  and full compaction keep what fits, blanking passes change bodies only, budgets are met, the circuit
  breaker counts.  For the store and the session: what was appended is loaded in order, a restart finds the
  log, a resume restores the conversation.  For a turn: every tool call of a reply is answered exactly once whatever
  the schedule, every request is paired, a turn ends within its ceiling, no message of the user is stranded, and
  however a turn ends its conversation is on record.  For agents that share work: mail arrives in order and survives a
  restart, a lock has one holder, a team run fails exactly when a member did and records its stages, a team keeps its first
  grant, its record of events is bounded; task ids are unique, sessions are separate, a task starts exactly when
  nothing it names is open, and a claim on a task file is exclusive.  Each theory ends with the properties of its component; the state machine of the breaker
  and the runs of the gate's counters and of grants are inductive or folds over events.

  \<^bold>\<open>Bounds.\<close>  No fuel is used: every loop is structural recursion or has a measure (the scanner's is the pair
  of the length of the text and what is left of it), except the retry loop of a client and the turn loop,
  which end only if their policies make them: those are \<open>partial_function (option)\<close>, and
  \<open>retries_end_within_ladder\<close> and \<open>turn_ends\<close> show that they return under the shipped policies.  Text is limited to U+0000..U+00FF, where Rust's
  character classes are written out; characters of messages outside it appear as their UTF-8 bytes or as
  parameters.

  \<^bold>\<open>What the model showed.\<close>  Theorems on concrete inputs in several theories exhibit behaviour
  that differs from what comments or neighbouring code intend, among them \<open>nested_brackets_hide_command\<close>,
  \<open>bracket_cwd_disarms_path_deny\<close>, \<open>yolo_gaps\<close>, \<open>root_write_panics\<close>, \<open>report_misses_extensions\<close>,
  \<open>cascade_discards_useful_snip\<close>, \<open>stale_pass_orphans\<close>, \<open>micro_compact_judges_by_last_call\<close> and
  \<open>wrapper_forgets_budget\<close>.

  \<^bold>\<open>Not modelled.\<close>  Processes, the network and asynchrony; what a turn pushes before its first step, prompts,
  the tools on files, shell, search and the web, the memory of teams, plugins, telemetry and the daemon beyond its lock; the
  wire formats of the providers; the serialized forms of messages and log lines; the printed form of a context
  breakdown.
\<close>

end
